(* ===== verification/Prelude.thy ===== *)
theory Prelude
  imports Main "HOL-Library.Word" "HOL-Library.State_Monad"
begin

text \<open>
  Shared vocabulary of the development: the machine integer types of the Go code, bytes and
  byte strings, the big- and little-endian encodings of \<open>encoding/binary\<close>, ASCII literals,
  and the generic facts about lists and words that the component theories share.
  A Go \<open>[]byte\<close> is a \<open>u8 list\<close>; where the code tells a nil slice from an empty one,
  the slice is a \<open>u8 list option\<close> with \<open>None\<close> for nil.
\<close>

unbundle bit_operations_syntax

type_synonym u8 = "8 word"
type_synonym u16 = "16 word"
type_synonym u32 = "32 word"
type_synonym u64 = "64 word"
type_synonym bytes = "u8 list"

named_theorems byte_simps \<open>byte encodings and their decoders\<close>

subsection \<open>Big- and little-endian encodings\<close>

text \<open>\<open>nbytes_be k v\<close> is the \<open>k\<close> low bytes of \<open>v\<close>, most significant first.\<close>

fun nbytes_be :: "nat \<Rightarrow> 'a::len word \<Rightarrow> bytes" where
  "nbytes_be 0 v = []"
| "nbytes_be (Suc k) v = ucast (drop_bit (8 * k) v) # nbytes_be k v"

definition be16 :: "u16 \<Rightarrow> bytes" where
  "be16 v = [ucast (drop_bit 8 v), ucast v]"

definition be32 :: "u32 \<Rightarrow> bytes" where
  "be32 v = [ucast (drop_bit 24 v), ucast (drop_bit 16 v), ucast (drop_bit 8 v), ucast v]"

definition be64 :: "u64 \<Rightarrow> bytes" where
  "be64 v = [ucast (drop_bit 56 v), ucast (drop_bit 48 v), ucast (drop_bit 40 v),
     ucast (drop_bit 32 v), ucast (drop_bit 24 v), ucast (drop_bit 16 v),
     ucast (drop_bit 8 v), ucast v]"

definition le16 :: "u16 \<Rightarrow> bytes" where
  "le16 v = [ucast v, ucast (drop_bit 8 v)]"

text \<open>\<open>of_be\<close> folds bytes into a word, as the Go loops \<open>v = v<<8 | uint64(c)\<close> do.\<close>

definition of_be_acc :: "'a::len word \<Rightarrow> bytes \<Rightarrow> 'a word" where
  "of_be_acc = foldl (\<lambda>v c. push_bit 8 v OR ucast c)"

definition of_be :: "bytes \<Rightarrow> 'a::len word" where
  "of_be bs = of_be_acc 0 bs"

definition of_le16 :: "bytes \<Rightarrow> u16" where
  "of_le16 bs = of_be (rev bs)"

lemma be16_eq: "be16 v = nbytes_be 2 v"
  by (simp add: be16_def numeral_2_eq_2)

lemma be32_eq: "be32 v = nbytes_be 4 v"
  by (simp add: be32_def numeral_eq_Suc)

lemma be64_eq: "be64 v = nbytes_be 8 v"
  by (simp add: be64_def numeral_eq_Suc)

lemma length_nbytes_be [simp, byte_simps]: "length (nbytes_be k v) = k"
  by (induction k) auto

lemma length_be [simp, byte_simps]:
  "length (be16 a) = 2" "length (be32 b) = 4" "length (be64 c) = 8" "length (le16 a) = 2"
  by (simp_all add: be16_def be32_def be64_def le16_def)

text \<open>Decoding what was encoded: \<open>k\<close> bytes carry the low \<open>8 * k\<close> bits.\<close>

lemma shift_or_byte:
  fixes v :: "'a::len word"
  shows "push_bit 8 (drop_bit (8 * Suc k) v) OR ucast (ucast (drop_bit (8 * k) v) :: u8)
       = drop_bit (8 * k) v"
  by (rule bit_word_eqI)
     (auto simp: bit_simps algebra_simps le_diff_conv2 dest: bit_imp_le_length)

lemma of_be_acc_nbytes:
  fixes v :: "'a::len word"
  shows "of_be_acc (drop_bit (8 * k) v) (nbytes_be k v) = v"
proof (induction k)
  case 0
  then show ?case by (simp add: of_be_acc_def)
next
  case (Suc k)
  then show ?case
    using shift_or_byte [of k v] by (simp add: of_be_acc_def)
qed

lemma of_be_nbytes:
  fixes v :: "'a::len word"
  assumes "drop_bit (8 * k) v = 0"
  shows "of_be (nbytes_be k v) = v"
  using of_be_acc_nbytes [of k v] assms by (simp add: of_be_def)

lemma drop_bit_len_0: "LENGTH('a) \<le> n \<Longrightarrow> drop_bit n (v :: 'a::len word) = 0"
  by (rule bit_word_eqI) (auto simp: bit_simps dest: bit_imp_le_length)

lemma of_be_be [simp, byte_simps]:
  "of_be (be16 a) = a" "of_be (be32 b) = b" "of_be (be64 c) = c"
  by (simp_all add: be16_eq be32_eq be64_eq of_be_nbytes drop_bit_len_0)

lemma of_le16_le16 [simp, byte_simps]: "of_le16 (le16 a) = a"
proof -
  have "of_le16 (le16 a) = of_be (be16 a)"
    by (simp add: of_le16_def le16_def be16_def)
  then show ?thesis by simp
qed

subsection \<open>ASCII literals\<close>

definition asc :: "string \<Rightarrow> bytes" where
  "asc s = map (\<lambda>c. word_of_nat (of_char c)) s"

lemma asc_simps [simp]: "asc [] = []" "asc (c # s) = word_of_nat (of_char c) # asc s"
  by (simp_all add: asc_def)

lemma asc_append: "asc (s @ t) = asc s @ asc t"
  by (simp add: asc_def)

subsection \<open>Two's complement reading of machine integers\<close>

text \<open>Go's conversion of an integer to a signed type of \<open>w\<close> bits keeps the low bits.\<close>

definition wrap_signed :: "nat \<Rightarrow> int \<Rightarrow> int" where
  "wrap_signed w x = (x + 2 ^ (w - 1)) mod 2 ^ w - 2 ^ (w - 1)"

definition int32_of :: "int \<Rightarrow> int" where
  "int32_of = wrap_signed 32"

definition int64_of :: "int \<Rightarrow> int" where
  "int64_of = wrap_signed 64"

definition int8_of :: "int \<Rightarrow> int" where
  "int8_of = wrap_signed 8"

lemma wrap_signed_id:
  assumes "0 < w" "- (2 ^ (w - 1)) \<le> x" "x < 2 ^ (w - 1)"
  shows "wrap_signed w x = x"
proof -
  have e: "(2::int) ^ w = 2 * 2 ^ (w - 1)"
    using assms(1) by (simp flip: power_Suc)
  have "(x + 2 ^ (w - 1)) mod 2 ^ w = x + 2 ^ (w - 1)"
    by (rule mod_pos_pos_trivial) (use assms e in auto)
  then show ?thesis by (simp add: wrap_signed_def)
qed

lemma wrap_signed_range:
  assumes "0 < w"
  shows "- (2 ^ (w - 1)) \<le> wrap_signed w x \<and> wrap_signed w x < 2 ^ (w - 1)"
proof -
  have e: "(2::int) ^ w = 2 * 2 ^ (w - 1)"
    using assms by (simp flip: power_Suc)
  have "0 \<le> (x + 2 ^ (w - 1)) mod 2 ^ w" "(x + 2 ^ (w - 1)) mod 2 ^ w < 2 ^ w"
    by auto
  then show ?thesis using e by (simp add: wrap_signed_def)
qed

subsection \<open>Go integer division truncates towards zero\<close>

definition go_div :: "int \<Rightarrow> int \<Rightarrow> int" where
  "go_div a b = sgn a * sgn b * (\<bar>a\<bar> div \<bar>b\<bar>)"

definition go_mod :: "int \<Rightarrow> int \<Rightarrow> int" where
  "go_mod a b = a - go_div a b * b"

lemma go_div_nonneg [simp]: "0 \<le> a \<Longrightarrow> 0 < b \<Longrightarrow> go_div a b = a div b"
  by (cases "a = 0") (auto simp: go_div_def)

lemma go_mod_nonneg [simp]: "0 \<le> a \<Longrightarrow> 0 < b \<Longrightarrow> go_mod a b = a mod b"
  by (simp add: go_mod_def minus_div_mult_eq_mod)

subsection \<open>Decimal rendering\<close>

text \<open>\<open>strconv\<close> and \<open>%d\<close> print an integer in decimal with a leading minus sign.\<close>

fun dec_nat :: "nat \<Rightarrow> string" where
  "dec_nat n = (if n < 10 then [char_of (48 + n)] else dec_nat (n div 10) @ [char_of (48 + n mod 10)])"

declare dec_nat.simps [simp del]

definition dec_int :: "int \<Rightarrow> string" where
  "dec_int i = (if i < 0 then CHR ''-'' # dec_nat (nat (- i)) else dec_nat (nat i))"

subsection \<open>Go's \<open>if err != nil { return err }\<close>\<close>

text \<open>
  A fallible operation returns a sum, \<open>Inl\<close> the error. \<open>andThen\<close> is the chain of calls with an
  early return on error; \<open>result_post\<close> is the Hoare-style judgement over it, with one predicate
  for the errors and one for the value, and its rules are collected in \<open>post_rules\<close>.
\<close>

definition andThen :: "'e + 'a \<Rightarrow> ('a \<Rightarrow> 'e + 'b) \<Rightarrow> 'e + 'b" where
  "andThen m f = (case m of Inl e \<Rightarrow> Inl e | Inr x \<Rightarrow> f x)"

lemma andThen_simps [simp]: "andThen (Inl e) f = Inl e" "andThen (Inr x) f = f x"
  by (simp_all add: andThen_def)

lemma andThen_cong [fundef_cong]:
  "m = m' \<Longrightarrow> (\<And>x. m' = Inr x \<Longrightarrow> f x = f' x) \<Longrightarrow> andThen m f = andThen m' f'"
  by (auto simp: andThen_def split: sum.split)

lemma andThen_eq_Inr: "andThen m f = Inr y \<longleftrightarrow> (\<exists>x. m = Inr x \<and> f x = Inr y)"
  by (cases m) auto

lemma andThen_eq_Inl: "andThen m f = Inl e \<longleftrightarrow> m = Inl e \<or> (\<exists>x. m = Inr x \<and> f x = Inl e)"
  by (cases m) auto

lemma andThen_assoc: "andThen (andThen m f) g = andThen m (\<lambda>x. andThen (f x) g)"
  by (cases m) auto

definition result_post :: "('e \<Rightarrow> bool) \<Rightarrow> ('a \<Rightarrow> bool) \<Rightarrow> 'e + 'a \<Rightarrow> bool" where
  "result_post E P r = (case r of Inl e \<Rightarrow> E e | Inr x \<Rightarrow> P x)"

named_theorems post_rules \<open>rules of the judgement on fallible results\<close>

lemma result_post_simps [simp]: "result_post E P (Inl e) = E e" "result_post E P (Inr x) = P x"
  by (simp_all add: result_post_def)

lemma result_post_andThen:
  assumes "result_post E P m" "\<And>x. P x \<Longrightarrow> result_post E Q (f x)"
  shows "result_post E Q (andThen m f)"
  using assms by (cases m) auto

lemma result_post_if [post_rules]:
  "(b \<Longrightarrow> result_post E P x) \<Longrightarrow> (\<not> b \<Longrightarrow> result_post E P y) \<Longrightarrow> result_post E P (if b then x else y)"
  by simp

lemma result_post_mono: "result_post E P r \<Longrightarrow> (\<And>x. P x \<Longrightarrow> Q x) \<Longrightarrow> result_post E Q r"
  by (cases r) auto

end
