(* ===== verification/Rowid.thy ===== *)
theory Rowid
  imports Prelude
begin

text \<open>
  \<^verbatim>\<open>internal/oratype/rowid.go\<close>: the display form of physical and universal rowids.
  \<open>convertBase64\<close> writes \<open>sz\<close> characters of the value at \<open>offset\<close>, low bits last;
  the fixed buffer of 18 bytes is a list updated in place.
\<close>

definition base64Alphabet :: bytes where
  "base64Alphabet = asc ''ABCDEFGHIJKLMNOPQRSTUVWXYZabcdefghijklmnopqrstuvwxyz0123456789+/''"

definition b64 :: "u64 \<Rightarrow> u8" where
  "b64 v = base64Alphabet ! unat (v AND 0x3f)"

text \<open>The loop \<open>for i := 0; i < size; i++\<close> with \<open>i\<close> counted up from the argument.\<close>

fun convertBase64_loop :: "bytes \<Rightarrow> u64 \<Rightarrow> nat \<Rightarrow> nat \<Rightarrow> nat \<Rightarrow> nat \<Rightarrow> bytes" where
  "convertBase64_loop buf value sz offset i 0 = buf"
| "convertBase64_loop buf value sz offset i (Suc n) =
     convertBase64_loop (buf[offset + sz - i - 1 := b64 value]) (drop_bit 6 value) sz offset (Suc i) n"

definition convertBase64 :: "bytes \<Rightarrow> u64 \<Rightarrow> nat \<Rightarrow> nat \<Rightarrow> bytes \<times> nat" where
  "convertBase64 buf value sz offset =
     (convertBase64_loop buf value sz offset 0 sz, offset + sz)"

definition EncodeRowid :: "u32 \<Rightarrow> u16 \<Rightarrow> u32 \<Rightarrow> u16 \<Rightarrow> bytes" where
  "EncodeRowid rba partitionID blockNum slotNum =
     (if rba = 0 \<and> partitionID = 0 \<and> blockNum = 0 \<and> slotNum = 0 then []
      else
        let buf = replicate 18 0;
            (buf, off) = convertBase64 buf (ucast rba) 6 0;
            (buf, off) = convertBase64 buf (ucast partitionID) 3 off;
            (buf, off) = convertBase64 buf (ucast blockNum) 6 off;
            (buf, off) = convertBase64 buf (ucast slotNum) 3 off
        in buf)"

text \<open>
  The logical form: the loop over groups of three bytes, on the bytes after the first.
  \<open>inputLen\<close> counts the bytes left, so the recursion is on the rest of the input.
\<close>

fun urowid_loop :: "bytes \<Rightarrow> bytes \<Rightarrow> bytes" where
  "urowid_loop out [] = out"
| "urowid_loop out [a] =
     out @ [base64Alphabet ! unat (drop_bit 2 a), base64Alphabet ! unat (push_bit 4 (a AND 3))]"
| "urowid_loop out [a, b] =
     out @ [base64Alphabet ! unat (drop_bit 2 a),
            base64Alphabet ! unat (push_bit 4 (a AND 3) OR drop_bit 4 (b AND 0xf0)),
            base64Alphabet ! unat (push_bit 2 (b AND 0xf))]"
| "urowid_loop out (a # b # c # rest) =
     urowid_loop
       (out @ [base64Alphabet ! unat (drop_bit 2 a),
               base64Alphabet ! unat (push_bit 4 (a AND 3) OR drop_bit 4 (b AND 0xf0)),
               base64Alphabet ! unat (push_bit 2 (b AND 0xf) OR drop_bit 6 (c AND 0xc0)),
               base64Alphabet ! unat (c AND 0x3f)]) rest"

definition DecodeURowid :: "bytes \<Rightarrow> bytes" where
  "DecodeURowid inp =
     (if length inp < 13 then []
      else if inp ! 0 = 1 then
        EncodeRowid (of_be (take 4 (drop 1 inp))) (of_be (take 2 (drop 5 inp)))
          (of_be (take 4 (drop 7 inp))) (of_be (take 2 (drop 11 inp)))
      else urowid_loop (asc ''*'') (tl inp))"

text \<open>The capacity \<open>DecodeURowid\<close> reserves for its result.\<close>

definition urowid_outputLen :: "nat \<Rightarrow> nat" where
  "urowid_outputLen inputLen =
     (inputLen div 3) * 4 + (if inputLen mod 3 = 1 then 1 else if inputLen mod 3 = 2 then 3 else 0)"

subsection \<open>The alphabet\<close>

lemma length_alphabet [simp]: "length base64Alphabet = 64"
  by (simp add: base64Alphabet_def asc_def)

lemma distinct_alphabet: "distinct base64Alphabet"
  by code_simp

lemma sextet_bound: "unat ((v :: u64) AND 0x3f) < 64"
proof -
  have "unat (v AND 0x3f) \<le> unat (0x3f :: u64)"
    by (rule word_and_le1 [THEN word_le_nat_alt [THEN iffD1]])
  then show ?thesis by simp
qed

lemma b64_inj: "b64 v = b64 w \<longleftrightarrow> v AND 0x3f = w AND 0x3f"
  using nth_eq_iff_index_eq [OF distinct_alphabet, of "unat (v AND 0x3f)" "unat (w AND 0x3f)"]
    sextet_bound [of v] sextet_bound [of w]
  by (auto simp: b64_def word_unat_eq_iff)

subsection \<open>The digits of a value, most significant first\<close>

fun b64_digits :: "nat \<Rightarrow> u64 \<Rightarrow> bytes" where
  "b64_digits 0 v = []"
| "b64_digits (Suc n) v = b64_digits n (drop_bit 6 v) @ [b64 v]"

lemma length_b64_digits [simp]: "length (b64_digits n v) = n"
  by (induction n arbitrary: v) auto

lemma convertBase64_loop_eq:
  assumes "length pre = offset" "length ws = n"
  shows "convertBase64_loop (pre @ ws @ post) v (i + n) offset i n = pre @ b64_digits n v @ post"
  using assms(2)
proof (induction n arbitrary: ws post v i)
  case 0
  then show ?case by simp
next
  case (Suc n)
  then obtain us w where ws: "ws = us @ [w]" "length us = n"
    by (cases ws rule: rev_cases) auto
  have "(pre @ ws @ post)[offset + (i + Suc n) - i - 1 := b64 v] = pre @ us @ (b64 v # post)"
    using assms(1) ws by (simp add: list_update_append)
  then show ?case
    using Suc.IH [OF ws(2), of "b64 v # post" "drop_bit 6 v" "Suc i"] by simp
qed

lemma convertBase64_eq:
  assumes "offset + n \<le> length buf"
  shows "convertBase64 buf v n offset =
    (take offset buf @ b64_digits n v @ drop (offset + n) buf, offset + n)"
proof -
  have "buf = take offset buf @ take n (drop offset buf) @ drop (offset + n) buf"
    by (metis append_take_drop_id drop_drop add.commute)
  then show ?thesis
    using convertBase64_loop_eq [of "take offset buf" offset "take n (drop offset buf)" n
        "drop (offset + n) buf" v 0] assms
    by (simp add: convertBase64_def)
qed

lemma EncodeRowid_digits:
  assumes "\<not> (rba = 0 \<and> p = 0 \<and> blk = 0 \<and> slot = 0)"
  shows "EncodeRowid rba p blk slot =
    b64_digits 6 (ucast rba) @ b64_digits 3 (ucast p) @ b64_digits 6 (ucast blk) @ b64_digits 3 (ucast slot)"
  using assms by (auto simp: EncodeRowid_def convertBase64_eq)

lemma drop_bit_6_eqI:
  assumes "drop_bit 6 v = drop_bit 6 w" "v AND 0x3f = w AND (0x3f :: u64)"
  shows "v = w"
proof -
  have "v = push_bit 6 (drop_bit 6 v) OR (v AND mask 6)" for v :: u64
    by (rule bit_word_eqI) (auto simp: bit_simps)
  moreover have "mask 6 = (0x3f :: u64)" by (simp add: mask_eq_exp_minus_1)
  ultimately show ?thesis using assms by metis
qed

lemma b64_digits_inj:
  "b64_digits n v = b64_digits n w \<Longrightarrow> drop_bit (6 * n) v = drop_bit (6 * n) w \<Longrightarrow> v = w"
proof (induction n arbitrary: v w)
  case 0
  then show ?case by simp
next
  case (Suc n)
  have "drop_bit 6 v = drop_bit 6 w"
    by (rule Suc.IH) (use Suc.prems in \<open>simp_all add: algebra_simps\<close>)
  moreover have "v AND 0x3f = w AND 0x3f"
    using Suc.prems by (simp add: b64_inj)
  ultimately show ?case by (rule drop_bit_6_eqI)
qed

lemma b64_digits_ucast_inj:
  fixes v w :: "'a::len word"
  assumes "b64_digits n (ucast v) = b64_digits n (ucast w)" "LENGTH('a) \<le> 6 * n" "LENGTH('a) \<le> 64"
  shows "v = w"
proof -
  have z: "drop_bit (6 * n) (ucast u :: u64) = 0" for u :: "'a word"
    using assms(2) by (intro bit_word_eqI) (auto simp: bit_simps dest: bit_imp_le_length)
  have "(ucast v :: u64) = ucast w"
    by (rule b64_digits_inj [OF assms(1)]) (simp add: z)
  then have e: "bit (ucast v :: u64) n = bit (ucast w :: u64) n" for n
    by simp
  show ?thesis
  proof (rule bit_word_eqI)
    fix n assume "n < LENGTH('a)"
    then show "bit v n = bit w n"
      using e [of n] assms(3) by (simp add: bit_simps)
  qed
qed

lemma length_EncodeRowid:
  "length (EncodeRowid rba p blk slot) = (if rba = 0 \<and> p = 0 \<and> blk = 0 \<and> slot = 0 then 0 else 18)"
proof (cases "rba = 0 \<and> p = 0 \<and> blk = 0 \<and> slot = 0")
  case True
  then show ?thesis by (simp add: EncodeRowid_def)
next
  case False
  then show ?thesis by (simp add: EncodeRowid_digits [OF False])
qed

text \<open>Property C31. Distinct physical rowids have distinct display strings, and the all-zero rowid
  is the only one shown as the empty string; every other string has 18 characters.\<close>

theorem EncodeRowid_injective:
  "EncodeRowid r1 p1 b1 s1 = EncodeRowid r2 p2 b2 s2 \<longleftrightarrow> r1 = r2 \<and> p1 = p2 \<and> b1 = b2 \<and> s1 = s2"
proof
  assume eq: "EncodeRowid r1 p1 b1 s1 = EncodeRowid r2 p2 b2 s2"
  show "r1 = r2 \<and> p1 = p2 \<and> b1 = b2 \<and> s1 = s2"
  proof (cases "(r1 = 0 \<and> p1 = 0 \<and> b1 = 0 \<and> s1 = 0) \<or> (r2 = 0 \<and> p2 = 0 \<and> b2 = 0 \<and> s2 = 0)")
    case True
    then show ?thesis
      using arg_cong [OF eq, of length] by (auto simp: length_EncodeRowid split: if_splits)
  next
    case False
    then have "b64_digits 6 (ucast r1) = b64_digits 6 (ucast r2)" "b64_digits 3 (ucast p1) = b64_digits 3 (ucast p2)"
      "b64_digits 6 (ucast b1) = b64_digits 6 (ucast b2)" "b64_digits 3 (ucast s1) = b64_digits 3 (ucast s2)"
      using eq EncodeRowid_digits [of r1 p1 b1 s1] EncodeRowid_digits [of r2 p2 b2 s2]
      by (simp_all only: append_eq_append_conv length_b64_digits length_append de_Morgan_disj simp_thms)
    then show ?thesis
      using b64_digits_ucast_inj [of 6 r1 r2] b64_digits_ucast_inj [of 3 p1 p2]
        b64_digits_ucast_inj [of 6 b1 b2] b64_digits_ucast_inj [of 3 s1 s2] by simp
  qed
qed simp

end
