(* ===== verification/Floats.thy ===== *)
theory Floats
  imports Prelude
begin

text \<open>
  \<^verbatim>\<open>internal/oratype/float.go\<close>: BINARY_FLOAT and BINARY_DOUBLE. A Go \<open>float64\<close> is the 64-bit
  pattern that \<open>math.Float64bits\<close> returns, and \<open>math.Float64frombits\<close> is the identity on it
  (likewise \<open>float32\<close> with 32 bits). The wire form flips the sign bit of values whose sign bit
  is clear and complements all bits of the others.
\<close>

datatype float_error = FloatTooShort

definition DecodeBinaryDouble :: "bytes \<Rightarrow> float_error + u64" where
  "DecodeBinaryDouble b =
     (if length b < 8 then Inl FloatTooShort
      else
        let v = take 8 b;
            v = (if v ! 0 AND 0x80 \<noteq> 0 then v[0 := v ! 0 AND 0x7f] else map NOT v)
        in Inr (push_bit 56 (ucast (v ! 0)) OR push_bit 48 (ucast (v ! 1)) OR
                push_bit 40 (ucast (v ! 2)) OR push_bit 32 (ucast (v ! 3)) OR
                push_bit 24 (ucast (v ! 4)) OR push_bit 16 (ucast (v ! 5)) OR
                push_bit 8 (ucast (v ! 6)) OR ucast (v ! 7)))"

definition DecodeBinaryFloat :: "bytes \<Rightarrow> float_error + u32" where
  "DecodeBinaryFloat b =
     (if length b < 4 then Inl FloatTooShort
      else
        let v = take 4 b;
            v = (if v ! 0 AND 0x80 \<noteq> 0 then v[0 := v ! 0 AND 0x7f] else map NOT v)
        in Inr (push_bit 24 (ucast (v ! 0)) OR push_bit 16 (ucast (v ! 1)) OR
                push_bit 8 (ucast (v ! 2)) OR ucast (v ! 3)))"

text \<open>The loop \<open>for i := n-1; i >= 0; i--\<close> that peels the low byte off the bits.\<close>

fun peel_bytes :: "nat \<Rightarrow> 'a::len word \<Rightarrow> bytes \<Rightarrow> bytes" where
  "peel_bytes 0 bits v = v"
| "peel_bytes (Suc n) bits v = peel_bytes n (drop_bit 8 bits) (ucast bits # v)"

definition EncodeBinaryDouble :: "bytes \<Rightarrow> u64 \<Rightarrow> bytes" where
  "EncodeBinaryDouble dst f =
     (let v = peel_bytes 8 f [];
          v = (if v ! 0 AND 0x80 = 0 then v[0 := v ! 0 OR 0x80] else map NOT v)
      in dst @ v)"

definition EncodeBinaryFloat :: "bytes \<Rightarrow> u32 \<Rightarrow> bytes" where
  "EncodeBinaryFloat dst f =
     (let v = peel_bytes 4 f [];
          v = (if v ! 0 AND 0x80 = 0 then v[0 := v ! 0 OR 0x80] else map NOT v)
      in dst @ v)"

subsection \<open>The peeled bytes are the big-endian encoding\<close>

lemma nbytes_be_snoc: "nbytes_be (Suc n) v = nbytes_be n (drop_bit 8 v) @ [ucast v]"
  by (induction n) (simp_all add: algebra_simps)

lemma peel_bytes_eq: "peel_bytes n v acc = nbytes_be n v @ acc"
  by (induction n arbitrary: v acc) (simp_all add: nbytes_be_snoc del: nbytes_be.simps(2))

lemma peel_be64: "peel_bytes 8 v [] = be64 v"
  by (simp add: peel_bytes_eq be64_eq)

lemma peel_be32: "peel_bytes 4 v [] = be32 v"
  by (simp add: peel_bytes_eq be32_eq)

subsection \<open>The wire form as an operation on the whole pattern\<close>

text \<open>\<open>wire64\<close> and \<open>wire32\<close> are the specification: what the wire bytes read as, big-endian.\<close>

definition wire64 :: "u64 \<Rightarrow> u64" where
  "wire64 f = (if bit f 63 then NOT f else set_bit 63 f)"

definition wire32 :: "u32 \<Rightarrow> u32" where
  "wire32 f = (if bit f 31 then NOT f else set_bit 31 f)"

lemma sign_byte_iff: "(x :: u8) AND 0x80 = 0 \<longleftrightarrow> \<not> bit x 7"
proof -
  have "(0x80 :: u8) = push_bit 7 1" by simp
  then show ?thesis
    by (metis and_exp_eq_0_iff_not_bit push_bit_of_1)
qed

lemma length_8_cases:
  assumes "length b = 8"
  obtains b0 b1 b2 b3 b4 b5 b6 b7 where "b = [b0, b1, b2, b3, b4, b5, b6, b7]"
  using assms by (auto simp: numeral_eq_Suc length_Suc_conv)

lemma length_4_cases:
  assumes "length b = 4"
  obtains b0 b1 b2 b3 where "b = [b0, b1, b2, b3]"
  using assms by (auto simp: numeral_eq_Suc length_Suc_conv)

lemma or_80: "(x :: u8) OR 0x80 = set_bit 7 x"
  by (simp add: set_bit_eq_or)

lemma and_7f: "(x :: u8) AND 0x7f = unset_bit 7 x"
proof -
  have m: "(0x7f :: u8) = mask 7" by (simp add: mask_eq_exp_minus_1)
  show ?thesis unfolding m by (auto intro!: bit_word_eqI simp: bit_simps)
qed

lemma be64_NOT: "map NOT (be64 f) = be64 (NOT f)"
  by (simp add: be64_def) (auto intro!: bit_word_eqI simp: bit_simps)

lemma be32_NOT: "map NOT (be32 f) = be32 (NOT f)"
  by (simp add: be32_def) (auto intro!: bit_word_eqI simp: bit_simps)

lemma be64_set_sign: "(be64 f)[0 := set_bit 7 (be64 f ! 0)] = be64 (set_bit 63 f)"
  by (simp add: be64_def) (auto intro!: bit_word_eqI simp: bit_simps)

lemma be32_set_sign: "(be32 f)[0 := set_bit 7 (be32 f ! 0)] = be32 (set_bit 31 f)"
  by (simp add: be32_def) (auto intro!: bit_word_eqI simp: bit_simps)

lemma be64_unset_sign: "(be64 f)[0 := unset_bit 7 (be64 f ! 0)] = be64 (unset_bit 63 f)"
  by (simp add: be64_def) (auto intro!: bit_word_eqI simp: bit_simps)

lemma be32_unset_sign: "(be32 f)[0 := unset_bit 7 (be32 f ! 0)] = be32 (unset_bit 31 f)"
  by (simp add: be32_def) (auto intro!: bit_word_eqI simp: bit_simps)

lemma be_sign: "bit (be64 f ! 0) 7 = bit f 63" "bit (be32 g ! 0) 7 = bit g 31"
  by (simp_all add: be64_def be32_def bit_simps)

lemmas sign_rules = sign_byte_iff or_80 and_7f be64_NOT be32_NOT be64_set_sign be32_set_sign
  be64_unset_sign be32_unset_sign be_sign peel_be64 peel_be32

lemma EncodeBinaryDouble_wire: "EncodeBinaryDouble dst f = dst @ be64 (wire64 f)"
  by (simp add: EncodeBinaryDouble_def wire64_def Let_def sign_rules)

lemma EncodeBinaryFloat_wire: "EncodeBinaryFloat dst f = dst @ be32 (wire32 f)"
  by (simp add: EncodeBinaryFloat_def wire32_def Let_def sign_rules)

definition unwire64 :: "u64 \<Rightarrow> u64" where
  "unwire64 w = (if bit w 63 then unset_bit 63 w else NOT w)"

definition unwire32 :: "u32 \<Rightarrow> u32" where
  "unwire32 w = (if bit w 31 then unset_bit 31 w else NOT w)"

lemma or_of_bytes64:
  assumes "length v = 8"
  shows "push_bit 56 (ucast (v ! 0)) OR push_bit 48 (ucast (v ! 1)) OR push_bit 40 (ucast (v ! 2)) OR
    push_bit 32 (ucast (v ! 3)) OR push_bit 24 (ucast (v ! 4)) OR push_bit 16 (ucast (v ! 5)) OR
    push_bit 8 (ucast (v ! 6)) OR ucast (v ! 7) = (of_be v :: u64)"
proof -
  obtain b0 b1 b2 b3 b4 b5 b6 b7 where "v = [b0, b1, b2, b3, b4, b5, b6, b7]"
    using assms by (rule length_8_cases)
  then show ?thesis
    by (simp add: of_be_def of_be_acc_def push_bit_or push_bit_push_bit or.assoc)
qed

lemma or_of_bytes32:
  assumes "length v = 4"
  shows "push_bit 24 (ucast (v ! 0)) OR push_bit 16 (ucast (v ! 1)) OR
    push_bit 8 (ucast (v ! 2)) OR ucast (v ! 3) = (of_be v :: u32)"
proof -
  obtain b0 b1 b2 b3 where "v = [b0, b1, b2, b3]"
    using assms by (rule length_4_cases)
  then show ?thesis
    by (simp add: of_be_def of_be_acc_def push_bit_or push_bit_push_bit or.assoc)
qed

lemma DecodeBinaryDouble_be64:
  "DecodeBinaryDouble (be64 w @ rest) = Inr (unwire64 w)"
  by (simp add: DecodeBinaryDouble_def Let_def unwire64_def sign_rules or_of_bytes64
      del: One_nat_def)

lemma DecodeBinaryFloat_be32:
  "DecodeBinaryFloat (be32 w @ rest) = Inr (unwire32 w)"
  by (simp add: DecodeBinaryFloat_def Let_def unwire32_def sign_rules or_of_bytes32
      del: One_nat_def)

lemma unwire_wire: "unwire64 (wire64 f) = f" "unwire32 (wire32 g) = g"
  by (auto simp: unwire64_def wire64_def unwire32_def wire32_def bit_simps intro!: bit_word_eqI)

text \<open>Property C27. Every bit pattern of a double and of a float, NaNs, infinities and both zeros
  included, is read back unchanged from its wire form, whatever follows it.\<close>

theorem binary_float_roundtrip:
  "DecodeBinaryDouble (EncodeBinaryDouble [] f @ rest) = Inr f \<and>
   DecodeBinaryFloat (EncodeBinaryFloat [] g @ rest) = Inr g"
  by (simp add: EncodeBinaryDouble_wire EncodeBinaryFloat_wire DecodeBinaryDouble_be64
      DecodeBinaryFloat_be32 unwire_wire)

subsection \<open>The wire form sorts as the numbers do\<close>

text \<open>
  The order of the patterns by sign and magnitude: the negative numbers (sign bit 63 set) in decreasing magnitude
  before the others.
\<close>

definition total_order_key :: "u64 \<Rightarrow> int" where
  "total_order_key f = (if bit f 63 then - 1 - uint (unset_bit 63 f) else uint f)"

fun bytes_less :: "bytes \<Rightarrow> bytes \<Rightarrow> bool" where
  "bytes_less [] [] = False"
| "bytes_less [] (y # ys) = True"
| "bytes_less (x # xs) [] = False"
| "bytes_less (x # xs) (y # ys) = (x < y \<or> x = y \<and> bytes_less xs ys)"

lemma div_less_step:
  fixes V W P :: nat
  assumes "0 < P" "V div P div 256 = W div P div 256"
  shows "V div P mod 256 < W div P mod 256 \<longleftrightarrow> V div P < W div P"
    and "V div P mod 256 = W div P mod 256 \<longleftrightarrow> V div P = W div P"
    and "V div P < W div P \<Longrightarrow> V < W"
proof -
  have "V div P = 256 * (V div P div 256) + V div P mod 256"
    "W div P = 256 * (W div P div 256) + W div P mod 256" by simp_all
  with assms(2) show "V div P mod 256 < W div P mod 256 \<longleftrightarrow> V div P < W div P"
    "V div P mod 256 = W div P mod 256 \<longleftrightarrow> V div P = W div P" by linarith+
  show "V < W" if "V div P < W div P"
    using that by (meson div_le_mono not_le)
qed

lemma nbytes_less:
  fixes v w :: "'a::len word"
  assumes "unat v div 2 ^ (8 * n) = unat w div 2 ^ (8 * n)"
  shows "bytes_less (nbytes_be n v) (nbytes_be n w) \<longleftrightarrow> unat v < unat w"
  using assms
proof (induction n)
  case 0
  then show ?case by simp
next
  case (Suc n)
  define P :: nat where "P = 2 ^ (8 * n)"
  have P: "0 < P" "2 ^ (8 * Suc n) = P * 256" by (simp_all add: P_def power_add)
  have byte: "unat (ucast (drop_bit (8 * n) u) :: u8) = unat u div P mod 256" for u :: "'a word"
  proof -
    have "unat (drop_bit (8 * n) u) = unat u div P"
      unfolding unat_drop_bit_eq P_def by (rule drop_bit_eq_div)
    then show ?thesis by (simp add: unsigned_ucast_eq take_bit_eq_mod)
  qed
  have eq: "unat v div P div 256 = unat w div P div 256"
    using Suc.prems by (simp only: P(2) div_mult2_eq)
  note st = div_less_step [OF P(1) eq] div_less_step [OF P(1) eq [symmetric]]
  have less: "ucast (drop_bit (8 * n) v) < (ucast (drop_bit (8 * n) w) :: u8) \<longleftrightarrow> unat v div P < unat w div P"
    by (simp add: word_less_nat_alt byte st(1))
  have same: "ucast (drop_bit (8 * n) v) = (ucast (drop_bit (8 * n) w) :: u8) \<longleftrightarrow> unat v div P = unat w div P"
    by (simp add: word_unat_eq_iff byte st(2))
  show ?case
  proof (cases "unat v div P = unat w div P")
    case True
    then show ?thesis using Suc.IH by (simp add: less same P_def)
  next
    case False
    then show ?thesis
      using st(3) st(6) by (simp add: less same) (meson nat_neq_iff not_less_iff_gr_or_eq)
  qed
qed

lemma be64_less: "bytes_less (be64 v) (be64 w) \<longleftrightarrow> v < w"
proof -
  have "unat u div 2 ^ (8 * 8) = 0" for u :: u64
  proof -
    have "unat u < 2 ^ LENGTH(64)" by (rule unsigned_less)
    then show ?thesis by simp
  qed
  then show ?thesis by (simp add: be64_eq nbytes_less word_less_nat_alt)
qed

lemma sign_bit_uint: "bit (f :: u64) 63 \<longleftrightarrow> 2 ^ 63 \<le> uint f"
proof -
  have r: "0 \<le> uint f" "uint f < 2 ^ 64" using uint_lt2p [of f] by simp_all
  have "bit f 63 \<longleftrightarrow> odd (uint f div 2 ^ 63)"
    using bit_uint_iff [of f 63] bit_iff_odd [of "uint f" 63] by simp
  moreover have "uint f div 2 ^ 63 = (if 2 ^ 63 \<le> uint f then 1 else 0)"
    using r by auto
  ultimately show ?thesis by simp
qed

lemma uint_wire64: "uint (wire64 f) = 2 ^ 63 + total_order_key f"
proof (cases "bit f 63")
  case True
  have "unset_bit 63 f = f - 2 ^ 63" using True by (simp add: unset_bit_eq)
  moreover have "2 ^ 63 \<le> uint f"
    using True by (simp add: sign_bit_uint)
  ultimately have "uint (unset_bit 63 f) = uint f - 2 ^ 63"
    using uint_sub_lem [of "2 ^ 63" f] by simp
  moreover have "take_bit 64 (uint f) = uint f"
    using uint_lt2p [of f] by (simp add: take_bit_int_eq_self_iff)
  then have "uint (NOT f) = 2 ^ 64 - 1 - uint f"
    by (simp add: unsigned_not_eq take_bit_not_eq_mask_diff mask_eq_exp_minus_1)
  ultimately show ?thesis using True by (simp add: wire64_def total_order_key_def)
next
  case False
  have "set_bit 63 f = f + 2 ^ 63" using False by (simp add: set_bit_eq)
  moreover have "uint f < 2 ^ 63" using False by (simp add: sign_bit_uint)
  ultimately have "uint (set_bit 63 f) = uint f + 2 ^ 63"
    using uint_add_lem [of f "2 ^ 63"] by simp
  then show ?thesis using False by (simp add: wire64_def total_order_key_def)
qed

lemma bytes_less_key:
  "bytes_less (EncodeBinaryDouble [] f) (EncodeBinaryDouble [] g) \<longleftrightarrow> total_order_key f < total_order_key g"
proof -
  have "bytes_less (EncodeBinaryDouble [] f) (EncodeBinaryDouble [] g) \<longleftrightarrow> wire64 f < wire64 g"
    by (simp add: EncodeBinaryDouble_wire be64_less)
  also have "\<dots> \<longleftrightarrow> total_order_key f < total_order_key g"
    by (simp add: word_less_def uint_wire64)
  finally show ?thesis .
qed

end
