(* ===== verification/FloatOrder.thy ===== *)
theory FloatOrder
  imports Floats Complex_Main
begin

text \<open>
  The wire form of a BINARY_DOUBLE (\<^verbatim>\<open>internal/oratype/float.go\<close>) against the real numbers that the bit patterns
  denote: it sorts as they do.
\<close>

text \<open>
  The number an IEEE 754 binary64 pattern denotes: sign, 11 bits of exponent with bias 1023, 52 bits of fraction. The
  two infinities count as \<open>2 ^ 1024\<close> and its negative, beyond all finite numbers; the patterns above them are NaNs.
\<close>

definition magnitude :: "u64 \<Rightarrow> nat" where
  "magnitude f = unat (unset_bit 63 f)"

definition magnitude_value :: "nat \<Rightarrow> real" where
  "magnitude_value m = (let e = m div 2 ^ 52; t = m mod 2 ^ 52 in
     if e = 0 then real t / 2 ^ 52 / 2 ^ 1022 else (1 + real t / 2 ^ 52) * 2 ^ e / 2 ^ 1023)"

definition double_value :: "u64 \<Rightarrow> real" where
  "double_value f = (if bit f 63 then - magnitude_value (magnitude f) else magnitude_value (magnitude f))"

definition is_nan :: "u64 \<Rightarrow> bool" where
  "is_nan f \<longleftrightarrow> magnitude f > 2047 * 2 ^ 52"

text \<open>The magnitudes in units of the smallest number.\<close>

definition ulps :: "nat \<Rightarrow> nat" where
  "ulps m = (let e = m div 2 ^ 52; t = m mod 2 ^ 52 in if e = 0 then t else (2 ^ 52 + t) * 2 ^ (e - 1))"

lemma magnitude_value_ulps: "magnitude_value m = real (ulps m) / (2 ^ 52 * 2 ^ 1022)"
proof -
  define A C where "A = (2 :: real) ^ 52" and "C = (2 :: real) ^ 1022"
  have nz: "A \<noteq> 0" "C \<noteq> 0" unfolding A_def C_def by (rule power_not_zero, simp)+
  have "(1023 :: nat) = Suc 1022" by simp
  then have "(2 :: real) ^ 1023 = 2 * C" by (simp only: C_def power_Suc)
  then have v: "magnitude_value m = (if m div 2 ^ 52 = 0 then real (m mod 2 ^ 52) / A / C
      else (1 + real (m mod 2 ^ 52) / A) * 2 ^ (m div 2 ^ 52) / (2 * C))"
    by (simp only: magnitude_value_def Let_def A_def [symmetric] C_def [symmetric])
  have w: "real (2 ^ 52 + t) = A + real t" for t by (simp only: A_def of_nat_add of_nat_power of_nat_numeral)
  show ?thesis
  proof (cases "m div 2 ^ 52")
    case 0
    then have "ulps m = m mod 2 ^ 52" by (simp only: ulps_def Let_def simp_thms if_True)
    then show ?thesis unfolding v A_def [symmetric] C_def [symmetric] using 0 by (simp only: simp_thms if_True divide_divide_eq_left)
  next
    case (Suc n)
    then have "ulps m = (2 ^ 52 + m mod 2 ^ 52) * 2 ^ n"
      by (simp only: ulps_def Let_def nat.distinct if_False diff_Suc_1)
    then have "real (ulps m) = (A + real (m mod 2 ^ 52)) * 2 ^ n" by (simp only: of_nat_mult w of_nat_power of_nat_numeral)
    moreover have "(1 + r / A) * (2 * x) / (2 * C) = (A + r) * x / (A * C)" for r x using nz by (simp add: field_simps)
    ultimately show ?thesis
      unfolding v A_def [symmetric] C_def [symmetric] Suc by (simp only: nat.distinct if_False power_Suc)
  qed
qed

lemma ulps_Suc: "ulps m < ulps (Suc m)"
proof -
  define P e t where "P = (2 :: nat) ^ 52" and "e = m div 2 ^ 52" and "t = m mod 2 ^ 52"
  have m: "m = P * e + t" "t < P" "0 < P" by (simp_all add: P_def e_def t_def)
  have u: "ulps (P * e + t) = (if e = 0 then t else (P + t) * 2 ^ (e - 1))" if "t < P" for e t
  proof -
    have "(P * e + t) div P = e" "(P * e + t) mod P = t" using that m(3) by simp_all
    then show ?thesis by (simp only: ulps_def P_def [symmetric] Let_def)
  qed
  show ?thesis
  proof (cases "Suc t < P")
    case True
    then show ?thesis using u [OF m(2)] u [OF True, of e] m(1) by simp
  next
    case False
    then have "Suc t = P" using m(2) by simp
    then have s: "Suc m = P * Suc e + 0" using m(1) by simp
    show ?thesis
      unfolding s u [OF m(3)] using u [OF m(2), of e] m(1,2) by (cases e) simp_all
  qed
qed

lemma magnitude_value_less: "magnitude_value m < magnitude_value n \<longleftrightarrow> m < n"
proof -
  have "strict_mono ulps" by (rule strict_mono_Suc_iff [THEN iffD2]) (use ulps_Suc in blast)
  then have "ulps m < ulps n \<longleftrightarrow> m < n" by (rule strict_mono_less)
  moreover have "(0 :: real) < 2 ^ 52 * 2 ^ 1022" by (intro mult_pos_pos zero_less_power) simp_all
  then have "real a / (2 ^ 52 * 2 ^ 1022) < real b / (2 ^ 52 * 2 ^ 1022) \<longleftrightarrow> a < b" for a b
    by (simp only: divide_less_cancel of_nat_less_iff) auto
  ultimately show ?thesis by (simp only: magnitude_value_ulps)
qed

lemma magnitude_value_0: "magnitude_value 0 = 0"
  by (simp add: magnitude_value_def)

lemma total_order_key_magnitude: "total_order_key f = (if bit f 63 then - 1 - int (magnitude f) else int (magnitude f))"
proof -
  have "\<not> bit f 63 \<Longrightarrow> unset_bit 63 f = f" by (rule bit_word_eqI) (auto simp: bit_simps)
  then show ?thesis by (simp add: total_order_key_def magnitude_def)
qed

text \<open>
  Property C28. Comparing the wire bytes of two doubles bytewise, most significant first, orders them as the numbers
  they denote, infinities included, so that the server can sort the encodings; of two equal numbers only \<open>-0\<close> comes
  before \<open>+0\<close>. NaNs, which are not ordered as numbers, are left out.
\<close>

theorem binary_double_order:
  assumes "\<not> is_nan f" "\<not> is_nan g"
  shows "bytes_less (EncodeBinaryDouble [] f) (EncodeBinaryDouble [] g) \<longleftrightarrow>
    double_value f < double_value g \<or> double_value f = 0 \<and> double_value g = 0 \<and> bit f 63 \<and> \<not> bit g 63"
proof -
  have pos: "0 \<le> magnitude_value m" "magnitude_value m = 0 \<longleftrightarrow> m = 0" for m
    using magnitude_value_less [of m 0] magnitude_value_less [of 0 m] by (auto simp: magnitude_value_0)
  show ?thesis
    unfolding bytes_less_key total_order_key_magnitude double_value_def
    using pos [of "magnitude f"] pos [of "magnitude g"] magnitude_value_less [of "magnitude f" "magnitude g"]
      magnitude_value_less [of "magnitude g" "magnitude f"]
    by auto
qed

text \<open>\<open>-1.5 < 2\<close>.\<close>

theorem binary_double_order_witness:
  "double_value 0xBFF8000000000000 = - 1.5 \<and> double_value 0x4000000000000000 = 2 \<and>
   bytes_less (EncodeBinaryDouble [] 0xBFF8000000000000) (EncodeBinaryDouble [] 0x4000000000000000)"
proof -
  have u: "unset_bit 63 (0xBFF8000000000000 :: u64) = 0x3FF8000000000000" "unset_bit 63 (0x4000000000000000 :: u64) = 0x4000000000000000"
    by code_simp+
  have m: "magnitude 0xBFF8000000000000 = 0x3FF8000000000000" "magnitude 0x4000000000000000 = 0x4000000000000000"
    unfolding magnitude_def u by simp_all
  have s: "bit (0xBFF8000000000000 :: u64) 63" "\<not> bit (0x4000000000000000 :: u64) 63" by code_simp+
  have "ulps 0x3FF8000000000000 = (2 ^ 52 + 2 ^ 51) * 2 ^ 1022" "ulps 0x4000000000000000 = 2 ^ 52 * (2 * 2 ^ 1022)"
    by (simp_all add: ulps_def Let_def)
  then have "magnitude_value 0x3FF8000000000000 = 1.5" "magnitude_value 0x4000000000000000 = 2"
    by (simp_all add: magnitude_value_ulps)
  then have v: "double_value 0xBFF8000000000000 = - 1.5" "double_value 0x4000000000000000 = 2"
    by (simp_all only: double_value_def m s if_True if_False)
  moreover have "\<not> is_nan 0xBFF8000000000000" "\<not> is_nan 0x4000000000000000" by (simp_all add: is_nan_def m)
  ultimately show ?thesis using binary_double_order by simp
qed

end
