(* ===== verification/Interval.thy ===== *)
theory Interval
  imports Prelude
begin

text \<open>
  \<^verbatim>\<open>internal/oratype/interval.go\<close>: INTERVAL DAY TO SECOND (11 bytes) and INTERVAL YEAR TO MONTH
  (5 bytes). The fields are Go \<open>int32\<close>: integers between \<open>- 2 ^ 31\<close> and \<open>2 ^ 31 - 1\<close>, with the
  conversions that can change a value written out.
\<close>

datatype interval_error = IntervalTooShort

record intervalDS =
  Days :: int
  Hours :: int
  Minutes :: int
  Seconds :: int
  Nanos :: int

record intervalYM =
  Years :: int
  Months :: int

definition durationMid :: int where "durationMid = 0x80000000"
definition durationOffset :: int where "durationOffset = 60"

definition DecodeIntervalDS :: "bytes \<Rightarrow> interval_error + intervalDS" where
  "DecodeIntervalDS b =
     (if length b < 11 then Inl IntervalTooShort
      else Inr \<lparr>Days = int32_of (uint (of_be (take 4 b) :: u32) - durationMid),
                Hours = uint (b ! 4) - durationOffset,
                Minutes = uint (b ! 5) - durationOffset,
                Seconds = uint (b ! 6) - durationOffset,
                Nanos = int32_of (uint (of_be (take 4 (drop 7 b)) :: u32) - durationMid)\<rparr>)"

definition DecodeIntervalYM :: "bytes \<Rightarrow> interval_error + intervalYM" where
  "DecodeIntervalYM b =
     (if length b < 5 then Inl IntervalTooShort
      else Inr \<lparr>Years = int32_of (uint (of_be (take 4 b) :: u32) - durationMid),
                Months = uint (b ! 4) - durationOffset\<rparr>)"

definition EncodeIntervalDS :: "bytes \<Rightarrow> intervalDS \<Rightarrow> bytes" where
  "EncodeIntervalDS dst v =
     dst @ be32 (word_of_int (Days v + durationMid)) @
     [word_of_int (int32_of (Hours v + durationOffset)),
      word_of_int (int32_of (Minutes v + durationOffset)),
      word_of_int (int32_of (Seconds v + durationOffset))] @
     be32 (word_of_int (Nanos v + durationMid))"

definition EncodeIntervalYM :: "bytes \<Rightarrow> intervalYM \<Rightarrow> bytes" where
  "EncodeIntervalYM dst v =
     dst @ be32 (word_of_int (Years v + durationMid)) @
     [word_of_int (int32_of (Months v + durationOffset))]"

definition is_int32 :: "int \<Rightarrow> bool" where
  "is_int32 x \<longleftrightarrow> - 2147483648 \<le> x \<and> x < 2147483648"

definition intervalDS_ok :: "intervalDS \<Rightarrow> bool" where
  "intervalDS_ok v \<longleftrightarrow> is_int32 (Days v) \<and> is_int32 (Hours v) \<and> is_int32 (Minutes v) \<and>
     is_int32 (Seconds v) \<and> is_int32 (Nanos v)"

definition intervalYM_ok :: "intervalYM \<Rightarrow> bool" where
  "intervalYM_ok v \<longleftrightarrow> is_int32 (Years v) \<and> is_int32 (Months v)"

text \<open>The values one byte can carry around the offset 60.\<close>

definition fits_byte :: "int \<Rightarrow> bool" where
  "fits_byte x \<longleftrightarrow> - 60 \<le> x \<and> x \<le> 195"

lemma int32_of_id: "is_int32 x \<Longrightarrow> int32_of x = x"
  using wrap_signed_id [of 32 x] by (simp add: is_int32_def int32_of_def)

lemma mid_roundtrip:
  assumes "is_int32 x"
  shows "int32_of (uint (word_of_int (x + durationMid) :: u32) - durationMid) = x"
proof -
  have "uint (word_of_int (x + durationMid) :: u32) = x + durationMid"
    using assms by (simp add: uint_word_of_int is_int32_def durationMid_def del: of_int_add)
  then show ?thesis using assms by (simp add: int32_of_id)
qed

lemma wrap_byte: "int32_of (x + 60) mod 256 = (x + 60) mod 256"
proof -
  have "((x + 60 + 2 ^ 31) mod 2 ^ 32 - 2 ^ 31) mod 256 = (x + 60 + 2 ^ 31 - 2 ^ 31) mod (256::int)"
  proof -
    have "(x + 60 + 2 ^ 31) mod 2 ^ 32 mod 256 = (x + 60 + 2 ^ 31) mod (256::int)"
      by (rule mod_mod_cancel) simp
    then show ?thesis by (metis mod_diff_left_eq)
  qed
  then show ?thesis by (simp add: int32_of_def wrap_signed_def add.commute)
qed

lemma byte_roundtrip:
  "uint (word_of_int (int32_of (x + durationOffset)) :: u8) - durationOffset = (x + 60) mod 256 - 60"
  by (simp add: uint_word_of_int durationOffset_def wrap_byte del: of_int_add)

lemma fits_byte_iff: "(x + 60) mod 256 - 60 = x \<longleftrightarrow> fits_byte x"
proof
  assume h: "(x + 60) mod 256 - 60 = x"
  have "0 \<le> (x + 60) mod 256" "(x + 60) mod 256 < 256" by simp_all
  with h have "0 \<le> x + 60" "x + 60 < 256" by linarith+
  then show "fits_byte x" by (simp add: fits_byte_def)
next
  assume "fits_byte x"
  then have "(x + 60) mod 256 = x + 60" by (intro mod_pos_pos_trivial) (simp_all add: fits_byte_def)
  then show "(x + 60) mod 256 - 60 = x" by simp
qed

lemma DecodeIntervalDS_Encode:
  assumes "intervalDS_ok v"
  shows "DecodeIntervalDS (EncodeIntervalDS [] v) =
    Inr \<lparr>Days = Days v, Hours = (Hours v + 60) mod 256 - 60, Minutes = (Minutes v + 60) mod 256 - 60,
         Seconds = (Seconds v + 60) mod 256 - 60, Nanos = Nanos v\<rparr>"
  using assms
  by (simp add: DecodeIntervalDS_def EncodeIntervalDS_def nth_append mid_roundtrip byte_roundtrip intervalDS_ok_def del: of_int_add)

lemma DecodeIntervalYM_Encode:
  assumes "intervalYM_ok v"
  shows "DecodeIntervalYM (EncodeIntervalYM [] v) =
    Inr \<lparr>Years = Years v, Months = (Months v + 60) mod 256 - 60\<rparr>"
  using assms
  by (simp add: DecodeIntervalYM_def EncodeIntervalYM_def nth_append mid_roundtrip byte_roundtrip intervalYM_ok_def del: of_int_add)

text \<open>Property C29. An interval reads back from its wire bytes unchanged exactly when every field
  that travels in one byte lies between -60 and 195; days, years and nanoseconds may be any
  \<open>int32\<close>. An interval of 200 hours is silently encoded as -56 hours.\<close>

theorem interval_roundtrip_iff:
  "(intervalDS_ok v \<longrightarrow> DecodeIntervalDS (EncodeIntervalDS [] v) = Inr v \<longleftrightarrow>
      fits_byte (Hours v) \<and> fits_byte (Minutes v) \<and> fits_byte (Seconds v)) \<and>
   (intervalYM_ok w \<longrightarrow> DecodeIntervalYM (EncodeIntervalYM [] w) = Inr w \<longleftrightarrow> fits_byte (Months w))"
  by (cases v; cases w)
     (auto simp: DecodeIntervalDS_Encode DecodeIntervalYM_Encode fits_byte_iff)

theorem interval_roundtrip_iff_witness:
  "DecodeIntervalDS (EncodeIntervalDS [] \<lparr>Days = 3, Hours = 200, Minutes = 0, Seconds = 0, Nanos = 5\<rparr>)
     \<noteq> Inr \<lparr>Days = 3, Hours = 200, Minutes = 0, Seconds = 0, Nanos = 5\<rparr> \<and>
   DecodeIntervalYM (EncodeIntervalYM [] \<lparr>Years = - 7, Months = 11\<rparr>) = Inr \<lparr>Years = - 7, Months = 11\<rparr>"
  using interval_roundtrip_iff [of "\<lparr>Days = 3, Hours = 200, Minutes = 0, Seconds = 0, Nanos = 5\<rparr>"
      "\<lparr>Years = - 7, Months = 11\<rparr>"]
  by (simp add: intervalDS_ok_def intervalYM_ok_def is_int32_def fits_byte_def)

end
