(* ===== verification/GoTime.thy ===== *)
theory GoTime
  imports Prelude
begin

text \<open>
  The part of Go's \<^verbatim>\<open>time\<close> package that \<^verbatim>\<open>internal/oratype\<close> uses: an instant is a number of
  seconds since the Unix epoch with nanoseconds and a zone offset; \<open>time.Date\<close> builds one
  from civil fields (normalising every field that is out of range), the accessors read the
  civil fields back in the instant's own location, and \<open>UnixNano\<close> is computed in \<open>int64\<close>.
  The calendar is the proleptic Gregorian one.
\<close>

record gotime =
  gt_unix :: int
  gt_nsec :: int
  gt_off :: int

definition is_leap :: "int \<Rightarrow> bool" where
  "is_leap y \<longleftrightarrow> y mod 4 = 0 \<and> (y mod 100 \<noteq> 0 \<or> y mod 400 = 0)"

text \<open>Days from 0001-01-01 to the first day of year \<open>y\<close>.\<close>

definition days_before_year :: "int \<Rightarrow> int" where
  "days_before_year y = 365 * (y - 1) + (y - 1) div 4 - (y - 1) div 100 + (y - 1) div 400"

definition month_starts :: "int list" where
  "month_starts = [0, 31, 59, 90, 120, 151, 181, 212, 243, 273, 304, 334, 365]"

definition days_before_month :: "bool \<Rightarrow> nat \<Rightarrow> int" where
  "days_before_month leap m = month_starts ! m + (if leap \<and> 2 \<le> m then 1 else 0)"

definition unix_epoch_days :: int where
  "unix_epoch_days = 719162"

text \<open>\<open>time.Date\<close> in UTC; the month and every smaller field may be out of range.\<close>

definition time_Date :: "int \<Rightarrow> int \<Rightarrow> int \<Rightarrow> int \<Rightarrow> int \<Rightarrow> int \<Rightarrow> int \<Rightarrow> gotime" where
  "time_Date year month day hour minute sec ns =
     (let y = year + (month - 1) div 12;
          m = nat ((month - 1) mod 12);
          days = days_before_year y + days_before_month (is_leap y) m + (day - 1) - unix_epoch_days
      in \<lparr>gt_unix = days * 86400 + hour * 3600 + minute * 60 + sec + ns div 1000000000,
          gt_nsec = ns mod 1000000000, gt_off = 0\<rparr>)"

definition UnixSec :: "gotime \<Rightarrow> int" where
  "UnixSec t = int64_of (gt_unix t)"

definition UnixNano :: "gotime \<Rightarrow> int" where
  "UnixNano t = int64_of (gt_unix t * 1000000000 + gt_nsec t)"

definition time_UTC :: "gotime \<Rightarrow> gotime" where
  "time_UTC t = t\<lparr>gt_off := 0\<rparr>"

definition time_Unix :: "int \<Rightarrow> int \<Rightarrow> gotime" where
  "time_Unix sec ns = \<lparr>gt_unix = sec + ns div 1000000000, gt_nsec = ns mod 1000000000, gt_off = 0\<rparr>"

subsection \<open>Reading the civil fields back\<close>

text \<open>
  \<open>year_split\<close> divides days since 0001-01-01 into 400-, 100-, 4- and 1-year cycles; the last
  century of a 400-year cycle and the last year of a 4-year cycle are one day longer.
\<close>

definition year_split :: "int \<Rightarrow> int \<times> int" where
  "year_split days =
     (let n400 = days div 146097; d = days mod 146097;
          n100 = min 3 (d div 36524); d = d - 36524 * n100;
          n4 = d div 1461; d = d mod 1461;
          n1 = min 3 (d div 365); d = d - 365 * n1
      in (400 * n400 + 100 * n100 + 4 * n4 + n1 + 1, d))"

fun month_of :: "bool \<Rightarrow> int \<Rightarrow> nat \<Rightarrow> nat" where
  "month_of leap yday 0 = 0"
| "month_of leap yday (Suc m) =
     (if days_before_month leap (Suc m) \<le> yday then Suc m else month_of leap yday m)"

definition local_days :: "gotime \<Rightarrow> int" where
  "local_days t = (gt_unix t + gt_off t) div 86400 + unix_epoch_days"

definition local_secs :: "gotime \<Rightarrow> int" where
  "local_secs t = (gt_unix t + gt_off t) mod 86400"

definition time_Year :: "gotime \<Rightarrow> int" where
  "time_Year t = fst (year_split (local_days t))"

definition time_Month0 :: "gotime \<Rightarrow> nat" where
  "time_Month0 t = (let (y, yday) = year_split (local_days t) in month_of (is_leap y) yday 11)"

definition time_Month :: "gotime \<Rightarrow> int" where
  "time_Month t = int (time_Month0 t) + 1"

definition time_Day :: "gotime \<Rightarrow> int" where
  "time_Day t = (let (y, yday) = year_split (local_days t)
     in yday - days_before_month (is_leap y) (month_of (is_leap y) yday 11) + 1)"

definition time_Hour :: "gotime \<Rightarrow> int" where
  "time_Hour t = local_secs t div 3600"

definition time_Minute :: "gotime \<Rightarrow> int" where
  "time_Minute t = local_secs t mod 3600 div 60"

definition time_Second :: "gotime \<Rightarrow> int" where
  "time_Second t = local_secs t mod 60"

definition time_ok :: "gotime \<Rightarrow> bool" where
  "time_ok t \<longleftrightarrow> 0 \<le> gt_nsec t \<and> gt_nsec t < 1000000000"

subsection \<open>The calendar round trip\<close>

lemma days_before_year_shift:
  assumes "0 \<le> a" "a \<le> 3" "0 \<le> b" "b \<le> 24" "0 \<le> c" "c \<le> 3"
  shows "days_before_year (400 * n + 100 * a + 4 * b + c + 1) = 146097 * n + 36524 * a + 1461 * b + 365 * c"
proof -
  have "(400 * n + 100 * a + 4 * b + c) div 4 = 100 * n + 25 * a + b"
    "(400 * n + 100 * a + 4 * b + c) div 100 = 4 * n + a"
    "(400 * n + 100 * a + 4 * b + c) div 400 = n"
    using assms by (intro int_div_pos_eq [where r = c] int_div_pos_eq [where r = "4 * b + c"]
        int_div_pos_eq [where r = "100 * a + 4 * b + c"]; simp)+
  then show ?thesis by (simp add: days_before_year_def)
qed

lemma cycle_rest:
  fixes d P :: int
  assumes "0 \<le> d" "d \<le> 4 * P" "0 < P"
  shows "0 \<le> d - P * min 3 (d div P)" "d - P * min 3 (d div P) \<le> P"
proof -
  have e: "d = P * (d div P) + d mod P" by simp
  have m: "0 \<le> d mod P" "d mod P < P" using assms by simp_all
  have "d div P \<le> 4"
    using zdiv_mono1 [OF assms(2,3)] assms(3) by simp
  then consider "d div P \<le> 3" | "d div P = 4" by linarith
  then have "0 \<le> d - P * min 3 (d div P) \<and> d - P * min 3 (d div P) \<le> P"
  proof cases
    case 1
    then have "d - P * min 3 (d div P) = d mod P" by (simp add: minus_mult_div_eq_mod)
    then show ?thesis using m by simp
  next
    case 2
    then have "d = 4 * P + d mod P" using e by (simp add: mult.commute)
    then have "d = 4 * P" using m assms(2) by linarith
    then show ?thesis using assms 2 by simp
  qed
  then show "0 \<le> d - P * min 3 (d div P)" "d - P * min 3 (d div P) \<le> P" by simp_all
qed

lemma year_split_days:
  assumes "year_split days = (y, d)"
  shows "days_before_year y + d = days" "0 \<le> d" "d \<le> 365"
proof -
  define q where "q = days div 146097"
  define d0 where "d0 = days mod 146097"
  define n100 where "n100 = min 3 (d0 div 36524)"
  define d1 where "d1 = d0 - 36524 * n100"
  define q4 where "q4 = d1 div 1461"
  define d2 where "d2 = d1 mod 1461"
  define n1 where "n1 = min 3 (d2 div 365)"
  have eqs: "days = 146097 * q + d0" "d1 = 1461 * q4 + d2"
    by (simp_all add: q_def d0_def q4_def d2_def)
  have d0: "0 \<le> d0" "d0 < 146097" by (simp_all add: d0_def)
  have d1: "0 \<le> d1" "d1 \<le> 36524"
    unfolding d1_def n100_def by (rule cycle_rest; use d0 in simp)+
  have d2: "0 \<le> d2" "d2 < 1461" by (simp_all add: d2_def)
  have d3: "0 \<le> d2 - 365 * n1" "d2 - 365 * n1 \<le> 365"
    unfolding n1_def by (rule cycle_rest; use d2 in simp)+
  have n100: "0 \<le> n100" "n100 \<le> 3"
    using d0 by (simp_all add: n100_def pos_imp_zdiv_nonneg_iff)
  have n1: "0 \<le> n1" "n1 \<le> 3"
    using d2 by (simp_all add: n1_def pos_imp_zdiv_nonneg_iff)
  have n4: "0 \<le> q4" "q4 \<le> 24"
    using d1 zdiv_mono1 [OF d1(2), of 1461] by (simp_all add: q4_def pos_imp_zdiv_nonneg_iff)
  have "year_split days = (400 * q + 100 * n100 + 4 * q4 + n1 + 1, d2 - 365 * n1)"
    by (simp only: year_split_def Let_def q_def d0_def n100_def d1_def q4_def d2_def n1_def)
  then have yd: "y = 400 * q + 100 * n100 + 4 * q4 + n1 + 1" "d = d2 - 365 * n1"
    using assms by simp_all
  have "days_before_year y = 146097 * q + 36524 * n100 + 1461 * q4 + 365 * n1"
    unfolding yd(1) by (rule days_before_year_shift [OF n100 n4 n1])
  then show "days_before_year y + d = days"
    using eqs yd(2) by (simp add: d1_def)
  show "0 \<le> d" "d \<le> 365" using d3 yd(2) by simp_all
qed

lemma month_of_le: "month_of leap yday m \<le> m"
  by (induction m) auto

lemma hms_split: "(s::int) div 3600 * 3600 + s mod 3600 div 60 * 60 + s mod 60 = s"
proof -
  have "s mod 3600 div 60 * 60 + s mod 3600 mod 60 = s mod 3600" by simp
  moreover have "s mod 3600 mod 60 = s mod 60" by (rule mod_mod_cancel) simp
  ultimately show ?thesis using div_mult_mod_eq [of s 3600] by linarith
qed

text \<open>Building an instant from the civil fields that the accessors return gives it back in UTC.\<close>

lemma time_Date_fields:
  assumes "gt_off t = 0"
  shows "time_Date (time_Year t) (time_Month t) (time_Day t) (time_Hour t) (time_Minute t) (time_Second t)
     (gt_nsec t + 1000000000 * k) = t\<lparr>gt_unix := gt_unix t + k + gt_nsec t div 1000000000,
        gt_nsec := gt_nsec t mod 1000000000\<rparr>"
proof -
  obtain y d where yd: "year_split (local_days t) = (y, d)" by fastforce
  define m where "m = month_of (is_leap y) d 11"
  have m: "m \<le> 11" unfolding m_def by (rule month_of_le)
  have days: "days_before_year y + d = local_days t" by (rule year_split_days [OF yd])
  note secs = hms_split [of "local_secs t"]
  have "(local_days t - unix_epoch_days) * 86400 + local_secs t = gt_unix t"
    using assms by (simp add: local_days_def local_secs_def)
  then show ?thesis
    using m days secs assms
    by (simp add: time_Date_def time_Year_def time_Month_def time_Month0_def time_Day_def time_Hour_def
        time_Minute_def time_Second_def yd m_def [symmetric] Let_def algebra_simps)
qed

end
