(* ===== verification/Date.thy ===== *)
theory Date
  imports GoTime
begin

text \<open>
  \<^verbatim>\<open>internal/oratype/date.go\<close>: DATE (7 bytes), TIMESTAMP (11 bytes) and TIMESTAMP WITH TIME
  ZONE (13 bytes). An index past the end of the slice is a Go panic, the error \<open>DatePanic\<close>.
\<close>

datatype date_error = DateTooShort | DatePanic

record odate =
  Year :: int
  Month :: int
  Day :: int
  Hour :: int
  Minute :: int
  Second :: int
  Nanosecond :: int
  TZHourOff :: int
  TZMinuteOff :: int
  HasTZ :: bool

definition tzHourOffset :: int where "tzHourOffset = 20"
definition tzMinuteOffset :: int where "tzMinuteOffset = 60"
definition hasRegionID :: u8 where "hasRegionID = 0x80"

text \<open>The fields common to the three lengths; the slice has at least 7 bytes here.\<close>

definition decode_fields :: "bytes \<Rightarrow> odate" where
  "decode_fields b =
     \<lparr>Year = (uint (b ! 0) - 100) * 100 + uint (b ! 1) - 100,
      Month = uint (b ! 2), Day = uint (b ! 3),
      Hour = uint (b ! 4) - 1, Minute = uint (b ! 5) - 1, Second = uint (b ! 6) - 1,
      Nanosecond = (if length b \<ge> 11 then uint (of_be (take 4 (drop 7 b)) :: u32) else 0),
      TZHourOff = 0, TZMinuteOff = 0, HasTZ = False\<rparr>"

definition DecodeDate :: "bytes \<Rightarrow> date_error + odate" where
  "DecodeDate b =
     (if length b < 7 then Inl DateTooShort
      else let d = decode_fields b in
        if length b > 11 \<and> b ! 11 \<noteq> 0 then
          (if length b \<le> 12 then Inl DatePanic
           else if b ! 12 \<noteq> 0 then
             (if b ! 11 AND hasRegionID \<noteq> 0 then Inr (d\<lparr>HasTZ := True\<rparr>)
              else Inr (d\<lparr>HasTZ := True, TZHourOff := uint (b ! 11) - tzHourOffset,
                          TZMinuteOff := uint (b ! 12) - tzMinuteOffset\<rparr>))
           else Inr d)
        else Inr d)"

definition UnixNanos :: "odate \<Rightarrow> int" where
  "UnixNanos d = UnixNano (time_Date (Year d) (Month d) (Day d) (Hour d) (Minute d) (Second d) (Nanosecond d))"

definition Unix :: "odate \<Rightarrow> int" where
  "Unix d = UnixSec (time_Date (Year d) (Month d) (Day d) (Hour d) (Minute d) (Second d) 0)"

definition EncodeDate :: "bytes \<Rightarrow> gotime \<Rightarrow> bytes" where
  "EncodeDate dst t =
     (let y = time_Year t in
      dst @ [word_of_int (go_div y 100 + 100), word_of_int (go_mod y 100 + 100),
             word_of_int (time_Month t), word_of_int (time_Day t),
             word_of_int (time_Hour t + 1), word_of_int (time_Minute t + 1),
             word_of_int (time_Second t + 1)])"

definition EncodeTimestamp :: "bytes \<Rightarrow> gotime \<Rightarrow> bytes" where
  "EncodeTimestamp dst t =
     (let dst = EncodeDate dst t; ns = word_of_int (gt_nsec t) :: u32
      in if ns = 0 then dst else dst @ be32 ns)"

definition EncodeTimestampTZ :: "bytes \<Rightarrow> gotime \<Rightarrow> bytes" where
  "EncodeTimestampTZ dst t =
     (let t = time_UTC t; dst = EncodeDate dst t; dst = dst @ be32 (word_of_int (gt_nsec t))
      in dst @ [word_of_int tzHourOffset, word_of_int tzMinuteOffset])"

subsection \<open>The civil fields are in range\<close>

lemma days_before_month_0 [simp]: "days_before_month l 0 = 0"
  by (simp add: days_before_month_def month_starts_def)

lemma month_of_start: "0 \<le> yday \<Longrightarrow> days_before_month leap (month_of leap yday m) \<le> yday"
  by (induction m) auto

lemma month_lengths:
  assumes "m < 11"
  shows "days_before_month leap (Suc m) \<le> days_before_month leap m + 31"
proof -
  have "m = 0 \<or> m = 1 \<or> m = 2 \<or> m = 3 \<or> m = 4 \<or> m = 5 \<or> m = 6 \<or> m = 7 \<or> m = 8 \<or> m = 9 \<or> m = 10"
    using assms by arith
  then show ?thesis
    by (elim disjE) (simp_all add: days_before_month_def month_starts_def)
qed

lemma month_of_end:
  assumes "m \<le> 11" "0 \<le> yday" "yday < days_before_month leap (Suc m) \<or> m = 11 \<and> yday \<le> 365"
  shows "yday - days_before_month leap (month_of leap yday m) \<le> 31"
  using assms
proof (induction m)
  case 0
  then show ?case by (simp add: days_before_month_def month_starts_def split: if_splits)
next
  case (Suc m)
  show ?case
  proof (cases "days_before_month leap (Suc m) \<le> yday")
    case True
    have "yday \<le> days_before_month leap (Suc m) + 31"
    proof (cases "Suc m = 11")
      case True
      have "334 \<le> days_before_month leap 11" by (simp add: days_before_month_def month_starts_def)
      then show ?thesis using Suc.prems True by (auto simp: days_before_month_def month_starts_def split: if_splits)
    next
      case False
      then show ?thesis using Suc.prems month_lengths [of "Suc m" leap] by auto
    qed
    then show ?thesis using True by simp
  next
    case False
    then show ?thesis using Suc by auto
  qed
qed

lemma month_of_range:
  assumes "m \<le> 11" shows "month_of leap yday m \<le> 11"
  using month_of_le [of leap yday m] assms by simp

lemma civil_ranges:
  "1 \<le> time_Month t" "time_Month t \<le> 12" "1 \<le> time_Day t" "time_Day t \<le> 32"
  "0 \<le> time_Hour t" "time_Hour t \<le> 23" "0 \<le> time_Minute t" "time_Minute t \<le> 59"
  "0 \<le> time_Second t" "time_Second t \<le> 59"
proof -
  obtain y d where yd: "year_split (local_days t) = (y, d)" by fastforce
  have d: "0 \<le> d" "d \<le> 365" by (rule year_split_days(2,3) [OF yd])+
  have m: "month_of (is_leap y) d 11 \<le> 11" by (rule month_of_range) simp
  show "1 \<le> time_Month t" "time_Month t \<le> 12"
    using m by (simp_all add: time_Month_def time_Month0_def yd)
  have dm: "days_before_month (is_leap y) (month_of (is_leap y) d 11) \<le> d"
    "d - days_before_month (is_leap y) (month_of (is_leap y) d 11) \<le> 31"
    using month_of_start [OF d(1)] month_of_end [of 11 d "is_leap y"] d by simp_all
  have td: "time_Day t = d - days_before_month (is_leap y) (month_of (is_leap y) d 11) + 1"
    by (simp add: time_Day_def yd)
  show "1 \<le> time_Day t" "time_Day t \<le> 32" using dm unfolding td by simp_all
  define s where "s = local_secs t"
  define h where "h = s mod 3600"
  have s: "0 \<le> s" "s < 86400" by (simp_all add: s_def local_secs_def)
  have h: "0 \<le> h" "h < 3600" by (simp_all add: h_def)
  show "0 \<le> time_Hour t" "time_Hour t \<le> 23"
    using s zdiv_mono1 [of s "86399" 3600]
    by (simp_all add: time_Hour_def s_def [symmetric] pos_imp_zdiv_nonneg_iff)
  show "0 \<le> time_Minute t" "time_Minute t \<le> 59"
    using h zdiv_mono1 [of h 3599 60]
    by (simp_all add: time_Minute_def s_def [symmetric] h_def [symmetric] pos_imp_zdiv_nonneg_iff)
  have "s mod 60 < 60" "0 \<le> s mod 60" by simp_all
  then show "0 \<le> time_Second t" "time_Second t \<le> 59"
    by (simp_all only: time_Second_def s_def [symmetric] zle_diff1_eq [of _ 60, simplified])
qed

subsection \<open>Round trips\<close>

lemma uint_byte: "0 \<le> x \<Longrightarrow> x < 256 \<Longrightarrow> uint (word_of_int x :: u8) = x"
  by (simp add: uint_word_of_int)

lemma go_divmod_bounds:
  assumes "- 10000 \<le> y" "y < 15600"
  shows "0 \<le> go_div y 100 + 100" "go_div y 100 + 100 < 256"
    "0 \<le> go_mod y 100 + 100" "go_mod y 100 + 100 < 256" "go_div y 100 * 100 + go_mod y 100 = y"
proof -
  have q: "\<bar>y\<bar> div 100 \<ge> 0" "\<bar>y\<bar> = \<bar>y\<bar> div 100 * 100 + \<bar>y\<bar> mod 100" "0 \<le> \<bar>y\<bar> mod 100" "\<bar>y\<bar> mod 100 < 100"
    by (simp_all add: pos_imp_zdiv_nonneg_iff)
  define a b where "a = \<bar>y\<bar> div 100" and "b = \<bar>y\<bar> mod 100"
  have ab: "0 \<le> a" "\<bar>y\<bar> = a * 100 + b" "0 \<le> b" "b < 100"
    using q by (simp_all only: a_def b_def)
  have g: "go_div y 100 = sgn y * a" by (simp add: go_div_def a_def)
  consider "y < 0" | "y = 0" | "0 < y" by linarith
  then have "0 \<le> go_div y 100 + 100 \<and> go_div y 100 + 100 < 256 \<and>
      0 \<le> go_mod y 100 + 100 \<and> go_mod y 100 + 100 < 256"
    using ab assms by cases (auto simp: go_mod_def g)
  then show "0 \<le> go_div y 100 + 100" "go_div y 100 + 100 < 256"
    "0 \<le> go_mod y 100 + 100" "go_mod y 100 + 100 < 256" by simp_all
  show "go_div y 100 * 100 + go_mod y 100 = y" by (simp add: go_mod_def)
qed

definition encodable_year :: "gotime \<Rightarrow> bool" where
  "encodable_year t \<longleftrightarrow> - 10000 \<le> time_Year t \<and> time_Year t < 15600"

definition civil :: "gotime \<Rightarrow> odate" where
  "civil t = \<lparr>Year = time_Year t, Month = time_Month t, Day = time_Day t, Hour = time_Hour t,
     Minute = time_Minute t, Second = time_Second t, Nanosecond = 0, TZHourOff = 0,
     TZMinuteOff = 0, HasTZ = False\<rparr>"

lemma length_EncodeDate [simp]: "length (EncodeDate [] t) = 7"
  by (simp add: EncodeDate_def Let_def)

lemma decode_fields_EncodeDate:
  assumes "encodable_year t"
  shows "decode_fields (EncodeDate [] t @ rest) =
    (civil t)\<lparr>Nanosecond := if length rest \<ge> 4 then uint (of_be (take 4 rest) :: u32) else 0\<rparr>"
proof -
  have y: "- 10000 \<le> time_Year t" "time_Year t < 15600" using assms by (simp_all add: encodable_year_def)
  note yb = go_divmod_bounds [OF y]
  show ?thesis
    using yb civil_ranges [of t] uint_byte [of "go_div (time_Year t) 100 + 100"]
      uint_byte [of "go_mod (time_Year t) 100 + 100"] uint_byte [of "time_Hour t + 1"]
      uint_byte [of "time_Minute t + 1"] uint_byte [of "time_Second t + 1"]
    by (simp add: decode_fields_def EncodeDate_def civil_def Let_def uint_byte)
qed


lemma uint_nanos:
  assumes "time_ok t"
  shows "uint (word_of_int (gt_nsec t) :: u32) = gt_nsec t"
  using assms by (simp add: time_ok_def uint_word_of_int)

lemma DecodeDate_7: "length b = 7 \<or> length b = 11 \<Longrightarrow> DecodeDate b = Inr (decode_fields b)"
  by (auto simp: DecodeDate_def)

lemma EncodeTimestamp_decode:
  assumes "time_ok t" "encodable_year t"
  shows "DecodeDate (EncodeTimestamp [] t) = Inr ((civil t)\<lparr>Nanosecond := gt_nsec t\<rparr>)"
proof (cases "word_of_int (gt_nsec t) = (0 :: u32)")
  case True
  then have "gt_nsec t = 0" using uint_nanos [OF assms(1)] by simp
  then show ?thesis
    using decode_fields_EncodeDate [OF assms(2), of "[]"] True
    by (simp add: EncodeTimestamp_def DecodeDate_7 civil_def)
next
  case False
  then show ?thesis
    using decode_fields_EncodeDate [OF assms(2), of "be32 (word_of_int (gt_nsec t))"]
    by (simp add: EncodeTimestamp_def DecodeDate_7 uint_nanos [OF assms(1)])
qed

lemma civil_UTC [simp]: "gt_off t = 0 \<Longrightarrow> time_UTC t = t"
  by (simp add: time_UTC_def)

lemma EncodeTimestampTZ_decode:
  assumes "time_ok t" "encodable_year (time_UTC t)"
  shows "DecodeDate (EncodeTimestampTZ [] t) =
    Inr ((civil (time_UTC t))\<lparr>Nanosecond := gt_nsec t, HasTZ := True\<rparr>)"
proof -
  define e where "e = EncodeDate [] (time_UTC t)"
  define ns :: u32 where "ns = word_of_int (gt_nsec t)"
  have enc: "EncodeTimestampTZ [] t = e @ be32 ns @ [20, 60]"
    by (simp add: EncodeTimestampTZ_def Let_def e_def ns_def time_UTC_def tzHourOffset_def tzMinuteOffset_def)
  have len: "length e = 7" by (simp add: e_def)
  have f: "decode_fields (e @ be32 ns @ [20, 60]) = (civil (time_UTC t))\<lparr>Nanosecond := gt_nsec t\<rparr>"
    using decode_fields_EncodeDate [OF assms(2), of "be32 ns @ [20, 60]"] uint_nanos [OF assms(1)]
    by (simp add: e_def ns_def)
  have n: "(e @ be32 ns @ [20, 60]) ! 11 = 20" "(e @ be32 ns @ [20, 60]) ! 12 = 60"
    by (simp_all add: nth_append len)
  show ?thesis
    unfolding enc DecodeDate_def
    by (simp add: len f n hasRegionID_def tzHourOffset_def tzMinuteOffset_def civil_def del: append_assoc)
qed

text \<open>The instant that the fields of a date name: the argument of the two conversions, before any wrap-around.\<close>

definition instant :: "odate \<Rightarrow> gotime" where
  "instant d = time_Date (Year d) (Month d) (Day d) (Hour d) (Minute d) (Second d) (Nanosecond d)"

lemma instant_civil:
  assumes "time_ok t" "gt_off t = 0"
  shows "instant ((civil t)\<lparr>Nanosecond := gt_nsec t, HasTZ := b\<rparr>) = t" "instant ((civil t)\<lparr>Nanosecond := gt_nsec t\<rparr>) = t"
  using time_Date_fields [OF assms(2), of 0] assms(1) by (simp_all add: instant_def civil_def time_ok_def)

lemma UnixNanos_civil:
  assumes "time_ok t" "gt_off t = 0"
  shows "UnixNanos ((civil t)\<lparr>Nanosecond := gt_nsec t, HasTZ := b\<rparr>) = UnixNano t"
    and "UnixNanos ((civil t)\<lparr>Nanosecond := gt_nsec t\<rparr>) = UnixNano t"
  using time_Date_fields [OF assms(2), of 0] assms(1)
  by (simp_all add: UnixNanos_def UnixNano_def civil_def time_ok_def)

lemma Unix_civil:
  assumes "gt_off t = 0"
  shows "Unix ((civil t)\<lparr>Nanosecond := n, HasTZ := b\<rparr>) = UnixSec t" "Unix ((civil t)\<lparr>Nanosecond := n\<rparr>) = UnixSec t" "Unix (civil t) = UnixSec t"
  using time_Date_fields [of "t\<lparr>gt_nsec := 0\<rparr>" 0] assms
  by (simp_all add: Unix_def UnixSec_def civil_def time_Year_def time_Month_def time_Month0_def time_Day_def time_Hour_def
      time_Minute_def time_Second_def local_days_def local_secs_def)

lemma EncodeDate_decode:
  assumes "encodable_year t"
  shows "DecodeDate (EncodeDate [] t) = Inr (civil t)"
  using decode_fields_EncodeDate [OF assms, of "[]"] by (simp add: DecodeDate_7 civil_def)

text \<open>
  Property C19. An instant bound as TIMESTAMP WITH TIME ZONE, whatever its location, reads back from its 13 wire
  bytes as fields that name exactly that instant, its seconds and nanoseconds in full and not only modulo
  \<open>2 ^ 64\<close>, for every year the two year bytes can hold; bound as TIMESTAMP it is the same instant when its location
  is UTC, and bound as DATE its whole second; \<open>Unix\<close> and \<open>UnixNanos\<close> of what was read are those of the instant.
\<close>

theorem timestamp_roundtrip:
  assumes "time_ok t" and "encodable_year (time_UTC t)"
  shows "\<exists>tz ts dt. DecodeDate (EncodeTimestampTZ [] t) = Inr tz \<and> DecodeDate (EncodeTimestamp [] (time_UTC t)) = Inr ts \<and>
    DecodeDate (EncodeDate [] (time_UTC t)) = Inr dt \<and>
    instant tz = time_UTC t \<and> instant ts = time_UTC t \<and>
    UnixNanos tz = UnixNano t \<and> UnixNanos ts = UnixNano t \<and>
    Unix tz = UnixSec t \<and> Unix ts = UnixSec t \<and> Unix dt = UnixSec t"
proof -
  have ok: "time_ok (time_UTC t)" "gt_off (time_UTC t) = 0" "gt_nsec (time_UTC t) = gt_nsec t"
    "UnixNano (time_UTC t) = UnixNano t" "UnixSec (time_UTC t) = UnixSec t"
    using assms(1) by (simp_all add: time_ok_def time_UTC_def UnixNano_def UnixSec_def)
  note c = instant_civil [OF ok(1,2)] UnixNanos_civil [OF ok(1,2)] Unix_civil [OF ok(2)]
  show ?thesis
    unfolding EncodeTimestampTZ_decode [OF assms] EncodeTimestamp_decode [OF ok(1) assms(2)] EncodeDate_decode [OF assms(2)]
    using c ok(3-5) by simp
qed

text \<open>The year 9999, in a location an hour east of Greenwich.\<close>

definition year_9999 :: gotime where
  "year_9999 = \<lparr>gt_unix = 253402300799, gt_nsec = 123456789, gt_off = 3600\<rparr>"

lemma year_9999_ok: "time_ok year_9999" "encodable_year (time_UTC year_9999)"
proof -
  have "time_Year (time_UTC year_9999) = 9999" by code_simp
  then show "time_ok year_9999" "encodable_year (time_UTC year_9999)" by (simp_all add: encodable_year_def time_ok_def year_9999_def)
qed

theorem timestamp_roundtrip_witness:
  "\<exists>d. DecodeDate (EncodeTimestampTZ [] year_9999) = Inr d \<and> gt_unix (instant d) = 253402300799 \<and> gt_nsec (instant d) = 123456789"
  using timestamp_roundtrip [OF year_9999_ok] by (auto simp: time_UTC_def year_9999_def)

text \<open>
  Property C32. The number of nanoseconds \<open>UnixNanos\<close> gives for a TIMESTAMP WITH TIME ZONE read back from the wire is
  that of the instant it was made from exactly while that number fits in \<open>int64\<close>: a timestamp of the year 9999,
  which the wire carries without loss, comes out wrong.
\<close>

theorem UnixNanos_exact_iff:
  assumes "time_ok t" "encodable_year (time_UTC t)"
  defines "nanos \<equiv> gt_unix t * 1000000000 + gt_nsec t"
  shows "map_sum id UnixNanos (DecodeDate (EncodeTimestampTZ [] t)) = Inr nanos \<longleftrightarrow> - (2 ^ 63) \<le> nanos \<and> nanos < 2 ^ 63"
proof -
  have ok: "time_ok (time_UTC t)" "gt_off (time_UTC t) = 0" "gt_nsec (time_UTC t) = gt_nsec t"
    using assms(1) by (simp_all add: time_ok_def time_UTC_def)
  have e: "map_sum id UnixNanos (DecodeDate (EncodeTimestampTZ [] t)) = Inr (wrap_signed 64 nanos)"
    using UnixNanos_civil(1) [OF ok(1,2)] ok(3)
    by (simp add: EncodeTimestampTZ_decode [OF assms(1,2)] nanos_def UnixNano_def int64_of_def time_UTC_def)
  show ?thesis
    using wrap_signed_range [of 64 nanos] wrap_signed_id [of 64 nanos] by (auto simp: e)
qed

theorem UnixNanos_exact_iff_witness:
  "map_sum id UnixNanos (DecodeDate (EncodeTimestampTZ [] year_9999)) \<noteq> Inr 253402300799123456789"
  using UnixNanos_exact_iff [OF year_9999_ok] by (simp add: year_9999_def)

lemma year_9999_overflows:
  "map_sum id UnixNanos (DecodeDate [199, 199, 12, 31, 24, 60, 60]) = Inr (- 4852116232933722624)"
  by code_simp

text \<open>The bytes of a date with the given fields: the year in two digits to the base 100, each with a bias.\<close>

definition date_bytes :: "int \<Rightarrow> int \<Rightarrow> odate \<Rightarrow> bytes" where
  "date_bytes century yy d =
     map word_of_int [century + 100, yy + 100, Month d, Day d, Hour d + 1, Minute d + 1, Second d + 1]"



lemma length_date_bytes [simp]: "length (date_bytes century yy d) = 7"
  by (simp add: date_bytes_def)






end
