(* ===== verification/Number.thy ===== *)
theory Number
  imports Complex_Main Prelude
begin

text \<open>
  \<^verbatim>\<open>internal/oratype/number.go\<close>: Oracle NUMBER, a base-100 floating point format. The decoder
  reads the wire bytes into decimal text and the encoder reads decimal text into wire bytes.
  The fixed arrays \<open>digits\<close> of the Go code are the list of the digits written so far
  (\<open>numDigits\<close> is its length); a write past the end of the decoder's 42-element array is the
  Go panic \<open>NumPanic\<close>. Texts are byte lists: 43 and 45 are the signs, 46 the point, 48 to 57
  the digits, 69 and 101 the letters of the exponent.
\<close>

datatype number_error =
    NumTooLarge | NumEmpty | NumPanic
  | NumEmptyText | NumTooLong | NumInvalid | NumBadExponent | NumEmptyExponent
  | NumTrailing | NumNoRepresentation | NumNotFinite

definition numberMaxDigits :: nat where "numberMaxDigits = 40"
definition numberMaxChars :: nat where "numberMaxChars = 172"

record decoded_number =
  Text :: bytes
  IsInteger :: bool
  IsMaxNegativeValue :: bool

subsection \<open>Decoding\<close>

text \<open>Appending to the array of \<open>numberMaxDigits + 2\<close> digits.\<close>

definition put_digit :: "u8 list \<Rightarrow> u8 \<Rightarrow> number_error + u8 list" where
  "put_digit ds d = (if length ds < numberMaxDigits + 2 then Inr (ds @ [d]) else Inl NumPanic)"

text \<open>One byte of the mantissa: the two decimal digits of \<open>byt\<close>; \<open>final\<close> tells \<open>i = n - 1\<close>.\<close>

definition decode_byte :: "u8 \<Rightarrow> bool \<Rightarrow> u8 list \<Rightarrow> int \<Rightarrow> number_error + u8 list \<times> int" where
  "decode_byte byt final ds dpi =
     (let digit = byt div 10 in
      case (if digit = 0 \<and> ds = [] then Inr (ds, dpi - 1)
            else if digit = 10 then
              (case put_digit ds 1 of Inl e \<Rightarrow> Inl e
               | Inr ds' \<Rightarrow> map_sum id (\<lambda>ds''. (ds'', dpi + 1)) (put_digit ds' 0))
            else map_sum id (\<lambda>ds'. (ds', dpi)) (put_digit ds digit))
      of Inl e \<Rightarrow> Inl e
      | Inr (ds, dpi) \<Rightarrow>
        (let digit = byt mod 10 in
         if digit \<noteq> 0 \<or> \<not> final then map_sum id (\<lambda>ds'. (ds', dpi)) (put_digit ds digit)
         else Inr (ds, dpi)))"

fun decode_mantissa :: "bool \<Rightarrow> bytes \<Rightarrow> u8 list \<Rightarrow> int \<Rightarrow> number_error + u8 list \<times> int" where
  "decode_mantissa isPositive [] ds dpi = Inr (ds, dpi)"
| "decode_mantissa isPositive (b # bs) ds dpi =
     (case decode_byte (if isPositive then b - 1 else 101 - b) (bs = []) ds dpi of
        Inl e \<Rightarrow> Inl e
      | Inr (ds, dpi) \<Rightarrow> decode_mantissa isPositive bs ds dpi)"

text \<open>The loop that writes the digits, with the point before digit \<open>dpi\<close>.\<close>

fun render_digits :: "u8 list \<Rightarrow> int \<Rightarrow> int \<Rightarrow> bytes" where
  "render_digits [] i dpi = []"
| "render_digits (d # ds) i dpi =
     (if i > 0 \<and> i = dpi then [46] else []) @ (48 + d) # render_digits ds (i + 1) dpi"

definition render_number :: "bool \<Rightarrow> u8 list \<Rightarrow> int \<Rightarrow> decoded_number" where
  "render_number isPositive ds dpi =
     \<lparr>Text = (if isPositive then [] else [45]) @
             (if dpi \<le> 0 then [48, 46] @ replicate (nat (- dpi)) 48 else []) @
             render_digits ds 0 dpi @
             (if dpi > int (length ds) then replicate (nat (dpi - int (length ds))) 48 else []),
      IsInteger = (\<not> dpi \<le> 0 \<and> \<not> (0 < dpi \<and> dpi < int (length ds))),
      IsMaxNegativeValue = False\<rparr>"

definition number_exponent :: "u8 \<Rightarrow> bool \<times> int" where
  "number_exponent b0 =
     (let isPositive = (b0 AND 0x80 \<noteq> 0); exponent = (if isPositive then b0 else NOT b0)
      in (isPositive, sint (exponent - 193)))"

definition DecodeNumber :: "bytes \<Rightarrow> number_error + decoded_number" where
  "DecodeNumber b =
     (let n = length b in
      if n > 21 then Inl NumTooLarge
      else if n = 0 then Inl NumEmpty
      else let (isPositive, exp) = number_exponent (b ! 0); decimalPointIndex = exp * 2 + 2 in
        if n = 1 then
          (if isPositive then Inr \<lparr>Text = [48], IsInteger = True, IsMaxNegativeValue = False\<rparr>
           else Inr \<lparr>Text = [], IsInteger = True, IsMaxNegativeValue = True\<rparr>)
        else let n = (if \<not> isPositive \<and> b ! (n - 1) = 102 then n - 1 else n) in
          case decode_mantissa isPositive (take (n - 1) (tl b)) [] decimalPointIndex of
            Inl e \<Rightarrow> Inl e
          | Inr (ds, dpi) \<Rightarrow> Inr (render_number isPositive ds dpi))"

subsection \<open>Encoding\<close>

text \<open>The scan of the integer part; leading zeros are not stored.\<close>

fun scan_int :: "bytes \<Rightarrow> u8 list \<Rightarrow> number_error + u8 list \<times> bytes" where
  "scan_int [] ds = Inr (ds, [])"
| "scan_int (c # cs) ds =
     (if c = 46 \<or> c = 101 \<or> c = 69 then Inr (ds, c # cs)
      else if c < 48 \<or> c > 57 then Inl NumInvalid
      else if c - 48 = 0 \<and> ds = [] then scan_int cs ds
      else scan_int cs (ds @ [c - 48]))"

text \<open>The scan of the fraction; a leading zero moves the point.\<close>

fun scan_frac :: "bytes \<Rightarrow> u8 list \<Rightarrow> int \<Rightarrow> number_error + (u8 list \<times> int) \<times> bytes" where
  "scan_frac [] ds dpi = Inr ((ds, dpi), [])"
| "scan_frac (c # cs) ds dpi =
     (if c = 101 \<or> c = 69 then Inr ((ds, dpi), c # cs)
      else if c < 48 \<or> c > 57 then Inl NumInvalid
      else if c - 48 = 0 \<and> ds = [] then scan_frac cs ds (dpi - 1)
      else scan_frac cs (ds @ [c - 48]) dpi)"

text \<open>\<open>strconv.Atoi\<close> of a string of digits: the value, clamped to the largest \<open>int64\<close>.\<close>

definition dec_val :: "u8 list \<Rightarrow> nat" where
  "dec_val ds = foldl (\<lambda>v d. 10 * v + unat d) 0 ds"

definition atoi_digits :: "bytes \<Rightarrow> int" where
  "atoi_digits s = min (2 ^ 63 - 1) (int (dec_val (map (\<lambda>c. c - 48) s)))"

definition scan_exp :: "bytes \<Rightarrow> int \<Rightarrow> number_error + int \<times> bytes" where
  "scan_exp cs dpi =
     (case cs of [] \<Rightarrow> Inr (dpi, [])
      | c # cs \<Rightarrow>
        if c = 101 \<or> c = 69 then
          (let expNeg = (cs \<noteq> [] \<and> hd cs = 45);
               ds = (if cs \<noteq> [] \<and> (hd cs = 45 \<or> hd cs = 43) then tl cs else cs)
           in if \<exists>d \<in> set ds. d < 48 \<or> d > 57 then Inl NumBadExponent
              else if ds = [] then Inl NumEmptyExponent
              else let e = atoi_digits ds; e = (if expNeg then - e else e)
                   in Inr (int64_of (dpi + e), []))
        else Inr (dpi, c # cs))"

fun strip_zeros :: "u8 list \<Rightarrow> u8 list" where
  "strip_zeros ds = rev (dropWhile (\<lambda>d. d = 0) (rev ds))"

declare strip_zeros.simps [simp del]

text \<open>The wire byte of one pair of digits.\<close>

definition pair_byte :: "bool \<Rightarrow> u8 \<Rightarrow> u8" where
  "pair_byte isNegative d = (if isNegative then 101 - d else d + 1)"

fun emit_pairs :: "bool \<Rightarrow> u8 list \<Rightarrow> nat \<Rightarrow> bytes" where
  "emit_pairs isNegative (d # e # ds) (Suc n) = pair_byte isNegative (d * 10 + e) # emit_pairs isNegative ds n"
| "emit_pairs isNegative _ _ = []"

definition emit_number :: "bool \<Rightarrow> u8 list \<Rightarrow> int \<Rightarrow> number_error + bytes" where
  "emit_number isNegative ds dpi =
     (if length ds > numberMaxDigits \<or> dpi > 126 \<or> dpi < - 129 then Inl NumNoRepresentation
      else
        let prependZero = (go_mod dpi 2 = 1 \<or> go_mod dpi 2 = - 1);
            (ds, dpi) = (if prependZero \<and> ds \<noteq> [] then (ds @ [0], dpi + 1) else (ds, dpi));
            ds = (if length ds mod 2 = 1 then ds @ [0] else ds);
            numPairs = length ds div 2
        in if ds = [] then Inr [128]
           else
             let exponentOnWire = word_of_int (go_div dpi 2) + (- 64) :: u8;
                 exponentOnWire = (if isNegative then NOT exponentOnWire else exponentOnWire);
                 pairs = (if prependZero
                          then pair_byte isNegative (hd ds) # emit_pairs isNegative (tl ds) (numPairs - 1)
                          else emit_pairs isNegative ds numPairs)
             in Inr (exponentOnWire # pairs @ (if isNegative \<and> length ds < numberMaxDigits then [102] else [])))"

definition EncodeNumber :: "bytes \<Rightarrow> bytes \<Rightarrow> number_error + bytes" where
  "EncodeNumber dst value =
     (if value = [] then Inl NumEmptyText
      else if length value > numberMaxChars then Inl NumTooLong
      else
        let isNegative = (hd value = 45);
            rest = (if hd value = 45 \<or> hd value = 43 then tl value else value)
        in case scan_int rest [] of Inl e \<Rightarrow> Inl e
        | Inr (ds, rest) \<Rightarrow>
          (case (if rest \<noteq> [] \<and> hd rest = 46 then scan_frac (tl rest) ds (int (length ds))
                 else Inr ((ds, int (length ds)), rest)) of Inl e \<Rightarrow> Inl e
           | Inr ((ds, dpi), rest) \<Rightarrow>
             (case scan_exp rest dpi of Inl e \<Rightarrow> Inl e
              | Inr (dpi, rest) \<Rightarrow>
                if rest \<noteq> [] then Inl NumTrailing
                else map_sum id (\<lambda>w. dst @ w) (emit_number isNegative (strip_zeros ds) dpi))))"

definition EncodeInt64 :: "bytes \<Rightarrow> int \<Rightarrow> number_error + bytes" where
  "EncodeInt64 dst v = EncodeNumber dst (asc (dec_int v))"

text \<open>A double is given by its bits; \<open>shortest\<close> is \<^verbatim>\<open>strconv\<close>'s shortest text of a finite one.\<close>

definition EncodeFloat64 :: "(u64 \<Rightarrow> bytes) \<Rightarrow> bytes \<Rightarrow> u64 \<Rightarrow> number_error + bytes" where
  "EncodeFloat64 shortest dst v =
     (if drop_bit 52 v AND 0x7ff = 0x7ff then Inl NumNotFinite else EncodeNumber dst (shortest v))"

subsection \<open>Decoding what the encoder emits\<close>

text \<open>The values of the pairs, and the mantissa loop on values instead of wire bytes.\<close>

fun pair_vals :: "u8 list \<Rightarrow> nat \<Rightarrow> u8 list" where
  "pair_vals (d # e # ds) (Suc n) = (d * 10 + e) # pair_vals ds n"
| "pair_vals _ _ = []"

fun decode_vals :: "u8 list \<Rightarrow> u8 list \<Rightarrow> int \<Rightarrow> number_error + u8 list \<times> int" where
  "decode_vals [] ds dpi = Inr (ds, dpi)"
| "decode_vals (x # xs) ds dpi =
     (case decode_byte x (xs = []) ds dpi of Inl e \<Rightarrow> Inl e | Inr (ds, dpi) \<Rightarrow> decode_vals xs ds dpi)"

lemma emit_pairs_vals: "emit_pairs neg ds n = map (pair_byte neg) (pair_vals ds n)"
  by (induction ds n rule: pair_vals.induct) auto

lemma unpair_byte: "(if \<not> neg then pair_byte neg x - 1 else 101 - pair_byte neg x) = x"
  by (simp add: pair_byte_def)

lemma decode_mantissa_vals:
  "decode_mantissa (\<not> neg) (map (pair_byte neg) xs) ds dpi = decode_vals xs ds dpi"
  by (induction xs arbitrary: ds dpi) (auto simp: unpair_byte split: sum.split)

text \<open>A value below 100 splits into its two digits.\<close>

definition digits_ok :: "u8 list \<Rightarrow> bool" where
  "digits_ok ds \<longleftrightarrow> (\<forall>d \<in> set ds. d < 10)"

lemma digits_ok_simps [simp]:
  "digits_ok []" "digits_ok (d # ds) \<longleftrightarrow> d < 10 \<and> digits_ok ds"
  "digits_ok (xs @ ys) \<longleftrightarrow> digits_ok xs \<and> digits_ok ys"
  by (auto simp: digits_ok_def)

lemma pair_split:
  fixes d e :: u8
  assumes "d < 10" "e < 10"
  shows "(d * 10 + e) div 10 = d" "(d * 10 + e) mod 10 = e" "unat (d * 10 + e) = unat d * 10 + unat e"
proof -
  have b: "unat d < 10" "unat e < 10" using assms by (simp_all add: word_less_nat_alt)
  then show u: "unat (d * 10 + e) = unat d * 10 + unat e"
    by (simp add: unat_word_ariths)
  show "(d * 10 + e) div 10 = d" "(d * 10 + e) mod 10 = e"
    using b by (simp_all add: word_unat_eq_iff unat_div unat_mod u)
qed

lemma decode_byte_pair:
  assumes "d < 10" "e < 10" "length ds \<le> 40" "ds \<noteq> [] \<or> d \<noteq> 0"
  shows "decode_byte (d * 10 + e) final ds dpi =
    Inr (ds @ d # (if e = 0 \<and> final then [] else [e]), dpi)"
proof -
  have "d \<noteq> 10" using assms(1) by auto
  then show ?thesis
    using assms by (auto simp: decode_byte_def pair_split put_digit_def numberMaxDigits_def Let_def)
qed

lemma decode_byte_single:
  assumes "e < 10" "e \<noteq> 0"
  shows "decode_byte e final [] dpi = Inr ([e], dpi - 1)"
  using pair_split [of 0 e] assms by (simp add: decode_byte_def put_digit_def numberMaxDigits_def Let_def)

definition drop_final :: "u8 list \<Rightarrow> u8 list" where
  "drop_final ds = (if ds \<noteq> [] \<and> last ds = 0 then butlast ds else ds)"

lemma drop_final_Cons: "ds \<noteq> [] \<Longrightarrow> drop_final (d # ds) = d # drop_final ds"
  by (simp add: drop_final_def)

lemma decode_pair_vals:
  assumes "length ds = 2 * k" "digits_ok ds" "length acc + length ds \<le> 42" "acc \<noteq> [] \<or> ds = [] \<or> hd ds \<noteq> 0"
  shows "decode_vals (pair_vals ds k) acc dpi = Inr (acc @ drop_final ds, dpi)"
  using assms
proof (induction k arbitrary: ds acc)
  case 0
  then show ?case by (simp add: drop_final_def)
next
  case (Suc k)
  then obtain d e es where ds: "ds = d # e # es" and l: "length es = 2 * k"
    by (cases ds; cases "tl ds") auto
  have p: "d < 10" "e < 10" "digits_ok es" "length acc \<le> 40" "acc \<noteq> [] \<or> d \<noteq> 0"
    using Suc.prems ds by auto
  show ?case
  proof (cases "k = 0")
    case True
    then show ?thesis
      using l p decode_byte_pair [OF p(1,2,4,5)] by (simp add: ds drop_final_def)
  next
    case False
    then have "es \<noteq> []" "pair_vals es k \<noteq> []"
      using l by (cases k; cases es; cases "tl es"; auto)+
    then show ?thesis
      using p Suc.IH [OF l, of "acc @ [d, e]"] Suc.prems decode_byte_pair [OF p(1,2,4,5)]
      by (simp add: ds drop_final_Cons)
  qed
qed

definition canonical :: "u8 list \<Rightarrow> bool" where
  "canonical ds \<longleftrightarrow> ds \<noteq> [] \<and> hd ds \<noteq> 0 \<and> last ds \<noteq> 0 \<and> digits_ok ds"

lemma pair_vals_take: "2 * k \<le> length xs \<Longrightarrow> pair_vals xs k = pair_vals (take (2 * k) xs) k"
proof (induction k arbitrary: xs)
  case (Suc k)
  obtain a b ys where xs: "xs = a # b # ys" using Suc.prems by (cases xs; cases "tl xs") auto
  have "2 * k \<le> length ys" using Suc.prems xs by simp
  note IH = Suc.IH [OF this]
  show ?case unfolding xs by (simp, rule IH)
qed simp

lemma length_pair_vals: "2 * k \<le> length xs \<Longrightarrow> length (pair_vals xs k) = k"
  by (induction xs k rule: pair_vals.induct) auto

lemma pair_vals_bound:
  assumes "digits_ok xs" "x \<in> set (pair_vals xs k)"
  shows "unat x < 100"
  using assms
proof (induction xs k rule: pair_vals.induct)
  case (1 d e ds n)
  have "unat (d * 10 + e) < 100" if "d < 10" "e < 10"
    using pair_split(3) [OF that] that by (simp add: word_less_nat_alt)
  then show ?case using 1 by auto
qed auto

text \<open>The pair values of a number: an odd decimal point puts a zero before the first digit.\<close>

definition number_vals :: "u8 list \<Rightarrow> int \<Rightarrow> u8 list" where
  "number_vals ds dpi =
     (if odd dpi then hd ds # pair_vals (tl ds @ [0]) (length ds div 2)
      else pair_vals (ds @ [0]) ((length ds + 1) div 2))"

lemma decode_number_vals_even:
  assumes "canonical ds" "length ds \<le> 40" "even dpi"
  shows "decode_vals (number_vals ds dpi) [] dpi = Inr (ds, dpi)"
proof (cases "even (length ds)")
  case True
  then obtain k where k: "length ds = 2 * k" by (rule evenE)
  then show ?thesis
    using assms decode_pair_vals [OF k, of "[]" dpi] pair_vals_take [of k "ds @ [0]"]
    by (auto simp: number_vals_def canonical_def drop_final_def)
next
  case False
  then obtain k where k: "length ds = 2 * k + 1" by (rule oddE)
  then show ?thesis
    using assms decode_pair_vals [of "ds @ [0]" "Suc k" "[]" dpi]
    by (auto simp: number_vals_def canonical_def drop_final_def)
qed

lemma decode_number_vals_odd:
  assumes "canonical ds" "length ds \<le> 39" "odd dpi"
  shows "decode_vals (number_vals ds dpi) [] (dpi + 1) = Inr (ds, dpi)"
proof -
  obtain d es where ds: "ds = d # es" using assms(1) by (cases ds) (auto simp: canonical_def)
  have d: "d < 10" "d \<noteq> 0" "digits_ok es" "es \<noteq> [] \<Longrightarrow> last es \<noteq> 0"
    using assms(1) by (auto simp: canonical_def ds)
  have "decode_vals (pair_vals (es @ [0]) (Suc (length es) div 2)) [d] dpi = Inr (d # es, dpi)"
  proof (cases "even (length es)")
    case True
    then obtain k where k: "length es = 2 * k" by (rule evenE)
    then show ?thesis
      using d assms(2) decode_pair_vals [OF k, of "[d]" dpi] pair_vals_take [of k "es @ [0]"]
      by (auto simp: ds drop_final_def)
  next
    case False
    then obtain k where k: "length es = 2 * k + 1" by (rule oddE)
    then show ?thesis
      using d assms(2) decode_pair_vals [of "es @ [0]" "Suc k" "[d]" dpi]
      by (auto simp: ds drop_final_def)
  qed
  then show ?thesis
    using assms(3) decode_byte_single [OF d(1,2), of _ "dpi + 1"] by (simp add: number_vals_def ds)
qed

lemma go_mod_2: "go_mod dpi 2 = 1 \<or> go_mod dpi 2 = - 1 \<longleftrightarrow> odd dpi"
proof -
  define a b where "a = \<bar>dpi\<bar> div 2" and "b = \<bar>dpi\<bar> mod 2"
  have ab: "\<bar>dpi\<bar> = 2 * a + b" by (simp add: a_def b_def)
  have b: "b = (if odd dpi then 1 else 0)"
    unfolding b_def by (cases "dpi < 0"; simp add: abs_if; presburger)
  have "go_mod dpi 2 = dpi - sgn dpi * a * 2" by (simp add: go_mod_def go_div_def a_def)
  then have "go_mod dpi 2 = sgn dpi * b" using ab by (cases "dpi < 0") (auto simp: sgn_if)
  then show ?thesis using b by (auto simp: sgn_if)
qed

lemma go_div_2_even: "even dpi \<Longrightarrow> go_div dpi 2 = dpi div 2"
  by (cases "dpi < 0") (auto simp: go_div_def sgn_if elim!: evenE)

definition number_exp_byte :: "bool \<Rightarrow> int \<Rightarrow> u8" where
  "number_exp_byte neg h = (let w = word_of_int h + (- 64) in if neg then NOT w else w)"

definition pad_len :: "nat \<Rightarrow> int \<Rightarrow> nat" where
  "pad_len n dpi = 2 * ((n + (if odd dpi then 1 else 0) + 1) div 2)"

lemma emit_number_canonical:
  assumes "canonical ds" "length ds \<le> 40" "- 129 \<le> dpi" "dpi \<le> 126"
  shows "emit_number neg ds dpi = Inr (number_exp_byte neg ((dpi + 1) div 2) #
      map (pair_byte neg) (number_vals ds dpi) @
      (if neg \<and> pad_len (length ds) dpi < 40 then [102] else []))"
proof -
  have ne: "ds \<noteq> []" using assms(1) by (simp add: canonical_def)
  note simps = emit_number_def numberMaxDigits_def go_mod_2 Let_def emit_pairs_vals number_exp_byte_def number_vals_def pad_len_def
  show ?thesis
  proof (cases "odd dpi")
    case True
    then have h: "go_div (dpi + 1) 2 = (dpi + 1) div 2" by (simp add: go_div_2_even)
    show ?thesis
    proof (cases "even (length ds)")
      case True
      obtain k where k: "length ds = 2 * k" using \<open>even (length ds)\<close> by (rule evenE)
      have "pair_vals (tl ds @ [0, 0]) k = pair_vals (tl ds @ [0]) k"
        using k ne pair_vals_take [of k "tl ds @ [0, 0]"] pair_vals_take [of k "tl ds @ [0]"]
        by (cases k) simp_all
      then show ?thesis
        using assms ne k \<open>odd dpi\<close> h by (simp add: simps)
    next
      case False
      obtain k where k: "length ds = 2 * k + 1" using False by (rule oddE)
      then show ?thesis
        using assms ne \<open>odd dpi\<close> h by (simp add: simps)
    qed
  next
    case False
    then have h: "go_div dpi 2 = (dpi + 1) div 2" by (auto simp: go_div_2_even elim!: evenE)
    show ?thesis
    proof (cases "even (length ds)")
      case True
      obtain k where k: "length ds = 2 * k" using True by (rule evenE)
      have "pair_vals (ds @ [0]) k = pair_vals ds k"
        using k pair_vals_take [of k "ds @ [0]"] by simp
      then show ?thesis
        using assms ne k False h by (simp add: simps)
    next
      case odd: False
      obtain k where k: "length ds = 2 * k + 1" using odd by (rule oddE)
      then show ?thesis
        using assms ne False h by (simp add: simps)
    qed
  qed
qed

lemma number_exponent_table:
  "\<forall>h \<in> set [-64..63]. number_exponent (number_exp_byte False h) = (True, h - 1) \<and>
     number_exponent (number_exp_byte True h) = (False, h - 1)"
  by code_simp

lemma number_exponent_byte:
  assumes "- 64 \<le> h" "h \<le> 63"
  shows "number_exponent (number_exp_byte neg h) = (\<not> neg, h - 1)"
proof -
  have "h \<in> set [-64..63]" using assms by (simp only: set_upto atLeastAtMost_iff)
  then show ?thesis using bspec [OF number_exponent_table, of h] by (cases neg) simp_all
qed

lemma length_number_vals:
  assumes "ds \<noteq> []"
  shows "2 * length (number_vals ds dpi) = pad_len (length ds) dpi"
proof -
  obtain d es where "ds = d # es" using assms by (cases ds) auto
  moreover have "2 * ((length ds + 1) div 2) \<le> length ds + 1" "2 * (length ds div 2) \<le> length ds" by simp_all
  ultimately show ?thesis
    using length_pair_vals [of "length ds div 2" "tl ds @ [0]"] length_pair_vals [of "(length ds + 1) div 2" "ds @ [0]"]
    by (simp add: number_vals_def pad_len_def)
qed

lemma last_pair_byte:
  assumes "digits_ok ds" "ds \<noteq> []"
  shows "102 \<notin> set (map (pair_byte True) (number_vals ds dpi))"
proof -
  have "unat x < 100" if "x \<in> set (number_vals ds dpi)" for x
    using that assms pair_vals_bound [of "tl ds @ [0]" x] pair_vals_bound [of "ds @ [0]" x]
    by (cases ds) (auto simp: number_vals_def word_less_nat_alt split: if_splits)
  moreover have "unat x < 100 \<Longrightarrow> 101 - x \<noteq> 102" for x :: u8
  proof
    assume "unat x < 100" "101 - x = 102"
    have "x = 101 - (101 - x)" by simp
    also have "\<dots> = 255" unfolding \<open>101 - x = 102\<close> by simp
    finally have "x = 255" .
    then show False using \<open>unat x < 100\<close> by simp
  qed
  ultimately show ?thesis by (auto simp: pair_byte_def)
qed

text \<open>The wire bytes of canonical digits decode to the same digits and the same point.\<close>

lemma decode_emit_number:
  assumes "canonical ds" "length ds + (if odd dpi then 1 else 0) \<le> 40" "- 129 \<le> dpi" "dpi \<le> 126"
  obtains w where "emit_number neg ds dpi = Inr w" "length w \<le> 21"
    "DecodeNumber w = Inr (render_number (\<not> neg) ds dpi)"
proof -
  define h where "h = (dpi + 1) div 2"
  define vs where "vs = number_vals ds dpi"
  define tail where "tail = (if neg \<and> pad_len (length ds) dpi < 40 then [102] else [] :: u8 list)"
  define w where "w = number_exp_byte neg h # map (pair_byte neg) vs @ tail"
  have ne: "ds \<noteq> []" "digits_ok ds" using assms(1) by (simp_all add: canonical_def)
  have len: "length ds \<le> 40" "odd dpi \<Longrightarrow> length ds \<le> 39" using assms(2) by auto
  have e: "emit_number neg ds dpi = Inr w"
    using emit_number_canonical [OF assms(1) len(1) assms(3,4)] by (simp add: w_def h_def vs_def tail_def)
  have pad: "pad_len (length ds) dpi \<le> 40" using assms(2) by (auto simp: pad_len_def)
  have lv: "2 * length vs = pad_len (length ds) dpi" unfolding vs_def by (rule length_number_vals [OF ne(1)])
  have pos: "0 < length vs" using lv ne(1) by (cases ds) (auto simp: pad_len_def)
  have l: "length w \<le> 21" "1 < length w" using lv pad pos by (auto simp: w_def tail_def)
  have h: "- 64 \<le> h" "h \<le> 63" using assms(3,4) by (simp_all add: h_def)
  have ex: "number_exponent (w ! 0) = (\<not> neg, h - 1)" by (simp add: w_def number_exponent_byte [OF h])
  have body: "take ((if neg \<and> w ! (length w - 1) = 102 then length w - 1 else length w) - 1) (tl w) = map (pair_byte neg) vs"
  proof (cases "tail = []")
    case True
    have "w ! (length w - 1) \<in> set (map (pair_byte neg) vs)"
      using pos True by (simp add: w_def nth_Cons')
    then have "\<not> (neg \<and> w ! (length w - 1) = 102)"
      using last_pair_byte [OF ne(2,1), of dpi] by (auto simp: vs_def)
    then have "(if neg \<and> w ! (length w - 1) = 102 then length w - 1 else length w) = length w"
      by (simp only: if_False)
    then show ?thesis using True by (simp add: w_def)
  next
    case False
    then have "tail = [102]" "neg" by (simp_all add: tail_def split: if_splits)
    then show ?thesis by (simp add: w_def nth_append)
  qed
  have dec: "decode_vals vs [] ((h - 1) * 2 + 2) = Inr (ds, dpi)"
  proof (cases "odd dpi")
    case True
    then have e: "(h - 1) * 2 + 2 = dpi + 1" by (auto simp: h_def elim!: oddE)
    show ?thesis unfolding vs_def e by (rule decode_number_vals_odd [OF assms(1) len(2) True]) (rule True)
  next
    case False
    then have "(h - 1) * 2 + 2 = dpi" by (auto simp: h_def elim!: evenE)
    then show ?thesis using decode_number_vals_even [OF assms(1) len(1)] False by (simp add: vs_def)
  qed
  have ifs: "\<not> length w > 21" "length w \<noteq> 0" "length w \<noteq> 1" using l by auto
  have "DecodeNumber w = Inr (render_number (\<not> neg) ds dpi)"
    by (simp only: DecodeNumber_def Let_def ex ifs if_False prod.case not_not body
        decode_mantissa_vals dec sum.case)
  with e l(1) that show ?thesis by blast
qed


subsection \<open>What a decimal text denotes\<close>

text \<open>
  The specification: the rational number that a text of the form
  \<open>sign digits . digits e sign digits\<close> denotes, each part optional, computed by cutting the text
  at the point and at the exponent letter, without the scanner.
\<close>

definition is_exp_char :: "u8 \<Rightarrow> bool" where
  "is_exp_char c \<longleftrightarrow> c = 101 \<or> c = 69"

definition digit_vals :: "bytes \<Rightarrow> u8 list" where
  "digit_vals cs = map (\<lambda>c. c - 48) cs"

definition unsigned_part :: "bytes \<Rightarrow> bytes" where
  "unsigned_part s = (if s \<noteq> [] \<and> (hd s = 45 \<or> hd s = 43) then tl s else s)"

definition sign_of :: "bytes \<Rightarrow> rat" where
  "sign_of s = (if s \<noteq> [] \<and> hd s = 45 then - 1 else 1)"

definition int_text_value :: "bytes \<Rightarrow> int" where
  "int_text_value s =
     (if s \<noteq> [] \<and> hd s = 45 then - int (dec_val (digit_vals (unsigned_part s)))
      else int (dec_val (digit_vals (unsigned_part s))))"

definition mantissa_value :: "bytes \<Rightarrow> rat" where
  "mantissa_value m =
     (let ip = takeWhile (\<lambda>c. c \<noteq> 46) m; fp = drop 1 (dropWhile (\<lambda>c. c \<noteq> 46) m)
      in of_nat (dec_val (digit_vals (ip @ fp))) / 10 ^ length fp)"

definition text_value :: "bytes \<Rightarrow> rat" where
  "text_value s =
     (let u = unsigned_part s
      in sign_of s * mantissa_value (takeWhile (\<lambda>c. \<not> is_exp_char c) u) *
         10 powi int_text_value (drop 1 (dropWhile (\<lambda>c. \<not> is_exp_char c) u)))"

text \<open>The number \<open>0.d1d2... * 10 ^ dpi\<close> that digits and a decimal point stand for.\<close>

definition digits_value :: "u8 list \<Rightarrow> int \<Rightarrow> rat" where
  "digits_value ds dpi = of_nat (dec_val ds) * 10 powi (dpi - int (length ds))"

lemma dec_val_snoc [simp]: "dec_val (ds @ [d]) = 10 * dec_val ds + unat d"
  by (simp add: dec_val_def)

lemma dec_val_Nil [simp]: "dec_val [] = 0"
  by (simp add: dec_val_def)

lemma dec_val_append: "dec_val (xs @ ys) = dec_val xs * 10 ^ length ys + dec_val ys"
  by (induction ys rule: rev_induct) (simp_all add: algebra_simps flip: append_assoc)

lemma dec_val_zeros: "dec_val (replicate k 0) = 0"
  by (induction k) (simp_all flip: replicate_append_same)

lemma dropWhile_zeros: "\<exists>k. ds = replicate k (0::u8) @ dropWhile (\<lambda>d. d = 0) ds"
proof (induction ds)
  case (Cons d ds)
  then obtain k where k: "ds = replicate k 0 @ dropWhile (\<lambda>d. d = 0) ds" by blast
  show ?case
  proof (cases "d = 0")
    case True
    with k have "d # ds = replicate (Suc k) 0 @ dropWhile (\<lambda>d. d = 0) (d # ds)" by simp
    then show ?thesis by blast
  next
    case False
    then have "d # ds = replicate 0 0 @ dropWhile (\<lambda>d. d = 0) (d # ds)" by simp
    then show ?thesis by blast
  qed
qed simp

lemma dec_val_dropWhile: "dec_val (dropWhile (\<lambda>d. d = 0) ds) = dec_val ds"
proof -
  obtain k where k: "ds = replicate k 0 @ dropWhile (\<lambda>d. d = 0) ds" using dropWhile_zeros by blast
  show ?thesis by (subst (2) k) (simp add: dec_val_append dec_val_zeros)
qed

lemma strip_zeros_split: "\<exists>k. ds = strip_zeros ds @ replicate k 0"
proof -
  obtain k where k: "rev ds = replicate k 0 @ dropWhile (\<lambda>d. d = 0) (rev ds)"
    using dropWhile_zeros by blast
  have "ds = rev (rev ds)" by simp
  also have "\<dots> = strip_zeros ds @ replicate k 0"
    by (subst k) (simp add: strip_zeros.simps)
  finally show ?thesis by blast
qed

lemma digits_value_strip: "digits_value (strip_zeros ds) dpi = digits_value ds dpi"
proof -
  obtain k where k: "ds = strip_zeros ds @ replicate k 0" using strip_zeros_split by blast
  have "(10::rat) powi (dpi - int (length (strip_zeros ds))) =
      10 powi (dpi - int (length (strip_zeros ds) + k)) * 10 ^ k"
    by (simp add: power_int_diff power_int_add field_simps)
  then show ?thesis
    by (subst (2) k) (simp add: digits_value_def dec_val_append dec_val_zeros algebra_simps)
qed

subsection \<open>The scanner reads the denoted number\<close>

definition all_digits :: "bytes \<Rightarrow> bool" where
  "all_digits cs \<longleftrightarrow> (\<forall>c \<in> set cs. 48 \<le> c \<and> c \<le> 57)"

lemma all_digits_Cons [simp]: "all_digits (c # cs) \<longleftrightarrow> 48 \<le> c \<and> c \<le> 57 \<and> all_digits cs"
  and all_digits_Nil [simp]: "all_digits []"
  by (auto simp: all_digits_def)

definition add_digits :: "u8 list \<Rightarrow> u8 list \<Rightarrow> u8 list" where
  "add_digits ds es = (if ds = [] then dropWhile (\<lambda>d. d = 0) es else ds @ es)"

lemma add_digits_step:
  "add_digits ds (d # es) = (if d = 0 \<and> ds = [] then add_digits ds es else add_digits (ds @ [d]) es)"
  by (simp add: add_digits_def)

lemma scan_int_spec:
  assumes "scan_int cs ds = Inr (ds', rest)"
  shows "\<exists>ip. cs = ip @ rest \<and> all_digits ip \<and> ds' = add_digits ds (digit_vals ip) \<and>
    (rest = [] \<or> hd rest = 46 \<or> is_exp_char (hd rest))"
  using assms
proof (induction cs arbitrary: ds)
  case Nil
  then show ?case by (auto simp: add_digits_def digit_vals_def)
next
  case (Cons c cs)
  show ?case
  proof (cases "c = 46 \<or> c = 101 \<or> c = 69")
    case True
    then show ?thesis using Cons.prems
      by (auto intro!: exI [of _ "[]"] simp: add_digits_def digit_vals_def is_exp_char_def)
  next
    case False
    then have c: "48 \<le> c" "c \<le> 57" and
      s: "scan_int cs (if c - 48 = 0 \<and> ds = [] then ds else ds @ [c - 48]) = Inr (ds', rest)"
      using Cons.prems by (auto split: if_splits simp: not_less)
    from Cons.IH [OF s] obtain ip where "cs = ip @ rest" "all_digits ip"
      "ds' = add_digits (if c - 48 = 0 \<and> ds = [] then ds else ds @ [c - 48]) (digit_vals ip)"
      "rest = [] \<or> hd rest = 46 \<or> is_exp_char (hd rest)" by blast
    then show ?thesis
      using c by (intro exI [of _ "c # ip"]) (auto simp: digit_vals_def add_digits_step)
  qed
qed

lemma scan_frac_spec:
  assumes "scan_frac cs ds dpi = Inr ((ds', dpi'), rest)"
  shows "\<exists>fp. cs = fp @ rest \<and> all_digits fp \<and> ds' = add_digits ds (digit_vals fp) \<and>
    dpi' - int (length ds') = dpi - int (length ds) - int (length fp) \<and>
    (rest = [] \<or> is_exp_char (hd rest))"
  using assms
proof (induction cs arbitrary: ds dpi)
  case Nil
  then show ?case by (auto simp: add_digits_def digit_vals_def)
next
  case (Cons c cs)
  show ?case
  proof (cases "c = 101 \<or> c = 69")
    case True
    then show ?thesis using Cons.prems
      by (auto intro!: exI [of _ "[]"] simp: add_digits_def digit_vals_def is_exp_char_def)
  next
    case False
    define z where "z = (c - 48 = 0 \<and> ds = [])"
    have c: "48 \<le> c" "c \<le> 57" and
      s: "scan_frac cs (if z then ds else ds @ [c - 48]) (if z then dpi - 1 else dpi) = Inr ((ds', dpi'), rest)"
      using Cons.prems False by (auto split: if_splits simp: not_less z_def)
    from Cons.IH [OF s] obtain fp where "cs = fp @ rest" "all_digits fp"
      "ds' = add_digits (if z then ds else ds @ [c - 48]) (digit_vals fp)"
      "dpi' - int (length ds') = (if z then dpi - 1 else dpi) - int (length (if z then ds else ds @ [c - 48])) - int (length fp)"
      "rest = [] \<or> is_exp_char (hd rest)" by blast
    then show ?thesis
      using c by (intro exI [of _ "c # fp"]) (auto simp: digit_vals_def add_digits_step z_def)
  qed
qed

lemma add_digits_append: "add_digits (add_digits [] xs) ys = dropWhile (\<lambda>d. d = 0) (xs @ ys)"
  by (induction xs) (auto simp: add_digits_def)

lemma length_add_digits: "length (add_digits ds es) \<le> length ds + length es"
  by (simp add: add_digits_def length_dropWhile_le)

lemma digits_ok_digit_vals: "all_digits cs \<Longrightarrow> digits_ok (digit_vals cs)"
proof (induction cs)
  case (Cons c cs)
  then have "unat c \<le> 57" "48 \<le> unat c" by (simp_all add: word_le_nat_alt)
  then have "c - 48 < 10" by (simp add: word_less_nat_alt unat_sub word_le_nat_alt)
  then show ?case using Cons by (simp add: digit_vals_def)
qed (simp add: digit_vals_def)

lemma digits_ok_dropWhile: "digits_ok ds \<Longrightarrow> digits_ok (dropWhile P ds)"
  by (auto simp: digits_ok_def dest: set_dropWhileD)

lemma last_strip_zeros: "strip_zeros t \<noteq> [] \<Longrightarrow> last (strip_zeros t) \<noteq> 0"
  using hd_dropWhile [of "\<lambda>d. d = 0" "rev t"] by (simp add: strip_zeros.simps last_rev)

lemma canonical_strip:
  assumes "digits_ok ds" "strip_zeros (dropWhile (\<lambda>d. d = 0) ds) \<noteq> []"
  shows "canonical (strip_zeros (dropWhile (\<lambda>d. d = 0) ds))"
proof -
  let ?t = "dropWhile (\<lambda>d. d = 0) ds"
  obtain k where k: "?t = strip_zeros ?t @ replicate k 0" using strip_zeros_split by blast
  define t where "t = ?t"
  have t: "t \<noteq> []" using assms(2) k unfolding t_def by (metis Nil_is_append_conv)
  have "hd (strip_zeros ?t) = hd ?t" using assms(2) k by (metis hd_append2)
  moreover have "hd ?t \<noteq> 0" using hd_dropWhile [OF t [unfolded t_def]] by (simp only: not_False_eq_True)
  moreover have "last (strip_zeros ?t) \<noteq> 0"
  proof -
    have "strip_zeros t \<noteq> []" using assms(2) by (simp only: t_def not_False_eq_True)
    then have "last (strip_zeros t) \<noteq> 0" by (rule last_strip_zeros)
    then show ?thesis by (simp only: t_def not_False_eq_True)
  qed
  moreover have "digits_ok (strip_zeros ?t)"
  proof -
    have "digits_ok (strip_zeros ?t @ replicate k 0)"
      using digits_ok_dropWhile [OF assms(1)] k by metis
    then show ?thesis by simp
  qed
  ultimately show ?thesis using assms(2) by (simp add: canonical_def)
qed

lemma takeWhile_digits:
  assumes "all_digits ip"
  shows "takeWhile (\<lambda>c. c \<noteq> 46) (ip @ 46 # fp) = ip" "dropWhile (\<lambda>c. c \<noteq> 46) (ip @ 46 # fp) = 46 # fp"
    "takeWhile (\<lambda>c. c \<noteq> 46) ip = ip" "dropWhile (\<lambda>c. c \<noteq> 46) ip = []"
  using assms by (induction ip) auto

lemma mantissa_value_point:
  "all_digits ip \<Longrightarrow> mantissa_value (ip @ 46 # fp) = of_nat (dec_val (digit_vals (ip @ fp))) / 10 ^ length fp"
  by (simp add: mantissa_value_def takeWhile_digits)

lemma mantissa_value_int: "all_digits ip \<Longrightarrow> mantissa_value ip = of_nat (dec_val (digit_vals ip))"
  by (simp add: mantissa_value_def takeWhile_digits)

lemma digits_not_exp: "all_digits ip \<Longrightarrow> c \<in> set ip \<Longrightarrow> \<not> is_exp_char c"
  by (auto simp: all_digits_def is_exp_char_def)

lemma takeWhile_exp:
  assumes "\<forall>c \<in> set m. \<not> is_exp_char c" "rest = [] \<or> is_exp_char (hd rest)"
  shows "takeWhile (\<lambda>c. \<not> is_exp_char c) (m @ rest) = m" "dropWhile (\<lambda>c. \<not> is_exp_char c) (m @ rest) = rest"
  using assms by (induction m; cases rest; auto)+

lemma digits_value_scaled:
  "dpi - int (length ds) = - int n \<Longrightarrow> digits_value ds dpi = of_nat (dec_val ds) / 10 ^ n"
  by (simp only: digits_value_def power_int_minus power_int_of_nat divide_inverse)

lemma digits_value_shift: "digits_value ds (dpi + e) = digits_value ds dpi * 10 powi e"
proof -
  have e: "dpi + e - int (length ds) = (dpi - int (length ds)) + e" by simp
  have "digits_value ds (dpi + e) = of_nat (dec_val ds) * (10 powi ((dpi - int (length ds)) + e))"
    by (simp only: digits_value_def e)
  also have "\<dots> = of_nat (dec_val ds) * (10 powi (dpi - int (length ds)) * 10 powi e)"
    by (subst power_int_add) simp_all
  finally show ?thesis by (simp only: digits_value_def mult.assoc)
qed

lemma int64_of_near:
  assumes "\<bar>dpi\<bar> \<le> 1000" "\<bar>e\<bar> \<le> 2 ^ 63 - 1" "- 129 \<le> int64_of (dpi + e)" "int64_of (dpi + e) \<le> 126"
  shows "int64_of (dpi + e) = dpi + e" "\<bar>e\<bar> \<le> 2000"
proof -
  define x where "x = dpi + e"
  have x: "\<bar>x\<bar> \<le> 2 ^ 63 + 999" using assms(1,2) by (simp add: x_def)
  have w: "int64_of x = (x + 2 ^ 63) mod 2 ^ 64 - 2 ^ 63" by (simp add: int64_of_def wrap_signed_def)
  consider "x < - (2 ^ 63)" | "- (2 ^ 63) \<le> x \<and> x < 2 ^ 63" | "2 ^ 63 \<le> x" by linarith
  then have "int64_of x = x"
  proof cases
    case 1
    have "(x + 2 ^ 63) mod 2 ^ 64 = (x + 2 ^ 63 + 2 ^ 64) mod 2 ^ 64" by (rule mod_add_self2 [symmetric])
    also have "\<dots> = x + 2 ^ 63 + 2 ^ 64" by (rule mod_pos_pos_trivial) (use 1 x in auto)
    finally show ?thesis using w x assms(4) by (simp add: x_def [symmetric])
  next
    case 2
    then show ?thesis unfolding int64_of_def by (intro wrap_signed_id) auto
  next
    case 3
    have "(x + 2 ^ 63) mod 2 ^ 64 = (x + 2 ^ 63 - 2 ^ 64) mod 2 ^ 64" by (rule minus_mod_self2 [symmetric])
    also have "\<dots> = x + 2 ^ 63 - 2 ^ 64" by (rule mod_pos_pos_trivial) (use 3 x in auto)
    finally show ?thesis using w x assms(3) by (simp add: x_def [symmetric])
  qed
  then show "int64_of (dpi + e) = dpi + e" "\<bar>e\<bar> \<le> 2000" using assms by (auto simp: x_def)
qed

lemma atoi_digits_range: "0 \<le> atoi_digits s" "atoi_digits s \<le> 2 ^ 63 - 1"
  by (simp_all add: atoi_digits_def)

lemma scan_exp_spec:
  assumes "scan_exp rest dpi = Inr (dpi', [])" "rest = [] \<or> is_exp_char (hd rest)"
    "\<bar>dpi\<bar> \<le> 1000" "- 129 \<le> dpi'" "dpi' \<le> 126"
  shows "dpi' = dpi + int_text_value (drop 1 rest)"
proof (cases rest)
  case Nil
  then show ?thesis using assms(1) by (simp add: scan_exp_def int_text_value_def unsigned_part_def digit_vals_def)
next
  case (Cons c cs)
  define neg where "neg = (cs \<noteq> [] \<and> hd cs = 45)"
  define a where "a = atoi_digits (unsigned_part cs)"
  define e where "e = (if neg then - a else a)"
  have r: "dpi' = int64_of (dpi + e)"
    using assms(1,2) Cons
    by (auto simp: scan_exp_def is_exp_char_def Let_def a_def e_def neg_def unsigned_part_def split: if_splits)
  have ab: "0 \<le> a" "a \<le> 2 ^ 63 - 1" unfolding a_def by (rule atoi_digits_range)+
  then have "\<bar>e\<bar> \<le> 2 ^ 63 - 1" by (simp add: e_def)
  then have n: "int64_of (dpi + e) = dpi + e" "\<bar>e\<bar> \<le> 2000"
    using int64_of_near [OF assms(3), of e] assms(4,5) by (simp_all add: r)
  then have "a \<le> 2000" using ab by (simp add: e_def split: if_splits)
  then have "a = int (dec_val (digit_vals (unsigned_part cs)))"
    by (simp add: a_def atoi_digits_def digit_vals_def min_def split: if_splits)
  then show ?thesis using n(1) Cons by (simp add: r e_def neg_def int_text_value_def)
qed

lemma scan_mantissa_spec:
  assumes "scan_int u [] = Inr (ds1, r1)"
    "(if r1 \<noteq> [] \<and> hd r1 = 46 then scan_frac (tl r1) ds1 (int (length ds1))
      else Inr ((ds1, int (length ds1)), r1)) = Inr ((ds, dpi), r)"
  shows "\<exists>m ip fp. u = m @ r \<and> (\<forall>c \<in> set m. \<not> is_exp_char c) \<and> (r = [] \<or> is_exp_char (hd r)) \<and>
    mantissa_value m = of_nat (dec_val ds) / 10 ^ length fp \<and> dpi - int (length ds) = - int (length fp) \<and>
    ds = dropWhile (\<lambda>d. d = 0) (digit_vals (ip @ fp)) \<and> all_digits (ip @ fp) \<and> length (ip @ fp) \<le> length u"
proof -
  from scan_int_spec [OF assms(1)] obtain ip where ip: "u = ip @ r1" "all_digits ip"
    "ds1 = add_digits [] (digit_vals ip)" "r1 = [] \<or> hd r1 = 46 \<or> is_exp_char (hd r1)" by blast
  show ?thesis
  proof (cases "r1 \<noteq> [] \<and> hd r1 = 46")
    case True
    then have f: "scan_frac (tl r1) ds1 (int (length ds1)) = Inr ((ds, dpi), r)" using assms(2) by simp
    from scan_frac_spec [OF f] obtain fp where fp: "tl r1 = fp @ r" "all_digits fp"
      "ds = add_digits ds1 (digit_vals fp)" "dpi - int (length ds) = int (length ds1) - int (length ds1) - int (length fp)"
      "r = [] \<or> is_exp_char (hd r)" by blast
    have r1: "r1 = 46 # fp @ r" using True fp(1) by (cases r1) auto
    have ds: "ds = dropWhile (\<lambda>d. d = 0) (digit_vals (ip @ fp))"
      by (simp add: fp(3) ip(3) add_digits_append digit_vals_def)
    have ad: "all_digits (ip @ fp)" using ip(2) fp(2) by (auto simp: all_digits_def)
    have nx: "\<forall>c \<in> set (ip @ 46 # fp). \<not> is_exp_char c"
      using digits_not_exp [OF ip(2)] digits_not_exp [OF fp(2)] by (auto simp: is_exp_char_def)
    show ?thesis
      by (intro exI [of _ "ip @ 46 # fp"] exI [of _ ip] exI [of _ fp] conjI ds ad nx fp(5))
        (use ip(1) r1 fp(4) in \<open>simp_all add: mantissa_value_point [OF ip(2)] ds dec_val_dropWhile\<close>)
  next
    case False
    then have e: "ds = ds1" "dpi = int (length ds1)" "r = r1" using assms(2) by auto
    have ds: "ds = dropWhile (\<lambda>d. d = 0) (digit_vals (ip @ []))"
      by (simp add: e ip(3) add_digits_def)
    show ?thesis
      by (intro exI [of _ ip] exI [of _ "[]"] conjI ds)
        (use ip False digits_not_exp [OF ip(2)] in \<open>auto simp: e mantissa_value_int [OF ip(2)] add_digits_def dec_val_dropWhile\<close>)
  qed
qed

lemma emit_number_bounds:
  "emit_number neg ds dpi = Inr w \<Longrightarrow> length ds \<le> 40 \<and> - 129 \<le> dpi \<and> dpi \<le> 126"
  by (auto simp: emit_number_def numberMaxDigits_def split: if_splits)

lemma map_sum_append_Nil [simp]: "map_sum id ((@) []) x = x"
  by (cases x) auto

lemma EncodeNumber_parse:
  assumes "EncodeNumber [] s = Inr w"
  shows "\<exists>ds dpi. emit_number (hd s = 45) ds dpi = Inr w \<and> (ds = [] \<or> canonical ds) \<and>
    text_value s = sign_of s * digits_value ds dpi \<and> s \<noteq> []"
proof -
  have s: "s \<noteq> []" "length s \<le> 172"
    using assms by (auto simp: EncodeNumber_def numberMaxChars_def split: if_splits)
  have u: "(if hd s = 45 \<or> hd s = 43 then tl s else s) = unsigned_part s"
    using s(1) by (simp add: unsigned_part_def)
  obtain ds1 r1 where 1: "scan_int (unsigned_part s) [] = Inr (ds1, r1)"
    using assms by (auto simp: EncodeNumber_def u Let_def split: if_splits sum.splits)
  obtain ds dpi r where 2: "(if r1 \<noteq> [] \<and> hd r1 = 46 then scan_frac (tl r1) ds1 (int (length ds1))
      else Inr ((ds1, int (length ds1)), r1)) = Inr ((ds, dpi), r)"
    using assms s by (auto simp: EncodeNumber_def u Let_def 1 numberMaxChars_def split: sum.splits if_splits)
  obtain dpi' where 3: "scan_exp r dpi = Inr (dpi', [])" and w: "emit_number (hd s = 45) (strip_zeros ds) dpi' = Inr w"
    using assms s by (auto simp: EncodeNumber_def u Let_def 1 2 numberMaxChars_def split: sum.splits if_splits)
  from scan_mantissa_spec [OF 1 2] obtain m ip fp where
    m: "unsigned_part s = m @ r" "\<forall>c \<in> set m. \<not> is_exp_char c" "r = [] \<or> is_exp_char (hd r)"
      "mantissa_value m = of_nat (dec_val ds) / 10 ^ length fp" "dpi - int (length ds) = - int (length fp)"
      "ds = dropWhile (\<lambda>d. d = 0) (digit_vals (ip @ fp))" "all_digits (ip @ fp)"
      "length (ip @ fp) \<le> length (unsigned_part s)" by blast
  have "length (unsigned_part s) \<le> length s" by (simp add: unsigned_part_def)
  moreover have "length ds \<le> length (ip @ fp)" using m(6) length_dropWhile_le [of _ "digit_vals (ip @ fp)"]
    by (simp add: digit_vals_def)
  ultimately have "\<bar>dpi\<bar> \<le> 1000" using m(5,8) s(2) by auto
  then have e: "dpi' = dpi + int_text_value (drop 1 r)"
    using scan_exp_spec [OF 3 m(3)] emit_number_bounds [OF w] by simp
  have "text_value s = sign_of s * digits_value ds dpi'"
    by (simp add: text_value_def m(1) takeWhile_exp [OF m(2,3)] m(4) e digits_value_shift
        digits_value_scaled [OF m(5)])
  moreover have "strip_zeros ds = [] \<or> canonical (strip_zeros ds)"
    using canonical_strip [OF digits_ok_digit_vals [OF m(7)]] m(6) by metis
  ultimately show ?thesis using w s(1) by (metis digits_value_strip)
qed

subsection \<open>The decoder renders the denoted number\<close>

lemma render_digits_plain:
  "dpi \<le> 0 \<or> dpi < i \<or> i + int (length ds) \<le> dpi \<Longrightarrow> render_digits ds i dpi = map (\<lambda>d. 48 + d) ds"
  by (induction ds arbitrary: i) auto

lemma render_digits_point:
  "0 < dpi \<Longrightarrow> i \<le> dpi \<Longrightarrow> dpi < i + int (length ds) \<Longrightarrow>
    render_digits ds i dpi = map (\<lambda>d. 48 + d) (take (nat (dpi - i)) ds) @ 46 # map (\<lambda>d. 48 + d) (drop (nat (dpi - i)) ds)"
proof (induction ds arbitrary: i)
  case (Cons d ds)
  show ?case
  proof (cases "i = dpi")
    case True
    then show ?thesis using Cons.prems render_digits_plain [of dpi "i + 1" ds] by simp
  next
    case False
    then have n: "nat (dpi - i) = Suc (nat (dpi - (i + 1)))" using Cons.prems by simp
    show ?thesis using False Cons.IH [of "i + 1"] Cons.prems by (simp add: n)
  qed
qed simp

lemma digit_vals_render [simp]:
  "digit_vals (map (\<lambda>d. 48 + d) ds) = ds" "digit_vals (xs @ ys) = digit_vals xs @ digit_vals ys"
  "digit_vals (replicate n 48) = replicate n 0" "digit_vals (48 # xs) = 0 # digit_vals xs"
  by (auto simp: digit_vals_def comp_def)

lemma all_digits_append [simp]: "all_digits (xs @ ys) \<longleftrightarrow> all_digits xs \<and> all_digits ys"
  and all_digits_zeros [simp]: "all_digits (replicate n 48)"
  by (auto simp: all_digits_def)

lemma all_digits_render: "digits_ok ds \<Longrightarrow> all_digits (map (\<lambda>d. 48 + d) ds)"
proof (induction ds)
  case (Cons d ds)
  then have "unat d < 10" by (simp add: word_less_nat_alt)
  then have "unat (48 + d) = 48 + unat d" by (simp add: unat_word_ariths)
  then show ?case using Cons \<open>unat d < 10\<close> by (simp add: word_le_nat_alt)
qed simp

lemma dec_val_zeros_left: "dec_val (replicate k 0 @ ds) = dec_val ds"
  by (simp add: dec_val_append dec_val_zeros)

lemma digits_ok_take_drop: "digits_ok ds \<Longrightarrow> digits_ok (take n ds)" "digits_ok ds \<Longrightarrow> digits_ok (drop n ds)"
  by (auto simp: digits_ok_def dest: in_set_takeD in_set_dropD)

lemma text_value_plain:
  assumes "\<forall>c \<in> set m. \<not> is_exp_char c" "m \<noteq> []" "hd m \<noteq> 45" "hd m \<noteq> 43"
  shows "text_value m = mantissa_value m" "text_value (45 # m) = - mantissa_value m"
proof -
  have tw: "takeWhile (\<lambda>c. \<not> is_exp_char c) m = m" "dropWhile (\<lambda>c. \<not> is_exp_char c) m = []"
    using takeWhile_exp [OF assms(1), of "[]"] by (simp_all only: append_Nil2 simp_thms)
  show "text_value m = mantissa_value m" "text_value (45 # m) = - mantissa_value m"
    using assms(2-4) by (simp_all add: tw text_value_def unsigned_part_def sign_of_def int_text_value_def digit_vals_def)
qed

lemma hd_all_digits: "all_digits m \<Longrightarrow> m \<noteq> [] \<Longrightarrow> hd m \<noteq> 45 \<and> hd m \<noteq> 43"
  by (cases m) auto

lemma render_number_value:
  assumes "canonical ds"
  shows "text_value (Text (render_number pos ds dpi)) = (if pos then 1 else - 1) * digits_value ds dpi"
proof -
  have ok: "digits_ok ds" "ds \<noteq> []" using assms by (simp_all add: canonical_def)
  note ad = all_digits_render [OF ok(1)]
  define body where "body = (if dpi \<le> 0 then [48, 46] @ replicate (nat (- dpi)) 48 else []) @
    render_digits ds 0 dpi @ (if dpi > int (length ds) then replicate (nat (dpi - int (length ds))) 48 else [])"
  have "mantissa_value body = digits_value ds dpi \<and> (\<forall>c \<in> set body. \<not> is_exp_char c) \<and> body \<noteq> [] \<and>
    hd body \<noteq> 45 \<and> hd body \<noteq> 43"
  proof -
    consider "dpi \<le> 0" | "0 < dpi" "dpi < int (length ds)" | "int (length ds) \<le> dpi" "0 < dpi" by linarith
    then show ?thesis
    proof cases
      case 1
      define fp where "fp = replicate (nat (- dpi)) 48 @ map (\<lambda>d. 48 + d) ds"
      have b: "body = [48] @ 46 # fp" using 1 by (simp add: body_def fp_def render_digits_plain)
      have a: "all_digits [48]" "all_digits fp" using ad by (simp_all add: fp_def)
      have l: "dpi - int (length ds) = - int (length fp)" using 1 by (simp add: fp_def)
      have "mantissa_value body = digits_value ds dpi"
        by (simp only: b mantissa_value_point [OF a(1)] digits_value_scaled [OF l])
          (use dec_val_zeros_left [of "Suc (nat (- dpi))" ds] in \<open>simp add: fp_def\<close>)
      moreover have "\<forall>c \<in> set body. \<not> is_exp_char c"
        using digits_not_exp [OF a(2)] by (auto simp: b is_exp_char_def)
      ultimately show ?thesis by (simp add: b)
    next
      case 2
      define n where "n = nat dpi"
      define ip where "ip = map (\<lambda>d. 48 + d) (take n ds)"
      define fp where "fp = map (\<lambda>d. 48 + d) (drop n ds)"
      have b: "body = ip @ 46 # fp" using 2 render_digits_point [of dpi 0 ds]
        by (simp add: body_def fp_def ip_def n_def)
      have a: "all_digits ip" "all_digits fp"
        using all_digits_render [OF digits_ok_take_drop(1) [OF ok(1)]] all_digits_render [OF digits_ok_take_drop(2) [OF ok(1)]]
        by (simp_all add: ip_def fp_def)
      have l: "dpi - int (length ds) = - int (length fp)" using 2 by (simp add: fp_def n_def)
      have "mantissa_value body = digits_value ds dpi"
        by (simp only: b mantissa_value_point [OF a(1)] digits_value_scaled [OF l]) (simp add: fp_def ip_def)
      moreover have "\<forall>c \<in> set body. \<not> is_exp_char c"
        using digits_not_exp [OF a(2)] digits_not_exp [OF a(1)] by (auto simp: b is_exp_char_def)
      moreover have "ip \<noteq> []" using 2 ok(2) by (simp add: ip_def n_def)
      ultimately show ?thesis using hd_all_digits [OF a(1)] by (simp add: b)
    next
      case 3
      have b: "body = map (\<lambda>d. 48 + d) ds @ replicate (nat (dpi - int (length ds))) 48"
        using 3 by (auto simp: body_def render_digits_plain)
      then have a: "all_digits body" using ad by simp
      have "digits_value ds dpi = of_nat (dec_val ds) * 10 ^ nat (dpi - int (length ds))"
        using 3 by (simp add: digits_value_def power_int_def)
      then have "mantissa_value body = digits_value ds dpi"
        by (simp only: mantissa_value_int [OF a]) (simp add: b dec_val_append dec_val_zeros)
      moreover have "body \<noteq> []" using ok(2) by (simp add: b)
      ultimately show ?thesis using digits_not_exp [OF a] hd_all_digits [OF a] by blast
    qed
  qed
  then show ?thesis using text_value_plain [of body] by (simp add: render_number_def body_def [symmetric])
qed

subsection \<open>Round trips\<close>

lemma emit_number_Nil:
  "emit_number neg [] dpi = Inr w \<Longrightarrow> w = [128]"
  by (auto simp: emit_number_def Let_def split: if_splits)

lemma DecodeNumber_zero:
  "DecodeNumber [128] = Inr \<lparr>Text = [48], IsInteger = True, IsMaxNegativeValue = False\<rparr>"
  by code_simp

lemma sign_of_hd: "s \<noteq> [] \<Longrightarrow> sign_of s = (if \<not> hd s = 45 then 1 else - 1)"
  by (simp add: sign_of_def)

text \<open>The wire form of canonical digits needs 22 bytes only for 40 digits with an odd point.\<close>

lemma emit_number_length:
  assumes "canonical ds" "emit_number neg ds dpi = Inr w"
  shows "length w \<le> 22" "length w = 22 \<longleftrightarrow> length ds + (if odd dpi then 1 else 0) > 40"
proof -
  have b: "length ds \<le> 40" "- 129 \<le> dpi" "dpi \<le> 126" using emit_number_bounds [OF assms(2)] by auto
  have ne: "ds \<noteq> []" using assms(1) by (simp add: canonical_def)
  have w: "length w = 1 + length (number_vals ds dpi) + (if neg \<and> pad_len (length ds) dpi < 40 then 1 else 0)"
    using emit_number_canonical [OF assms(1) b] assms(2) by auto
  have l: "2 * length (number_vals ds dpi) = pad_len (length ds) dpi" by (rule length_number_vals [OF ne])
  show "length w \<le> 22" "length w = 22 \<longleftrightarrow> length ds + (if odd dpi then 1 else 0) > 40"
    using w l b(1) by (auto simp: pad_len_def split: if_splits)
qed

text \<open>Every accepted text either survives the round trip or is the 22-byte form the decoder refuses.\<close>

lemma number_decode_cases:
  assumes "EncodeNumber [] s = Inr w"
  shows "(length w \<le> 21 \<and> (\<exists>d. DecodeNumber w = Inr d \<and> text_value (Text d) = text_value s \<and> \<not> IsMaxNegativeValue d)) \<or>
    (length w = 22 \<and> DecodeNumber w = Inl NumTooLarge)"
proof -
  from EncodeNumber_parse [OF assms] obtain ds dpi where
    e: "emit_number (hd s = 45) ds dpi = Inr w" and c: "ds = [] \<or> canonical ds"
    and v: "text_value s = sign_of s * digits_value ds dpi" and ne: "s \<noteq> []" by blast
  show ?thesis
  proof (cases "ds = []")
    case True
    have "text_value [48] = 0" by code_simp
    moreover have "w = [128]" using e True emit_number_Nil by blast
    ultimately show ?thesis using v True
      by (simp add: DecodeNumber_zero digits_value_def)
  next
    case False
    then have c: "canonical ds" using c by simp
    note b = emit_number_bounds [OF e]
    show ?thesis
    proof (cases "length ds + (if odd dpi then 1 else 0) \<le> 40")
      case True
      obtain w' where "emit_number (hd s = 45) ds dpi = Inr w'" "length w' \<le> 21"
        "DecodeNumber w' = Inr (render_number (\<not> hd s = 45) ds dpi)"
        by (rule decode_emit_number [OF c True, of "hd s = 45"]) (use b in auto)
      then show ?thesis using e render_number_value [OF c, of "\<not> hd s = 45" dpi] v
        by (simp add: sign_of_hd [OF ne] render_number_def)
    next
      case False
      then have "length w = 22" using emit_number_length [OF c e] by simp
      then show ?thesis by (simp add: DecodeNumber_def)
    qed
  qed
qed

text \<open>
  Property C1. Encoding a decimal text as an Oracle NUMBER and decoding the wire bytes gives back
  the same rational number, sign, fraction and exponent included, whenever the wire form has the at
  most 21 bytes that the decoder accepts.
\<close>

theorem number_roundtrip:
  assumes "EncodeNumber [] s = Inr w" "length w \<le> 21"
  shows "\<exists>d. DecodeNumber w = Inr d \<and> text_value (Text d) = text_value s \<and> \<not> IsMaxNegativeValue d"
  using number_decode_cases [OF assms(1)] assms(2) by auto

theorem number_roundtrip_witness:
  "\<exists>d. DecodeNumber [60, 89, 67, 91, 102] = Inr d \<and> text_value (Text d) = text_value (asc ''-1234.1e2'') \<and>
     \<not> IsMaxNegativeValue d"
  by (rule number_roundtrip) (code_simp, simp)

text \<open>
  Property C36. The encoder never writes more than 22 bytes, and the decoder refuses what it wrote
  exactly when it wrote 22: a number of 40 significant digits whose decimal point is odd is
  accepted for sending although the driver cannot read it back.
\<close>

theorem EncodeNumber_22_bytes_rejected:
  assumes "EncodeNumber [] s = Inr w"
  shows "length w \<le> 22 \<and> (length w = 22 \<longleftrightarrow> DecodeNumber w = Inl NumTooLarge)"
  using number_decode_cases [OF assms] by auto

theorem EncodeNumber_22_bytes_rejected_witness:
  "length (193 # 2 # replicate 19 12 @ [11::u8]) \<le> 22 \<and>
    (length (193 # 2 # replicate 19 12 @ [11::u8]) = 22 \<longleftrightarrow>
      DecodeNumber (193 # 2 # replicate 19 12 @ [11]) = Inl NumTooLarge)"
  by (rule EncodeNumber_22_bytes_rejected [of "asc (''1.'' @ replicate 39 (CHR ''1''))"]) code_simp

text \<open>Malformed wire bytes: a byte below 1 or above 100 makes digits above 9, and enough of them
  overrun the decoder's array of 42 digits.\<close>

lemma DecodeNumber_malformed_panics:
  "DecodeNumber (193 # replicate 20 105) = Inl NumPanic"
  by code_simp

lemma EncodeNumber_no_digits_accepted:
  "EncodeNumber [] (asc ''-'') = Inr [128]" "EncodeNumber [] (asc ''e5'') = Inr [128]"
  "EncodeNumber [] (asc ''.'') = Inr [128]" "EncodeNumber [] (asc ''0e200'') = Inl NumNoRepresentation"
  by code_simp+

subsection \<open>Integers\<close>

lemma asc_digit: "n < 10 \<Longrightarrow> asc [char_of (48 + n :: nat)] = [48 + word_of_nat n]"
  by (simp add: of_char_of)

lemma dec_nat_digits:
  "all_digits (asc (dec_nat n)) \<and> dec_val (digit_vals (asc (dec_nat n))) = n \<and> dec_nat n \<noteq> []"
proof (induction n rule: dec_nat.induct)
  case (1 n)
  have d: "48 \<le> (48 + word_of_nat m :: u8)" "48 + word_of_nat m \<le> (57::u8)" "unat (word_of_nat m :: u8) = m"
    if "m < 10" for m :: nat
  proof -
    have u: "unat (word_of_nat m :: u8) = m" using that by (simp add: unat_of_nat)
    then have "unat (48 + word_of_nat m :: u8) = 48 + m" using that by (simp add: unat_word_ariths)
    then show "48 \<le> (48 + word_of_nat m :: u8)" "48 + word_of_nat m \<le> (57::u8)" "unat (word_of_nat m :: u8) = m"
      using that u by (simp_all add: word_le_nat_alt)
  qed
  show ?case
  proof (cases "n < 10")
    case True
    then have "dec_nat n = [char_of (48 + n)]" by (subst dec_nat.simps) simp
    then show ?thesis using asc_digit [OF True] d [OF True]
      by (simp add: digit_vals_def dec_val_def del: asc_simps)
  next
    case False
    then have s: "dec_nat n = dec_nat (n div 10) @ [char_of (48 + n mod 10)]" by (subst dec_nat.simps) simp
    have m: "n mod 10 < 10" by simp
    show ?thesis using 1 [OF False] asc_digit [OF m] d [OF m]
      by (simp add: s asc_append digit_vals_def del: asc_simps of_nat_mod)
  qed
qed

lemma length_dec_nat: "n < 10 ^ k \<Longrightarrow> 0 < k \<Longrightarrow> length (dec_nat n) \<le> k"
proof (induction k arbitrary: n)
  case (Suc k)
  show ?case
  proof (cases "n < 10")
    case True
    then show ?thesis by (subst dec_nat.simps) simp
  next
    case False
    then have k: "0 < k" using Suc.prems by (cases k) auto
    have "n div 10 < 10 ^ k" using Suc.prems(1) by (simp add: less_mult_imp_div_less)
    then show ?thesis using Suc.IH [OF _ k] False by (subst dec_nat.simps) simp
  qed
qed simp

lemma scan_int_digits: "all_digits cs \<Longrightarrow> scan_int cs ds = Inr (add_digits ds (digit_vals cs), [])"
proof (induction cs arbitrary: ds)
  case (Cons c cs)
  then have "c \<noteq> 46" "c \<noteq> 101" "c \<noteq> 69" "\<not> c < 48" "\<not> 57 < c"
    by (auto simp: not_less)
  then show ?case using Cons by (simp add: digit_vals_def add_digits_step)
qed (simp add: add_digits_def digit_vals_def)

lemma emit_number_accepts:
  "length ds \<le> 40 \<Longrightarrow> - 129 \<le> dpi \<Longrightarrow> dpi \<le> 126 \<Longrightarrow> \<exists>w. emit_number neg ds dpi = Inr w"
  by (simp add: emit_number_def numberMaxDigits_def Let_def)

lemma EncodeNumber_digits:
  assumes "all_digits cs" "cs \<noteq> []" "length cs \<le> 19" "s = cs \<or> s = 45 # cs"
  shows "\<exists>w. EncodeNumber [] s = Inr w \<and> length w \<le> 21"
proof -
  define ds where "ds = dropWhile (\<lambda>d. d = 0) (digit_vals cs)"
  have u: "(if hd s = 45 \<or> hd s = 43 then tl s else s) = cs"
    using hd_all_digits [OF assms(1,2)] assms(4) by auto
  have l: "length s \<noteq> 0" "\<not> length s > 172" using assms by auto
  have dl: "length ds \<le> 19" using length_dropWhile_le [of "\<lambda>d. d = 0" "digit_vals cs"] assms(3)
    by (simp add: ds_def digit_vals_def)
  obtain k where k: "ds = strip_zeros ds @ replicate k 0" using strip_zeros_split by blast
  have sl: "length (strip_zeros ds) \<le> 19"
    using dl arg_cong [OF k, of length] by (simp only: length_append)
  obtain w where w: "emit_number (hd s = 45) (strip_zeros ds) (int (length ds)) = Inr w"
    using emit_number_accepts [of "strip_zeros ds" "int (length ds)" "hd s = 45"] dl sl by auto
  have e: "EncodeNumber [] s = Inr w"
    using l w scan_int_digits [OF assms(1), of "[]"]
    by (auto simp: EncodeNumber_def numberMaxChars_def u Let_def scan_exp_def add_digits_def ds_def)
  have "length w \<le> 21"
  proof (cases "strip_zeros ds = []")
    case True
    then show ?thesis using emit_number_Nil [of "hd s = 45" "int (length ds)" w] w by simp
  next
    case False
    then have c: "canonical (strip_zeros ds)" unfolding ds_def
      by (rule canonical_strip [OF digits_ok_digit_vals [OF assms(1)]])
    show ?thesis using emit_number_length [OF c w] sl by (auto split: if_splits)
  qed
  with e show ?thesis by blast
qed

text \<open>
  Property C30. Every Go \<open>int64\<close>, the smallest included, has a NUMBER wire form of at most 21 bytes
  which the decoder reads back as exactly that integer.
\<close>

theorem EncodeInt64_exact:
  assumes "- (2 ^ 63) \<le> v" "v < 2 ^ 63"
  shows "\<exists>w d. EncodeInt64 [] v = Inr w \<and> DecodeNumber w = Inr d \<and> text_value (Text d) = of_int v \<and>
    \<not> IsMaxNegativeValue d"
proof -
  define cs where "cs = asc (dec_nat (nat \<bar>v\<bar>))"
  note d = dec_nat_digits [of "nat \<bar>v\<bar>"]
  have cs: "all_digits cs" "cs \<noteq> []" "dec_val (digit_vals cs) = nat \<bar>v\<bar>"
    using d by (auto simp: cs_def asc_def)
  have "nat \<bar>v\<bar> < 10 ^ 19" using assms by auto
  then have l: "length cs \<le> 19" using length_dec_nat [of "nat \<bar>v\<bar>" 19] by (simp add: cs_def asc_def)
  have s: "asc (dec_int v) = (if v < 0 then 45 # cs else cs)"
    by (simp add: dec_int_def cs_def)
  obtain w where w: "EncodeNumber [] (asc (dec_int v)) = Inr w" "length w \<le> 21"
    using EncodeNumber_digits [OF cs(1,2) l, of "asc (dec_int v)"] s by (auto split: if_splits)
  have "text_value (asc (dec_int v)) = of_int v"
    using text_value_plain [of cs] digits_not_exp [OF cs(1)] hd_all_digits [OF cs(1,2)] cs(2)
      mantissa_value_int [OF cs(1)] by (auto simp: s cs(3))
  then show ?thesis using number_decode_cases [OF w(1)] w by (auto simp: EncodeInt64_def)
qed

theorem EncodeInt64_exact_witness:
  "\<exists>w d. EncodeInt64 [] (- 9223372036854775808) = Inr w \<and> DecodeNumber w = Inr d \<and>
     text_value (Text d) = of_int (- 9223372036854775808) \<and> \<not> IsMaxNegativeValue d"
  by (rule EncodeInt64_exact) simp_all

end
