(* ===== verification/Utf8.thy ===== *)
theory Utf8
  imports Prelude
begin

text \<open>
  The part of Go's \<^verbatim>\<open>unicode/utf8\<close> package the driver uses: \<open>utf8.DecodeRune\<close>, which returns the
  code point at the head of a byte string and its size, and \<open>(RuneError, 1)\<close> for an invalid
  sequence. The accepted second bytes depend on the first one, as in the package's tables.
\<close>

definition RuneSelf :: u8 where "RuneSelf = 0x80"
definition RuneError :: u32 where "RuneError = 0xFFFD"

text \<open>Size of the sequence a first byte announces and the range of the second byte; size 0 is invalid.\<close>

definition utf8_first :: "u8 \<Rightarrow> nat \<times> u8 \<times> u8" where
  "utf8_first b =
     (if b < 0xC2 then (0, 0, 0)
      else if b < 0xE0 then (2, 0x80, 0xBF)
      else if b = 0xE0 then (3, 0xA0, 0xBF)
      else if b = 0xED then (3, 0x80, 0x9F)
      else if b < 0xF0 then (3, 0x80, 0xBF)
      else if b = 0xF0 then (4, 0x90, 0xBF)
      else if b < 0xF4 then (4, 0x80, 0xBF)
      else if b = 0xF4 then (4, 0x80, 0x8F)
      else (0, 0, 0))"

definition cont_byte :: "u8 \<Rightarrow> bool" where
  "cont_byte b \<longleftrightarrow> 0x80 \<le> b \<and> b \<le> 0xBF"

definition DecodeRune :: "bytes \<Rightarrow> u32 \<times> nat" where
  "DecodeRune p =
     (case p of [] \<Rightarrow> (RuneError, 0)
      | b0 # _ \<Rightarrow>
        if b0 < RuneSelf then (ucast b0, 1)
        else let (sz, lo, hi) = utf8_first b0 in
          if sz = 0 \<or> length p < sz then (RuneError, 1)
          else if p ! 1 < lo \<or> hi < p ! 1 then (RuneError, 1)
          else if sz = 2 then (push_bit 6 (ucast (b0 AND 0x1F)) OR ucast (p ! 1 AND 0x3F), 2)
          else if \<not> cont_byte (p ! 2) then (RuneError, 1)
          else if sz = 3 then
            (push_bit 12 (ucast (b0 AND 0x0F)) OR push_bit 6 (ucast (p ! 1 AND 0x3F)) OR ucast (p ! 2 AND 0x3F), 3)
          else if \<not> cont_byte (p ! 3) then (RuneError, 1)
          else (push_bit 18 (ucast (b0 AND 0x07)) OR push_bit 12 (ucast (p ! 1 AND 0x3F)) OR
                push_bit 6 (ucast (p ! 2 AND 0x3F)) OR ucast (p ! 3 AND 0x3F), 4))"

lemma utf8_first_range: "utf8_first b = (sz, lo, hi) \<Longrightarrow> sz \<noteq> 0 \<Longrightarrow> 0x80 \<le> lo \<and> (sz = 2 \<or> sz = 3 \<or> sz = 4)"
  by (auto simp: utf8_first_def split: if_splits)

text \<open>The size is between one and the bytes left.\<close>

lemma DecodeRune_size: "p \<noteq> [] \<Longrightarrow> 1 \<le> snd (DecodeRune p) \<and> snd (DecodeRune p) \<le> length p"
  by (cases p) (auto simp: DecodeRune_def Let_def utf8_first_def Suc_le_eq)

text \<open>A sequence that starts with a byte from \<open>RuneSelf\<close> on holds no ASCII byte.\<close>

lemma DecodeRune_no_ascii:
  assumes "RuneSelf \<le> b0" "b \<in> set (take (snd (DecodeRune (b0 # p))) (b0 # p))"
  shows "RuneSelf \<le> b"
proof -
  obtain sz lo hi where f: "utf8_first b0 = (sz, lo, hi)" by (cases "utf8_first b0") auto
  have b0: "\<not> b0 < RuneSelf" using assms(1) by simp
  show ?thesis
  proof (cases "sz = 0")
    case True
    then show ?thesis using assms b0 by (simp add: DecodeRune_def f)
  next
    case False
    note r = utf8_first_range [OF f False]
    then have lo: "lo \<le> x \<Longrightarrow> RuneSelf \<le> x" for x :: u8
      unfolding RuneSelf_def by (metis order_trans)
    from assms b0 r False show ?thesis
      by (cases p; cases "tl p"; cases "tl (tl p)")
        (auto simp: DecodeRune_def f Let_def cont_byte_def not_less RuneSelf_def [symmetric]
          split: if_splits dest: lo)
  qed
qed

subsection \<open>Encoding runes, and UTF-16\<close>

text \<open>\<open>string(rune)\<close>: surrogates and values above 0x10FFFF become \<open>RuneError\<close>.\<close>

definition EncodeRune :: "u32 \<Rightarrow> bytes" where
  "EncodeRune r0 =
     (let r = (if r0 > 0x10FFFF \<or> (0xD800 \<le> r0 \<and> r0 < 0xE000) then RuneError else r0) in
      if r < 0x80 then [ucast r]
      else if r < 0x800 then [0xC0 OR ucast (drop_bit 6 r), 0x80 OR (ucast r AND 0x3F)]
      else if r < 0x10000 then
        [0xE0 OR ucast (drop_bit 12 r), 0x80 OR (ucast (drop_bit 6 r) AND 0x3F), 0x80 OR (ucast r AND 0x3F)]
      else [0xF0 OR ucast (drop_bit 18 r), 0x80 OR (ucast (drop_bit 12 r) AND 0x3F),
            0x80 OR (ucast (drop_bit 6 r) AND 0x3F), 0x80 OR (ucast r AND 0x3F)])"

text \<open>\<open>utf16.Decode\<close>: a surrogate pair is one rune, a lone surrogate is \<open>RuneError\<close>.\<close>

fun utf16_decode :: "u16 list \<Rightarrow> u32 list" where
  "utf16_decode [] = []"
| "utf16_decode [a] = [if 0xD800 \<le> a \<and> a < 0xE000 then RuneError else ucast a]"
| "utf16_decode (a # b # cs) =
     (if a < 0xD800 \<or> 0xE000 \<le> a then ucast a # utf16_decode (b # cs)
      else if a < 0xDC00 \<and> 0xDC00 \<le> b \<and> b < 0xE000 then
        ((push_bit 10 (ucast a - 0xD800) OR (ucast b - 0xDC00)) + 0x10000) # utf16_decode cs
      else RuneError # utf16_decode (b # cs))"

end
