(* ===== verification/Oson.thy ===== *)
theory Oson
  imports Number Date Interval Floats Utf8
begin

text \<open>
  \<^verbatim>\<open>internal/oratype/oson.go\<close>: the decoder of OSON, Oracle's binary JSON, into JSON text. The
  record \<open>oson_decoder\<close> has the fields of the struct (its scratch buffer, which is never observed,
  left out); the methods return an error or their value with the new state. A slice expression or
  an index that is out of range is the error \<open>OsonPanic\<close>, so that its absence is a theorem. The
  recursion of \<open>decodeNode\<close> follows offsets of the document and need not end: it takes fuel, and
  \<open>OsonFuel\<close> is the outcome of running out of it. \<open>strconv.AppendFloat\<close> with the shortest
  precision is the parameter \<open>ff\<close>, a function of the width and the bits.
\<close>

datatype oson_error = ErrOSON | OsonVersion u8 | OsonVector | OsonExtended u8 | OsonNodeType u8
  | OsonNumber number_error | OsonDate date_error | OsonFloat | OsonInterval | OsonPanic | OsonFuel

record oson_decoder =
  data :: bytes
  pos :: int
  fieldNames :: "bytes list"
  fieldIDLength :: int
  treeSegPos :: int
  relativeOffsets :: bool
  out :: bytes

definition map_error :: "('e \<Rightarrow> 'f) \<Rightarrow> 'e + 'a \<Rightarrow> 'f + 'a" where
  "map_error f r = map_sum f id r"

text \<open>\<open>xs[a:b]\<close> and \<open>xs[i]\<close>.\<close>

definition go_slice :: "bytes \<Rightarrow> int \<Rightarrow> int \<Rightarrow> oson_error + bytes" where
  "go_slice xs a b =
     (if 0 \<le> a \<and> a \<le> b \<and> b \<le> int (length xs) then Inr (take (nat (b - a)) (drop (nat a) xs))
      else Inl OsonPanic)"

definition go_index :: "bytes \<Rightarrow> int \<Rightarrow> oson_error + u8" where
  "go_index xs i = (if 0 \<le> i \<and> i < int (length xs) then Inr (xs ! nat i) else Inl OsonPanic)"

definition need :: "int \<Rightarrow> oson_decoder \<Rightarrow> oson_error + oson_decoder" where
  "need n d = (if pos d + n > int (length (data d)) \<or> n < 0 then Inl ErrOSON else Inr d)"

definition adv :: "int \<Rightarrow> oson_decoder \<Rightarrow> oson_decoder" where
  "adv n d = d\<lparr>pos := pos d + n\<rparr>"

definition put :: "bytes \<Rightarrow> oson_decoder \<Rightarrow> oson_decoder" where
  "put bs d = d\<lparr>out := out d @ bs\<rparr>"

definition raw :: "int \<Rightarrow> oson_decoder \<Rightarrow> oson_error + bytes \<times> oson_decoder" where
  "raw n d =
     andThen (need n d) (\<lambda>d. andThen (go_slice (data d) (pos d) (pos d + n)) (\<lambda>v. Inr (v, adv n d)))"

definition get_u8 :: "oson_decoder \<Rightarrow> oson_error + u8 \<times> oson_decoder" where
  "get_u8 d = andThen (need 1 d) (\<lambda>d. andThen (go_index (data d) (pos d)) (\<lambda>v. Inr (v, adv 1 d)))"

definition get_u16 :: "oson_decoder \<Rightarrow> oson_error + u16 \<times> oson_decoder" where
  "get_u16 d =
     andThen (need 2 d) (\<lambda>d. andThen (go_slice (data d) (pos d) (pos d + 2)) (\<lambda>v. Inr (of_be v, adv 2 d)))"

definition get_u32 :: "oson_decoder \<Rightarrow> oson_error + u32 \<times> oson_decoder" where
  "get_u32 d =
     andThen (need 4 d) (\<lambda>d. andThen (go_slice (data d) (pos d) (pos d + 4)) (\<lambda>v. Inr (of_be v, adv 4 d)))"

text \<open>The three widths a count or an identifier is read with.\<close>

definition get_uint :: "int \<Rightarrow> oson_decoder \<Rightarrow> oson_error + u32 \<times> oson_decoder" where
  "get_uint w d =
     (if w = 1 then andThen (get_u8 d) (\<lambda>(v, d). Inr (ucast v, d))
      else if w = 2 then andThen (get_u16 d) (\<lambda>(v, d). Inr (ucast v, d))
      else get_u32 d)"

subsection \<open>JSON string literals\<close>

definition hexDigits :: bytes where
  "hexDigits = asc ''0123456789abcdef''"

text \<open>
  The loop of \<open>appendStringBytes\<close>: \<open>pend\<close> is \<open>s[start:i]\<close>, the part not copied yet, and the list
  after it is \<open>s[i:]\<close>.
\<close>

function escape_loop :: "bytes \<Rightarrow> bytes \<Rightarrow> bytes" where
  "escape_loop pend [] = pend"
| "escape_loop pend (c # cs) =
     (if c < RuneSelf then
        (if c \<ge> 0x20 \<and> c \<noteq> 34 \<and> c \<noteq> 92 then escape_loop (pend @ [c]) cs
         else pend @
           (if c = 34 \<or> c = 92 then [92, c]
            else if c = 10 then [92, 110]
            else if c = 13 then [92, 114]
            else if c = 9 then [92, 116]
            else [92, 117, 48, 48, hexDigits ! unat (drop_bit 4 c), hexDigits ! unat (c AND 0xf)]) @
           escape_loop [] cs)
      else let size = snd (DecodeRune (c # cs)) in
        escape_loop (pend @ take size (c # cs)) (drop size (c # cs)))"
  by pat_completeness auto

termination
proof (relation "measure (\<lambda>(_, s). length s)")
  fix pend cs and c :: u8 and size
  assume "size = snd (DecodeRune (c # cs))"
  then show "((pend @ take size (c # cs), drop size (c # cs)), pend, c # cs) \<in> measure (\<lambda>(_, s). length s)"
    using DecodeRune_size [of "c # cs"] by simp
qed simp_all

definition appendStringBytes :: "bytes \<Rightarrow> oson_decoder \<Rightarrow> oson_decoder" where
  "appendStringBytes s d = put ([34] @ escape_loop [] s @ [34]) d"

subsection \<open>Scalars\<close>

definition appendHex :: "bytes \<Rightarrow> oson_decoder \<Rightarrow> oson_decoder" where
  "appendHex b d =
     put ([34] @ concat (map (\<lambda>c. [hexDigits ! unat (drop_bit 4 c), hexDigits ! unat (c AND 0xf)]) b) @ [34]) d"

definition appendNumber :: "bytes \<Rightarrow> oson_decoder \<Rightarrow> oson_error + oson_decoder" where
  "appendNumber b d =
     andThen (map_error OsonNumber (DecodeNumber b)) (\<lambda>n.
       if IsMaxNegativeValue n then Inr (put (asc ''-1e126'') d) else Inr (put (Text n) d))"

text \<open>\<open>%0wd\<close>: zero padding to width \<open>w\<close>, after the sign and counting it.\<close>

definition pad_zeros :: "nat \<Rightarrow> string \<Rightarrow> string" where
  "pad_zeros w s = replicate (w - length s) (CHR ''0'') @ s"

definition fmt_0d :: "nat \<Rightarrow> int \<Rightarrow> string" where
  "fmt_0d w v = (if v < 0 then CHR ''-'' # pad_zeros (w - 1) (dec_nat (nat (- v))) else pad_zeros w (dec_nat (nat v)))"

text \<open>The two layouts \<open>2006-01-02T15:04:05\<close> and the same with \<open>.000000\<close>.\<close>

definition format_seconds :: "gotime \<Rightarrow> string" where
  "format_seconds t =
     (if time_Year t < 0 then CHR ''-'' # fmt_0d 4 (- time_Year t) else fmt_0d 4 (time_Year t)) @ ''-'' @
     fmt_0d 2 (time_Month t) @ ''-'' @ fmt_0d 2 (time_Day t) @ ''T'' @
     fmt_0d 2 (time_Hour t) @ '':'' @ fmt_0d 2 (time_Minute t) @ '':'' @ fmt_0d 2 (time_Second t)"

definition format_micros :: "gotime \<Rightarrow> string" where
  "format_micros t = format_seconds t @ ''.'' @ fmt_0d 6 (gt_nsec t div 1000)"

definition appendDate :: "bytes \<Rightarrow> oson_decoder \<Rightarrow> oson_error + oson_decoder" where
  "appendDate b d =
     andThen (map_error OsonDate (DecodeDate b)) (\<lambda>dt.
       let t = time_UTC (time_Unix 0 (UnixNanos dt)) in
       Inr (put ([34] @
         (if length b = 7 then asc (format_seconds t)
          else asc (format_micros t) @ (if length b \<ge> 13 then [90] else [])) @ [34]) d))"

text \<open>NaN and the infinities, whose exponent bits are all ones, are written as null.\<close>

datatype float_bits = Float32 u32 | Float64 u64

fun not_finite :: "float_bits \<Rightarrow> bool" where
  "not_finite (Float32 b) = (b AND 0x7f800000 = 0x7f800000)"
| "not_finite (Float64 b) = (b AND 0x7ff0000000000000 = 0x7ff0000000000000)"

definition appendFloat :: "(float_bits \<Rightarrow> bytes) \<Rightarrow> float_bits \<Rightarrow> oson_decoder \<Rightarrow> oson_decoder" where
  "appendFloat ff f d = put (if not_finite f then asc ''null'' else ff f) d"

definition appendIntervalDS :: "intervalDS \<Rightarrow> oson_decoder \<Rightarrow> oson_decoder" where
  "appendIntervalDS v d =
     put ([34] @ asc (''P'' @ dec_int (Days v) @ ''DT'' @ dec_int (Hours v) @ ''H'' @ dec_int (Minutes v) @
            ''M'' @ dec_int (Seconds v) @ ''.'' @ fmt_0d 9 (Nanos v) @ ''S'') @ [34]) d"

definition appendIntervalYM :: "intervalYM \<Rightarrow> oson_decoder \<Rightarrow> oson_decoder" where
  "appendIntervalYM v d =
     put ([34] @ asc (''P'' @ dec_int (Years v) @ ''Y'' @ dec_int (Months v) @ ''M'') @ [34]) d"

definition raw_then :: "int \<Rightarrow> (bytes \<Rightarrow> oson_decoder \<Rightarrow> oson_error + oson_decoder) \<Rightarrow>
    oson_decoder \<Rightarrow> oson_error + oson_decoder" where
  "raw_then n f d = andThen (raw n d) (\<lambda>(b, d). f b d)"

text \<open>A length of the given width, then that many bytes.\<close>

definition sized_then :: "int \<Rightarrow> (bytes \<Rightarrow> oson_decoder \<Rightarrow> oson_error + oson_decoder) \<Rightarrow>
    oson_decoder \<Rightarrow> oson_error + oson_decoder" where
  "sized_then w f d = andThen (get_uint w d) (\<lambda>(n, d). raw_then (uint n) f d)"

text \<open>The body of \<open>decodeNode\<close> for the node types that are not containers.\<close>

definition decodeLeaf :: "(float_bits \<Rightarrow> bytes) \<Rightarrow> u8 \<Rightarrow> oson_decoder \<Rightarrow> oson_error + oson_decoder" where
  "decodeLeaf ff nodeType d =
     (if nodeType = 0x30 then Inr (put (asc ''null'') d)
      else if nodeType = 0x31 then Inr (put (asc ''true'') d)
      else if nodeType = 0x32 then Inr (put (asc ''false'') d)
      else if nodeType = 0x3c \<or> nodeType = 0x7d then raw_then 7 appendDate d
      else if nodeType = 0x39 then raw_then 11 appendDate d
      else if nodeType = 0x7c then raw_then 13 appendDate d
      else if nodeType = 0x7f then
        raw_then 4 (\<lambda>b d. andThen (map_error (\<lambda>_. OsonFloat) (DecodeBinaryFloat b)) (\<lambda>f. Inr (appendFloat ff (Float32 f) d))) d
      else if nodeType = 0x36 then
        raw_then 8 (\<lambda>b d. andThen (map_error (\<lambda>_. OsonFloat) (DecodeBinaryDouble b)) (\<lambda>f. Inr (appendFloat ff (Float64 f) d))) d
      else if nodeType = 0x3e then
        raw_then 11 (\<lambda>b d. andThen (map_error (\<lambda>_. OsonInterval) (DecodeIntervalDS b)) (\<lambda>v. Inr (appendIntervalDS v d))) d
      else if nodeType = 0x3d then
        raw_then 5 (\<lambda>b d. andThen (map_error (\<lambda>_. OsonInterval) (DecodeIntervalYM b)) (\<lambda>v. Inr (appendIntervalYM v d))) d
      else if nodeType = 0x33 then sized_then 1 (\<lambda>b d. Inr (appendStringBytes b d)) d
      else if nodeType = 0x37 then sized_then 2 (\<lambda>b d. Inr (appendStringBytes b d)) d
      else if nodeType = 0x38 then sized_then 4 (\<lambda>b d. Inr (appendStringBytes b d)) d
      else if nodeType = 0x34 then sized_then 1 appendNumber d
      else if nodeType = 0x7e then sized_then 1 (\<lambda>b d. Inr (appendHex b d)) d
      else if nodeType = 0x3a then sized_then 2 (\<lambda>b d. Inr (appendHex b d)) d
      else if nodeType = 0x3b then sized_then 4 (\<lambda>b d. Inr (appendHex b d)) d
      else if nodeType = 0x7b then
        andThen (get_u8 d) (\<lambda>(ext, d). Inl (if ext = 0x01 then OsonVector else OsonExtended ext))
      else if nodeType AND 0xf0 = 0x20 \<or> nodeType AND 0xf0 = 0x60 then
        raw_then (uint (nodeType AND 0x0f) + 1) appendNumber d
      else if nodeType AND 0xf0 = 0x40 \<or> nodeType AND 0xf0 = 0x50 then
        raw_then (uint (nodeType AND 0x0f)) appendNumber d
      else if nodeType AND 0xe0 = 0 then
        (if nodeType = 0 then Inr (put [34, 34] d)
         else raw_then (uint nodeType) (\<lambda>b d. Inr (appendStringBytes b d)) d)
      else Inl (OsonNodeType nodeType))"

subsection \<open>Containers\<close>

definition numChildren :: "u8 \<Rightarrow> oson_decoder \<Rightarrow> oson_error + (u32 \<times> bool) \<times> oson_decoder" where
  "numChildren nodeType d =
     (let bits = nodeType AND 0x18; shared = (bits = 0x18) in
      if bits = 0 then andThen (get_uint 1 d) (\<lambda>(v, d). Inr ((v, shared), d))
      else if bits = 0x08 then andThen (get_uint 2 d) (\<lambda>(v, d). Inr ((v, shared), d))
      else if bits = 0x10 then andThen (get_uint 4 d) (\<lambda>(v, d). Inr ((v, shared), d))
      else Inr ((0, shared), d))"

definition childOffset :: "u8 \<Rightarrow> oson_decoder \<Rightarrow> oson_error + u32 \<times> oson_decoder" where
  "childOffset nodeType d = (if nodeType AND 0x20 \<noteq> 0 then get_uint 4 d else get_uint 2 d)"

definition seek :: "int \<Rightarrow> oson_decoder \<Rightarrow> oson_decoder" where
  "seek p d = d\<lparr>pos := p\<rparr>"

text \<open>The key of one object member: its field id, looked up among the names.\<close>

definition decodeKey :: "int \<Rightarrow> oson_decoder \<Rightarrow> oson_error + int \<times> oson_decoder" where
  "decodeKey fieldIDsPos d =
     andThen (get_uint (fieldIDLength d) (seek fieldIDsPos d)) (\<lambda>(fid, d).
       if fid = 0 \<or> uint fid > int (length (fieldNames d)) then Inl ErrOSON
       else Inr (pos d, put [58] (appendStringBytes (fieldNames d ! (unat fid - 1)) d)))"

text \<open>
  The loop over the children with \<open>k\<close> of them left; \<open>first\<close> is \<open>i == 0\<close> and \<open>dn\<close> is the recursive
  call of \<open>decodeNode\<close>.
\<close>

fun decodeChildren :: "(oson_decoder \<Rightarrow> oson_error + oson_decoder) \<Rightarrow> bool \<Rightarrow> u8 \<Rightarrow> int \<Rightarrow>
    bool \<Rightarrow> nat \<Rightarrow> int \<Rightarrow> int \<Rightarrow> oson_decoder \<Rightarrow> oson_error + oson_decoder" where
  "decodeChildren dn isObject nodeType containerOffset first 0 fieldIDsPos offsetsPos d = Inr d"
| "decodeChildren dn isObject nodeType containerOffset first (Suc k) fieldIDsPos offsetsPos d =
     (let d = (if first then d else put [44] d) in
      andThen (if isObject then decodeKey fieldIDsPos d else Inr (fieldIDsPos, d)) (\<lambda>(fieldIDsPos, d).
      andThen (childOffset nodeType (seek offsetsPos d)) (\<lambda>(off, d).
      let off = (if relativeOffsets d then off + word_of_int containerOffset else off);
          offsetsPos = pos d in
      andThen (dn (seek (treeSegPos d + uint off) d)) (\<lambda>d.
      decodeChildren dn isObject nodeType containerOffset False k fieldIDsPos offsetsPos d))))"

text \<open>Where the field ids and the offsets of a container are, and how many children it has.\<close>

definition containerLayout :: "u8 \<Rightarrow> oson_decoder \<Rightarrow> oson_error + (nat \<times> int \<times> int) \<times> oson_decoder" where
  "containerLayout nodeType d =
     (let isObject = (nodeType AND 0x40 = 0) in
      andThen (numChildren nodeType d) (\<lambda>((n, shared), d).
        if shared then
          andThen (childOffset nodeType d) (\<lambda>(off, d).
          let offsetsPos = pos d in
          andThen (get_u8 (seek (treeSegPos d + uint off) d)) (\<lambda>(t, d).
          andThen (numChildren t d) (\<lambda>((n, _), d).
          Inr ((unat n, pos d, offsetsPos), d))))
        else if isObject then Inr ((unat n, pos d, pos d + fieldIDLength d * uint n), d)
        else Inr ((unat n, 0, pos d), d)))"

definition decodeContainer :: "(oson_decoder \<Rightarrow> oson_error + oson_decoder) \<Rightarrow> u8 \<Rightarrow>
    oson_decoder \<Rightarrow> oson_error + oson_decoder" where
  "decodeContainer dn nodeType d =
     (let isObject = (nodeType AND 0x40 = 0); containerOffset = pos d - treeSegPos d - 1 in
      andThen (containerLayout nodeType d) (\<lambda>((n, fieldIDsPos, offsetsPos), d).
      andThen (decodeChildren dn isObject nodeType containerOffset True n fieldIDsPos offsetsPos
        (put (if isObject then [123] else [91]) d)) (\<lambda>d.
      Inr (put (if isObject then [125] else [93]) d))))"

primrec decodeNode :: "nat \<Rightarrow> (float_bits \<Rightarrow> bytes) \<Rightarrow> oson_decoder \<Rightarrow> oson_error + oson_decoder" where
  "decodeNode 0 ff d = Inl OsonFuel"
| "decodeNode (Suc fuel) ff d =
     andThen (get_u8 d) (\<lambda>(nodeType, d).
       if nodeType AND 0x80 \<noteq> 0 then decodeContainer (decodeNode fuel ff) nodeType d
       else decodeLeaf ff nodeType d)"

subsection \<open>The header\<close>

text \<open>The loop of \<open>readFieldNames\<close> over the names left to read.\<close>

fun fieldNames_loop :: "nat \<Rightarrow> int \<Rightarrow> int \<Rightarrow> bool \<Rightarrow> bytes \<Rightarrow> oson_decoder \<Rightarrow> oson_error + oson_decoder" where
  "fieldNames_loop 0 offsetsPos offsetsSize long seg d = Inr d"
| "fieldNames_loop (Suc k) offsetsPos offsetsSize long seg d =
     andThen (go_slice (data d) offsetsPos (offsetsPos + (if offsetsSize = 2 then 2 else 4))) (\<lambda>ob.
     let off = (if offsetsSize = 2 then uint (of_be ob :: u16) else uint (of_be ob :: u32));
         offsetsPos = offsetsPos + (if offsetsSize = 2 then 2 else 4);
         h = (if long then 2 else 1) in
     if off + h > int (length seg) then Inl ErrOSON
     else
       andThen (go_slice seg off (off + h)) (\<lambda>nb.
       let n = uint (of_be nb :: u16) in
       if off + h + n > int (length seg) then Inl ErrOSON
       else
         andThen (go_slice seg (off + h) (off + h + n)) (\<lambda>name.
         fieldNames_loop k offsetsPos offsetsSize long seg (d\<lparr>fieldNames := fieldNames d @ [name]\<rparr>))))"

definition readFieldNames :: "nat \<Rightarrow> int \<Rightarrow> int \<Rightarrow> bool \<Rightarrow> oson_decoder \<Rightarrow> oson_error + oson_decoder" where
  "readFieldNames num offsetsSize segSize long d =
     (let hashSize = (if long then 2 else 1) in
      andThen (need (int num * hashSize + int num * offsetsSize + segSize) d) (\<lambda>d.
      let offsetsPos = pos d + int num * hashSize;
          segPos = offsetsPos + int num * offsetsSize in
      andThen (go_slice (data d) segPos (segPos + segSize)) (\<lambda>seg.
      fieldNames_loop num offsetsPos offsetsSize long seg (seek (segPos + segSize) d))))"

text \<open>The field names' part of the header, up to the tree segment.\<close>

definition decodeHeader :: "u8 \<Rightarrow> u16 \<Rightarrow> oson_decoder \<Rightarrow> oson_error + oson_decoder" where
  "decodeHeader version primaryFlags d =
     (let idLen = (if primaryFlags AND 0x08 \<noteq> 0 then 4 else if primaryFlags AND 0x0400 \<noteq> 0 then 2 else 1);
          shortOffsetsSize = (if primaryFlags AND 0x0800 \<noteq> 0 then 4 else 2) in
      andThen (get_uint idLen d) (\<lambda>(numShort, d).
      let d = d\<lparr>fieldIDLength := idLen\<rparr> in
      andThen (get_uint shortOffsetsSize d) (\<lambda>(shortSegSize, d).
      andThen (if version = 3 then
          andThen (get_u16 d) (\<lambda>(secondaryFlags, d).
          andThen (get_u32 d) (\<lambda>(numLong, d).
          andThen (get_u32 d) (\<lambda>(longSegSize, d).
          Inr ((numLong, longSegSize, if secondaryFlags AND 0x0100 \<noteq> 0 then 2 else 4), d))))
        else Inr ((0, 0, 0), d)) (\<lambda>((numLong, longSegSize, longOffsetsSize), d).
      andThen (get_uint (if primaryFlags AND 0x1000 \<noteq> 0 then 4 else 2) d) (\<lambda>(_, d).
      andThen (get_u16 d) (\<lambda>(_, d).
      let d = d\<lparr>fieldNames := []\<rparr> in
      andThen (if numShort > 0 then readFieldNames (unat numShort) shortOffsetsSize (uint shortSegSize) False d
               else Inr d) (\<lambda>d.
      andThen (if numLong > 0 then readFieldNames (unat numLong) longOffsetsSize (uint longSegSize) True d
               else Inr d) (\<lambda>d.
      Inr (d\<lparr>treeSegPos := pos d\<rparr>)))))))))"

text \<open>What \<open>decode\<close> does before it calls \<open>decodeNode\<close>, which is the last call on both of its paths.\<close>

definition decodePrefix :: "oson_decoder \<Rightarrow> oson_error + oson_decoder" where
  "decodePrefix d =
     andThen (raw 3 d) (\<lambda>(hdr, d).
     if hdr \<noteq> [0xff, 0x4a, 0x5a] then Inl ErrOSON
     else
       andThen (get_u8 d) (\<lambda>(version, d).
       if version \<noteq> 1 \<and> version \<noteq> 3 then Inl (OsonVersion version)
       else
         andThen (get_u16 d) (\<lambda>(primaryFlags, d).
         let d = d\<lparr>relativeOffsets := (primaryFlags AND 0x01 \<noteq> 0)\<rparr> in
         if primaryFlags AND 0x10 \<noteq> 0 then Inr (adv (if primaryFlags AND 0x1000 \<noteq> 0 then 4 else 2) d)
         else decodeHeader version primaryFlags d)))"

definition decode :: "nat \<Rightarrow> (float_bits \<Rightarrow> bytes) \<Rightarrow> oson_decoder \<Rightarrow> oson_error + oson_decoder" where
  "decode fuel ff d = andThen (decodePrefix d) (decodeNode fuel ff)"

definition newDecoder :: "bytes \<Rightarrow> oson_decoder" where
  "newDecoder b = \<lparr>data = b, pos = 0, fieldNames = [], fieldIDLength = 0, treeSegPos = 0,
     relativeOffsets = False, out = []\<rparr>"

definition DecodeOSONToJSON :: "nat \<Rightarrow> (float_bits \<Rightarrow> bytes) \<Rightarrow> bytes \<Rightarrow> oson_error + bytes" where
  "DecodeOSONToJSON fuel ff b = andThen (decode fuel ff (newDecoder b)) (\<lambda>d. Inr (out d))"

end
