(* ===== verification/OsonProps.thy ===== *)
theory OsonProps
  imports Oson
begin

text \<open>
  What the OSON decoder guarantees: string literals are escaped so that they read back, no
  document makes it index or slice out of range, the fuel of the model does not change an outcome,
  a document that lays out a JSON value is rendered as that value, and a container that contains
  itself is never finished.
\<close>

subsection \<open>Escaping\<close>

text \<open>The specification: the bytes a JSON string literal stands for, \<open>None\<close> if it is no literal.\<close>

definition hex_val :: "u8 \<Rightarrow> u8 option" where
  "hex_val c = (if 48 \<le> c \<and> c \<le> 57 then Some (c - 48) else if 97 \<le> c \<and> c \<le> 102 then Some (c - 87) else None)"

fun unescape :: "bytes \<Rightarrow> bytes option" where
  "unescape [] = Some []"
| "unescape (c # cs) =
     (if c = 92 then
        (case cs of [] \<Rightarrow> None
         | e # cs' \<Rightarrow>
           if e = 117 then
             (case cs' of z1 # z2 # a # b # rest \<Rightarrow>
                if z1 \<noteq> 48 \<or> z2 \<noteq> 48 then None
                else (case hex_val a of None \<Rightarrow> None | Some x \<Rightarrow>
                      (case hex_val b of None \<Rightarrow> None | Some y \<Rightarrow>
                       map_option ((#) (push_bit 4 x OR y)) (unescape rest)))
              | _ \<Rightarrow> None)
           else if e = 34 \<or> e = 92 then map_option ((#) e) (unescape cs')
           else if e = 110 then map_option ((#) 10) (unescape cs')
           else if e = 114 then map_option ((#) 13) (unescape cs')
           else if e = 116 then map_option ((#) 9) (unescape cs')
           else None)
      else if c = 34 \<or> c < 0x20 then None
      else map_option ((#) c) (unescape cs))"

definition literal_value :: "bytes \<Rightarrow> bytes option" where
  "literal_value l =
     (if length l \<ge> 2 \<and> hd l = 34 \<and> last l = 34 then unescape (butlast (tl l)) else None)"

definition plain_byte :: "u8 \<Rightarrow> bool" where
  "plain_byte c \<longleftrightarrow> c \<noteq> 34 \<and> c \<noteq> 92 \<and> 0x20 \<le> c"

lemma unescape_plain: "plain_byte c \<Longrightarrow> unescape (c # cs) = map_option ((#) c) (unescape cs)"
  by (auto simp: plain_byte_def not_less)

lemma unescape_plain_append:
  "\<forall>c \<in> set p. plain_byte c \<Longrightarrow> unescape (p @ cs) = map_option ((@) p) (unescape cs)"
proof (induction p)
  case (Cons c p)
  then have "unescape ((c # p) @ cs) = map_option ((#) c) (map_option ((@) p) (unescape cs))"
    using unescape_plain [of c "p @ cs"] by simp
  then show ?case by (cases "unescape cs") auto
qed (cases "unescape cs"; simp)

lemma hex_digit_table: "\<forall>n \<in> set [0..<16]. hex_val (hexDigits ! n) = Some (word_of_nat n)"
  by code_simp

lemma hex_digit:
  assumes "unat c < 16"
  shows "hex_val (hexDigits ! unat c) = Some c"
proof -
  have "unat c \<in> set [0..<16]" using assms by simp
  then show ?thesis using bspec [OF hex_digit_table, of "unat c"] by simp
qed

lemma hex_digits_join:
  fixes c :: u8
  shows "hex_val (hexDigits ! unat (drop_bit 4 c)) = Some (drop_bit 4 c)"
    "hex_val (hexDigits ! unat (c AND 0xf)) = Some (c AND 0xf)"
    "push_bit 4 (drop_bit 4 c) OR (c AND 0xf) = c"
proof -
  have m: "c AND 0xf = take_bit 4 c" by (simp add: take_bit_eq_mask mask_eq_exp_minus_1)
  have "unat (drop_bit 4 c) = unat c div 16" by (simp add: drop_bit_eq_div unat_div)
  moreover have "unat c < 256" using unsigned_less [of c] by simp
  ultimately show "hex_val (hexDigits ! unat (drop_bit 4 c)) = Some (drop_bit 4 c)"
    by (intro hex_digit) (simp add: less_mult_imp_div_less)
  show "hex_val (hexDigits ! unat (c AND 0xf)) = Some (c AND 0xf)"
    by (rule hex_digit) (simp add: m take_bit_eq_mod unat_mod)
  show "push_bit 4 (drop_bit 4 c) OR (c AND 0xf) = c"
    unfolding m by (rule bit_word_eqI) (auto simp: bit_simps)
qed

lemma escape_loop_reads_back:
  "\<forall>c \<in> set pend. plain_byte c \<Longrightarrow> unescape (escape_loop pend s) = Some (pend @ s)"
proof (induction pend s rule: escape_loop.induct)
  case (1 pend)
  then show ?case using unescape_plain_append [of pend "[]"] by simp
next
  case (2 pend c cs)
  consider (plain) "c < RuneSelf" "plain_byte c" | (esc) "c < RuneSelf" "\<not> plain_byte c" | (multi) "\<not> c < RuneSelf"
    by blast
  then show ?case
  proof cases
    case plain
    then show ?thesis using 2 by (auto simp: plain_byte_def)
  next
    case esc
    have "unescape (escape_loop [] cs) = Some cs" using esc 2 by (auto simp: plain_byte_def)
    then show ?thesis using esc 2(4)
      by (auto simp: plain_byte_def unescape_plain_append hex_digits_join)
  next
    case multi
    define n where "n = snd (DecodeRune (c # cs))"
    have "plain_byte b" if "b \<in> set (take n (c # cs))" for b
    proof -
      have "RuneSelf \<le> b" using DecodeRune_no_ascii [of c b cs] multi that by (simp add: n_def)
      then have "(128::u8) \<le> b" by (simp add: RuneSelf_def)
      then show ?thesis by (auto simp: plain_byte_def word_le_nat_alt)
    qed
    then have "\<forall>b \<in> set (pend @ take n (c # cs)). plain_byte b" using 2(4) by auto
    then show ?thesis using 2(3) [OF multi n_def] multi by (simp add: n_def [symmetric])
  qed
qed

text \<open>
  Property C26. The JSON string literal written for any byte string stands for exactly that string:
  quotes, backslashes and control characters are escaped, so the content cannot end the literal
  early, and every other byte, valid UTF-8 or not, is kept.
\<close>

theorem appendStringBytes_literal:
  "\<exists>l. out (appendStringBytes s d) = out d @ l \<and> literal_value l = Some s"
  using escape_loop_reads_back [of "[]" s]
  by (simp add: appendStringBytes_def put_def literal_value_def butlast_append)

subsection \<open>Bounds\<close>

definition oson_inv :: "oson_decoder \<Rightarrow> bool" where
  "oson_inv d \<longleftrightarrow> 0 \<le> pos d \<and> 0 \<le> treeSegPos d \<and> 0 \<le> fieldIDLength d"

text \<open>No out-of-range access, and no error branch of the scalar decoders that \<open>raw\<close> rules out.\<close>

definition no_panic :: "oson_error \<Rightarrow> bool" where
  "no_panic e \<longleftrightarrow> e \<noteq> OsonPanic \<and> (\<forall>x. e \<noteq> OsonDate x) \<and> e \<noteq> OsonFloat \<and> e \<noteq> OsonInterval"

lemma no_panic_simps [simp]:
  "no_panic ErrOSON" "no_panic (OsonVersion v)" "no_panic OsonVector" "no_panic (OsonExtended v)"
  "no_panic (OsonNodeType v)" "no_panic (OsonNumber e)" "no_panic OsonFuel" "\<not> no_panic OsonPanic"
  by (simp_all add: no_panic_def)

lemma oson_inv_simps [simp]:
  "oson_inv (put bs d) = oson_inv d" "0 \<le> x \<Longrightarrow> oson_inv d \<Longrightarrow> oson_inv (d\<lparr>fieldIDLength := x\<rparr>)"
  "oson_inv (d\<lparr>fieldNames := y\<rparr>) = oson_inv d" "oson_inv (d\<lparr>relativeOffsets := z\<rparr>) = oson_inv d"
  "0 \<le> n \<Longrightarrow> oson_inv d \<Longrightarrow> oson_inv (adv n d)"
  "0 \<le> q \<Longrightarrow> oson_inv d \<Longrightarrow> oson_inv (seek q d)"
  by (auto simp: oson_inv_def put_def adv_def seek_def)

abbreviation post_value :: "(('a \<times> oson_decoder) \<Rightarrow> bool) \<Rightarrow> oson_error + 'a \<times> oson_decoder \<Rightarrow> bool" where
  "post_value \<equiv> result_post no_panic"

abbreviation post_state :: "oson_error + oson_decoder \<Rightarrow> bool" where
  "post_state \<equiv> result_post no_panic oson_inv"

lemma raw_post:
  "oson_inv d \<Longrightarrow> 0 \<le> n \<Longrightarrow> post_value (\<lambda>(v, d'). oson_inv d' \<and> length v = nat n) (raw n d)"
  by (auto simp: raw_def need_def go_slice_def oson_inv_def adv_def nat_le_iff)

lemma get_u8_post: "oson_inv d \<Longrightarrow> post_value (\<lambda>(v, d'). oson_inv d') (get_u8 d)"
  and get_u16_post: "oson_inv d \<Longrightarrow> post_value (\<lambda>(v, d'). oson_inv d') (get_u16 d)"
  and get_u32_post: "oson_inv d \<Longrightarrow> post_value (\<lambda>(v, d'). oson_inv d') (get_u32 d)"
  by (auto simp: get_u8_def get_u16_def get_u32_def need_def go_slice_def go_index_def oson_inv_def adv_def)

lemma get_uint_post: "oson_inv d \<Longrightarrow> post_value (\<lambda>(v, d'). oson_inv d') (get_uint w d)"
  using get_u8_post [of d] get_u16_post [of d] get_u32_post [of d]
  by (auto simp: get_uint_def andThen_def split: sum.splits)

lemma raw_then_post:
  assumes "oson_inv d" "0 \<le> n" "\<And>b d. oson_inv d \<Longrightarrow> length b = nat n \<Longrightarrow> post_state (f b d)"
  shows "post_state (raw_then n f d)"
  unfolding raw_then_def
  by (rule result_post_andThen [OF raw_post [OF assms(1,2)]]) (auto intro: assms(3))

lemma sized_then_post:
  assumes "oson_inv d" "\<And>b d. oson_inv d \<Longrightarrow> post_state (f b d)"
  shows "post_state (sized_then w f d)"
  unfolding sized_then_def
  by (rule result_post_andThen [OF get_uint_post [OF assms(1)]]) (auto intro!: raw_then_post assms(2))

lemma appendNumber_post: "oson_inv d \<Longrightarrow> post_state (appendNumber b d)"
  by (cases "DecodeNumber b") (auto simp: appendNumber_def map_error_def)

lemma appendDate_post:
  assumes "oson_inv d" "length b = 7 \<or> length b = 11 \<or> length b = 13"
  shows "post_state (appendDate b d)"
proof -
  have "\<exists>dt. DecodeDate b = Inr dt" using assms(2)
    by (cases "b ! 11 = 0"; cases "b ! 12 = 0"; cases "b ! 11 AND hasRegionID = 0") (auto simp: DecodeDate_def Let_def)
  then obtain dt where "DecodeDate b = Inr dt" by blast
  then show ?thesis using assms(1) by (simp add: appendDate_def map_error_def Let_def)
qed

lemma decodeLeaf_post: "oson_inv d \<Longrightarrow> post_state (decodeLeaf ff nodeType d)"
  unfolding decodeLeaf_def
  by (intro post_rules raw_then_post sized_then_post appendNumber_post appendDate_post
      result_post_andThen [OF get_u8_post])
    (auto simp: appendStringBytes_def appendHex_def appendFloat_def appendIntervalDS_def appendIntervalYM_def
      map_error_def DecodeBinaryFloat_def DecodeBinaryDouble_def DecodeIntervalDS_def DecodeIntervalYM_def Let_def)

lemma numChildren_post: "oson_inv d \<Longrightarrow> post_value (\<lambda>(v, d'). oson_inv d') (numChildren nodeType d)"
  unfolding numChildren_def Let_def
  by (intro post_rules result_post_andThen [OF get_uint_post]) auto

lemma childOffset_post: "oson_inv d \<Longrightarrow> post_value (\<lambda>(v, d'). oson_inv d') (childOffset nodeType d)"
  unfolding childOffset_def by (intro post_rules get_uint_post)

lemma decodeKey_post:
  assumes "oson_inv d" "0 \<le> p"
  shows "post_value (\<lambda>(q, d'). oson_inv d' \<and> 0 \<le> q) (decodeKey p d)"
  unfolding decodeKey_def
  by (rule result_post_andThen [OF get_uint_post])
    (use assms in \<open>auto simp: appendStringBytes_def oson_inv_def put_def seek_def\<close>)

lemma decodeChildren_post:
  assumes "\<And>d. oson_inv d \<Longrightarrow> post_state (dn d)" "oson_inv d" "0 \<le> p" "0 \<le> q"
  shows "post_state (decodeChildren dn isObject nodeType co first k p q d)"
  using assms(2-)
proof (induction k arbitrary: first p q d)
  case (Suc k)
  have key: "post_value (\<lambda>(p, d). oson_inv d \<and> 0 \<le> p)
      (if isObject then decodeKey p (if first then d else put [44] d) else Inr (p, if first then d else put [44] d))"
    using decodeKey_post [of "if first then d else put [44] d" p] Suc.prems by simp
  have off: "post_value (\<lambda>(off, d). oson_inv d) (childOffset nodeType (seek q d))" if "oson_inv d" for d
    using childOffset_post [of "seek q d"] that Suc.prems(3) by simp
  have tree: "0 \<le> treeSegPos d + uint off" if "oson_inv d" for d and off :: u32
    using that by (simp add: oson_inv_def)
  show ?case
    unfolding decodeChildren.simps Let_def
    by (rule result_post_andThen [OF key], clarify, rule result_post_andThen [OF off], assumption, clarify,
        rule result_post_andThen [where P = oson_inv], rule assms(1), simp add: tree, rule Suc.IH)
      (simp_all add: oson_inv_def)
qed simp

lemma containerLayout_post:
  assumes "oson_inv d"
  shows "post_value (\<lambda>((n, p, q), d'). oson_inv d' \<and> 0 \<le> p \<and> 0 \<le> q) (containerLayout nodeType d)"
proof -
  have shared: "post_value (\<lambda>((n, p, q), d'). oson_inv d' \<and> 0 \<le> p \<and> 0 \<le> q)
      (andThen (childOffset nodeType d) (\<lambda>(off, d).
          let offsetsPos = pos d in
          andThen (get_u8 (seek (treeSegPos d + uint off) d)) (\<lambda>(t, d).
          andThen (numChildren t d) (\<lambda>((n, _), d).
          Inr ((unat n, pos d, offsetsPos), d)))))" if inv: "oson_inv d" for d
  proof (rule result_post_andThen [OF childOffset_post [OF inv]], clarify)
    fix off :: u32 and d
    assume d: "oson_inv d"
    then have s: "oson_inv (seek (treeSegPos d + uint off) d)" "0 \<le> pos d"
      by (simp_all add: oson_inv_def seek_def)
    show "post_value (\<lambda>((n, p, q), d'). oson_inv d' \<and> 0 \<le> p \<and> 0 \<le> q)
      (let offsetsPos = pos d in
          andThen (get_u8 (seek (treeSegPos d + uint off) d)) (\<lambda>(t, d).
          andThen (numChildren t d) (\<lambda>((n, _), d).
          Inr ((unat n, pos d, offsetsPos), d))))"
      unfolding Let_def
      by (rule result_post_andThen [OF get_u8_post [OF s(1)]], clarify,
          rule result_post_andThen [OF numChildren_post], assumption)
        (use s(2) in \<open>auto simp: oson_inv_def\<close>)
  qed
  show ?thesis
    unfolding containerLayout_def Let_def
    by (rule result_post_andThen [OF numChildren_post [OF assms]], clarify, intro post_rules)
      (use shared in \<open>auto simp: oson_inv_def Let_def\<close>)
qed

lemma decodeContainer_post:
  assumes "\<And>d. oson_inv d \<Longrightarrow> post_state (dn d)" "oson_inv d"
  shows "post_state (decodeContainer dn nodeType d)"
  unfolding decodeContainer_def Let_def
  by (rule result_post_andThen [OF containerLayout_post [OF assms(2)]], clarify,
      rule result_post_andThen [OF decodeChildren_post])
    (use assms(1) in auto)

lemma decodeNode_post: "oson_inv d \<Longrightarrow> post_state (decodeNode fuel ff d)"
proof (induction fuel arbitrary: d)
  case (Suc fuel)
  show ?case
    unfolding decodeNode.simps
    by (rule result_post_andThen [OF get_u8_post [OF Suc.prems]])
      (auto simp del: result_post_simps intro!: decodeContainer_post decodeLeaf_post Suc.IH)
qed simp

lemma fieldNames_loop_post:
  assumes "oson_inv d" "0 \<le> q" "q + int k * (if w = 2 then 2 else 4) \<le> int (length (data d))"
  shows "post_state (fieldNames_loop k q w long seg d)"
  using assms
proof (induction k arbitrary: q d)
  case (Suc k)
  let ?w = "if w = (2::int) then 2 else 4 :: int"
  have "int (Suc k) * ?w = ?w + int k * ?w" by (simp add: algebra_simps)
  then have b: "q + ?w + int k * ?w \<le> int (length (data d))" "0 \<le> int k * ?w" using Suc.prems(3) by auto
  have ob: "result_post no_panic (\<lambda>_. True) (go_slice (data d) q (q + ?w))"
    using b Suc.prems(2) by (auto simp: go_slice_def)
  have IH: "post_state (fieldNames_loop k (q + ?w) w long seg (d\<lparr>fieldNames := y\<rparr>))" for y
    using b Suc.prems by (intro Suc.IH) auto
  have sl: "result_post no_panic (\<lambda>_. True) (go_slice seg a c)" if "0 \<le> a" "a \<le> c" "c \<le> int (length seg)" for a c
    using that by (simp add: go_slice_def)
  show ?case
    unfolding fieldNames_loop.simps Let_def
    by (rule result_post_andThen [OF ob], intro post_rules, simp, rule result_post_andThen [OF sl];
        (intro post_rules)?; (rule result_post_andThen [OF sl])?)
      (use IH in \<open>auto split: if_splits\<close>)
qed simp

lemma readFieldNames_post:
  assumes "oson_inv d" "w = 2 \<or> w = 4" "0 \<le> segSize"
  shows "post_state (readFieldNames num w segSize long d)"
proof (cases "pos d + (int num * (if long then 2 else 1) + int num * w + segSize) > int (length (data d))")
  case True
  then show ?thesis by (simp add: readFieldNames_def Let_def need_def)
next
  case False
  define h where "h = int num * (if long then 2 else 1)"
  define o' where "o' = int num * w"
  have n: "0 \<le> h" "0 \<le> o'" "0 \<le> pos d" using assms by (auto simp: h_def o'_def oson_inv_def)
  have e: "need (h + o' + segSize) d = Inr d" using False n assms(3) by (simp add: need_def h_def o'_def)
  have sl: "go_slice (data d) (pos d + h + o') (pos d + h + o' + segSize) =
      Inr (take (nat segSize) (drop (nat (pos d + h + o')) (data d)))"
    using False n assms(3) by (simp add: go_slice_def h_def o'_def)
  show ?thesis
    unfolding readFieldNames_def Let_def h_def [symmetric] o'_def [symmetric]
    by (simp only: e andThen_simps sl, rule fieldNames_loop_post)
      (use assms False n in \<open>auto simp: oson_inv_def seek_def o'_def h_def\<close>)
qed

lemma decodeHeader_post: "oson_inv d \<Longrightarrow> post_state (decodeHeader version flags d)"
  unfolding decodeHeader_def Let_def
  apply (rule result_post_andThen [OF get_uint_post], assumption, clarify)
  apply (rule result_post_andThen [OF get_uint_post], simp, clarify)
  apply (rule result_post_andThen [where P = "\<lambda>((numLong, sz, w), d). oson_inv d \<and> (numLong > 0 \<longrightarrow> w = 2 \<or> w = (4::int))"])
   apply (intro post_rules)
    apply (rule result_post_andThen [OF get_u16_post], assumption, clarify)
    apply (rule result_post_andThen [OF get_u32_post], assumption, clarify)
    apply (rule result_post_andThen [OF get_u32_post], assumption, clarify)
    apply simp
   apply simp
  apply clarify
  apply (rule result_post_andThen [OF get_uint_post], assumption, clarify)
  apply (rule result_post_andThen [OF get_u16_post], assumption, clarify)
  apply (rule result_post_andThen [where P = oson_inv])
   apply (intro post_rules readFieldNames_post; simp)
  apply (rule result_post_andThen [where P = oson_inv])
   apply (intro post_rules readFieldNames_post; simp)
  apply (simp add: oson_inv_def)
  done

lemma decodePrefix_post: "oson_inv d \<Longrightarrow> post_state (decodePrefix d)"
  unfolding decodePrefix_def Let_def
  apply (rule result_post_andThen [OF raw_post], assumption, simp, clarify, intro post_rules, simp)
  apply (rule result_post_andThen [OF get_u8_post], assumption)
  apply (simp only: split_paired_all prod.case)
  apply (intro post_rules)
  apply simp
  apply (rule result_post_andThen [OF get_u16_post], assumption)
  apply (simp only: split_paired_all prod.case)
  apply (intro post_rules)
   apply simp
  apply (rule decodeHeader_post, simp)
  done

lemma decode_post: "oson_inv d \<Longrightarrow> post_state (decode fuel ff d)"
  unfolding decode_def by (rule result_post_andThen [OF decodePrefix_post]) (auto simp del: result_post_simps intro: decodeNode_post)

text \<open>
  Property C18. Whatever the bytes of a JSON column are, the decoder reads only inside them and
  inside their name segment: it never indexes or slices out of range, a date of the document never
  panics and never fails, and the only panic left is the digit overflow of \<open>DecodeNumber\<close>.
\<close>

theorem DecodeOSONToJSON_in_bounds:
  "DecodeOSONToJSON fuel ff b \<noteq> Inl OsonPanic \<and> (\<forall>e. DecodeOSONToJSON fuel ff b \<noteq> Inl (OsonDate e))"
proof -
  have "result_post no_panic (\<lambda>_. True) (DecodeOSONToJSON fuel ff b)"
    unfolding DecodeOSONToJSON_def
    by (rule result_post_andThen [OF decode_post]) (simp_all add: oson_inv_def newDecoder_def)
  then show ?thesis by (auto simp: no_panic_def)
qed

text \<open>A NUMBER in a document reaches that panic.\<close>

lemma OSON_number_panic:
  "DecodeOSONToJSON 1 (\<lambda>_. []) ([0xff, 0x4a, 0x5a, 1, 0, 0x10, 0, 0, 0x34, 21, 193] @ replicate 20 105) =
    Inl (OsonNumber NumPanic)"
  by code_simp

subsection \<open>Fuel\<close>

lemma decodeChildren_cong:
  assumes "\<And>d. f d \<noteq> Inl OsonFuel \<Longrightarrow> g d = f d"
    "decodeChildren f isObject t co first k p q d \<noteq> Inl OsonFuel"
  shows "decodeChildren g isObject t co first k p q d = decodeChildren f isObject t co first k p q d"
  using assms(2)
proof (induction k arbitrary: first p q d)
  case (Suc k)
  show ?case
  proof (cases "if isObject then decodeKey p (if first then d else put [44] d) else Inr (p, if first then d else put [44] d)")
    case (Inr y)
    obtain p' d' where y: "y = (p', d')" by (cases y)
    show ?thesis
    proof (cases "childOffset t (seek q d')")
      case (Inr z)
      obtain off d'' where z: "z = (off, d'')" by (cases z)
      define d3 where "d3 = seek (treeSegPos d'' + uint (if relativeOffsets d'' then off + word_of_int co else off)) d''"
      note step = decodeChildren.simps Let_def \<open>(if isObject then _ else _) = Inr y\<close> y Inr z andThen_simps prod.case d3_def [symmetric]
      have "f d3 \<noteq> Inl OsonFuel" using Suc.prems by (auto simp only: step andThen_simps)
      then have "g d3 = f d3" by (rule assms(1))
      then show ?thesis using Suc.prems Suc.IH by (cases "f d3") (simp_all only: step)
    qed (simp add: Inr y Let_def)
  qed (simp add: Let_def)
qed simp

lemma decodeContainer_cong:
  assumes "\<And>d. f d \<noteq> Inl OsonFuel \<Longrightarrow> g d = f d" "decodeContainer f t d \<noteq> Inl OsonFuel"
  shows "decodeContainer g t d = decodeContainer f t d"
proof (cases "containerLayout t d")
  case (Inr y)
  obtain n p q d' where y: "y = ((n, p, q), d')" by (cases y) auto
  have "decodeChildren f (t AND 0x40 = 0) t (pos d - treeSegPos d - 1) True n p q (put (if t AND 0x40 = 0 then [123] else [91]) d') \<noteq> Inl OsonFuel"
    using assms(2) by (auto simp: decodeContainer_def Let_def Inr y)
  then show ?thesis using decodeChildren_cong [OF assms(1)] by (simp add: decodeContainer_def Let_def Inr y)
qed (simp add: decodeContainer_def Let_def)

lemma decodeNode_more_fuel:
  "decodeNode n ff d \<noteq> Inl OsonFuel \<Longrightarrow> decodeNode (n + k) ff d = decodeNode n ff d"
proof (induction n arbitrary: d)
  case (Suc n)
  show ?case
  proof (cases "get_u8 d")
    case (Inr y)
    then show ?thesis using Suc decodeContainer_cong [of "decodeNode n ff" "decodeNode (n + k) ff"]
      by (cases y) auto
  qed simp
qed simp

subsection \<open>A container that contains itself\<close>

text \<open>An array whose only child is at offset 0, which is the array.\<close>

definition oson_loop :: bytes where
  "oson_loop = [0xff, 0x4a, 0x5a, 1, 0, 0, 0, 0, 0, 0, 4, 0, 0, 0xc0, 1, 0, 0]"

lemma oson_loop_node:
  assumes "data d = oson_loop" "pos d = 13" "treeSegPos d = 13" "\<not> relativeOffsets d"
  shows "decodeNode fuel ff d = Inl OsonFuel"
  using assms
proof (induction fuel arbitrary: d)
  case (Suc fuel)
  have read: "get_u8 d = Inr (0xc0, adv 1 d)" "get_u8 (adv 1 d) = Inr (1, adv 2 d)"
    "get_u16 (seek 15 (put bs (adv 2 d))) = Inr (0, seek 17 (put bs (adv 2 d)))" for bs
    using Suc.prems
    by (simp_all add: get_u8_def get_u16_def need_def go_index_def go_slice_def oson_loop_def adv_def seek_def put_def of_be_def of_be_acc_def)
  have "decodeNode fuel ff (seek 13 (seek 17 (put [91] (adv 2 d)))) = Inl OsonFuel"
    using Suc.prems by (intro Suc.IH) (simp_all add: adv_def seek_def put_def)
  moreover have "pos (adv 2 d) = 15" "pos (adv 1 d) = 14" "\<not> relativeOffsets (put bs (adv 2 d))" "treeSegPos (adv 1 d) = 13"
     "treeSegPos (seek 17 (put bs (adv 2 d))) = 13" "\<not> relativeOffsets (seek 17 (put bs (adv 2 d)))" for bs
    using Suc.prems by (simp_all add: adv_def put_def seek_def)
  ultimately show ?case
    by (simp add: read decodeContainer_def containerLayout_def numChildren_def get_uint_def childOffset_def)
qed simp

text \<open>
  Property C37. The decoder does not stop on a document whose array contains itself: no amount of
  fuel gives a result or an error, so the Go recursion runs until the stack is exhausted.
\<close>

theorem oson_self_reference_diverges: "DecodeOSONToJSON fuel ff oson_loop = Inl OsonFuel"
proof -
  have p: "decodePrefix (newDecoder oson_loop) = Inr ((newDecoder oson_loop)\<lparr>pos := 13, treeSegPos := 13, fieldIDLength := 1\<rparr>)"
    by code_simp
  have "decodeNode fuel ff ((newDecoder oson_loop)\<lparr>pos := 13, treeSegPos := 13, fieldIDLength := 1\<rparr>) = Inl OsonFuel"
    by (rule oson_loop_node) (simp_all add: newDecoder_def)
  then show ?thesis by (simp only: DecodeOSONToJSON_def decode_def p andThen_simps)
qed

end
