(* ===== verification/OsonLayout.thy ===== *)
theory OsonLayout
  imports OsonProps
begin

text \<open>
  The abstract contract of the OSON decoder: an inductive relation says what it is for a document
  to lay out a JSON value at a position (the scalars, arrays and objects of the format, objects that
  share the field ids of another one included), independently of the order in which the decoder
  seeks, and the decoder is shown to render every laid out value.
\<close>

datatype json = JNull | JTrue | JFalse | JString bytes | JNumber bytes
  | JArray "json list" | JObject "(bytes \<times> json) list"

definition json_literal :: "bytes \<Rightarrow> bytes" where
  "json_literal s = [34] @ escape_loop [] s @ [34]"

text \<open>Items separated by commas.\<close>

fun comma_list :: "bytes list \<Rightarrow> bytes" where
  "comma_list [] = []"
| "comma_list [x] = x"
| "comma_list (x # y # ys) = x @ [44] @ comma_list (y # ys)"

fun json_text :: "json \<Rightarrow> bytes" where
  "json_text JNull = asc ''null''"
| "json_text JTrue = asc ''true''"
| "json_text JFalse = asc ''false''"
| "json_text (JString s) = json_literal s"
| "json_text (JNumber t) = t"
| "json_text (JArray vs) = [91] @ comma_list (map json_text vs) @ [93]"
| "json_text (JObject kvs) =
     [123] @ comma_list (map (\<lambda>(k, v). json_literal k @ [58] @ json_text v) kvs) @ [125]"

definition bytes_at :: "oson_decoder \<Rightarrow> int \<Rightarrow> bytes \<Rightarrow> bool" where
  "bytes_at d p bs \<longleftrightarrow> 0 \<le> p \<and> p + int (length bs) \<le> int (length (data d)) \<and>
     take (length bs) (drop (nat p) (data d)) = bs"

text \<open>An unsigned number of one, two or four bytes.\<close>

definition enc_uint :: "int \<Rightarrow> u32 \<Rightarrow> bytes" where
  "enc_uint w v = (if w = 1 then [ucast v] else if w = 2 then be16 (ucast v) else be32 v)"

definition fits_uint :: "int \<Rightarrow> u32 \<Rightarrow> bool" where
  "fits_uint w v \<longleftrightarrow> (w = 1 \<and> uint v < 256) \<or> (w = 2 \<and> uint v < 65536) \<or> w = 4"

definition count_width :: "u8 \<Rightarrow> int" where
  "count_width t = (if t AND 0x18 = 0 then 1 else if t AND 0x18 = 0x08 then 2 else 4)"

definition offset_width :: "u8 \<Rightarrow> int" where
  "offset_width t = (if t AND 0x20 \<noteq> 0 then 4 else 2)"

definition uints_at :: "oson_decoder \<Rightarrow> int \<Rightarrow> int \<Rightarrow> u32 list \<Rightarrow> bool" where
  "uints_at d p w vs \<longleftrightarrow> bytes_at d p (concat (map (enc_uint w) vs)) \<and> (\<forall>v \<in> set vs. fits_uint w v)"

text \<open>Where a child is: its offset is relative to the tree segment, or to the container.\<close>

definition child_pos :: "oson_decoder \<Rightarrow> int \<Rightarrow> u32 \<Rightarrow> int" where
  "child_pos d p off =
     treeSegPos d + uint (if relativeOffsets d then off + word_of_int (p - treeSegPos d) else off)"

definition key_of :: "oson_decoder \<Rightarrow> u32 \<Rightarrow> bytes \<Rightarrow> bool" where
  "key_of d fid k \<longleftrightarrow> fid \<noteq> 0 \<and> uint fid \<le> int (length (fieldNames d)) \<and> fieldNames d ! (unat fid - 1) = k"

definition count_at :: "oson_decoder \<Rightarrow> int \<Rightarrow> u8 \<Rightarrow> u32 \<Rightarrow> bool" where
  "count_at d p t n \<longleftrightarrow> t AND 0x80 \<noteq> 0 \<and> t AND 0x18 \<noteq> 0x18 \<and> bytes_at d p (t # enc_uint (count_width t) n) \<and>
     fits_uint (count_width t) n"

inductive oson_at :: "oson_decoder \<Rightarrow> int \<Rightarrow> json \<Rightarrow> bool" for d where
  null: "bytes_at d p [0x30] \<Longrightarrow> oson_at d p JNull"
| true: "bytes_at d p [0x31] \<Longrightarrow> oson_at d p JTrue"
| false: "bytes_at d p [0x32] \<Longrightarrow> oson_at d p JFalse"
| short_string: "length s < 32 \<Longrightarrow> bytes_at d p (word_of_nat (length s) # s) \<Longrightarrow> oson_at d p (JString s)"
| string: "(t, w) \<in> {(0x33, 1), (0x37, 2), (0x38, 4)} \<Longrightarrow> fits_uint w n \<Longrightarrow> unat n = length s \<Longrightarrow>
    bytes_at d p (t # enc_uint w n @ s) \<Longrightarrow> oson_at d p (JString s)"
| number: "fits_uint 1 n \<Longrightarrow> unat n = length b \<Longrightarrow> bytes_at d p (0x34 # enc_uint 1 n @ b) \<Longrightarrow>
    DecodeNumber b = Inr num \<Longrightarrow> \<not> IsMaxNegativeValue num \<Longrightarrow> oson_at d p (JNumber (Text num))"
| array: "t AND 0x40 \<noteq> 0 \<Longrightarrow> count_at d p t n \<Longrightarrow> unat n = length vs \<Longrightarrow>
    uints_at d (p + 1 + count_width t) (offset_width t) offs \<Longrightarrow>
    list_all2 (\<lambda>off v. oson_at d (child_pos d p off) v) offs vs \<Longrightarrow> oson_at d p (JArray vs)"
| object: "t AND 0x40 = 0 \<Longrightarrow> count_at d p t n \<Longrightarrow> unat n = length kvs \<Longrightarrow>
    uints_at d (p + 1 + count_width t) (fieldIDLength d) fids \<Longrightarrow>
    uints_at d (p + 1 + count_width t + fieldIDLength d * uint n) (offset_width t) offs \<Longrightarrow>
    list_all2 (\<lambda>fid (k, v). key_of d fid k) fids kvs \<Longrightarrow>
    list_all2 (\<lambda>off (k, v). oson_at d (child_pos d p off) v) offs kvs \<Longrightarrow> oson_at d p (JObject kvs)"
| shared_object: "t AND 0x40 = 0 \<Longrightarrow> t AND 0x80 \<noteq> 0 \<Longrightarrow> t AND 0x18 = 0x18 \<Longrightarrow>
    bytes_at d p (t # enc_uint (offset_width t) owner) \<Longrightarrow> fits_uint (offset_width t) owner \<Longrightarrow>
    count_at d (treeSegPos d + uint owner) t' n \<Longrightarrow> unat n = length kvs \<Longrightarrow>
    uints_at d (treeSegPos d + uint owner + 1 + count_width t') (fieldIDLength d) fids \<Longrightarrow>
    uints_at d (p + 1 + offset_width t) (offset_width t) offs \<Longrightarrow>
    list_all2 (\<lambda>fid (k, v). key_of d fid k) fids kvs \<Longrightarrow>
    list_all2 (\<lambda>off (k, v). oson_at d (child_pos d p off) v) offs kvs \<Longrightarrow> oson_at d p (JObject kvs)"

subsection \<open>Reading what is laid out\<close>

text \<open>The decoder states of one document: the position and the output vary.\<close>

definition st :: "oson_decoder \<Rightarrow> int \<Rightarrow> bytes \<Rightarrow> oson_decoder" where
  "st d p o' = d\<lparr>pos := p, out := o'\<rparr>"

lemma st_simps [simp]:
  "put bs (st d p o') = st d p (o' @ bs)" "seek q (st d p o') = st d q o'" "adv n (st d p o') = st d (p + n) o'"
  "pos (st d p o') = p" "data (st d p o') = data d" "treeSegPos (st d p o') = treeSegPos d" "out (st d p o') = o'"
  "relativeOffsets (st d p o') = relativeOffsets d" "fieldNames (st d p o') = fieldNames d"
  "fieldIDLength (st d p o') = fieldIDLength d"
  by (simp_all add: st_def put_def seek_def adv_def)

lemma bytes_at_append:
  "bytes_at d p (xs @ ys) \<longleftrightarrow> bytes_at d p xs \<and> bytes_at d (p + int (length xs)) ys"
proof -
  have "take (length (xs @ ys)) l = xs @ ys \<longleftrightarrow> take (length xs) l = xs \<and> take (length ys) (drop (length xs) l) = ys"
    if "length xs + length ys \<le> length l" for l
    using that by (auto simp: take_add append_eq_append_conv)
  from this [of "drop (nat p) (data d)"] show ?thesis
    by (cases "0 \<le> p") (auto simp: bytes_at_def nat_add_distrib add.commute)
qed

lemma bytes_at_Cons: "bytes_at d p (x # ys) \<longleftrightarrow> bytes_at d p [x] \<and> bytes_at d (p + 1) ys"
  using bytes_at_append [of d p "[x]" ys] by simp

lemma need_bytes_at: "bytes_at d p bs \<Longrightarrow> int (length bs) = n \<Longrightarrow> need n (st d p o') = Inr (st d p o')"
  by (auto simp: need_def bytes_at_def)

lemma slice_bytes_at: "bytes_at d p bs \<Longrightarrow> int (length bs) = n \<Longrightarrow> go_slice (data d) p (p + n) = Inr bs"
  by (auto simp: go_slice_def bytes_at_def)

lemma raw_at: "bytes_at d p bs \<Longrightarrow> raw (int (length bs)) (st d p o') = Inr (bs, st d (p + int (length bs)) o')"
  by (simp add: raw_def need_bytes_at [OF _ refl] slice_bytes_at [OF _ refl])

lemma get_u8_at: "bytes_at d p [b] \<Longrightarrow> get_u8 (st d p o') = Inr (b, st d (p + 1) o')"
proof -
  assume a: "bytes_at d p [b]"
  then have "need 1 (st d p o') = Inr (st d p o')" by (rule need_bytes_at) simp
  moreover have "go_index (data d) p = Inr b"
    using a by (auto simp: go_index_def bytes_at_def hd_drop_conv_nth [symmetric] take_Suc split: if_splits)
  ultimately show ?thesis by (simp add: get_u8_def)
qed

lemma get_u16_at: "bytes_at d p (be16 v) \<Longrightarrow> get_u16 (st d p o') = Inr (v, st d (p + 2) o')"
  by (simp add: get_u16_def need_bytes_at slice_bytes_at)

lemma get_u32_at: "bytes_at d p (be32 v) \<Longrightarrow> get_u32 (st d p o') = Inr (v, st d (p + 4) o')"
  by (simp add: get_u32_def need_bytes_at slice_bytes_at)

lemma ucast_back:
  "uint v < 256 \<Longrightarrow> ucast (ucast (v :: u32) :: u8) = v" "uint v < 65536 \<Longrightarrow> ucast (ucast v :: u16) = v"
  by (simp_all add: word_uint_eq_iff unsigned_ucast_eq unsigned_take_bit_eq take_bit_int_eq_self_iff)

lemma get_uint_at:
  assumes "bytes_at d p (enc_uint w v)" "fits_uint w v"
  shows "get_uint w (st d p o') = Inr (v, st d (p + w) o')"
  using assms ucast_back [of v] get_u8_at [of d p "ucast v"] get_u16_at [of d p "ucast v"] get_u32_at [of d p v]
  by (auto simp: get_uint_def enc_uint_def fits_uint_def)

lemma length_enc_uint [simp]: "fits_uint w v \<Longrightarrow> int (length (enc_uint w v)) = w"
  by (auto simp: enc_uint_def fits_uint_def)

lemma uints_at_Cons: "uints_at d p w (v # vs) \<longleftrightarrow> bytes_at d p (enc_uint w v) \<and> fits_uint w v \<and> uints_at d (p + w) w vs"
  by (auto simp: uints_at_def bytes_at_append)

lemma childOffset_at:
  "bytes_at d p (enc_uint (offset_width t) v) \<Longrightarrow> fits_uint (offset_width t) v \<Longrightarrow>
    childOffset t (st d p o') = Inr (v, st d (p + offset_width t) o')"
  by (auto simp: childOffset_def offset_width_def get_uint_at split: if_splits)

lemma count_bits:
  fixes t :: u8
  shows "t AND 0x18 = 0 \<or> t AND 0x18 = 0x08 \<or> t AND 0x18 = 0x10 \<or> t AND 0x18 = 0x18"
proof -
  have "t AND 0x18 = (if bit t 3 then 0x08 else 0) OR (if bit t 4 then 0x10 else 0)"
  proof (rule bit_word_eqI)
    fix n
    assume "n < LENGTH(8)"
    then have "n = 0 \<or> n = 1 \<or> n = 2 \<or> n = 3 \<or> n = 4 \<or> n = 5 \<or> n = 6 \<or> n = 7" by auto
    then show "bit (t AND 0x18) n = bit ((if bit t 3 then 0x08 else 0) OR (if bit t 4 then 0x10 else 0 :: u8)) n"
      by (elim disjE) (simp_all add: bit_and_iff bit_or_iff)
  qed
  then show ?thesis by (cases "bit t 3"; cases "bit t 4") simp_all
qed

lemma numChildren_at:
  assumes "count_at d p t n"
  shows "numChildren t (st d (p + 1) o') = Inr ((n, False), st d (p + 1 + count_width t) o')"
proof -
  have b: "bytes_at d (p + 1) (enc_uint (count_width t) n)" "fits_uint (count_width t) n" "t AND 0x18 \<noteq> 0x18"
    using assms bytes_at_Cons [of d p t "enc_uint (count_width t) n"] by (simp_all add: count_at_def)
  note r = get_uint_at [OF b(1,2), of o']
  consider "t AND 0x18 = 0" | "t AND 0x18 = 0x08" | "t AND 0x18 = 0x10"
    using count_bits [of t] b(3) by blast
  then show ?thesis
  proof cases
    case 1
    then have "count_width t = 1" by (simp add: count_width_def)
    then show ?thesis using r by (simp add: numChildren_def 1)
  next
    case 2
    then have "count_width t = 2" by (simp add: count_width_def)
    then show ?thesis using r by (simp add: numChildren_def 2)
  next
    case 3
    then have "count_width t = 4" by (simp add: count_width_def)
    then show ?thesis using r by (simp add: numChildren_def 3)
  qed
qed

lemma decodeKey_at:
  assumes "bytes_at d p (enc_uint (fieldIDLength d) fid)" "fits_uint (fieldIDLength d) fid" "key_of d fid k"
  shows "decodeKey p (st d r o') = Inr (p + fieldIDLength d, st d (p + fieldIDLength d) (o' @ json_literal k @ [58]))"
  using assms get_uint_at [OF assms(1,2)]
  by (auto simp: decodeKey_def key_of_def appendStringBytes_def json_literal_def)

subsection \<open>Rendering\<close>

definition renders :: "(float_bits \<Rightarrow> bytes) \<Rightarrow> oson_decoder \<Rightarrow> int \<Rightarrow> json \<Rightarrow> bool" where
  "renders ff d p v \<longleftrightarrow>
     (\<exists>n. \<forall>m \<ge> n. \<forall>o'. \<exists>q. decodeNode m ff (st d p o') = Inr (st d q (o' @ json_text v)))"

definition more_items :: "bool \<Rightarrow> bytes list \<Rightarrow> bytes" where
  "more_items first xs = (if first \<or> xs = [] then comma_list xs else [44] @ comma_list xs)"

lemma more_items_simps [simp]:
  "more_items first [] = []"
  "more_items first (x # xs) = (if first then [] else [44]) @ x @ more_items False xs"
  by (cases xs; simp add: more_items_def)+

definition item_text :: "bool \<Rightarrow> bytes \<times> json \<Rightarrow> bytes" where
  "item_text isObject kv = (if isObject then json_literal (fst kv) @ [58] else []) @ json_text (snd kv)"

lemma decodeChildren_at:
  assumes "list_all2 (\<lambda>off kv. renders ff d (child_pos d p off) (snd kv)) offs kvs"
    "uints_at d q (offset_width t) offs"
    "isObject \<longrightarrow> uints_at d fp (fieldIDLength d) fids \<and> list_all2 (\<lambda>fid kv. key_of d fid (fst kv)) fids kvs"
  shows "\<exists>n. \<forall>m \<ge> n. \<forall>o' r. \<exists>q'. decodeChildren (decodeNode m ff) isObject t (p - treeSegPos d) first (length kvs) fp q (st d r o') =
      Inr (st d q' (o' @ more_items first (map (item_text isObject) kvs)))"
  using assms
proof (induction kvs arbitrary: offs fids fp q first rule: list.induct)
  case Nil
  then show ?case by (intro exI [of _ 0]) auto
next
  case (Cons kv kvs)
  obtain off offs' where offs: "offs = off # offs'" and r: "renders ff d (child_pos d p off) (snd kv)"
    and rs: "list_all2 (\<lambda>off kv. renders ff d (child_pos d p off) (snd kv)) offs' kvs"
    using Cons.prems(1) by (auto simp: list_all2_Cons2)
  define fids' where "fids' = tl fids"
  define fp' where "fp' = (if isObject then fp + fieldIDLength d else fp)"
  have off: "bytes_at d q (enc_uint (offset_width t) off)" "fits_uint (offset_width t) off"
    and offs': "uints_at d (q + offset_width t) (offset_width t) offs'"
    using Cons.prems(2) by (simp_all add: offs uints_at_Cons)
  have fids': "isObject \<longrightarrow> uints_at d fp' (fieldIDLength d) fids' \<and> list_all2 (\<lambda>fid kv. key_of d fid (fst kv)) fids' kvs"
    using Cons.prems(3) by (auto simp: list_all2_Cons2 uints_at_Cons fids'_def fp'_def)
  have key: "\<exists>r'. (if isObject then decodeKey fp (st d r o') else Inr (fp, st d r o')) =
      Inr (fp', st d r' (o' @ (if isObject then json_literal (fst kv) @ [58] else [])))" for r o'
    using Cons.prems(3) by (fastforce simp: list_all2_Cons2 uints_at_Cons fp'_def decodeKey_at)
  obtain n1 where n1: "\<And>m o'. n1 \<le> m \<Longrightarrow> \<exists>q. decodeNode m ff (st d (child_pos d p off) o') = Inr (st d q (o' @ json_text (snd kv)))"
    using r by (auto simp: renders_def)
  obtain n2 where n2: "\<And>m o' r. n2 \<le> m \<Longrightarrow> \<exists>q'. decodeChildren (decodeNode m ff) isObject t (p - treeSegPos d) False (length kvs)
      fp' (q + offset_width t) (st d r o') = Inr (st d q' (o' @ more_items False (map (item_text isObject) kvs)))"
    using Cons.IH [OF rs offs' fids', of False] by blast
  show ?case
  proof (intro exI [of _ "max n1 n2"] allI impI)
    fix m and o' :: bytes and r
    assume m: "max n1 n2 \<le> m"
    define o1 where "o1 = (if first then o' else o' @ [44])"
    define o2 where "o2 = o1 @ (if isObject then json_literal (fst kv) @ [58] else [])"
    obtain r1 where k: "(if isObject then decodeKey fp (st d r o1) else Inr (fp, st d r o1)) = Inr (fp', st d r1 o2)"
      using key [of r o1] by (auto simp: o2_def)
    have f: "(if first then st d r o' else put [44] (st d r o')) = st d r o1" by (simp add: o1_def)
    obtain r2 where c: "decodeNode m ff (st d (child_pos d p off) o2) = Inr (st d r2 (o2 @ json_text (snd kv)))"
      using n1 m by (meson max.boundedE)
    obtain r3 where t: "decodeChildren (decodeNode m ff) isObject t (p - treeSegPos d) False (length kvs)
      fp' (q + offset_width t) (st d r2 (o2 @ json_text (snd kv))) =
      Inr (st d r3 ((o2 @ json_text (snd kv)) @ more_items False (map (item_text isObject) kvs)))"
      using n2 m by (meson max.boundedE)
    have cp: "treeSegPos d + uint (if relativeOffsets d then off + word_of_int (p - treeSegPos d) else off) = child_pos d p off"
      by (simp add: child_pos_def)
    have res: "(o2 @ json_text (snd kv)) @ more_items False (map (item_text isObject) kvs) =
        o' @ more_items first (map (item_text isObject) (kv # kvs))"
      by (simp add: o2_def o1_def item_text_def)
    have "decodeChildren (decodeNode m ff) isObject t (p - treeSegPos d) first (length (kv # kvs)) fp q (st d r o') =
      Inr (st d r3 (o' @ more_items first (map (item_text isObject) (kv # kvs))))"
      unfolding list.size(4) add_0_right add_Suc_right decodeChildren.simps Let_def f k
      by (simp only: f k andThen_simps prod.case st_simps childOffset_at [OF off] cp c t res)
    then show "\<exists>q'. decodeChildren (decodeNode m ff) isObject t (p - treeSegPos d) first (length (kv # kvs)) fp q (st d r o') =
      Inr (st d q' (o' @ more_items first (map (item_text isObject) (kv # kvs))))" by blast
  qed
qed

lemma more_items_first: "more_items True xs = comma_list xs"
  by (simp add: more_items_def)

lemma decodeContainer_at:
  assumes "bytes_at d p [t]" "t AND 0x80 \<noteq> 0" "isObject = (t AND 0x40 = 0)"
    "\<And>o'. \<exists>r. containerLayout t (st d (p + 1) o') = Inr ((length kvs, fp, q), st d r o')"
    "list_all2 (\<lambda>off kv. renders ff d (child_pos d p off) (snd kv)) offs kvs"
    "uints_at d q (offset_width t) offs"
    "isObject \<longrightarrow> uints_at d fp (fieldIDLength d) fids \<and> list_all2 (\<lambda>fid kv. key_of d fid (fst kv)) fids kvs"
  shows "\<exists>n. \<forall>m \<ge> n. \<forall>o'. \<exists>q. decodeNode m ff (st d p o') = Inr (st d q
    (o' @ (if isObject then [123] else [91]) @ comma_list (map (item_text isObject) kvs) @ (if isObject then [125] else [93])))"
proof -
  obtain n where n: "\<And>m o' r. n \<le> m \<Longrightarrow> \<exists>q'. decodeChildren (decodeNode m ff) isObject t (p - treeSegPos d) True (length kvs) fp q (st d r o') =
      Inr (st d q' (o' @ more_items True (map (item_text isObject) kvs)))"
    using decodeChildren_at [OF assms(5,6,7), of True] by blast
  show ?thesis
  proof (intro exI [of _ "Suc n"] allI impI)
    fix m and o' :: bytes
    assume "Suc n \<le> m"
    then obtain m' where m': "m = Suc m'" "n \<le> m'" by (cases m) auto
    define o1 where "o1 = o' @ (if isObject then [123] else [91])"
    obtain r where l: "containerLayout t (st d (p + 1) o') = Inr ((length kvs, fp, q), st d r o')"
      using assms(4) by blast
    obtain q' where c: "decodeChildren (decodeNode m' ff) isObject t (p - treeSegPos d) True (length kvs) fp q (st d r o1) =
        Inr (st d q' (o1 @ comma_list (map (item_text isObject) kvs)))"
      using n [OF m'(2), of r o1] by (auto simp: more_items_first)
    have co: "pos (st d (p + 1) o') - treeSegPos (st d (p + 1) o') - 1 = p - treeSegPos d" by simp
    have put: "put (if isObject then [123] else [91]) (st d r o') = st d r o1" by (simp add: o1_def)
    have "decodeNode m ff (st d p o') = decodeContainer (decodeNode m' ff) t (st d (p + 1) o')"
      using get_u8_at [OF assms(1), of o'] assms(2) by (simp add: m')
    also have "\<dots> = Inr (put (if isObject then [125] else [93]) (st d q' (o1 @ comma_list (map (item_text isObject) kvs))))"
      unfolding decodeContainer_def Let_def assms(3) [symmetric] co
      by (simp only: l andThen_simps prod.case put c)
    also have "\<dots> = Inr (st d q' (o' @ (if isObject then [123] else [91]) @
        comma_list (map (item_text isObject) kvs) @ (if isObject then [125] else [93])))"
      by (simp only: st_simps o1_def append_assoc)
    finally show "\<exists>q. decodeNode m ff (st d p o') = Inr (st d q
      (o' @ (if isObject then [123] else [91]) @ comma_list (map (item_text isObject) kvs) @ (if isObject then [125] else [93])))"
      by blast
  qed
qed

lemma count_at_byte: "count_at d p t n \<Longrightarrow> bytes_at d p [t]"
  using bytes_at_Cons [of d p t "enc_uint (count_width t) n"] by (simp add: count_at_def)

lemma containerLayout_object:
  "count_at d p t n \<Longrightarrow> t AND 0x40 = 0 \<Longrightarrow> containerLayout t (st d (p + 1) o') =
    Inr ((unat n, p + 1 + count_width t, p + 1 + count_width t + fieldIDLength d * uint n), st d (p + 1 + count_width t) o')"
  by (simp add: containerLayout_def numChildren_at)

lemma containerLayout_array:
  "count_at d p t n \<Longrightarrow> t AND 0x40 \<noteq> 0 \<Longrightarrow> containerLayout t (st d (p + 1) o') =
    Inr ((unat n, 0, p + 1 + count_width t), st d (p + 1 + count_width t) o')"
  by (simp add: containerLayout_def numChildren_at)

lemma containerLayout_shared:
  assumes "bytes_at d p (t # enc_uint (offset_width t) owner)" "fits_uint (offset_width t) owner" "t AND 0x18 = 0x18"
    "count_at d (treeSegPos d + uint owner) t' n"
  shows "containerLayout t (st d (p + 1) o') =
    Inr ((unat n, treeSegPos d + uint owner + 1 + count_width t', p + 1 + offset_width t),
      st d (treeSegPos d + uint owner + 1 + count_width t') o')"
proof -
  have b: "bytes_at d (p + 1) (enc_uint (offset_width t) owner)"
    using assms(1) bytes_at_Cons [of d p t "enc_uint (offset_width t) owner"] by blast
  have "numChildren t (st d (p + 1) o') = Inr ((0, True), st d (p + 1) o')"
    by (simp add: numChildren_def assms(3))
  moreover have "childOffset t (st d (p + 1) o') = Inr (owner, st d (p + 1 + offset_width t) o')"
    by (rule childOffset_at [OF b assms(2)])
  ultimately show ?thesis
    by (simp add: containerLayout_def get_u8_at [OF count_at_byte [OF assms(4)]] numChildren_at [OF assms(4)])
qed

subsection \<open>Leaves\<close>

lemma raw_then_at:
  "bytes_at d p bs \<Longrightarrow> int (length bs) = n \<Longrightarrow> raw_then n f (st d p o') = f bs (st d (p + n) o')"
  using raw_at [of d p bs o'] by (auto simp: raw_then_def)

lemma sized_then_at:
  assumes "bytes_at d p (enc_uint w n @ bs)" "fits_uint w n" "unat n = length bs"
  shows "sized_then w f (st d p o') = f bs (st d (p + w + int (length bs)) o')"
proof -
  have "bytes_at d p (enc_uint w n)" "bytes_at d (p + w) bs"
    using assms(1) length_enc_uint [OF assms(2)] by (simp_all add: bytes_at_append)
  moreover have "int (length bs) = uint n" using assms(3) by (metis uint_nat)
  ultimately have "raw_then (uint n) f (st d (p + w) o') = f bs (st d (p + w + int (length bs)) o')"
    by (simp only: raw_then_at)
  then show ?thesis
    by (simp only: sized_then_def get_uint_at [OF \<open>bytes_at d p (enc_uint w n)\<close> assms(2)] andThen_simps prod.case)
qed

lemma decodeNode_leaf:
  assumes "bytes_at d p [t]" "t AND 0x80 = 0"
    "\<And>o'. decodeLeaf ff t (st d (p + 1) o') = Inr (st d q (o' @ json_text v))"
  shows "renders ff d p v"
  unfolding renders_def
proof (intro exI [of _ "1::nat"] allI impI)
  fix m :: nat and o' :: bytes
  assume "1 \<le> m"
  then obtain m' where "m = Suc m'" by (cases m) auto
  then show "\<exists>q. decodeNode m ff (st d p o') = Inr (st d q (o' @ json_text v))"
    using get_u8_at [OF assms(1), of o'] assms(2,3) by auto
qed

lemma short_node_type:
  fixes t :: u8
  assumes "unat t < 32"
  shows "t AND 0x80 = 0" "t AND 0xe0 = 0" "t AND 0xf0 \<noteq> 0x20" "t AND 0xf0 \<noteq> 0x60" "t AND 0xf0 \<noteq> 0x40" "t AND 0xf0 \<noteq> 0x50"
proof -
  have "take_bit 5 t = t" using assms by (simp add: word_unat_eq_iff unsigned_take_bit_eq take_bit_nat_eq_self_iff)
  then have b: "\<not> bit t n" if "5 \<le> n" for n using that by (metis bit_take_bit_iff not_less)
  have z: "t AND w = 0" if "\<And>n. n < 5 \<Longrightarrow> \<not> bit w n" for w
  proof (rule bit_word_eqI)
    fix n
    show "bit (t AND w) n = bit 0 n" using b [of n] that [of n] by (cases "n < 5") (simp_all add: bit_and_iff)
  qed
  have n: "n < 5 \<Longrightarrow> n = 0 \<or> n = 1 \<or> n = 2 \<or> n = 3 \<or> n = (4::nat)" for n by auto
  show "t AND 0x80 = 0" by (rule z) (auto dest!: n)
  show "t AND 0xe0 = 0" by (rule z) (auto dest!: n)
  have x: "\<not> bit (t AND 0xf0) 5" "\<not> bit (t AND 0xf0) 6" using b by (simp_all add: bit_and_iff)
  show "t AND 0xf0 \<noteq> 0x20"
    by (rule notI, use x in simp)
  show "t AND 0xf0 \<noteq> 0x60"
    by (rule notI, use x in simp)
  show "t AND 0xf0 \<noteq> 0x40"
    by (rule notI, use x in simp)
  show "t AND 0xf0 \<noteq> 0x50"
    by (rule notI, use x in simp)
qed

lemma leaf_null: "bytes_at d p [0x30] \<Longrightarrow> renders ff d p JNull"
  by (rule decodeNode_leaf [where q = "p + 1" and t = "0x30"]; simp add: decodeLeaf_def)

lemma leaf_true: "bytes_at d p [0x31] \<Longrightarrow> renders ff d p JTrue"
  by (rule decodeNode_leaf [where q = "p + 1" and t = "0x31"]; simp add: decodeLeaf_def)

lemma leaf_false: "bytes_at d p [0x32] \<Longrightarrow> renders ff d p JFalse"
  by (rule decodeNode_leaf [where q = "p + 1" and t = "0x32"]; simp add: decodeLeaf_def)

lemma leaf_short_string:
  assumes "length s < 32" "bytes_at d p (word_of_nat (length s) # s)"
  shows "renders ff d p (JString s)"
proof -
  define t :: u8 where "t = word_of_nat (length s)"
  have u: "unat t = length s" "unat t < 32" using assms(1) by (simp_all add: t_def unat_of_nat)
  have ne: "t \<noteq> 0x30" "t \<noteq> 0x31" "t \<noteq> 0x32" "t \<noteq> 0x3c" "t \<noteq> 0x7d" "t \<noteq> 0x39" "t \<noteq> 0x7c" "t \<noteq> 0x7f" "t \<noteq> 0x36"
    "t \<noteq> 0x3e" "t \<noteq> 0x3d" "t \<noteq> 0x33" "t \<noteq> 0x37" "t \<noteq> 0x38" "t \<noteq> 0x34" "t \<noteq> 0x7e" "t \<noteq> 0x3a" "t \<noteq> 0x3b" "t \<noteq> 0x7b"
    using u(2) by auto
  have b: "bytes_at d p [t]" "bytes_at d (p + 1) s" using assms(2) bytes_at_Cons [of d p t s] unfolding t_def by blast+
  have ui: "uint t = int (length s)" using u(1) by (metis uint_nat)
  show ?thesis
  proof (rule decodeNode_leaf [OF b(1) short_node_type(1) [OF u(2)]])
    fix o'
    show "decodeLeaf ff t (st d (p + 1) o') = Inr (st d (p + 1 + int (length s)) (o' @ json_text (JString s)))"
    proof (cases "t = 0")
      case True
      then have "s = []" using u(1) by simp
      then show ?thesis using True by (simp add: decodeLeaf_def json_literal_def)
    next
      case False
      have "decodeLeaf ff t (st d (p + 1) o') = raw_then (uint t) (\<lambda>b d. Inr (appendStringBytes b d)) (st d (p + 1) o')"
        using False by (simp only: decodeLeaf_def ne short_node_type(2-) [OF u(2)] if_False if_True simp_thms)
      also have "\<dots> = Inr (appendStringBytes s (st d (p + 1 + int (length s)) o'))"
        unfolding ui by (rule raw_then_at [OF b(2) refl])
      finally show ?thesis by (simp add: appendStringBytes_def json_literal_def)
    qed
  qed
qed

lemma leaf_string:
  assumes "(t, w) \<in> {(0x33, 1), (0x37, 2), (0x38, 4)}" "fits_uint w n" "unat n = length s"
    "bytes_at d p (t # enc_uint w n @ s)"
  shows "renders ff d p (JString s)"
proof -
  have b: "bytes_at d p [t]" "bytes_at d (p + 1) (enc_uint w n @ s)"
    using assms(4) bytes_at_Cons [of d p t "enc_uint w n @ s"] by blast+
  have z: "t AND 0x80 = 0" using assms(1) by auto
  show ?thesis
  proof (rule decodeNode_leaf [OF b(1) z])
    fix o'
    have "decodeLeaf ff t (st d (p + 1) o') = sized_then w (\<lambda>b d. Inr (appendStringBytes b d)) (st d (p + 1) o')"
      using assms(1) by (auto simp: decodeLeaf_def)
    also have "\<dots> = Inr (appendStringBytes s (st d (p + 1 + w + int (length s)) o'))"
      by (rule sized_then_at [OF b(2) assms(2,3)])
    finally show "decodeLeaf ff t (st d (p + 1) o') = Inr (st d (p + 1 + w + int (length s)) (o' @ json_text (JString s)))"
      by (simp add: appendStringBytes_def json_literal_def)
  qed
qed

lemma leaf_number:
  assumes "fits_uint 1 n" "unat n = length b" "bytes_at d p (0x34 # enc_uint 1 n @ b)"
    "DecodeNumber b = Inr num" "\<not> IsMaxNegativeValue num"
  shows "renders ff d p (JNumber (Text num))"
proof -
  have b: "bytes_at d p [0x34]" "bytes_at d (p + 1) (enc_uint 1 n @ b)"
    using assms(3) bytes_at_Cons [of d p "0x34" "enc_uint 1 n @ b"] by blast+
  show ?thesis
  proof (rule decodeNode_leaf [OF b(1)])
    fix o'
    have "decodeLeaf ff 0x34 (st d (p + 1) o') = sized_then 1 appendNumber (st d (p + 1) o')"
      by (simp add: decodeLeaf_def)
    also have "\<dots> = appendNumber b (st d (p + 1 + 1 + int (length b)) o')"
      by (rule sized_then_at [OF b(2) assms(1,2)])
    finally show "decodeLeaf ff 0x34 (st d (p + 1) o') = Inr (st d (p + 1 + 1 + int (length b)) (o' @ json_text (JNumber (Text num))))"
      using assms(4,5) by (simp add: appendNumber_def map_error_def)
  qed simp
qed

subsection \<open>The contract\<close>

lemma json_text_array: "comma_list (map (item_text False) (map (Pair []) vs)) = comma_list (map json_text vs)"
  by (simp add: item_text_def comp_def)

lemma json_text_object: "map (item_text True) kvs = map (\<lambda>(k, v). json_literal k @ [58] @ json_text v) kvs"
  by (simp add: item_text_def case_prod_unfold)

lemma oson_at_renders: "oson_at d p v \<Longrightarrow> renders ff d p v"
proof (induction rule: oson_at.induct)
  case (array t p n vs offs)
  define kvs where "kvs = map (Pair ([] :: bytes)) vs"
  have "list_all2 (\<lambda>off kv. renders ff d (child_pos d p off) (snd kv)) offs kvs"
    unfolding kvs_def list_all2_map2 by (rule list_all2_mono [OF array(5)]) simp
  moreover have "\<exists>r. containerLayout t (st d (p + 1) o') = Inr ((length kvs, 0, p + 1 + count_width t), st d r o')" for o'
    using containerLayout_array [OF array(2,1)] array(3) by (auto simp: kvs_def)
  ultimately show ?case
    using decodeContainer_at [OF count_at_byte [OF array(2)], of False kvs 0 "p + 1 + count_width t" ff offs "[]"] array(1,2,4)
    by (simp add: renders_def count_at_def kvs_def item_text_def comp_def)
next
  case (object t p n kvs fids offs)
  have "list_all2 (\<lambda>off kv. renders ff d (child_pos d p off) (snd kv)) offs kvs"
    by (rule list_all2_mono [OF object(7)]) auto
  moreover have "\<exists>r. containerLayout t (st d (p + 1) o') =
      Inr ((length kvs, p + 1 + count_width t, p + 1 + count_width t + fieldIDLength d * uint n), st d r o')" for o'
    using containerLayout_object [OF object(2,1)] object(3) by auto
  moreover have "list_all2 (\<lambda>fid kv. key_of d fid (fst kv)) fids kvs"
    by (rule list_all2_mono [OF object(6)]) auto
  ultimately show ?case
    using decodeContainer_at [OF count_at_byte [OF object(2)], of True kvs "p + 1 + count_width t"
        "p + 1 + count_width t + fieldIDLength d * uint n" ff offs fids] object(1,2,4,5)
    by (simp add: renders_def count_at_def json_text_object)
next
  case (shared_object t p owner t' n kvs fids offs)
  have "list_all2 (\<lambda>off kv. renders ff d (child_pos d p off) (snd kv)) offs kvs"
    by (rule list_all2_mono [OF shared_object(11)]) auto
  moreover have "\<exists>r. containerLayout t (st d (p + 1) o') =
      Inr ((length kvs, treeSegPos d + uint owner + 1 + count_width t', p + 1 + offset_width t), st d r o')" for o'
    using containerLayout_shared [OF shared_object(4,5,3,6)] shared_object(7) by auto
  moreover have "list_all2 (\<lambda>fid kv. key_of d fid (fst kv)) fids kvs"
    by (rule list_all2_mono [OF shared_object(10)]) auto
  moreover have "bytes_at d p [t]"
    using shared_object(4) bytes_at_Cons [of d p t "enc_uint (offset_width t) owner"] by blast
  ultimately show ?case
    using decodeContainer_at [of d p t True kvs "treeSegPos d + uint owner + 1 + count_width t'"
        "p + 1 + offset_width t" ff offs fids] shared_object(1,2,8,9)
    by (simp add: renders_def json_text_object)
qed (auto intro: leaf_null leaf_true leaf_false leaf_short_string leaf_string leaf_number)

text \<open>The header leaves the output alone.\<close>

definition keeps_out :: "oson_decoder \<Rightarrow> 'e + 'a \<times> oson_decoder \<Rightarrow> bool" where
  "keeps_out d r = result_post (\<lambda>_. True) (\<lambda>(v, d'). out d' = out d) r"

lemma reads_keep_out:
  "keeps_out d (raw n d)" "keeps_out d (get_u8 d)" "keeps_out d (get_u16 d)" "keeps_out d (get_u32 d)" "keeps_out d (get_uint w d)"
  by (auto simp: keeps_out_def raw_def get_u8_def get_u16_def get_u32_def get_uint_def need_def adv_def
      go_slice_def go_index_def)

lemma keeps_out_andThen:
  "keeps_out d m \<Longrightarrow> (\<And>v d'. out d' = out d \<Longrightarrow> result_post (\<lambda>_. True) Q (f (v, d'))) \<Longrightarrow>
    result_post (\<lambda>_. True) Q (andThen m f)"
  by (cases m) (auto simp: keeps_out_def)

lemma fieldNames_loop_out: "result_post (\<lambda>_. True) (\<lambda>d'. out d' = out d) (fieldNames_loop k q w long seg d)"
proof (induction k arbitrary: q d)
  case (Suc k)
  have "result_post (\<lambda>_. True) (\<lambda>d'. out d' = out d) (fieldNames_loop k q w long seg (d\<lparr>fieldNames := y\<rparr>))" for q y
    using Suc [of "d\<lparr>fieldNames := y\<rparr>" q] by simp
  note IH = this
  have any: "result_post (\<lambda>_. True) (\<lambda>_. True) (r :: oson_error + bytes)" for r by (cases r) auto
  show ?case
    unfolding fieldNames_loop.simps Let_def
    by (rule result_post_andThen [OF any], intro post_rules, simp, rule result_post_andThen [OF any],
        intro post_rules, simp, rule result_post_andThen [OF any], rule IH)
qed simp

lemma readFieldNames_out: "result_post (\<lambda>_. True) (\<lambda>d'. out d' = out d) (readFieldNames num w sz long d)"
  using fieldNames_loop_out [of "seek q d" for q]
  by (auto simp: readFieldNames_def Let_def andThen_def need_def seek_def split: sum.split)

lemma decodeHeader_out: "result_post (\<lambda>_. True) (\<lambda>d'. out d' = out d) (decodeHeader version flags d)"
proof -
  have names: "result_post (\<lambda>_. True) (\<lambda>d'. out d' = out d)
     (if b then readFieldNames num w sz long d1 else Inr d1)" if "out d1 = out d" for b num w sz long d1
    using readFieldNames_out [of d1] that by auto
  show ?thesis
    unfolding decodeHeader_def Let_def
    apply (rule keeps_out_andThen [OF reads_keep_out(5)], simp only: prod.case)
    apply (rule keeps_out_andThen [OF reads_keep_out(5)], simp only: prod.case)
    apply (rule result_post_andThen [where P = "\<lambda>(v, d'). out d' = out d"])
     apply (intro post_rules)
      apply (rule keeps_out_andThen [OF reads_keep_out(3)], simp only: prod.case)
      apply (rule keeps_out_andThen [OF reads_keep_out(4)], simp only: prod.case)
      apply (rule keeps_out_andThen [OF reads_keep_out(4)], simp)
     apply simp
    apply (simp only: split_paired_all prod.case)
    apply (rule keeps_out_andThen [OF reads_keep_out(5)], simp only: prod.case)
    apply (rule keeps_out_andThen [OF reads_keep_out(3)], simp only: prod.case)
    apply (rule result_post_andThen [OF names], simp)
    apply (rule result_post_andThen [OF names], simp)
    apply simp
    done
qed

lemma decodePrefix_out: "result_post (\<lambda>_. True) (\<lambda>d'. out d' = out d) (decodePrefix d)"
  unfolding decodePrefix_def Let_def
  apply (rule keeps_out_andThen [OF reads_keep_out(1)], simp only: prod.case, intro post_rules, simp)
  apply (rule keeps_out_andThen [OF reads_keep_out(2)], simp only: prod.case, intro post_rules, simp)
  apply (rule keeps_out_andThen [OF reads_keep_out(3)], simp only: prod.case, intro post_rules, simp add: adv_def)
  apply (rule result_post_mono [OF decodeHeader_out], simp)
  done

text \<open>
  Property C16. A document whose header opens and whose tree lays out a JSON value at the root is
  decoded, with enough fuel, to exactly the text of that value: every scalar, key and nesting level,
  with absolute or relative offsets and shared field ids.
\<close>

theorem DecodeOSONToJSON_layout:
  assumes "decodePrefix (newDecoder b) = Inr d" "oson_at d (pos d) v"
  shows "\<exists>n. \<forall>m \<ge> n. DecodeOSONToJSON m ff b = Inr (json_text v)"
proof -
  have "out d = []" using decodePrefix_out [of "newDecoder b"] assms(1) by (simp add: newDecoder_def)
  then have d: "st d (pos d) [] = d" by (simp add: st_def)
  obtain n where n: "\<And>m. n \<le> m \<Longrightarrow> \<exists>q. decodeNode m ff (st d (pos d) []) = Inr (st d q ([] @ json_text v))"
    using oson_at_renders [OF assms(2), of ff] unfolding renders_def by blast
  have "DecodeOSONToJSON m ff b = Inr (json_text v)" if "n \<le> m" for m
    using n [OF that] d assms(1) by (auto simp: DecodeOSONToJSON_def decode_def)
  then show ?thesis by blast
qed

text \<open>The document \<open>{a: [null, b]}\<close>.\<close>

definition oson_example :: bytes where
  "oson_example = [0xff, 0x4a, 0x5a, 1, 0, 0, 1, 0, 2, 0, 14, 0, 0, 0x2c, 0, 0, 1, 97,
     0x84, 1, 1, 0, 5, 0xc0, 2, 0, 11, 0, 12, 0x30, 1, 98]"

definition oson_example_state :: oson_decoder where
  "oson_example_state = \<lparr>data = oson_example, pos = 18, fieldNames = [[97]], fieldIDLength = 1,
     treeSegPos = 18, relativeOffsets = False, out = []\<rparr>"

lemma oson_example_opens: "decodePrefix (newDecoder oson_example) = Inr oson_example_state"
  by code_simp

lemma oson_example_layout: "oson_at oson_example_state 18 (JObject [([97], JArray [JNull, JString [98]])])"
proof -
  have n: "oson_at oson_example_state 29 JNull" by (rule oson_at.null) code_simp
  have s: "oson_at oson_example_state 30 (JString [98])" by (rule oson_at.short_string) code_simp+
  have a: "oson_at oson_example_state 23 (JArray [JNull, JString [98]])"
  proof (rule oson_at.array [where t = "0xc0" and n = 2 and offs = "[11, 12]"])
    have "child_pos oson_example_state 23 11 = 29" "child_pos oson_example_state 23 12 = 30" by code_simp+
    with n s show "list_all2 (\<lambda>off v. oson_at oson_example_state (child_pos oson_example_state 23 off) v) [11, 12] [JNull, JString [98]]"
      by simp
  qed code_simp+
  show ?thesis
  proof (rule oson_at.object [where t = "0x84" and n = 1 and fids = "[1]" and offs = "[5]"])
    have "child_pos oson_example_state 18 5 = 23" by code_simp
    with a show "list_all2 (\<lambda>off (k, v). oson_at oson_example_state (child_pos oson_example_state 18 off) v) [5] [([97], JArray [JNull, JString [98]])]"
      by simp
  qed code_simp+
qed

theorem DecodeOSONToJSON_layout_witness:
  "\<exists>n. \<forall>m \<ge> n. DecodeOSONToJSON m (\<lambda>_. []) oson_example = Inr (json_text (JObject [([97], JArray [JNull, JString [98]])]))"
  by (rule DecodeOSONToJSON_layout [OF oson_example_opens])
    (use oson_example_layout in \<open>simp add: oson_example_state_def\<close>)

end
