(* ===== verification/SqlParse.thy ===== *)
theory SqlParse
  imports Prelude
begin

text \<open>
  \<^verbatim>\<open>internal/ttc/sqlparse.go\<close>: the scanner that classifies a statement and finds its bind
  variables, skipping comments, string literals, q-strings and quoted identifiers. The text is the
  list of its runes. The tables of the \<^verbatim>\<open>unicode\<close> package are the parameter \<open>u\<close>; the laws of
  \<open>unicode_ascii\<close> say what they hold for ASCII.
\<close>

type_synonym rune = nat

record unicode =
  isLetter :: "rune \<Rightarrow> bool"
  isDigit :: "rune \<Rightarrow> bool"
  isSpace :: "rune \<Rightarrow> bool"
  toUpper :: "rune \<Rightarrow> rune"

definition runes :: "string \<Rightarrow> rune list" where
  "runes s = map of_char s"

datatype StatementKind = KindUnknown | KindQuery | KindDML | KindDDL | KindPLSQL

definition determineKind :: "rune list \<Rightarrow> StatementKind" where
  "determineKind keyword =
     (if keyword \<in> set (map runes [''DECLARE'', ''BEGIN'', ''CALL'']) then KindPLSQL
      else if keyword \<in> set (map runes [''SELECT'', ''WITH'']) then KindQuery
      else if keyword \<in> set (map runes [''INSERT'', ''UPDATE'', ''DELETE'', ''MERGE'']) then KindDML
      else if keyword \<in> set (map runes [''CREATE'', ''ALTER'', ''DROP'', ''GRANT'', ''REVOKE'', ''ANALYZE'',
        ''AUDIT'', ''COMMENT'', ''TRUNCATE'']) then KindDDL
      else KindUnknown)"

text \<open>The result and the local variables of \<open>parseSQL\<close>.\<close>

record parsedSQL =
  kind :: StatementKind
  bindNames :: "rune list list"
  isReturning :: bool

record parse_state = parsedSQL +
  initialKeywordFound :: bool
  returningKeywordFound :: bool
  lastWasString :: bool
  lastWasAlpha :: bool
  lastCh :: rune
  alphaStart :: nat
  seen :: "rune list set"

definition rslice :: "rune list \<Rightarrow> nat \<Rightarrow> nat \<Rightarrow> rune list" where
  "rslice rs a b = take (b - a) (drop a rs)"

text \<open>The index of the closing quote.\<close>

function skipQuoted_loop :: "rune list \<Rightarrow> nat \<Rightarrow> rune \<Rightarrow> nat" where
  "skipQuoted_loop rs pos q =
     (if pos < length rs then
        (if rs ! pos = q then
           (if pos + 1 < length rs \<and> rs ! (pos + 1) = q then skipQuoted_loop rs (pos + 2) q else pos)
         else skipQuoted_loop rs (pos + 1) q)
      else length rs)"
  by pat_completeness auto
termination by (relation "measure (\<lambda>(rs, pos, _). length rs - pos)") auto

declare skipQuoted_loop.simps [simp del]

definition skipQuoted :: "rune list \<Rightarrow> nat \<Rightarrow> rune \<Rightarrow> nat" where
  "skipQuoted rs pos q = skipQuoted_loop rs (pos + 1) q"

function skipQString_loop :: "rune list \<Rightarrow> nat \<Rightarrow> rune \<Rightarrow> nat" where
  "skipQString_loop rs pos sep =
     (if pos + 1 < length rs then
        (if rs ! pos = sep \<and> rs ! (pos + 1) = 39 then pos + 1 else skipQString_loop rs (pos + 1) sep)
      else length rs)"
  by pat_completeness auto
termination by (relation "measure (\<lambda>(rs, pos, _). length rs - pos)") auto

declare skipQString_loop.simps [simp del]

definition closing_sep :: "rune \<Rightarrow> rune" where
  "closing_sep sep =
     (if sep = 91 then 93 else if sep = 123 then 125 else if sep = 60 then 62 else if sep = 40 then 41 else sep)"

definition skipQString :: "rune list \<Rightarrow> nat \<Rightarrow> nat" where
  "skipQString rs pos =
     (if pos + 1 \<ge> length rs then length rs
      else skipQString_loop rs (pos + 2) (closing_sep (rs ! (pos + 1))))"

text \<open>The loops \<open>for j < len(rs) && P(rs[j]) { j++ }\<close>.\<close>

function scan_while :: "(rune \<Rightarrow> bool) \<Rightarrow> rune list \<Rightarrow> nat \<Rightarrow> nat" where
  "scan_while P rs j = (if j < length rs \<and> P (rs ! j) then scan_while P rs (j + 1) else j)"
  by pat_completeness auto
termination by (relation "measure (\<lambda>(_, rs, j). length rs - j)") auto

declare scan_while.simps [simp del]

definition name_char :: "unicode \<Rightarrow> rune \<Rightarrow> bool" where
  "name_char u c \<longleftrightarrow> isLetter u c \<or> isDigit u c \<or> c = 95 \<or> c = 36 \<or> c = 35"

definition parseBindName :: "unicode \<Rightarrow> rune list \<Rightarrow> nat \<Rightarrow> rune list \<times> nat" where
  "parseBindName u rs pos =
     (let i = scan_while (isSpace u) rs (pos + 1) in
      if i \<ge> length rs then ([], pos)
      else if rs ! i = 34 then
        (let j = scan_while (\<lambda>c. c \<noteq> 34) rs (i + 1) in (rslice rs (i + 1) j, j))
      else if isDigit u (rs ! i) then
        (let j = scan_while (isDigit u) rs i in (rslice rs i j, j - 1))
      else if isLetter u (rs ! i) then
        (let j = scan_while (name_char u) rs i in (map (toUpper u) (rslice rs i j), j - 1))
      else ([], pos))"

definition addBind :: "rune list \<Rightarrow> parse_state \<Rightarrow> parse_state" where
  "addBind name p =
     (if kind p = KindPLSQL \<and> name \<in> seen p then p
      else p\<lparr>seen := insert name (seen p), bindNames := bindNames p @ [name]\<rparr>)"

text \<open>
  A word ends before the rune at \<open>pos\<close>: the first word decides the kind, \<open>RETURNING\<close> and \<open>INTO\<close>
  are looked for in DML.
\<close>

definition end_of_word :: "unicode \<Rightarrow> rune list \<Rightarrow> nat \<Rightarrow> parse_state \<Rightarrow> parse_state" where
  "end_of_word u rs pos p =
     (let word = map (toUpper u) (rslice rs (alphaStart p) pos) in
      if \<not> initialKeywordFound p then p\<lparr>kind := determineKind word, initialKeywordFound := True\<rparr>
      else if kind p = KindDML \<and> \<not> returningKeywordFound p \<and> word = runes ''RETURNING'' then
        p\<lparr>returningKeywordFound := True\<rparr>
      else if returningKeywordFound p \<and> word = runes ''INTO'' then p\<lparr>isReturning := True\<rparr>
      else p)"

definition track_word :: "unicode \<Rightarrow> rune list \<Rightarrow> nat \<Rightarrow> parse_state \<Rightarrow> parse_state" where
  "track_word u rs pos p =
     (let isAlpha = isLetter u (rs ! pos) in
      if isAlpha \<and> \<not> lastWasAlpha p then p\<lparr>alphaStart := pos\<rparr>
      else if \<not> isAlpha \<and> lastWasAlpha p then end_of_word u rs pos p
      else p)"

text \<open>\<open>break\<close>: the word that has just ended is the initial keyword of a DDL statement.\<close>

definition ddl_stop :: "unicode \<Rightarrow> rune list \<Rightarrow> nat \<Rightarrow> parse_state \<Rightarrow> bool" where
  "ddl_stop u rs pos p \<longleftrightarrow>
     \<not> isLetter u (rs ! pos) \<and> lastWasAlpha p \<and> \<not> initialKeywordFound p \<and>
     determineKind (map (toUpper u) (rslice rs (alphaStart p) pos)) = KindDDL"

text \<open>\<open>strings.Index(s, "*/")\<close>.\<close>

fun index_close :: "rune list \<Rightarrow> nat option" where
  "index_close (a # b # cs) = (if a = 42 \<and> b = 47 then Some 0 else map_option Suc (index_close (b # cs)))"
| "index_close _ = None"

text \<open>Where the rune at \<open>pos\<close> leaves the scan, when it is not a string, a space or a bind.\<close>

definition skip_other :: "rune list \<Rightarrow> nat \<Rightarrow> nat" where
  "skip_other rs pos =
     (let ch = rs ! pos; n = length rs in
      if ch = 45 then (if pos + 1 < n \<and> rs ! (pos + 1) = 45 then scan_while (\<lambda>c. c \<noteq> 10) rs pos else pos)
      else if ch = 47 then
        (if pos + 1 < n \<and> rs ! (pos + 1) = 42 then
           (case index_close (drop (pos + 2) rs) of None \<Rightarrow> n | Some e \<Rightarrow> pos + 2 + e + 1)
         else pos)
      else if ch = 34 then skipQuoted rs pos 34
      else pos)"

text \<open>The end of an iteration: the last rune consumed is remembered.\<close>

definition advance :: "unicode \<Rightarrow> rune list \<Rightarrow> nat \<Rightarrow> parse_state \<Rightarrow> parse_state \<times> nat" where
  "advance u rs pos p =
     (if pos < length rs then p\<lparr>lastCh := rs ! pos, lastWasAlpha := isLetter u (rs ! pos)\<rparr> else p, pos + 1)"

text \<open>One iteration of the main loop.\<close>

definition parse_step :: "unicode \<Rightarrow> rune list \<Rightarrow> nat \<Rightarrow> parse_state \<Rightarrow> parse_state \<times> nat" where
  "parse_step u rs pos p =
     (let ch = rs ! pos; p = track_word u rs pos p in
      if ch = 39 then
        advance u rs (if lastCh p = 113 \<or> lastCh p = 81 then skipQString rs pos else skipQuoted rs pos 39)
          (p\<lparr>lastWasString := True\<rparr>)
      else if isSpace u ch then advance u rs pos p
      else if ch = 58 \<and> \<not> lastWasString p \<and> fst (parseBindName u rs pos) \<noteq> [] then
        (let (name, next) = parseBindName u rs pos in
         ((addBind name p)\<lparr>lastWasString := False, lastWasAlpha := False, lastCh := 58\<rparr>, next + 1))
      else advance u rs (skip_other rs pos) (p\<lparr>lastWasString := False\<rparr>))"

subsection \<open>Every iteration moves forward\<close>

lemma skipQuoted_loop_ge: "pos \<le> length rs \<Longrightarrow> pos \<le> skipQuoted_loop rs pos q"
proof (induction rs pos q rule: skipQuoted_loop.induct)
  case (1 rs pos q)
  show ?case unfolding skipQuoted_loop.simps [of rs pos q] using 1 by (auto dest: Suc_leD)
qed

lemma skipQuoted_ge: "pos < length rs \<Longrightarrow> pos \<le> skipQuoted rs pos q"
  using skipQuoted_loop_ge [of "pos + 1" rs q] by (simp add: skipQuoted_def)

lemma skipQString_loop_ge: "pos \<le> length rs \<Longrightarrow> pos \<le> skipQString_loop rs pos sep"
proof (induction rs pos sep rule: skipQString_loop.induct)
  case (1 rs pos sep)
  show ?case unfolding skipQString_loop.simps [of rs pos sep] using 1 by (auto dest: Suc_leD)
qed

lemma skipQString_ge: "pos < length rs \<Longrightarrow> pos \<le> skipQString rs pos"
  using skipQString_loop_ge [of "pos + 2" rs "closing_sep (rs ! (pos + 1))"] by (auto simp: skipQString_def)

lemma scan_while_ge: "j \<le> scan_while P rs j"
proof (induction P rs j rule: scan_while.induct)
  case (1 P rs j)
  then show ?case by (subst scan_while.simps) (auto dest: Suc_leD)
qed

lemma scan_while_less: "j < length rs \<Longrightarrow> P (rs ! j) \<Longrightarrow> j < scan_while P rs j"
  using scan_while_ge [of "j + 1" P rs] by (subst scan_while.simps) simp

lemma parseBindName_ge: "pos \<le> snd (parseBindName u rs pos)"
proof -
  define i where "i = scan_while (isSpace u) rs (pos + 1)"
  have i: "pos + 1 \<le> i" unfolding i_def by (rule scan_while_ge)
  have "i + 1 \<le> scan_while (\<lambda>c. c \<noteq> 34) rs (i + 1)" "i \<le> scan_while (isDigit u) rs i" "i \<le> scan_while (name_char u) rs i"
    by (rule scan_while_ge)+
  then show ?thesis
    using i unfolding parseBindName_def Let_def i_def [symmetric] by auto
qed

lemma skip_other_ge: "pos < length rs \<Longrightarrow> pos \<le> skip_other rs pos"
  using scan_while_ge [of pos "\<lambda>c. c \<noteq> 10" rs] skipQuoted_ge [of pos rs 34]
  by (auto simp: skip_other_def Let_def split: option.split)

lemma parse_step_progress: "pos < length rs \<Longrightarrow> pos < snd (parse_step u rs pos p)"
  using parseBindName_ge [of pos u rs] skip_other_ge [of pos rs] skipQuoted_ge [of pos rs 39] skipQString_ge [of pos rs]
  by (auto simp: parse_step_def Let_def advance_def case_prod_unfold less_Suc_eq_le)

function parse_loop :: "unicode \<Rightarrow> rune list \<Rightarrow> nat \<Rightarrow> parse_state \<Rightarrow> parse_state" where
  "parse_loop u rs pos p =
     (if pos < length rs then
        (if ddl_stop u rs pos p then track_word u rs pos p
         else parse_loop u rs (snd (parse_step u rs pos p)) (fst (parse_step u rs pos p)))
      else p)"
  by pat_completeness auto

termination
  by (relation "measure (\<lambda>(_, rs, pos, _). length rs - pos)")
    (auto intro!: diff_less_mono2 parse_step_progress)

declare parse_loop.simps [simp del]

definition parse_init :: parse_state where
  "parse_init = \<lparr>kind = KindUnknown, bindNames = [], isReturning = False, initialKeywordFound = False,
     returningKeywordFound = False, lastWasString = False, lastWasAlpha = False, lastCh = 0, alphaStart = 0,
     seen = {}\<rparr>"

text \<open>The last word, when the text ends in it and it is the only one.\<close>

definition parse_finish :: "unicode \<Rightarrow> rune list \<Rightarrow> parse_state \<Rightarrow> parsedSQL" where
  "parse_finish u rs p =
     parsedSQL.truncate
      (if \<not> initialKeywordFound p \<and> lastWasAlpha p \<and> alphaStart p < length rs then
         p\<lparr>kind := determineKind (map (toUpper u) (drop (alphaStart p) rs))\<rparr>
       else p)"

definition parseSQL :: "unicode \<Rightarrow> rune list \<Rightarrow> parsedSQL" where
  "parseSQL u rs = parse_finish u rs (parse_loop u rs 0 parse_init)"

subsection \<open>The unicode tables on ASCII\<close>

definition ascii_letter :: "rune \<Rightarrow> bool" where
  "ascii_letter c \<longleftrightarrow> 65 \<le> c \<and> c \<le> 90 \<or> 97 \<le> c \<and> c \<le> 122"

definition ascii_digit :: "rune \<Rightarrow> bool" where
  "ascii_digit c \<longleftrightarrow> 48 \<le> c \<and> c \<le> 57"

definition ascii_space :: "rune \<Rightarrow> bool" where
  "ascii_space c \<longleftrightarrow> c = 32 \<or> 9 \<le> c \<and> c \<le> 13"

definition ascii_upper :: "rune \<Rightarrow> rune" where
  "ascii_upper c = (if 97 \<le> c \<and> c \<le> 122 then c - 32 else c)"

definition unicode_ascii :: "unicode \<Rightarrow> bool" where
  "unicode_ascii u \<longleftrightarrow> (\<forall>c < 128. isLetter u c = ascii_letter c \<and> isDigit u c = ascii_digit c \<and>
     isSpace u c = ascii_space c \<and> toUpper u c = ascii_upper c)"

text \<open>Letters, digits and white space are disjoint classes of runes.\<close>

definition unicode_laws :: "unicode \<Rightarrow> bool" where
  "unicode_laws u \<longleftrightarrow> unicode_ascii u \<and>
     (\<forall>c. \<not> (isSpace u c \<and> isLetter u c) \<and> \<not> (isSpace u c \<and> isDigit u c) \<and> \<not> (isLetter u c \<and> isDigit u c))"

text \<open>The tables cut down to ASCII.\<close>

definition ascii_unicode :: unicode where
  "ascii_unicode = \<lparr>isLetter = ascii_letter, isDigit = ascii_digit, isSpace = ascii_space, toUpper = ascii_upper\<rparr>"

lemma ascii_unicode_ok: "unicode_laws ascii_unicode"
  by (auto simp: unicode_laws_def unicode_ascii_def ascii_unicode_def ascii_letter_def ascii_digit_def ascii_space_def)

end
