(* ===== verification/SqlTokens.thy ===== *)
theory SqlTokens
  imports SqlParse
begin

text \<open>
  The abstract contract of the statement scanner: a statement is a list of tokens (ordinary runes,
  string literals, q-strings, quoted identifiers, comments and bind variables), and scanning its
  text finds exactly the bind variables of the list, in order; PL/SQL drops repeated names.
\<close>

datatype token =
    TChar rune
  | TString "rune list"
  | TQString rune "rune list"
  | TIdent "rune list"
  | TLine "rune list"
  | TBlock "rune list"
  | TBind "rune list"

text \<open>A quote inside a literal is doubled.\<close>

definition double_quotes :: "rune \<Rightarrow> rune list \<Rightarrow> rune list" where
  "double_quotes q s = concat (map (\<lambda>c. if c = q then [q, q] else [c]) s)"

fun token_text :: "token \<Rightarrow> rune list" where
  "token_text (TChar c) = [c]"
| "token_text (TString s) = 39 # double_quotes 39 s @ [39]"
| "token_text (TQString o' s) = 39 # o' # s @ [closing_sep o', 39]"
| "token_text (TIdent s) = 34 # double_quotes 34 s @ [34]"
| "token_text (TLine s) = 45 # 45 # s @ [10]"
| "token_text (TBlock s) = 47 # 42 # s @ [42, 47]"
| "token_text (TBind n) = 58 # n"

definition sql_text :: "token list \<Rightarrow> rune list" where
  "sql_text ts = concat (map token_text ts)"

definition starts :: "(rune \<Rightarrow> bool) \<Rightarrow> rune list \<Rightarrow> bool" where
  "starts P rs \<longleftrightarrow> rs \<noteq> [] \<and> P (hd rs)"

text \<open>No occurrence of the two runes \<open>a b\<close> starts inside \<open>s\<close> when the text goes on with \<open>a b\<close>.\<close>

fun no_pair :: "rune \<Rightarrow> rune \<Rightarrow> rune list \<Rightarrow> bool" where
  "no_pair a b [] = True"
| "no_pair a b [x] = (x \<noteq> a \<or> a \<noteq> b)"
| "no_pair a b (x # y # ys) = (\<not> (x = a \<and> y = b) \<and> no_pair a b (y # ys))"

definition bind_name :: "unicode \<Rightarrow> rune list \<Rightarrow> bool" where
  "bind_name u n \<longleftrightarrow> n \<noteq> [] \<and>
     (isLetter u (hd n) \<and> (\<forall>c \<in> set n. name_char u c) \<or> (\<forall>c \<in> set n. isDigit u c))"

definition special :: "rune \<Rightarrow> bool" where
  "special c \<longleftrightarrow> c = 39 \<or> c = 34"

text \<open>
  A token is read back as itself before the text \<open>rest\<close>; \<open>str\<close> says that the last token other than
  a space was a string literal, after which a colon is taken for JSON, and \<open>prev\<close> is the rune before it.
\<close>

fun token_ok :: "unicode \<Rightarrow> bool \<Rightarrow> rune \<Rightarrow> token \<Rightarrow> rune list \<Rightarrow> bool" where
  "token_ok u str prev (TChar c) rest \<longleftrightarrow> \<not> special c \<and>
     (c = 45 \<longrightarrow> \<not> starts ((=) 45) rest) \<and> (c = 47 \<longrightarrow> \<not> starts ((=) 42) rest) \<and>
     (c = 58 \<longrightarrow> str \<or> \<not> starts (\<lambda>c. c = 34 \<or> isDigit u c \<or> isLetter u c) (dropWhile (isSpace u) rest))"
| "token_ok u str prev (TString s) rest \<longleftrightarrow> prev \<noteq> 113 \<and> prev \<noteq> 81 \<and> \<not> starts ((=) 39) rest"
| "token_ok u str prev (TQString o' s) rest \<longleftrightarrow> (prev = 113 \<or> prev = 81) \<and> closing_sep o' \<noteq> 39 \<and> no_pair (closing_sep o') 39 s"
| "token_ok u str prev (TIdent s) rest \<longleftrightarrow> \<not> starts ((=) 34) rest"
| "token_ok u str prev (TLine s) rest \<longleftrightarrow> 10 \<notin> set s"
| "token_ok u str prev (TBlock s) rest \<longleftrightarrow> no_pair 42 47 s"
| "token_ok u str prev (TBind n) rest \<longleftrightarrow> \<not> str \<and> bind_name u n \<and>
     \<not> starts (if isDigit u (hd n) then isDigit u else name_char u) rest"

text \<open>What the scanner remembers after a token.\<close>

fun after_str :: "unicode \<Rightarrow> bool \<Rightarrow> token \<Rightarrow> bool" where
  "after_str u str (TChar c) = (isSpace u c \<and> str)"
| "after_str u str (TString s) = True"
| "after_str u str (TQString o' s) = True"
| "after_str u str t = False"

definition after_prev :: "token \<Rightarrow> rune" where
  "after_prev t = (case t of TBind n \<Rightarrow> 58 | TLine s \<Rightarrow> 10 | _ \<Rightarrow> last (token_text t))"

fun tokens_ok :: "unicode \<Rightarrow> bool \<Rightarrow> rune \<Rightarrow> token list \<Rightarrow> bool" where
  "tokens_ok u str prev [] = True"
| "tokens_ok u str prev (t # ts) \<longleftrightarrow>
     token_ok u str prev t (sql_text ts) \<and> tokens_ok u (after_str u str t) (after_prev t) ts"

text \<open>The names in order, and how the kind of statement collects them.\<close>

definition bind_value :: "unicode \<Rightarrow> rune list \<Rightarrow> rune list" where
  "bind_value u n = (if isDigit u (hd n) then n else map (toUpper u) n)"

definition token_binds :: "unicode \<Rightarrow> token list \<Rightarrow> rune list list" where
  "token_binds u ts = concat (map (\<lambda>t. case t of TBind n \<Rightarrow> [bind_value u n] | _ \<Rightarrow> []) ts)"

fun collect :: "StatementKind \<Rightarrow> rune list list \<Rightarrow> rune list list \<Rightarrow> rune list list" where
  "collect k acc [] = acc"
| "collect k acc (n # ns) = collect k (if k = KindPLSQL \<and> n \<in> set acc then acc else acc @ [n]) ns"

subsection \<open>Skipping\<close>

lemma drop_ConsD: "drop pos rs = x # xs \<Longrightarrow> pos < length rs \<and> rs ! pos = x \<and> drop (Suc pos) rs = xs"
  by (metis Cons_nth_drop_Suc drop_all leI list.distinct(1) list.inject)

lemma drop_appendD: "drop pos rs = xs @ ys \<Longrightarrow> drop (pos + length xs) rs = ys"
  by (metis add.commute append_eq_conv_conj drop_drop)

lemma drop_nth: "drop pos rs = xs \<Longrightarrow> xs \<noteq> [] \<Longrightarrow> pos < length rs \<and> rs ! pos = hd xs"
  by (cases xs) (auto dest: drop_ConsD)

lemma drop_starts: "drop pos rs = xs \<Longrightarrow> pos < length rs \<and> P (rs ! pos) \<longleftrightarrow> starts P xs"
  by (cases xs) (auto simp: starts_def dest: drop_ConsD)

lemma skipQuoted_loop_at:
  "drop pos rs = double_quotes q s @ q # post \<Longrightarrow> \<not> starts ((=) q) post \<Longrightarrow>
    skipQuoted_loop rs pos q = pos + length (double_quotes q s)"
proof (induction s arbitrary: pos)
  case Nil
  then have d: "pos < length rs" "rs ! pos = q" "drop (Suc pos) rs = post"
    by (auto simp: double_quotes_def dest: drop_ConsD)
  have "\<not> (Suc pos < length rs \<and> rs ! Suc pos = q)"
    using drop_starts [OF d(3), of "(=) q"] Nil.prems(2) by auto
  then show ?case using d by (subst skipQuoted_loop.simps) (auto simp: double_quotes_def)
next
  case (Cons c s)
  show ?case
  proof (cases "c = q")
    case True
    then have e: "drop pos rs = q # q # double_quotes q s @ q # post" using Cons.prems(1) by (simp add: double_quotes_def)
    then have d: "pos < length rs" "rs ! pos = q" "Suc pos < length rs" "rs ! Suc pos = q"
      "drop (Suc (Suc pos)) rs = double_quotes q s @ q # post"
      by (auto dest!: drop_ConsD)
    then show ?thesis using Cons.IH [OF d(5) Cons.prems(2)] True
      by (subst skipQuoted_loop.simps) (simp add: double_quotes_def)
  next
    case False
    then have e: "drop pos rs = c # double_quotes q s @ q # post" using Cons.prems(1) by (simp add: double_quotes_def)
    then have d: "pos < length rs" "rs ! pos = c" "drop (Suc pos) rs = double_quotes q s @ q # post"
      by (auto dest!: drop_ConsD)
    then show ?thesis using Cons.IH [OF d(3) Cons.prems(2)] False
      by (subst skipQuoted_loop.simps) (simp add: double_quotes_def)
  qed
qed

lemma scan_while_at:
  "drop j rs = xs @ post \<Longrightarrow> \<forall>c \<in> set xs. P c \<Longrightarrow> \<not> starts P post \<Longrightarrow> scan_while P rs j = j + length xs"
proof (induction xs arbitrary: j)
  case Nil
  then show ?case using drop_starts [of j rs post P] by (subst scan_while.simps) auto
next
  case (Cons x xs)
  then have "j < length rs" "rs ! j = x" "drop (Suc j) rs = xs @ post" by (auto dest: drop_ConsD)
  then show ?case using Cons by (subst scan_while.simps) auto
qed

lemma skipQString_loop_at:
  "drop pos rs = s @ sep # 39 # post \<Longrightarrow> no_pair sep 39 s \<Longrightarrow> sep \<noteq> 39 \<Longrightarrow>
    skipQString_loop rs pos sep = pos + length s + 1"
proof (induction s arbitrary: pos)
  case Nil
  then have "Suc pos < length rs" "rs ! pos = sep" "rs ! Suc pos = 39" by (auto dest!: drop_ConsD)
  then show ?case by (subst skipQString_loop.simps) simp
next
  case (Cons c s)
  then have d: "rs ! pos = c" "drop (Suc pos) rs = s @ sep # 39 # post" by (auto dest: drop_ConsD)
  have "Suc pos < length rs" "rs ! Suc pos = hd (s @ [sep])"
    using drop_nth [OF d(2)] by (cases s; simp)+
  moreover have "\<not> (c = sep \<and> hd (s @ [sep]) = 39)" "no_pair sep 39 s"
    using Cons.prems(2,3) by (cases s; simp)+
  ultimately show ?case using Cons.IH [OF d(2)] Cons.prems(3) d(1)
    by (subst skipQString_loop.simps) auto
qed

lemma index_close_at: "no_pair 42 47 s \<Longrightarrow> index_close (s @ 42 # 47 # post) = Some (length s)"
proof (induction s)
  case (Cons c s)
  then show ?case by (cases s) auto
qed simp

subsection \<open>One token\<close>

definition at_state :: "StatementKind \<Rightarrow> rune list list \<Rightarrow> bool \<Rightarrow> rune \<Rightarrow> parse_state \<Rightarrow> bool" where
  "at_state k acc str prev p \<longleftrightarrow> initialKeywordFound p \<and> kind p = k \<and> bindNames p = acc \<and> seen p = set acc \<and>
     lastWasString p = str \<and> lastCh p = prev"

lemma at_track: "at_state k acc str prev p \<Longrightarrow> at_state k acc str prev (track_word u rs pos p)"
  by (simp add: at_state_def track_word_def end_of_word_def Let_def)

lemma parse_loop_step:
  "pos < length rs \<Longrightarrow> initialKeywordFound p \<Longrightarrow>
    parse_loop u rs pos p = parse_loop u rs (snd (parse_step u rs pos p)) (fst (parse_step u rs pos p))"
  by (subst parse_loop.simps) (simp add: ddl_stop_def)

lemma advance_at:
  assumes "at_state k acc str prev p" "drop pos rs = xs" "xs \<noteq> []" "P = hd xs"
  shows "at_state k acc str P (fst (advance u rs pos p))" "snd (advance u rs pos p) = pos + 1"
  using assms drop_nth [OF assms(2,3)] by (simp_all add: advance_def at_state_def)

text \<open>Iterations by the kind of rune they start at.\<close>

lemma step_quote:
  assumes "at_state k acc str prev p" "drop pos rs = 39 # xs"
    "q = (if prev = 113 \<or> prev = 81 then skipQString rs pos else skipQuoted rs pos 39)" "drop q rs = 39 # ys"
  shows "at_state k acc True 39 (fst (parse_step u rs pos p)) \<and> snd (parse_step u rs pos p) = q + 1"
proof -
  define p1 where "p1 = track_word u rs pos p"
  have p1: "at_state k acc str prev p1" using at_track [OF assms(1)] by (simp add: p1_def)
  then have "at_state k acc True prev (p1\<lparr>lastWasString := True\<rparr>)" by (simp add: at_state_def)
  note adv = advance_at [OF this assms(4), of 39 u]
  have "parse_step u rs pos p = advance u rs q (p1\<lparr>lastWasString := True\<rparr>)"
    using drop_ConsD [OF assms(2)] p1 assms(3) by (simp add: parse_step_def Let_def p1_def [symmetric] at_state_def)
  then show ?thesis using adv by simp
qed

lemma step_space:
  assumes "at_state k acc str prev p" "drop pos rs = c # xs" "isSpace u c" "c \<noteq> 39"
  shows "at_state k acc str c (fst (parse_step u rs pos p)) \<and> snd (parse_step u rs pos p) = pos + 1"
  using advance_at [OF at_track [OF assms(1), of u rs pos] assms(2), of c u] drop_ConsD [OF assms(2)] assms(3,4)
  by (simp add: parse_step_def Let_def)

lemma step_other:
  assumes "at_state k acc str prev p" "drop pos rs = c # xs" "\<not> isSpace u c" "c \<noteq> 39"
    "c = 58 \<longrightarrow> str \<or> fst (parseBindName u rs pos) = []" "drop (skip_other rs pos) rs = d # ys"
  shows "at_state k acc False d (fst (parse_step u rs pos p)) \<and> snd (parse_step u rs pos p) = skip_other rs pos + 1"
proof -
  define p1 where "p1 = track_word u rs pos p"
  have p1: "at_state k acc str prev p1" using at_track [OF assms(1)] by (simp add: p1_def)
  then have "at_state k acc False prev (p1\<lparr>lastWasString := False\<rparr>)" by (simp add: at_state_def)
  note adv = advance_at [OF this assms(6), of d u]
  have "parse_step u rs pos p = advance u rs (skip_other rs pos) (p1\<lparr>lastWasString := False\<rparr>)"
    using drop_ConsD [OF assms(2)] p1 assms(3-5) by (auto simp: parse_step_def Let_def p1_def [symmetric] at_state_def)
  then show ?thesis using adv by simp
qed

lemma collect_single: "collect k acc [n] = (if k = KindPLSQL \<and> n \<in> set acc then acc else acc @ [n])"
  by simp

lemma step_bind:
  assumes "at_state k acc False prev p" "drop pos rs = 58 # xs" "\<not> isSpace u 58"
    "parseBindName u rs pos = (n, next)" "n \<noteq> []"
  shows "at_state k (collect k acc [n]) False 58 (fst (parse_step u rs pos p)) \<and> snd (parse_step u rs pos p) = next + 1"
proof -
  define p1 where "p1 = track_word u rs pos p"
  have p1: "at_state k acc False prev p1" using at_track [OF assms(1)] by (simp add: p1_def)
  have "parse_step u rs pos p = ((addBind n p1)\<lparr>lastWasString := False, lastWasAlpha := False, lastCh := 58\<rparr>, next + 1)"
    using drop_ConsD [OF assms(2)] p1 assms(3-5) by (simp add: parse_step_def Let_def p1_def [symmetric] at_state_def)
  then show ?thesis using p1 by (auto simp: at_state_def addBind_def)
qed

lemma rslice_at: "drop a rs = xs @ ys \<Longrightarrow> rslice rs a (a + length xs) = xs"
  by (simp add: rslice_def)

lemma bind_name_first:
  assumes "unicode_laws u" "bind_name u n"
  shows "\<not> isSpace u (hd n) \<and> hd n \<noteq> 34 \<and> n \<noteq> [] \<and> (isDigit u (hd n) \<or> isLetter u (hd n))"
proof -
  have "isLetter u (hd n) \<or> isDigit u (hd n)" "n \<noteq> []" using assms(2) by (auto simp: bind_name_def)
  moreover have "\<not> isLetter u 34" "\<not> isDigit u 34"
    using assms(1) by (auto simp: unicode_laws_def unicode_ascii_def ascii_letter_def ascii_digit_def)
  ultimately show ?thesis using assms(1) unfolding unicode_laws_def by metis
qed

lemma parseBindName_at:
  assumes "unicode_laws u" "drop pos rs = 58 # n @ rest" "bind_name u n"
    "\<not> starts (if isDigit u (hd n) then isDigit u else name_char u) rest"
  shows "parseBindName u rs pos = (bind_value u n, pos + length n)"
proof -
  have d: "drop (Suc pos) rs = n @ rest" using assms(2) by (auto dest: drop_ConsD)
  note f = bind_name_first [OF assms(1,3)]
  have h: "Suc pos < length rs" "rs ! Suc pos = hd n" using drop_nth [OF d] f by (cases n; simp)+
  have i: "scan_while (isSpace u) rs (Suc pos) = Suc pos"
    using f h by (subst scan_while.simps) simp
  have j: "scan_while P rs (Suc pos) = Suc pos + length n" if "\<forall>c \<in> set n. P c" "\<not> starts P rest" for P
    by (rule scan_while_at [OF d that])
  have dig: "isDigit u (hd n) \<Longrightarrow> \<forall>c \<in> set n. isDigit u c" and let': "\<not> isDigit u (hd n) \<Longrightarrow> \<forall>c \<in> set n. name_char u c"
    using assms(1,3) by (auto simp: bind_name_def unicode_laws_def)
  show ?thesis
    using f h j [of "isDigit u"] j [of "name_char u"] dig let' assms(4) rslice_at [OF d]
    by (auto simp: parseBindName_def Let_def i bind_value_def)
qed

lemma not_starts_dropWhile: "\<not> starts P (dropWhile P xs)"
  by (induction xs) (auto simp: starts_def)

lemma parseBindName_none:
  assumes "unicode_laws u" "drop pos rs = 58 # rest"
    "\<not> starts (\<lambda>c. c = 34 \<or> isDigit u c \<or> isLetter u c) (dropWhile (isSpace u) rest)"
  shows "fst (parseBindName u rs pos) = []"
proof -
  define sp where "sp = takeWhile (isSpace u) rest"
  define post where "post = dropWhile (isSpace u) rest"
  have d: "drop (Suc pos) rs = sp @ post" using assms(2) by (auto simp: sp_def post_def dest: drop_ConsD)
  have i: "scan_while (isSpace u) rs (Suc pos) = Suc pos + length sp"
    by (rule scan_while_at [OF d]) (auto simp: sp_def post_def not_starts_dropWhile dest: set_takeWhileD)
  have "drop (Suc pos + length sp) rs = post" using drop_appendD [OF d] by simp
  from drop_starts [OF this, of "\<lambda>c. c = 34 \<or> isDigit u c \<or> isLetter u c"] show ?thesis
    using assms(3) by (auto simp: parseBindName_def Let_def i post_def [symmetric])
qed

text \<open>One token is consumed by one or more iterations.\<close>

definition consumes :: "unicode \<Rightarrow> rune list \<Rightarrow> nat \<Rightarrow> parse_state \<Rightarrow> nat \<Rightarrow> StatementKind \<Rightarrow> rune list list \<Rightarrow>
    bool \<Rightarrow> rune \<Rightarrow> bool" where
  "consumes u rs pos p n k acc str prev \<longleftrightarrow>
     (\<exists>p'. parse_loop u rs pos p = parse_loop u rs (pos + n) p' \<and> at_state k acc str prev p')"

lemma consumes_step:
  assumes "drop pos rs = x # xs" "at_state k0 acc0 str0 prev0 p"
    "at_state k acc str prev (fst (parse_step u rs pos p)) \<and> snd (parse_step u rs pos p) = pos + n"
  shows "consumes u rs pos p n k acc str prev"
  unfolding consumes_def
  using parse_loop_step [of pos rs p u] drop_ConsD [OF assms(1)] assms(2,3) by (auto simp: at_state_def)

lemma drop_to: "drop pos rs = xs @ y # ys \<Longrightarrow> n = length xs \<Longrightarrow> drop (pos + n) rs = y # ys"
  using drop_appendD by blast

lemma consumes_token:
  assumes u: "unicode_laws u" and p: "at_state k acc str prev p" and d: "drop pos rs = token_text t @ rest"
    and ok: "token_ok u str prev t rest"
  shows "consumes u rs pos p (length (token_text t)) k (collect k acc (token_binds u [t])) (after_str u str t) (after_prev t)"
proof (cases t)
  case (TChar c)
  have d': "drop pos rs = c # rest" using d TChar by simp
  have c: "c \<noteq> 39" "c \<noteq> 34" using ok TChar by (auto simp: special_def)
  show ?thesis
  proof (cases "isSpace u c")
    case True
    show ?thesis using consumes_step [OF d' p step_space [OF p d' True c(1)]] TChar True
      by (simp add: token_binds_def after_prev_def)
  next
    case False
    have next': "drop (Suc pos) rs = rest" using drop_ConsD [OF d'] by simp
    have so: "skip_other rs pos = pos"
      using drop_ConsD [OF d'] drop_starts [OF next', of "(=) 45"] drop_starts [OF next', of "(=) 42"] ok TChar c
      by (auto simp: skip_other_def Let_def)
    have "c = 58 \<longrightarrow> str \<or> fst (parseBindName u rs pos) = []"
      using parseBindName_none [OF u, of pos rs rest] d' ok TChar by auto
    from step_other [OF p d' False c(1) this] so d'
    have "at_state k acc False c (fst (parse_step u rs pos p)) \<and> snd (parse_step u rs pos p) = pos + 1" by simp
    from consumes_step [OF d' p this] show ?thesis using TChar False
      by (simp add: token_binds_def after_prev_def)
  qed
next
  case (TString s)
  have d': "drop pos rs = 39 # double_quotes 39 s @ 39 # rest" using d TString by simp
  then have d2: "drop (Suc pos) rs = double_quotes 39 s @ 39 # rest" by (auto dest: drop_ConsD)
  have q: "skipQuoted rs pos 39 = Suc pos + length (double_quotes 39 s)"
    using skipQuoted_loop_at [OF d2] ok TString by (simp add: skipQuoted_def)
  have e: "drop (Suc pos + length (double_quotes 39 s)) rs = 39 # rest" by (rule drop_to [OF d2 refl])
  have "at_state k acc True 39 (fst (parse_step u rs pos p)) \<and> snd (parse_step u rs pos p) = Suc pos + length (double_quotes 39 s) + 1"
    by (rule step_quote [OF p d' _ e]) (use ok TString q in simp)
  then have "at_state k acc True 39 (fst (parse_step u rs pos p)) \<and> snd (parse_step u rs pos p) = pos + length (token_text t)"
    using TString by simp
  from consumes_step [OF d' p this] show ?thesis using TString by (simp add: token_binds_def after_prev_def)
next
  case (TQString o' s)
  let ?c = "closing_sep o'"
  have d': "drop pos rs = 39 # (o' # s) @ ?c # 39 # rest" using d TQString by simp
  then have d1: "drop (Suc pos) rs = o' # s @ ?c # 39 # rest" by (auto dest: drop_ConsD)
  then have d2: "drop (Suc (Suc pos)) rs = s @ ?c # 39 # rest" by (auto dest: drop_ConsD)
  have "skipQString_loop rs (Suc (Suc pos)) ?c = Suc (Suc pos) + length s + 1"
    by (rule skipQString_loop_at [OF d2]) (use ok TQString in auto)
  then have q: "skipQString rs pos = Suc (Suc pos) + length s + 1"
    using drop_ConsD [OF d1] by (simp add: skipQString_def)
  have "drop (Suc (Suc pos) + length s) rs = ?c # 39 # rest" by (rule drop_to [OF d2 refl])
  then have e: "drop (Suc (Suc pos) + length s + 1) rs = 39 # rest" by (auto dest: drop_ConsD)
  have "at_state k acc True 39 (fst (parse_step u rs pos p)) \<and> snd (parse_step u rs pos p) = Suc (Suc pos) + length s + 1 + 1"
    by (rule step_quote [OF p d' _ e]) (use ok TQString q in auto)
  then have "at_state k acc True 39 (fst (parse_step u rs pos p)) \<and> snd (parse_step u rs pos p) = pos + length (token_text t)"
    using TQString by simp
  from consumes_step [OF d' p this] show ?thesis using TQString by (simp add: token_binds_def after_prev_def)
next
  case (TIdent s)
  have d': "drop pos rs = 34 # double_quotes 34 s @ 34 # rest" using d TIdent by simp
  then have d2: "drop (Suc pos) rs = double_quotes 34 s @ 34 # rest" by (auto dest: drop_ConsD)
  have q: "skip_other rs pos = Suc pos + length (double_quotes 34 s)"
    using skipQuoted_loop_at [OF d2] ok TIdent drop_ConsD [OF d'] by (simp add: skip_other_def skipQuoted_def)
  have e: "drop (skip_other rs pos) rs = 34 # rest" unfolding q by (rule drop_to [OF d2 refl])
  have sp: "\<not> isSpace u 34" using u by (simp add: unicode_laws_def unicode_ascii_def ascii_space_def)
  have "at_state k acc False 34 (fst (parse_step u rs pos p)) \<and> snd (parse_step u rs pos p) = pos + length (token_text t)"
    using step_other [OF p d' sp _ _ e] q TIdent by simp
  from consumes_step [OF d' p this] show ?thesis using TIdent by (simp add: token_binds_def after_prev_def)
next
  case (TLine s)
  have d': "drop pos rs = 45 # (45 # s) @ 10 # rest" using d TLine by simp
  then have d1: "drop (Suc pos) rs = 45 # s @ 10 # rest" by (auto dest: drop_ConsD)
  have d2: "drop pos rs = (45 # 45 # s) @ 10 # rest" using d' by simp
  have "scan_while (\<lambda>c. c \<noteq> 10) rs pos = pos + length (45 # 45 # s)"
    by (rule scan_while_at [OF d2]) (use ok TLine in \<open>auto simp: starts_def\<close>)
  then have q: "skip_other rs pos = pos + length (45 # 45 # s)"
    using drop_ConsD [OF d'] drop_ConsD [OF d1] by (simp add: skip_other_def)
  have e: "drop (skip_other rs pos) rs = 10 # rest" unfolding q by (rule drop_to [OF d2 refl])
  have sp: "\<not> isSpace u 45" using u by (simp add: unicode_laws_def unicode_ascii_def ascii_space_def)
  have "at_state k acc False 10 (fst (parse_step u rs pos p)) \<and> snd (parse_step u rs pos p) = pos + length (token_text t)"
    using step_other [OF p d' sp _ _ e] q TLine by simp
  from consumes_step [OF d' p this] show ?thesis using TLine by (simp add: token_binds_def after_prev_def)
next
  case (TBlock s)
  have d': "drop pos rs = 47 # (42 # s) @ 42 # 47 # rest" using d TBlock by simp
  then have d1: "drop (Suc pos) rs = 42 # s @ 42 # 47 # rest" by (auto dest: drop_ConsD)
  then have d2: "drop (Suc (Suc pos)) rs = s @ 42 # 47 # rest" by (auto dest: drop_ConsD)
  have q: "skip_other rs pos = Suc (Suc pos) + length s + 1"
    using drop_ConsD [OF d'] drop_ConsD [OF d1] index_close_at [of s rest] ok TBlock by (simp add: skip_other_def d2)
  have "drop (Suc (Suc pos) + length s) rs = 42 # 47 # rest" by (rule drop_to [OF d2 refl])
  then have e: "drop (skip_other rs pos) rs = 47 # rest" unfolding q by (auto dest: drop_ConsD)
  have sp: "\<not> isSpace u 47" using u by (simp add: unicode_laws_def unicode_ascii_def ascii_space_def)
  have "at_state k acc False 47 (fst (parse_step u rs pos p)) \<and> snd (parse_step u rs pos p) = pos + length (token_text t)"
    using step_other [OF p d' sp _ _ e] q TBlock by simp
  from consumes_step [OF d' p this] show ?thesis using TBlock by (simp add: token_binds_def after_prev_def)
next
  case (TBind n)
  have d': "drop pos rs = 58 # n @ rest" using d TBind by simp
  have b: "bind_name u n" "\<not> str" using ok TBind by auto
  have nm: "parseBindName u rs pos = (bind_value u n, pos + length n)"
    by (rule parseBindName_at [OF u d' b(1)]) (use ok TBind in simp)
  have ne: "bind_value u n \<noteq> []" using b(1) by (auto simp: bind_name_def bind_value_def)
  have sp: "\<not> isSpace u 58" using u by (simp add: unicode_laws_def unicode_ascii_def ascii_space_def)
  have "at_state k (collect k acc [bind_value u n]) False 58 (fst (parse_step u rs pos p)) \<and>
      snd (parse_step u rs pos p) = pos + length n + 1"
    using step_bind [OF _ d' sp nm ne] p b(2) by simp
  then have "at_state k (collect k acc [bind_value u n]) False 58 (fst (parse_step u rs pos p)) \<and>
      snd (parse_step u rs pos p) = pos + length (token_text t)" using TBind by simp
  from consumes_step [OF d' p this] show ?thesis using TBind by (simp add: token_binds_def after_prev_def)
qed

subsection \<open>The whole statement\<close>

lemma collect_append: "collect k acc (xs @ ys) = collect k (collect k acc xs) ys"
  by (induction xs arbitrary: acc) auto

lemma token_binds_Cons: "token_binds u (t # ts) = token_binds u [t] @ token_binds u ts"
  by (simp add: token_binds_def)

lemma parse_loop_tokens:
  assumes "unicode_laws u"
  shows "at_state k acc str prev p \<Longrightarrow> drop pos rs = sql_text ts \<Longrightarrow> tokens_ok u str prev ts \<Longrightarrow>
    \<exists>str' prev'. at_state k (collect k acc (token_binds u ts)) str' prev' (parse_loop u rs pos p)"
proof (induction ts arbitrary: acc str prev p pos)
  case Nil
  then have "parse_loop u rs pos p = p" by (subst parse_loop.simps) (simp add: sql_text_def)
  then show ?case using Nil.prems(1) by (auto simp: token_binds_def)
next
  case (Cons t ts)
  have d: "drop pos rs = token_text t @ sql_text ts" using Cons.prems(2) by (simp add: sql_text_def)
  obtain p' where p': "parse_loop u rs pos p = parse_loop u rs (pos + length (token_text t)) p'"
    "at_state k (collect k acc (token_binds u [t])) (after_str u str t) (after_prev t) p'"
    using consumes_token [OF assms Cons.prems(1) d] Cons.prems(3) unfolding consumes_def by auto
  show ?case
    using Cons.IH [OF p'(2) drop_appendD [OF d]] Cons.prems(3)
    by (simp add: p'(1) token_binds_Cons [of u t ts] collect_append)
qed

text \<open>The state after \<open>i\<close> letters of the first word.\<close>

definition in_first_word :: "rune list \<Rightarrow> nat \<Rightarrow> parse_state \<Rightarrow> bool" where
  "in_first_word w i p \<longleftrightarrow> \<not> initialKeywordFound p \<and> kind p = KindUnknown \<and> bindNames p = [] \<and> seen p = {} \<and>
     \<not> lastWasString p \<and> \<not> returningKeywordFound p \<and>
     (if i = 0 then \<not> lastWasAlpha p else lastWasAlpha p \<and> alphaStart p = 0 \<and> lastCh p = w ! (i - 1))"

lemma first_word_step:
  assumes u: "unicode_laws u" and w: "\<forall>c \<in> set w. isLetter u c" and i: "i < length w" and p: "in_first_word w i p"
  shows "\<exists>p'. parse_loop u (w @ rest) i p = parse_loop u (w @ rest) (Suc i) p' \<and> in_first_word w (Suc i) p'"
proof -
  have c: "(w @ rest) ! i = w ! i" "isLetter u (w ! i)" using i w by (simp_all add: nth_append)
  then have ne: "w ! i \<noteq> 39" "w ! i \<noteq> 58" "w ! i \<noteq> 45" "w ! i \<noteq> 47" "w ! i \<noteq> 34" "\<not> isSpace u (w ! i)"
    using u by (auto simp: unicode_laws_def unicode_ascii_def ascii_letter_def)
  have so: "skip_other (w @ rest) i = i" using c(1) ne by (simp add: skip_other_def Let_def)
  have st: "parse_step u (w @ rest) i p = advance u (w @ rest) i ((track_word u (w @ rest) i p)\<lparr>lastWasString := False\<rparr>)"
    using c ne so by (simp add: parse_step_def Let_def)
  have nd: "\<not> ddl_stop u (w @ rest) i p" using c by (simp add: ddl_stop_def)
  have "parse_loop u (w @ rest) i p = parse_loop u (w @ rest) (snd (parse_step u (w @ rest) i p)) (fst (parse_step u (w @ rest) i p))"
    using i nd by (subst parse_loop.simps) simp
  moreover have "snd (parse_step u (w @ rest) i p) = Suc i" "in_first_word w (Suc i) (fst (parse_step u (w @ rest) i p))"
    using st i c p by (cases "i = 0"; simp add: advance_def track_word_def in_first_word_def)+
  ultimately show ?thesis by metis
qed

lemma first_word:
  assumes "unicode_laws u" "\<forall>c \<in> set w. isLetter u c" "i \<le> length w"
  shows "\<exists>p. parse_loop u (w @ rest) 0 parse_init = parse_loop u (w @ rest) i p \<and> in_first_word w i p"
  using assms(3)
proof (induction i)
  case 0
  have "in_first_word w 0 parse_init" by (simp add: in_first_word_def parse_init_def)
  then show ?case by blast
next
  case (Suc i)
  then obtain p where "parse_loop u (w @ rest) 0 parse_init = parse_loop u (w @ rest) i p" "in_first_word w i p" by auto
  then show ?case using first_word_step [OF assms(1,2), of i p rest] Suc.prems by auto
qed

text \<open>
  The first word fixes the kind when it ends: the iteration there is the one of a state that has
  the kind already, because no DML keyword is \<open>RETURNING\<close>.
\<close>

lemma keyword_step:
  assumes "in_first_word w (length w) p" "w \<noteq> []" "\<not> starts (isLetter u) rest" "rest \<noteq> []"
    "k = determineKind (map (toUpper u) w)" "k \<noteq> KindDDL"
  shows "parse_loop u (w @ rest) (length w) p = parse_loop u (w @ rest) (length w) (p\<lparr>kind := k, initialKeywordFound := True\<rparr>)"
proof -
  have nl: "\<not> isLetter u ((w @ rest) ! length w)" "length w < length (w @ rest)"
    using assms(3,4) by (auto simp: starts_def hd_conv_nth nth_append)
  have slice: "rslice (w @ rest) 0 (length w) = w" by (simp add: rslice_def)
  have a: "alphaStart p = 0" "lastWasAlpha p" "\<not> initialKeywordFound p" "\<not> returningKeywordFound p"
    using assms(1,2) by (auto simp: in_first_word_def)
  let ?p = "p\<lparr>kind := k, initialKeywordFound := True\<rparr>"
  have "determineKind (runes ''RETURNING'') \<noteq> KindDML" by code_simp
  then have t: "track_word u (w @ rest) (length w) p = track_word u (w @ rest) (length w) ?p"
    using nl a assms(5) slice by (auto simp: track_word_def end_of_word_def Let_def)
  have "\<not> ddl_stop u (w @ rest) (length w) p" "\<not> ddl_stop u (w @ rest) (length w) ?p"
    using nl a slice assms(5,6) by (simp_all add: ddl_stop_def)
  moreover have "parse_step u (w @ rest) (length w) p = parse_step u (w @ rest) (length w) ?p"
    by (simp add: parse_step_def t)
  ultimately show ?thesis
    using nl(2) by (simp add: parse_loop.simps [of u "w @ rest" "length w"])
qed

lemma scan_tokens:
  assumes "unicode_laws u" "w \<noteq> []" "\<forall>c \<in> set w. isLetter u c" "\<not> starts (isLetter u) (sql_text ts)"
    "tokens_ok u False (last w) ts" "determineKind (map (toUpper u) w) \<noteq> KindDDL"
  shows "kind (parseSQL u (w @ sql_text ts)) = determineKind (map (toUpper u) w) \<and>
    bindNames (parseSQL u (w @ sql_text ts)) = collect (determineKind (map (toUpper u) w)) [] (token_binds u ts)"
proof -
  define k where "k = determineKind (map (toUpper u) w)"
  obtain p where p: "parse_loop u (w @ sql_text ts) 0 parse_init = parse_loop u (w @ sql_text ts) (length w) p"
    "in_first_word w (length w) p"
    using first_word [OF assms(1,3) le_refl] by blast
  show ?thesis
  proof (cases "sql_text ts = []")
    case True
    then have "ts = []" by (cases ts; cases "hd ts") (auto simp: sql_text_def)
    moreover have "parse_loop u (w @ sql_text ts) (length w) p = p"
      using True by (subst parse_loop.simps) simp
    ultimately show ?thesis
      using p assms(2) by (simp add: parseSQL_def parse_finish_def in_first_word_def parsedSQL.truncate_def sql_text_def token_binds_def)
  next
    case False
    let ?p = "p\<lparr>kind := k, initialKeywordFound := True\<rparr>"
    have e: "parse_loop u (w @ sql_text ts) 0 parse_init = parse_loop u (w @ sql_text ts) (length w) ?p"
      using keyword_step [OF p(2) assms(2,4) False k_def] assms(6) p(1) by (simp add: k_def)
    have "at_state k [] False (last w) ?p"
      using p(2) assms(2) by (auto simp: at_state_def in_first_word_def last_conv_nth)
    from parse_loop_tokens [OF assms(1) this, of "length w" "w @ sql_text ts" ts] assms(5)
    obtain str' prev' where "at_state k (collect k [] (token_binds u ts)) str' prev' (parse_loop u (w @ sql_text ts) (length w) ?p)"
      by auto
    then show ?thesis
      by (simp add: parseSQL_def e parse_finish_def at_state_def parsedSQL.truncate_def k_def)
  qed
qed

text \<open>The scan of a DDL statement stops after its keyword.\<close>

lemma scan_ddl:
  assumes "unicode_laws u" "w \<noteq> []" "\<forall>c \<in> set w. isLetter u c" "\<not> starts (isLetter u) rest"
    "determineKind (map (toUpper u) w) = KindDDL"
  shows "kind (parseSQL u (w @ rest)) = KindDDL \<and> bindNames (parseSQL u (w @ rest)) = []"
proof -
  obtain p where p: "parse_loop u (w @ rest) 0 parse_init = parse_loop u (w @ rest) (length w) p" "in_first_word w (length w) p"
    using first_word [OF assms(1,3) le_refl] by blast
  have f: "alphaStart p = 0" "lastWasAlpha p" "\<not> initialKeywordFound p" "bindNames p = []"
    using p(2) assms(2) by (auto simp: in_first_word_def)
  show ?thesis
  proof (cases "rest = []")
    case True
    then have "parse_loop u (w @ rest) (length w) p = p" by (subst parse_loop.simps) simp
    then show ?thesis using p(1) f assms(2,5) True by (simp add: parseSQL_def parse_finish_def parsedSQL.truncate_def)
  next
    case False
    then have nl: "\<not> isLetter u ((w @ rest) ! length w)" "length w < length (w @ rest)"
      using assms(4) by (auto simp: starts_def hd_conv_nth nth_append)
    have slice: "rslice (w @ rest) 0 (length w) = w" by (simp add: rslice_def)
    have "ddl_stop u (w @ rest) (length w) p" using nl f slice assms(5) by (simp add: ddl_stop_def)
    then have "parse_loop u (w @ rest) (length w) p = track_word u (w @ rest) (length w) p"
      using nl(2) by (subst parse_loop.simps) simp
    then show ?thesis using p(1) nl f slice assms(5)
      by (simp add: parseSQL_def parse_finish_def parsedSQL.truncate_def track_word_def end_of_word_def Let_def)
  qed
qed

text \<open>
  Property C14. A statement made of a keyword and tokens has the kind of its keyword. Its bind variables are exactly
  the bind tokens, in order and in the normalised spelling, with repeated names dropped in PL/SQL: nothing inside
  string literals, q-strings, quoted identifiers or comments is taken for a bind variable, and no bind variable after
  them is missed. A DDL statement has none, whatever follows its keyword: the \<open>:new\<close> of a trigger is no bind variable.
\<close>

theorem parseSQL_tokens:
  assumes "unicode_laws u" "w \<noteq> []" "\<forall>c \<in> set w. isLetter u c" "\<not> starts (isLetter u) (sql_text ts)"
    "determineKind (map (toUpper u) w) = KindDDL \<or> tokens_ok u False (last w) ts"
  defines "k \<equiv> determineKind (map (toUpper u) w)"
  shows "kind (parseSQL u (w @ sql_text ts)) = k \<and>
    bindNames (parseSQL u (w @ sql_text ts)) = (if k = KindDDL then [] else collect k [] (token_binds u ts))"
  using scan_tokens [OF assms(1-4)] scan_ddl [OF assms(1-4)] assms(5) unfolding k_def by auto

text \<open>\<open>select ':x',q'[:y]'||:Ab--:z\<close> and a newline, \<open>:1\<close>.\<close>

definition sql_example :: "token list" where
  "sql_example = [TChar 32, TString [58, 120], TChar 44, TChar 113, TQString 91 [58, 121], TChar 124, TChar 124,
     TBind [65, 98], TLine [58, 122], TBind [49]]"

theorem parseSQL_tokens_witness:
  "kind (parseSQL ascii_unicode (runes ''select'' @ sql_text sql_example)) = KindQuery \<and>
   bindNames (parseSQL ascii_unicode (runes ''select'' @ sql_text sql_example)) = [runes ''AB'', runes ''1'']"
proof -
  have k: "determineKind (map (toUpper ascii_unicode) (runes ''select'')) = KindQuery" by code_simp
  have c: "collect KindQuery [] (token_binds ascii_unicode sql_example) = [runes ''AB'', runes ''1'']" by code_simp
  have "runes ''select'' \<noteq> []" "\<forall>c \<in> set (runes ''select''). isLetter ascii_unicode c"
    "\<not> starts (isLetter ascii_unicode) (sql_text sql_example)" "tokens_ok ascii_unicode False (last (runes ''select'')) sql_example"
    by code_simp+
  from parseSQL_tokens [OF ascii_unicode_ok this(1-3) disjI2 [OF this(4)]]
  show ?thesis unfolding k c by simp
qed

subsection \<open>Words inside identifiers\<close>

text \<open>
  A word ends at any rune that is not a letter, so parts of an identifier count as keywords: this
  update has no \<open>RETURNING\<close> clause.
\<close>

lemma parseSQL_returning_in_identifier:
  "isReturning (parseSQL ascii_unicode (runes ''update t set returning_x = :1 where into_y = :2''))"
  by code_simp

end
