(* ===== verification/TnsCaps.thy ===== *)
theory TnsCaps
  imports Prelude
begin

text \<open>
  \<^verbatim>\<open>internal/tns/constants.go\<close> and \<^verbatim>\<open>internal/tns/caps.go\<close>: the protocol constants and the negotiated
  capability set. The constants that are numbers of a fixed width in the code are words of that width.
\<close>

subsection \<open>Constants\<close>

definition PacketTypeConnect :: u8 where "PacketTypeConnect = 1"
definition PacketTypeAccept :: u8 where "PacketTypeAccept = 2"
definition PacketTypeRefuse :: u8 where "PacketTypeRefuse = 4"
definition PacketTypeRedirect :: u8 where "PacketTypeRedirect = 5"
definition PacketTypeData :: u8 where "PacketTypeData = 6"
definition PacketTypeResend :: u8 where "PacketTypeResend = 11"
definition PacketTypeMarker :: u8 where "PacketTypeMarker = 12"
definition PacketTypeControl :: u8 where "PacketTypeControl = 14"

definition PacketFlagRedirect :: u8 where "PacketFlagRedirect = 0x04"
definition PacketFlagTLSReneg :: u8 where "PacketFlagTLSReneg = 0x08"

definition DataFlagsEndOfRequest :: u16 where "DataFlagsEndOfRequest = 0x800"
definition DataFlagsEndOfResponse :: u16 where "DataFlagsEndOfResponse = 0x2000"
definition DataFlagsEOF :: u16 where "DataFlagsEOF = 0x0040"

definition MarkerTypeBreak :: u8 where "MarkerTypeBreak = 1"
definition MarkerTypeReset :: u8 where "MarkerTypeReset = 2"

definition ControlTypeInbandNotification :: u16 where "ControlTypeInbandNotification = 8"
definition ControlTypeResetOOB :: u16 where "ControlTypeResetOOB = 9"

definition VersionDesired :: u16 where "VersionDesired = 319"
definition VersionMinimum :: u16 where "VersionMinimum = 300"
definition VersionMinAccepted :: u16 where "VersionMinAccepted = 315"
definition VersionMinLargeSDU :: u16 where "VersionMinLargeSDU = 315"
definition VersionMinOOBCheck :: u16 where "VersionMinOOBCheck = 318"
definition VersionMinEndOfResponse :: u16 where "VersionMinEndOfResponse = 319"

definition GSODontCare :: u16 where "GSODontCare = 0x0001"
definition GSOCanRecvAttention :: u16 where "GSOCanRecvAttention = 0x0400"
definition NSINARequired :: u8 where "NSINARequired = 0x10"
definition NSIDisableNA :: u8 where "NSIDisableNA = 0x04"
definition NSISupportSecurityRen :: u8 where "NSISupportSecurityRen = 0x80"
definition ProtocolCharacteristics :: u16 where "ProtocolCharacteristics = 0x4f98"
definition CheckOOB :: u32 where "CheckOOB = 0x01"
definition MaxConnectData :: nat where "MaxConnectData = 230"

definition AcceptFlagCheckOOB :: u32 where "AcceptFlagCheckOOB = 0x00000001"
definition AcceptFlagFastAuth :: u32 where "AcceptFlagFastAuth = 0x10000000"
definition AcceptFlagHasEndOfResponse :: u32 where "AcceptFlagHasEndOfResponse = 0x02000000"

definition MsgTypeEndOfResponse :: u8 where "MsgTypeEndOfResponse = 29"

definition ErrInbandMessage :: u32 where "ErrInbandMessage = 12573"
definition ErrSessionShutdown :: u32 where "ErrSessionShutdown = 12572"
definition ErrExceededIdleTime :: u32 where "ErrExceededIdleTime = 2396"

definition MaxShortLength :: nat where "MaxShortLength = 252"
definition LongLengthIndicator :: u8 where "LongLengthIndicator = 254"
definition NullLengthIndicator :: u8 where "NullLengthIndicator = 255"
definition ChunkSize :: nat where "ChunkSize = 32767"
definition PacketHeaderSize :: nat where "PacketHeaderSize = 8"
definition DefaultSDU :: u32 where "DefaultSDU = 8192"
definition MaxSDU :: nat where "MaxSDU = 2097152"

lemmas tns_consts =
  PacketTypeConnect_def PacketTypeAccept_def PacketTypeRefuse_def PacketTypeRedirect_def PacketTypeData_def
  PacketTypeResend_def PacketTypeMarker_def PacketTypeControl_def
  DataFlagsEndOfRequest_def DataFlagsEndOfResponse_def DataFlagsEOF_def
  ControlTypeInbandNotification_def ControlTypeResetOOB_def
  MaxShortLength_def LongLengthIndicator_def NullLengthIndicator_def ChunkSize_def PacketHeaderSize_def

text \<open>Indices into the compile-time and runtime capability arrays.\<close>

definition CCapFieldVersion :: nat where "CCapFieldVersion = 7"
definition CCapTTC4 :: nat where "CCapTTC4 = 40"
definition CCapTTC6 :: nat where "CCapTTC6 = 54"
definition CCapMax :: nat where "CCapMax = 55"
definition CCapExplicitBoundary :: u8 where "CCapExplicitBoundary = 0x40"
definition CCapEndOfResponse :: u8 where "CCapEndOfResponse = 0x20"
definition CCapTTC6HAReadiness :: u8 where "CCapTTC6HAReadiness = 0x04"
definition FieldVersion12_2 :: u8 where "FieldVersion12_2 = 8"
definition FieldVersionMax :: u8 where "FieldVersionMax = 24"
definition RCapTTC :: nat where "RCapTTC = 6"
definition RCapMax :: nat where "RCapMax = 11"
definition RCapTTC32K :: u8 where "RCapTTC32K = 0x04"
definition RCapTTCSessionStateOps :: u8 where "RCapTTCSessionStateOps = 0x10"

subsection \<open>The capability set\<close>

record capabilities =
  ProtocolVersion :: u16
  TTCFieldVersion :: u8
  CharsetID :: u16
  NCharsetID :: u16
  CompileCaps :: bytes
  RuntimeCaps :: bytes
  MaxStringSize :: u32
  SupportsFastAuth :: bool
  SupportsOOB :: bool
  SupportsOOBCheck :: bool
  SupportsEndOfResponse :: bool
  SupportsPipelining :: bool
  SupportsRequestBoundaries :: bool
  SupportsHAReadiness :: bool
  SDU :: u32

text \<open>The assignments \<open>cc[i] = v\<close>, in the order of the code.\<close>

definition compile_cap_values :: "u8 \<Rightarrow> (nat \<times> u8) list" where
  "compile_cap_values fieldVersion =
     [(0, 6), (4, 8 OR 2 OR 32 OR 64 OR 0x80), (5, 0x08 OR 0x10), (CCapFieldVersion, fieldVersion),
      (8, 1), (9, 1), (15, 0x20 OR 0x01 OR 0x08), (16, 0x10 OR 0x80), (17, 3), (18, 7), (19, 3), (21, 1),
      (23, 0x01 OR 0x02 OR 0x40 OR 0x08 OR 0x80 OR 0x04), (27, 1), (42, 0x01 OR 0x04),
      (37, 0x10 OR 0x20 OR 0x80 OR 0x08), (26, 0x04), (31, 0x10), (34, 12), (39, FieldVersion12_2),
      (CCapTTC4, 0x04 OR CCapExplicitBoundary), (44, 0x08 OR 0x02 OR 0x04 OR 0x10 OR 0x20),
      (52, 0x01 OR 0x02), (35, 0x20), (CCapTTC6, CCapTTC6HAReadiness), (45, 0x02)]"

definition set_caps :: "(nat \<times> u8) list \<Rightarrow> bytes \<Rightarrow> bytes" where
  "set_caps = fold (\<lambda>(i, v) cc. cc[i := v])"

definition initCompileCaps :: "capabilities \<Rightarrow> capabilities" where
  "initCompileCaps c = c\<lparr>CompileCaps := set_caps (compile_cap_values (TTCFieldVersion c)) (replicate CCapMax 0)\<rparr>"

definition initRuntimeCaps :: "capabilities \<Rightarrow> capabilities" where
  "initRuntimeCaps c = c\<lparr>RuntimeCaps := set_caps [(0, 2), (RCapTTC, 0x01 OR RCapTTC32K)] (replicate RCapMax 0)\<rparr>"

definition NewCapabilities :: capabilities where
  "NewCapabilities = initRuntimeCaps (initCompileCaps
     \<lparr>ProtocolVersion = 0, TTCFieldVersion = FieldVersionMax, CharsetID = 0, NCharsetID = 0, CompileCaps = [],
      RuntimeCaps = [], MaxStringSize = 0, SupportsFastAuth = False, SupportsOOB = False, SupportsOOBCheck = False,
      SupportsEndOfResponse = False, SupportsPipelining = False, SupportsRequestBoundaries = False,
      SupportsHAReadiness = False, SDU = DefaultSDU\<rparr>)"

definition AdjustForProtocol :: "u16 \<Rightarrow> u16 \<Rightarrow> u32 \<Rightarrow> capabilities \<Rightarrow> capabilities" where
  "AdjustForProtocol protocolVersion protocolOptions flags c =
     (let c = c\<lparr>ProtocolVersion := protocolVersion, SupportsOOB := (protocolOptions AND GSOCanRecvAttention \<noteq> 0)\<rparr>;
          c = (if flags AND AcceptFlagFastAuth \<noteq> 0 then c\<lparr>SupportsFastAuth := True\<rparr> else c);
          c = (if flags AND AcceptFlagCheckOOB \<noteq> 0 then c\<lparr>SupportsOOBCheck := True\<rparr> else c)
      in if protocolVersion \<ge> VersionMinEndOfResponse \<and> flags AND AcceptFlagHasEndOfResponse \<noteq> 0 then
           c\<lparr>CompileCaps := (CompileCaps c)[CCapTTC4 := CompileCaps c ! CCapTTC4 OR CCapEndOfResponse],
             SupportsEndOfResponse := True, SupportsPipelining := True\<rparr>
         else c)"

definition AdjustForServerCompileCaps :: "bytes \<Rightarrow> capabilities \<Rightarrow> capabilities" where
  "AdjustForServerCompileCaps server c =
     (let c = (if length server > CCapFieldVersion \<and> server ! CCapFieldVersion < TTCFieldVersion c then
                 c\<lparr>TTCFieldVersion := server ! CCapFieldVersion,
                   CompileCaps := (CompileCaps c)[CCapFieldVersion := server ! CCapFieldVersion]\<rparr>
               else c);
          c = (if length server > CCapTTC4 \<and> server ! CCapTTC4 AND CCapExplicitBoundary \<noteq> 0 then
                 c\<lparr>SupportsRequestBoundaries := True\<rparr> else c)
      in if length server > CCapTTC6 \<and> server ! CCapTTC6 AND CCapTTC6HAReadiness \<noteq> 0 then
           c\<lparr>SupportsHAReadiness := True\<rparr> else c)"

definition AdjustForServerRuntimeCaps :: "bytes \<Rightarrow> capabilities \<Rightarrow> capabilities" where
  "AdjustForServerRuntimeCaps server c =
     (let c = (if length server > RCapTTC \<and> server ! RCapTTC AND RCapTTC32K \<noteq> 0 then c\<lparr>MaxStringSize := 32767\<rparr>
               else c\<lparr>MaxStringSize := 4000\<rparr>)
      in if length server > RCapTTC \<and> server ! RCapTTC AND RCapTTCSessionStateOps = 0 then
           c\<lparr>SupportsRequestBoundaries := False\<rparr> else c)"

subsection \<open>The negotiated version\<close>

text \<open>
  The capability array is complete, and the field version this end announces in it is the one it
  decodes messages with and is never above what it supports.
\<close>

definition caps_ok :: "capabilities \<Rightarrow> bool" where
  "caps_ok c \<longleftrightarrow> length (CompileCaps c) = CCapMax \<and> length (RuntimeCaps c) = RCapMax \<and>
     CompileCaps c ! CCapFieldVersion = TTCFieldVersion c \<and> TTCFieldVersion c \<le> FieldVersionMax"

lemmas caps_adjust_defs = AdjustForProtocol_def AdjustForServerCompileCaps_def AdjustForServerRuntimeCaps_def

lemma NewCapabilities_ok: "caps_ok NewCapabilities"
  by code_simp

lemma AdjustForProtocol_ok: "caps_ok c \<Longrightarrow> caps_ok (AdjustForProtocol v opts flags c)"
  by (simp add: caps_ok_def AdjustForProtocol_def Let_def CCapTTC4_def CCapFieldVersion_def)

lemma AdjustForServerCompileCaps_ok: "caps_ok c \<Longrightarrow> caps_ok (AdjustForServerCompileCaps server c)"
  by (auto simp: caps_ok_def AdjustForServerCompileCaps_def Let_def CCapMax_def CCapFieldVersion_def)

lemma AdjustForServerRuntimeCaps_ok: "caps_ok c \<Longrightarrow> caps_ok (AdjustForServerRuntimeCaps server c)"
  by (simp add: caps_ok_def AdjustForServerRuntimeCaps_def Let_def)

text \<open>
  The events of a negotiation, in any order and number: first those before the server's capabilities arrive, where the
  fast authentication message may be written, which announces a lower version for the data types it bundles and then
  restores the highest one; then what the server sends.
\<close>

datatype opening_event = Opened u16 u16 u32 | FastAuthWritten

fun opening_step :: "opening_event \<Rightarrow> capabilities \<Rightarrow> capabilities" where
  "opening_step (Opened v opts flags) c = AdjustForProtocol v opts flags c"
| "opening_step FastAuthWritten c = c\<lparr>TTCFieldVersion := FieldVersionMax\<rparr>"

datatype caps_event = Accepted u16 u16 u32 | ServerCompileCaps bytes | ServerRuntimeCaps bytes

fun caps_step :: "caps_event \<Rightarrow> capabilities \<Rightarrow> capabilities" where
  "caps_step (Accepted v opts flags) c = AdjustForProtocol v opts flags c"
| "caps_step (ServerCompileCaps server) c = AdjustForServerCompileCaps server c"
| "caps_step (ServerRuntimeCaps server) c = AdjustForServerRuntimeCaps server c"

lemma opening_step_ok:
  "caps_ok c \<and> TTCFieldVersion c = FieldVersionMax \<Longrightarrow> caps_ok (opening_step e c) \<and> TTCFieldVersion (opening_step e c) = FieldVersionMax"
  using AdjustForProtocol_ok by (cases e) (auto simp: AdjustForProtocol_def Let_def caps_ok_def)

lemma opening_ok:
  "caps_ok c \<and> TTCFieldVersion c = FieldVersionMax \<Longrightarrow>
    caps_ok (fold opening_step os c) \<and> TTCFieldVersion (fold opening_step os c) = FieldVersionMax"
  by (induction os arbitrary: c) (simp_all add: opening_step_ok)

lemma caps_step_ok: "caps_ok c \<Longrightarrow> caps_ok (caps_step e c)"
  by (cases e) (simp_all add: AdjustForProtocol_ok AdjustForServerCompileCaps_ok AdjustForServerRuntimeCaps_ok)

lemma caps_step_version: "TTCFieldVersion (caps_step e c) \<le> TTCFieldVersion c"
  by (cases e) (auto simp: caps_adjust_defs Let_def)

text \<open>
  Property C39. Whatever a server sends during a negotiation, and whether or not the client has written a fast
  authentication message before, the client keeps complete capability arrays, decodes with the field version it
  announces, and that version only ever goes down from the maximum it supports.
\<close>

theorem negotiation_keeps_caps:
  "let c0 = fold opening_step os NewCapabilities in
     TTCFieldVersion c0 = FieldVersionMax \<and> caps_ok (fold caps_step es c0) \<and>
     TTCFieldVersion (fold caps_step (es @ es') c0) \<le> TTCFieldVersion (fold caps_step es c0)"
proof -
  define c0 where "c0 = fold opening_step os NewCapabilities"
  have ok: "caps_ok c \<Longrightarrow> caps_ok (fold caps_step es c)" for c
    by (induction es arbitrary: c) (auto intro: caps_step_ok)
  have "TTCFieldVersion (fold caps_step es' c) \<le> TTCFieldVersion c" for c
    by (induction es' arbitrary: c) (auto intro: order_trans caps_step_version)
  moreover have "TTCFieldVersion NewCapabilities = FieldVersionMax" by code_simp
  then have "caps_ok c0 \<and> TTCFieldVersion c0 = FieldVersionMax"
    unfolding c0_def using opening_ok NewCapabilities_ok by blast
  ultimately show ?thesis using ok unfolding c0_def Let_def by simp
qed

end
