(* ===== verification/TnsSecurity.thy ===== *)
theory TnsSecurity
  imports Prelude
begin

text \<open>
  \<^verbatim>\<open>internal/tns/security.go\<close>: the protection of DATA packets after native network encryption is
  negotiated: an optional AES-CBC cipher and an optional keyed checksum whose keystream evolves with
  every packet. The primitives of Go's \<^verbatim>\<open>crypto\<close> packages are the parameter \<open>cr\<close>: the AES block
  function and its inverse, the digests, and the RC4 keystream of a key. What the driver relies on is
  \<open>crypto_ok\<close>. The block modes, the padding, the key schedules and the checks are those of the code.
\<close>

datatype digest_alg = MD5 | SHA1 | SHA512 | SHA256 | SHA384

fun digest_size :: "digest_alg \<Rightarrow> nat" where
  "digest_size MD5 = 16"
| "digest_size SHA1 = 20"
| "digest_size SHA512 = 64"
| "digest_size SHA256 = 32"
| "digest_size SHA384 = 48"

record crypto =
  aesEnc :: "bytes \<Rightarrow> bytes \<Rightarrow> bytes"
  aesDec :: "bytes \<Rightarrow> bytes \<Rightarrow> bytes"
  digest :: "digest_alg \<Rightarrow> bytes \<Rightarrow> bytes"
  rc4Stream :: "bytes \<Rightarrow> nat \<Rightarrow> u8"

definition aes_key_ok :: "bytes \<Rightarrow> bool" where
  "aes_key_ok key \<longleftrightarrow> length key \<in> {16, 24, 32}"

definition crypto_ok :: "crypto \<Rightarrow> bool" where
  "crypto_ok cr \<longleftrightarrow>
     (\<forall>k b. aes_key_ok k \<longrightarrow> length b = 16 \<longrightarrow>
       length (aesEnc cr k b) = 16 \<and> aesDec cr k (aesEnc cr k b) = b) \<and>
     (\<forall>a x. length (digest cr a x) = digest_size a)"

datatype security_error = ProtectedTooShort | BadEncryptedLength | BadPadding | IntegrityShort | IntegrityFailed
  | KeyMaterialShort | UnsupportedChecksum int | UnsupportedEncryption int | SharedKeyShort

subsection \<open>Block modes of the standard library\<close>

definition xor_bytes :: "bytes \<Rightarrow> bytes \<Rightarrow> bytes" where
  "xor_bytes = map2 (XOR)"

text \<open>\<open>cipher.NewCBCEncrypter(blk, iv).CryptBlocks\<close>: the output and the chaining value it leaves.\<close>

function cbc_encrypt :: "(bytes \<Rightarrow> bytes) \<Rightarrow> bytes \<Rightarrow> bytes \<Rightarrow> bytes \<times> bytes" where
  "cbc_encrypt E iv [] = ([], iv)"
| "cbc_encrypt E iv (x # xs) =
     (let c = E (xor_bytes (take 16 (x # xs)) iv); (r, iv') = cbc_encrypt E c (drop 15 xs) in (c @ r, iv'))"
  by pat_completeness auto
termination by (relation "measure (\<lambda>(_, _, xs). length xs)") auto

function cbc_decrypt :: "(bytes \<Rightarrow> bytes) \<Rightarrow> bytes \<Rightarrow> bytes \<Rightarrow> bytes" where
  "cbc_decrypt D iv [] = []"
| "cbc_decrypt D iv (x # xs) =
     xor_bytes (D (take 16 (x # xs))) iv @ cbc_decrypt D (take 16 (x # xs)) (drop 15 xs)"
  by pat_completeness auto
termination by (relation "measure (\<lambda>(_, _, xs). length xs)") auto

text \<open>A \<open>cipher.BlockMode\<close> that encrypts: its key and the chaining value.\<close>

record block_mode =
  bm_key :: bytes
  bm_iv :: bytes

definition CryptBlocks :: "crypto \<Rightarrow> block_mode \<Rightarrow> bytes \<Rightarrow> bytes \<times> block_mode" where
  "CryptBlocks cr m src = (let (out, iv) = cbc_encrypt (aesEnc cr (bm_key m)) (bm_iv m) src in (out, m\<lparr>bm_iv := iv\<rparr>))"

text \<open>An \<open>rc4.Cipher\<close>: its key and how much of the keystream is used.\<close>

record rc4_cipher =
  rc4_key :: bytes
  rc4_pos :: nat

definition XORKeyStream :: "crypto \<Rightarrow> rc4_cipher \<Rightarrow> bytes \<Rightarrow> bytes \<times> rc4_cipher" where
  "XORKeyStream cr c src =
     (map2 (XOR) src (map (\<lambda>i. rc4Stream cr (rc4_key c) (rc4_pos c + i)) [0..<length src]),
      c\<lparr>rc4_pos := rc4_pos c + length src\<rparr>)"

subsection \<open>The packet cipher\<close>

definition aes_encrypt :: "crypto \<Rightarrow> bytes \<Rightarrow> bytes \<Rightarrow> bytes" where
  "aes_encrypt cr key plain =
     (let pad = (if length plain mod 16 \<noteq> 0 then 16 - length plain mod 16 else 0);
          inp = plain @ replicate pad 0
      in fst (cbc_encrypt (aesEnc cr key) (replicate 16 0) inp) @ [word_of_nat (pad + 1)])"

definition aes_decrypt :: "crypto \<Rightarrow> bytes \<Rightarrow> bytes \<Rightarrow> security_error + bytes" where
  "aes_decrypt cr key dat =
     (if length dat < 1 \<or> (length dat - 1) mod 16 \<noteq> 0 then Inl BadEncryptedLength
      else let pad = unat (last dat) in
        if pad < 1 \<or> pad > 17 then Inl BadPadding
        else let out = cbc_decrypt (aesDec cr key) (replicate 16 0) (butlast dat) in
          if pad - 1 > length out then Inl BadPadding
          else Inr (take (length out - (pad - 1)) out))"

subsection \<open>The keyed checksums\<close>

record aes_hash =
  ah_alg :: digest_alg
  buffer :: bytes
  outState :: bytes
  inState :: bytes
  keyGen :: block_mode
  encryptor :: block_mode
  decryptor :: block_mode

definition aes_hash_init :: "crypto \<Rightarrow> aes_hash \<Rightarrow> aes_hash" where
  "aes_hash_init cr k =
     (let (buf, _) = CryptBlocks cr (keyGen k) (buffer k);
          key = take 16 buf; iv = take 16 (drop 16 buf)
      in k\<lparr>buffer := buf, keyGen := \<lparr>bm_key = key, bm_iv = iv\<rparr>,
           encryptor := \<lparr>bm_key = key[5 := 90], bm_iv = iv\<rparr>,
           decryptor := \<lparr>bm_key = key[5 := 180], bm_iv = iv\<rparr>\<rparr>)"

definition newAESKeyedHash :: "crypto \<Rightarrow> digest_alg \<Rightarrow> bytes \<Rightarrow> bytes \<Rightarrow> security_error + aes_hash" where
  "newAESKeyedHash cr alg key iv =
     (if length key < 5 \<or> length iv < 16 then Inl KeyMaterialShort
      else let none = \<lparr>bm_key = [], bm_iv = []\<rparr> in
        Inr (aes_hash_init cr
          \<lparr>ah_alg = alg, buffer = replicate 32 0, outState = replicate (digest_size alg) 0,
           inState = replicate (digest_size alg) 0,
           keyGen = \<lparr>bm_key = take 5 key @ [0xFF] @ replicate 10 0, bm_iv = take 16 iv\<rparr>,
           encryptor = none, decryptor = none\<rparr>))"

definition aes_hash_compute :: "crypto \<Rightarrow> aes_hash \<Rightarrow> bytes \<Rightarrow> bytes \<times> aes_hash" where
  "aes_hash_compute cr k payload =
     (let (st, m) = CryptBlocks cr (encryptor k) (outState k)
      in (digest cr (ah_alg k) (payload @ st), k\<lparr>outState := st, encryptor := m\<rparr>))"

definition aes_hash_validate :: "crypto \<Rightarrow> aes_hash \<Rightarrow> bytes \<Rightarrow> (security_error + bytes) \<times> aes_hash" where
  "aes_hash_validate cr k dat =
     (let n = digest_size (ah_alg k) in
      if length dat < n then (Inl IntegrityShort, k)
      else let payload = take (length dat - n) dat; received = drop (length dat - n) dat;
               (st, m) = CryptBlocks cr (decryptor k) (inState k);
               k = k\<lparr>inState := st, decryptor := m\<rparr>
        in if received \<noteq> digest cr (ah_alg k) (payload @ st) then (Inl IntegrityFailed, k)
           else (Inr payload, k))"

record rc4_hash =
  rh_alg :: digest_alg
  rc4Gen :: rc4_cipher
  rc4Enc :: rc4_cipher
  rc4Dec :: rc4_cipher

definition rc4_hash_init :: "crypto \<Rightarrow> rc4_hash \<Rightarrow> rc4_hash" where
  "rc4_hash_init cr k =
     (let (key2, gen) = XORKeyStream cr (rc4Gen k) (replicate 5 0)
      in k\<lparr>rc4Gen := gen, rc4Enc := \<lparr>rc4_key = key2 @ [90], rc4_pos = 0\<rparr>,
           rc4Dec := \<lparr>rc4_key = key2 @ [180], rc4_pos = 0\<rparr>\<rparr>)"

definition newRC4KeyedHash :: "crypto \<Rightarrow> digest_alg \<Rightarrow> bytes \<Rightarrow> bytes \<Rightarrow> security_error + rc4_hash" where
  "newRC4KeyedHash cr alg key iv =
     (if length key < 5 then Inl KeyMaterialShort
      else let k1 = drop (length key - 5) key @ [0xFF] @ iv; none = \<lparr>rc4_key = [], rc4_pos = 0\<rparr> in
        if length k1 > 256 then Inl KeyMaterialShort
        else Inr (rc4_hash_init cr
          \<lparr>rh_alg = alg, rc4Gen = \<lparr>rc4_key = k1, rc4_pos = 0\<rparr>, rc4Enc = none, rc4Dec = none\<rparr>))"

definition rc4_hash_compute :: "crypto \<Rightarrow> rc4_hash \<Rightarrow> bytes \<Rightarrow> bytes \<times> rc4_hash" where
  "rc4_hash_compute cr k payload =
     (let (ks, c) = XORKeyStream cr (rc4Enc k) (replicate (digest_size (rh_alg k)) 0)
      in (digest cr (rh_alg k) (payload @ ks), k\<lparr>rc4Enc := c\<rparr>))"

definition rc4_hash_validate :: "crypto \<Rightarrow> rc4_hash \<Rightarrow> bytes \<Rightarrow> (security_error + bytes) \<times> rc4_hash" where
  "rc4_hash_validate cr k dat =
     (let n = digest_size (rh_alg k) in
      if length dat < n then (Inl IntegrityShort, k)
      else let payload = take (length dat - n) dat; received = drop (length dat - n) dat;
               (ks, c) = XORKeyStream cr (rc4Dec k) (replicate n 0); k = k\<lparr>rc4Dec := c\<rparr>
        in if received \<noteq> digest cr (rh_alg k) (payload @ ks) then (Inl IntegrityFailed, k)
           else (Inr payload, k))"

text \<open>The interface \<open>packetHash\<close> and its two implementations.\<close>

datatype packet_hash = AesHash aes_hash | Rc4Hash rc4_hash

fun hash_init :: "crypto \<Rightarrow> packet_hash \<Rightarrow> packet_hash" where
  "hash_init cr (AesHash k) = AesHash (aes_hash_init cr k)"
| "hash_init cr (Rc4Hash k) = Rc4Hash (rc4_hash_init cr k)"

fun hash_compute :: "crypto \<Rightarrow> packet_hash \<Rightarrow> bytes \<Rightarrow> bytes \<times> packet_hash" where
  "hash_compute cr (AesHash k) p = map_prod id AesHash (aes_hash_compute cr k p)"
| "hash_compute cr (Rc4Hash k) p = map_prod id Rc4Hash (rc4_hash_compute cr k p)"

fun hash_validate :: "crypto \<Rightarrow> packet_hash \<Rightarrow> bytes \<Rightarrow> (security_error + bytes) \<times> packet_hash" where
  "hash_validate cr (AesHash k) p = map_prod id AesHash (aes_hash_validate cr k p)"
| "hash_validate cr (Rc4Hash k) p = map_prod id Rc4Hash (rc4_hash_validate cr k p)"

fun hash_size :: "packet_hash \<Rightarrow> nat" where
  "hash_size (AesHash k) = digest_size (ah_alg k)"
| "hash_size (Rc4Hash k) = digest_size (rh_alg k)"

subsection \<open>The session's protection\<close>

record security =
  cipher :: "bytes option"
  hash :: "packet_hash option"
  EncryptionID :: int
  ChecksumID :: int

text \<open>A nil \<open>*Security\<close> is \<open>None\<close>.\<close>

definition Active :: "security option \<Rightarrow> bool" where
  "Active so = (case so of None \<Rightarrow> False | Some s \<Rightarrow> cipher s \<noteq> None \<or> hash s \<noteq> None)"

definition EncryptionActive :: "security option \<Rightarrow> bool" where
  "EncryptionActive so = (case so of None \<Rightarrow> False | Some s \<Rightarrow> cipher s \<noteq> None)"

definition ChecksumActive :: "security option \<Rightarrow> bool" where
  "ChecksumActive so = (case so of None \<Rightarrow> False | Some s \<Rightarrow> hash s \<noteq> None)"

definition EncryptionAlgorithmName :: "int \<Rightarrow> string" where
  "EncryptionAlgorithmName i = (if i = 15 then ''AES128'' else if i = 16 then ''AES192'' else if i = 17 then ''AES256'' else [])"

definition ChecksumAlgorithmName :: "int \<Rightarrow> string" where
  "ChecksumAlgorithmName i = (if i = 1 then ''MD5'' else if i = 3 then ''SHA1'' else if i = 4 then ''SHA512''
     else if i = 5 then ''SHA256'' else if i = 6 then ''SHA384'' else [])"

definition Overhead :: "security option \<Rightarrow> nat" where
  "Overhead so = (case so of None \<Rightarrow> 0 | Some s \<Rightarrow>
     if \<not> Active so then 0
     else 1 + (case hash s of None \<Rightarrow> 0 | Some k \<Rightarrow> hash_size k) + (if cipher s = None then 0 else 17))"

definition security_Reset :: "crypto \<Rightarrow> security option \<Rightarrow> security option" where
  "security_Reset cr so = map_option (\<lambda>s. s\<lparr>hash := map_option (hash_init cr) (hash s)\<rparr>) so"

definition security_wrap :: "crypto \<Rightarrow> security \<Rightarrow> bytes \<Rightarrow> bytes \<times> security" where
  "security_wrap cr s payload =
     (let (out, s) = (case hash s of None \<Rightarrow> (payload, s)
                      | Some k \<Rightarrow> let (t, k) = hash_compute cr k payload in (payload @ t, s\<lparr>hash := Some k\<rparr>));
          out = (case cipher s of None \<Rightarrow> out | Some key \<Rightarrow> aes_encrypt cr key out)
      in (out @ [0], s))"

definition security_unwrap :: "crypto \<Rightarrow> security \<Rightarrow> bytes \<Rightarrow> (security_error + bytes) \<times> security" where
  "security_unwrap cr s dat =
     (if length dat < 1 then (Inl ProtectedTooShort, s)
      else
        case (case cipher s of None \<Rightarrow> Inr (butlast dat) | Some key \<Rightarrow> aes_decrypt cr key (butlast dat)) of
          Inl e \<Rightarrow> (Inl e, s)
        | Inr out \<Rightarrow>
          (case hash s of None \<Rightarrow> (Inr out, s)
           | Some k \<Rightarrow> let (r, k) = hash_validate cr k out in (r, s\<lparr>hash := Some k\<rparr>)))"

definition cipher_key_len :: "int \<Rightarrow> nat" where
  "cipher_key_len i = (if i = 15 then 16 else if i = 16 then 24 else 32)"

definition NewSecurity :: "crypto \<Rightarrow> int \<Rightarrow> int \<Rightarrow> bytes \<Rightarrow> bytes \<Rightarrow> security_error + security" where
  "NewSecurity cr encryptionID checksumID sharedKey iv =
     andThen
      (if checksumID = 0 then Inr None
       else if checksumID = 1 then map_sum id (Some \<circ> Rc4Hash) (newRC4KeyedHash cr MD5 sharedKey iv)
       else if checksumID = 3 then map_sum id (Some \<circ> Rc4Hash) (newRC4KeyedHash cr SHA1 sharedKey iv)
       else if checksumID = 4 then map_sum id (Some \<circ> AesHash) (newAESKeyedHash cr SHA512 sharedKey iv)
       else if checksumID = 5 then map_sum id (Some \<circ> AesHash) (newAESKeyedHash cr SHA256 sharedKey iv)
       else if checksumID = 6 then map_sum id (Some \<circ> AesHash) (newAESKeyedHash cr SHA384 sharedKey iv)
       else Inl (UnsupportedChecksum checksumID)) (\<lambda>h.
     andThen
      (if encryptionID = 0 then Inr None
       else if encryptionID = 15 \<or> encryptionID = 16 \<or> encryptionID = 17 then
         (let n = cipher_key_len encryptionID in
          if length sharedKey < n then Inl SharedKeyShort else Inr (Some (take n sharedKey)))
       else Inl (UnsupportedEncryption encryptionID)) (\<lambda>c.
     Inr \<lparr>cipher = c, hash = h, EncryptionID = encryptionID, ChecksumID = checksumID\<rparr>))"

end
