(* ===== verification/TnsChannel.thy ===== *)
theory TnsChannel
  imports TnsSecurity
begin

text \<open>
  The contract of the packet protection: the interfaces \<open>packetCipher\<close> and \<open>packetHash\<close> are the
  locales \<open>packet_cipher\<close> and \<open>packet_hash\<close>, which the AES-CBC cipher and the two keyed checksums
  implement; a protected channel delivers every payload unchanged in both directions, and a
  protected packet grows by at most \<open>Overhead\<close>.
\<close>

subsection \<open>Interfaces\<close>

text \<open>
  A cipher gives back what it encrypted and adds a bounded number of bytes; \<open>prim\<close> says that the
  primitives it is built on behave as documented.
\<close>

locale packet_cipher =
  fixes enc :: "bytes \<Rightarrow> bytes"
    and dec :: "bytes \<Rightarrow> security_error + bytes"
    and prim :: bool
    and extra :: nat
  assumes dec_enc: "prim \<Longrightarrow> dec (enc p) = Inr p"
    and enc_len: "prim \<Longrightarrow> length (enc p) \<le> length p + extra"
begin

lemma enc_inj: "prim \<Longrightarrow> enc p = enc q \<Longrightarrow> p = q"
  by (metis dec_enc sum.inject(2))

end

text \<open>
  A checksum state has a mirror image, the state of the other end, with the two directions swapped;
  what one end computes the mirror validates, and both move to mirrored states. An initialisation of
  the other end is the mirror of ours.
\<close>

locale packet_hash =
  fixes init :: "'h \<Rightarrow> 'h"
    and compute :: "'h \<Rightarrow> bytes \<Rightarrow> bytes \<times> 'h"
    and validate :: "'h \<Rightarrow> bytes \<Rightarrow> (security_error + bytes) \<times> 'h"
    and size' :: "'h \<Rightarrow> nat"
    and mirror :: "'h \<Rightarrow> 'h"
    and prim :: bool
  assumes mirror_mirror: "mirror (mirror k) = k"
    and sizes: "size' (init k) = size' k" "size' (snd (compute k p)) = size' k" "size' (snd (validate k p)) = size' k"
    and compute_len: "prim \<Longrightarrow> length (fst (compute k p)) = size' k"
    and validate_compute: "prim \<Longrightarrow>
      validate (mirror k) (p @ fst (compute k p)) = (Inr p, mirror (snd (compute k p)))"
    and validate_only: "fst (validate k d) = Inr p \<Longrightarrow> d = p @ fst (compute (mirror k) p)"
begin

text \<open>A packet passes only with the checksum the other end computes for it at this point.\<close>

lemma validate_iff:
  "prim \<Longrightarrow> fst (validate k d) = Inr p \<longleftrightarrow> d = p @ fst (compute (mirror k) p)"
  using validate_only [of k d p] validate_compute [of "mirror k" p] unfolding mirror_mirror by auto

lemma compute_validate: "prim \<Longrightarrow> validate k (p @ fst (compute (mirror k) p)) = (Inr p, mirror (snd (compute (mirror k) p)))"
  using validate_compute [of "mirror k" p] by (simp add: mirror_mirror)

end

subsection \<open>AES-CBC\<close>

lemma length_xor_bytes [simp]: "length (xor_bytes a b) = min (length a) (length b)"
  by (simp add: xor_bytes_def)

lemma xor_bytes_cancel: "length a = length b \<Longrightarrow> xor_bytes (xor_bytes a b) b = a"
  by (induction a b rule: list_induct2) (simp_all add: xor_bytes_def xor.assoc)

lemma cbc_length:
  assumes "\<And>b. length b = 16 \<Longrightarrow> length (E b) = 16" "length iv = 16" "length xs = 16 * n"
  shows "length (fst (cbc_encrypt E iv xs)) = 16 * n"
  using assms(2,3)
proof (induction n arbitrary: iv xs)
  case (Suc n)
  then obtain x ys where xs: "xs = x # ys" by (cases xs) auto
  define c where "c = E (xor_bytes (take 16 xs) iv)"
  have c: "length c = 16" unfolding c_def by (rule assms(1)) (use Suc.prems in simp)
  have "length (fst (cbc_encrypt E c (drop 15 ys))) = 16 * n" using Suc.prems xs by (intro Suc.IH c) simp
  then show ?case using c by (simp add: xs c_def case_prod_unfold Let_def)
qed simp

lemma cbc_decrypt_block:
  assumes "length c = 16"
  shows "cbc_decrypt D iv (c @ r) = xor_bytes (D c) iv @ cbc_decrypt D c r"
proof -
  obtain c0 cs where cs: "c = c0 # cs" "length cs = 15" using assms by (cases c) auto
  have "take 16 (c0 # (cs @ r)) = c" "drop 15 (cs @ r) = r" using cs by simp_all
  moreover have "c @ r = c0 # (cs @ r)" using cs by simp
  ultimately show ?thesis by (simp only: cbc_decrypt.simps)
qed

lemma cbc_round_trip:
  assumes "\<And>b. length b = 16 \<Longrightarrow> length (E b) = 16 \<and> D (E b) = b" "length iv = 16" "length xs = 16 * n"
  shows "cbc_decrypt D iv (fst (cbc_encrypt E iv xs)) = xs"
  using assms(2,3)
proof (induction n arbitrary: iv xs)
  case (Suc n)
  then obtain x ys where xs: "xs = x # ys" by (cases xs) auto
  define b where "b = xor_bytes (take 16 xs) iv"
  have b: "length b = 16" using Suc.prems by (simp add: b_def)
  define c where "c = E b"
  have c: "length c = 16" "D c = b" using assms(1) [OF b] by (simp_all add: c_def)
  define r where "r = fst (cbc_encrypt E c (drop 15 ys))"
  have IH: "cbc_decrypt D c r = drop 15 ys" unfolding r_def using Suc.prems xs c by (intro Suc.IH) simp_all
  have e: "fst (cbc_encrypt E iv xs) = c @ r" by (simp add: xs c_def b_def r_def case_prod_unfold Let_def)
  have "cbc_decrypt D iv (c @ r) = xor_bytes (D c) iv @ cbc_decrypt D c r"
    by (rule cbc_decrypt_block [OF c(1)])
  also have "\<dots> = take 16 xs @ drop 15 ys" using Suc.prems by (simp add: c b_def IH xor_bytes_cancel)
  also have "\<dots> = xs" by (simp add: xs)
  finally show ?case by (simp add: e)
qed simp

lemma aes_pad:
  fixes plain :: bytes
  defines "pad \<equiv> if length plain mod 16 \<noteq> 0 then 16 - length plain mod 16 else 0"
  shows "pad < 16" "16 dvd length plain + pad"
proof -
  have m: "length plain mod 16 < 16" by simp
  have d: "length plain = 16 * (length plain div 16) + length plain mod 16" by simp
  show "pad < 16" unfolding pad_def by (auto intro: diff_less)
  show "16 dvd length plain + pad"
  proof (cases "length plain mod 16 = 0")
    case False
    then have "length plain + pad = 16 * (length plain div 16) + 16"
      using m d unfolding pad_def by presburger
    then show ?thesis by simp
  qed (simp add: pad_def mod_eq_0_iff_dvd)
qed

lemma crypto_okD:
  assumes "crypto_ok cr" "aes_key_ok key" "length b = 16"
  shows "length (aesEnc cr key b) = 16 \<and> aesDec cr key (aesEnc cr key b) = b"
  using assms by (simp add: crypto_ok_def)

lemma aes_encrypt_length:
  assumes "crypto_ok cr" "aes_key_ok key"
  shows "length (aes_encrypt cr key p) \<le> length p + 16" "0 < length (aes_encrypt cr key p)"
    and "aes_decrypt cr key (aes_encrypt cr key p) = Inr p"
proof -
  define pad where "pad = (if length p mod 16 \<noteq> 0 then 16 - length p mod 16 else 0)"
  have pad: "pad < 16" "16 dvd length p + pad" unfolding pad_def by (rule aes_pad)+
  then obtain n where n: "length (p @ replicate pad 0) = 16 * n" by auto
  define body where "body = fst (cbc_encrypt (aesEnc cr key) (replicate 16 0) (p @ replicate pad 0))"
  have e: "aes_encrypt cr key p = body @ [word_of_nat (pad + 1)]"
    unfolding aes_encrypt_def Let_def pad_def [symmetric] body_def by simp
  have lb: "length body = 16 * n" unfolding body_def
    by (rule cbc_length) (use n crypto_okD [OF assms] in auto)
  have rt: "cbc_decrypt (aesDec cr key) (replicate 16 0) body = p @ replicate pad 0" unfolding body_def
    by (rule cbc_round_trip) (use n crypto_okD [OF assms] in auto)
  have u: "unat (word_of_nat (pad + 1) :: u8) = pad + 1" using pad(1) by (simp add: unat_of_nat del: of_nat_add of_nat_Suc)
  show "length (aes_encrypt cr key p) \<le> length p + 16" "0 < length (aes_encrypt cr key p)"
    using e lb n pad(1) by auto
  have "length (p @ replicate pad 0) - (pad + 1 - 1) = length p" by simp
  then show "aes_decrypt cr key (aes_encrypt cr key p) = Inr p"
    unfolding aes_decrypt_def Let_def e using u lb pad(1) by (simp add: rt)
qed

interpretation aes: packet_cipher "aes_encrypt cr key" "aes_decrypt cr key" "crypto_ok cr \<and> aes_key_ok key" 16
  for cr key
  by unfold_locales (use aes_encrypt_length in auto)

subsection \<open>The keyed checksums\<close>

definition aes_hash_mirror :: "aes_hash \<Rightarrow> aes_hash" where
  "aes_hash_mirror k = k\<lparr>encryptor := decryptor k, decryptor := encryptor k, outState := inState k, inState := outState k\<rparr>"

definition rc4_hash_mirror :: "rc4_hash \<Rightarrow> rc4_hash" where
  "rc4_hash_mirror k = k\<lparr>rc4Enc := rc4Dec k, rc4Dec := rc4Enc k\<rparr>"

fun hash_mirror :: "packet_hash \<Rightarrow> packet_hash" where
  "hash_mirror (AesHash k) = AesHash (aes_hash_mirror k)"
| "hash_mirror (Rc4Hash k) = Rc4Hash (rc4_hash_mirror k)"

lemmas hash_defs = aes_hash_compute_def aes_hash_validate_def aes_hash_mirror_def aes_hash_init_def
  rc4_hash_compute_def rc4_hash_validate_def rc4_hash_mirror_def rc4_hash_init_def

lemma digest_length: "crypto_ok cr \<Longrightarrow> length (digest cr a x) = digest_size a"
  by (simp add: crypto_ok_def)

interpretation hash: packet_hash "hash_init cr" "hash_compute cr" "hash_validate cr" hash_size hash_mirror "crypto_ok cr"
  for cr
proof unfold_locales
  fix k :: packet_hash and p d :: bytes
  show "hash_mirror (hash_mirror k) = k" by (cases k) (simp_all add: hash_defs)
  show "hash_size (hash_init cr k) = hash_size k" "hash_size (snd (hash_compute cr k p)) = hash_size k"
    "hash_size (snd (hash_validate cr k p)) = hash_size k"
    by (cases k; simp add: hash_defs case_prod_unfold Let_def)+
  show "crypto_ok cr \<Longrightarrow> length (fst (hash_compute cr k p)) = hash_size k"
    by (cases k) (simp_all add: hash_defs case_prod_unfold Let_def digest_length)
  show "crypto_ok cr \<Longrightarrow> hash_validate cr (hash_mirror k) (p @ fst (hash_compute cr k p)) =
      (Inr p, hash_mirror (snd (hash_compute cr k p)))"
    by (cases k) (simp_all add: hash_defs case_prod_unfold Let_def digest_length)
  show "fst (hash_validate cr k d) = Inr p \<Longrightarrow> d = p @ fst (hash_compute cr (hash_mirror k) p)"
    by (cases k; simp add: hash_defs case_prod_unfold Let_def split: if_splits; metis append_take_drop_id)
qed

subsection \<open>The channel\<close>

definition security_mirror :: "security \<Rightarrow> security" where
  "security_mirror s = s\<lparr>hash := map_option hash_mirror (hash s)\<rparr>"

definition security_ok :: "crypto \<Rightarrow> security \<Rightarrow> bool" where
  "security_ok cr s \<longleftrightarrow> crypto_ok cr \<and> (\<forall>key. cipher s = Some key \<longrightarrow> aes_key_ok key)"

lemma security_mirror_mirror [simp]: "security_mirror (security_mirror s) = s"
  by (cases "hash s") (simp_all add: security_mirror_def hash.mirror_mirror)

lemma wrap_keeps: "cipher (snd (security_wrap cr s p)) = cipher s"
  by (simp add: security_wrap_def case_prod_unfold Let_def split: option.split)

lemma unwrap_wrap:
  assumes "security_ok cr s"
  shows "security_unwrap cr (security_mirror s) (fst (security_wrap cr s p)) =
    (Inr p, security_mirror (snd (security_wrap cr s p)))"
proof -
  have prim: "crypto_ok cr" "\<And>key. cipher s = Some key \<Longrightarrow> crypto_ok cr \<and> aes_key_ok key"
    using assms by (auto simp: security_ok_def)
  show ?thesis
    by (cases "hash s"; cases "cipher s")
      (simp_all add: security_unwrap_def security_wrap_def security_mirror_def case_prod_unfold Let_def
        aes.dec_enc prim hash.validate_compute butlast_append)
qed

text \<open>One end's view of a session: it sends, it receives, it resets the keystream after a marker.\<close>

datatype channel_event = Send bytes | Receive bytes | Rekey

text \<open>
  Both ends run: the client is the code, the peer is the code in the mirrored state. The result is
  the payloads each end was given by its \<open>unwrap\<close>, or the first error.
\<close>

fun channel_run :: "crypto \<Rightarrow> security \<Rightarrow> security \<Rightarrow> channel_event list \<Rightarrow> security_error + bytes list" where
  "channel_run cr s t [] = Inr []"
| "channel_run cr s t (Send p # es) =
     (let (w, s') = security_wrap cr s p; (r, t') = security_unwrap cr t w
      in case r of Inl e \<Rightarrow> Inl e | Inr q \<Rightarrow> map_sum id ((#) q) (channel_run cr s' t' es))"
| "channel_run cr s t (Receive p # es) =
     (let (w, t') = security_wrap cr t p; (r, s') = security_unwrap cr s w
      in case r of Inl e \<Rightarrow> Inl e | Inr q \<Rightarrow> map_sum id ((#) q) (channel_run cr s' t' es))"
| "channel_run cr s t (Rekey # es) =
     (let s' = the (security_Reset cr (Some s)) in channel_run cr s' (security_mirror s') es)"

fun channel_payload :: "channel_event \<Rightarrow> bytes list" where
  "channel_payload (Send p) = [p]"
| "channel_payload (Receive p) = [p]"
| "channel_payload Rekey = []"

lemma wrap_security_ok: "security_ok cr s \<Longrightarrow> security_ok cr (snd (security_wrap cr s p))"
  by (simp add: security_ok_def wrap_keeps)

lemma mirror_security_ok: "security_ok cr (security_mirror s) = security_ok cr s"
  by (simp add: security_ok_def security_mirror_def)

text \<open>
  Property C17. On a protected connection every payload arrives unchanged: for each mix of cipher and
  checksum, any interleaving of packets in the two directions and of keystream resets after a break
  leaves the two ends in step, and no packet of either end is rejected by the other.
\<close>

theorem protected_channel_delivers:
  assumes "security_ok cr s"
  shows "channel_run cr s (security_mirror s) es = Inr (concat (map channel_payload es))"
  using assms
proof (induction es arbitrary: s)
  case (Cons e es)
  show ?case
  proof (cases e)
    case (Send p)
    then show ?thesis using unwrap_wrap [OF Cons.prems, of p] Cons.IH [OF wrap_security_ok [OF Cons.prems, of p]]
      by (simp add: case_prod_unfold Let_def)
  next
    case (Receive p)
    have ok: "security_ok cr (security_mirror s)" using Cons.prems by (simp add: mirror_security_ok)
    have "security_ok cr (security_mirror (snd (security_wrap cr (security_mirror s) p)))"
      using wrap_security_ok [OF ok] by (simp add: mirror_security_ok)
    from Cons.IH [OF this] show ?thesis using unwrap_wrap [OF ok, of p] Receive
      by (simp add: case_prod_unfold Let_def)
  next
    case Rekey
    have "security_ok cr (the (security_Reset cr (Some s)))"
      using Cons.prems by (simp add: security_ok_def security_Reset_def)
    from Cons.IH [OF this] show ?thesis using Rekey by simp
  qed
qed simp

text \<open>A concrete set of primitives with the documented laws.\<close>

definition toy_crypto :: crypto where
  "toy_crypto = \<lparr>aesEnc = (\<lambda>k b. rev (map NOT b)), aesDec = (\<lambda>k b. rev (map NOT b)),
     digest = (\<lambda>a x. replicate (digest_size a) (fold (+) x 7)), rc4Stream = (\<lambda>k i. word_of_nat (i + length k))\<rparr>"

lemma toy_crypto_ok: "crypto_ok toy_crypto"
  by (simp add: crypto_ok_def toy_crypto_def rev_map [symmetric] comp_def)

definition toy_security :: security where
  "toy_security = (case NewSecurity toy_crypto 17 5 (replicate 40 3) (replicate 16 9) of Inr s \<Rightarrow> s | Inl _ \<Rightarrow> undefined)"

lemma toy_security_ok: "security_ok toy_crypto toy_security" "hash toy_security \<noteq> None"
proof -
  have "cipher toy_security = Some (replicate 32 3)" by code_simp
  then show "security_ok toy_crypto toy_security" by (simp add: security_ok_def toy_crypto_ok aes_key_ok_def)
  show "hash toy_security \<noteq> None" by code_simp
qed

theorem protected_channel_delivers_witness:
  "channel_run toy_crypto toy_security (security_mirror toy_security) [Send [1, 2, 3], Receive [], Rekey, Receive [9], Send [4]] =
    Inr [[1, 2, 3], [], [9], [4]]"
proof -
  have "channel_run toy_crypto toy_security (security_mirror toy_security) [Send [1, 2, 3], Receive [], Rekey, Receive [9], Send [4]] =
    Inr (concat (map channel_payload [Send [1, 2, 3], Receive [], Rekey, Receive [9], Send [4]]))"
    by (rule protected_channel_delivers [OF toy_security_ok(1)])
  then show ?thesis by simp
qed

text \<open>What is left of a protected packet after the folding byte is dropped and the cipher undone.\<close>

definition deciphered :: "crypto \<Rightarrow> security \<Rightarrow> bytes \<Rightarrow> security_error + bytes" where
  "deciphered cr s dat = (case cipher s of None \<Rightarrow> Inr (butlast dat) | Some key \<Rightarrow> aes_decrypt cr key (butlast dat))"

text \<open>
  Property C20. With a checksum negotiated, \<open>unwrap\<close> returns a payload exactly when the packet holds
  that payload followed by the checksum the other end computes for it at this point of the session:
  an altered, truncated, replayed or reordered packet is accepted only if the digests collide.
\<close>

theorem unwrap_authentic_iff:
  assumes "crypto_ok cr" "hash s = Some k"
  shows "fst (security_unwrap cr s dat) = Inr p \<longleftrightarrow>
    dat \<noteq> [] \<and> deciphered cr s dat = Inr (p @ fst (hash_compute cr (hash_mirror k) p))"
proof (cases "deciphered cr s dat")
  case (Inl e)
  then show ?thesis by (auto simp: security_unwrap_def deciphered_def)
next
  case (Inr out)
  then have "fst (security_unwrap cr s dat) = (if dat = [] then Inl ProtectedTooShort else fst (hash_validate cr k out))"
    using assms(2) by (auto simp: security_unwrap_def deciphered_def case_prod_unfold Let_def)
  then show ?thesis using hash.validate_iff [OF assms(1), of k out p] Inr by auto
qed

theorem unwrap_authentic_iff_witness:
  "fst (security_unwrap toy_crypto toy_security (replicate 33 1)) = Inr [] \<longleftrightarrow>
    replicate 33 (1::u8) \<noteq> [] \<and> deciphered toy_crypto toy_security (replicate 33 1) =
      Inr ([] @ fst (hash_compute toy_crypto (hash_mirror (the (hash toy_security))) []))"
  by (rule unwrap_authentic_iff [OF toy_crypto_ok]) (use toy_security_ok(2) in auto)

text \<open>The bytes a protected packet grows by.\<close>

lemma wrap_length:
  assumes "security_ok cr s" "Active (Some s)"
  shows "length (fst (security_wrap cr s p)) \<le> length p + Overhead (Some s)" "fst (security_wrap cr s p) \<noteq> []"
proof -
  have prim: "crypto_ok cr" "\<And>key. cipher s = Some key \<Longrightarrow> crypto_ok cr \<and> aes_key_ok key"
    using assms by (auto simp: security_ok_def)
  show "length (fst (security_wrap cr s p)) \<le> length p + Overhead (Some s)"
  proof (cases "cipher s")
    case None
    then show ?thesis using assms(2) hash.compute_len [OF prim(1), of _ p]
      by (cases "hash s") (simp_all add: security_wrap_def Overhead_def Active_def case_prod_unfold Let_def)
  next
    case (Some key)
    note l = aes.enc_len [OF prim(2) [OF Some]]
    show ?thesis
    proof (cases "hash s")
      case None
      then show ?thesis using Some l [of p] assms(2)
        by (simp add: security_wrap_def Overhead_def Active_def)
    next
      case (Some k)
      then show ?thesis using \<open>cipher s = Some key\<close> l [of "p @ fst (hash_compute cr k p)"] assms(2)
          hash.compute_len [OF prim(1), of k p]
        by (simp add: security_wrap_def Overhead_def Active_def case_prod_unfold Let_def)
    qed
  qed
  show "fst (security_wrap cr s p) \<noteq> []" by (simp add: security_wrap_def case_prod_unfold Let_def)
qed

end
