(* ===== verification/TnsTransport.thy ===== *)
theory TnsTransport
  imports TnsCaps TnsChannel
begin

text \<open>
  \<^verbatim>\<open>internal/tns/packet.go\<close> and \<^verbatim>\<open>internal/tns/transport.go\<close>: packets and the framing of packets on a
  socket. The socket is the bytes the server will have sent (\<open>incoming\<close>, and \<open>at_end\<close>, the error a read
  reports when they run out), the list of the writes made (\<open>outgoing\<close>), and \<open>write_ok\<close>, which says of
  each write, by its number, whether it succeeds. Deadlines, the trace hook, out-of-band data and the
  TLS upgrade are not part of it.
\<close>

datatype io_error = IoEOF | IoTimeout | IoOther

text \<open>The errors of the packet layer; \<open>OtherErr\<close> is an error recorded by the layers above.\<close>

datatype tns_error = ErrConnectionClosed | SocketTimeout | InvalidPacketSize int | SecurityErr security_error
  | ErrMarkerDetected | TruncatedPacket | UnexpectedNegative | IntegerTooLong nat | IdleTimeExceeded
  | UnsupportedInband u32 | OtherErr string

record packet =
  Type :: u8
  Flags :: u8
  Buf :: bytes

definition HasEndOfResponse :: "packet \<Rightarrow> bool" where
  "HasEndOfResponse p =
     (if length (Buf p) < PacketHeaderSize + 2 then False
      else let flags = of_be (take 2 (drop PacketHeaderSize (Buf p))) :: u16 in
        flags AND DataFlagsEndOfResponse \<noteq> 0 \<or> flags AND DataFlagsEOF \<noteq> 0 \<or>
        (length (Buf p) = PacketHeaderSize + 3 \<and> Buf p ! (PacketHeaderSize + 2) = MsgTypeEndOfResponse))"

record transport =
  incoming :: bytes
  at_end :: io_error
  outgoing :: "bytes list"
  write_ok :: "nat \<Rightarrow> bool"
  fullPacketSize :: bool
  maxPacketSize :: nat
  closed :: bool
  sec :: "security option"
  prims :: crypto

definition dataPayloadOffset :: nat where
  "dataPayloadOffset = PacketHeaderSize + 2"

definition wrapErr :: "io_error \<Rightarrow> tns_error" where
  "wrapErr e = (case e of IoTimeout \<Rightarrow> SocketTimeout | _ \<Rightarrow> ErrConnectionClosed)"

definition Connected :: "transport \<Rightarrow> bool" where
  "Connected t \<longleftrightarrow> \<not> closed t"

definition Close :: "transport \<Rightarrow> transport" where
  "Close t = t\<lparr>closed := True\<rparr>"

definition SetSecurity :: "security option \<Rightarrow> transport \<Rightarrow> transport" where
  "SetSecurity s t = t\<lparr>sec := s\<rparr>"

definition SetMaxPacketSize :: "nat \<Rightarrow> transport \<Rightarrow> transport" where
  "SetMaxPacketSize n t = t\<lparr>maxPacketSize := n\<rparr>"

definition SetFullPacketSize :: "bool \<Rightarrow> transport \<Rightarrow> transport" where
  "SetFullPacketSize v t = t\<lparr>fullPacketSize := v\<rparr>"

text \<open>\<open>io.ReadFull\<close> of \<open>n\<close> bytes; \<open>None\<close> if fewer are left, which uses them up.\<close>

definition read_full :: "nat \<Rightarrow> transport \<Rightarrow> bytes option \<times> transport" where
  "read_full n t =
     (if n \<le> length (incoming t) then (Some (take n (incoming t)), t\<lparr>incoming := drop n (incoming t)\<rparr>)
      else (None, t\<lparr>incoming := []\<rparr>))"

definition packet_size :: "bool \<Rightarrow> bytes \<Rightarrow> nat" where
  "packet_size full hdr = (if full then unat (of_be (take 4 hdr) :: u32) else unat (of_be (take 2 hdr) :: u16))"

text \<open>The protection is undone for DATA packets with a payload of at least two bytes.\<close>

definition unprotect :: "bytes \<Rightarrow> transport \<Rightarrow> (tns_error + bytes) \<times> transport" where
  "unprotect buf t =
     (case sec t of Some s \<Rightarrow>
        if Active (Some s) \<and> buf ! 4 = PacketTypeData \<and> length buf > dataPayloadOffset + 1 then
          (let (r, s) = security_unwrap (prims t) s (drop dataPayloadOffset buf) in
           case r of Inl e \<Rightarrow> (Inl (SecurityErr e), t\<lparr>sec := Some s, closed := True\<rparr>)
           | Inr plain \<Rightarrow> (Inr (take dataPayloadOffset buf @ plain), t\<lparr>sec := Some s\<rparr>))
        else (Inr buf, t)
      | None \<Rightarrow> (Inr buf, t))"

definition ReadPacket :: "transport \<Rightarrow> (tns_error + packet) \<times> transport" where
  "ReadPacket t =
     (if \<not> Connected t then (Inl ErrConnectionClosed, t)
      else case read_full PacketHeaderSize t of
        (None, t) \<Rightarrow> (Inl (wrapErr (at_end t)), t\<lparr>closed := True\<rparr>)
      | (Some hdr, t) \<Rightarrow>
        (let size = packet_size (fullPacketSize t) hdr in
         if size < PacketHeaderSize \<or> size > MaxSDU * 4 then
           (Inl (InvalidPacketSize (int size)), t\<lparr>closed := True\<rparr>)
         else case read_full (size - PacketHeaderSize) t of
           (None, t) \<Rightarrow> (Inl (wrapErr (at_end t)), t\<lparr>closed := True\<rparr>)
         | (Some body, t) \<Rightarrow>
           (case unprotect (hdr @ body) t of
              (Inl e, t) \<Rightarrow> (Inl e, t)
            | (Inr buf, t) \<Rightarrow> (Inr \<lparr>Type = buf ! 4, Flags = buf ! 5, Buf = buf\<rparr>, t))))"

text \<open>\<open>conn.Write\<close>.\<close>

definition socket_write :: "bytes \<Rightarrow> transport \<Rightarrow> tns_error option \<times> transport" where
  "socket_write dat t =
     (if write_ok t (length (outgoing t)) then (None, t\<lparr>outgoing := outgoing t @ [dat]\<rparr>)
      else (Some (wrapErr IoOther), t\<lparr>closed := True\<rparr>))"

definition put_size :: "bool \<Rightarrow> nat \<Rightarrow> bytes \<Rightarrow> bytes" where
  "put_size full n buf =
     (if full then be32 (word_of_nat n) @ drop 4 buf else be16 (word_of_nat n) @ drop 2 buf)"

definition protect :: "bytes \<Rightarrow> transport \<Rightarrow> bytes \<times> transport" where
  "protect dat t =
     (case sec t of Some s \<Rightarrow>
        if Active (Some s) \<and> dat ! 4 = PacketTypeData \<and> length dat \<ge> dataPayloadOffset then
          (let (w, s) = security_wrap (prims t) s (drop dataPayloadOffset dat);
               nb = take dataPayloadOffset dat @ w
           in (put_size (fullPacketSize t) (length nb) nb, t\<lparr>sec := Some s\<rparr>))
        else (dat, t)
      | None \<Rightarrow> (dat, t))"

definition WritePacket :: "bytes \<Rightarrow> transport \<Rightarrow> tns_error option \<times> transport" where
  "WritePacket dat t =
     (if \<not> Connected t then (Some ErrConnectionClosed, t)
      else let (dat, t) = protect dat t in socket_write dat t)"

subsection \<open>Framing\<close>

lemma wrapErr_cases: "wrapErr e = ErrConnectionClosed \<or> wrapErr e = SocketTimeout"
  by (cases e) (auto simp: wrapErr_def)

text \<open>A failed read or write leaves the transport closed, and a closed one moves no byte.\<close>

lemma ReadPacket_error_closes: "ReadPacket t = (Inl e, t') \<Longrightarrow> closed t'"
  by (auto simp: ReadPacket_def Connected_def unprotect_def Let_def split: option.splits prod.splits sum.splits if_splits)

lemma WritePacket_error_closes: "WritePacket dat t = (Some e, t') \<Longrightarrow> closed t'"
  by (auto simp: WritePacket_def Connected_def socket_write_def split: prod.splits if_splits)

text \<open>Every packet that is read has its header and leaves fewer bytes to read.\<close>

lemma ReadPacket_size:
  assumes "ReadPacket t = (Inr p, t')"
  shows "8 \<le> length (Buf p)" "length (incoming t') < length (incoming t)"
  using assms
  by (auto simp: ReadPacket_def read_full_def unprotect_def dataPayloadOffset_def PacketHeaderSize_def Let_def
      split: option.splits prod.splits sum.splits if_splits)

lemma ReadPacket_type: "ReadPacket t = (Inr p, t') \<Longrightarrow> Type p = Buf p ! 4"
  by (auto simp: ReadPacket_def Let_def split: option.splits prod.splits sum.splits if_splits)

text \<open>A packet whose header gives its own length, and the largest length a header can give.\<close>

definition max_framed :: "bool \<Rightarrow> nat" where
  "max_framed full = (if full then MaxSDU * 4 else 65535)"

definition framed :: "bool \<Rightarrow> bytes \<Rightarrow> bool" where
  "framed full dat \<longleftrightarrow> PacketHeaderSize \<le> length dat \<and> length dat \<le> max_framed full \<and> packet_size full dat = length dat"

lemma Suc_Suc_minus: "4 \<le> k \<Longrightarrow> Suc (Suc (k - 2)) = k"
  by simp

lemma length_put_size [simp]: "4 \<le> length buf \<Longrightarrow> length (put_size full n buf) = length buf"
  by (simp add: put_size_def Suc_Suc_minus)

lemma put_size_drop: "4 \<le> k \<Longrightarrow> 4 \<le> length buf \<Longrightarrow> drop k (put_size full n buf) = drop k buf"
  by (cases full) (simp_all add: put_size_def drop_append Suc_Suc_minus)

lemma put_size_nth: "4 \<le> k \<Longrightarrow> k < length buf \<Longrightarrow> put_size full n buf ! k = buf ! k"
  by (cases full) (simp_all add: put_size_def nth_append Suc_Suc_minus)

lemma packet_size_put: "n \<le> max_framed full \<Longrightarrow> packet_size full (put_size full n buf) = n"
  by (cases full) (simp_all add: packet_size_def put_size_def max_framed_def MaxSDU_def take_append unat_of_nat)

lemma packet_size_take: "packet_size full (take 8 dat) = packet_size full dat"
  by (simp add: packet_size_def take_take)

lemma framed_put_size:
  "PacketHeaderSize \<le> length buf \<Longrightarrow> length buf \<le> max_framed full \<Longrightarrow> framed full (put_size full (length buf) buf)"
  by (simp add: framed_def packet_size_put PacketHeaderSize_def)

text \<open>Reading the bytes of a framed packet takes exactly them off the socket.\<close>

lemma ReadPacket_framed:
  assumes "\<not> closed r" "framed (fullPacketSize r) dat" "incoming r = dat @ rest"
  shows "ReadPacket r = (case unprotect dat (r\<lparr>incoming := rest\<rparr>) of
      (Inl e, t) \<Rightarrow> (Inl e, t)
    | (Inr buf, t) \<Rightarrow> (Inr \<lparr>Type = buf ! 4, Flags = buf ! 5, Buf = buf\<rparr>, t))"
proof -
  have l: "8 \<le> length dat" "length dat \<le> MaxSDU * 4" "packet_size (fullPacketSize r) (take 8 dat) = length dat"
    using assms(2) by (auto simp: framed_def max_framed_def MaxSDU_def PacketHeaderSize_def packet_size_take split: if_splits)
  have "take 8 dat @ drop 8 dat = dat" "length dat - 8 \<le> length dat + length rest - 8" by simp_all
  then show ?thesis
    using assms l by (simp add: ReadPacket_def Connected_def read_full_def PacketHeaderSize_def Let_def)
qed

lemma digest_size_pos: "0 < digest_size a"
  by (cases a) auto

lemma wrap_at_least_two:
  assumes "security_ok cr s" "Active (Some s)"
  shows "2 \<le> length (fst (security_wrap cr s p))"
proof -
  have prim: "crypto_ok cr" "\<And>key. cipher s = Some key \<Longrightarrow> crypto_ok cr \<and> aes_key_ok key"
    using assms by (auto simp: security_ok_def)
  show ?thesis
  proof (cases "cipher s")
    case None
    then obtain k where k: "hash s = Some k" using assms(2) by (auto simp: Active_def)
    have "0 < hash_size k" by (cases k) (simp_all add: digest_size_pos)
    then show ?thesis using None k hash.compute_len [OF prim(1), of k p]
      by (simp add: security_wrap_def case_prod_unfold Let_def)
  next
    case (Some key)
    have "0 < length (aes_encrypt cr key q)" for q by (simp add: aes_encrypt_def Let_def)
    from this [of "case hash s of None \<Rightarrow> p | Some k \<Rightarrow> p @ fst (hash_compute cr k p)"] show ?thesis
      using Some by (cases "hash s") (simp_all add: security_wrap_def case_prod_unfold Let_def Suc_le_eq)
  qed
qed

definition mirrored :: "transport \<Rightarrow> transport \<Rightarrow> bool" where
  "mirrored t r \<longleftrightarrow> fullPacketSize r = fullPacketSize t \<and> prims r = prims t \<and> sec r = map_option security_mirror (sec t)"

definition transport_ok :: "transport \<Rightarrow> bool" where
  "transport_ok t \<longleftrightarrow> \<not> closed t \<and> (\<forall>s. sec t = Some s \<longrightarrow> security_ok (prims t) s)"

lemma Active_mirror: "Active (Some (security_mirror s)) = Active (Some s)"
  by (simp add: Active_def security_mirror_def)

lemma hash_size_compute: "hash_size (snd (hash_compute cr k p)) = hash_size k"
  by (cases k) (simp_all add: aes_hash_compute_def rc4_hash_compute_def case_prod_unfold Let_def)

lemma wrap_Overhead: "Overhead (Some (snd (security_wrap cr s p))) = Overhead (Some s)"
  by (simp add: Overhead_def Active_def security_wrap_def hash_size_compute case_prod_unfold Let_def split: option.split)

text \<open>What protecting a packet does to it, and what the other end makes of the result.\<close>

definition same_setup :: "transport \<Rightarrow> transport \<Rightarrow> bool" where
  "same_setup t t' \<longleftrightarrow> write_ok t' = write_ok t \<and> fullPacketSize t' = fullPacketSize t \<and> prims t' = prims t \<and>
     Overhead (sec t') = Overhead (sec t) \<and> closed t' = closed t \<and> incoming t' = incoming t"

lemma protect_plain:
  assumes "\<not> (\<exists>s. sec t = Some s \<and> Active (Some s) \<and> dat ! 4 = PacketTypeData)" "mirrored t r"
  shows "protect dat t = (dat, t) \<and> unprotect dat r = (Inr dat, r)"
  using assms by (auto simp: protect_def unprotect_def mirrored_def Active_mirror split: option.splits)

lemma protect_active:
  assumes "security_ok (prims t) s" "sec t = Some s" "Active (Some s)" "dat ! 4 = PacketTypeData" "10 \<le> length dat"
    "length dat + Overhead (sec t) \<le> max_framed (fullPacketSize t)"
  obtains w buf s' where "protect dat t = (w, t\<lparr>sec := Some s'\<rparr>)" "framed (fullPacketSize t) w"
    "length w \<le> length dat + Overhead (sec t)" "security_ok (prims t) s'" "Overhead (Some s') = Overhead (Some s)"
    "\<And>r. mirrored t r \<Longrightarrow> unprotect w r = (Inr buf, r\<lparr>sec := Some (security_mirror s')\<rparr>)"
    "buf ! 4 = dat ! 4" "buf ! 5 = dat ! 5" "drop 8 buf = drop 8 dat"
proof -
  define u where "u = fst (security_wrap (prims t) s (drop 10 dat))"
  define s' where "s' = snd (security_wrap (prims t) s (drop 10 dat))"
  define nb where "nb = take 10 dat @ u"
  define w where "w = put_size (fullPacketSize t) (length nb) nb"
  have lu: "2 \<le> length u" "length u \<le> length dat - 10 + Overhead (sec t)"
    using wrap_at_least_two [OF assms(1,3)] wrap_length(1) [OF assms(1,3), of "drop 10 dat"] assms(2) by (simp_all add: u_def)
  then have lnb: "12 \<le> length nb" "length nb \<le> length dat + Overhead (sec t)" using assms(5) by (simp_all add: nb_def)
  have w: "w ! 4 = dat ! 4" "w ! 5 = dat ! 5" "length w = length nb" "drop 10 w = u" "drop 8 (take 10 w) = drop 8 (take 10 dat)"
    using lnb assms(5) by (simp_all add: w_def put_size_nth put_size_drop drop_take) (simp_all add: nb_def nth_append drop_take)
  have un: "security_unwrap (prims t) (security_mirror s) u = (Inr (drop 10 dat), security_mirror s')"
    unfolding u_def s'_def by (rule unwrap_wrap [OF assms(1)])
  have "drop 8 (take 10 w @ drop 10 dat) = drop 8 (take 10 w) @ drop 10 dat" using w lnb by simp
  also have "\<dots> = drop 8 (take 10 dat @ drop 10 dat)" using assms(5) by (simp add: w(5) del: append_take_drop_id)
  finally have "drop 8 (take 10 w @ drop 10 dat) = drop 8 dat" by simp
  moreover have "unprotect w r = (Inr (take 10 w @ drop 10 dat), r\<lparr>sec := Some (security_mirror s')\<rparr>)" if "mirrored t r" for r
    using assms(2-4) that w lnb un
    by (simp add: unprotect_def mirrored_def Active_mirror dataPayloadOffset_def PacketHeaderSize_def)
  moreover have "protect dat t = (w, t\<lparr>sec := Some s'\<rparr>)"
    using assms(2-5) by (simp add: protect_def dataPayloadOffset_def PacketHeaderSize_def w_def nb_def u_def s'_def case_prod_unfold Let_def)
  moreover have "framed (fullPacketSize t) w"
    unfolding w_def using lnb assms(6) by (simp add: framed_put_size PacketHeaderSize_def)
  ultimately show thesis
    using that [of w s' "take 10 w @ drop 10 dat"] w lnb wrap_security_ok [OF assms(1)] wrap_Overhead
    by (simp add: s'_def nth_append)
qed

lemma packet_crossing:
  assumes "transport_ok t" "mirrored t r" "\<not> closed r"
    "framed (fullPacketSize t) dat" "length dat + Overhead (sec t) \<le> max_framed (fullPacketSize t)"
    "dat ! 4 = PacketTypeData \<longrightarrow> dataPayloadOffset \<le> length dat" "WritePacket dat t = (None, t')"
  obtains w p r' where "outgoing t' = outgoing t @ [w]" "length w \<le> length dat + Overhead (sec t)" "same_setup t t'"
    "transport_ok t'" "\<forall>rest. ReadPacket (r\<lparr>incoming := w @ rest\<rparr>) = (Inr p, r'\<lparr>incoming := rest\<rparr>)"
    "Type p = dat ! 4" "Flags p = dat ! 5" "drop 8 (Buf p) = drop 8 dat" "mirrored t' r'" "\<not> closed r'"
proof -
  have t': "t' = (snd (protect dat t))\<lparr>outgoing := outgoing (snd (protect dat t)) @ [fst (protect dat t)]\<rparr>"
    using assms(7) by (auto simp: WritePacket_def socket_write_def Connected_def case_prod_unfold Let_def split: if_splits)
  have read: "ReadPacket (r\<lparr>incoming := w @ rest\<rparr>) = (Inr \<lparr>Type = buf ! 4, Flags = buf ! 5, Buf = buf\<rparr>, r\<lparr>incoming := rest, sec := so\<rparr>)"
    if "framed (fullPacketSize t) w" "\<And>x. unprotect w (r\<lparr>incoming := x\<rparr>) = (Inr buf, r\<lparr>incoming := x, sec := so\<rparr>)" for w buf so rest
    using ReadPacket_framed [of "r\<lparr>incoming := w @ rest\<rparr>" w rest] assms(2,3) that by (simp add: mirrored_def)
  have mr: "mirrored t (r\<lparr>incoming := x\<rparr>)" for x using assms(2) by (simp add: mirrored_def)
  show thesis
  proof (cases "\<exists>s. sec t = Some s \<and> Active (Some s) \<and> dat ! 4 = PacketTypeData")
    case False
    note pp = protect_plain [OF False mr]
    show thesis
      by (rule that [of dat "\<lparr>Type = dat ! 4, Flags = dat ! 5, Buf = dat\<rparr>" "r\<lparr>sec := sec r\<rparr>"])
        (use t' pp read [OF assms(4), of dat "sec r"] assms(1-3) in \<open>simp_all add: same_setup_def mirrored_def transport_ok_def\<close>)
  next
    case True
    then obtain s where s: "sec t = Some s" "Active (Some s)" and d4: "dat ! 4 = PacketTypeData" by blast
    have ok: "security_ok (prims t) s" using assms(1) s(1) by (simp add: transport_ok_def)
    have l10: "10 \<le> length dat" using assms(6) d4 by (simp add: dataPayloadOffset_def PacketHeaderSize_def)
    obtain w buf s' where w: "protect dat t = (w, t\<lparr>sec := Some s'\<rparr>)" "framed (fullPacketSize t) w"
      "length w \<le> length dat + Overhead (sec t)" "security_ok (prims t) s'" "Overhead (Some s') = Overhead (Some s)"
      and buf: "\<And>r. mirrored t r \<Longrightarrow> unprotect w r = (Inr buf, r\<lparr>sec := Some (security_mirror s')\<rparr>)"
        "buf ! 4 = dat ! 4" "buf ! 5 = dat ! 5" "drop 8 buf = drop 8 dat"
      using protect_active [OF ok s d4 l10 assms(5)] by metis
    have un: "unprotect w (r\<lparr>incoming := x\<rparr>) = (Inr buf, r\<lparr>incoming := x, sec := Some (security_mirror s')\<rparr>)" for x
      using buf(1) [OF mr] by simp
    show thesis
      by (rule that [of w "\<lparr>Type = buf ! 4, Flags = buf ! 5, Buf = buf\<rparr>" "r\<lparr>sec := Some (security_mirror s')\<rparr>"])
        (use t' w buf(2-4) read [OF w(2) un] assms(1-3) s in \<open>simp_all add: same_setup_def mirrored_def transport_ok_def\<close>)
  qed
qed

text \<open>
  Property C2. A packet handed to one end of a connection comes out at the other with its type, its
  flags and everything after the length unchanged, and nothing of the following packets is touched,
  with 16- and 32-bit lengths, protected or not, as long as the protected packet's length fits the header.
\<close>

theorem packet_crosses_connection:
  assumes "transport_ok t" "write_ok t (length (outgoing t))" "mirrored t r" "\<not> closed r"
    "framed (fullPacketSize t) dat" "length dat + Overhead (sec t) \<le> max_framed (fullPacketSize t)"
    "dat ! 4 = PacketTypeData \<longrightarrow> dataPayloadOffset \<le> length dat"
    "WritePacket dat t = (None, t')" "incoming r = last (outgoing t') @ rest"
  shows "\<exists>p r'. ReadPacket r = (Inr p, r') \<and> Type p = dat ! 4 \<and> Flags p = dat ! 5 \<and>
    drop 8 (Buf p) = drop 8 dat \<and> incoming r' = rest \<and> mirrored t' r' \<and> \<not> closed r'"
proof -
  obtain w p r' where w: "outgoing t' = outgoing t @ [w]" "ReadPacket (r\<lparr>incoming := w @ rest\<rparr>) = (Inr p, r'\<lparr>incoming := rest\<rparr>)"
    "Type p = dat ! 4" "Flags p = dat ! 5" "drop 8 (Buf p) = drop 8 dat" "mirrored t' r'" "\<not> closed r'"
    using packet_crossing [OF assms(1,3-8)] by metis
  then have "r\<lparr>incoming := w @ rest\<rparr> = r" using assms(9) by simp
  then show ?thesis using w by (auto simp: mirrored_def)
qed

text \<open>Two ends of a connection protected by the concrete primitives.\<close>

definition toy_end :: "security \<Rightarrow> bytes \<Rightarrow> transport" where
  "toy_end s inc = \<lparr>incoming = inc, at_end = IoEOF, outgoing = [], write_ok = (\<lambda>_. True), fullPacketSize = True,
     maxPacketSize = 8192, closed = False, sec = Some s, prims = toy_crypto\<rparr>"

definition toy_packet :: bytes where
  "toy_packet = [0, 0, 0, 12, 6, 0, 0, 0, 0, 0, 7, 8]"

definition toy_sent :: transport where
  "toy_sent = snd (WritePacket toy_packet (toy_end toy_security []))"

definition toy_receiver :: transport where
  "toy_receiver = toy_end (security_mirror toy_security) (last (outgoing toy_sent) @ [1, 2])"

lemma toy_crossing_assms:
  "transport_ok (toy_end toy_security [])" "mirrored (toy_end toy_security []) toy_receiver"
  "WritePacket toy_packet (toy_end toy_security []) = (None, toy_sent)"
  using toy_security_ok(1)
  by (simp_all add: transport_ok_def toy_end_def mirrored_def toy_receiver_def toy_sent_def WritePacket_def
      Connected_def socket_write_def protect_def case_prod_unfold Let_def)

theorem packet_crosses_connection_witness:
  "\<exists>p r'. ReadPacket toy_receiver = (Inr p, r') \<and> Type p = toy_packet ! 4 \<and> Flags p = toy_packet ! 5 \<and>
    drop 8 (Buf p) = drop 8 toy_packet \<and> incoming r' = [1, 2] \<and> mirrored toy_sent r' \<and> \<not> closed r'"
proof -
  have o': "Overhead (Some toy_security) = 50" by code_simp
  have "packet_size True toy_packet = 12" by code_simp
  then have "framed True toy_packet" by (simp add: framed_def toy_packet_def max_framed_def MaxSDU_def PacketHeaderSize_def)
  then have f: "framed (fullPacketSize (toy_end toy_security [])) toy_packet" by (simp add: toy_end_def)
  have m: "length toy_packet + Overhead (sec (toy_end toy_security [])) \<le> max_framed (fullPacketSize (toy_end toy_security []))"
    by (simp add: toy_end_def o' toy_packet_def max_framed_def MaxSDU_def)
  show ?thesis
    by (rule packet_crosses_connection [OF toy_crossing_assms(1) _ toy_crossing_assms(2) _ f m _ toy_crossing_assms(3)])
      (simp_all add: toy_receiver_def toy_end_def toy_packet_def dataPayloadOffset_def PacketHeaderSize_def)
qed

text \<open>
  Property C38. A packet with at most one byte after the data flags is delivered as it is, whatever
  protection is negotiated: it is neither deciphered nor checked, and the keystream does not move, so
  anyone on the network can insert an end-of-response message into a protected session.
\<close>

theorem short_packet_unprotected:
  assumes "\<not> closed r" "framed (fullPacketSize r) dat" "length dat \<le> 11" "incoming r = dat @ rest"
  shows "ReadPacket r = (Inr \<lparr>Type = dat ! 4, Flags = dat ! 5, Buf = dat\<rparr>, r\<lparr>incoming := rest\<rparr>)"
proof -
  have "unprotect dat (r\<lparr>incoming := rest\<rparr>) = (Inr dat, r\<lparr>incoming := rest\<rparr>)"
    using assms(3) by (auto simp: unprotect_def dataPayloadOffset_def PacketHeaderSize_def split: option.splits)
  then show ?thesis using ReadPacket_framed [OF assms(1,2,4)] by simp
qed

theorem short_packet_unprotected_witness:
  "ReadPacket (toy_end toy_security ([0, 0, 0, 11, 6, 0, 0, 0, 0, 0, 29] @ [5])) =
    (Inr \<lparr>Type = 6, Flags = 0, Buf = [0, 0, 0, 11, 6, 0, 0, 0, 0, 0, 29]\<rparr>, (toy_end toy_security []) \<lparr>incoming := [5]\<rparr>) \<and>
   HasEndOfResponse \<lparr>Type = 6, Flags = 0, Buf = [0, 0, 0, 11, 6, 0, 0, 0, 0, 0, 29]\<rparr>"
proof
  have "packet_size True [0, 0, 0, 11, 6, 0, 0, 0, 0, 0, 29] = 11" by code_simp
  then have "framed True [0, 0, 0, 11, 6, 0, 0, 0, 0, 0, 29]"
    by (simp add: framed_def max_framed_def MaxSDU_def PacketHeaderSize_def)
  then show "ReadPacket (toy_end toy_security ([0, 0, 0, 11, 6, 0, 0, 0, 0, 0, 29] @ [5])) =
    (Inr \<lparr>Type = 6, Flags = 0, Buf = [0, 0, 0, 11, 6, 0, 0, 0, 0, 0, 29]\<rparr>, (toy_end toy_security []) \<lparr>incoming := [5]\<rparr>)"
    using short_packet_unprotected [of "toy_end toy_security ([0, 0, 0, 11, 6, 0, 0, 0, 0, 0, 29] @ [5])"
        "[0, 0, 0, 11, 6, 0, 0, 0, 0, 0, 29]" "[5]"]
    by (simp add: toy_end_def)
  show "HasEndOfResponse \<lparr>Type = 6, Flags = 0, Buf = [0, 0, 0, 11, 6, 0, 0, 0, 0, 0, 29]\<rparr>" by code_simp
qed

end
