(* ===== verification/TnsReadBuf.thy ===== *)
theory TnsReadBuf
  imports TnsTransport Utf8
begin

text \<open>
  \<^verbatim>\<open>internal/tns/readbuf.go\<close>: the buffer that reads values from a sequence of packets. The record
  \<open>session\<close> is the store of one connection: the transport and the capabilities, which the code shares
  between both buffers by pointers, the fields of \<open>ReadBuffer\<close> (\<open>r\<close>-prefixed where a name is shared)
  and those of \<open>WriteBuffer\<close>. An operation is a computation of \<open>State_Monad\<close> over it; the reading
  operations keep a sticky error and return zero values once it is set. A slice that the code says is
  valid until the next read is returned as its bytes, so of the scratch and chunk buffers only whether
  the chunk buffer is still nil is kept: a chunked value without chunks is then nil too.
\<close>

record session =
  tr :: transport
  caps :: capabilities
  rdata :: bytes
  rpos :: nat
  rsize :: nat
  current :: "packet option"
  saved :: "packet list"
  nextPacketPos :: nat
  pendingErrorNum :: u32
  checkRequestBoundary :: bool
  rerr :: "tns_error option"
  chunk_nil :: bool
  wdata :: bytes
  wpos :: nat
  wmaxSize :: int
  packetType :: u8
  packetFlags :: u8
  dataFlags :: u16
  seqNum :: u8
  packetSent :: bool
  werr :: "tns_error option"

type_synonym ('z, 'a) op = "('z session_scheme, 'a) state"

definition gets :: "('s \<Rightarrow> 'a) \<Rightarrow> ('s, 'a) state" where
  "gets f = State (\<lambda>s. (f s, s))"

definition modify :: "('s \<Rightarrow> 's) \<Rightarrow> ('s, unit) state" where
  "modify f = State (\<lambda>s. ((), f s))"

lemma run_gets [simp]: "run_state (gets f) s = (f s, s)"
  by (simp add: gets_def)

lemma run_modify [simp]: "run_state (modify f) s = ((), f s)"
  by (simp add: modify_def)

lemma run_bind [simp]: "run_state (State_Monad.bind m f) s = (let (x, s') = run_state m s in run_state (f x) s')"
  by (simp add: State_Monad.bind_def case_prod_unfold Let_def)

lemma run_return [simp]: "run_state (State_Monad.return x) s = (x, s)"
  by (simp add: State_Monad.return_def)

subsection \<open>Packets\<close>

definition set_err :: "tns_error \<Rightarrow> 'z session_scheme \<Rightarrow> 'z session_scheme" where
  "set_err e s = (if rerr s = None then s\<lparr>rerr := Some e\<rparr> else s)"

definition SetErr :: "tns_error \<Rightarrow> ('z, unit) op" where
  "SetErr e = modify (set_err e)"

definition ClearErr :: "('z, unit) op" where
  "ClearErr = modify (\<lambda>s. s\<lparr>rerr := None\<rparr>)"

definition ClearPendingError :: "('z, unit) op" where
  "ClearPendingError = modify (\<lambda>s. s\<lparr>pendingErrorNum := 0\<rparr>)"

definition SetCheckRequestBoundary :: "bool \<Rightarrow> ('z, unit) op" where
  "SetCheckRequestBoundary v = modify (\<lambda>s. s\<lparr>checkRequestBoundary := v\<rparr>)"

definition ResetPackets :: "('z, unit) op" where
  "ResetPackets = modify (\<lambda>s. s\<lparr>saved := [], nextPacketPos := 0, current := None, rdata := [], rpos := 0, rsize := 0\<rparr>)"

definition BytesLeft :: "'z session_scheme \<Rightarrow> nat" where
  "BytesLeft s = rsize s - rpos s"

definition processPacket :: "packet \<Rightarrow> 'z session_scheme \<Rightarrow> bool \<times> 'z session_scheme" where
  "processPacket p s =
     (if Type p = PacketTypeControl then
        (False,
         if length (Buf p) \<ge> PacketHeaderSize + 2 then
           (let ct = of_be (take 2 (drop PacketHeaderSize (Buf p))) :: u16 in
            if ct = ControlTypeResetOOB then s\<lparr>caps := (caps s)\<lparr>SupportsOOB := False\<rparr>\<rparr>
            else if ct = ControlTypeInbandNotification \<and> length (Buf p) \<ge> PacketHeaderSize + 10 then
              s\<lparr>pendingErrorNum := of_be (take 4 (drop (PacketHeaderSize + 6) (Buf p)))\<rparr>
            else s)
         else s)
      else
        (Type p \<noteq> PacketTypeData \<or> \<not> checkRequestBoundary s \<or> HasEndOfResponse p, s\<lparr>saved := saved s @ [p]\<rparr>))"

definition readUint16BEraw :: "'z session_scheme \<Rightarrow> u16 \<times> 'z session_scheme" where
  "readUint16BEraw s =
     (if rpos s + 2 > rsize s then (0, set_err TruncatedPacket s)
      else (of_be (take 2 (drop (rpos s) (rdata s))), s\<lparr>rpos := rpos s + 2\<rparr>))"

definition startPacket :: "'z session_scheme \<Rightarrow> 'z session_scheme" where
  "startPacket s =
     (let p = saved s ! nextPacketPos s;
          s = s\<lparr>current := Some p, nextPacketPos := nextPacketPos s + 1, rdata := Buf p,
                rsize := length (Buf p), rpos := PacketHeaderSize\<rparr>
      in if Type p = PacketTypeData then
           (let (flags, s) = readUint16BEraw s
            in if flags = DataFlagsEOF then s\<lparr>pendingErrorNum := ErrSessionShutdown\<rparr> else s)
         else s)"

definition checkConnected :: "u32 \<Rightarrow> tns_error option" where
  "checkConnected num =
     (if num = 0 \<or> num = ErrSessionShutdown \<or> num = ErrInbandMessage then None
      else if num = ErrExceededIdleTime then Some IdleTimeExceeded
      else Some (UnsupportedInband num))"

lemma processPacket_tr: "tr (snd (processPacket p s)) = tr s"
  by (simp add: processPacket_def Let_def)

text \<open>The loop of \<open>WaitForPackets\<close>: packets are read until one completes a response.\<close>

function packet_loop :: "'z session_scheme \<Rightarrow> 'z session_scheme" where
  "packet_loop s =
     (case ReadPacket (tr s) of
        (Inl e, t) \<Rightarrow> set_err e (s\<lparr>tr := t\<rparr>)
      | (Inr p, t) \<Rightarrow>
        if fst (processPacket p (s\<lparr>tr := t\<rparr>)) then snd (processPacket p (s\<lparr>tr := t\<rparr>))
        else case checkConnected (pendingErrorNum (snd (processPacket p (s\<lparr>tr := t\<rparr>)))) of
          Some e \<Rightarrow> set_err e (snd (processPacket p (s\<lparr>tr := t\<rparr>)))
        | None \<Rightarrow> packet_loop (snd (processPacket p (s\<lparr>tr := t\<rparr>))))"
  by pat_completeness auto

termination
  by (relation "measure (\<lambda>s. length (incoming (tr s)))")
    (auto simp: processPacket_tr dest: ReadPacket_size(2) [OF sym])

declare packet_loop.simps [simp del]

definition wait_packets :: "bool \<Rightarrow> 'z session_scheme \<Rightarrow> 'z session_scheme" where
  "wait_packets checkMarker s =
     (if rerr s \<noteq> None then s
      else let s = (if nextPacketPos s \<ge> length (saved s) then packet_loop s else s) in
        if rerr s \<noteq> None then s
        else let s = startPacket s in
          if checkMarker \<and> Type (the (current s)) = PacketTypeMarker then set_err ErrMarkerDetected s else s)"

definition WaitForPackets :: "bool \<Rightarrow> ('z, tns_error option) op" where
  "WaitForPackets checkMarker = do { modify (wait_packets checkMarker); gets rerr }"

subsection \<open>Every wait uses up input\<close>

definition unread :: "'z session_scheme \<Rightarrow> nat" where
  "unread s = length (incoming (tr s)) + (length (saved s) - nextPacketPos s)"

lemma set_err_simps [simp]:
  "tr (set_err e s) = tr s" "saved (set_err e s) = saved s" "nextPacketPos (set_err e s) = nextPacketPos s"
  "rpos (set_err e s) = rpos s" "rsize (set_err e s) = rsize s" "rdata (set_err e s) = rdata s"
  "current (set_err e s) = current s" "rerr (set_err e s) \<noteq> None"
  by (auto simp: set_err_def)

lemma packet_loop_progress:
  "rerr (packet_loop s) = None \<Longrightarrow>
    nextPacketPos (packet_loop s) = nextPacketPos s \<and> length (saved s) < length (saved (packet_loop s)) \<and>
    length (incoming (tr (packet_loop s))) + length (saved (packet_loop s)) \<le> length (incoming (tr s)) + length (saved s)"
proof (induction s rule: packet_loop.induct)
  case (1 s)
  show ?case
  proof (cases "ReadPacket (tr s)")
    case (Pair r t)
    show ?thesis
    proof (cases r)
      case (Inl e)
      then show ?thesis using 1(2) Pair by (simp add: packet_loop.simps [of s])
    next
      case (Inr p)
      have inc: "length (incoming t) < length (incoming (tr s))" using ReadPacket_size(2) Pair Inr by blast
      define s1 where "s1 = snd (processPacket p (s\<lparr>tr := t\<rparr>))"
      have s1: "tr s1 = t" "nextPacketPos s1 = nextPacketPos s"
        "saved s1 = saved s \<or> saved s1 = saved s @ [p]"
        "fst (processPacket p (s\<lparr>tr := t\<rparr>)) \<Longrightarrow> saved s1 = saved s @ [p]"
        by (auto simp: s1_def processPacket_def Let_def)
      have l: "length (saved s1) \<le> length (saved s) + 1" "length (saved s) \<le> length (saved s1)" using s1(3) by auto
      show ?thesis
      proof (cases "fst (processPacket p (s\<lparr>tr := t\<rparr>))")
        case True
        then show ?thesis using inc s1 Pair Inr by (simp add: packet_loop.simps [of s] s1_def [symmetric])
      next
        case False
        show ?thesis
        proof (cases "checkConnected (pendingErrorNum s1)")
          case None
          have e: "packet_loop s = packet_loop s1"
            using False None Pair Inr by (simp add: packet_loop.simps [of s] s1_def [symmetric])
          have r0: "rerr (packet_loop s1) = None" using 1(2) e by simp
          note IH = 1(1) [OF Pair [symmetric] Inr False, folded s1_def, OF None r0]
          show ?thesis using IH inc s1 l e by simp
        next
          case (Some e)
          then show ?thesis using 1(2) False Pair Inr by (simp add: packet_loop.simps [of s] s1_def [symmetric])
        qed
      qed
    qed
  qed
qed

text \<open>The well-formedness of the reader: the position is inside the current packet.\<close>

definition rbuf_ok :: "'z session_scheme \<Rightarrow> bool" where
  "rbuf_ok s \<longleftrightarrow> rpos s \<le> rsize s \<and> rsize s = length (rdata s) \<and> nextPacketPos s \<le> length (saved s) \<and>
     (\<forall>p \<in> set (saved s). 8 \<le> length (Buf p))"

lemma rbuf_ok_set_err [simp]: "rbuf_ok (set_err e s) = rbuf_ok s"
  by (simp add: rbuf_ok_def)

lemma packet_loop_ok: "rbuf_ok s \<Longrightarrow> rbuf_ok (packet_loop s)"
proof (induction s rule: packet_loop.induct)
  case (1 s)
  show ?case
  proof (cases "ReadPacket (tr s)")
    case (Pair r t)
    show ?thesis
    proof (cases r)
      case (Inl e)
      then show ?thesis using 1(2) Pair by (simp add: packet_loop.simps [of s] rbuf_ok_def)
    next
      case (Inr p)
      have "8 \<le> length (Buf p)" using ReadPacket_size(1) Pair Inr by blast
      then have ok: "rbuf_ok (snd (processPacket p (s\<lparr>tr := t\<rparr>)))"
        using 1(2) by (auto simp: rbuf_ok_def processPacket_def Let_def)
      show ?thesis
        unfolding packet_loop.simps [of s]
        using ok 1(1) [OF Pair [symmetric] Inr _ _ ok] Pair Inr by (auto split: option.split)
    qed
  qed
qed

lemma startPacket_ok:
  assumes "rbuf_ok s" "nextPacketPos s < length (saved s)"
  shows "rbuf_ok (startPacket s)"
proof -
  have "8 \<le> length (Buf (saved s ! nextPacketPos s))" using assms by (simp add: rbuf_ok_def)
  then show ?thesis using assms
    by (auto simp: startPacket_def readUint16BEraw_def rbuf_ok_def PacketHeaderSize_def Let_def)
qed

lemma startPacket_simps [simp]:
  "tr (startPacket s) = tr s" "saved (startPacket s) = saved s" "nextPacketPos (startPacket s) = nextPacketPos s + 1"
  by (simp_all add: startPacket_def readUint16BEraw_def Let_def)

lemma wait_packets_ok: "rbuf_ok s \<Longrightarrow> rbuf_ok (wait_packets m s)"
proof -
  assume ok: "rbuf_ok s"
  define s1 where "s1 = (if nextPacketPos s \<ge> length (saved s) then packet_loop s else s)"
  have ok1: "rbuf_ok s1" using ok packet_loop_ok [of s] by (simp add: s1_def)
  have "nextPacketPos s1 < length (saved s1)" if "rerr s1 = None"
  proof (cases "nextPacketPos s \<ge> length (saved s)")
    case True
    then show ?thesis using packet_loop_progress [of s] that ok by (simp add: s1_def rbuf_ok_def)
  qed (simp add: s1_def)
  then have "rerr s1 = None \<Longrightarrow> rbuf_ok (startPacket s1)" using ok1 startPacket_ok by blast
  then show ?thesis using ok ok1 by (simp add: wait_packets_def s1_def [symmetric] Let_def)
qed

lemma wait_packets_progress:
  assumes "rerr (wait_packets m s) = None"
  shows "unread (wait_packets m s) < unread s"
proof -
  define s1 where "s1 = (if nextPacketPos s \<ge> length (saved s) then packet_loop s else s)"
  have "rerr s = None" using assms by (cases "rerr s") (simp_all add: wait_packets_def)
  then have w: "wait_packets m s = (if rerr s1 \<noteq> None then s1 else
      let s = startPacket s1 in if m \<and> Type (the (current s)) = PacketTypeMarker then set_err ErrMarkerDetected s else s)"
    by (simp add: wait_packets_def s1_def Let_def)
  then have "rerr s1 = None" using assms by (auto simp: Let_def split: if_splits)
  moreover have "unread (startPacket s1) < unread s" if "rerr s1 = None"
  proof (cases "nextPacketPos s \<ge> length (saved s)")
    case True
    then have e: "s1 = packet_loop s" by (simp add: s1_def)
    have "nextPacketPos s1 = nextPacketPos s \<and> length (saved s) < length (saved s1) \<and>
      length (incoming (tr s1)) + length (saved s1) \<le> length (incoming (tr s)) + length (saved s)"
      using packet_loop_progress [of s] that e by simp
    then show ?thesis using True unfolding unread_def startPacket_simps by linarith
  next
    case False
    then show ?thesis by (simp add: s1_def unread_def)
  qed
  ultimately show ?thesis using w assms by (auto simp: Let_def unread_def split: if_splits)
qed

subsection \<open>Raw bytes\<close>

definition rest_of_packet :: "'z session_scheme \<Rightarrow> bytes" where
  "rest_of_packet s = drop (rpos s) (take (rsize s) (rdata s))"

lemma unread_rpos [simp]: "unread (s\<lparr>rpos := p\<rparr>) = unread s"
  by (simp add: unread_def)

text \<open>
  The loop of \<open>getRaw\<close> that assembles a value split across packets: \<open>n\<close> bytes are still missing
  and \<open>acc\<close> are the copied ones.
\<close>

function get_rest :: "nat \<Rightarrow> bytes \<Rightarrow> 'z session_scheme \<Rightarrow> bytes option \<times> 'z session_scheme" where
  "get_rest n acc s =
     (if n = 0 then (Some acc, s)
      else if rerr (wait_packets True s) \<noteq> None then (None, wait_packets True s)
      else let s1 = wait_packets True s; m = min n (BytesLeft s1) in
        get_rest (n - m) (acc @ take m (rest_of_packet s1)) (s1\<lparr>rpos := rpos s1 + m\<rparr>))"
  by pat_completeness auto

termination
  by (relation "measure (\<lambda>(_, _, s). unread s)") (auto intro: wait_packets_progress)

declare get_rest.simps [simp del]

definition get_raw :: "nat \<Rightarrow> 'z session_scheme \<Rightarrow> bytes option \<times> 'z session_scheme" where
  "get_raw n s =
     (if rerr s \<noteq> None then (None, s)
      else let s = (if rpos s = rsize s then wait_packets True s else s) in
        if rerr s \<noteq> None then (None, s)
        else if n \<le> BytesLeft s then (Some (take n (rest_of_packet s)), s\<lparr>rpos := rpos s + n\<rparr>)
        else get_rest (n - BytesLeft s) (rest_of_packet s) (s\<lparr>rpos := rsize s\<rparr>))"

definition getRaw :: "nat \<Rightarrow> ('z, bytes option) op" where
  "getRaw n = State (get_raw n)"

function skip_raw :: "nat \<Rightarrow> 'z session_scheme \<Rightarrow> 'z session_scheme" where
  "skip_raw n s =
     (if n > 0 \<and> rerr s = None then
        (if BytesLeft s = 0 then
           (if rerr (wait_packets True s) \<noteq> None then wait_packets True s else skip_raw n (wait_packets True s))
         else let m = min n (BytesLeft s) in skip_raw (n - m) (s\<lparr>rpos := rpos s + m\<rparr>))
      else s)"
  by pat_completeness auto

termination
  by (relation "(\<lambda>(n, s). n) <*mlex*> measure (\<lambda>(n, s). unread s)")
    (auto simp: mlex_prod_def intro: wait_packets_progress intro!: wf_mlex)

declare skip_raw.simps [simp del]

definition SkipRawBytes :: "nat \<Rightarrow> ('z, unit) op" where
  "SkipRawBytes n = modify (skip_raw n)"

definition ReadRawBytes :: "nat \<Rightarrow> ('z, bytes option) op" where
  "ReadRawBytes n = getRaw n"

subsection \<open>Integers\<close>

definition intLengthAndSign :: "nat \<Rightarrow> bool \<Rightarrow> ('z, nat \<times> bool) op" where
  "intLengthAndSign maxLen allowNeg = do {
     ob \<leftarrow> getRaw 1;
     case ob of None \<Rightarrow> State_Monad.return (0, False)
     | Some b \<Rightarrow>
       let b0 = b ! 0; neg = (b0 AND 0x80 \<noteq> 0); len = unat (if neg then b0 AND 0x7f else b0) in
       if neg \<and> \<not> allowNeg then do { SetErr UnexpectedNegative; State_Monad.return (0, False) }
       else if len > maxLen then do { SetErr (IntegerTooLong len); State_Monad.return (0, False) }
       else State_Monad.return (len, neg) }"

definition decodeInteger :: "bytes \<Rightarrow> u64" where
  "decodeInteger b = of_be b"

definition ReadUB1 :: "('z, u8) op" where
  "ReadUB1 = do { ob \<leftarrow> getRaw 1; State_Monad.return (case ob of None \<Rightarrow> 0 | Some b \<Rightarrow> b ! 0) }"

definition ReadSB1 :: "('z, int) op" where
  "ReadSB1 = do { v \<leftarrow> ReadUB1; State_Monad.return (sint v) }"

definition readUnsigned :: "nat \<Rightarrow> ('z, u64) op" where
  "readUnsigned maxLen = do {
     (len, _) \<leftarrow> intLengthAndSign maxLen False;
     err \<leftarrow> gets rerr;
     if len = 0 \<or> err \<noteq> None then State_Monad.return 0
     else do { ob \<leftarrow> getRaw len; State_Monad.return (case ob of None \<Rightarrow> 0 | Some b \<Rightarrow> decodeInteger b) } }"

definition readSigned :: "nat \<Rightarrow> ('z, int) op" where
  "readSigned maxLen = do {
     (len, neg) \<leftarrow> intLengthAndSign maxLen True;
     err \<leftarrow> gets rerr;
     if len = 0 \<or> err \<noteq> None then State_Monad.return 0
     else do {
       ob \<leftarrow> getRaw len;
       State_Monad.return (case ob of None \<Rightarrow> 0
         | Some b \<Rightarrow> let v = sint (decodeInteger b) in if neg then int64_of (- v) else v) } }"

definition ReadUB2 :: "('z, u16) op" where
  "ReadUB2 = do { v \<leftarrow> readUnsigned 2; State_Monad.return (ucast v) }"

definition ReadUB4 :: "('z, u32) op" where
  "ReadUB4 = do { v \<leftarrow> readUnsigned 4; State_Monad.return (ucast v) }"

definition ReadUB8 :: "('z, u64) op" where
  "ReadUB8 = readUnsigned 8"

definition ReadSB2 :: "('z, int) op" where
  "ReadSB2 = do { v \<leftarrow> readSigned 2; State_Monad.return (wrap_signed 16 v) }"

definition ReadSB4 :: "('z, int) op" where
  "ReadSB4 = do { v \<leftarrow> readSigned 4; State_Monad.return (int32_of v) }"

definition ReadSB8 :: "('z, int) op" where
  "ReadSB8 = readSigned 8"

definition SkipUB1 :: "('z, unit) op" where
  "SkipUB1 = do { _ \<leftarrow> getRaw 1; State_Monad.return () }"

definition SkipUB2 :: "('z, unit) op" where
  "SkipUB2 = do { _ \<leftarrow> readUnsigned 2; State_Monad.return () }"

definition SkipUB4 :: "('z, unit) op" where
  "SkipUB4 = do { _ \<leftarrow> readUnsigned 4; State_Monad.return () }"

definition SkipUB8 :: "('z, unit) op" where
  "SkipUB8 = do { _ \<leftarrow> readUnsigned 8; State_Monad.return () }"

definition SkipSB4 :: "('z, unit) op" where
  "SkipSB4 = do { _ \<leftarrow> readSigned 4; State_Monad.return () }"

definition ReadUint16BE :: "('z, u16) op" where
  "ReadUint16BE = do { ob \<leftarrow> getRaw 2; State_Monad.return (case ob of None \<Rightarrow> 0 | Some b \<Rightarrow> of_be b) }"

definition ReadUint16LE :: "('z, u16) op" where
  "ReadUint16LE = do { ob \<leftarrow> getRaw 2; State_Monad.return (case ob of None \<Rightarrow> 0 | Some b \<Rightarrow> of_le16 b) }"

definition ReadUint32BE :: "('z, u32) op" where
  "ReadUint32BE = do { ob \<leftarrow> getRaw 4; State_Monad.return (case ob of None \<Rightarrow> 0 | Some b \<Rightarrow> of_be b) }"

definition ReadUint64BE :: "('z, u64) op" where
  "ReadUint64BE = do { ob \<leftarrow> getRaw 8; State_Monad.return (case ob of None \<Rightarrow> 0 | Some b \<Rightarrow> of_be b) }"

subsection \<open>Every value read uses up input\<close>

text \<open>The order that decreases with what is left to read.\<close>

definition less_input :: "('z session_scheme \<times> 'z session_scheme) set" where
  "less_input = inv_image (less_than <*lex*> less_than) (\<lambda>s. (unread s, BytesLeft s))"

lemma wf_less_input: "wf less_input"
  by (auto simp: less_input_def)

lemma less_input_iff:
  "(s', s) \<in> less_input \<longleftrightarrow> unread s' < unread s \<or> unread s' = unread s \<and> BytesLeft s' < BytesLeft s"
  by (auto simp: less_input_def)

lemma less_input_trans: "(a, b) \<in> less_input \<Longrightarrow> (b, c) \<in> less_input \<Longrightarrow> (a, c) \<in> less_input"
  by (auto simp: less_input_iff)

lemma get_rest_progress:
  "get_rest n acc s = (Some b, s') \<Longrightarrow> unread s' \<le> unread s \<and> (0 < n \<longrightarrow> unread s' < unread s)"
proof (induction n acc s rule: get_rest.induct)
  case (1 n acc s)
  show ?case
  proof (cases "n = 0 \<or> rerr (wait_packets True s) \<noteq> None")
    case True
    then show ?thesis using 1(2) by (auto simp: get_rest.simps [of n] split: if_splits)
  next
    case False
    then show ?thesis
      using 1(1) [OF _ _ refl refl] 1(2) wait_packets_progress [of True s]
      by (fastforce simp: get_rest.simps [of n] Let_def)
  qed
qed

lemma get_raw_progress:
  assumes "get_raw n s = (Some b, s')" "0 < n"
  shows "(s', s) \<in> less_input"
proof -
  define s1 where "s1 = (if rpos s = rsize s then wait_packets True s else s)"
  have e: "rerr s = None" "rerr s1 = None" using assms(1) by (auto simp: get_raw_def s1_def Let_def split: if_splits)
  have u: "unread s1 \<le> unread s" "rpos s = rsize s \<Longrightarrow> unread s1 < unread s"
    using wait_packets_progress [of True s] e(2) by (auto simp: s1_def split: if_splits)
  have s1: "rpos s \<noteq> rsize s \<Longrightarrow> s1 = s" by (simp add: s1_def)
  show ?thesis
  proof (cases "n \<le> BytesLeft s1")
    case True
    then have "s' = s1\<lparr>rpos := rpos s1 + n\<rparr>" using assms(1) e by (simp add: get_raw_def s1_def [symmetric])
    then show ?thesis using u s1 True assms(2) by (cases "rpos s = rsize s") (auto simp: less_input_iff BytesLeft_def)
  next
    case False
    then have "get_rest (n - BytesLeft s1) (rest_of_packet s1) (s1\<lparr>rpos := rsize s1\<rparr>) = (Some b, s')"
      using assms(1) e by (simp add: get_raw_def s1_def [symmetric])
    from get_rest_progress [OF this] show ?thesis using u False by (auto simp: less_input_iff)
  qed
qed

text \<open>A failed read records its error.\<close>

lemma get_rest_None: "get_rest n acc s = (None, s') \<Longrightarrow> rerr s' \<noteq> None"
proof (induction n acc s rule: get_rest.induct)
  case (1 n acc s)
  show ?case
  proof (cases "n = 0 \<or> rerr (wait_packets True s) \<noteq> None")
    case True
    then show ?thesis using 1(2) by (auto simp: get_rest.simps [of n] split: if_splits)
  next
    case False
    then show ?thesis using 1(1) [OF _ _ refl refl] 1(2) by (fastforce simp: get_rest.simps [of n] Let_def)
  qed
qed

lemma get_raw_None: "get_raw n s = (None, s') \<Longrightarrow> rerr s' \<noteq> None"
  using get_rest_None by (fastforce simp: get_raw_def Let_def split: if_splits)

text \<open>Once the error is set nothing is read and the state does not change.\<close>

lemma get_raw_err [simp]: "rerr s \<noteq> None \<Longrightarrow> get_raw n s = (None, s)"
  by (simp add: get_raw_def)

lemma run_getRaw [simp]: "run_state (getRaw n) s = get_raw n s"
  by (simp add: getRaw_def)

lemma readUnsigned_progress:
  assumes "run_state (readUnsigned m) s = (v, s')" "rerr s' = None"
  shows "(s', s) \<in> less_input"
proof (cases "get_raw 1 s")
  case (Pair ob s1)
  show ?thesis
  proof (cases ob)
    case None
    then show ?thesis using assms Pair get_raw_None [of 1 s s1]
      by (auto simp: readUnsigned_def intLengthAndSign_def case_prod_unfold Let_def split: if_splits)
  next
    case (Some b)
    have p: "(s1, s) \<in> less_input" using get_raw_progress [of 1 s b s1] Pair Some by simp
    show ?thesis
    proof (cases "s' = s1")
      case False
      then obtain len where "0 < len" "s' = snd (get_raw len s1)"
        using assms Pair Some
        by (auto simp: readUnsigned_def intLengthAndSign_def SetErr_def case_prod_unfold Let_def set_err_def split: if_splits)
      moreover from this obtain b' where "get_raw len s1 = (Some b', s')"
        using get_raw_None [of len s1 s'] assms(2) by (cases "get_raw len s1"; cases "fst (get_raw len s1)") auto
      ultimately show ?thesis using get_raw_progress [of len s1 b' s'] p less_input_trans by blast
    qed (use p in simp)
  qed
qed

lemma ReadUB4_progress: "run_state ReadUB4 s = (v, s') \<Longrightarrow> rerr s' = None \<Longrightarrow> (s', s) \<in> less_input"
  by (auto simp: ReadUB4_def case_prod_unfold Let_def intro: readUnsigned_progress [of 4 s] prod.collapse [symmetric])

subsection \<open>Length-prefixed values\<close>

text \<open>The loop over the chunks of a long value.\<close>

function chunk_loop :: "bytes \<Rightarrow> 'z session_scheme \<Rightarrow> bytes option \<times> 'z session_scheme" where
  "chunk_loop acc s =
     (case run_state ReadUB4 s of (n, s1) \<Rightarrow>
        if rerr s1 \<noteq> None then (None, s1)
        else if n = 0 then (if chunk_nil s1 then None else Some acc, s1)
        else case get_raw (unat n) s1 of
          (None, s2) \<Rightarrow> (None, s2)
        | (Some part, s2) \<Rightarrow> chunk_loop (acc @ part) (s2\<lparr>chunk_nil := False\<rparr>))"
  by pat_completeness auto

termination
proof (relation "inv_image less_input snd")
  show "wf (inv_image less_input snd)" by (intro wf_inv_image wf_less_input)
next
  fix acc :: bytes and s :: "'a session_scheme" and n and s1 and ob s2 part
  assume a: "(n, s1) = run_state ReadUB4 s" "\<not> rerr s1 \<noteq> None" "n \<noteq> 0" "(ob, s2) = get_raw (unat n) s1" "ob = Some part"
  have "(s1, s) \<in> less_input" using ReadUB4_progress [OF a(1) [symmetric]] a(2) by simp
  moreover have "(s2, s1) \<in> less_input"
    using get_raw_progress [of "unat n" s1 part s2] a(3-5) by (simp add: unat_gt_0)
  ultimately have "(s2, s) \<in> less_input" using less_input_trans by blast
  then show "((acc @ part, s2\<lparr>chunk_nil := False\<rparr>), acc, s) \<in> inv_image less_input snd"
    by (simp add: less_input_iff unread_def BytesLeft_def)
qed

declare chunk_loop.simps [simp del]

definition ReadRawBytesAndLength :: "('z, bytes option) op" where
  "ReadRawBytesAndLength = do {
     len \<leftarrow> ReadUB1;
     err \<leftarrow> gets rerr;
     if err \<noteq> None then State_Monad.return None
     else if len = 0 \<or> len = NullLengthIndicator then State_Monad.return None
     else if len \<noteq> LongLengthIndicator then getRaw (unat len)
     else State (chunk_loop []) }"

definition ReadBytes :: "('z, bytes option) op" where
  "ReadBytes = ReadRawBytesAndLength"

definition ReadBytesWithLength :: "('z, bytes option) op" where
  "ReadBytesWithLength = do { n \<leftarrow> ReadUB4; if n > 0 then ReadBytes else State_Monad.return None }"

text \<open>A Go string is its bytes; the flag is false for NULL.\<close>

definition DecodeUTF16BE :: "bytes \<Rightarrow> bytes" where
  "DecodeUTF16BE b =
     concat (map EncodeRune (utf16_decode (map (\<lambda>i. of_be (take 2 (drop (2 * i) b))) [0..<length b div 2])))"

definition ReadStr :: "bool \<Rightarrow> ('z, bytes \<times> bool) op" where
  "ReadStr nchar = do {
     ob \<leftarrow> ReadRawBytesAndLength;
     State_Monad.return (case ob of None \<Rightarrow> ([], False)
       | Some b \<Rightarrow> (if nchar then DecodeUTF16BE b else b, True)) }"

definition ReadStrWithLength :: "('z, bytes) op" where
  "ReadStrWithLength = do {
     n \<leftarrow> ReadUB4;
     if n = 0 then State_Monad.return []
     else do { (s, _) \<leftarrow> ReadStr False; State_Monad.return s } }"

definition read_null_terminated :: "'z session_scheme \<Rightarrow> bytes \<times> 'z session_scheme" where
  "read_null_terminated s =
     (let rest = rest_of_packet s; k = length (takeWhile (\<lambda>b. b \<noteq> 0) rest); p = min (rpos s + k + 1) (rsize s)
      in (take (p - rpos s) rest, s\<lparr>rpos := p\<rparr>))"

definition ReadNullTerminatedBytes :: "('z, bytes) op" where
  "ReadNullTerminatedBytes = State read_null_terminated"

text \<open>
  The loop of \<open>SkipBytes\<close>; after an error in the skip the next \<open>ReadUB4\<close> would return 0 and end it.
\<close>

lemma skip_raw_less: "rerr (skip_raw n s) = None \<Longrightarrow> skip_raw n s = s \<or> (skip_raw n s, s) \<in> less_input"
proof (induction n s rule: skip_raw.induct)
  case (1 n s)
  show ?case
  proof (cases "n > 0 \<and> rerr s = None")
    case a: True
    show ?thesis
    proof (cases "BytesLeft s = 0")
      case True
      show ?thesis
      proof (cases "rerr (wait_packets True s) = None")
        case w: True
        then have e: "skip_raw n s = skip_raw n (wait_packets True s)" using a True by (simp add: skip_raw.simps [of n s])
        have "(wait_packets True s, s) \<in> less_input" using wait_packets_progress [OF w] by (simp add: less_input_iff)
        then show ?thesis using 1(1) [OF a True] w 1(3) e less_input_trans by metis
      next
        case False
        then show ?thesis using 1(3) a True by (simp add: skip_raw.simps [of n s])
      qed
    next
      case False
      define m where "m = min n (BytesLeft s)"
      have e: "skip_raw n s = skip_raw (n - m) (s\<lparr>rpos := rpos s + m\<rparr>)"
        using a False by (simp add: skip_raw.simps [of n s] m_def Let_def)
      have "(s\<lparr>rpos := rpos s + m\<rparr>, s) \<in> less_input" using False a by (auto simp: less_input_iff BytesLeft_def m_def)
      then show ?thesis using 1(2) [OF a False m_def] 1(3) e less_input_trans by metis
    qed
  next
    case False
    then show ?thesis by (auto simp: skip_raw.simps [of n s])
  qed
qed

function skip_chunks :: "'z session_scheme \<Rightarrow> 'z session_scheme" where
  "skip_chunks s =
     (case run_state ReadUB4 s of (n, s1) \<Rightarrow>
        if n = 0 \<or> rerr s1 \<noteq> None then s1
        else if rerr (skip_raw (unat n) s1) \<noteq> None then skip_raw (unat n) s1
        else skip_chunks (skip_raw (unat n) s1))"
  by pat_completeness auto

termination
proof (relation less_input)
  show "wf less_input" by (rule wf_less_input)
next
  fix s :: "'a session_scheme" and n s1
  assume a: "(n, s1) = run_state ReadUB4 s" "\<not> (n = 0 \<or> rerr s1 \<noteq> None)" "\<not> rerr (skip_raw (unat n) s1) \<noteq> None"
  have "(s1, s) \<in> less_input" using ReadUB4_progress [OF a(1) [symmetric]] a(2) by simp
  then show "(skip_raw (unat n) s1, s) \<in> less_input"
    using skip_raw_less [of "unat n" s1] a(3) less_input_trans by auto
qed

declare skip_chunks.simps [simp del]

definition SkipBytes :: "('z, unit) op" where
  "SkipBytes = do {
     len \<leftarrow> ReadUB1;
     err \<leftarrow> gets rerr;
     if err \<noteq> None then State_Monad.return ()
     else if len \<noteq> LongLengthIndicator then SkipRawBytes (unat len)
     else modify skip_chunks }"

definition SkipBytesWithLength :: "('z, unit) op" where
  "SkipBytesWithLength = do { n \<leftarrow> ReadUB4; if n > 0 then SkipBytes else State_Monad.return () }"

record rowid =
  RBA :: u32
  PartitionID :: u16
  BlockNum :: u32
  SlotNum :: u16

definition ReadRowid :: "('z, rowid) op" where
  "ReadRowid = do {
     rba \<leftarrow> ReadUB4;
     part \<leftarrow> ReadUB2;
     _ \<leftarrow> SkipUB1;
     block \<leftarrow> ReadUB4;
     slot \<leftarrow> ReadUB2;
     State_Monad.return \<lparr>RBA = rba, PartitionID = part, BlockNum = block, SlotNum = slot\<rparr> }"

end
