(* ===== verification/TnsReads.thy ===== *)
theory TnsReads
  imports TnsReadBuf
begin

text \<open>
  What the reader means. Abstractly it reads one byte stream, and packet boundaries, empty packets and
  the wait for the end of a response do not show: \<open>stream\<close> is the abstraction function, \<open>ready\<close> the
  states in which no error, marker or notification is pending. \<open>reads c m bs v\<close> states that \<open>m\<close>, with
  capabilities \<open>c\<close>, takes exactly the bytes \<open>bs\<close> off the stream and returns \<open>v\<close>; it composes along
  \<open>do\<close>, so a message decoder is proved against the byte layout of its message.
\<close>

named_theorems reads_rules \<open>rules for what an operation takes off the stream\<close>

subsection \<open>The stream\<close>

definition payload :: "packet \<Rightarrow> bytes" where
  "payload p = drop dataPayloadOffset (Buf p)"

definition plain :: "packet \<Rightarrow> bool" where
  "plain p \<longleftrightarrow> Type p = PacketTypeData \<and> dataPayloadOffset \<le> length (Buf p)"

text \<open>The packets that can still be read from a transport, in order.\<close>

function packets_in :: "transport \<Rightarrow> packet list" where
  "packets_in t = (case ReadPacket t of (Inl e, t') \<Rightarrow> [] | (Inr p, t') \<Rightarrow> p # packets_in t')"
  by pat_completeness auto

termination
  by (relation "measure (\<lambda>t. length (incoming t))") (auto dest: ReadPacket_size(2) [OF sym])

declare packets_in.simps [simp del]

definition pending :: "'z session_scheme \<Rightarrow> packet list" where
  "pending s = drop (nextPacketPos s) (saved s) @ packets_in (tr s)"

definition stream :: "'z session_scheme \<Rightarrow> bytes" where
  "stream s = rest_of_packet s @ concat (map payload (pending s))"

text \<open>A reader that waits for whole responses needs one to be complete.\<close>

definition complete :: "'z session_scheme \<Rightarrow> bool" where
  "complete s \<longleftrightarrow> (checkRequestBoundary s \<longrightarrow> packets_in (tr s) = [] \<or> HasEndOfResponse (last (packets_in (tr s))))"

definition ready :: "'z session_scheme \<Rightarrow> bool" where
  "ready s \<longleftrightarrow> rbuf_ok s \<and> rerr s = None \<and> list_all plain (pending s) \<and> complete s \<and>
     checkConnected (pendingErrorNum s) = None"

text \<open>
  Reading changes nothing but the reader's own fields and the transport, which \<open>rest_of_state\<close> blots
  out; the chunk buffer, once it is there, stays.
\<close>

definition rest_of_state :: "'z session_scheme \<Rightarrow> 'z session_scheme" where
  "rest_of_state s = s\<lparr>tr := undefined, rdata := [], rpos := 0, rsize := 0, current := None, saved := [],
     nextPacketPos := 0, pendingErrorNum := 0, chunk_nil := True\<rparr>"

definition keeps :: "'z session_scheme \<Rightarrow> 'z session_scheme \<Rightarrow> bool" where
  "keeps s s' \<longleftrightarrow> rest_of_state s' = rest_of_state s \<and> (chunk_nil s' \<longrightarrow> chunk_nil s)"

lemma keeps_refl [simp]: "keeps s s"
  by (simp add: keeps_def)

lemma keeps_trans: "keeps s t \<Longrightarrow> keeps t u \<Longrightarrow> keeps s u"
  by (simp add: keeps_def)

lemma keeps_fields:
  assumes "keeps s s'"
  shows "caps s' = caps s" "rerr s' = rerr s" "checkRequestBoundary s' = checkRequestBoundary s"
    "session.more s' = session.more s"
  using arg_cong [OF conjunct1 [OF assms [unfolded keeps_def]], of caps] arg_cong [OF conjunct1 [OF assms [unfolded keeps_def]], of rerr]
    arg_cong [OF conjunct1 [OF assms [unfolded keeps_def]], of checkRequestBoundary] arg_cong [OF conjunct1 [OF assms [unfolded keeps_def]], of session.more]
  by (simp_all add: rest_of_state_def)

lemma keeps_upd [simp]:
  "keeps s (s'\<lparr>tr := t\<rparr>) = keeps s s'" "keeps s (s'\<lparr>rpos := p\<rparr>) = keeps s s'"
  "keeps s (s'\<lparr>saved := ps\<rparr>) = keeps s s'"
  by (simp_all add: keeps_def rest_of_state_def)

subsection \<open>Waiting for a packet\<close>

lemma packets_in_Nil: "ReadPacket t = (Inl e, t') \<Longrightarrow> packets_in t = []"
  by (simp add: packets_in.simps [of t])

lemma packets_in_Cons: "ReadPacket t = (Inr p, t') \<Longrightarrow> packets_in t = p # packets_in t'"
  by (simp add: packets_in.simps [of t])

lemma packets_in_ConsE:
  assumes "packets_in t = p # ps"
  obtains t' where "ReadPacket t = (Inr p, t')" "packets_in t' = ps"
  using assms by (cases "ReadPacket t"; cases "fst (ReadPacket t)") (auto simp: packets_in_Nil packets_in_Cons)

lemma processPacket_plain:
  "plain p \<Longrightarrow> processPacket p s = (\<not> checkRequestBoundary s \<or> HasEndOfResponse p, s\<lparr>saved := saved s @ [p]\<rparr>)"
  by (simp add: processPacket_def plain_def PacketTypeData_def PacketTypeControl_def)

text \<open>The read loop moves packets from the transport to the saved ones and loses none.\<close>

lemma packet_loop_plain:
  "list_all plain (packets_in (tr s)) \<Longrightarrow> packets_in (tr s) \<noteq> [] \<Longrightarrow> complete s \<Longrightarrow> rerr s = None \<Longrightarrow>
   checkConnected (pendingErrorNum s) = None \<Longrightarrow>
   \<exists>qs. qs \<noteq> [] \<and> saved (packet_loop s) = saved s @ qs \<and> qs @ packets_in (tr (packet_loop s)) = packets_in (tr s) \<and>
     keeps s (packet_loop s) \<and> complete (packet_loop s) \<and> pendingErrorNum (packet_loop s) = pendingErrorNum s \<and>
     nextPacketPos (packet_loop s) = nextPacketPos s"
proof (induction s rule: packet_loop.induct)
  case (1 s)
  obtain p ps where pps: "packets_in (tr s) = p # ps" using 1(3) by (cases "packets_in (tr s)") auto
  obtain t where t: "ReadPacket (tr s) = (Inr p, t)" "packets_in t = ps" using packets_in_ConsE [OF pps] by blast
  have pl: "plain p" using 1(2) pps by simp
  define s1 where "s1 = s\<lparr>tr := t, saved := saved s @ [p]\<rparr>"
  have pp: "processPacket p (s\<lparr>tr := t\<rparr>) = (\<not> checkRequestBoundary s \<or> HasEndOfResponse p, s1)"
    using pl by (simp add: processPacket_plain s1_def)
  have k1: "keeps s s1" by (simp add: s1_def)
  show ?case
  proof (cases "\<not> checkRequestBoundary s \<or> HasEndOfResponse p")
    case True
    then have "packet_loop s = s1" using t pp by (simp add: packet_loop.simps [of s])
    moreover have "complete s1" using 1(4) pps t(2) True by (auto simp: complete_def s1_def split: if_split_asm)
    ultimately show ?thesis using pps t(2) k1 by (intro exI [of _ "[p]"]) (simp add: s1_def)
  next
    case False
    then have e: "packet_loop s = packet_loop s1"
      using t pp 1(6) by (simp add: packet_loop.simps [of s] s1_def)
    have ne: "ps \<noteq> []" using 1(4) False pps by (auto simp: complete_def)
    have c1: "complete s1" using 1(4) ne pps t(2) by (simp add: complete_def s1_def)
    have IH: "list_all plain (packets_in (tr s1)) \<Longrightarrow> packets_in (tr s1) \<noteq> [] \<Longrightarrow> complete s1 \<Longrightarrow> rerr s1 = None \<Longrightarrow>
      checkConnected (pendingErrorNum s1) = None \<Longrightarrow>
      \<exists>qs. qs \<noteq> [] \<and> saved (packet_loop s1) = saved s1 @ qs \<and> qs @ packets_in (tr (packet_loop s1)) = packets_in (tr s1) \<and>
        keeps s1 (packet_loop s1) \<and> complete (packet_loop s1) \<and> pendingErrorNum (packet_loop s1) = pendingErrorNum s1 \<and>
        nextPacketPos (packet_loop s1) = nextPacketPos s1"
      using 1(1) [OF t(1) [symmetric] refl] pp False 1(6) by (simp add: s1_def)
    obtain qs where qs: "qs \<noteq> []" "saved (packet_loop s1) = saved s1 @ qs"
      "qs @ packets_in (tr (packet_loop s1)) = packets_in (tr s1)" "keeps s1 (packet_loop s1)" "complete (packet_loop s1)"
      "pendingErrorNum (packet_loop s1) = pendingErrorNum s1" "nextPacketPos (packet_loop s1) = nextPacketPos s1"
      using IH c1 ne t(2) 1(2,5,6) pps by (auto simp: s1_def)
    then show ?thesis using pps t(2) e keeps_trans [OF k1 qs(4)]
      by (intro exI [of _ "p # qs"]) (simp add: s1_def)
  qed
qed

lemma startPacket_plain:
  assumes "rbuf_ok s" "nextPacketPos s < length (saved s)" "plain (saved s ! nextPacketPos s)"
  shows "rest_of_packet (startPacket s) = payload (saved s ! nextPacketPos s) \<and> keeps s (startPacket s) \<and>
    current (startPacket s) = Some (saved s ! nextPacketPos s) \<and>
    (pendingErrorNum (startPacket s) = pendingErrorNum s \<or> pendingErrorNum (startPacket s) = ErrSessionShutdown)"
  using assms
  by (auto simp: startPacket_def readUint16BEraw_def plain_def dataPayloadOffset_def PacketHeaderSize_def
      rest_of_packet_def payload_def keeps_def rest_of_state_def Let_def)

lemma checkConnected_shutdown: "checkConnected ErrSessionShutdown = None"
  by (simp add: checkConnected_def)

text \<open>With the current packet used up, a wait opens the next one.\<close>

lemma wait_packets_stream:
  assumes "ready s" "pending s \<noteq> []"
  shows "ready (wait_packets m s) \<and> keeps s (wait_packets m s) \<and>
    rest_of_packet (wait_packets m s) = payload (hd (pending s)) \<and> pending (wait_packets m s) = tl (pending s)"
proof -
  note r = assms(1) [unfolded ready_def]
  define s1 where "s1 = (if nextPacketPos s \<ge> length (saved s) then packet_loop s else s)"
  have s1: "pending s1 = pending s \<and> nextPacketPos s1 < length (saved s1) \<and> keeps s s1 \<and> complete s1 \<and> rbuf_ok s1 \<and>
    pendingErrorNum s1 = pendingErrorNum s"
  proof (cases "nextPacketPos s \<ge> length (saved s)")
    case False
    then show ?thesis using r by (simp add: s1_def)
  next
    case True
    then have pe: "pending s = packets_in (tr s)" "nextPacketPos s = length (saved s)"
      using r by (simp_all add: pending_def rbuf_ok_def)
    obtain qs where "qs \<noteq> []" "saved (packet_loop s) = saved s @ qs"
      "qs @ packets_in (tr (packet_loop s)) = packets_in (tr s)" "keeps s (packet_loop s)" "complete (packet_loop s)"
      "pendingErrorNum (packet_loop s) = pendingErrorNum s" "nextPacketPos (packet_loop s) = nextPacketPos s"
      using packet_loop_plain [of s] r assms(2) pe by auto
    then show ?thesis using True pe packet_loop_ok [of s] r by (simp add: s1_def pending_def)
  qed
  then have drop: "drop (nextPacketPos s1) (saved s1) = saved s1 ! nextPacketPos s1 # drop (nextPacketPos s1 + 1) (saved s1)"
    by (simp add: Cons_nth_drop_Suc)
  have hd: "hd (pending s) = saved s1 ! nextPacketPos s1"
    "tl (pending s) = drop (nextPacketPos s1 + 1) (saved s1) @ packets_in (tr s1)"
    using s1 unfolding pending_def by (metis drop append_Cons list.sel)+
  have pl: "plain (saved s1 ! nextPacketPos s1)" using r hd assms(2) by (cases "pending s") auto
  note sp = startPacket_plain [OF _ _ pl] startPacket_ok [of s1]
  have w: "wait_packets m s = startPacket s1"
    using r s1 sp pl keeps_fields(2) [of s s1] keeps_fields(2) [of s1 "startPacket s1"]
    by (auto simp: wait_packets_def s1_def [symmetric] plain_def PacketTypeData_def PacketTypeMarker_def Let_def)
  have kk: "keeps s (startPacket s1)" using sp s1 keeps_trans by blast
  have "checkConnected (pendingErrorNum (startPacket s1)) = None"
    using sp(1) s1 r checkConnected_shutdown by auto
  moreover have "complete (startPacket s1)"
    using s1 keeps_fields(3) [OF kk] keeps_fields(3) [of s s1] by (simp add: complete_def)
  moreover have "list_all plain (pending (startPacket s1))" "pending (startPacket s1) = tl (pending s)"
    using r hd(2) by (cases "pending s"; simp add: pending_def)+
  ultimately show ?thesis
    using sp s1 hd(1) kk keeps_fields(2) [OF kk] r by (simp add: w ready_def)
qed

subsection \<open>Reading raw bytes\<close>

text \<open>
  The code's reads against the stream: wherever the packet boundaries fall, \<open>n\<close> bytes are taken off
  its front.
\<close>

definition takes :: "nat \<Rightarrow> 'z session_scheme \<Rightarrow> 'z session_scheme \<Rightarrow> bool" where
  "takes n s s' \<longleftrightarrow> ready s' \<and> keeps s s' \<and> stream s' = drop n (stream s)"

lemma rest_of_packet_length: "rbuf_ok s \<Longrightarrow> length (rest_of_packet s) = BytesLeft s"
  by (simp add: rbuf_ok_def rest_of_packet_def BytesLeft_def)

lemma takes_from_packet:
  assumes "ready s" "n \<le> BytesLeft s"
  shows "takes n s (s\<lparr>rpos := rpos s + n\<rparr>)"
proof -
  have ok: "rbuf_ok s" using assms by (simp add: ready_def)
  have le: "rpos s + n \<le> rsize s" using assms(2) ok by (auto simp: rbuf_ok_def BytesLeft_def)
  have "rest_of_packet (s\<lparr>rpos := rpos s + n\<rparr>) = drop n (rest_of_packet s)"
    by (simp add: rest_of_packet_def add.commute)
  then show ?thesis
    using assms le rest_of_packet_length [OF ok]
    by (simp add: takes_def ready_def stream_def pending_def rbuf_ok_def complete_def BytesLeft_def)
qed

lemma takes_trans: "takes m s t \<Longrightarrow> takes n t u \<Longrightarrow> takes (m + n) s u"
  by (auto simp: takes_def add.commute intro: keeps_trans)

lemma takes_wait:
  assumes "ready s" "rest_of_packet s = []" "stream s \<noteq> []"
  shows "takes 0 s (wait_packets m s)"
proof -
  have "pending s \<noteq> []" using assms(2,3) by (auto simp: stream_def)
  then show ?thesis
    using wait_packets_stream [OF assms(1), of m] assms(2) by (cases "pending s") (auto simp: takes_def stream_def)
qed

lemma get_rest_stream:
  "ready s \<Longrightarrow> rest_of_packet s = [] \<Longrightarrow> n \<le> length (stream s) \<Longrightarrow>
   \<exists>s'. get_rest n acc s = (Some (acc @ take n (stream s)), s') \<and> takes n s s'"
proof (induction n acc s rule: get_rest.induct)
  case (1 n acc s)
  show ?case
  proof (cases "n = 0")
    case True
    then show ?thesis using 1(2) by (simp add: get_rest.simps [of 0] takes_def)
  next
    case False
    define s1 where "s1 = wait_packets True s"
    define m where "m = min n (BytesLeft s1)"
    define s2 where "s2 = s1\<lparr>rpos := rpos s1 + m\<rparr>"
    have ne: "stream s \<noteq> []" using 1(4) False by auto
    have t1: "takes 0 s s1" using takes_wait [OF 1(2,3) ne, of True] by (simp add: s1_def)
    then have r1: "ready s1" "stream s1 = stream s" "rerr s1 = None" by (simp_all add: takes_def ready_def)
    have t2: "takes m s1 s2" using takes_from_packet [OF r1(1)] by (simp add: s2_def m_def)
    then have r2: "ready s2" "stream s2 = drop m (stream s)" using r1(2) by (simp_all add: takes_def)
    have l1: "length (rest_of_packet s1) = BytesLeft s1"
      using r1(1) by (simp add: ready_def rest_of_packet_length)
    have "take m (rest_of_packet s1) = take m (stream s1)" using l1 by (simp add: stream_def m_def)
    then have tk: "take m (rest_of_packet s1) = take m (stream s)" using r1(2) by simp
    have e: "get_rest n acc s = get_rest (n - m) (acc @ take m (stream s)) s2"
      using False r1(3) tk by (simp add: get_rest.simps [of n acc s] s1_def m_def s2_def Let_def)
    show ?thesis
    proof (cases "n - m = 0")
      case True
      then have "m = n" by (simp add: m_def)
      then show ?thesis using e True takes_trans [OF t1 t2] by (simp add: get_rest.simps [of 0])
    next
      case nm: False
      have "rest_of_packet s2 = []"
        using nm l1 by (simp add: s2_def m_def rest_of_packet_def min_def BytesLeft_def split: if_splits)
      then obtain s' where s': "get_rest (n - m) (acc @ take m (stream s)) s2 =
          (Some ((acc @ take m (stream s)) @ take (n - m) (stream s2)), s')" "takes (n - m) s2 s'"
        using 1(1) [OF False _ s1_def m_def] r1(3) r2 1(4) tk by (fastforce simp: s2_def s1_def [symmetric])
      have "take m (stream s) @ take (n - m) (stream s2) = take n (stream s)"
        using r2(2) nm by (metis take_add le_add_diff_inverse nat_le_linear diff_is_0_eq)
      then show ?thesis using e s' takes_trans [OF takes_trans [OF t1 t2] s'(2)] nm by simp
    qed
  qed
qed

lemma get_raw_stream:
  assumes "ready s" "0 < n" "n \<le> length (stream s)"
  shows "\<exists>s'. get_raw n s = (Some (take n (stream s)), s') \<and> takes n s s'"
proof -
  define s1 where "s1 = (if rpos s = rsize s then wait_packets True s else s)"
  have ne: "stream s \<noteq> []" using assms by auto
  have t1: "takes 0 s s1"
    using takes_wait [OF assms(1) _ ne, of True] assms(1) by (auto simp: s1_def takes_def rest_of_packet_def)
  then have r1: "ready s1" "stream s1 = stream s" "rerr s1 = None" by (simp_all add: takes_def ready_def)
  have l1: "length (rest_of_packet s1) = BytesLeft s1" using r1(1) by (simp add: ready_def rest_of_packet_length)
  have e: "get_raw n s = (if n \<le> BytesLeft s1 then (Some (take n (rest_of_packet s1)), s1\<lparr>rpos := rpos s1 + n\<rparr>)
      else get_rest (n - BytesLeft s1) (rest_of_packet s1) (s1\<lparr>rpos := rsize s1\<rparr>))"
    using assms(1) r1(3) by (simp add: get_raw_def s1_def [symmetric] ready_def Let_def)
  show ?thesis
  proof (cases "n \<le> BytesLeft s1")
    case True
    have "take n (stream s1) = take n (rest_of_packet s1)" using True l1 by (simp add: stream_def)
    then have "take n (stream s) = take n (rest_of_packet s1)" using r1(2) by simp
    then show ?thesis using e True takes_trans [OF t1 takes_from_packet [OF r1(1) True]] by simp
  next
    case False
    define s2 where "s2 = s1\<lparr>rpos := rpos s1 + BytesLeft s1\<rparr>"
    have s2: "s2 = s1\<lparr>rpos := rsize s1\<rparr>" using r1(1) by (simp add: s2_def ready_def rbuf_ok_def BytesLeft_def)
    have t2: "takes (BytesLeft s1) s1 s2" using takes_from_packet [OF r1(1)] by (simp add: s2_def)
    then have r2: "ready s2" "stream s2 = drop (BytesLeft s1) (stream s)" using r1(2) by (simp_all add: takes_def)
    have st: "stream s = rest_of_packet s1 @ stream s2"
      using r1(2) l1 by (simp add: stream_def s2 pending_def rest_of_packet_def)
    have nil: "rest_of_packet s2 = []" by (simp add: s2 rest_of_packet_def)
    have le: "n - BytesLeft s1 \<le> length (stream s2)" using r2(2) assms(3) by (simp add: diff_le_mono)
    obtain s' where s': "get_rest (n - BytesLeft s1) (rest_of_packet s1) s2 =
        (Some (rest_of_packet s1 @ take (n - BytesLeft s1) (stream s2)), s')" "takes (n - BytesLeft s1) s2 s'"
      using get_rest_stream [OF r2(1) nil le] by blast
    have "takes n s s'" using takes_trans [OF takes_trans [OF t1 t2] s'(2)] False by simp
    then show ?thesis using e False s'(1) st l1 by (simp add: s2)
  qed
qed

subsection \<open>Operations as parsers of the stream\<close>

definition reads :: "capabilities \<Rightarrow> ('z, 'a) op \<Rightarrow> bytes \<Rightarrow> 'a \<Rightarrow> bool" where
  "reads c m bs v \<longleftrightarrow> (\<forall>s rest. ready s \<and> caps s = c \<and> stream s = bs @ rest \<longrightarrow>
     (\<exists>s'. run_state m s = (v, s') \<and> ready s' \<and> stream s' = rest \<and> keeps s s'))"

lemma reads_return [reads_rules]: "reads c (State_Monad.return v) [] v"
  by (simp add: reads_def)

lemma reads_bind:
  assumes "reads c m b1 v" "reads c (f v) b2 w"
  shows "reads c (State_Monad.bind m f) (b1 @ b2) w"
  unfolding reads_def
proof (intro allI impI)
  fix s :: "'a session_scheme" and rest
  assume s: "ready s \<and> caps s = c \<and> stream s = (b1 @ b2) @ rest"
  then obtain t where t: "run_state m s = (v, t)" "ready t" "stream t = b2 @ rest" "keeps s t"
    using assms(1) unfolding reads_def by fastforce
  then obtain u where u: "run_state (f v) t = (w, u)" "ready u" "stream u = rest" "keeps t u"
    using assms(2) s keeps_fields(1) [OF t(4)] unfolding reads_def by metis
  then show "\<exists>s'. run_state (State_Monad.bind m f) s = (w, s') \<and> ready s' \<and> stream s' = rest \<and> keeps s s'"
    using t keeps_trans [OF t(4) u(4)] by auto
qed

lemma reads_seq: "reads c m b1 v \<Longrightarrow> reads c (f v) b2 w \<Longrightarrow> bs = b1 @ b2 \<Longrightarrow> reads c (State_Monad.bind m f) bs w"
  by (simp add: reads_bind)

lemma reads_seq0: "reads c m [] v \<Longrightarrow> reads c (f v) bs w \<Longrightarrow> reads c (State_Monad.bind m f) bs w"
  using reads_bind [of c m "[]"] by simp

lemma reads_gets_rerr [reads_rules]: "reads c (gets rerr) [] None"
  by (simp add: reads_def ready_def)

lemma reads_gets_caps [reads_rules]: "reads c (gets (\<lambda>s. f (caps s))) [] (f c)"
  by (auto simp: reads_def)

lemma reads_getRaw [reads_rules]: "bs \<noteq> [] \<Longrightarrow> n = length bs \<Longrightarrow> reads c (getRaw n) bs (Some bs)"
  unfolding reads_def
proof (intro allI impI)
  fix s :: "'a session_scheme" and rest
  assume "bs \<noteq> []" "n = length bs" "ready s \<and> caps s = c \<and> stream s = bs @ rest"
  then show "\<exists>s'. run_state (getRaw n) s = (Some bs, s') \<and> ready s' \<and> stream s' = rest \<and> keeps s s'"
    using get_raw_stream [of s n] by (auto simp: takes_def)
qed

lemma reads_map: "reads c m bs v \<Longrightarrow> w = f v \<Longrightarrow> reads c (State_Monad.bind m (\<lambda>x. State_Monad.return (f x))) bs w"
  using reads_bind [of c m bs v "\<lambda>x. State_Monad.return (f x)" "[]"] reads_return by force

lemma reads_ReadUB1 [reads_rules]: "reads c ReadUB1 [b] b"
  unfolding ReadUB1_def by (rule reads_map, rule reads_getRaw) simp_all

lemma be_not_Nil [simp]: "be16 a \<noteq> []" "be32 b \<noteq> []" "be64 x \<noteq> []" "le16 a \<noteq> []"
  by (simp_all add: be16_def be32_def be64_def le16_def)

lemma reads_fixed [reads_rules]:
  "reads c ReadUint16BE (be16 v) v" "reads c ReadUint16LE (le16 v) v" "reads c ReadUint32BE (be32 w) w"
  "reads c ReadUint64BE (be64 x) x"
  unfolding ReadUint16BE_def ReadUint16LE_def ReadUint32BE_def ReadUint64BE_def
  by (rule reads_map [OF reads_getRaw]; simp)+

lemma length_byte: "k < 128 \<Longrightarrow> (word_of_nat k :: u8) AND 0x80 = 0 \<and> unat (word_of_nat k :: u8) = k"
proof -
  assume "k < 128"
  then have "k \<in> set [0..<128]" by simp
  moreover have "\<forall>k \<in> set [0..<128]. (word_of_nat k :: u8) AND 0x80 = 0" by code_simp
  ultimately show ?thesis using \<open>k < 128\<close> by (simp add: unat_of_nat)
qed

text \<open>A universal integer: its length, then that many bytes, most significant first.\<close>

lemma reads_readUnsigned:
  assumes "length b \<le> m" "m < 128" "l = word_of_nat (length b)"
  shows "reads c (readUnsigned m) (l # b) (of_be b)"
proof -
  have l: "l AND 0x80 = 0" "unat l = length b" using length_byte [of "length b"] assms by auto
  have h1: "reads c (intLengthAndSign m False) ([l] @ []) (length b, False)"
    unfolding intLengthAndSign_def
    by (rule reads_bind, rule reads_getRaw) (use l assms in \<open>simp_all add: Let_def reads_return\<close>)
  have h2: "reads c (State_Monad.bind (gets rerr) (\<lambda>err.
      if length b = 0 \<or> err \<noteq> None then State_Monad.return 0
      else State_Monad.bind (getRaw (length b)) (\<lambda>ob.
        State_Monad.return (case ob of None \<Rightarrow> 0 | Some b \<Rightarrow> decodeInteger b)))) b (of_be b)"
    by (rule reads_seq0, rule reads_gets_rerr)
      (cases b; auto simp: of_be_def of_be_acc_def decodeInteger_def intro!: reads_map reads_getRaw reads_return)
  show ?thesis
    unfolding readUnsigned_def by (rule reads_seq [OF h1]) (use h2 in simp_all)
qed

text \<open>A signed one carries its sign in the length byte.\<close>

lemma sign_length_byte:
  "k < 9 \<Longrightarrow> (word_of_nat k OR 0x80 :: u8) AND 0x80 \<noteq> 0 \<and> unat ((word_of_nat k OR 0x80 :: u8) AND 0x7f) = k"
proof -
  assume "k < 9"
  then have "k \<in> set [0..<9]" by simp
  moreover have "\<forall>k \<in> set [0..<9]. (word_of_nat k OR 0x80 :: u8) AND 0x80 \<noteq> 0 \<and> unat ((word_of_nat k OR 0x80 :: u8) AND 0x7f) = k"
    by code_simp
  ultimately show ?thesis by blast
qed

lemma reads_readSigned:
  assumes "length b \<le> m" "m < 9" "l = (if neg then word_of_nat (length b) OR 0x80 else word_of_nat (length b))"
  shows "reads c (readSigned m) (l # b)
    (let v = sint (of_be b :: u64) in if b \<noteq> [] \<and> neg then int64_of (- v) else v)"
proof -
  have l: "(l AND 0x80 \<noteq> 0) = neg" "unat (if neg then l AND 0x7f else l) = length b"
    using length_byte [of "length b"] sign_length_byte [of "length b"] assms by auto
  have h1: "reads c (intLengthAndSign m True) ([l] @ []) (length b, neg)"
    unfolding intLengthAndSign_def
    by (rule reads_bind, rule reads_getRaw) (use l assms(1) in \<open>simp_all add: Let_def reads_return\<close>)
  have h2: "reads c (State_Monad.bind (gets rerr) (\<lambda>err.
      if length b = 0 \<or> err \<noteq> None then State_Monad.return 0
      else State_Monad.bind (getRaw (length b)) (\<lambda>ob.
        State_Monad.return (case ob of None \<Rightarrow> 0
          | Some b \<Rightarrow> let v = sint (decodeInteger b) in if neg then int64_of (- v) else v)))) b
      (let v = sint (of_be b :: u64) in if b \<noteq> [] \<and> neg then int64_of (- v) else v)"
    by (rule reads_seq0, rule reads_gets_rerr)
      (cases b; auto simp: of_be_def of_be_acc_def decodeInteger_def intro!: reads_map reads_getRaw reads_return)
  show ?thesis
    unfolding readSigned_def by (rule reads_seq [OF h1]) (use h2 in simp_all)
qed

subsection \<open>Values\<close>

text \<open>The bytes of the universal integers, as the shortest form the writer uses.\<close>

definition ub2_bytes :: "u16 \<Rightarrow> bytes" where
  "ub2_bytes v = (if v = 0 then [0] else if v \<le> 0xff then [1, ucast v] else 2 # be16 v)"

definition ub4_bytes :: "u32 \<Rightarrow> bytes" where
  "ub4_bytes v = (if v = 0 then [0] else if v \<le> 0xff then [1, ucast v]
     else if v \<le> 0xffff then 2 # be16 (ucast v) else 4 # be32 v)"

definition ub8_bytes :: "u64 \<Rightarrow> bytes" where
  "ub8_bytes v = (if v = 0 then [0] else if v \<le> 0xff then [1, ucast v]
     else if v \<le> 0xffff then 2 # be16 (ucast v) else if v \<le> 0xffffffff then 4 # be32 (ucast v) else 8 # be64 v)"

lemma of_be_wider:
  fixes v :: "'a::len word"
  assumes "LENGTH('a) = 8 * k"
  shows "(of_be (nbytes_be k v) :: 'b::len word) = ucast v"
proof -
  have "(of_be_acc (ucast (drop_bit (8 * j) v)) (nbytes_be j v) :: 'b word) = ucast v" for j
  proof (induction j)
    case (Suc j)
    have "push_bit 8 (ucast (drop_bit (8 * Suc j) v)) OR ucast (ucast (drop_bit (8 * j) v) :: u8) = (ucast (drop_bit (8 * j) v) :: 'b word)"
      by (rule bit_word_eqI) (auto simp: bit_simps algebra_simps le_diff_conv2 dest: bit_imp_le_length)
    then show ?case using Suc by (simp add: of_be_acc_def)
  qed (simp add: of_be_acc_def)
  from this [of k] show ?thesis using assms by (simp add: of_be_def drop_bit_len_0)
qed

lemma of_be_wide [byte_simps]:
  "of_be [x] = ucast x" "of_be (be16 a) = (ucast a :: 'b::len word)" "of_be (be32 b) = (ucast b :: 'b word)"
  "of_be (be64 d) = (ucast d :: 'b word)"
  by (simp_all add: be16_eq be32_eq be64_eq of_be_wider) (simp add: of_be_def of_be_acc_def)

lemma unat_ucast_less: "unat v < 2 ^ LENGTH('c) \<Longrightarrow> unat (ucast v :: 'c::len word) = unat v"
  by (simp only: unsigned_ucast_eq take_bit_eq_mod mod_less)

lemma unat_ucast_up:
  assumes "LENGTH('a) \<le> LENGTH('b)"
  shows "unat (ucast (v :: 'a::len word) :: 'b::len word) = unat v"
proof -
  have "(2::nat) ^ LENGTH('a) \<le> 2 ^ LENGTH('b)" using assms by simp
  then show ?thesis using unat_ucast_less [of v] unsigned_less [of v] by (metis order_less_le_trans)
qed

lemma wide_back:
  assumes "LENGTH('a) \<le> LENGTH('b)"
  shows "ucast (ucast (v :: 'a::len word) :: 'b::len word) = v"
proof -
  have e: "unat (ucast v :: 'b word) = unat v" by (rule unat_ucast_up [OF assms])
  then have "unat (ucast (ucast v :: 'b word) :: 'a word) = unat v" by (simp add: unat_ucast_less)
  then show ?thesis by (simp add: word_unat_eq_iff)
qed

lemma narrow_back:
  assumes "unat (v :: 'a::len word) < 2 ^ LENGTH('c)" "LENGTH('c) \<le> LENGTH('b)"
  shows "ucast (ucast (ucast v :: 'c::len word) :: 'b::len word) = v"
proof -
  have e: "unat (ucast (ucast v :: 'c word) :: 'b word) = unat v"
    by (simp add: unat_ucast_up assms unat_ucast_less)
  then have "unat (ucast (ucast (ucast v :: 'c word) :: 'b word) :: 'a word) = unat v"
    using unat_ucast_less [of "ucast (ucast v :: 'c word) :: 'b word", where 'c = 'a] by simp
  then show ?thesis by (simp add: word_unat_eq_iff)
qed

lemma small_word:
  "(a :: u16) \<le> 0xff \<Longrightarrow> unat a < 2 ^ LENGTH(8)"
  "(b :: u32) \<le> 0xff \<Longrightarrow> unat b < 2 ^ LENGTH(8)" "(b :: u32) \<le> 0xffff \<Longrightarrow> unat b < 2 ^ LENGTH(16)"
  "(d :: u64) \<le> 0xff \<Longrightarrow> unat d < 2 ^ LENGTH(8)" "(d :: u64) \<le> 0xffff \<Longrightarrow> unat d < 2 ^ LENGTH(16)"
  "(d :: u64) \<le> 0xffffffff \<Longrightarrow> unat d < 2 ^ LENGTH(32)"
  by (simp_all add: word_le_nat_alt)

lemma reads_unsigned_of:
  "1 \<le> m \<Longrightarrow> m < 128 \<Longrightarrow> reads c (readUnsigned m) [1, x] (ucast x)"
  "2 \<le> m \<Longrightarrow> m < 128 \<Longrightarrow> reads c (readUnsigned m) (2 # be16 a) (ucast a)"
  "4 \<le> m \<Longrightarrow> m < 128 \<Longrightarrow> reads c (readUnsigned m) (4 # be32 b) (ucast b)"
  "8 \<le> m \<Longrightarrow> m < 128 \<Longrightarrow> reads c (readUnsigned m) (8 # be64 d) d"
  "m < 128 \<Longrightarrow> reads c (readUnsigned m) [0] 0"
  using reads_readUnsigned [of "[x]" m 1 c] reads_readUnsigned [of "be16 a" m 2 c] reads_readUnsigned [of "be32 b" m 4 c]
    reads_readUnsigned [of "be64 d" m 8 c] reads_readUnsigned [of "[]" m 0 c]
  by (simp_all add: of_be_wide) (simp add: of_be_def of_be_acc_def)

lemma ucast_narrow:
  assumes "unat (v :: 'a::len word) < 2 ^ LENGTH('c)" "LENGTH('c) \<le> LENGTH('b)" "LENGTH('a) \<le> LENGTH('b)"
  shows "ucast (ucast v :: 'c::len word) = (ucast v :: 'b::len word)"
  using assms by (simp add: word_unat_eq_iff unat_ucast_up unat_ucast_less)

lemma narrow_wide:
  assumes "unat (v :: 'a::len word) < 2 ^ LENGTH('c)" "LENGTH('c) \<le> LENGTH('a)"
  shows "ucast (ucast v :: 'c::len word) = v"
  using narrow_back [where 'b = 'a, OF assms] by simp

lemma narrow_small:
  "(a :: u16) \<le> 0xff \<Longrightarrow> ucast (ucast a :: u8) = (ucast a :: u64)"
  "(b :: u32) \<le> 0xff \<Longrightarrow> ucast (ucast b :: u8) = (ucast b :: u64)"
  "(b :: u32) \<le> 0xffff \<Longrightarrow> ucast (ucast b :: u16) = (ucast b :: u64)"
  "(d :: u64) \<le> 0xff \<Longrightarrow> ucast (ucast d :: u8) = d" "(d :: u64) \<le> 0xffff \<Longrightarrow> ucast (ucast d :: u16) = d"
  "(d :: u64) \<le> 0xffffffff \<Longrightarrow> ucast (ucast d :: u32) = d"
  by (rule ucast_narrow, erule small_word, simp, simp)+ (rule narrow_wide, erule small_word, simp)+

lemma reads_readUnsigned_ub:
  "2 \<le> m \<Longrightarrow> m < 128 \<Longrightarrow> reads c (readUnsigned m) (ub2_bytes v) (ucast v)"
  "4 \<le> m \<Longrightarrow> m < 128 \<Longrightarrow> reads c (readUnsigned m) (ub4_bytes w) (ucast w)"
  "8 \<le> m \<Longrightarrow> m < 128 \<Longrightarrow> reads c (readUnsigned m) (ub8_bytes x) x"
proof -
  assume m: "2 \<le> m" "m < 128"
  show "reads c (readUnsigned m) (ub2_bytes v) (ucast v)"
    using reads_unsigned_of(1) [of m c "ucast v"] reads_unsigned_of(2) [of m c v] reads_unsigned_of(5) [of m c] m
    by (cases "v \<le> 0xff"; auto simp: ub2_bytes_def narrow_small)
next
  assume m: "4 \<le> m" "m < 128"
  show "reads c (readUnsigned m) (ub4_bytes w) (ucast w)"
    using reads_unsigned_of(1) [of m c "ucast w"] reads_unsigned_of(2) [of m c "ucast w"]
      reads_unsigned_of(3) [of m c w] reads_unsigned_of(5) [of m c] m
    by (cases "w \<le> 0xff"; cases "w \<le> 0xffff"; auto simp: ub4_bytes_def narrow_small)
next
  assume m: "8 \<le> m" "m < 128"
  show "reads c (readUnsigned m) (ub8_bytes x) x"
    using reads_unsigned_of(1) [of m c "ucast x"] reads_unsigned_of(2) [of m c "ucast x"]
      reads_unsigned_of(3) [of m c "ucast x"] reads_unsigned_of(4) [of m c x] reads_unsigned_of(5) [of m c] m
    by (cases "x \<le> 0xff"; cases "x \<le> 0xffff"; cases "x \<le> 0xffffffff"; auto simp: ub8_bytes_def narrow_small)
qed

lemma reads_ub [reads_rules]:
  "reads c ReadUB2 (ub2_bytes v) v" "reads c ReadUB4 (ub4_bytes w) w" "reads c ReadUB8 (ub8_bytes x) x"
  unfolding ReadUB2_def ReadUB4_def ReadUB8_def
  by (rule reads_map, rule reads_readUnsigned_ub, simp_all add: wide_back)+ (rule reads_readUnsigned_ub, simp_all)

text \<open>A signed integer, written with its magnitude; the smallest \<open>int32\<close> has none in range.\<close>

definition sb4_bytes :: "int \<Rightarrow> bytes" where
  "sb4_bytes v =
     (let sign = (if v < 0 then 0x80 else 0) :: u8; a = \<bar>v\<bar> in
      if a = 0 then [0] else if a \<le> 0xff then [1 OR sign, word_of_int a]
      else if a \<le> 0xffff then (2 OR sign) # be16 (word_of_int a) else (4 OR sign) # be32 (word_of_int a))"

lemma sint_small: "unat w < 2 ^ 63 \<Longrightarrow> sint (w :: u64) = uint w"
proof -
  assume "unat w < 2 ^ 63"
  then have "uint w < 2 ^ 63" by (metis of_nat_less_iff of_nat_numeral of_nat_power uint_nat)
  moreover have "- (2 ^ 63) \<le> uint w" by (rule order_trans [of _ 0]) simp_all
  ultimately show ?thesis by (simp add: sint_uint signed_take_bit_int_eq_self)
qed

lemma reads_signed_of:
  assumes "b \<noteq> []" "length b \<le> 4" "of_be b = (w :: u64)" "uint w = a" "a < 2 ^ 31"
    "l = (if neg then word_of_nat (length b) OR 0x80 else word_of_nat (length b))" "v = (if neg then - a else a)"
  shows "reads c (readSigned 4) (l # b) v"
proof -
  have "0 \<le> a" using assms(4) by (metis uint_nonnegative)
  have sw: "sint w = a"
    using sint_small [of w] assms(4,5) by (simp add: unat_eq_nat_uint nat_less_iff)
  have nn: "int64_of (- a) = - a"
    unfolding int64_of_def by (rule wrap_signed_id) (use \<open>0 \<le> a\<close> assms(5) in simp_all)
  have e: "(let v = sint (of_be b :: u64) in if b \<noteq> [] \<and> neg then int64_of (- v) else v) = v"
    unfolding assms(3) sw Let_def nn using assms(1,7) by simp
  show ?thesis by (rule reads_readSigned [OF assms(2) _ assms(6), of c, unfolded e]) simp
qed

lemma uint_ucast_up64: "LENGTH('a) \<le> 64 \<Longrightarrow> uint (ucast (x :: 'a::len word) :: u64) = uint x"
proof -
  assume "LENGTH('a) \<le> 64"
  then have "unat (ucast x :: u64) = unat x" by (intro unat_ucast_up) simp
  then show ?thesis by (simp only: uint_nat)
qed

lemma reads_ReadSB4 [reads_rules]:
  assumes "\<bar>v\<bar> < 2 ^ 31"
  shows "reads c ReadSB4 (sb4_bytes v) v"
proof -
  have id: "int32_of v = v" unfolding int32_of_def by (rule wrap_signed_id) (use assms in auto)
  note u = uint_ucast_up64
  have "reads c (readSigned 4) (sb4_bytes v) v"
  proof (cases "v = 0")
    case True
    then show ?thesis using reads_readSigned [of "[]" 4 0 False c]
      by (simp add: sb4_bytes_def of_be_def of_be_acc_def Let_def)
  next
    case False
    have a: "0 \<le> \<bar>v\<bar>" by simp
    note r = reads_signed_of [where v = v and a = "\<bar>v\<bar>" and neg = "v < 0", OF _ _ _ _ assms]
    consider "\<bar>v\<bar> \<le> 0xff" | "\<not> \<bar>v\<bar> \<le> 0xff" "\<bar>v\<bar> \<le> 0xffff" | "\<not> \<bar>v\<bar> \<le> 0xffff" by linarith
    then show ?thesis
    proof cases
      case 1
      have "uint (ucast (word_of_int \<bar>v\<bar> :: u8) :: u64) = \<bar>v\<bar>"
        using 1 a by (simp add: uint_ucast_up64 uint_word_of_int take_bit_int_eq_self)
      then show ?thesis
        using 1 False unfolding sb4_bytes_def by (auto simp: Let_def of_be_wide intro!: r)
    next
      case 2
      have "uint (ucast (word_of_int \<bar>v\<bar> :: u16) :: u64) = \<bar>v\<bar>"
        using 2 a by (simp add: uint_ucast_up64 uint_word_of_int take_bit_int_eq_self)
      then show ?thesis
        using 2 False unfolding sb4_bytes_def by (auto simp: Let_def of_be_wide intro!: r)
    next
      case 3
      have "uint (ucast (word_of_int \<bar>v\<bar> :: u32) :: u64) = \<bar>v\<bar>"
        using 3 a assms by (simp add: uint_ucast_up64 uint_word_of_int take_bit_int_eq_self)
      then show ?thesis
        using 3 False unfolding sb4_bytes_def by (auto simp: Let_def of_be_wide intro!: r)
    qed
  qed
  then show ?thesis unfolding ReadSB4_def by (rule reads_map) (simp add: id)
qed

text \<open>A chunked value is a list of non-empty chunks, each after its length, and a zero length.\<close>

definition chunk_ok :: "bytes \<Rightarrow> bool" where
  "chunk_ok x \<longleftrightarrow> x \<noteq> [] \<and> length x < 2 ^ 32"

definition chunk_bytes :: "bytes \<Rightarrow> bytes" where
  "chunk_bytes x = ub4_bytes (word_of_nat (length x)) @ x"

lemma chunk_length: "chunk_ok x \<Longrightarrow> unat (word_of_nat (length x) :: u32) = length x \<and> (word_of_nat (length x) :: u32) \<noteq> 0"
proof -
  assume x: "chunk_ok x"
  then have "unat (word_of_nat (length x) :: u32) = length x" by (simp add: chunk_ok_def unat_of_nat)
  moreover have "(word_of_nat (length x) :: u32) \<noteq> 0" using x calculation by (auto simp: chunk_ok_def)
  ultimately show ?thesis ..
qed

lemma ready_chunk_nil [simp]:
  "ready (s\<lparr>chunk_nil := b\<rparr>) = ready s" "stream (s\<lparr>chunk_nil := b\<rparr>) = stream s" "caps (s\<lparr>chunk_nil := b\<rparr>) = caps s"
  by (simp_all add: ready_def stream_def rest_of_packet_def pending_def complete_def rbuf_ok_def)

lemma chunk_loop_stream:
  "list_all chunk_ok xs \<Longrightarrow> ready s \<Longrightarrow> stream s = concat (map chunk_bytes xs) @ ub4_bytes 0 @ rest \<Longrightarrow>
   xs \<noteq> [] \<or> \<not> chunk_nil s \<Longrightarrow>
   \<exists>s'. chunk_loop acc s = (Some (acc @ concat xs), s') \<and> ready s' \<and> stream s' = rest \<and> keeps s s'"
proof (induction xs arbitrary: acc s rule: list.induct)
  case Nil
  from reads_ub(2) [of "caps s" 0] Nil obtain s1 where
    s1: "run_state ReadUB4 s = (0, s1)" "ready s1" "stream s1 = rest" "keeps s s1"
    unfolding reads_def by auto
  then show ?case using Nil by (auto simp: chunk_loop.simps [of acc s] ready_def keeps_def)
next
  case (Cons x xs)
  have x: "unat (word_of_nat (length x) :: u32) = length x" "(word_of_nat (length x) :: u32) \<noteq> 0" "x \<noteq> []"
    using chunk_length [of x] Cons.prems(1) by (simp_all add: chunk_ok_def)
  let ?rest = "concat (map chunk_bytes xs) @ ub4_bytes 0 @ rest"
  have "stream s = ub4_bytes (word_of_nat (length x)) @ x @ ?rest"
    using Cons.prems(3) by (simp add: chunk_bytes_def [of x])
  then obtain s1 where s1: "run_state ReadUB4 s = (word_of_nat (length x), s1)" "ready s1" "stream s1 = x @ ?rest" "keeps s s1"
    using reads_ub(2) [of "caps s" "word_of_nat (length x)"] Cons.prems(2) unfolding reads_def by metis
  then obtain s2 where s2: "run_state (getRaw (length x)) s1 = (Some x, s2)" "ready s2" "stream s2 = ?rest" "keeps s1 s2"
    using reads_getRaw [OF x(3) refl, of "caps s1"] unfolding reads_def by metis
  let ?s3 = "s2\<lparr>chunk_nil := False\<rparr>"
  have "\<exists>s'. chunk_loop (acc @ x) ?s3 = (Some ((acc @ x) @ concat xs), s') \<and> ready s' \<and> stream s' = rest \<and> keeps ?s3 s'"
    using Cons.prems(1) s2 by (intro Cons.IH) simp_all
  moreover have "keeps s ?s3" using keeps_trans [OF s1(4) s2(4)] by (simp add: keeps_def rest_of_state_def)
  moreover have "chunk_loop acc s = chunk_loop (acc @ x) ?s3"
    using s1 s2 x by (simp add: chunk_loop.simps [of acc s] ready_def)
  ultimately show ?case using keeps_trans by fastforce
qed

lemma reads_chunks:
  assumes "list_all chunk_ok xs" "xs \<noteq> []"
  shows "reads c (State (chunk_loop [])) (concat (map chunk_bytes xs) @ ub4_bytes 0) (Some (concat xs))"
  using chunk_loop_stream [OF assms(1), of _ _ "[]"] assms(2) by (fastforce simp: reads_def)

text \<open>The three forms of a value: absent, short, and chunked.\<close>

definition value_form :: "bytes \<Rightarrow> bytes option \<Rightarrow> bool" where
  "value_form bs v \<longleftrightarrow> v = None \<and> (bs = [0] \<or> bs = [NullLengthIndicator]) \<or>
     (\<exists>b. v = Some b \<and> b \<noteq> [] \<and> length b < 254 \<and> bs = word_of_nat (length b) # b) \<or>
     (\<exists>xs. v = Some (concat xs) \<and> xs \<noteq> [] \<and> list_all chunk_ok xs \<and>
        bs = LongLengthIndicator # concat (map chunk_bytes xs) @ ub4_bytes 0)"

lemma short_length:
  "length b < 254 \<Longrightarrow> b \<noteq> [] \<Longrightarrow> unat (word_of_nat (length b) :: u8) = length b \<and> (word_of_nat (length b) :: u8) \<noteq> 0 \<and>
    (word_of_nat (length b) :: u8) \<noteq> 255 \<and> (word_of_nat (length b) :: u8) \<noteq> 254"
proof -
  assume b: "length b < 254" "b \<noteq> []"
  then have u: "unat (word_of_nat (length b) :: u8) = length b" by (simp add: unat_of_nat)
  then have "(word_of_nat (length b) :: u8) \<noteq> w" if "unat w \<noteq> length b" for w using that by auto
  then show ?thesis using u b by simp
qed

lemma reads_ReadRawBytesAndLength:
  assumes "value_form bs v"
  shows "reads c (ReadRawBytesAndLength :: ('z, bytes option) op) bs v"
proof -
  have main: "reads c (ReadRawBytesAndLength :: ('z, bytes option) op) ([l] @ b) w"
    if "reads c (if l = 0 \<or> l = NullLengthIndicator then State_Monad.return None
      else if l \<noteq> LongLengthIndicator then getRaw (unat l) else State (chunk_loop []) :: ('z, bytes option) op) b w" for l b w
    unfolding ReadRawBytesAndLength_def
    by (rule reads_bind [OF reads_ReadUB1], rule reads_seq0, rule reads_gets_rerr) (use that in simp)
  from assms consider "v = None" "bs = [0] \<or> bs = [NullLengthIndicator]"
    | b where "v = Some b" "b \<noteq> []" "length b < 254" "bs = word_of_nat (length b) # b"
    | xs where "v = Some (concat xs)" "xs \<noteq> []" "list_all chunk_ok xs"
        "bs = LongLengthIndicator # concat (map chunk_bytes xs) @ ub4_bytes 0"
    unfolding value_form_def by blast
  then show ?thesis
  proof cases
    case 1
    then show ?thesis using main [of 0 "[]"] main [of NullLengthIndicator "[]"] by (auto simp: reads_return)
  next
    case 2
    then show ?thesis using main [of "word_of_nat (length b)" b "Some b"] short_length [of b]
      by (simp add: reads_getRaw NullLengthIndicator_def LongLengthIndicator_def)
  next
    case 3
    have l: "LongLengthIndicator \<noteq> 0" "LongLengthIndicator \<noteq> NullLengthIndicator"
      by (simp_all add: NullLengthIndicator_def LongLengthIndicator_def)
    show ?thesis using 3 main [of LongLengthIndicator _ v] l by (simp add: reads_chunks)
  qed
qed

lemma reads_ReadBytes [reads_rules]: "value_form bs v \<Longrightarrow> reads c ReadBytes bs v"
  by (simp add: ReadBytes_def reads_ReadRawBytesAndLength)

lemma reads_ReadStr [reads_rules]:
  assumes "value_form bs v"
  shows "reads c (ReadStr nchar) bs (case v of None \<Rightarrow> ([], False) | Some b \<Rightarrow> (if nchar then DecodeUTF16BE b else b, True))"
  unfolding ReadStr_def by (rule reads_map [OF reads_ReadRawBytesAndLength [OF assms]]) simp

lemma reads_ReadBytesWithLength:
  "n \<noteq> 0 \<Longrightarrow> value_form bs v \<Longrightarrow> reads c ReadBytesWithLength (ub4_bytes n @ bs) v"
  "reads c ReadBytesWithLength (ub4_bytes 0) None"
proof -
  assume a: "n \<noteq> 0" "value_form bs v"
  show "reads c ReadBytesWithLength (ub4_bytes n @ bs) v"
    unfolding ReadBytesWithLength_def
    by (rule reads_bind, rule reads_ub(2)) (use a in \<open>simp add: reads_ReadBytes word_gt_0\<close>)
next
  have "reads c ReadBytesWithLength (ub4_bytes 0 @ []) None"
    unfolding ReadBytesWithLength_def by (rule reads_bind, rule reads_ub(2)) (simp add: reads_return)
  then show "reads c ReadBytesWithLength (ub4_bytes 0) None" by simp
qed

lemma reads_ReadStrWithLength:
  assumes "n \<noteq> 0" "value_form bs v"
  shows "reads c ReadStrWithLength (ub4_bytes n @ bs) (case v of None \<Rightarrow> [] | Some b \<Rightarrow> b)"
  unfolding ReadStrWithLength_def
proof (rule reads_bind, rule reads_ub(2))
  show "reads c (if n = 0 then State_Monad.return [] else State_Monad.bind (ReadStr False) (\<lambda>(s, _). State_Monad.return s)) bs
      (case v of None \<Rightarrow> [] | Some b \<Rightarrow> b)"
    using assms by (cases v) (auto intro!: reads_seq [OF reads_ReadStr [of bs v], where ?b2.0 = "[]"] simp: reads_return)
qed

subsection \<open>Skipping\<close>

lemma skip_raw_stream: "ready s \<Longrightarrow> n \<le> length (stream s) \<Longrightarrow> takes n s (skip_raw n s)"
proof (induction n s rule: skip_raw.induct)
  case (1 n s)
  have err: "rerr s = None" using 1(3) by (simp add: ready_def)
  show ?case
  proof (cases "n = 0")
    case True
    then show ?thesis using 1(3) by (simp add: skip_raw.simps [of 0] takes_def)
  next
    case n: False
    show ?thesis
    proof (cases "BytesLeft s = 0")
      case True
      have nil: "rest_of_packet s = []" using True rest_of_packet_length [of s] 1(3) by (simp add: ready_def)
      have ne: "stream s \<noteq> []" using n 1(4) by auto
      have w: "takes 0 s (wait_packets True s)" by (rule takes_wait [OF 1(3) nil ne])
      then have w': "ready (wait_packets True s)" "stream (wait_packets True s) = stream s" "rerr (wait_packets True s) = None"
        by (simp_all add: takes_def ready_def)
      have "takes n (wait_packets True s) (skip_raw n (wait_packets True s))"
        by (rule 1(1)) (use n err True w' 1(4) in simp_all)
      then show ?thesis using takes_trans [OF w] n err True w' by (simp add: skip_raw.simps [of n s])
    next
      case False
      define m where "m = min n (BytesLeft s)"
      define s1 where "s1 = s\<lparr>rpos := rpos s + m\<rparr>"
      have t: "takes m s s1" using takes_from_packet [OF 1(3)] by (simp add: s1_def m_def)
      have "takes (n - m) s1 (skip_raw (n - m) s1)"
        unfolding s1_def
        by (rule 1(2) [OF _ False m_def]) (use n err t 1(4) in \<open>simp_all add: takes_def s1_def diff_le_mono\<close>)
      then show ?thesis
        using takes_trans [OF t, of "n - m"] n err False
        by (simp add: skip_raw.simps [of n s] s1_def Let_def flip: m_def) (simp add: m_def)
    qed
  qed
qed

lemma reads_SkipRawBytes [reads_rules]: "n = length bs \<Longrightarrow> reads c (SkipRawBytes n) bs ()"
  using skip_raw_stream [of _ n] by (fastforce simp: reads_def SkipRawBytes_def takes_def)

lemma reads_discard: "reads c m bs v \<Longrightarrow> reads c (State_Monad.bind m (\<lambda>_. State_Monad.return ())) bs ()"
  by (rule reads_map) simp_all

lemma reads_skips [reads_rules]:
  "reads c SkipUB1 [b] ()" "reads c SkipUB2 (ub2_bytes v) ()" "reads c SkipUB4 (ub4_bytes w) ()" "reads c SkipUB8 (ub8_bytes x) ()"
  unfolding SkipUB1_def SkipUB2_def SkipUB4_def SkipUB8_def
  by (rule reads_discard, (rule reads_getRaw reads_readUnsigned_ub; simp))+

text \<open>\<open>SkipBytes\<close> passes over a short or chunked value, but takes the NULL length for 255 bytes.\<close>

lemma skip_chunks_stream:
  "list_all chunk_ok xs \<Longrightarrow> ready s \<Longrightarrow> stream s = concat (map chunk_bytes xs) @ ub4_bytes 0 @ rest \<Longrightarrow>
   ready (skip_chunks s) \<and> stream (skip_chunks s) = rest \<and> keeps s (skip_chunks s)"
proof (induction xs arbitrary: s rule: list.induct)
  case Nil
  from reads_ub(2) [of "caps s" 0] Nil obtain s1 where
    "run_state ReadUB4 s = (0, s1)" "ready s1" "stream s1 = rest" "keeps s s1"
    unfolding reads_def by auto
  then show ?case by (simp add: skip_chunks.simps [of s])
next
  case (Cons x xs)
  have x: "unat (word_of_nat (length x) :: u32) = length x" "(word_of_nat (length x) :: u32) \<noteq> 0" "x \<noteq> []"
    using chunk_length [of x] Cons.prems(1) by (simp_all add: chunk_ok_def)
  let ?rest = "concat (map chunk_bytes xs) @ ub4_bytes 0 @ rest"
  have "stream s = ub4_bytes (word_of_nat (length x)) @ x @ ?rest"
    using Cons.prems(3) by (simp add: chunk_bytes_def [of x])
  then obtain s1 where s1: "run_state ReadUB4 s = (word_of_nat (length x), s1)" "ready s1" "stream s1 = x @ ?rest" "keeps s s1"
    using reads_ub(2) [of "caps s" "word_of_nat (length x)"] Cons.prems(2) unfolding reads_def by metis
  have t: "takes (length x) s1 (skip_raw (length x) s1)" using skip_raw_stream [OF s1(2)] s1(3) by simp
  then have s2: "ready (skip_raw (length x) s1)" "stream (skip_raw (length x) s1) = ?rest" "keeps s1 (skip_raw (length x) s1)"
    using s1(3) by (simp_all add: takes_def)
  then have "skip_chunks s = skip_chunks (skip_raw (length x) s1)"
    using s1 x by (simp add: skip_chunks.simps [of s] ready_def)
  then show ?case using Cons.IH [OF _ s2(1,2)] Cons.prems(1) keeps_trans [OF keeps_trans [OF s1(4) s2(3)]] by simp
qed

lemma reads_SkipBytes:
  assumes "value_form bs v" "bs \<noteq> [NullLengthIndicator]"
  shows "reads c (SkipBytes :: ('z, unit) op) bs ()"
proof -
  have main: "reads c (SkipBytes :: ('z, unit) op) ([l] @ b) ()"
    if "reads c (if l \<noteq> LongLengthIndicator then SkipRawBytes (unat l) else modify skip_chunks :: ('z, unit) op) b ()" for l b
    unfolding SkipBytes_def
    by (rule reads_bind [OF reads_ReadUB1], rule reads_seq0, rule reads_gets_rerr) (use that in simp)
  from assms consider "bs = [0]"
    | b where "b \<noteq> []" "length b < 254" "bs = word_of_nat (length b) # b"
    | xs where "list_all chunk_ok xs" "bs = LongLengthIndicator # concat (map chunk_bytes xs) @ ub4_bytes 0"
    unfolding value_form_def by blast
  then show ?thesis
  proof cases
    case 1
    then show ?thesis using main [of 0 "[]"] by (simp add: reads_SkipRawBytes LongLengthIndicator_def)
  next
    case 2
    then show ?thesis using main [of "word_of_nat (length b)" b] short_length [of b]
      by (simp add: reads_SkipRawBytes LongLengthIndicator_def)
  next
    case 3
    have "reads c (modify skip_chunks :: ('z, unit) op) (concat (map chunk_bytes xs) @ ub4_bytes 0) ()"
      using skip_chunks_stream [OF 3(1)] by (fastforce simp: reads_def)
    then show ?thesis using 3 main [of LongLengthIndicator] by simp
  qed
qed

lemma reads_SkipBytesWithLength:
  "n \<noteq> 0 \<Longrightarrow> value_form bs v \<Longrightarrow> bs \<noteq> [NullLengthIndicator] \<Longrightarrow> reads c SkipBytesWithLength (ub4_bytes n @ bs) ()"
  "reads c SkipBytesWithLength (ub4_bytes 0) ()"
  unfolding SkipBytesWithLength_def
  by (rule reads_bind, rule reads_ub(2), simp add: reads_SkipBytes word_gt_0)
    (rule reads_seq [where ?b2.0 = "[]"], rule reads_ub(2), simp_all add: reads_return)

definition rowid_bytes :: "rowid \<Rightarrow> bytes" where
  "rowid_bytes r = ub4_bytes (RBA r) @ ub2_bytes (PartitionID r) @ [0] @ ub4_bytes (BlockNum r) @ ub2_bytes (SlotNum r)"

lemma reads_ReadRowid [reads_rules]: "reads c ReadRowid (rowid_bytes r) r"
  unfolding ReadRowid_def rowid_bytes_def
  by (intro reads_bind reads_map, (rule reads_ub reads_skips | simp)+)

text \<open>
  Property C4. Packet boundaries do not show: on a reader with no error or marker pending, reading \<open>n\<close>
  bytes returns the next \<open>n\<close> bytes of the concatenated packet payloads, whatever the packets' sizes,
  the empty ones included, and whether or not the reader first waits for the end of the response; it
  leaves the rest of the stream and nothing else of the session changed.
\<close>

theorem getRaw_refines_stream:
  assumes "ready s" "0 < n" "n \<le> length (stream s)"
  shows "fst (run_state (getRaw n) s) = Some (take n (stream s)) \<and>
    stream (snd (run_state (getRaw n) s)) = drop n (stream s) \<and>
    ready (snd (run_state (getRaw n) s)) \<and> keeps s (snd (run_state (getRaw n) s))"
  using get_raw_stream [OF assms] by (auto simp: takes_def)

text \<open>A new session, its write buffer sized for an SDU of 8192 on a protected connection.\<close>

definition toy_session :: "transport \<Rightarrow> session" where
  "toy_session t = \<lparr>tr = t, caps = NewCapabilities\<lparr>ProtocolVersion := 319\<rparr>, rdata = [], rpos = 0, rsize = 0, current = None,
     saved = [], nextPacketPos = 0, pendingErrorNum = 0, checkRequestBoundary = False, rerr = None, chunk_nil = True,
     wdata = replicate 8142 0, wpos = 0, wmaxSize = 8142, packetType = 0, packetFlags = 0, dataFlags = 0, seqNum = 0,
     packetSent = False, werr = None\<rparr>"

lemma packets_in_empty: "incoming t = [] \<Longrightarrow> packets_in t = []"
  by (cases "closed t") (simp_all add: packets_in.simps [of t] ReadPacket_def Connected_def read_full_def PacketHeaderSize_def)

text \<open>A value of four bytes over three packets, one of them empty.\<close>

definition data_packet :: "bytes \<Rightarrow> packet" where
  "data_packet b = \<lparr>Type = PacketTypeData, Flags = 0, Buf = [0, 0, 0, word_of_nat (10 + length b), 6, 0, 0, 0, 0, 0] @ b\<rparr>"

definition split_session :: session where
  "split_session = (toy_session (toy_end toy_security []))
     \<lparr>rdata := [1, 2], rsize := 2, saved := [data_packet [], data_packet [3, 4, 5]]\<rparr>"

theorem getRaw_refines_stream_witness:
  "fst (run_state (getRaw 4) split_session) = Some [1, 2, 3, 4] \<and> stream (snd (run_state (getRaw 4) split_session)) = [5]"
proof -
  have p: "pending split_session = [data_packet [], data_packet [3, 4, 5]]"
    by (simp add: pending_def split_session_def toy_session_def toy_end_def packets_in_empty)
  have s: "stream split_session = [1, 2, 3, 4, 5]"
    by (simp add: stream_def p rest_of_packet_def payload_def data_packet_def dataPayloadOffset_def PacketHeaderSize_def)
      (simp add: split_session_def toy_session_def)
  have "ready split_session"
    unfolding ready_def p
    by (simp add: rbuf_ok_def plain_def data_packet_def dataPayloadOffset_def PacketHeaderSize_def complete_def checkConnected_def)
      (simp add: split_session_def toy_session_def data_packet_def)
  from getRaw_refines_stream [OF this, of 4] show ?thesis by (simp add: s numeral_eq_Suc)
qed

end
