(* ===== verification/TnsReadSafe.thy ===== *)
theory TnsReadSafe
  imports TnsReads
begin

text \<open>
  The reader against any server: whatever packets arrive, in whatever order its operations are called,
  the reader's position stays inside the current packet, so that no slice expression of the buffer is
  out of range, and a value of \<open>n\<close> bytes that is returned has \<open>n\<close> bytes.
\<close>

lemma get_rest_ok:
  "rbuf_ok s \<Longrightarrow> get_rest n acc s = (ob, s') \<Longrightarrow> rbuf_ok s' \<and> (\<forall>b. ob = Some b \<longrightarrow> length b = length acc + n)"
proof (induction n acc s rule: get_rest.induct)
  case (1 n acc s)
  show ?case
  proof (cases "n = 0 \<or> rerr (wait_packets True s) \<noteq> None")
    case True
    then show ?thesis using 1(2,3) wait_packets_ok [of s True] by (auto simp: get_rest.simps [of n] split: if_splits)
  next
    case False
    define s1 where "s1 = wait_packets True s"
    define m where "m = min n (BytesLeft s1)"
    have ok: "rbuf_ok s1" using wait_packets_ok [OF 1(2)] by (simp add: s1_def)
    then have ok': "rbuf_ok (s1\<lparr>rpos := rpos s1 + m\<rparr>)" by (auto simp: rbuf_ok_def m_def BytesLeft_def)
    have l: "length (take m (rest_of_packet s1)) = m" using rest_of_packet_length [OF ok] by (simp add: m_def)
    have "get_rest (n - m) (acc @ take m (rest_of_packet s1)) (s1\<lparr>rpos := rpos s1 + m\<rparr>) = (ob, s')"
      using 1(3) False by (simp add: get_rest.simps [of n acc s] s1_def m_def Let_def)
    from 1(1) [OF _ _ s1_def m_def ok' this] show ?thesis using False l by (simp add: m_def)
  qed
qed

lemma get_raw_ok:
  assumes "rbuf_ok s" "get_raw n s = (ob, s')"
  shows "rbuf_ok s' \<and> (\<forall>b. ob = Some b \<longrightarrow> length b = n)"
proof -
  define s1 where "s1 = (if rpos s = rsize s then wait_packets True s else s)"
  have ok: "rbuf_ok s1" using wait_packets_ok [OF assms(1)] assms(1) by (simp add: s1_def)
  note l = rest_of_packet_length [OF ok]
  consider "rerr s \<noteq> None" | "rerr s = None" "rerr s1 \<noteq> None" | "rerr s = None" "rerr s1 = None" "n \<le> BytesLeft s1"
    | "rerr s = None" "rerr s1 = None" "\<not> n \<le> BytesLeft s1" by blast
  then show ?thesis
  proof cases
    case 4
    have ok': "rbuf_ok (s1\<lparr>rpos := rsize s1\<rparr>)" using ok by (simp add: rbuf_ok_def)
    have "get_rest (n - BytesLeft s1) (rest_of_packet s1) (s1\<lparr>rpos := rsize s1\<rparr>) = (ob, s')"
      using assms(2) 4 by (simp add: get_raw_def s1_def [symmetric])
    from get_rest_ok [OF ok' this] show ?thesis using l 4 by simp
  next
    case 3
    then show ?thesis using assms(2) ok l
      by (auto simp: get_raw_def s1_def [symmetric] rbuf_ok_def BytesLeft_def)
  qed (use assms ok in \<open>auto simp: get_raw_def s1_def [symmetric]\<close>)
qed

lemma skip_raw_ok: "rbuf_ok s \<Longrightarrow> rbuf_ok (skip_raw n s)"
proof (induction n s rule: skip_raw.induct)
  case (1 n s)
  show ?case
  proof (cases "n > 0 \<and> rerr s = None")
    case a: True
    show ?thesis
    proof (cases "BytesLeft s = 0")
      case True
      then show ?thesis using 1(1) [OF a True] wait_packets_ok [OF 1(3), of True] a by (simp add: skip_raw.simps [of n s])
    next
      case False
      have "rbuf_ok (s\<lparr>rpos := rpos s + min n (BytesLeft s)\<rparr>)" using 1(3) by (auto simp: rbuf_ok_def BytesLeft_def)
      then show ?thesis using 1(2) [OF a False refl] a False by (simp add: skip_raw.simps [of n s] Let_def)
    qed
  next
    case False
    then show ?thesis using 1(3) by (auto simp: skip_raw.simps [of n s])
  qed
qed

lemma read_null_terminated_ok: "rbuf_ok s \<Longrightarrow> rbuf_ok (snd (read_null_terminated s))"
  by (simp add: read_null_terminated_def rbuf_ok_def Let_def)

text \<open>The states of a reader: every operation is a sequence of these steps.\<close>

inductive reader_step :: "session \<Rightarrow> session \<Rightarrow> bool" where
  Wait: "reader_step s (snd (run_state (WaitForPackets m) s))"
| Raw: "reader_step s (snd (run_state (getRaw n) s))"
| Skip: "reader_step s (snd (run_state (SkipRawBytes n) s))"
| NullTerminated: "reader_step s (snd (run_state ReadNullTerminatedBytes s))"
| Fail: "reader_step s (snd (run_state (SetErr e) s))"
| Clear: "reader_step s (snd (run_state ClearErr s))"
| ClearPending: "reader_step s (snd (run_state ClearPendingError s))"
| Boundary: "reader_step s (snd (run_state (SetCheckRequestBoundary b) s))"
| Reset: "reader_step s (snd (run_state ResetPackets s))"
| Chunk: "reader_step s (s\<lparr>chunk_nil := False\<rparr>)"

lemma reader_step_ok: "reader_step s s' \<Longrightarrow> rbuf_ok s \<Longrightarrow> rbuf_ok s'"
proof (induction rule: reader_step.induct)
  case (Raw s n)
  then show ?case using get_raw_ok [of s n] by (cases "get_raw n s") simp
qed (simp_all add: WaitForPackets_def wait_packets_ok SkipRawBytes_def skip_raw_ok ReadNullTerminatedBytes_def
    read_null_terminated_ok SetErr_def ClearErr_def ClearPendingError_def SetCheckRequestBoundary_def ResetPackets_def,
    simp_all add: rbuf_ok_def)

text \<open>
  Property C21. Starting from a new buffer on any connection, after any sequence of reads, skips, waits,
  errors and resets, the position is at most the size of the current packet's buffer, and the next read
  of \<open>n\<close> bytes returns either nothing or exactly \<open>n\<close> bytes.
\<close>

theorem reader_stays_in_packet:
  assumes "rtranclp reader_step s0 s" "rdata s0 = []" "rpos s0 = 0" "rsize s0 = 0" "saved s0 = []" "nextPacketPos s0 = 0"
  shows "rpos s \<le> rsize s \<and> rsize s = length (rdata s) \<and>
    (\<forall>n. case fst (run_state (getRaw n) s) of None \<Rightarrow> True | Some b \<Rightarrow> length b = n)"
proof -
  have "rbuf_ok s0" using assms(2-6) by (simp add: rbuf_ok_def)
  with assms(1) have ok: "rbuf_ok s" by (induction rule: rtranclp_induct) (auto intro: reader_step_ok)
  then have "length b = n" if "fst (get_raw n s) = Some b" for n b
    using that by (metis prod.collapse get_raw_ok [OF ok])
  then show ?thesis using ok by (simp add: rbuf_ok_def split: option.split)
qed

theorem reader_stays_in_packet_witness:
  "let s = snd (run_state (getRaw 3) (toy_session (toy_end toy_security [0, 0, 0, 9, 6, 0, 0, 0, 1]))) in
   rpos s \<le> rsize s \<and> rsize s = length (rdata s) \<and>
   (\<forall>n. case fst (run_state (getRaw n) s) of None \<Rightarrow> True | Some b \<Rightarrow> length b = n)"
proof -
  let ?s0 = "toy_session (toy_end toy_security [0, 0, 0, 9, 6, 0, 0, 0, 1])"
  have "rtranclp reader_step ?s0 (snd (run_state (getRaw 3) ?s0))" by (rule r_into_rtranclp, rule Raw)
  from reader_stays_in_packet [OF this] show ?thesis by (simp add: toy_session_def Let_def)
qed

end
