(* ===== verification/TnsWriteBuf.thy ===== *)
theory TnsWriteBuf
  imports TnsReadBuf
begin

text \<open>
  \<^verbatim>\<open>internal/tns/writebuf.go\<close>: the buffer that builds requests and sends them as packets no larger than
  the negotiated SDU. Its fields are the \<open>w\<close>-prefixed and packet fields of \<open>session\<close>. Storing outside
  the buffer, a Go panic, is the error \<open>OtherErr ''panic''\<close>, so that its absence is a theorem. What the
  buffer holds beyond \<open>wpos\<close> is never sent, so resizing it keeps a prefix and pads with zeros.
\<close>

definition write_panic :: tns_error where
  "write_panic = OtherErr ''panic''"

definition SizeForSDU :: "('z, unit) op" where
  "SizeForSDU = modify (\<lambda>s.
     let n = uint (SDU (caps s)) - int (Overhead (sec (tr s)))
     in s\<lparr>wmaxSize := n, wdata := take (nat n) (wdata s) @ replicate (nat n - length (wdata s)) 0\<rparr>)"

definition StartRequest :: "u8 \<Rightarrow> u8 \<Rightarrow> u16 \<Rightarrow> ('z, unit) op" where
  "StartRequest ptype pflags dflags = modify (\<lambda>s.
     let s = s\<lparr>werr := None, packetSent := False, packetType := ptype, packetFlags := pflags, wpos := PacketHeaderSize\<rparr>
     in if ptype = PacketTypeData then s\<lparr>dataFlags := dflags, wpos := wpos s + 2\<rparr> else s)"

definition OrDataFlags :: "u16 \<Rightarrow> ('z, unit) op" where
  "OrDataFlags f = modify (\<lambda>s. s\<lparr>dataFlags := dataFlags s OR f\<rparr>)"

text \<open>Storing \<open>bs\<close> at \<open>p\<close>.\<close>

definition store :: "nat \<Rightarrow> bytes \<Rightarrow> 'z session_scheme \<Rightarrow> 'z session_scheme" where
  "store p bs s =
     (if werr s \<noteq> None then s
      else if p + length bs \<le> length (wdata s) then
        s\<lparr>wdata := take p (wdata s) @ bs @ drop (p + length bs) (wdata s)\<rparr>
      else s\<lparr>werr := Some write_panic\<rparr>)"

definition put_header :: "'z session_scheme \<Rightarrow> 'z session_scheme" where
  "put_header s =
     (let sz = wpos s;
          s = (if ProtocolVersion (caps s) \<ge> VersionMinLargeSDU then store 0 (be32 (word_of_nat sz)) s
               else store 2 (be16 0) (store 0 (be16 (word_of_nat sz)) s));
          s = store 4 [packetType s] s;
          s = store 5 [packetFlags s] s;
          s = store 6 (be16 0) s
      in if packetType s = PacketTypeData then store 8 (be16 (dataFlags s)) s else s)"

definition send_packet :: "bool \<Rightarrow> 'z session_scheme \<Rightarrow> 'z session_scheme" where
  "send_packet final s =
     (if werr s \<noteq> None then s
      else let s = put_header s in
        if werr s \<noteq> None then s
        else case WritePacket (take (wpos s) (wdata s)) (tr s) of
          (Some e, t) \<Rightarrow> s\<lparr>tr := t, werr := Some e\<rparr>
        | (None, t) \<Rightarrow>
          s\<lparr>tr := t, packetSent := True,
            wpos := PacketHeaderSize + (if \<not> final \<and> packetType s = PacketTypeData then 2 else 0)\<rparr>)"

definition EndRequest :: "('z, tns_error option) op" where
  "EndRequest = do {
     modify (\<lambda>s. if wpos s > PacketHeaderSize then send_packet True s else s);
     gets werr }"

definition ensure :: "nat \<Rightarrow> 'z session_scheme \<Rightarrow> 'z session_scheme" where
  "ensure n s = (if werr s \<noteq> None then s else if int (wpos s) + int n > wmaxSize s then send_packet False s else s)"

text \<open>\<open>ensure\<close>, then the bytes of a fixed-width value at \<open>wpos\<close>.\<close>

definition put_fixed :: "bytes \<Rightarrow> 'z session_scheme \<Rightarrow> 'z session_scheme" where
  "put_fixed bs s =
     (let s = ensure (length bs) s in
      if werr s \<noteq> None then s else let s = store (wpos s) bs s in s\<lparr>wpos := wpos s + length bs\<rparr>)"

definition WriteUint8 :: "u8 \<Rightarrow> ('z, unit) op" where
  "WriteUint8 v = modify (put_fixed [v])"

definition WriteUint16BE :: "u16 \<Rightarrow> ('z, unit) op" where
  "WriteUint16BE v = modify (put_fixed (be16 v))"

definition WriteUint16LE :: "u16 \<Rightarrow> ('z, unit) op" where
  "WriteUint16LE v = modify (put_fixed (le16 v))"

definition WriteUint32BE :: "u32 \<Rightarrow> ('z, unit) op" where
  "WriteUint32BE v = modify (put_fixed (be32 v))"

definition WriteUint64BE :: "u64 \<Rightarrow> ('z, unit) op" where
  "WriteUint64BE v = modify (put_fixed (be64 v))"

definition WriteUB2 :: "u16 \<Rightarrow> ('z, unit) op" where
  "WriteUB2 v =
     (if v = 0 then WriteUint8 0
      else if v \<le> 0xff then do { WriteUint8 1; WriteUint8 (ucast v) }
      else do { WriteUint8 2; WriteUint16BE v })"

definition WriteUB4 :: "u32 \<Rightarrow> ('z, unit) op" where
  "WriteUB4 v =
     (if v = 0 then WriteUint8 0
      else if v \<le> 0xff then do { WriteUint8 1; WriteUint8 (ucast v) }
      else if v \<le> 0xffff then do { WriteUint8 2; WriteUint16BE (ucast v) }
      else do { WriteUint8 4; WriteUint32BE v })"

definition WriteUB8 :: "u64 \<Rightarrow> ('z, unit) op" where
  "WriteUB8 v =
     (if v = 0 then WriteUint8 0
      else if v \<le> 0xff then do { WriteUint8 1; WriteUint8 (ucast v) }
      else if v \<le> 0xffff then do { WriteUint8 2; WriteUint16BE (ucast v) }
      else if v \<le> 0xffffffff then do { WriteUint8 4; WriteUint32BE (ucast v) }
      else do { WriteUint8 8; WriteUint64BE v })"

text \<open>The argument is a Go \<open>int32\<close>; its negation wraps.\<close>

definition WriteSB4 :: "int \<Rightarrow> ('z, unit) op" where
  "WriteSB4 v0 =
     (let sign = (if v0 < 0 then 0x80 else 0) :: u8; v = (if v0 < 0 then int32_of (- v0) else v0) in
      if v = 0 then WriteUint8 0
      else if v \<le> 0xff then do { WriteUint8 (1 OR sign); WriteUint8 (word_of_int v) }
      else if v \<le> 0xffff then do { WriteUint8 (2 OR sign); WriteUint16BE (word_of_int v) }
      else do { WriteUint8 (4 OR sign); WriteUint32BE (word_of_int v) })"

lemma store_simps [simp]:
  "wmaxSize (store p bs s) = wmaxSize s" "wpos (store p bs s) = wpos s" "tr (store p bs s) = tr s"
  "caps (store p bs s) = caps s" "packetType (store p bs s) = packetType s"
  "dataFlags (store p bs s) = dataFlags s" "packetFlags (store p bs s) = packetFlags s"
  "length (wdata (store p bs s)) = length (wdata s)"
  by (simp_all add: store_def)

lemma put_header_simps [simp]:
  "wmaxSize (put_header s) = wmaxSize s" "wpos (put_header s) = wpos s" "tr (put_header s) = tr s"
  "caps (put_header s) = caps s" "packetType (put_header s) = packetType s"
  "length (wdata (put_header s)) = length (wdata s)"
  by (simp_all add: put_header_def Let_def)

lemma send_packet_wmaxSize [simp]: "wmaxSize (send_packet f s) = wmaxSize s"
  by (cases "WritePacket (take (wpos s) (wdata (put_header s))) (tr s)")
    (simp add: send_packet_def Let_def split: option.split)

text \<open>
  The loop of \<open>WriteRaw\<close>. A full buffer is sent; a buffer too small to take a byte after its header
  would loop for ever in Go and panics here.
\<close>

function write_raw :: "bytes \<Rightarrow> 'z session_scheme \<Rightarrow> 'z session_scheme" where
  "write_raw b s =
     (if b = [] \<or> werr s \<noteq> None then s
      else if wmaxSize s - int (wpos s) = 0 then
        (let s1 = send_packet False s in
         if werr s1 \<noteq> None then s1
         else if int (wpos s1) \<ge> wmaxSize s1 then s1\<lparr>werr := Some write_panic\<rparr>
         else write_raw b s1)
      else if wmaxSize s < int (wpos s) then s\<lparr>werr := Some write_panic\<rparr>
      else let n = min (length b) (nat (wmaxSize s - int (wpos s))); s1 = store (wpos s) (take n b) s in
        write_raw (drop n b) (s1\<lparr>wpos := wpos s1 + n\<rparr>))"
  by pat_completeness auto

termination
  by (relation "(\<lambda>(b, s). length b) <*mlex*> measure (\<lambda>(b, s). if wmaxSize s = int (wpos s) then 1 else 0)")
    (auto simp: mlex_prod_def intro!: wf_mlex)

declare write_raw.simps [simp del]

definition WriteRaw :: "bytes \<Rightarrow> ('z, unit) op" where
  "WriteRaw b = modify (write_raw b)"

definition WriteBytes :: "bytes \<Rightarrow> ('z, unit) op" where
  "WriteBytes = WriteRaw"

definition WriteStr :: "bytes \<Rightarrow> ('z, unit) op" where
  "WriteStr = WriteRaw"

fun write_chunks :: "nat \<Rightarrow> bytes \<Rightarrow> ('z, unit) op" where
  "write_chunks 0 b = State_Monad.return ()"
| "write_chunks (Suc k) b =
     (if b = [] then State_Monad.return ()
      else do {
        WriteUB4 (word_of_nat (length (take ChunkSize b)));
        WriteRaw (take ChunkSize b);
        write_chunks k (drop ChunkSize b) })"

text \<open>The loop over chunks ends after at most \<open>length b\<close> of them.\<close>

definition WriteBytesWithLength :: "bytes \<Rightarrow> ('z, unit) op" where
  "WriteBytesWithLength b =
     (if length b \<le> MaxShortLength then
        do { WriteUint8 (word_of_nat (length b)); if length b > 0 then WriteRaw b else State_Monad.return () }
      else do { WriteUint8 LongLengthIndicator; write_chunks (length b) b; WriteUB4 0 })"

definition WriteBytesWithTwoLengths :: "bytes option \<Rightarrow> ('z, unit) op" where
  "WriteBytesWithTwoLengths ob =
     (case ob of None \<Rightarrow> WriteUB4 0
      | Some b \<Rightarrow> do {
          WriteUB4 (word_of_nat (length b));
          if length b > 0 then WriteBytesWithLength b else State_Monad.return () })"

definition WriteStrWithTwoLengths :: "bytes \<Rightarrow> ('z, unit) op" where
  "WriteStrWithTwoLengths s = WriteBytesWithTwoLengths (Some s)"

definition WriteSeqNum :: "('z, unit) op" where
  "WriteSeqNum = do {
     modify (\<lambda>s. s\<lparr>seqNum := seqNum s + 1\<rparr>);
     modify (\<lambda>s. if seqNum s = 0 then s\<lparr>seqNum := 1\<rparr> else s);
     n \<leftarrow> gets seqNum;
     WriteUint8 n }"

end
