(* ===== verification/TnsWrites.thy ===== *)
theory TnsWrites
  imports TnsReads TnsWriteBuf
begin

text \<open>
  What the writer means: whatever the field sizes and wherever packets are cut, the server reads the
  concatenation of the fields written. \<open>sending\<close> relates a writing session to the transport of the
  other end; \<open>writes c op bs\<close> states that \<open>op\<close> appends exactly \<open>bs\<close> to the request, and composes
  along \<open>do\<close>. With \<open>reads\<close> this gives the round trips of fields and of whole requests.
\<close>

named_theorems writes_rules \<open>rules for what an operation appends to a request\<close>

subsection \<open>A sequence of packets\<close>

fun reads_packets :: "transport \<Rightarrow> packet list \<Rightarrow> transport \<Rightarrow> bool" where
  "reads_packets t [] t' \<longleftrightarrow> t' = t"
| "reads_packets t (p # ps) t' \<longleftrightarrow> (\<exists>t1. ReadPacket t = (Inr p, t1) \<and> reads_packets t1 ps t')"

text \<open>The other end \<open>r0\<close>, given the packets \<open>outs\<close> on the wire, reads \<open>ps\<close> and is then \<open>r\<close>.\<close>

definition carries :: "transport \<Rightarrow> bytes list \<Rightarrow> packet list \<Rightarrow> transport \<Rightarrow> bool" where
  "carries r0 outs ps r \<longleftrightarrow>
     (\<forall>rest. reads_packets (r0\<lparr>incoming := concat outs @ rest\<rparr>) ps (r\<lparr>incoming := rest\<rparr>))"

lemma reads_packets_append:
  "reads_packets t (ps @ qs) t' \<longleftrightarrow> (\<exists>t1. reads_packets t ps t1 \<and> reads_packets t1 qs t')"
  by (induction ps arbitrary: t) auto

lemma reads_packets_in: "reads_packets t ps t' \<Longrightarrow> packets_in t = ps @ packets_in t'"
  by (induction ps arbitrary: t) (auto simp: packets_in_Cons)

lemma carries_Nil: "carries r [] [] r"
  by (simp add: carries_def)

lemma carries_snoc:
  assumes "carries r0 outs ps r" "\<forall>rest. ReadPacket (r\<lparr>incoming := w @ rest\<rparr>) = (Inr p, r'\<lparr>incoming := rest\<rparr>)"
  shows "carries r0 (outs @ [w]) (ps @ [p]) r'"
proof -
  have "reads_packets (r0\<lparr>incoming := concat outs @ w @ rest\<rparr>) ps (r\<lparr>incoming := w @ rest\<rparr>)" for rest
    using assms(1) by (simp add: carries_def)
  then show ?thesis
    unfolding carries_def using assms(2) by (auto simp: reads_packets_append)
qed

lemma carries_packets:
  assumes "carries r0 outs ps r"
  shows "packets_in (r0\<lparr>incoming := concat outs\<rparr>) = ps"
proof -
  have "ReadPacket (r\<lparr>incoming := []\<rparr>) = (Inl e, t) \<or> (\<exists>e t. ReadPacket (r\<lparr>incoming := []\<rparr>) = (Inl e, t))" for e t
    by (cases "closed r") (simp_all add: ReadPacket_def Connected_def read_full_def PacketHeaderSize_def)
  then have "packets_in (r\<lparr>incoming := []\<rparr>) = []" using packets_in_Nil by blast
  moreover have "reads_packets (r0\<lparr>incoming := concat outs\<rparr>) ps (r\<lparr>incoming := []\<rparr>)"
    using assms unfolding carries_def by (metis append_Nil2)
  ultimately show ?thesis using reads_packets_in by fastforce
qed

subsection \<open>A request being sent\<close>

text \<open>
  The buffer fits a protected packet into the SDU and the header's length field, and has room for the
  largest fixed-width value; the framing of writer and transport agree.
\<close>

definition writer_ok :: "'z session_scheme \<Rightarrow> bool" where
  "writer_ok s \<longleftrightarrow> werr s = None \<and> packetType s = PacketTypeData \<and> 10 \<le> wpos s \<and> int (wpos s) \<le> wmaxSize s \<and>
     18 \<le> wmaxSize s \<and> int (length (wdata s)) = wmaxSize s \<and>
     wmaxSize s + int (Overhead (sec (tr s))) \<le> min (uint (SDU (caps s))) (int (max_framed (fullPacketSize (tr s)))) \<and>
     (fullPacketSize (tr s) \<longleftrightarrow> VersionMinLargeSDU \<le> ProtocolVersion (caps s)) \<and>
     transport_ok (tr s) \<and> (\<forall>n. write_ok (tr s) n)"

definition unsent :: "'z session_scheme \<Rightarrow> bytes" where
  "unsent s = drop 10 (take (wpos s) (wdata s))"

text \<open>
  The request so far is \<open>bs\<close>: the packets sent since \<open>o0\<close> reach the other end \<open>r0\<close>, and the rest of
  \<open>bs\<close> is in the buffer.
\<close>

definition sending :: "capabilities \<Rightarrow> transport \<Rightarrow> bytes list \<Rightarrow> bytes \<Rightarrow> 'z session_scheme \<Rightarrow> bool" where
  "sending c r0 o0 bs s \<longleftrightarrow> writer_ok s \<and> caps s = c \<and>
     (\<exists>outs ps r. outgoing (tr s) = o0 @ outs \<and> carries r0 outs ps r \<and> mirrored (tr s) r \<and> \<not> closed r \<and>
        list_all plain ps \<and> (\<forall>w \<in> set outs. int (length w) \<le> uint (SDU c)) \<and> concat (map payload ps) @ unsent s = bs)"

definition writes :: "capabilities \<Rightarrow> ('z, unit) op \<Rightarrow> bytes \<Rightarrow> bool" where
  "writes c m bs \<longleftrightarrow> (\<forall>r0 o0 bs0 s. sending c r0 o0 bs0 s \<longrightarrow> sending c r0 o0 (bs0 @ bs) (snd (run_state m s)))"

lemma put_header_data:
  assumes "writer_ok s"
  shows "werr (put_header s) = None \<and> drop 10 (wdata (put_header s)) = drop 10 (wdata s) \<and>
    (wdata (put_header s)) ! 4 = PacketTypeData \<and> packet_size (fullPacketSize (tr s)) (wdata (put_header s)) = wpos s"
proof -
  have l: "10 \<le> length (wdata s)" and e: "werr s = None" and p: "packetType s = PacketTypeData"
    using assms by (auto simp: writer_ok_def)
  obtain a0 a1 a2 a3 a4 a5 a6 a7 a8 a9 d where d: "wdata s = [a0,a1,a2,a3,a4,a5,a6,a7,a8,a9] @ d"
  proof -
    define h where "h = take 10 (wdata s)"
    have "length h = Suc (Suc (Suc (Suc (Suc (Suc (Suc (Suc (Suc (Suc 0)))))))))" using l by (simp add: h_def)
    then obtain a0 a1 a2 a3 a4 a5 a6 a7 a8 a9 where "h = [a0,a1,a2,a3,a4,a5,a6,a7,a8,a9]"
      by (auto simp only: length_Suc_conv length_0_conv)
    then have "take 10 (wdata s) = [a0,a1,a2,a3,a4,a5,a6,a7,a8,a9]" by (simp add: h_def)
    then show thesis using that by (metis append_take_drop_id)
  qed
  have sz: "wpos s \<le> max_framed (fullPacketSize (tr s))" using assms by (auto simp: writer_ok_def)
  have m: "fullPacketSize (tr s) \<longleftrightarrow> VersionMinLargeSDU \<le> ProtocolVersion (caps s)" using assms by (simp add: writer_ok_def)
  show ?thesis
    using e p m d sz
    by (cases "fullPacketSize (tr s)")
      (simp_all add: put_header_def store_def be16_def be32_def Let_def packet_size_def max_framed_def MaxSDU_def
        of_be_be [unfolded be16_def be32_def] unat_of_nat)
qed

lemma protect_setup: "write_ok (snd (protect d t)) = write_ok t" "closed (snd (protect d t)) = closed t"
  "outgoing (snd (protect d t)) = outgoing t"
  by (auto simp: protect_def case_prod_unfold Let_def split: option.split)

lemma WritePacket_succeeds: "\<not> closed t \<Longrightarrow> \<forall>n. write_ok t n \<Longrightarrow> \<exists>t'. WritePacket d t = (None, t')"
  by (simp add: WritePacket_def Connected_def socket_write_def protect_setup case_prod_unfold Let_def)

text \<open>Sending the buffer moves its bytes from the buffer to the wire.\<close>

lemma send_packet_carries:
  assumes "writer_ok s" "carries r0 outs ps r" "outgoing (tr s) = o0 @ outs" "mirrored (tr s) r" "\<not> closed r"
  obtains t w p r' where
    "send_packet final s = (put_header s)\<lparr>tr := t, packetSent := True, wpos := (if final then 8 else 10)\<rparr>"
    "outgoing t = o0 @ outs @ [w]" "carries r0 (outs @ [w]) (ps @ [p]) r'" "mirrored t r'" "\<not> closed r'"
    "plain p" "payload p = unsent s" "length w \<le> wpos s + Overhead (sec (tr s))" "transport_ok t" "same_setup (tr s) t"
proof -
  define dat where "dat = take (wpos s) (wdata (put_header s))"
  note ok = assms(1) [unfolded writer_ok_def]
  note h = put_header_data [OF assms(1)]
  have l: "length (wdata (put_header s)) = length (wdata s)" by simp
  have ld: "length dat = wpos s" "10 \<le> wpos s" using ok by (auto simp: dat_def)
  have le: "length dat + Overhead (sec (tr s)) \<le> max_framed (fullPacketSize (tr s))" using ok ld by auto
  have "packet_size (fullPacketSize (tr s)) dat = wpos s"
    using h ld(2) by (auto simp: dat_def packet_size_def min_absorb1 split: if_splits)
  then have fr: "framed (fullPacketSize (tr s)) dat" using le ld by (simp add: framed_def PacketHeaderSize_def)
  have d4: "dat ! 4 = PacketTypeData" using h ld by (simp add: dat_def)
  have p4: "dat ! 4 = PacketTypeData \<longrightarrow> dataPayloadOffset \<le> length dat" using ld by (simp add: dataPayloadOffset_def PacketHeaderSize_def)
  have tok: "transport_ok (tr s)" using ok by simp
  have "\<not> closed (tr s)" "\<forall>n. write_ok (tr s) n" using ok by (simp_all add: transport_ok_def)
  from WritePacket_succeeds [OF this] obtain t where t: "WritePacket dat (tr s) = (None, t)" by blast
  obtain w p r' where w: "outgoing t = outgoing (tr s) @ [w]" "length w \<le> length dat + Overhead (sec (tr s))" "same_setup (tr s) t"
    "transport_ok t" "\<forall>rest. ReadPacket (r\<lparr>incoming := w @ rest\<rparr>) = (Inr p, r'\<lparr>incoming := rest\<rparr>)"
    "Type p = dat ! 4" "Flags p = dat ! 5" "drop 8 (Buf p) = drop 8 dat" "mirrored t r'" "\<not> closed r'"
    by (rule packet_crossing [OF tok assms(4,5) fr le p4 t])
  have "8 \<le> length (Buf p)" using ReadPacket_size(1) w(5) by blast
  moreover have "length (Buf p) - 8 = length dat - 8" using arg_cong [OF w(8), of length] by simp
  ultimately have lp: "length (Buf p) = length dat" using ld by linarith
  have "drop 10 (Buf p) = drop 10 dat" using arg_cong [OF w(8), of "drop 2"] by simp
  then have pl: "payload p = unsent s"
    using h by (simp add: payload_def unsent_def dat_def dataPayloadOffset_def PacketHeaderSize_def drop_take)
  have s': "send_packet final s = (put_header s)\<lparr>tr := t, packetSent := True, wpos := (if final then 8 else 10)\<rparr>"
    using ok h t by (simp add: send_packet_def dat_def PacketHeaderSize_def Let_def)
  show thesis
    by (rule that [OF s' _ carries_snoc [OF assms(2) w(5)] w(9,10) _ pl _ w(4,3)])
      (use w(1,2,6) d4 lp ld assms(3) in \<open>simp_all add: plain_def dataPayloadOffset_def PacketHeaderSize_def\<close>)
qed

lemma send_packet_sending:
  assumes "sending c r0 o0 bs s"
  shows "sending c r0 o0 bs (send_packet False s) \<and> wpos (send_packet False s) = 10"
proof -
  obtain outs ps r where s: "writer_ok s" "caps s = c" "outgoing (tr s) = o0 @ outs" "carries r0 outs ps r" "mirrored (tr s) r"
    "\<not> closed r" "list_all plain ps" "\<forall>w \<in> set outs. int (length w) \<le> uint (SDU c)" "concat (map payload ps) @ unsent s = bs"
    using assms unfolding sending_def by blast
  obtain t w p r' where t:
    "send_packet False s = (put_header s)\<lparr>tr := t, packetSent := True, wpos := (if False then 8 else 10)\<rparr>"
    "outgoing t = o0 @ outs @ [w]" "carries r0 (outs @ [w]) (ps @ [p]) r'" "mirrored t r'" "\<not> closed r'"
    "plain p" "payload p = unsent s" "length w \<le> wpos s + Overhead (sec (tr s))" "transport_ok t" "same_setup (tr s) t"
    by (rule send_packet_carries [OF s(1,4,3,5,6), of False])
  let ?s = "send_packet False s"
  have "writer_ok ?s" using s(1) t(1,9,10) put_header_data [OF s(1)] by (auto simp: writer_ok_def same_setup_def)
  moreover have "int (length w) \<le> uint (SDU c)" using s(1,2) t(8) by (auto simp: writer_ok_def)
  moreover have "unsent ?s = []" using t(1) by (simp add: unsent_def)
  moreover have "\<exists>outs ps r. outgoing (tr ?s) = o0 @ outs \<and> carries r0 outs ps r \<and> mirrored (tr ?s) r \<and> \<not> closed r \<and>
        list_all plain ps \<and> (\<forall>w \<in> set outs. int (length w) \<le> uint (SDU c)) \<and> concat (map payload ps) @ unsent ?s = bs"
    using s(7,8,9) t calculation(2,3) by (intro exI [of _ "outs @ [w]"] exI [of _ "ps @ [p]"] exI [of _ r']) auto
  ultimately show ?thesis using s(2) t(1) by (simp add: sending_def)
qed

text \<open>Putting bytes into a buffer that has room for them.\<close>

lemma store_sending:
  assumes "sending c r0 o0 bs s" "int (wpos s) + int (length b) \<le> wmaxSize s"
  shows "sending c r0 o0 (bs @ b) ((store (wpos s) b s)\<lparr>wpos := wpos s + length b\<rparr>)"
proof -
  let ?s = "(store (wpos s) b s)\<lparr>wpos := wpos s + length b\<rparr>"
  have ok: "writer_ok s" using assms(1) by (simp add: sending_def)
  then have l: "wpos s + length b \<le> length (wdata s)" "werr s = None" "10 \<le> wpos s" using assms(2) by (auto simp: writer_ok_def)
  then have st: "store (wpos s) b s = s\<lparr>wdata := take (wpos s) (wdata s) @ b @ drop (wpos s + length b) (wdata s)\<rparr>"
    by (simp add: store_def)
  have "unsent ?s = unsent s @ b" using l by (simp add: unsent_def st)
  moreover have "writer_ok ?s" using ok assms(2) l by (auto simp: writer_ok_def st)
  moreover have "caps ?s = caps s" "tr ?s = tr s" by (simp_all add: st)
  ultimately show ?thesis using assms(1) unfolding sending_def by auto
qed

subsection \<open>What each operation appends\<close>

lemma sending_ok: "sending c r0 o0 bs s \<Longrightarrow> writer_ok s"
  by (simp add: sending_def)

lemma writes_return [writes_rules]: "writes c (State_Monad.return ()) []"
  by (simp add: writes_def)

lemma writes_bind: "writes c m b1 \<Longrightarrow> writes c (f ()) b2 \<Longrightarrow> writes c (State_Monad.bind m f) (b1 @ b2)"
  by (fastforce simp: writes_def case_prod_unfold Let_def)

lemma writes_seq: "writes c m b1 \<Longrightarrow> writes c (f ()) b2 \<Longrightarrow> bs = b1 @ b2 \<Longrightarrow> writes c (State_Monad.bind m f) bs"
  by (simp add: writes_bind)

lemma writes_put_fixed:
  assumes "length b \<le> 8"
  shows "writes c (modify (put_fixed b)) b"
  unfolding writes_def
proof (intro allI impI)
  fix r0 o0 bs0 and s :: "'a session_scheme"
  assume s: "sending c r0 o0 bs0 s"
  define s1 where "s1 = ensure (length b) s"
  have e: "werr s = None" "18 \<le> wmaxSize s" using sending_ok [OF s] by (auto simp: writer_ok_def)
  have s1: "sending c r0 o0 bs0 s1" "int (wpos s1) + int (length b) \<le> wmaxSize s1"
    using s send_packet_sending [OF s] e assms by (auto simp: s1_def ensure_def)
  have "put_fixed b s = (store (wpos s1) b s1)\<lparr>wpos := wpos s1 + length b\<rparr>"
    using sending_ok [OF s1(1)] by (simp add: put_fixed_def s1_def [symmetric] writer_ok_def Let_def)
  then show "sending c r0 o0 (bs0 @ b) (snd (run_state (modify (put_fixed b)) s))"
    using store_sending [OF s1] by simp
qed

lemma writes_fixed [writes_rules]:
  "writes c (WriteUint8 a) [a]" "writes c (WriteUint16BE v) (be16 v)" "writes c (WriteUint16LE v) (le16 v)"
  "writes c (WriteUint32BE w) (be32 w)" "writes c (WriteUint64BE x) (be64 x)"
  by (simp_all add: WriteUint8_def WriteUint16BE_def WriteUint16LE_def WriteUint32BE_def WriteUint64BE_def writes_put_fixed)

lemma writes_two: "writes c m [a] \<Longrightarrow> writes c n b \<Longrightarrow> writes c (State_Monad.bind m (\<lambda>_. n)) (a # b)"
  using writes_bind [of c m "[a]" "\<lambda>_. n" b] by simp

lemma writes_ub [writes_rules]:
  "writes c (WriteUB2 v) (ub2_bytes v)" "writes c (WriteUB4 w) (ub4_bytes w)" "writes c (WriteUB8 x) (ub8_bytes x)"
  by (auto simp: WriteUB2_def ub2_bytes_def WriteUB4_def ub4_bytes_def WriteUB8_def ub8_bytes_def
      intro!: writes_two writes_fixed)

lemma writes_WriteSB4 [writes_rules]:
  assumes "\<bar>v\<bar> < 2 ^ 31"
  shows "writes c (WriteSB4 v) (sb4_bytes v)"
proof -
  have "int32_of (- v) = - v" unfolding int32_of_def by (rule wrap_signed_id) (use assms in auto)
  then have "(if v < 0 then int32_of (- v) else v) = \<bar>v\<bar>" by simp
  then show ?thesis
    by (auto simp: WriteSB4_def sb4_bytes_def Let_def intro!: writes_two writes_fixed)
qed

lemma write_raw_sending: "sending c r0 o0 bs s \<Longrightarrow> sending c r0 o0 (bs @ b) (write_raw b s)"
proof (induction b s arbitrary: bs rule: write_raw.induct)
  case (1 b s)
  note ok = sending_ok [OF 1(3), unfolded writer_ok_def]
  show ?case
  proof (cases "b = []")
    case True
    then show ?thesis using 1(3) by (simp add: write_raw.simps [of "[]"])
  next
    case False
    show ?thesis
    proof (cases "wmaxSize s - int (wpos s) = 0")
      case True
      note sp = send_packet_sending [OF 1(3)]
      have w: "werr (send_packet False s) = None" "\<not> int (wpos (send_packet False s)) \<ge> wmaxSize (send_packet False s)"
        using sp sending_ok [OF conjunct1 [OF sp]] ok by (auto simp: writer_ok_def)
      then show ?thesis
        using 1(1) [OF _ True refl] 1(3) sp False ok True by (simp add: write_raw.simps [of b s] Let_def)
    next
      case False': False
      define n where "n = min (length b) (nat (wmaxSize s - int (wpos s)))"
      have lt: "\<not> wmaxSize s < int (wpos s)" using ok by simp
      have n: "int (wpos s) + int (length (take n b)) \<le> wmaxSize s" "n \<le> length b" using ok by (auto simp: n_def)
      let ?s = "(store (wpos s) (take n b) s)\<lparr>wpos := wpos (store (wpos s) (take n b) s) + n\<rparr>"
      have st: "sending c r0 o0 (bs @ take n b) ?s" using store_sending [OF 1(3) n(1)] n(2) by (simp add: min_absorb2)
      have "sending c r0 o0 ((bs @ take n b) @ drop n b) (write_raw (drop n b) ?s)"
        by (rule 1(2) [OF _ False' lt n_def refl st]) (use False ok in simp)
      moreover have "write_raw b s = write_raw (drop n b) ?s"
        using False False' lt ok by (simp add: write_raw.simps [of b s] n_def Let_def)
      ultimately show ?thesis by simp
    qed
  qed
qed

lemma writes_WriteRaw [writes_rules]: "writes c (WriteRaw b) b" "writes c (WriteBytes b) b" "writes c (WriteStr b) b"
  by (simp_all add: writes_def WriteRaw_def WriteBytes_def WriteStr_def write_raw_sending)

fun chunks_of :: "nat \<Rightarrow> bytes \<Rightarrow> bytes list" where
  "chunks_of 0 b = []"
| "chunks_of (Suc k) b = (if b = [] then [] else take ChunkSize b # chunks_of k (drop ChunkSize b))"

lemma concat_chunks_of: "length b \<le> k \<Longrightarrow> concat (chunks_of k b) = b"
proof (induction k b rule: chunks_of.induct)
  case (2 k b)
  then show ?case by (cases "b = []") (simp_all add: ChunkSize_def)
qed simp

lemma chunks_of_ok: "list_all chunk_ok (chunks_of k b)"
  by (induction k b rule: chunks_of.induct) (simp_all add: chunk_ok_def ChunkSize_def min_less_iff_disj)

lemma writes_write_chunks: "writes c (write_chunks k b) (concat (map chunk_bytes (chunks_of k b)))"
proof (induction k b rule: write_chunks.induct)
  case (2 k b)
  then show ?case
    by (cases "b = []")
      (auto simp: chunk_bytes_def writes_return append_assoc intro!: writes_bind writes_ub writes_WriteRaw)
qed (simp add: writes_return)

text \<open>The bytes of a value with its length, and with two lengths (\<open>None\<close> for nil).\<close>

definition length_bytes :: "bytes \<Rightarrow> bytes" where
  "length_bytes b =
     (if length b \<le> MaxShortLength then word_of_nat (length b) # b
      else LongLengthIndicator # concat (map chunk_bytes (chunks_of (length b) b)) @ ub4_bytes 0)"

definition two_length_bytes :: "bytes option \<Rightarrow> bytes" where
  "two_length_bytes ob = (case ob of None \<Rightarrow> ub4_bytes 0
     | Some b \<Rightarrow> ub4_bytes (word_of_nat (length b)) @ (if b = [] then [] else length_bytes b))"

lemma writes_WriteBytesWithLength [writes_rules]: "writes c (WriteBytesWithLength b) (length_bytes b)"
  unfolding WriteBytesWithLength_def length_bytes_def
  by (auto intro!: writes_two writes_bind writes_fixed writes_ub writes_WriteRaw writes_write_chunks simp: writes_return)

lemma writes_two_lengths [writes_rules]:
  "writes c (WriteBytesWithTwoLengths ob) (two_length_bytes ob)" "writes c (WriteStrWithTwoLengths b) (two_length_bytes (Some b))"
proof -
  show *: "writes c (WriteBytesWithTwoLengths ob) (two_length_bytes ob)" for ob
  proof (cases ob)
    case (Some b)
    have "writes c (if length b > 0 then WriteBytesWithLength b else State_Monad.return ()) (if b = [] then [] else length_bytes b)"
      by (simp add: writes_return writes_WriteBytesWithLength)
    then show ?thesis
      unfolding WriteBytesWithTwoLengths_def two_length_bytes_def using Some writes_ub(2)
      by (simp only: option.case) (rule writes_bind)
  qed (simp add: WriteBytesWithTwoLengths_def two_length_bytes_def writes_ub)
  show "writes c (WriteStrWithTwoLengths b) (two_length_bytes (Some b))"
    unfolding WriteStrWithTwoLengths_def by (rule *)
qed

lemma length_bytes_form: "value_form (length_bytes b) (if b = [] then None else Some b)"
proof (cases "length b \<le> MaxShortLength")
  case True
  then show ?thesis by (auto simp: value_form_def length_bytes_def MaxShortLength_def)
next
  case False
  then have ne: "chunks_of (length b) b \<noteq> []" by (cases b) auto
  have "\<exists>xs. Some b = Some (concat xs) \<and> xs \<noteq> [] \<and> list_all chunk_ok xs \<and>
      length_bytes b = LongLengthIndicator # concat (map chunk_bytes xs) @ ub4_bytes 0"
    using False ne concat_chunks_of [of b "length b"] chunks_of_ok
    by (intro exI [of _ "chunks_of (length b) b"]) (simp add: length_bytes_def)
  then show ?thesis using False unfolding value_form_def by auto
qed

lemma reads_length_bytes [reads_rules]: "reads c ReadBytes (length_bytes b) (if b = [] then None else Some b)"
  by (rule reads_ReadBytes [OF length_bytes_form])

lemma reads_two_length_bytes [reads_rules]:
  assumes "\<And>b. ob = Some b \<Longrightarrow> length b < 2 ^ 32"
  shows "reads c ReadBytesWithLength (two_length_bytes ob) (if ob = Some [] then None else ob)"
proof (cases "ob = None \<or> ob = Some []")
  case True
  then show ?thesis by (auto simp: two_length_bytes_def reads_ReadBytesWithLength(2))
next
  case False
  then obtain b where b: "ob = Some b" "b \<noteq> []" by auto
  then have "(word_of_nat (length b) :: u32) \<noteq> 0" using chunk_length [of b] assms by (simp add: chunk_ok_def)
  then show ?thesis
    using b reads_ReadBytesWithLength(1) [OF _ length_bytes_form [of b], of "word_of_nat (length b)" c]
    by (auto simp: two_length_bytes_def)
qed

subsection \<open>Whole requests\<close>

definition send_request :: "u8 \<Rightarrow> u16 \<Rightarrow> ('z, unit) op \<Rightarrow> ('z, tns_error option) op" where
  "send_request pflags dflags m = do { StartRequest PacketTypeData pflags dflags; m; EndRequest }"

text \<open>A session whose buffer is sized for the SDU, between requests.\<close>

definition writer_idle :: "'z session_scheme \<Rightarrow> bool" where
  "writer_idle s \<longleftrightarrow> 18 \<le> wmaxSize s \<and> int (length (wdata s)) = wmaxSize s \<and>
     wmaxSize s + int (Overhead (sec (tr s))) \<le> min (uint (SDU (caps s))) (int (max_framed (fullPacketSize (tr s)))) \<and>
     (fullPacketSize (tr s) \<longleftrightarrow> VersionMinLargeSDU \<le> ProtocolVersion (caps s)) \<and>
     transport_ok (tr s) \<and> (\<forall>n. write_ok (tr s) n)"

text \<open>The other end \<open>q\<close>, with nothing read yet, on whose socket the packets \<open>outs\<close> arrive.\<close>

definition receiving :: "transport \<Rightarrow> bytes list \<Rightarrow> 'z session_scheme \<Rightarrow> bool" where
  "receiving t outs q \<longleftrightarrow> mirrored t (tr q) \<and> \<not> closed (tr q) \<and> incoming (tr q) = concat outs \<and>
     rdata q = [] \<and> rpos q = 0 \<and> rsize q = 0 \<and> saved q = [] \<and> nextPacketPos q = 0 \<and> rerr q = None \<and>
     pendingErrorNum q = 0 \<and> \<not> checkRequestBoundary q"

lemma StartRequest_sending:
  assumes "writer_idle s" "mirrored (tr s) r" "\<not> closed r"
  shows "sending (caps s) r (outgoing (tr s)) [] (snd (run_state (StartRequest PacketTypeData f d) s))"
proof -
  let ?s = "snd (run_state (StartRequest PacketTypeData f d) s)"
  have "writer_ok ?s" "tr ?s = tr s" "unsent ?s = []" "caps ?s = caps s"
    using assms(1) by (auto simp: StartRequest_def writer_idle_def writer_ok_def unsent_def PacketHeaderSize_def Let_def)
  then show ?thesis
    using assms(2,3) carries_Nil [of r] unfolding sending_def by (auto intro!: exI [of _ "[]"])
qed

lemma EndRequest_sends:
  assumes "sending c r0 o0 bs s"
  obtains outs ps where "fst (run_state EndRequest s) = None" "outgoing (tr (snd (run_state EndRequest s))) = o0 @ outs"
    "packets_in (r0\<lparr>incoming := concat outs\<rparr>) = ps" "list_all plain ps" "concat (map payload ps) = bs"
    "\<forall>w \<in> set outs. int (length w) \<le> uint (SDU c)"
proof -
  obtain outs ps r where s: "writer_ok s" "caps s = c" "outgoing (tr s) = o0 @ outs" "carries r0 outs ps r" "mirrored (tr s) r"
    "\<not> closed r" "list_all plain ps" "\<forall>w \<in> set outs. int (length w) \<le> uint (SDU c)" "concat (map payload ps) @ unsent s = bs"
    using assms unfolding sending_def by blast
  obtain t w p r' where t:
    "send_packet True s = (put_header s)\<lparr>tr := t, packetSent := True, wpos := (if True then 8 else 10)\<rparr>"
    "outgoing t = o0 @ outs @ [w]" "carries r0 (outs @ [w]) (ps @ [p]) r'" "mirrored t r'" "\<not> closed r'"
    "plain p" "payload p = unsent s" "length w \<le> wpos s + Overhead (sec (tr s))" "transport_ok t" "same_setup (tr s) t"
    by (rule send_packet_carries [OF s(1,4,3,5,6), of True])
  have w: "int (length w) \<le> uint (SDU c)" using s(1,2) t(8) by (auto simp: writer_ok_def)
  have e: "run_state EndRequest s = (None, send_packet True s)"
    using s(1) t(1) put_header_data [OF s(1)] by (simp add: EndRequest_def writer_ok_def PacketHeaderSize_def)
  show thesis
    by (rule that [of "outs @ [w]" "ps @ [p]"])
      (use e t s w carries_packets [OF t(3)] in \<open>auto simp: list_all_append\<close>)
qed

text \<open>For any operation with a byte layout and any decoder of that layout.\<close>

lemma request_delivered_general:
  assumes "writer_idle s" "writes (caps s) m bs" "reads (caps q) d bs v"
    "run_state (send_request pflags dflags m) s = (e, s')" "outgoing (tr s') = outgoing (tr s) @ outs"
    "receiving (tr s) outs q"
  shows "e = None \<and> fst (run_state d q) = v \<and> stream (snd (run_state d q)) = [] \<and>
    (\<forall>w \<in> set outs. int (length w) \<le> uint (SDU (caps s)))"
proof -
  define r0 where "r0 = tr q"
  define s1 where "s1 = snd (run_state (StartRequest PacketTypeData pflags dflags) s)"
  have q: "mirrored (tr s) r0" "\<not> closed r0" "r0\<lparr>incoming := concat outs\<rparr> = tr q"
    using assms(6) by (simp_all add: receiving_def r0_def)
  have "sending (caps s) r0 (outgoing (tr s)) ([] @ bs) (snd (run_state m s1))"
    using StartRequest_sending [OF assms(1) q(1,2)] assms(2) unfolding writes_def s1_def by blast
  moreover have "run_state (send_request pflags dflags m) s = run_state EndRequest (snd (run_state m s1))"
    by (simp add: send_request_def s1_def case_prod_unfold Let_def)
  ultimately obtain outs' ps where o: "e = None" "outgoing (tr s') = outgoing (tr s) @ outs'"
    "packets_in (r0\<lparr>incoming := concat outs'\<rparr>) = ps" "list_all plain ps" "concat (map payload ps) = bs"
    "\<forall>w \<in> set outs'. int (length w) \<le> uint (SDU (caps s))"
    using EndRequest_sends [of "caps s" r0 "outgoing (tr s)" "[] @ bs" "snd (run_state m s1)"] assms(4)
    by (metis append_Nil fst_conv snd_conv)
  then have ps: "packets_in (tr q) = ps" "outs' = outs" using assms(5) q(3) by auto
  have "ready q" "stream q = bs @ []"
    using assms(6) o ps
    by (simp_all add: receiving_def ready_def stream_def pending_def rest_of_packet_def complete_def rbuf_ok_def checkConnected_def)
  then show ?thesis using assms(3) o ps unfolding reads_def by fastforce
qed

text \<open>The fields requests are made of, how the client writes one, and how its receiver reads one of that shape.\<close>

datatype field = FUint8 u8 | FUint16 u16 | FUint32 u32 | FUB2 u16 | FUB4 u32 | FUB8 u64 | FSB4 int | FRaw bytes | FBytes bytes

datatype shape = SUint8 | SUint16 | SUint32 | SUB2 | SUB4 | SUB8 | SSB4 | SRaw nat | SBytes

fun shape_of :: "field \<Rightarrow> shape" where
  "shape_of (FUint8 a) = SUint8"
| "shape_of (FUint16 a) = SUint16"
| "shape_of (FUint32 a) = SUint32"
| "shape_of (FUB2 a) = SUB2"
| "shape_of (FUB4 a) = SUB4"
| "shape_of (FUB8 a) = SUB8"
| "shape_of (FSB4 v) = SSB4"
| "shape_of (FRaw b) = SRaw (length b)"
| "shape_of (FBytes b) = SBytes"

fun write_field :: "field \<Rightarrow> ('z, unit) op" where
  "write_field (FUint8 a) = WriteUint8 a"
| "write_field (FUint16 a) = WriteUint16BE a"
| "write_field (FUint32 a) = WriteUint32BE a"
| "write_field (FUB2 a) = WriteUB2 a"
| "write_field (FUB4 a) = WriteUB4 a"
| "write_field (FUB8 a) = WriteUB8 a"
| "write_field (FSB4 v) = WriteSB4 v"
| "write_field (FRaw b) = WriteRaw b"
| "write_field (FBytes b) = WriteBytesWithLength b"

fun read_field :: "shape \<Rightarrow> ('z, field) op" where
  "read_field SUint8 = do { a \<leftarrow> ReadUB1; State_Monad.return (FUint8 a) }"
| "read_field SUint16 = do { a \<leftarrow> ReadUint16BE; State_Monad.return (FUint16 a) }"
| "read_field SUint32 = do { a \<leftarrow> ReadUint32BE; State_Monad.return (FUint32 a) }"
| "read_field SUB2 = do { a \<leftarrow> ReadUB2; State_Monad.return (FUB2 a) }"
| "read_field SUB4 = do { a \<leftarrow> ReadUB4; State_Monad.return (FUB4 a) }"
| "read_field SUB8 = do { a \<leftarrow> ReadUB8; State_Monad.return (FUB8 a) }"
| "read_field SSB4 = do { v \<leftarrow> ReadSB4; State_Monad.return (FSB4 v) }"
| "read_field (SRaw n) =
     (if n = 0 then State_Monad.return (FRaw []) else do { b \<leftarrow> getRaw n; State_Monad.return (FRaw (case b of None \<Rightarrow> [] | Some b \<Rightarrow> b)) })"
| "read_field SBytes = do { b \<leftarrow> ReadBytes; State_Monad.return (FBytes (case b of None \<Rightarrow> [] | Some b \<Rightarrow> b)) }"

fun write_fields :: "field list \<Rightarrow> ('z, unit) op" where
  "write_fields [] = State_Monad.return ()"
| "write_fields (f # fs) = do { write_field f; write_fields fs }"

fun read_fields :: "shape list \<Rightarrow> ('z, field list) op" where
  "read_fields [] = State_Monad.return []"
| "read_fields (k # ks) = do { f \<leftarrow> read_field k; fs \<leftarrow> read_fields ks; State_Monad.return (f # fs) }"

text \<open>The smallest \<open>int32\<close> is written wrongly (\<open>WriteSB4_min_reads_zero\<close>).\<close>

fun field_ok :: "field \<Rightarrow> bool" where
  "field_ok (FSB4 v) \<longleftrightarrow> - (2 ^ 31) < v \<and> v < 2 ^ 31"
| "field_ok _ \<longleftrightarrow> True"

fun field_bytes :: "field \<Rightarrow> bytes" where
  "field_bytes (FUint8 a) = [a]"
| "field_bytes (FUint16 a) = be16 a"
| "field_bytes (FUint32 a) = be32 a"
| "field_bytes (FUB2 a) = ub2_bytes a"
| "field_bytes (FUB4 a) = ub4_bytes a"
| "field_bytes (FUB8 a) = ub8_bytes a"
| "field_bytes (FSB4 v) = sb4_bytes v"
| "field_bytes (FRaw b) = b"
| "field_bytes (FBytes b) = length_bytes b"

lemma writes_field: "field_ok f \<Longrightarrow> writes c (write_field f) (field_bytes f)"
  by (cases f) (auto simp: abs_if intro!: writes_fixed writes_ub writes_WriteSB4 writes_WriteRaw writes_WriteBytesWithLength)

lemma reads_field: "field_ok f \<Longrightarrow> reads c (read_field (shape_of f)) (field_bytes f) f"
proof (cases f)
  case (FRaw b)
  then show ?thesis
    by (cases "b = []") (auto intro: reads_return intro!: reads_map [OF reads_getRaw])
next
  case (FBytes b)
  then show ?thesis by (auto intro!: reads_map [OF reads_length_bytes])
next
  case (FSB4 v)
  moreover assume "field_ok f"
  ultimately have "\<bar>v\<bar> < 2 ^ 31" by auto
  then show ?thesis using FSB4 by (auto intro!: reads_map [OF reads_ReadSB4])
qed (auto intro!: reads_map [OF reads_ReadUB1] reads_map [OF reads_fixed(1)] reads_map [OF reads_fixed(3)]
  reads_map [OF reads_ub(1)] reads_map [OF reads_ub(2)] reads_map [OF reads_ub(3)])

lemma writes_fields: "\<forall>f \<in> set fs. field_ok f \<Longrightarrow> writes c (write_fields fs) (concat (map field_bytes fs))"
  by (induction fs) (auto intro: writes_return writes_bind writes_field)

lemma reads_fields: "\<forall>f \<in> set fs. field_ok f \<Longrightarrow> reads c (read_fields (map shape_of fs)) (concat (map field_bytes fs)) fs"
proof (induction fs)
  case (Cons f fs)
  then have f: "field_ok f" and fs: "\<forall>f \<in> set fs. field_ok f" by auto
  show ?case unfolding read_fields.simps list.map concat.simps
    by (rule reads_seq [OF reads_field [OF f] reads_map [OF Cons.IH [OF fs] refl] refl])
qed (simp add: reads_return)

text \<open>
  Property C3. A request of any fields (fixed and variable integers, raw bytes, byte strings with a length), of any
  number and size, however they fall on packets, protected or not: the request is accepted by the socket in packets
  no larger than the negotiated SDU, and the other end, reading fields of these shapes one after the other from
  those packets, gets exactly the values that were written and nothing more. (The smallest \<open>int32\<close> is left out: the
  client writes it wrongly.)
\<close>

theorem request_delivered:
  assumes "writer_idle s" "\<forall>f \<in> set fs. field_ok f"
    "run_state (send_request pflags dflags (write_fields fs)) s = (e, s')" "outgoing (tr s') = outgoing (tr s) @ outs"
    "receiving (tr s) outs q"
  shows "e = None \<and> fst (run_state (read_fields (map shape_of fs)) q) = fs \<and>
    stream (snd (run_state (read_fields (map shape_of fs)) q)) = [] \<and> (\<forall>w \<in> set outs. int (length w) \<le> uint (SDU (caps s)))"
  by (rule request_delivered_general [OF assms(1) writes_fields [OF assms(2)] reads_fields [OF assms(2)] assms(3-5)])

text \<open>A request over a protected connection.\<close>

definition toy_fields :: "field list" where
  "toy_fields = [FUB4 305419896, FRaw [1, 2, 3], FSB4 (- 7)]"

definition toy_request :: "tns_error option \<times> session" where
  "toy_request = run_state (send_request 0 0 (write_fields toy_fields)) (toy_session (toy_end toy_security []))"

definition toy_server :: session where
  "toy_server = toy_session (toy_end (security_mirror toy_security) (concat (outgoing (tr (snd toy_request)))))"

lemma toy_writer_idle: "writer_idle (toy_session (toy_end toy_security []))"
proof -
  have o': "Overhead (Some toy_security) = 50" by code_simp
  have v: "VersionMinLargeSDU \<le> (319 :: u16)" by (simp add: VersionMinLargeSDU_def)
  have sdu: "SDU NewCapabilities = 8192" by code_simp
  show ?thesis
    using toy_crossing_assms(1) o' v sdu
    by (simp add: writer_idle_def toy_session_def toy_end_def max_framed_def MaxSDU_def)
qed

theorem request_delivered_witness:
  "fst toy_request = None \<and> fst (run_state (read_fields [SUB4, SRaw 3, SSB4]) toy_server) = [FUB4 305419896, FRaw [1, 2, 3], FSB4 (- 7)]"
proof -
  let ?s = "toy_session (toy_end toy_security [])"
  have f: "\<forall>f \<in> set toy_fields. field_ok f" "map shape_of toy_fields = [SUB4, SRaw 3, SSB4]" by (simp_all add: toy_fields_def)
  have q: "receiving (tr ?s) (outgoing (tr (snd toy_request))) toy_server"
    by (simp add: receiving_def toy_server_def toy_session_def toy_end_def mirrored_def)
  have e: "run_state (send_request 0 0 (write_fields toy_fields)) ?s = (fst toy_request, snd toy_request)"
    by (simp add: toy_request_def)
  have o': "outgoing (tr (snd toy_request)) = outgoing (tr ?s) @ outgoing (tr (snd toy_request))"
    by (simp add: toy_session_def toy_end_def)
  have "fst toy_request = None \<and> fst (run_state (read_fields (map shape_of toy_fields)) toy_server) = toy_fields"
    using request_delivered [OF toy_writer_idle f(1) e o' q] by blast
  then show ?thesis unfolding f(2) by (simp only: toy_fields_def)
qed

text \<open>
  Property C24. The field encodings invert each other: every unsigned universal integer, every signed one
  but the smallest \<open>int32\<close>, and every byte string, short or chunked, reads back as it was written.
\<close>

theorem field_roundtrips:
  "(\<exists>bs. writes c (WriteUB2 a) bs \<and> reads c ReadUB2 bs a) \<and>
   (\<exists>bs. writes c (WriteUB4 u) bs \<and> reads c ReadUB4 bs u) \<and>
   (\<exists>bs. writes c (WriteUB8 x) bs \<and> reads c ReadUB8 bs x) \<and>
   (- (2 ^ 31) < v \<and> v < 2 ^ 31 \<longrightarrow> (\<exists>bs. writes c (WriteSB4 v) bs \<and> reads c ReadSB4 bs v)) \<and>
   (\<exists>bs. writes c (WriteBytesWithLength b) bs \<and> reads c ReadBytes bs (if b = [] then None else Some b))"
proof (intro conjI impI)
  show "\<exists>bs. writes c (WriteUB2 a) bs \<and> reads c ReadUB2 bs a" by (rule exI, rule conjI, rule writes_ub, rule reads_ub)
  show "\<exists>bs. writes c (WriteUB4 u) bs \<and> reads c ReadUB4 bs u" by (rule exI, rule conjI, rule writes_ub, rule reads_ub)
  show "\<exists>bs. writes c (WriteUB8 x) bs \<and> reads c ReadUB8 bs x" by (rule exI, rule conjI, rule writes_ub, rule reads_ub)
  show "\<exists>bs. writes c (WriteBytesWithLength b) bs \<and> reads c ReadBytes bs (if b = [] then None else Some b)"
    by (rule exI, rule conjI, rule writes_WriteBytesWithLength, rule reads_length_bytes)
  assume "- (2 ^ 31) < v \<and> v < 2 ^ 31"
  then have v: "\<bar>v\<bar> < 2 ^ 31" by linarith
  show "\<exists>bs. writes c (WriteSB4 v) bs \<and> reads c ReadSB4 bs v"
    by (rule exI, rule conjI, rule writes_WriteSB4 [OF v], rule reads_ReadSB4 [OF v])
qed

theorem field_roundtrips_witness:
  "\<exists>bs. writes NewCapabilities (WriteSB4 (- 5)) bs \<and> reads NewCapabilities ReadSB4 bs (- 5)"
  using field_roundtrips [of NewCapabilities 0 0 0 "- 5" "[]"] by auto

lemma WriteUint8_low: "WriteUint8 (- 2147483648) = WriteUint8 0"
  by (rule arg_cong [where f = WriteUint8]) simp

text \<open>
  The smallest \<open>int32\<close> does not: its negation wraps, the length byte claims one byte of
  magnitude and that byte is 0, so it reads back as 0.
\<close>

theorem WriteSB4_min_reads_zero:
  "writes c (WriteSB4 (- (2 ^ 31))) [0x81, 0] \<and> reads c ReadSB4 [0x81, 0] 0"
proof
  have "int32_of (2 ^ 31) = - (2 ^ 31)" by (simp add: int32_of_def wrap_signed_def)
  then have e: "WriteSB4 (- (2 ^ 31)) = do { WriteUint8 0x81; WriteUint8 0 }"
    by (simp add: WriteSB4_def WriteUint8_low Let_def)
  show "writes c (WriteSB4 (- (2 ^ 31))) [0x81, 0]"
    unfolding e by (rule writes_two, rule writes_fixed, rule writes_fixed)
  have z: "(let v = sint (of_be [0] :: u64) in if [0 :: u8] \<noteq> [] \<and> True then int64_of (- v) else v) = 0"
    by (simp add: of_be_def of_be_acc_def int64_of_def wrap_signed_def)
  show "reads c ReadSB4 [0x81, 0] 0"
    unfolding ReadSB4_def
    by (rule reads_map, rule reads_readSigned [of "[0]" 4 "0x81" True c, unfolded z]) (simp_all add: int32_of_def wrap_signed_def)
qed

end
