(* ===== verification/TnsOps.thy ===== *)
theory TnsOps
  imports TnsWrites
begin

text \<open>
  Fallible operations on a session and the rules by which the message layers are proved. A Go call that
  returns a value and an error is an operation returning a sum, \<open>tryE\<close> its early return. \<open>steps s bs v t\<close>
  extends \<open>reads\<close> to operations that also update what is not the reader's: from a session that agrees
  with \<open>s\<close> outside the reader they take \<open>bs\<close> off the stream, return \<open>v\<close> and end in one that agrees with \<open>t\<close>.
\<close>

subsection \<open>Fallible operations\<close>

definition tryE :: "('s, 'e + 'a) state \<Rightarrow> ('a \<Rightarrow> ('s, 'e + 'b) state) \<Rightarrow> ('s, 'e + 'b) state" where
  "tryE m f = State_Monad.bind m (\<lambda>r. case r of Inl e \<Rightarrow> State_Monad.return (Inl e) | Inr x \<Rightarrow> f x)"

definition throw :: "'e \<Rightarrow> ('s, 'e + 'a) state" where
  "throw e = State_Monad.return (Inl e)"

definition ok :: "'a \<Rightarrow> ('s, 'e + 'a) state" where
  "ok x = State_Monad.return (Inr x)"

text \<open>The idiom \<open>return v, r.Err()\<close>.\<close>

definition with_err :: "'a \<Rightarrow> ('z, tns_error + 'a) op" where
  "with_err v = State_Monad.bind (gets rerr) (\<lambda>e. State_Monad.return (case e of None \<Rightarrow> Inr v | Some x \<Rightarrow> Inl x))"

fun repeat_op :: "nat \<Rightarrow> ('s, 'a) state \<Rightarrow> ('s, unit) state" where
  "repeat_op 0 m = State_Monad.return ()"
| "repeat_op (Suc n) m = State_Monad.bind m (\<lambda>_. repeat_op n m)"

fun each :: "('a \<Rightarrow> ('s, unit) state) \<Rightarrow> 'a list \<Rightarrow> ('s, unit) state" where
  "each f [] = State_Monad.return ()"
| "each f (x # xs) = State_Monad.bind (f x) (\<lambda>_. each f xs)"

lemma writes_each: "(\<And>x. writes c (f x) (g x)) \<Longrightarrow> writes c (each f xs) (concat (map g xs))"
  by (induction xs) (auto intro: writes_bind writes_return)

lemma run_tryE: "run_state (tryE m f) s = (case run_state m s of (Inl e, t) \<Rightarrow> (Inl e, t) | (Inr x, t) \<Rightarrow> run_state (f x) t)"
  by (auto simp: tryE_def case_prod_unfold Let_def split: sum.split)

lemma run_with_err: "ready s \<Longrightarrow> run_state (with_err v) s = (Inr v, s)"
  by (simp add: with_err_def ready_def)

lemma reads_tryE: "reads c m b1 (Inr x) \<Longrightarrow> reads c (f x) b2 w \<Longrightarrow> reads c (tryE m f) (b1 @ b2) w"
  unfolding tryE_def by (rule reads_bind, assumption) simp

lemma reads_with_err: "reads c (with_err v) [] (Inr v)"
  by (simp add: reads_def run_with_err)

lemma reads_err_seq: "reads c m bs v \<Longrightarrow> w = Inr (f v) \<Longrightarrow> reads c (State_Monad.bind m (\<lambda>x. with_err (f x))) bs w"
  using reads_bind [of c m bs v "\<lambda>x. with_err (f x)" "[]" w] reads_with_err by force

text \<open>Running a fallible read on the stream, with what follows it still to run.\<close>

lemma run_reads_tryE:
  assumes "reads (caps s) m b (Inr x)" "ready s" "stream s = b @ rest"
  obtains s' where "\<And>f. run_state (tryE m f) s = run_state (f x) s'" "ready s'" "stream s' = rest" "keeps s s'"
proof -
  obtain s' where s': "run_state m s = (Inr x, s')" "ready s'" "stream s' = rest" "keeps s s'"
    using assms unfolding reads_def by blast
  show thesis by (rule that [OF _ s'(2-4)]) (simp add: run_tryE s'(1))
qed

lemma reads_ReadSB2:
  assumes "\<bar>v\<bar> < 2 ^ 15"
  shows "reads c ReadSB2 (sb4_bytes v) v"
proof -
  have id: "wrap_signed 16 v = v" by (rule wrap_signed_id) (use assms in auto)
  have r: "reads c (readSigned 2) (l # b) v"
    if "b \<noteq> []" "length b \<le> 2" "uint (of_be b :: u64) = \<bar>v\<bar>" "l = (if v < 0 then word_of_nat (length b) OR 0x80 else word_of_nat (length b))" for l b
  proof -
    have s: "sint (of_be b :: u64) = \<bar>v\<bar>"
      using sint_small [of "of_be b"] that(3) assms by (simp add: unat_eq_nat_uint nat_less_iff)
    have n: "int64_of (- \<bar>v\<bar>) = - \<bar>v\<bar>" unfolding int64_of_def by (rule wrap_signed_id) (use assms in simp_all)
    have e: "(let u = sint (of_be b :: u64) in if b \<noteq> [] \<and> v < 0 then int64_of (- u) else u) = v"
      unfolding s Let_def n using that(1) by simp
    show ?thesis by (rule reads_readSigned [OF that(2) _ that(4), of c, unfolded e]) simp
  qed
  consider "v = 0" | "v \<noteq> 0" "\<bar>v\<bar> \<le> 0xff" | "\<not> \<bar>v\<bar> \<le> 0xff" "\<bar>v\<bar> \<le> 0xffff"
    using order_less_imp_le [OF assms] by fastforce
  then have "reads c (readSigned 2) (sb4_bytes v) v"
  proof cases
    case 1
    then show ?thesis using reads_readSigned [of "[]" 2 0 False c] by (simp add: sb4_bytes_def of_be_def of_be_acc_def Let_def)
  next
    case 2
    have "uint (ucast (word_of_int \<bar>v\<bar> :: u8) :: u64) = \<bar>v\<bar>"
      using 2 by (simp add: uint_ucast_up64 uint_word_of_int take_bit_int_eq_self)
    then show ?thesis using 2 unfolding sb4_bytes_def by (auto simp: Let_def of_be_wide intro!: r)
  next
    case 3
    have "uint (ucast (word_of_int \<bar>v\<bar> :: u16) :: u64) = \<bar>v\<bar>"
      using 3 by (simp add: uint_ucast_up64 uint_word_of_int take_bit_int_eq_self)
    then show ?thesis using 3 unfolding sb4_bytes_def by (auto simp: Let_def of_be_wide intro!: r)
  qed
  then show ?thesis unfolding ReadSB2_def by (rule reads_map) (simp add: id)
qed

text \<open>The skips of length-prefixed values, over what the writer makes of a byte string.\<close>

lemma length_bytes_not_null: "length_bytes b \<noteq> [NullLengthIndicator]"
  by (auto simp: length_bytes_def MaxShortLength_def NullLengthIndicator_def LongLengthIndicator_def)

lemma reads_written_values [reads_rules]:
  "reads c SkipBytes (length_bytes b) ()"
  "reads c (ReadStr False) (length_bytes b) (b, b \<noteq> [])"
  "reads c ReadRawBytesAndLength (length_bytes b) (if b = [] then None else Some b)"
proof -
  show "reads c SkipBytes (length_bytes b) ()" by (rule reads_SkipBytes [OF length_bytes_form length_bytes_not_null])
  show r: "reads c ReadRawBytesAndLength (length_bytes b) (if b = [] then None else Some b)" for c b
    by (rule reads_ReadRawBytesAndLength [OF length_bytes_form])
  show "reads c (ReadStr False) (length_bytes b) (b, b \<noteq> [])"
    unfolding ReadStr_def by (rule reads_map [OF r]) simp
qed

lemma reads_written_two_lengths [reads_rules]:
  assumes "length b < 2 ^ 32"
  shows "reads c SkipBytesWithLength (two_length_bytes (Some b)) ()"
    and "reads c ReadStrWithLength (two_length_bytes (Some b)) b"
proof -
  have n: "b \<noteq> [] \<Longrightarrow> (word_of_nat (length b) :: u32) \<noteq> 0" using chunk_length [of b] assms by (simp add: chunk_ok_def)
  have f: "reads c ReadStrWithLength (two_length_bytes (Some b)) b \<and> reads c SkipBytesWithLength (two_length_bytes (Some b)) ()" if "b = []"
    unfolding that two_length_bytes_def ReadStrWithLength_def SkipBytesWithLength_def option.case list.size
    by (rule conjI; rule reads_seq [where ?b2.0 = "[]"], rule reads_ub(2); simp add: reads_return)
  show "reads c SkipBytesWithLength (two_length_bytes (Some b)) ()"
  proof (cases "b = []")
    case False
    show ?thesis unfolding two_length_bytes_def option.case if_not_P [OF False]
      by (rule reads_SkipBytesWithLength(1) [OF n [OF False] length_bytes_form length_bytes_not_null])
  qed (use f in blast)
  show "reads c ReadStrWithLength (two_length_bytes (Some b)) b"
  proof (cases "b = []")
    case False
    have r: "reads c ReadStrWithLength (ub4_bytes (word_of_nat (length b)) @ length_bytes b)
        (case if b = [] then None else Some b of None \<Rightarrow> [] | Some b \<Rightarrow> b)"
      by (rule reads_ReadStrWithLength [OF n [OF False] length_bytes_form])
    then show ?thesis unfolding two_length_bytes_def option.case if_not_P [OF False] .
  qed (use f in blast)
qed

subsection \<open>Operations that use up input\<close>

text \<open>
  \<open>forward m\<close>: where \<open>m\<close> ends without a read error there was none before, and what is left to read has
  not grown. Every reading operation is of this kind, so a loop that reads in each round ends.
\<close>

named_theorems forward_rules \<open>operations that never put input back\<close>

definition le_input :: "'z session_scheme \<Rightarrow> 'z session_scheme \<Rightarrow> bool" where
  "le_input s' s \<longleftrightarrow> unread s' < unread s \<or> unread s' = unread s \<and> BytesLeft s' \<le> BytesLeft s"

definition forward :: "('z, 'a) op \<Rightarrow> bool" where
  "forward m \<longleftrightarrow> (\<forall>s. rerr (snd (run_state m s)) = None \<longrightarrow> rerr s = None \<and> le_input (snd (run_state m s)) s)"

lemma le_input_refl [simp]: "le_input s s"
  by (simp add: le_input_def)

lemma le_input_trans: "le_input a b \<Longrightarrow> le_input b c \<Longrightarrow> le_input a c"
  by (auto simp: le_input_def)

lemma less_le_input: "(a, b) \<in> less_input \<Longrightarrow> le_input a b"
  by (auto simp: le_input_def less_input_iff)

lemma le_less_input_trans: "le_input a b \<Longrightarrow> (b, c) \<in> less_input \<Longrightarrow> (a, c) \<in> less_input"
  by (auto simp: le_input_def less_input_iff)

lemma forward_return [forward_rules]: "forward (State_Monad.return x)"
  by (simp add: forward_def)

lemma forward_bind [forward_rules]:
  assumes "forward m" "\<And>x. forward (f x)"
  shows "forward (State_Monad.bind m f)"
  unfolding forward_def
proof (intro allI impI)
  fix s :: "'a session_scheme"
  obtain x s1 where m: "run_state m s = (x, s1)" by fastforce
  obtain y s2 where f: "run_state (f x) s1 = (y, s2)" by fastforce
  assume "rerr (snd (run_state (State_Monad.bind m f) s)) = None"
  then have "rerr s2 = None" using m f by simp
  then have "rerr s1 = None" "le_input s2 s1" using assms(2) [of x] f unfolding forward_def by (metis snd_conv)+
  moreover from this have "rerr s = None" "le_input s1 s" using assms(1) m unfolding forward_def by (metis snd_conv)+
  ultimately show "rerr s = None \<and> le_input (snd (run_state (State_Monad.bind m f) s)) s"
    using m f le_input_trans by simp
qed

lemma forward_gets [forward_rules]: "forward (gets f)"
  by (simp add: forward_def)

lemma forward_if [forward_rules]: "(b \<Longrightarrow> forward m) \<Longrightarrow> (\<not> b \<Longrightarrow> forward n) \<Longrightarrow> forward (if b then m else n)"
  by simp

lemma forward_option [forward_rules]:
  "forward m \<Longrightarrow> (\<And>x. forward (f x)) \<Longrightarrow> forward (case ob of None \<Rightarrow> m | Some x \<Rightarrow> f x)"
  by (cases ob) simp_all

lemma forward_prod [forward_rules]: "(\<And>x y. forward (f x y)) \<Longrightarrow> forward (case p of (x, y) \<Rightarrow> f x y)"
  by (cases p) simp

lemma forward_throw [forward_rules]: "forward (throw e)" "forward (ok x)" "forward (with_err v)"
  unfolding throw_def ok_def with_err_def by (rule forward_rules)+

lemma forward_tryE [forward_rules]: "forward m \<Longrightarrow> (\<And>x. forward (f x)) \<Longrightarrow> forward (tryE m f)"
  unfolding tryE_def by (rule forward_bind) (auto split: sum.split intro: forward_return)

lemma forward_repeat [forward_rules]: "forward m \<Longrightarrow> forward (repeat_op n m)"
  by (induction n) (auto intro: forward_rules)

lemma forward_each [forward_rules]: "(\<And>x. forward (f x)) \<Longrightarrow> forward (each f xs)"
  by (induction xs) (auto intro: forward_rules)

lemma forward_SetErr [forward_rules]: "forward (SetErr e)"
  by (auto simp: forward_def SetErr_def set_err_def)

lemma forward_getRaw [forward_rules]: "forward (getRaw n)"
  unfolding forward_def
proof (intro allI impI)
  fix s :: "'a session_scheme"
  assume "rerr (snd (run_state (getRaw n) s)) = None"
  then have e: "rerr (snd (get_raw n s)) = None" by simp
  then obtain b s' where g: "get_raw n s = (Some b, s')"
    using get_raw_None [of n s] by (cases "get_raw n s"; cases "fst (get_raw n s)") auto
  have r: "rerr s = None" using g by (cases "rerr s") simp_all
  have "le_input s' s"
  proof (cases "0 < n")
    case True
    then show ?thesis using get_raw_progress [OF g] less_le_input by blast
  next
    case False
    then show ?thesis using g e r wait_packets_progress [of True s]
      by (auto simp: get_raw_def le_input_def BytesLeft_def Let_def split: if_splits)
  qed
  then show "rerr s = None \<and> le_input (snd (run_state (getRaw n) s)) s" using r g by simp
qed

lemma forward_skip_raw [forward_rules]: "forward (SkipRawBytes n)"
proof -
  have "le_input (skip_raw n s) s" if "rerr (skip_raw n s) = None" for s :: "'a session_scheme"
    using skip_raw_less [OF that] less_le_input by auto
  moreover have "rerr s = None" if "rerr (skip_raw n s) = None" for s :: "'a session_scheme"
    using that by (cases "rerr s") (simp_all add: skip_raw.simps [of n s])
  ultimately show ?thesis by (auto simp: forward_def SkipRawBytes_def)
qed

lemma forward_integers [forward_rules]:
  "forward ReadUB1" "forward ReadSB1" "forward ReadUB2" "forward ReadUB4" "forward ReadUB8"
  "forward ReadSB2" "forward ReadSB4" "forward ReadSB8"
  "forward SkipUB1" "forward SkipUB2" "forward SkipUB4" "forward SkipUB8" "forward SkipSB4"
  "forward ReadUint16BE" "forward ReadUint16LE" "forward ReadUint32BE" "forward (ReadRawBytes n)"
proof -
  have i: "forward (intLengthAndSign k b)" for k b
    unfolding intLengthAndSign_def Let_def by (intro forward_rules)
  have u: "forward (readUnsigned k)" "forward (readSigned k)" for k
    unfolding readUnsigned_def readSigned_def by (intro forward_rules i)+
  have b: "forward ReadUB1" unfolding ReadUB1_def by (intro forward_rules)
  show "forward ReadUB1" by (rule b)
  show "forward ReadSB1" unfolding ReadSB1_def by (intro forward_rules b)
  show "forward ReadUB2" "forward ReadUB4" "forward ReadUB8" "forward ReadSB2" "forward ReadSB4" "forward ReadSB8"
    "forward SkipUB1" "forward SkipUB2" "forward SkipUB4" "forward SkipUB8" "forward SkipSB4"
    "forward ReadUint16BE" "forward ReadUint16LE" "forward ReadUint32BE" "forward (ReadRawBytes n)"
    unfolding ReadUB2_def ReadUB4_def ReadUB8_def ReadSB2_def ReadSB4_def ReadSB8_def SkipUB1_def SkipUB2_def
      SkipUB4_def SkipUB8_def SkipSB4_def ReadUint16BE_def ReadUint16LE_def ReadUint32BE_def ReadRawBytes_def
    by (intro forward_rules u)+
qed

lemma forward_chunk_loop [forward_rules]: "forward (State (chunk_loop acc))"
proof -
  have "rerr s = None \<and> le_input (snd (chunk_loop acc s)) s" if "rerr (snd (chunk_loop acc s)) = None" for acc and s :: "'a session_scheme"
    using that
  proof (induction acc s rule: chunk_loop.induct)
    case (1 acc s)
    obtain n s1 where n: "run_state ReadUB4 s = (n, s1)" by fastforce
    obtain ob s2 where g: "get_raw (unat n) s1 = (ob, s2)" by fastforce
    have f: "rerr s1 = None \<Longrightarrow> rerr s = None \<and> le_input s1 s" using forward_integers(4) n unfolding forward_def by (metis snd_conv)
    have f2: "rerr s2 = None \<Longrightarrow> rerr s1 = None \<and> le_input s2 s1" using forward_getRaw [of "unat n"] g unfolding forward_def by (metis run_getRaw snd_conv)
    show ?case
    proof (cases "rerr s1 \<noteq> None \<or> n = 0 \<or> ob = None")
      case True
      then show ?thesis using 1(2) n g f f2 le_input_trans [of s2 s1 s]
        by (auto simp: chunk_loop.simps [of acc s] split: if_splits)
    next
      case False
      then obtain part where p: "ob = Some part" by auto
      let ?t = "s2\<lparr>chunk_nil := False\<rparr>"
      have e: "chunk_loop acc s = chunk_loop (acc @ part) ?t" using False n g p by (simp add: chunk_loop.simps [of acc s])
      have "rerr ?t = None \<and> le_input (snd (chunk_loop (acc @ part) ?t)) ?t"
        by (rule 1(1) [OF n [symmetric] _ _ g [symmetric] p]) (use False 1(2) e in auto)
      then show ?thesis using e f f2 le_input_trans [of _ s2 s1] le_input_trans [of _ s1 s]
        by (auto simp: le_input_def unread_def BytesLeft_def)
    qed
  qed
  then show ?thesis by (simp add: forward_def)
qed

lemma forward_skip_chunks [forward_rules]: "forward (modify skip_chunks)"
proof -
  have "rerr s = None \<and> le_input (skip_chunks s) s" if "rerr (skip_chunks s) = None" for s :: "'a session_scheme"
    using that
  proof (induction s rule: skip_chunks.induct)
    case (1 s)
    obtain n s1 where n: "run_state ReadUB4 s = (n, s1)" by fastforce
    define s2 where "s2 = skip_raw (unat n) s1"
    have f: "rerr s1 = None \<Longrightarrow> rerr s = None \<and> le_input s1 s" using forward_integers(4) n unfolding forward_def by (metis snd_conv)
    have f2: "rerr s2 = None \<Longrightarrow> rerr s1 = None \<and> le_input s2 s1"
      using forward_skip_raw [of "unat n", where 'a = 'a] unfolding forward_def s2_def SkipRawBytes_def by simp
    show ?case
    proof (cases "n = 0 \<or> rerr s1 \<noteq> None \<or> rerr s2 \<noteq> None")
      case True
      then show ?thesis using 1(2) n f f2 by (auto simp: skip_chunks.simps [of s] s2_def [symmetric] split: if_splits)
    next
      case False
      then have e: "skip_chunks s = skip_chunks s2" using n by (simp add: skip_chunks.simps [of s] s2_def)
      have "rerr s2 = None \<and> le_input (skip_chunks s2) s2"
        unfolding s2_def by (rule 1(1) [OF n [symmetric]]) (use False 1(2) e in \<open>auto simp: s2_def\<close>)
      then show ?thesis using e f f2 le_input_trans by metis
    qed
  qed
  then show ?thesis by (simp add: forward_def)
qed

lemma forward_values [forward_rules]:
  "forward ReadRawBytesAndLength" "forward ReadBytes" "forward ReadBytesWithLength" "forward (ReadStr nchar)"
  "forward ReadStrWithLength" "forward SkipBytes" "forward SkipBytesWithLength" "forward ReadRowid"
  "forward ReadNullTerminatedBytes"
proof -
  have r: "forward ReadRawBytesAndLength" unfolding ReadRawBytesAndLength_def by (intro forward_rules)
  have rs: "forward (ReadStr nchar)" for nchar unfolding ReadStr_def by (intro forward_rules r)
  have k: "forward SkipBytes" unfolding SkipBytes_def by (intro forward_rules)
  show "forward ReadRawBytesAndLength" "forward (ReadStr nchar)" "forward SkipBytes" by (rule r rs k)+
  show "forward ReadBytes" "forward ReadBytesWithLength" unfolding ReadBytesWithLength_def ReadBytes_def by (intro forward_rules r)+
  show "forward ReadStrWithLength" "forward SkipBytesWithLength" "forward ReadRowid"
    unfolding ReadStrWithLength_def SkipBytesWithLength_def ReadRowid_def by (intro forward_rules rs k)+
  show "forward ReadNullTerminatedBytes"
    by (auto simp: forward_def ReadNullTerminatedBytes_def read_null_terminated_def le_input_def BytesLeft_def Let_def)
qed

subsection \<open>Operations that read and update\<close>

named_theorems steps_rules \<open>rules for operations that read and update\<close>

definition steps :: "'z session_scheme \<Rightarrow> ('z, 'a) op \<Rightarrow> bytes \<Rightarrow> 'a \<Rightarrow> 'z session_scheme \<Rightarrow> bool" where
  "steps s m bs v t \<longleftrightarrow> (\<forall>u rest. ready u \<and> keeps s u \<and> stream u = bs @ rest \<longrightarrow>
     (\<exists>u'. run_state m u = (v, u') \<and> ready u' \<and> stream u' = rest \<and> keeps t u'))"

text \<open>An update that neither depends on what is the reader's nor changes it.\<close>

definition quiet :: "('z session_scheme \<Rightarrow> 'z session_scheme) \<Rightarrow> bool" where
  "quiet g \<longleftrightarrow> (\<forall>u. (ready u \<longrightarrow> ready (g u)) \<and> stream (g u) = stream u) \<and> (\<forall>s u. keeps s u \<longrightarrow> keeps (g s) (g u))"

lemma steps_return: "steps s (State_Monad.return v) [] v s"
  by (simp add: steps_def)

lemma steps_bind:
  assumes "steps s m b1 x t" "steps t (f x) b2 v w"
  shows "steps s (State_Monad.bind m f) (b1 @ b2) v w"
  unfolding steps_def
proof (intro allI impI)
  fix u rest assume u: "ready u \<and> keeps s u \<and> stream u = (b1 @ b2) @ rest"
  then obtain u1 where u1: "run_state m u = (x, u1)" "ready u1" "keeps t u1" "stream u1 = b2 @ rest"
    using assms(1) unfolding steps_def by fastforce
  then obtain u2 where "run_state (f x) u1 = (v, u2)" "ready u2" "stream u2 = rest" "keeps w u2"
    using assms(2) unfolding steps_def by blast
  then show "\<exists>u'. run_state (State_Monad.bind m f) u = (v, u') \<and> ready u' \<and> stream u' = rest \<and> keeps w u'"
    using u1 by simp
qed

lemma steps_reads:
  assumes "reads (caps s) m bs v"
  shows "steps s m bs v s"
  unfolding steps_def
proof (intro allI impI)
  fix u rest assume u: "ready u \<and> keeps s u \<and> stream u = bs @ rest"
  then have "caps u = caps s" using keeps_fields(1) by blast
  then obtain u' where "run_state m u = (v, u')" "ready u'" "stream u' = rest" "keeps u u'"
    using assms u unfolding reads_def by metis
  then show "\<exists>u'. run_state m u = (v, u') \<and> ready u' \<and> stream u' = rest \<and> keeps s u'"
    using u keeps_trans by blast
qed

text \<open>The first operation of a sequence: a read, an update, a look at the state, a fallible step.\<close>

lemma steps_read: "reads (caps s) m b1 x \<Longrightarrow> steps s (f x) b2 v t \<Longrightarrow> steps s (State_Monad.bind m f) (b1 @ b2) v t"
  by (rule steps_bind [OF steps_reads])

lemma steps_update: "quiet g \<Longrightarrow> steps s (modify g) [] () (g s)"
  by (simp add: steps_def quiet_def)

lemma steps_look:
  assumes "\<And>u. keeps s u \<Longrightarrow> h u = h s"
  shows "steps s (gets h) [] (h s) s"
  unfolding steps_def
proof (intro allI impI)
  fix u rest assume u: "ready u \<and> keeps s u \<and> stream u = [] @ rest"
  then have "h u = h s" using assms by blast
  then show "\<exists>u'. run_state (gets h) u = (h s, u') \<and> ready u' \<and> stream u' = rest \<and> keeps s u'"
    using u by simp
qed

lemma steps_modify:
  assumes "quiet g" "steps (g s) (f ()) bs v t"
  shows "steps s (State_Monad.bind (modify g) f) bs v t"
proof -
  have "steps s (State_Monad.bind (modify g) f) ([] @ bs) v t" by (rule steps_bind [OF steps_update]) (rule assms)+
  then show ?thesis by (simp only: append_Nil)
qed

lemma steps_gets:
  assumes "\<And>u. keeps s u \<Longrightarrow> h u = h s" "steps s (f (h s)) bs v t"
  shows "steps s (State_Monad.bind (gets h) f) bs v t"
proof -
  have "steps s (State_Monad.bind (gets h) f) ([] @ bs) v t"
    by (rule steps_bind, rule steps_look, rule assms(1), assumption, rule assms(2))
  then show ?thesis by (simp only: append_Nil)
qed

lemma steps_op: "steps s m b1 () t \<Longrightarrow> steps t (f ()) b2 v w \<Longrightarrow> steps s (State_Monad.bind m f) (b1 @ b2) v w"
  by (rule steps_bind)

lemma steps_tryE: "steps s m b1 (Inr x) t \<Longrightarrow> steps t (f x) b2 v w \<Longrightarrow> steps s (tryE m f) (b1 @ b2) v w"
  unfolding tryE_def by (rule steps_bind, assumption) simp

lemma steps_each:
  assumes "\<And>i. i < length xs \<Longrightarrow> steps (T i) (f (xs ! i)) (g i) () (T (Suc i))"
  shows "steps (T 0) (each f xs) (concat (map g [0..<length xs])) () (T (length xs))"
  using assms
proof (induction xs arbitrary: T g)
  case (Cons x xs)
  have "steps (T 1) (each f xs) (concat (map (\<lambda>i. g (Suc i)) [0..<length xs])) () (T (Suc (length xs)))"
    using Cons.IH [of "\<lambda>i. T (Suc i)" "\<lambda>i. g (Suc i)"] Cons.prems [of "Suc _"] by simp
  moreover have "steps (T 0) (f x) (g 0) () (T 1)" using Cons.prems [of 0] by simp
  moreover have "concat (map g [0..<length (x # xs)]) = g 0 @ concat (map (\<lambda>i. g (Suc i)) [0..<length xs])"
    by (simp add: upt_conv_Cons map_Suc_upt [symmetric] comp_def del: upt_Suc)
  ultimately show ?case using steps_bind by fastforce
qed (simp add: steps_return)

lemma stepsD:
  assumes "steps s m bs v t" "ready s" "stream s = bs @ rest"
  obtains u where "run_state m s = (v, u)" "ready u" "stream u = rest" "keeps t u"
  using assms unfolding steps_def by fastforce

end
