(* ===== verification/Ano.thy ===== *)
theory Ano
  imports TnsOps
begin

text \<open>
  \<^verbatim>\<open>internal/tns/ano.go\<close>: the negotiation of native network encryption and integrity, right after
  ACCEPT. The negotiator's fields extend the session, whose buffers it uses. \<open>random\<close> is the source of
  the private exponent; \<^verbatim>\<open>math/big\<close>'s \<open>SetBytes\<close>, \<open>Exp\<close> and \<open>FillBytes\<close> are written out on naturals. The names in a configuration
  are lists of runes, compared as \<^verbatim>\<open>strings.EqualFold\<close> does with an ASCII name.
\<close>

subsection \<open>Service levels and algorithms\<close>

definition anoVersion :: u32 where "anoVersion = 0xB200200"
definition anoMagic :: u32 where "anoMagic = 0xDEADBEEF"

definition LevelAccepted :: int where "LevelAccepted = 0"
definition LevelRejected :: int where "LevelRejected = 1"
definition LevelRequested :: int where "LevelRequested = 2"
definition LevelRequired :: int where "LevelRequired = 3"

text \<open>\<^verbatim>\<open>unicode.White_Space\<close>, which \<^verbatim>\<open>strings.TrimSpace\<close> trims.\<close>

definition white_space :: "nat \<Rightarrow> bool" where
  "white_space r \<longleftrightarrow> (9 \<le> r \<and> r \<le> 13) \<or> r \<in> {0x20, 0x85, 0xA0, 0x1680, 0x2028, 0x2029, 0x202F, 0x205F, 0x3000} \<or>
     (0x2000 \<le> r \<and> r \<le> 0x200A)"

definition TrimSpace :: "nat list \<Rightarrow> nat list" where
  "TrimSpace s = rev (dropWhile white_space (rev (dropWhile white_space s)))"

text \<open>
  The upper-case form of a rune as far as ASCII goes: the letters, the dotless i and the long s are
  the runes whose upper case is an ASCII letter; other runes stay non-ASCII and are kept.
\<close>

definition upper_rune :: "nat \<Rightarrow> nat" where
  "upper_rune r = (if 97 \<le> r \<and> r \<le> 122 then r - 32 else if r = 0x131 then 73 else if r = 0x17F then 83 else r)"

text \<open>The fold class of an ASCII character: also the Kelvin sign for k and the long s for s.\<close>

definition fold_rune :: "nat \<Rightarrow> nat" where
  "fold_rune r = (if 97 \<le> r \<and> r \<le> 122 then r - 32 else if r = 0x212A then 75 else if r = 0x17F then 83 else r)"

definition EqualFold :: "nat list \<Rightarrow> string \<Rightarrow> bool" where
  "EqualFold s t \<longleftrightarrow> map fold_rune s = map (\<lambda>c. fold_rune (of_char c)) t"

definition ParseANOLevel :: "nat list \<Rightarrow> int" where
  "ParseANOLevel s =
     (let t = map upper_rune (TrimSpace s) in
      if t = [] \<or> t = map of_char ''ACCEPTED'' then LevelAccepted
      else if t = map of_char ''REJECTED'' then LevelRejected
      else if t = map of_char ''REQUESTED'' then LevelRequested
      else if t = map of_char ''REQUIRED'' then LevelRequired
      else - 1)"

record ANOConfig =
  EncryptionLevel :: int
  ChecksumLevel :: int
  Encryption :: "nat list list option"
  Checksum :: "nat list list option"

record anoService =
  serviceType :: int
  level :: int
  names :: "string list"
  ids :: "int list"
  selected :: "nat list"

text \<open>The index of the first name an item of the preference list matches.\<close>

definition find_name :: "string list \<Rightarrow> nat list \<Rightarrow> nat option" where
  "find_name ns item = List.find (\<lambda>i. EqualFold (TrimSpace item) (ns ! i)) [1..<length ns]"

fun select_prefs :: "string list \<Rightarrow> nat list list \<Rightarrow> nat list \<Rightarrow> nat list \<times> tns_error option" where
  "select_prefs ns [] sel = (sel, None)"
| "select_prefs ns (item # items) sel =
     (case find_name ns item of
        None \<Rightarrow> (sel, Some (OtherErr ''tns: unsupported ANO algorithm''))
      | Some i \<Rightarrow> select_prefs ns items (sel @ [i]))"

definition listed :: "nat list list option \<Rightarrow> bool \<Rightarrow> anoService \<Rightarrow> nat list \<times> tns_error option" where
  "listed pref useLevel s =
     (let ps = (case pref of None \<Rightarrow> [] | Some ps \<Rightarrow> ps) in
      if ps = [] then ([1..<length (names s)], None)
      else select_prefs (names s) ps (if useLevel \<and> level s = LevelAccepted then [0] else []))"

text \<open>\<open>buildList\<close> updates the selection in place, also when it returns an error.\<close>

definition buildList :: "nat list list option \<Rightarrow> bool \<Rightarrow> anoService \<Rightarrow> anoService \<times> tns_error option" where
  "buildList pref useLevel s =
     (if useLevel \<and> level s = LevelRejected then (s\<lparr>selected := [0]\<rparr>, None)
      else if useLevel \<and> level s \<notin> {LevelAccepted, LevelRequested, LevelRequired} then
        (s\<lparr>selected := []\<rparr>, Some (OtherErr ''tns: unsupported ANO service level''))
      else case listed pref useLevel s of
        (sel, Some err) \<Rightarrow> (s\<lparr>selected := sel\<rparr>, Some err)
      | (sel, None) \<Rightarrow> (s\<lparr>selected := sel @ (if useLevel \<and> level s = LevelRequested then [0] else [])\<rparr>, None))"

record ano = session +
  encrypt :: anoService
  checksum :: anoService
  auth :: anoService
  supArray :: "int list"
  encAlgoID :: int
  intAlgoID :: int
  publicKey :: bytes
  sharedKey :: bytes
  iv :: bytes
  random :: "nat \<Rightarrow> bytes option"

definition aes_names :: "nat list list" where
  "aes_names = map (map of_char) [''AES128'', ''AES192'', ''AES256'']"

definition new_encrypt :: "ANOConfig \<Rightarrow> anoService" where
  "new_encrypt cfg = fst (buildList (case Encryption cfg of None \<Rightarrow> Some aes_names | Some e \<Rightarrow> Some e) True
     \<lparr>serviceType = 2, level = EncryptionLevel cfg,
      names = ['''', ''RC4_40'', ''RC4_56'', ''RC4_128'', ''RC4_256'', ''DES40C'', ''DES56C'', ''3DES112'', ''3DES168'',
        ''AES128'', ''AES192'', ''AES256''],
      ids = [0, 1, 8, 10, 6, 3, 2, 11, 12, 15, 16, 17], selected = []\<rparr>)"

definition new_checksum :: "ANOConfig \<Rightarrow> anoService" where
  "new_checksum cfg = fst (buildList (Checksum cfg) True
     \<lparr>serviceType = 3, level = ChecksumLevel cfg, names = ['''', ''MD5'', ''SHA1'', ''SHA512'', ''SHA256'', ''SHA384''],
      ids = [0, 1, 3, 4, 5, 6], selected = []\<rparr>)"

definition new_auth :: anoService where
  "new_auth = fst (buildList None False
     \<lparr>serviceType = 1, level = - 1, names = ['''', ''NTS'', ''KERBEROS5'', ''TCPS''], ids = [0, 1, 1, 2], selected = []\<rparr>)"

definition NewANO :: "session \<Rightarrow> (nat \<Rightarrow> bytes option) \<Rightarrow> ANOConfig \<Rightarrow> ano" where
  "NewANO s rnd cfg = session.extend s
     (ano.fields (new_encrypt cfg) (new_checksum cfg) new_auth [4, 1, 2, 3] 0 0 [] [] [] rnd)"

definition ShouldNegotiate :: "u8 \<Rightarrow> bool" where
  "ShouldNegotiate flags1 \<longleftrightarrow> flags1 AND NSINARequired \<noteq> 0"

subsection \<open>The request\<close>

type_synonym ('z, 'a) ano_op = "('z ano_scheme, 'a) state"

definition putHeader :: "nat \<Rightarrow> int \<Rightarrow> ('z, unit) op" where
  "putHeader n ptype = do { WriteUint16BE (word_of_nat n); WriteUint16BE (word_of_int ptype) }"

definition putUB1 :: "u8 \<Rightarrow> ('z, unit) op" where
  "putUB1 v = do { putHeader 1 2; WriteUint8 v }"

definition putUB2 :: "int \<Rightarrow> ('z, unit) op" where
  "putUB2 v = do { putHeader 2 3; WriteUint16BE (word_of_int v) }"

definition putUB4 :: "int \<Rightarrow> ('z, unit) op" where
  "putUB4 v = do { putHeader 4 4; WriteUint32BE (word_of_int v) }"

definition putVersion :: "u32 \<Rightarrow> ('z, unit) op" where
  "putVersion v = do { putHeader 4 5; WriteUint32BE v }"

definition putStatus :: "int \<Rightarrow> ('z, unit) op" where
  "putStatus v = do { putHeader 2 6; WriteUint16BE (word_of_int v) }"

definition putBytes :: "bytes \<Rightarrow> ('z, unit) op" where
  "putBytes b = do { putHeader (length b) 1; TnsWriteBuf.WriteBytes b }"

definition putString :: "bytes \<Rightarrow> ('z, unit) op" where
  "putString s = do { putHeader (length s) 0; WriteStr s }"

definition serviceHeader :: "int \<Rightarrow> nat \<Rightarrow> ('z, unit) op" where
  "serviceHeader t sub = do { WriteUint16BE (word_of_int t); WriteUint16BE (word_of_nat sub); WriteUint32BE 0 }"

definition putANOHeader :: "nat \<Rightarrow> nat \<Rightarrow> u8 \<Rightarrow> ('z, unit) op" where
  "putANOHeader n servCount errFlags = do {
     WriteUint32BE anoMagic; WriteUint16BE (word_of_nat n); WriteUint32BE anoVersion;
     WriteUint16BE (word_of_nat servCount); WriteUint8 errFlags }"

definition supLen :: "int list \<Rightarrow> nat" where
  "supLen arr = 12 + 8 + 4 + 10 + length arr * 2"

definition authLen :: "anoService \<Rightarrow> nat" where
  "authLen a = 20 + sum_list (map (\<lambda>i. 5 + 4 + length (names a ! i)) (selected a))"

definition encLen :: "anoService \<Rightarrow> nat" where
  "encLen e = 17 + length (selected e)"

definition intLen :: "anoService \<Rightarrow> nat" where
  "intLen c = 12 + length (selected c)"

definition totalLength :: "'z ano_scheme \<Rightarrow> nat" where
  "totalLength a = 13 + (8 + supLen (supArray a)) + (8 + authLen (auth a)) + (8 + encLen (encrypt a)) + (8 + intLen (checksum a))"

definition writeSupervisor :: "int list \<Rightarrow> ('z, unit) op" where
  "writeSupervisor arr = do {
     serviceHeader 4 3;
     putVersion anoVersion;
     putBytes [0, 0, 16, 28, 102, 236, 40, 234];
     putHeader (10 + length arr * 2) 1;
     WriteUint32BE anoMagic;
     WriteUint16BE 3;
     WriteUint32BE (word_of_nat (length arr));
     each (\<lambda>v. WriteUint16BE (word_of_int v)) arr }"

definition writeAuth :: "anoService \<Rightarrow> ('z, unit) op" where
  "writeAuth a = do {
     serviceHeader 1 (3 + length (selected a) * 2);
     putVersion anoVersion;
     putUB2 0xE0E1;
     putStatus 0xFCFF;
     each (\<lambda>i. do { putUB1 (word_of_int (ids a ! i)); putString (asc (names a ! i)) }) (selected a) }"

definition selected_ids :: "anoService \<Rightarrow> bytes" where
  "selected_ids s = map (\<lambda>i. word_of_int (ids s ! i)) (selected s)"

definition writeEncrypt :: "anoService \<Rightarrow> ('z, unit) op" where
  "writeEncrypt e = do { serviceHeader 2 3; putVersion anoVersion; putBytes (selected_ids e); putUB1 1 }"

definition writeChecksum :: "anoService \<Rightarrow> ('z, unit) op" where
  "writeChecksum c = do { serviceHeader 3 2; putVersion anoVersion; putBytes (selected_ids c) }"

text \<open>The fields of the request, and the request.\<close>

definition ano_fields :: "'z ano_scheme \<Rightarrow> ('y, unit) op" where
  "ano_fields a = do {
     putANOHeader (totalLength a) 4 0;
     writeSupervisor (supArray a);
     writeAuth (auth a);
     writeEncrypt (encrypt a);
     writeChecksum (checksum a) }"

definition ano_write :: "('z, tns_error option) ano_op" where
  "ano_write = do { a \<leftarrow> gets id; send_request 0 0 (ano_fields a) }"

subsection \<open>The response\<close>

definition readANOHeader :: "('z, tns_error + nat) op" where
  "readANOHeader = do {
     magic \<leftarrow> ReadUint32BE;
     if magic \<noteq> anoMagic then throw (OtherErr ''tns: bad ANO response header'')
     else do {
       _ \<leftarrow> ReadUint16BE;
       _ \<leftarrow> ReadUint32BE;
       n \<leftarrow> ReadUint16BE;
       _ \<leftarrow> ReadUB1;
       with_err (unat n) } }"

definition readServiceHeader :: "('z, tns_error + nat \<times> nat \<times> nat) op" where
  "readServiceHeader = do {
     sType \<leftarrow> ReadUint16BE;
     sub \<leftarrow> ReadUint16BE;
     errCode \<leftarrow> ReadUint32BE;
     with_err (unat sType, unat sub, unat errCode) }"

definition readPacketHeader :: "nat \<Rightarrow> ('z, tns_error + nat) op" where
  "readPacketHeader want = do {
     len \<leftarrow> ReadUint16BE;
     ptype \<leftarrow> ReadUint16BE;
     if unat ptype \<noteq> want then throw (OtherErr ''tns: ANO sub-packet type'') else with_err (unat len) }"

definition ano_readVersion :: "('z, tns_error + nat) op" where
  "ano_readVersion = tryE (readPacketHeader 5) (\<lambda>_. do { v \<leftarrow> ReadUint32BE; with_err (unat v) })"

definition ano_readUB1 :: "('z, tns_error + u8) op" where
  "ano_readUB1 = tryE (readPacketHeader 2) (\<lambda>_. do { v \<leftarrow> ReadUB1; with_err v })"

definition ano_readUB2 :: "('z, tns_error + nat) op" where
  "ano_readUB2 = tryE (readPacketHeader 3) (\<lambda>_. do { v \<leftarrow> ReadUint16BE; with_err (unat v) })"

definition ano_readUB4 :: "('z, tns_error + nat) op" where
  "ano_readUB4 = tryE (readPacketHeader 4) (\<lambda>_. do { v \<leftarrow> ReadUint32BE; with_err (unat v) })"

definition ano_readStatus :: "('z, tns_error + nat) op" where
  "ano_readStatus = tryE (readPacketHeader 6) (\<lambda>_. do { v \<leftarrow> ReadUint16BE; with_err (unat v) })"

definition or_nil :: "bytes option \<Rightarrow> bytes" where
  "or_nil ob = (case ob of None \<Rightarrow> [] | Some b \<Rightarrow> b)"

definition ano_readBytes :: "('z, tns_error + bytes) op" where
  "ano_readBytes = tryE (readPacketHeader 1) (\<lambda>n. do { ob \<leftarrow> ReadRawBytes n; with_err (or_nil ob) })"

definition ano_readString :: "('z, tns_error + bytes) op" where
  "ano_readString = tryE (readPacketHeader 0) (\<lambda>n. do { ob \<leftarrow> ReadRawBytes n; with_err (or_nil ob) })"

definition readSupervisor :: "('z, tns_error + unit) op" where
  "readSupervisor =
     tryE ano_readVersion (\<lambda>_.
     tryE ano_readStatus (\<lambda>status.
     if status \<noteq> 31 then throw (OtherErr ''tns: bad ANO supervisor status'')
     else tryE (readPacketHeader 1) (\<lambda>_. do {
       magic \<leftarrow> ReadUint32BE;
       if magic \<noteq> anoMagic then throw (OtherErr ''tns: bad ANO supervisor array'')
       else do {
         _ \<leftarrow> ReadUint16BE;
         n \<leftarrow> ReadUint32BE;
         repeat_op (unat n) ReadUint16BE;
         with_err () } })))"

definition readAuth :: "nat \<Rightarrow> ('z, tns_error + unit) op" where
  "readAuth subPackets =
     tryE ano_readVersion (\<lambda>_.
     tryE ano_readStatus (\<lambda>status.
     if status = 0xFAFF \<and> subPackets > 2 then
       tryE ano_readUB1 (\<lambda>_.
       tryE ano_readString (\<lambda>name. do {
         (if subPackets > 4 then do { _ \<leftarrow> ano_readVersion; _ \<leftarrow> ano_readUB4; _ \<leftarrow> ano_readUB4; State_Monad.return () }
          else State_Monad.return ());
         if name = asc ''KERBEROS5'' \<or> name = asc ''NTS'' then
           throw (OtherErr ''tns: network authentication is not supported'')
         else with_err () }))
     else if status \<noteq> 0xFBFF then throw (OtherErr ''tns: bad ANO authentication status'')
     else with_err ()))"

definition readEncrypt :: "('z, tns_error + unit) ano_op" where
  "readEncrypt =
     tryE ano_readVersion (\<lambda>_.
     tryE ano_readUB1 (\<lambda>id'. do { modify (\<lambda>a. a\<lparr>encAlgoID := uint id'\<rparr>); ok () }))"

text \<open>\<^verbatim>\<open>math/big\<close>: big-endian bytes to a natural, modular exponentiation, and back with padding.\<close>

definition SetBytes :: "bytes \<Rightarrow> nat" where
  "SetBytes b = foldl (\<lambda>v c. v * 256 + unat c) 0 b"

definition big_Exp :: "nat \<Rightarrow> nat \<Rightarrow> nat \<Rightarrow> nat" where
  "big_Exp x y m = (if m = 0 then x ^ y else x ^ y mod m)"

fun nat_bytes :: "nat \<Rightarrow> nat \<Rightarrow> bytes" where
  "nat_bytes 0 v = []"
| "nat_bytes (Suc n) v = nat_bytes n (v div 256) @ [word_of_nat v]"

definition FillBytes :: "nat \<Rightarrow> nat \<Rightarrow> tns_error + bytes" where
  "FillBytes v n = (if v < 256 ^ n then Inr (nat_bytes n v) else Inl write_panic)"

definition readChecksum :: "nat \<Rightarrow> ('z, tns_error + unit) ano_op" where
  "readChecksum subPackets =
     tryE ano_readVersion (\<lambda>_.
     tryE ano_readUB1 (\<lambda>id'. do {
       modify (\<lambda>a. a\<lparr>intAlgoID := uint id'\<rparr>);
       if subPackets \<noteq> 8 then ok ()
       else
         tryE ano_readUB2 (\<lambda>dhGenLen.
         tryE ano_readUB2 (\<lambda>dhPrimeLen.
         tryE ano_readBytes (\<lambda>genBytes.
         tryE ano_readBytes (\<lambda>primeBytes.
         tryE ano_readBytes (\<lambda>serverPub. do {
           r \<leftarrow> ano_readBytes;
           modify (\<lambda>a. a\<lparr>iv := (case r of Inr b \<Rightarrow> b | Inl _ \<Rightarrow> [])\<rparr>);
           case r of Inl e \<Rightarrow> throw e | Inr _ \<Rightarrow>
           if dhGenLen \<le> 0 \<or> dhPrimeLen \<le> 0 then throw (OtherErr ''tns: bad Diffie-Hellman parameters from server'')
           else let byteLen = (dhGenLen + 7) div 8 in
             if length serverPub \<noteq> byteLen \<or> length primeBytes \<noteq> byteLen then
               throw (OtherErr ''tns: Diffie-Hellman negotiation out of sync'')
             else do {
               rnd \<leftarrow> gets random;
               case rnd byteLen of None \<Rightarrow> throw (OtherErr ''rand'') | Some priv \<Rightarrow>
               case FillBytes (big_Exp (SetBytes genBytes) (SetBytes priv) (SetBytes primeBytes)) byteLen of
                 Inl e \<Rightarrow> throw e
               | Inr pub \<Rightarrow>
                 case FillBytes (big_Exp (SetBytes serverPub) (SetBytes priv) (SetBytes primeBytes)) byteLen of
                   Inl e \<Rightarrow> throw e
                 | Inr shared \<Rightarrow> do {
                     modify (\<lambda>a. a\<lparr>publicKey := pub, sharedKey := shared\<rparr>);
                     with_err () } } }))))) }))"

text \<open>The services of the response, each with its own reader.\<close>

definition read_service :: "('z, tns_error + unit) ano_op" where
  "read_service = tryE readServiceHeader (\<lambda>(sType, sub, errCode).
     if errCode \<noteq> 0 then
       (if errCode = 12660 \<and> (sType = 2 \<or> sType = 3) then throw (OtherErr ''tns: ORA-12660'')
        else throw (OtherErr ''tns: ANO negotiation error''))
     else if sType = 1 then readAuth sub
     else if sType = 2 then readEncrypt
     else if sType = 3 then readChecksum sub
     else if sType = 4 then readSupervisor
     else throw (OtherErr ''tns: unexpected ANO service''))"

fun read_services :: "nat \<Rightarrow> ('z, tns_error + unit) ano_op" where
  "read_services 0 = ok ()"
| "read_services (Suc n) = tryE read_service (\<lambda>_. read_services n)"

definition key_fields :: "bytes \<Rightarrow> ('z, unit) op" where
  "key_fields key = do { putANOHeader (12 + length key + 13) 1 0; serviceHeader 3 1; putBytes key }"

definition ano_read :: "('z, tns_error + unit) ano_op" where
  "ano_read = do {
     e \<leftarrow> WaitForPackets False;
     case e of Some x \<Rightarrow> throw x | None \<Rightarrow>
     tryE readANOHeader (\<lambda>n.
     tryE (read_services n) (\<lambda>_. do {
       key \<leftarrow> gets publicKey;
       if length key > 0 then do {
         e \<leftarrow> send_request 0 0 (key_fields key);
         case e of Some x \<Rightarrow> throw x | None \<Rightarrow> with_err () }
       else with_err () })) }"

definition Negotiate :: "('z, tns_error + security option) ano_op" where
  "Negotiate = do {
     e \<leftarrow> ano_write;
     case e of Some x \<Rightarrow> throw x | None \<Rightarrow>
     tryE ano_read (\<lambda>_. do {
       a \<leftarrow> gets id;
       if intAlgoID a = 0 \<and> encAlgoID a = 0 then ok None
       else case NewSecurity (prims (tr a)) (encAlgoID a) (intAlgoID a) (sharedKey a) (iv a) of
           Inl err \<Rightarrow> throw (SecurityErr err)
         | Inr p \<Rightarrow> ok (Some p) }) }"

end
