(* ===== verification/AnoProps.thy ===== *)
theory AnoProps
  imports Ano
begin

text \<open>
  The negotiation's request has the length its header claims, what it offers follows the configured
  level, the two ends derive the same key, and what is installed on the transport meets the conditions
  under which protected packets cross (\<open>transport_ok\<close>).
\<close>

subsection \<open>The request\<close>

definition sub_bytes :: "nat \<Rightarrow> int \<Rightarrow> bytes \<Rightarrow> bytes" where
  "sub_bytes n t b = be16 (word_of_nat n) @ be16 (word_of_int t) @ b"

definition service_bytes :: "int \<Rightarrow> nat \<Rightarrow> bytes \<Rightarrow> bytes" where
  "service_bytes t sub b = be16 (word_of_int t) @ be16 (word_of_nat sub) @ be32 0 @ b"

definition sup_bytes :: "int list \<Rightarrow> bytes" where
  "sup_bytes arr = service_bytes 4 3 (sub_bytes 4 5 (be32 anoVersion) @ sub_bytes 8 1 [0, 0, 16, 28, 102, 236, 40, 234] @
     sub_bytes (10 + length arr * 2) 1 (be32 anoMagic @ be16 3 @ be32 (word_of_nat (length arr)) @
       concat (map (\<lambda>v. be16 (word_of_int v)) arr)))"

definition auth_bytes :: "anoService \<Rightarrow> bytes" where
  "auth_bytes a = service_bytes 1 (3 + length (selected a) * 2) (sub_bytes 4 5 (be32 anoVersion) @
     sub_bytes 2 3 (be16 0xE0E1) @ sub_bytes 2 6 (be16 0xFCFF) @
     concat (map (\<lambda>i. sub_bytes 1 2 [word_of_int (ids a ! i)] @
       sub_bytes (length (names a ! i)) 0 (asc (names a ! i))) (selected a)))"

definition enc_bytes :: "anoService \<Rightarrow> bytes" where
  "enc_bytes e = service_bytes 2 3 (sub_bytes 4 5 (be32 anoVersion) @ sub_bytes (length (selected e)) 1 (selected_ids e) @
     sub_bytes 1 2 [1])"

definition int_bytes :: "anoService \<Rightarrow> bytes" where
  "int_bytes c = service_bytes 3 2 (sub_bytes 4 5 (be32 anoVersion) @ sub_bytes (length (selected c)) 1 (selected_ids c))"

definition header_bytes :: "nat \<Rightarrow> nat \<Rightarrow> u8 \<Rightarrow> bytes" where
  "header_bytes n k e = be32 anoMagic @ be16 (word_of_nat n) @ be32 anoVersion @ be16 (word_of_nat k) @ [e]"

definition ano_bytes :: "'z ano_scheme \<Rightarrow> bytes" where
  "ano_bytes a = header_bytes (totalLength a) 4 0 @ sup_bytes (supArray a) @ auth_bytes (auth a) @
     enc_bytes (encrypt a) @ int_bytes (checksum a)"

lemma writes_sub [writes_rules]:
  "writes c (putUB1 a) (sub_bytes 1 2 [a])" "writes c (putUB2 i) (sub_bytes 2 3 (be16 (word_of_int i)))"
  "writes c (putVersion w) (sub_bytes 4 5 (be32 w))" "writes c (putStatus i) (sub_bytes 2 6 (be16 (word_of_int i)))"
  "writes c (putBytes b) (sub_bytes (length b) 1 b)" "writes c (putString b) (sub_bytes (length b) 0 b)"
  "writes c (putHeader n t) (sub_bytes n t [])"
  unfolding putUB1_def putUB2_def putVersion_def putStatus_def putBytes_def putString_def putHeader_def sub_bytes_def
  by (rule writes_seq, rule writes_seq, rule writes_fixed, rule writes_fixed, rule refl,
      rule writes_fixed writes_WriteRaw, simp)+ (rule writes_seq, rule writes_fixed, rule writes_fixed, simp)

lemma writes_serviceHeader [writes_rules]: "writes c (serviceHeader t n) (service_bytes t n [])"
  unfolding serviceHeader_def service_bytes_def
  by (rule writes_bind, rule writes_fixed)+ (simp add: writes_fixed)

lemma writes_header [writes_rules]: "writes c (putANOHeader n k e) (header_bytes n k e)"
  unfolding putANOHeader_def header_bytes_def by (rule writes_bind, rule writes_fixed)+ (rule writes_fixed)

lemma service_bytes_split: "service_bytes t n b = service_bytes t n [] @ b" "sub_bytes n t b = sub_bytes n t [] @ b"
  by (simp_all add: service_bytes_def sub_bytes_def)

lemma writes_services [writes_rules]:
  "writes c (writeSupervisor arr) (sup_bytes arr)" "writes c (writeAuth a) (auth_bytes a)"
  "writes c (writeEncrypt e) (enc_bytes e)" "writes c (writeChecksum d) (int_bytes d)"
proof -
  show "writes c (writeSupervisor arr) (sup_bytes arr)"
    unfolding writeSupervisor_def
    by (rule writes_seq, rule writes_serviceHeader, (rule writes_seq, rule writes_sub)+, (rule writes_seq, rule writes_fixed)+,
        rule writes_each, rule writes_fixed, (rule refl)+) (simp add: sup_bytes_def service_bytes_def sub_bytes_def)
  show "writes c (writeAuth a) (auth_bytes a)"
    unfolding writeAuth_def
    by (rule writes_seq, rule writes_serviceHeader, (rule writes_seq, rule writes_sub)+,
        rule writes_each, rule writes_bind, rule writes_sub, rule writes_sub, (rule refl)+)
      (simp add: auth_bytes_def service_bytes_def sub_bytes_def asc_def)
  show "writes c (writeEncrypt e) (enc_bytes e)"
    unfolding writeEncrypt_def
    by (rule writes_seq, rule writes_serviceHeader, (rule writes_seq, rule writes_sub)+, rule writes_sub, (rule refl)+)
      (simp add: enc_bytes_def service_bytes_def sub_bytes_def selected_ids_def)
  show "writes c (writeChecksum d) (int_bytes d)"
    unfolding writeChecksum_def
    by (rule writes_seq, rule writes_serviceHeader, rule writes_seq, rule writes_sub, rule writes_sub, (rule refl)+)
      (simp add: int_bytes_def service_bytes_def sub_bytes_def selected_ids_def)
qed

text \<open>
  The request consists of the four services in order, and the length its header gives is
  the number of bytes that are written, whatever algorithms are offered.
\<close>

theorem ano_request_length:
  "writes c (ano_fields a) (ano_bytes a) \<and> length (ano_bytes a) = totalLength a"
proof
  show "writes c (ano_fields a) (ano_bytes a)"
    unfolding ano_fields_def ano_bytes_def
    by (rule writes_bind, rule writes_header, (rule writes_bind, rule writes_services)+, rule writes_services)
  show "length (ano_bytes a) = totalLength a"
    by (simp add: ano_bytes_def totalLength_def header_bytes_def sup_bytes_def auth_bytes_def enc_bytes_def int_bytes_def
        service_bytes_def sub_bytes_def supLen_def authLen_def encLen_def intLen_def selected_ids_def length_concat
        asc_def comp_def sum_list_triv) (simp add: eval_nat_numeral)
qed

subsection \<open>What is offered\<close>

lemma select_prefs_range:
  "select_prefs ns items sel = (sel', err) \<Longrightarrow>
   \<exists>xs. sel' = sel @ xs \<and> (\<forall>i \<in> set xs. 0 < i \<and> i < length ns) \<and> (err = None \<longrightarrow> length xs = length items)"
proof (induction ns items sel arbitrary: sel' rule: select_prefs.induct)
  case (2 ns item items sel)
  show ?case
  proof (cases "find_name ns item")
    case None
    then show ?thesis using 2(2) by (intro exI [of _ "[]"]) auto
  next
    case (Some i)
    then have i: "0 < i" "i < length ns" by (auto simp: find_name_def find_Some_iff)
    from 2(1) [OF Some] 2(2) Some obtain xs where
      "sel' = (sel @ [i]) @ xs" "\<forall>i \<in> set xs. 0 < i \<and> i < length ns" "err = None \<longrightarrow> length xs = length items" by auto
    then show ?thesis using i by (intro exI [of _ "i # xs"]) auto
  qed
qed auto

text \<open>
  Building a service's list: a rejected service offers only "none"; a required one never
  offers it; a requested one offers it last, after every named algorithm; and every entry is an index
  into the algorithm table. An error leaves a list without "none" or a shorter one.
\<close>

theorem buildList_levels:
  "let (t, err) = buildList pref True s in
   (level s = LevelRejected \<longrightarrow> selected t = [0] \<and> err = None) \<and>
   (level s = LevelRequired \<longrightarrow> 0 \<notin> set (selected t)) \<and>
   (level s = LevelRequested \<and> err = None \<longrightarrow> last (selected t) = 0 \<and> 0 \<notin> set (butlast (selected t))) \<and>
   (0 < length (names s) \<longrightarrow> (\<forall>i \<in> set (selected t). i < length (names s))) \<and>
   names t = names s \<and> ids t = ids s \<and> level t = level s"
proof -
  define ps where "ps = (case pref of None \<Rightarrow> [] | Some ps \<Rightarrow> ps)"
  define pre where "pre = (if level s = LevelAccepted then [0::nat] else [])"
  define r where "r = listed pref True s"
  have r_eq: "r = (if ps = [] then ([1..<length (names s)], None) else select_prefs (names s) ps pre)"
    by (simp add: r_def listed_def ps_def pre_def Let_def)
  have lv: "LevelRequired \<noteq> LevelRejected" "LevelRequired \<noteq> LevelAccepted" "LevelRequested \<noteq> LevelAccepted"
    "LevelRequested \<noteq> LevelRejected" "LevelRequired \<noteq> LevelRequested" "LevelAccepted \<noteq> LevelRejected"
    by (simp_all add: LevelRequired_def LevelRejected_def LevelAccepted_def LevelRequested_def)
  have r: "\<exists>p xs. fst r = p @ xs \<and> (p = [] \<or> p = pre) \<and> (\<forall>i \<in> set xs. 0 < i \<and> i < length (names s))"
  proof (cases "ps = []")
    case True
    then show ?thesis by (intro exI [of _ "[]"] exI [of _ "[1..<length (names s)]"]) (simp add: r_eq del: upt.simps)
  next
    case False
    obtain sel err where se: "select_prefs (names s) ps pre = (sel, err)" by fastforce
    from select_prefs_range [OF this] obtain xs where "sel = pre @ xs" "\<forall>i \<in> set xs. 0 < i \<and> i < length (names s)" by blast
    then show ?thesis using False se by (intro exI [of _ pre] exI [of _ xs]) (simp add: r_eq)
  qed
  then obtain p xs where px: "fst r = p @ xs" "p = [] \<or> p = pre" "\<forall>i \<in> set xs. 0 < i \<and> i < length (names s)" by blast
  have b: "buildList pref True s =
     (if level s = LevelRejected then (s\<lparr>selected := [0]\<rparr>, None)
      else if level s \<notin> {LevelAccepted, LevelRequested, LevelRequired} then
        (s\<lparr>selected := []\<rparr>, Some (OtherErr ''tns: unsupported ANO service level''))
      else if snd r \<noteq> None then (s\<lparr>selected := fst r\<rparr>, snd r)
      else (s\<lparr>selected := fst r @ (if level s = LevelRequested then [0] else [])\<rparr>, None))"
    by (cases r; cases "snd r") (simp_all add: buildList_def flip: r_def)
  show ?thesis
    using px lv by (auto simp: b pre_def Let_def split: if_splits)
qed

theorem buildList_levels_witness:
  "0 \<notin> set (selected (fst (buildList None True \<lparr>serviceType = 3, level = LevelRequired, names = ['''', ''MD5''], ids = [0, 1], selected = []\<rparr>)))"
  using buildList_levels [of None "\<lparr>serviceType = 3, level = LevelRequired, names = ['''', ''MD5''], ids = [0, 1], selected = []\<rparr>"]
  by (simp add: case_prod_unfold Let_def)

text \<open>The errors are dropped by \<open>NewANO\<close>: a misspelt algorithm under REQUIRED leaves an empty offer.\<close>

lemma NewANO_ignores_unknown_algorithm:
  "selected (new_encrypt \<lparr>EncryptionLevel = LevelRequired, ChecksumLevel = 0,
     Encryption = Some [map of_char ''AES-256''], Checksum = None\<rparr>) = []"
  by (simp add: new_encrypt_def buildList_def listed_def find_name_def EqualFold_def TrimSpace_def white_space_def fold_rune_def
      upt_rec [of _ "numeral _"] LevelRequired_def LevelRejected_def LevelAccepted_def LevelRequested_def)

subsection \<open>The key exchange\<close>

lemma SetBytes_snoc: "SetBytes (b @ [x]) = SetBytes b * 256 + unat x"
  by (simp add: SetBytes_def)

lemma SetBytes_nat_bytes: "v < 256 ^ n \<Longrightarrow> SetBytes (nat_bytes n v) = v"
proof (induction n arbitrary: v)
  case 0
  then show ?case by (simp add: SetBytes_def)
next
  case (Suc n)
  have "v div 256 < 256 ^ n" using Suc.prems by (simp add: div_less_iff_less_mult mult.commute)
  from Suc.IH [OF this] show ?case by (simp add: SetBytes_snoc unat_of_nat take_bit_eq_mod)
qed

lemma length_nat_bytes [simp]: "length (nat_bytes n v) = n"
  by (induction n arbitrary: v) auto

lemma big_Exp_commute: "0 < p \<Longrightarrow> big_Exp (big_Exp g b p) a p = big_Exp (big_Exp g a p) b p"
  by (simp add: big_Exp_def power_mod mult.commute flip: power_mult)

lemma FillBytes_Exp:
  assumes "0 < p" "p \<le> 256 ^ n"
  shows "FillBytes (big_Exp g x p) n = Inr (nat_bytes n (big_Exp g x p))" "SetBytes (nat_bytes n (big_Exp g x p)) = big_Exp g x p"
proof -
  have "big_Exp g x p < 256 ^ n" using assms by (simp add: big_Exp_def) (meson mod_less_divisor order_less_le_trans)
  then show "FillBytes (big_Exp g x p) n = Inr (nat_bytes n (big_Exp g x p))" "SetBytes (nat_bytes n (big_Exp g x p)) = big_Exp g x p"
    by (simp_all add: FillBytes_def SetBytes_nat_bytes)
qed

lemma SetBytes_bound: "SetBytes b < 256 ^ length b"
proof (induction b rule: rev_induct)
  case (snoc x xs)
  have "SetBytes xs * 256 + unat x < (SetBytes xs + 1) * 256" using unsigned_less [of x] by simp
  also have "\<dots> \<le> 256 ^ length xs * 256" using snoc by (intro mult_right_mono) auto
  finally show ?case by (simp add: SetBytes_snoc)
qed (simp add: SetBytes_def)

text \<open>The negotiator's own fields do not matter to the reader.\<close>

lemma ready_ano [simp]:
  "ready ((a :: 'z ano_scheme)\<lparr>intAlgoID := i\<rparr>) = ready a" "stream (a\<lparr>intAlgoID := i\<rparr>) = stream a"
  "ready (a\<lparr>iv := v\<rparr>) = ready a" "stream (a\<lparr>iv := v\<rparr>) = stream a"
  "ready (a\<lparr>publicKey := pk, sharedKey := sk\<rparr>) = ready a" "stream (a\<lparr>publicKey := pk, sharedKey := sk\<rparr>) = stream a"
  by (simp_all add: ready_def stream_def rbuf_ok_def pending_def complete_def rest_of_packet_def)

lemma reads_packet_header: "n < 2 ^ 16 \<Longrightarrow> reads c (readPacketHeader t) (sub_bytes n (int t) []) (Inr n)" if "t < 2 ^ 16"
proof -
  assume n: "n < 2 ^ 16"
  have u: "unat (word_of_nat n :: u16) = n" "unat (word_of_nat t :: u16) = t" using n that by (simp_all add: unat_of_nat)
  have "reads c (readPacketHeader t) (be16 (word_of_nat n) @ be16 (word_of_nat t) @ []) (Inr n)"
    unfolding readPacketHeader_def
    by (rule reads_bind, rule reads_fixed, rule reads_bind, rule reads_fixed) (simp add: u reads_with_err [of c n, simplified])
  then show ?thesis by (simp add: sub_bytes_def)
qed

lemma sub_bytes_body: "sub_bytes n t b = sub_bytes n t [] @ b"
  by (simp add: sub_bytes_def)

lemma reads_sub [reads_rules]:
  "reads c ano_readVersion (sub_bytes 4 5 (be32 w)) (Inr (unat w))"
  "reads c ano_readUB1 (sub_bytes 1 2 [x]) (Inr x)"
  "n < 2 ^ 16 \<Longrightarrow> reads c ano_readUB2 (sub_bytes 2 3 (be16 (word_of_nat n))) (Inr n)"
  "0 < length b \<Longrightarrow> length b < 2 ^ 16 \<Longrightarrow> reads c ano_readBytes (sub_bytes (length b) 1 b) (Inr b)"
proof -
  show "reads c ano_readVersion (sub_bytes 4 5 (be32 w)) (Inr (unat w))"
    unfolding ano_readVersion_def sub_bytes_body [of _ _ "be32 w"]
    by (rule reads_tryE, rule reads_packet_header [of 5 4 c, simplified], rule reads_err_seq, rule reads_fixed) simp
  have h: "reads c (readPacketHeader 2) (sub_bytes 1 2 []) (Inr 1)" using reads_packet_header [of 2 1 c] by simp
  show "reads c ano_readUB1 (sub_bytes 1 2 [x]) (Inr x)"
    unfolding ano_readUB1_def sub_bytes_body [of _ _ "[x]"]
    by (rule reads_tryE, rule h, rule reads_err_seq, rule reads_ReadUB1) simp
next
  assume n: "n < 2 ^ 16"
  then have e: "Inr n = Inr (unat (word_of_nat n :: u16))" by (simp add: unat_of_nat)
  show "reads c ano_readUB2 (sub_bytes 2 3 (be16 (word_of_nat n))) (Inr n)"
    unfolding ano_readUB2_def sub_bytes_body [of _ _ "be16 _"]
    by (rule reads_tryE, rule reads_packet_header [of 3 2 c, simplified], rule reads_err_seq, rule reads_fixed, rule e)
next
  assume b: "0 < length b" "length b < 2 ^ 16"
  then have ne: "b \<noteq> []" by auto
  have h: "reads c (readPacketHeader 1) (sub_bytes (length b) 1 []) (Inr (length b))"
    using reads_packet_header [of 1 "length b" c] b by simp
  show "reads c ano_readBytes (sub_bytes (length b) 1 b) (Inr b)"
    unfolding ano_readBytes_def sub_bytes_body [of _ _ b] ReadRawBytes_def
    by (rule reads_tryE, rule h, rule reads_err_seq, rule reads_getRaw [OF ne refl]) (simp add: or_nil_def)
qed

lemma keeps_ano:
  assumes "keeps (s :: 'z ano_scheme) s'"
  shows "random s' = random s" "intAlgoID s' = intAlgoID s" "encAlgoID s' = encAlgoID s" "publicKey s' = publicKey s"
    "sharedKey s' = sharedKey s" "iv s' = iv s"
  using keeps_fields(4) [OF assms] by (cases s; cases s'; simp)+

text \<open>The integrity service's reply with Diffie-Hellman parameters: a generator, a prime, a public key, an IV.\<close>

definition dh_reply :: "u8 \<Rightarrow> nat \<Rightarrow> nat \<Rightarrow> bytes \<Rightarrow> bytes \<Rightarrow> bytes \<Rightarrow> bytes \<Rightarrow> bytes" where
  "dh_reply alg genLen primeLen g p pub v =
     sub_bytes 4 5 (be32 anoVersion) @ sub_bytes 1 2 [alg] @ sub_bytes 2 3 (be16 (word_of_nat genLen)) @
     sub_bytes 2 3 (be16 (word_of_nat primeLen)) @ sub_bytes (length g) 1 g @ sub_bytes (length p) 1 p @
     sub_bytes (length pub) 1 pub @ sub_bytes (length v) 1 v"

text \<open>
  Property C5. The key exchange agrees: when the server replies with parameters of consistent sizes and
  the public key of its exponent \<open>y\<close>, the client accepts, stores the server's algorithm and IV, and the
  shared key it derives is the one the server computes from the client's public key and \<open>y\<close>.
\<close>

theorem key_exchange_agrees:
  fixes a :: "'z ano_scheme"
  assumes "ready a" "stream a = dh_reply alg (8 * n) primeLen g p pub v @ rest"
    "0 < n" "8 * n < 2 ^ 16" "0 < primeLen" "primeLen < 2 ^ 16" "0 < length g" "length g < 2 ^ 16"
    "length p = n" "0 < SetBytes p" "0 < length v" "length v < 2 ^ 16"
    "pub = nat_bytes n (big_Exp (SetBytes g) y (SetBytes p))" "random a n = Some x"
  shows "\<exists>a'. run_state (readChecksum 8) a = (Inr (), a') \<and> intAlgoID a' = uint alg \<and> iv a' = v \<and> stream a' = rest \<and>
    length (publicKey a') = n \<and>
    sharedKey a' = nat_bytes n (big_Exp (SetBytes (publicKey a')) y (SetBytes p))"
proof -
  let ?P = "SetBytes p"
  have pn: "?P \<le> 256 ^ n" using SetBytes_bound [of p] assms(9) by simp
  let ?gl = "sub_bytes 2 3 (be16 (word_of_nat (8 * n)))" and ?pl = "sub_bytes 2 3 (be16 (word_of_nat primeLen))"
    and ?g = "sub_bytes (length g) 1 g" and ?p = "sub_bytes (length p) 1 p" and ?s = "sub_bytes (length pub) 1 pub"
    and ?v = "sub_bytes (length v) 1 v"
  have st: "stream a = sub_bytes 4 5 (be32 anoVersion) @ sub_bytes 1 2 [alg] @ ?gl @ ?pl @ ?g @ ?p @ ?s @ ?v @ rest"
    using assms(2) by (simp add: dh_reply_def)
  have ln: "0 < length p" "length p < 2 ^ 16" "0 < length pub" "length pub < 2 ^ 16"
    using assms(3,4,9,13) by simp_all
  obtain s1 where s1: "\<And>f :: _ \<Rightarrow> ('z ano_scheme, tns_error + unit) state. run_state (tryE ano_readVersion f) a = run_state (f (unat anoVersion)) s1" "ready s1" "keeps a s1"
    "stream s1 = sub_bytes 1 2 [alg] @ ?gl @ ?pl @ ?g @ ?p @ ?s @ ?v @ rest"
    using run_reads_tryE [OF reads_sub(1) assms(1) st] by metis
  obtain s2 where s2: "\<And>f :: _ \<Rightarrow> ('z ano_scheme, tns_error + unit) state. run_state (tryE ano_readUB1 f) s1 = run_state (f alg) s2" "ready s2" "keeps s1 s2"
    "stream s2 = ?gl @ ?pl @ ?g @ ?p @ ?s @ ?v @ rest"
    using run_reads_tryE [OF reads_sub(2) s1(2,4)] by metis
  let ?s2 = "s2\<lparr>intAlgoID := uint alg\<rparr>"
  have "ready ?s2" "stream ?s2 = ?gl @ ?pl @ ?g @ ?p @ ?s @ ?v @ rest" using s2 by simp_all
  from run_reads_tryE [OF reads_sub(3) [OF assms(4)] this]
  obtain s3 where s3: "\<And>f :: _ \<Rightarrow> ('z ano_scheme, tns_error + unit) state. run_state (tryE ano_readUB2 f) ?s2 = run_state (f (8 * n)) s3" "ready s3" "keeps ?s2 s3"
    "stream s3 = ?pl @ ?g @ ?p @ ?s @ ?v @ rest" by metis
  from run_reads_tryE [OF reads_sub(3) [OF assms(6)] s3(2,4)]
  obtain s4 where s4: "\<And>f :: _ \<Rightarrow> ('z ano_scheme, tns_error + unit) state. run_state (tryE ano_readUB2 f) s3 = run_state (f primeLen) s4" "ready s4" "keeps s3 s4"
    "stream s4 = ?g @ ?p @ ?s @ ?v @ rest" by metis
  from run_reads_tryE [OF reads_sub(4) [OF assms(7,8)] s4(2,4)]
  obtain s5 where s5: "\<And>f :: _ \<Rightarrow> ('z ano_scheme, tns_error + unit) state. run_state (tryE ano_readBytes f) s4 = run_state (f g) s5" "ready s5" "keeps s4 s5"
    "stream s5 = ?p @ ?s @ ?v @ rest" by metis
  from run_reads_tryE [OF reads_sub(4) [of p] s5(2,4)] ln
  obtain s6 where s6: "\<And>f :: _ \<Rightarrow> ('z ano_scheme, tns_error + unit) state. run_state (tryE ano_readBytes f) s5 = run_state (f p) s6" "ready s6" "keeps s5 s6"
    "stream s6 = ?s @ ?v @ rest" by metis
  from run_reads_tryE [OF reads_sub(4) [of pub] s6(2,4)] ln
  obtain s7 where s7: "\<And>f :: _ \<Rightarrow> ('z ano_scheme, tns_error + unit) state. run_state (tryE ano_readBytes f) s6 = run_state (f pub) s7" "ready s7" "keeps s6 s7"
    "stream s7 = ?v @ rest" by metis
  obtain s8 where s8: "run_state ano_readBytes s7 = (Inr v, s8)" "ready s8" "keeps s7 s8" "stream s8 = rest"
    using reads_sub(4) [OF assms(11,12), of "caps s7"] s7(2,4) unfolding reads_def by blast
  have k: "random s8 n = Some x" "intAlgoID s8 = uint alg"
    using keeps_ano(1,2) [OF s1(3)] keeps_ano(1,2) [OF s2(3)] keeps_ano(1,2) [OF s3(3)] keeps_ano(1,2) [OF s4(3)]
      keeps_ano(1,2) [OF s5(3)] keeps_ano(1,2) [OF s6(3)] keeps_ano(1,2) [OF s7(3)] keeps_ano(1,2) [OF s8(3)] assms(14)
    by simp_all
  define pk where "pk = nat_bytes n (big_Exp (SetBytes g) (SetBytes x) ?P)"
  define sk where "sk = nat_bytes n (big_Exp (SetBytes pub) (SetBytes x) ?P)"
  have F: "FillBytes (big_Exp (SetBytes g) (SetBytes x) ?P) n = Inr pk" "FillBytes (big_Exp (SetBytes pub) (SetBytes x) ?P) n = Inr sk"
    unfolding pk_def sk_def by (rule FillBytes_Exp [OF assms(10) pn])+
  have run: "run_state (readChecksum 8) a = (Inr (), s8\<lparr>iv := v, publicKey := pk, sharedKey := sk\<rparr>)"
    using s8 k F assms(3,5,9,13)
    by (simp add: readChecksum_def s1(1) s2(1) s3(1) s4(1) s5(1) s6(1) s7(1) run_with_err)
  have "sk = nat_bytes n (big_Exp (SetBytes pk) y ?P)"
    unfolding sk_def pk_def assms(13)
    by (simp add: FillBytes_Exp(2) [OF assms(10) pn] big_Exp_commute [OF assms(10), of _ "SetBytes x" y])
  then show ?thesis using run s8(4) k by (simp add: pk_def)
qed

definition dh_session :: ano where
  "dh_session = NewANO ((toy_session (toy_end toy_security []))
     \<lparr>rdata := dh_reply 5 8 8 [5] [23] [8] (replicate 16 1), rsize := length (dh_reply 5 8 8 [5] [23] [8] (replicate 16 1))\<rparr>)
     (\<lambda>n. Some (replicate n 15)) \<lparr>EncryptionLevel = LevelRequired, ChecksumLevel = LevelRequired, Encryption = None, Checksum = None\<rparr>"

lemma dh_session_fields:
  "ready dh_session" "stream dh_session = dh_reply 5 (8 * 1) 8 [5] [23] [8] (replicate 16 1) @ []" "random dh_session 1 = Some [15]"
  by (simp_all add: dh_session_def NewANO_def session.defs ano.defs toy_session_def ready_def stream_def rbuf_ok_def pending_def complete_def
      rest_of_packet_def checkConnected_def packets_in_empty toy_end_def)

theorem key_exchange_agrees_witness:
  "\<exists>a'. run_state (readChecksum 8) dh_session = (Inr (), a') \<and> intAlgoID a' = 5 \<and>
    sharedKey a' = nat_bytes 1 (big_Exp (SetBytes (publicKey a')) 6 23)"
proof -
  have v: "SetBytes [5] = 5" "SetBytes [23] = 23" by (simp_all add: SetBytes_def)
  have pub: "[8 :: u8] = nat_bytes 1 (big_Exp (SetBytes [5]) 6 (SetBytes [23]))" by (simp add: v big_Exp_def)
  show ?thesis
    using key_exchange_agrees [OF dh_session_fields(1,2) _ _ _ _ _ _ _ _ _ _ pub dh_session_fields(3)] by (simp add: v) blast
qed

subsection \<open>What is installed\<close>

lemma map_sum_Some: "map_sum id (Some \<circ> f) r = Inr x \<longleftrightarrow> (\<exists>y. r = Inr y \<and> x = Some (f y))"
  by (cases r) auto

text \<open>
  Property C25. Whatever the server selects, the protection put on the transport is one of the supported
  ones: no cipher exactly if no encryption was selected, otherwise AES with a key of the right length
  from the shared key, and a checksum exactly if one was selected; DES, RC4 and unknown identifiers are
  errors. With primitives that keep their documented laws it meets the conditions for protected packets.
\<close>

theorem NewSecurity_supported:
  assumes "NewSecurity cr enc chk key iv' = Inr s" "crypto_ok cr"
  shows "(cipher s = None \<longleftrightarrow> enc = 0) \<and> enc \<in> {0, 15, 16, 17} \<and> (hash s = None \<longleftrightarrow> chk = 0) \<and> chk \<in> {0, 1, 3, 4, 5, 6} \<and>
    (\<forall>k. cipher s = Some k \<longrightarrow> k = take (cipher_key_len enc) key \<and> length k = cipher_key_len enc) \<and> security_ok cr s"
  using assms
  by (auto simp: NewSecurity_def andThen_eq_Inr security_ok_def aes_key_ok_def cipher_key_len_def min_absorb2 map_sum_Some Let_def
      split: if_split_asm sum.split_asm)

theorem NewSecurity_supported_witness:
  "(cipher toy_security = None \<longleftrightarrow> (17 :: int) = 0) \<and> security_ok toy_crypto toy_security"
proof -
  have e: "\<exists>s. NewSecurity toy_crypto 17 5 (replicate 40 3) (replicate 16 9) = Inr s"
    by (simp add: NewSecurity_def newAESKeyedHash_def cipher_key_len_def Let_def)
  then have "NewSecurity toy_crypto 17 5 (replicate 40 3) (replicate 16 9) = Inr toy_security"
    by (auto simp: toy_security_def)
  from NewSecurity_supported [OF this toy_crypto_ok] show ?thesis by blast
qed

end
