(* ===== verification/TtcTypes.thy ===== *)
theory TtcTypes
  imports TnsOps Rowid
begin

text \<open>
  \<^verbatim>\<open>internal/ttc/errors.go\<close> and \<^verbatim>\<open>types.go\<close>: server errors, the Oracle types and the description of a
  result column. Strings are their bytes. \<open>ttc_error\<close> is the sum of what the package returns as an
  \<open>error\<close>: an error of the transport, one reported by the server, or one of its own messages, with
  the values it prints; \<open>Panicked\<close> is a Go run-time panic and \<open>Deadlock\<close> a call that never returns because
  it locks a mutex its own goroutine holds.
\<close>

record ora_error =
  Code :: int
  Message :: bytes
  Offset :: int
  RowCount :: u64
  IsWarning :: bool

definition no_error :: ora_error where
  "no_error = \<lparr>Code = 0, Message = [], Offset = 0, RowCount = 0, IsWarning = False\<rparr>"

datatype ttc_error =
    TnsErr tns_error
  | OraErr ora_error
  | Msg string
  | MismatchedToken u64
  | UnknownMessage u8 nat
  | UnexpectedParameter u8
  | TooManyBatchErrors u32
  | UnknownPiggyback u8
  | OutBindUnsupported nat bytes
  | BindCountMismatch nat nat
  | SinkErr string
  | Cancelled ttc_error ttc_error
  | Deadlock
  | Panicked

subsection \<open>Messages of the server\<close>

text \<open>
  \<^verbatim>\<open>strings.TrimSpace\<close> on UTF-8 text takes the encodings of white space off both ends.
\<close>

definition space_encodings :: "bytes list" where
  "space_encodings = map (\<lambda>b. [b]) [9, 10, 11, 12, 13, 32] @ [[0xC2, 0x85], [0xC2, 0xA0], [0xE1, 0x9A, 0x80]] @
     map (\<lambda>b. [0xE2, 0x80, b]) [0x80, 0x81, 0x82, 0x83, 0x84, 0x85, 0x86, 0x87, 0x88, 0x89, 0x8A, 0xA8, 0xA9, 0xAF] @
     [[0xE2, 0x81, 0x9F], [0xE3, 0x80, 0x80]]"

definition is_prefix :: "bytes \<Rightarrow> bytes \<Rightarrow> bool" where
  "is_prefix p b \<longleftrightarrow> take (length p) b = p"

fun trim_left :: "nat \<Rightarrow> bytes list \<Rightarrow> bytes \<Rightarrow> bytes" where
  "trim_left 0 ws b = b"
| "trim_left (Suc k) ws b =
     (case List.find (\<lambda>w. is_prefix w b) ws of None \<Rightarrow> b | Some w \<Rightarrow> trim_left k ws (drop (length w) b))"

definition trim_space :: "bytes \<Rightarrow> bytes" where
  "trim_space b =
     (let l = trim_left (length b) space_encodings b
      in rev (trim_left (length l) (map rev space_encodings) (rev l)))"

text \<open>\<open>%05d\<close>: at least five characters, the sign included.\<close>

definition pad5 :: "int \<Rightarrow> string" where
  "pad5 i = (let d = dec_nat (nat \<bar>i\<bar>); sg = (if i < 0 then ''-'' else '''') in
     sg @ replicate (5 - length sg - length d) CHR ''0'' @ d)"

definition Error_text :: "ora_error \<Rightarrow> bytes" where
  "Error_text e = (let msg = trim_space (Message e) in if msg = [] then asc (''ORA-'' @ pad5 (Code e)) else msg)"

definition IsSessionDead :: "ora_error \<Rightarrow> bool" where
  "IsSessionDead e \<longleftrightarrow> Code e \<in> {22, 28, 31, 45, 378, 600, 602, 603, 609, 1012, 1041, 1043, 1089, 1092,
     2396, 3113, 3114, 3122, 3135, 12153, 12537, 12547, 12570, 12583, 27146, 28511, 56600}"

definition AsError :: "ttc_error \<Rightarrow> ora_error option" where
  "AsError e = (case e of OraErr o' \<Rightarrow> Some o' | _ \<Rightarrow> None)"

definition integrityErrorCodes :: "int set" where
  "integrityErrorCodes = {1, 1400, 1438, 2290, 2291, 2292, 2296, 2297, 2299, 12899}"

subsection \<open>Types and columns\<close>

definition TypeVarchar :: u8 where "TypeVarchar = 1"
definition TypeNumber :: u8 where "TypeNumber = 2"
definition TypeBinaryInteger :: u8 where "TypeBinaryInteger = 3"
definition TypeLong :: u8 where "TypeLong = 8"
definition TypeRowid :: u8 where "TypeRowid = 11"
definition TypeDate :: u8 where "TypeDate = 12"
definition TypeRaw :: u8 where "TypeRaw = 23"
definition TypeLongRaw :: u8 where "TypeLongRaw = 24"
definition TypeChar :: u8 where "TypeChar = 96"
definition TypeBinaryFloat :: u8 where "TypeBinaryFloat = 100"
definition TypeBinaryDouble :: u8 where "TypeBinaryDouble = 101"
definition TypeCursor :: u8 where "TypeCursor = 102"
definition TypeObject :: u8 where "TypeObject = 109"
definition TypeClob :: u8 where "TypeClob = 112"
definition TypeBlob :: u8 where "TypeBlob = 113"
definition TypeBfile :: u8 where "TypeBfile = 114"
definition TypeJSON :: u8 where "TypeJSON = 119"
definition TypeVector :: u8 where "TypeVector = 127"
definition TypeTimestamp :: u8 where "TypeTimestamp = 180"
definition TypeTimestampTZ :: u8 where "TypeTimestampTZ = 181"
definition TypeIntervalYM :: u8 where "TypeIntervalYM = 182"
definition TypeIntervalDS :: u8 where "TypeIntervalDS = 183"
definition TypeURowid :: u8 where "TypeURowid = 208"
definition TypeTimestampLTZ :: u8 where "TypeTimestampLTZ = 231"
definition TypeBoolean :: u8 where "TypeBoolean = 252"

lemmas type_defs = TypeVarchar_def TypeNumber_def TypeBinaryInteger_def TypeLong_def TypeRowid_def TypeDate_def
  TypeRaw_def TypeLongRaw_def TypeChar_def TypeBinaryFloat_def TypeBinaryDouble_def TypeCursor_def TypeObject_def
  TypeClob_def TypeBlob_def TypeBfile_def TypeJSON_def TypeVector_def TypeTimestamp_def TypeTimestampTZ_def
  TypeIntervalYM_def TypeIntervalDS_def TypeURowid_def TypeTimestampLTZ_def TypeBoolean_def

definition CSFormImplicit :: u8 where "CSFormImplicit = 1"
definition CSFormNChar :: u8 where "CSFormNChar = 2"

text \<open>Precision and scale are Go \<open>int8\<close> values.\<close>

record column =
  Name :: bytes
  OraTypeNum :: u8
  CSForm :: u8
  Precision :: int
  Scale :: int
  MaxSize :: u32
  BufferSize :: u32
  NullsAllowed :: bool
  IsJSON :: bool
  IsOSON :: bool
  DomainSchema :: bytes
  DomainName :: bytes
  VectorDimensions :: u32
  VectorFormat :: u8
  VectorFlags :: u8
  ObjectTypeSchema :: bytes
  ObjectTypeName :: bytes
  ObjectTypeOID :: "bytes option"
  FetchType :: u8
  FetchCSForm :: u8

text \<open>A column of which only the type is known: \<open>&Column{OraTypeNum: t}\<close>.\<close>

definition type_column :: "u8 \<Rightarrow> column" where
  "type_column t = \<lparr>Name = [], OraTypeNum = t, CSForm = 0, Precision = 0, Scale = 0, MaxSize = 0, BufferSize = 0,
     NullsAllowed = False, IsJSON = False, IsOSON = False, DomainSchema = [], DomainName = [], VectorDimensions = 0,
     VectorFormat = 0, VectorFlags = 0, ObjectTypeSchema = [], ObjectTypeName = [], ObjectTypeOID = None,
     FetchType = 0, FetchCSForm = 0\<rparr>"

definition TypeName :: "column \<Rightarrow> bytes" where
  "TypeName c =
     (let t = OraTypeNum c in
      if t = TypeVarchar then (if CSForm c = CSFormNChar then asc ''NVARCHAR2'' else asc ''VARCHAR2'')
      else if t = TypeNumber then (if Scale c = - 127 then asc ''FLOAT'' else asc ''NUMBER'')
      else if t = TypeBinaryInteger then asc ''BINARY_INTEGER''
      else if t = TypeLong then asc ''LONG''
      else if t = TypeRowid then asc ''ROWID''
      else if t = TypeDate then asc ''DATE''
      else if t = TypeRaw then asc ''RAW''
      else if t = TypeLongRaw then asc ''LONG RAW''
      else if t = TypeChar then (if CSForm c = CSFormNChar then asc ''NCHAR'' else asc ''CHAR'')
      else if t = TypeBinaryFloat then asc ''BINARY_FLOAT''
      else if t = TypeBinaryDouble then asc ''BINARY_DOUBLE''
      else if t = TypeCursor then asc ''CURSOR''
      else if t = TypeObject then (if ObjectTypeName c \<noteq> [] then ObjectTypeName c else asc ''OBJECT'')
      else if t = TypeClob then (if CSForm c = CSFormNChar then asc ''NCLOB'' else asc ''CLOB'')
      else if t = TypeBlob then asc ''BLOB''
      else if t = TypeBfile then asc ''BFILE''
      else if t = TypeJSON then asc ''JSON''
      else if t = TypeVector then asc ''VECTOR''
      else if t = TypeTimestamp then asc ''TIMESTAMP''
      else if t = TypeTimestampTZ then asc ''TIMESTAMP WITH TIME ZONE''
      else if t = TypeTimestampLTZ then asc ''TIMESTAMP WITH LOCAL TIME ZONE''
      else if t = TypeIntervalYM then asc ''INTERVAL YEAR TO MONTH''
      else if t = TypeIntervalDS then asc ''INTERVAL DAY TO SECOND''
      else if t = TypeURowid then asc ''UROWID''
      else if t = TypeBoolean then asc ''BOOLEAN''
      else asc ''UNKNOWN'')"

end
