(* ===== verification/ObjImage.thy ===== *)
theory ObjImage
  imports TtcTypes Number
begin

text \<open>
  \<^verbatim>\<open>internal/ttc/objimage.go\<close>, and the data of \<^verbatim>\<open>internal/ttc/objtype.go\<close>: the decoder of object images. A
  type is a tree, because \<^verbatim>\<open>ObjectType\<close> refuses recursive types; every recursive call of the decoder is on
  a smaller type. A reader is the image and a position in it. An access outside a slice would be the
  error \<open>ImagePanic\<close>. On an error the value that is returned beside it is dropped.
\<close>

definition objIsDegenerate :: u8 where "objIsDegenerate = 0x10"
definition objNoPrefixSeg :: u8 where "objNoPrefixSeg = 0x04"
definition objAtomicNull :: u8 where "objAtomicNull = 253"
definition xmlTypeLOB :: u32 where "xmlTypeLOB = 0x0001"
definition xmlTypeString :: u32 where "xmlTypeString = 0x0004"
definition xmlTypeSkipNext4 :: u32 where "xmlTypeSkipNext4 = 0x100000"
definition CollNone :: int where "CollNone = 0"
definition CollIndexTable :: int where "CollIndexTable = 1"
definition CollNestedTbl :: int where "CollNestedTbl = 2"
definition CollVarray :: int where "CollVarray = 3"

datatype ObjectType = ObjectType (Schema: bytes) (TypName: bytes) (IsCollection: bool) (CollKind: int) (MaxElements: int)
    (Element: "AttrMeta option") (Attrs: "AttrMeta list") (IsXMLType: bool)
and AttrMeta = AttrMeta (AttrName: bytes) (AttrType: u8) (AttrCSForm: u8) (AttrPrecision: int) (AttrScale: int)
    (AttrMaxSize: int) (ObjType: "ObjectType option")

datatype ValueKind = KindNull | KindScalar | KindObject | KindCollection | KindXMLString | KindLOB

datatype ObjValue = ObjValue (Kind: ValueKind) (Meta: "AttrMeta option") (Typ: "ObjectType option") (Raw: bytes)
    (Fields: "ObjValue list") (Elements: "ObjValue list") (Indexes: "int list")

datatype image_error = TruncatedImage nat nat nat | DegenerateImage | AttributeError bytes image_error
  | UnexpectedXMLFlag u32 | ImagePanic

record imageReader =
  idata :: bytes
  ipos :: nat

type_synonym 'a image_op = "imageReader \<Rightarrow> image_error + ('a \<times> imageReader)"

text \<open>Slicing and indexing, which panic out of range.\<close>

definition img_slice :: "bytes \<Rightarrow> nat \<Rightarrow> nat \<Rightarrow> image_error + bytes" where
  "img_slice b i j = (if i \<le> j \<and> j \<le> length b then Inr (take (j - i) (drop i b)) else Inl ImagePanic)"

definition img_index :: "bytes \<Rightarrow> nat \<Rightarrow> image_error + u8" where
  "img_index b i = (if i < length b then Inr (b ! i) else Inl ImagePanic)"

definition img_need :: "nat \<Rightarrow> imageReader \<Rightarrow> image_error + unit" where
  "img_need n r = (if ipos r + n > length (idata r) then Inl (TruncatedImage n (ipos r) (length (idata r))) else Inr ())"

definition read_u8 :: "u8 image_op" where
  "read_u8 r = andThen (img_need 1 r) (\<lambda>_. andThen (img_index (idata r) (ipos r)) (\<lambda>v. Inr (v, r\<lparr>ipos := ipos r + 1\<rparr>)))"

definition read_u32 :: "u32 image_op" where
  "read_u32 r = andThen (img_need 4 r) (\<lambda>_. andThen (img_slice (idata r) (ipos r) (ipos r + 4)) (\<lambda>b.
     Inr (of_be b, r\<lparr>ipos := ipos r + 4\<rparr>)))"

definition read_raw :: "nat \<Rightarrow> bytes image_op" where
  "read_raw n r = andThen (img_need n r) (\<lambda>_. andThen (img_slice (idata r) (ipos r) (ipos r + n)) (\<lambda>b.
     Inr (b, r\<lparr>ipos := ipos r + n\<rparr>)))"

definition seqI :: "'a image_op \<Rightarrow> ('a \<Rightarrow> 'b image_op) \<Rightarrow> 'b image_op" where
  "seqI m f r = andThen (m r) (\<lambda>(x, r). f x r)"

definition retI :: "'a \<Rightarrow> 'a image_op" where
  "retI x r = Inr (x, r)"

definition failI :: "image_error \<Rightarrow> 'a image_op" where
  "failI e r = Inl e"

definition read_length :: "nat image_op" where
  "read_length = seqI read_u8 (\<lambda>b.
     if b = LongLengthIndicator then seqI read_u32 (\<lambda>v. retI (unat v)) else retI (unat b))"

definition bytesWithLength :: "bytes option image_op" where
  "bytesWithLength = seqI read_u8 (\<lambda>b.
     if b = 0 \<or> b = NullLengthIndicator then retI None
     else seqI (if b = LongLengthIndicator then seqI read_u32 (\<lambda>v. retI (unat v)) else retI (unat b)) (\<lambda>n.
       seqI (read_raw n) (\<lambda>v. retI (Some v))))"

definition image_header :: "unit image_op" where
  "image_header = seqI read_u8 (\<lambda>flags. seqI read_u8 (\<lambda>_. seqI read_length (\<lambda>_.
     if flags AND objIsDegenerate \<noteq> 0 then failI DegenerateImage
     else if flags AND objNoPrefixSeg \<noteq> 0 then retI ()
     else seqI read_length (\<lambda>n. seqI (read_raw n) (\<lambda>_. retI ())))))"

definition null_value :: "AttrMeta \<Rightarrow> ObjValue" where
  "null_value m = ObjValue KindNull (Some m) None [] [] [] []"

definition raw_value :: "ValueKind \<Rightarrow> AttrMeta \<Rightarrow> bytes \<Rightarrow> ObjValue" where
  "raw_value k m b = ObjValue k (Some m) None b [] [] []"

definition with_meta :: "AttrMeta \<Rightarrow> ObjValue \<Rightarrow> ObjValue" where
  "with_meta m v = (case v of ObjValue k _ t b fs es is \<Rightarrow> ObjValue k (Some m) t b fs es is)"

definition decodeXMLImage :: "AttrMeta \<Rightarrow> bytes \<Rightarrow> image_error + ObjValue" where
  "decodeXMLImage m img =
     andThen (seqI image_header (\<lambda>_. seqI read_u8 (\<lambda>_. seqI read_u32 (\<lambda>flag.
       if flag AND xmlTypeSkipNext4 \<noteq> 0 then seqI (read_raw 4) (\<lambda>_. retI flag) else retI flag))) \<lparr>idata = img, ipos = 0\<rparr>)
     (\<lambda>(flag, r). andThen (img_slice (idata r) (ipos r) (length (idata r))) (\<lambda>rest.
       if flag AND xmlTypeString \<noteq> 0 then Inr (raw_value KindXMLString m rest)
       else if flag AND xmlTypeLOB \<noteq> 0 then
         Inr (raw_value KindLOB (AttrMeta (AttrName m) TypeClob CSFormImplicit 0 0 0 None) rest)
       else Inl (UnexpectedXMLFlag flag)))"

subsection \<open>Bodies\<close>

fun decode_elements :: "bool \<Rightarrow> ObjValue image_op \<Rightarrow> nat \<Rightarrow> (ObjValue list \<times> int list) image_op" where
  "decode_elements indexed f 0 = retI ([], [])"
| "decode_elements indexed f (Suc n) =
     seqI (if indexed then seqI read_u32 (\<lambda>i. retI [sint i]) else retI []) (\<lambda>i.
     seqI f (\<lambda>e. seqI (decode_elements indexed f n) (\<lambda>(es, is). retI (e # es, i @ is))))"

definition in_attribute :: "bytes \<Rightarrow> ObjValue image_op \<Rightarrow> ObjValue image_op" where
  "in_attribute name f r = (case f r of Inl e \<Rightarrow> Inl (AttributeError name e) | Inr x \<Rightarrow> Inr x)"

fun decode_attrs :: "(bytes \<times> ObjValue image_op) list \<Rightarrow> ObjValue list image_op" where
  "decode_attrs [] = retI []"
| "decode_attrs ((name, f) # fs) = seqI (in_attribute name f) (\<lambda>v. seqI (decode_attrs fs) (\<lambda>vs. retI (v # vs)))"

text \<open>The byte before the value of an embedded object: whether it is null; the position moves back if not.\<close>

definition read_null :: "bool \<Rightarrow> bool image_op" where
  "read_null isColl = seqI read_u8 (\<lambda>b r.
     if b = objAtomicNull \<or> (isColl \<and> b = NullLengthIndicator) then Inr (True, r) else Inr (False, r\<lparr>ipos := ipos r - 1\<rparr>))"

definition on_image :: "ObjValue image_op \<Rightarrow> bytes \<Rightarrow> image_error + ObjValue" where
  "on_image body img = andThen (seqI image_header (\<lambda>_. body) \<lparr>idata = img, ipos = 0\<rparr>) (\<lambda>(v, _). Inr v)"

definition liftI :: "image_error + 'a \<Rightarrow> 'a image_op" where
  "liftI x r = andThen x (\<lambda>v. Inr (v, r))"

fun decodeBody :: "ObjectType \<Rightarrow> ObjValue image_op"
and decodeValue :: "AttrMeta \<Rightarrow> bool \<Rightarrow> ObjValue image_op" where
  "decodeBody (ObjectType sch nm coll ck mx el attrs xml) =
     (let t = ObjectType sch nm coll ck mx el attrs xml in
      if coll then
        seqI read_u8 (\<lambda>_. seqI read_length (\<lambda>n.
        seqI (case el of None \<Rightarrow> decode_elements (ck = CollIndexTable) (failI ImagePanic) n
              | Some e \<Rightarrow> decode_elements (ck = CollIndexTable) (decodeValue e True) n) (\<lambda>(es, is).
        retI (ObjValue KindCollection None (Some t) [] [] es is))))
      else
        seqI (decode_attrs (map (\<lambda>a. (AttrName a, decodeValue a False)) attrs)) (\<lambda>vs.
        retI (ObjValue KindObject None (Some t) [] vs [] [])))"
| "decodeValue (AttrMeta nm ty cs pr sc mx ot) parentIsCollection =
     (let m = AttrMeta nm ty cs pr sc mx ot in
      if ty = TypeClob \<or> ty = TypeBlob \<or> ty = TypeBfile then
        seqI bytesWithLength (\<lambda>loc. case loc of None \<Rightarrow> retI (null_value m) | Some l \<Rightarrow> retI (raw_value KindLOB m l))
      else if ty = TypeObject then
        (case ot of
           None \<Rightarrow> seqI bytesWithLength (\<lambda>x. case x of None \<Rightarrow> retI (null_value m) | Some x \<Rightarrow> liftI (decodeXMLImage m x))
         | Some t \<Rightarrow>
           if IsXMLType t then
             seqI bytesWithLength (\<lambda>x. case x of None \<Rightarrow> retI (null_value m) | Some x \<Rightarrow> liftI (decodeXMLImage m x))
           else let isColl = IsCollection t \<or> parentIsCollection in
             seqI (read_null isColl) (\<lambda>null.
               if null then retI (null_value m)
               else if isColl then
                 seqI bytesWithLength (\<lambda>packed. case packed of None \<Rightarrow> retI (null_value m)
                   | Some p \<Rightarrow> seqI (liftI (on_image (decodeBody t) p)) (\<lambda>v. retI (with_meta m v)))
               else seqI (decodeBody t) (\<lambda>v. retI (with_meta m v))))
      else seqI bytesWithLength (\<lambda>raw. case raw of None \<Rightarrow> retI (null_value m) | Some b \<Rightarrow> retI (raw_value KindScalar m b)))"

declare decodeBody.simps [simp del] decodeValue.simps [simp del]

definition DecodeObjectImage :: "ObjectType \<Rightarrow> bytes \<Rightarrow> image_error + ObjValue" where
  "DecodeObjectImage t img = on_image (decodeBody t) img"

definition DecodeXMLTypeImage :: "bytes \<Rightarrow> image_error + ObjValue" where
  "DecodeXMLTypeImage img = decodeXMLImage (AttrMeta [] TypeObject 0 0 0 0 None) img"


subsection \<open>Every access is in bounds and every value has its type\<close>

text \<open>
  \<open>good P f\<close>: from a position inside the image, \<open>f\<close> fails without a panic, or ends at a position inside
  it that is not before the first, with a value that satisfies \<open>P\<close>.
\<close>

fun panics :: "image_error \<Rightarrow> bool" where
  "panics ImagePanic = True"
| "panics (AttributeError _ e) = panics e"
| "panics _ = False"

definition inside :: "imageReader \<Rightarrow> bool" where
  "inside r \<longleftrightarrow> ipos r \<le> length (idata r)"

definition good :: "('a \<Rightarrow> bool) \<Rightarrow> 'a image_op \<Rightarrow> bool" where
  "good P f \<longleftrightarrow> (\<forall>r. inside r \<longrightarrow>
     (case f r of Inl e \<Rightarrow> \<not> panics e
      | Inr (x, r') \<Rightarrow> P x \<and> idata r' = idata r \<and> ipos r \<le> ipos r' \<and> inside r'))"

named_theorems good_rules \<open>operations that stay in the image\<close>

lemma goodD:
  assumes "good P f" "inside r"
  shows "f r = Inl e \<Longrightarrow> \<not> panics e"
    and "f r = Inr (x, r') \<Longrightarrow> P x \<and> idata r' = idata r \<and> ipos r \<le> ipos r' \<and> inside r'"
  using assms(1) [unfolded good_def, rule_format, OF assms(2)] by simp_all

lemma goodI:
  assumes "\<And>r e. inside r \<Longrightarrow> f r = Inl e \<Longrightarrow> \<not> panics e"
    and "\<And>r x r'. inside r \<Longrightarrow> f r = Inr (x, r') \<Longrightarrow> P x \<and> idata r' = idata r \<and> ipos r \<le> ipos r' \<and> inside r'"
  shows "good P f"
  unfolding good_def
proof (intro allI impI)
  fix r assume "inside r"
  then show "case f r of Inl e \<Rightarrow> \<not> panics e | Inr (x, r') \<Rightarrow> P x \<and> idata r' = idata r \<and> ipos r \<le> ipos r' \<and> inside r'"
    using assms(1) [of r] assms(2) [of r] by (cases "f r") auto
qed

lemma good_seq:
  assumes "good P f" "\<And>x. P x \<Longrightarrow> good Q (g x)"
  shows "good Q (seqI f g)"
  unfolding good_def
proof (intro allI impI)
  fix r assume i: "inside r"
  show "case seqI f g r of Inl e \<Rightarrow> \<not> panics e
      | Inr (x, r') \<Rightarrow> Q x \<and> idata r' = idata r \<and> ipos r \<le> ipos r' \<and> inside r'"
  proof (cases "f r")
    case (Inl e)
    then show ?thesis using goodD(1) [OF assms(1) i] by (simp add: seqI_def)
  next
    case (Inr y)
    obtain x r1 where y: "y = (x, r1)" by (cases y)
    have 1: "P x \<and> idata r1 = idata r \<and> ipos r \<le> ipos r1 \<and> inside r1" using goodD(2) [OF assms(1) i] Inr y by blast
    have 2: "good Q (g x)" using assms(2) 1 by blast
    then show ?thesis using Inr y 1 goodD [OF 2, of r1]
      by (cases "g x r1") (auto simp: seqI_def)
  qed
qed

lemma good_ret [good_rules]: "P x \<Longrightarrow> good P (retI x)"
  by (simp add: good_def retI_def)

lemma good_fail [good_rules]: "\<not> panics e \<Longrightarrow> good P (failI e)"
  by (simp add: good_def failI_def)

lemma good_if [good_rules]: "(b \<Longrightarrow> good P f) \<Longrightarrow> (\<not> b \<Longrightarrow> good P g) \<Longrightarrow> good P (if b then f else g)"
  by simp

lemma good_option [good_rules]:
  "(x = None \<Longrightarrow> good P f) \<Longrightarrow> (\<And>y. x = Some y \<Longrightarrow> good P (g y)) \<Longrightarrow> good P (case x of None \<Rightarrow> f | Some y \<Rightarrow> g y)"
  by (cases x) auto

lemma good_reads [good_rules]:
  "good (\<lambda>_. True) read_u8" "good (\<lambda>_. True) read_u32" "good (\<lambda>_. True) (read_raw n)"
  by (auto simp: good_def read_u8_def read_u32_def read_raw_def img_need_def img_index_def img_slice_def inside_def)

lemma good_lengths [good_rules]:
  "good (\<lambda>_. True) read_length" "good (\<lambda>_. True) bytesWithLength" "good (\<lambda>_. True) image_header"
proof -
  show l: "good (\<lambda>_. True) read_length"
    unfolding read_length_def by (intro good_rules good_seq [OF good_reads(1)] good_seq [OF good_reads(2)] TrueI)
  show "good (\<lambda>_. True) bytesWithLength"
    unfolding bytesWithLength_def
    by (rule good_seq [OF good_reads(1)], rule good_if, rule good_ret, rule TrueI, rule good_seq [where P = "\<lambda>_. True"])
      (intro good_rules good_seq [OF good_reads(2)] good_seq [OF good_reads(3)] TrueI)+
  show "good (\<lambda>_. True) image_header"
    unfolding image_header_def
    by (intro good_rules good_seq [OF good_reads(1)] good_seq [OF good_reads(3)] good_seq [OF l] TrueI) simp
qed

lemma good_lift: "result_post (\<lambda>e. \<not> panics e) P x \<Longrightarrow> good P (liftI x)"
  by (cases x) (auto simp: good_def liftI_def)

lemma good_on_image: "good P body \<Longrightarrow> result_post (\<lambda>e. \<not> panics e) P (on_image body b)"
proof -
  assume "good P body"
  then have g: "good P (seqI image_header (\<lambda>_. body))" by (intro good_seq [OF good_lengths(3)])
  show ?thesis
    using goodD [OF g, of "\<lparr>idata = b, ipos = 0\<rparr>"]
    by (cases "seqI image_header (\<lambda>_. body) \<lparr>idata = b, ipos = 0\<rparr>") (auto simp: on_image_def inside_def)
qed

lemma good_read_null [good_rules]: "good (\<lambda>_. True) (read_null c)"
  by (auto simp: good_def read_null_def seqI_def read_u8_def img_need_def img_index_def inside_def)

text \<open>The types a connection hands to the decoder: a collection has its element type.\<close>

fun type_ok :: "ObjectType \<Rightarrow> bool" and attr_ok :: "AttrMeta \<Rightarrow> bool" where
  "type_ok (ObjectType sch nm coll ck mx el attrs xml) \<longleftrightarrow>
     (if coll then case el of None \<Rightarrow> False | Some e \<Rightarrow> attr_ok e else \<forall>a \<in> set attrs. attr_ok a)"
| "attr_ok (AttrMeta nm ty cs pr sc mx ot) \<longleftrightarrow> (case ot of None \<Rightarrow> True | Some t \<Rightarrow> IsXMLType t \<or> type_ok t)"

text \<open>The values of a type.\<close>

inductive typed_body :: "ObjectType \<Rightarrow> ObjValue \<Rightarrow> bool" and typed_value :: "AttrMeta \<Rightarrow> ObjValue \<Rightarrow> bool" where
  typed_collection: "IsCollection t \<Longrightarrow> Element t = Some e \<Longrightarrow> (\<forall>v \<in> set es. typed_value e v) \<Longrightarrow>
    length is = (if CollKind t = CollIndexTable then length es else 0) \<Longrightarrow>
    typed_body t (ObjValue KindCollection mt (Some t) [] [] es is)"
| typed_object: "\<not> IsCollection t \<Longrightarrow> list_all2 typed_value (Attrs t) vs \<Longrightarrow>
    typed_body t (ObjValue KindObject mt (Some t) [] vs [] [])"
| typed_null: "typed_value m (null_value m)"
| typed_scalar: "AttrType m \<notin> {TypeClob, TypeBlob, TypeBfile, TypeObject} \<Longrightarrow> typed_value m (raw_value KindScalar m b)"
| typed_lob: "AttrType m \<in> {TypeClob, TypeBlob, TypeBfile} \<Longrightarrow> typed_value m (raw_value KindLOB m b)"
| typed_xml: "AttrType m = TypeObject \<Longrightarrow> typed_value m (raw_value KindXMLString m b)"
| typed_xml_lob: "AttrType m = TypeObject \<Longrightarrow>
    typed_value m (raw_value KindLOB (AttrMeta (AttrName m) TypeClob CSFormImplicit 0 0 0 None) b)"
| typed_embedded: "AttrType m = TypeObject \<Longrightarrow> ObjType m = Some t \<Longrightarrow> typed_body t v \<Longrightarrow> Meta v = Some m \<Longrightarrow> typed_value m v"

lemma typed_with_meta: "typed_body t v \<Longrightarrow> typed_body t (with_meta m v) \<and> Meta (with_meta m v) = Some m"
  by (cases rule: typed_body.cases) (auto simp: with_meta_def intro: typed_collection typed_object)

lemma good_elements:
  assumes "good P f"
  shows "good (\<lambda>(es, is). length es = n \<and> (\<forall>e \<in> set es. P e) \<and> length is = (if indexed then n else 0))
    (decode_elements indexed f n)"
proof (induction n)
  case (Suc n)
  have i: "good (\<lambda>i. length i = (if indexed then 1 else 0)) (if indexed then seqI read_u32 (\<lambda>i. retI [sint i]) else retI [])"
    by (intro good_rules good_seq [OF good_reads(2)]) auto
  show ?case unfolding decode_elements.simps
    by (rule good_seq [OF i], rule good_seq [OF assms], rule good_seq [OF Suc], clarify, rule good_ret) auto
qed (simp add: good_ret)

lemma good_in_attribute: "good P f \<Longrightarrow> good P (in_attribute n f)"
  by (rule goodI) (auto simp: in_attribute_def dest: goodD split: sum.splits)

lemma good_attrs:
  assumes "\<And>a. a \<in> set as \<Longrightarrow> good (P a) (f a)"
  shows "good (list_all2 P as) (decode_attrs (map (\<lambda>a. (g a, f a)) as))"
  using assms
proof (induction as)
  case (Cons a as)
  have "good (P a) (in_attribute (g a) (f a))" "good (list_all2 P as) (decode_attrs (map (\<lambda>a. (g a, f a)) as))"
    using Cons good_in_attribute by auto
  then show ?case unfolding list.map decode_attrs.simps
    by (auto elim!: good_seq intro!: good_ret)
qed (simp add: good_ret)

lemma good_xml:
  assumes "AttrType m = TypeObject"
  shows "result_post (\<lambda>e. \<not> panics e) (typed_value m) (decodeXMLImage m b)"
proof -
  let ?f = "seqI image_header (\<lambda>_. seqI read_u8 (\<lambda>_. seqI read_u32 (\<lambda>flag.
       if flag AND xmlTypeSkipNext4 \<noteq> 0 then seqI (read_raw 4) (\<lambda>_. retI flag) else retI flag)))"
  have g: "good (\<lambda>_. True) ?f"
    by (intro good_rules good_seq [OF good_lengths(3)] good_seq [OF good_reads(1)] good_seq [OF good_reads(2)]
        good_seq [OF good_reads(3)] TrueI)
  show ?thesis
    using goodD [OF g, of "\<lparr>idata = b, ipos = 0\<rparr>"] assms
    by (cases "?f \<lparr>idata = b, ipos = 0\<rparr>")
      (auto simp: decodeXMLImage_def inside_def img_slice_def Let_def intro: typed_xml typed_xml_lob)
qed

lemma good_raw_or_null:
  assumes "\<And>b. P (raw_value k m b)" "P (null_value m)"
  shows "good P (seqI bytesWithLength (\<lambda>x. case x of None \<Rightarrow> retI (null_value m) | Some b \<Rightarrow> retI (raw_value k m b)))"
  by (rule good_seq [OF good_lengths(2)]) (intro good_rules assms)

lemma good_xml_value:
  assumes "AttrType m = TypeObject"
  shows "good (typed_value m) (seqI bytesWithLength (\<lambda>x. case x of None \<Rightarrow> retI (null_value m) | Some x \<Rightarrow> liftI (decodeXMLImage m x)))"
  by (rule good_seq [OF good_lengths(2)]) (intro good_rules good_lift good_xml assms typed_null)

lemma decode_good:
  shows "type_ok t \<Longrightarrow> good (typed_body t) (decodeBody t)"
    and "attr_ok m \<Longrightarrow> good (typed_value m) (decodeValue m pc)"
proof (induction t and m pc rule: decodeBody_decodeValue.induct)
  case (1 sch nm coll ck mx el attrs xml)
  let ?t = "ObjectType sch nm coll ck mx el attrs xml"
  show ?case
  proof (cases coll)
    case True
    then obtain e where e: "el = Some e" "attr_ok e" using 1(3) by (auto split: option.splits)
    then have v: "good (typed_value e) (decodeValue e True)" using 1(1) True by simp
    show ?thesis
      unfolding decodeBody.simps Let_def if_P [OF True] e option.case
      by (rule good_seq [OF good_reads(1)], rule good_seq [OF good_lengths(1)], rule good_seq [OF good_elements [OF v]])
        (use True e in \<open>auto intro!: good_ret typed_collection\<close>)
  next
    case False
    have v: "\<And>a. a \<in> set attrs \<Longrightarrow> good (typed_value a) (decodeValue a False)" using 1(2, 3) False by simp
    show ?thesis
      unfolding decodeBody.simps Let_def if_not_P [OF False]
      by (rule good_seq [OF good_attrs [of attrs typed_value, OF v]]) (use False in \<open>auto intro!: good_ret typed_object\<close>)
  qed
next
  case (2 nm ty cs pr sc mx ot pc)
  let ?m = "AttrMeta nm ty cs pr sc mx ot"
  show ?case
  proof (cases "ty = TypeClob \<or> ty = TypeBlob \<or> ty = TypeBfile")
    case True
    then show ?thesis
      unfolding decodeValue.simps Let_def if_P [OF True]
      by (intro good_raw_or_null typed_null typed_lob) auto
  next
    case lob: False
    show ?thesis
    proof (cases "ty = TypeObject")
      case True
      show ?thesis
      proof (cases "ot = None \<or> IsXMLType (the ot)")
        case True
        then show ?thesis
          using good_xml_value [of ?m] lob \<open>ty = TypeObject\<close> unfolding decodeValue.simps Let_def
          by (auto split: option.split)
      next
        case False
        then obtain t where t: "ot = Some t" "\<not> IsXMLType t" by auto
        then have tok: "type_ok t" using 2(3) by simp
        have b: "good (typed_body t) (decodeBody t)"
          using 2(1, 2) lob True t tok by (cases "IsCollection t \<or> pc") auto
        have m: "typed_body t v \<Longrightarrow> typed_value ?m (with_meta ?m v)" for v
          using typed_with_meta [of t v ?m] True t by (auto intro: typed_embedded)
        show ?thesis
          unfolding decodeValue.simps Let_def if_not_P [OF lob] if_P [OF True] t option.case if_not_P [OF t(2)]
          by (rule good_seq, rule good_read_null, rule good_if, rule good_ret, rule typed_null, rule good_if,
              rule good_seq, rule good_lengths(2), rule good_option, rule good_ret, rule typed_null,
              rule good_seq, rule good_lift, rule good_on_image, rule b, rule good_ret, erule m [unfolded t(1)],
              rule good_seq, rule b, rule good_ret, erule m [unfolded t(1)])
      qed
    next
      case False
      then show ?thesis
        unfolding decodeValue.simps Let_def if_not_P [OF lob] if_not_P [OF False]
        by (intro good_raw_or_null typed_null typed_scalar) (use lob in auto)
    qed
  qed
qed

text \<open>
  Property C22. Whatever the bytes of an object image, the decoder terminates without an access outside
  them, and what it returns is a value of the type: its attributes are those of the type, in order, its
  elements have the element type, and an associative array has an index for every element.
\<close>

theorem DecodeObjectImage_typed:
  assumes "type_ok t"
  shows "case DecodeObjectImage t img of Inl e \<Rightarrow> \<not> panics e | Inr v \<Rightarrow> typed_body t v"
  using good_on_image [OF decode_good(1) [OF assms], of img]
  by (simp add: DecodeObjectImage_def result_post_def)

theorem DecodeObjectImage_typed_witness:
  "case DecodeObjectImage (ObjectType [] [] False CollNone 0 None [AttrMeta [] TypeNumber 0 0 0 22 None] False) [132, 1, 4, 9] of
     Inl e \<Rightarrow> \<not> panics e | Inr v \<Rightarrow> typed_body (ObjectType [] [] False CollNone 0 None [AttrMeta [] TypeNumber 0 0 0 22 None] False) v"
  by (rule DecodeObjectImage_typed) simp

end
