(* ===== verification/ObjLayout.thy ===== *)
theory ObjLayout
  imports ObjImage
begin

text \<open>
  The format of object images as a relation between a type, a value and bytes, and the lemma that the
  decoder reads exactly the value off them. \<open>takes f b x\<close>: at \<open>b\<close>, wherever it stands in an image, \<open>f\<close>
  returns \<open>x\<close> and ends behind it.
\<close>

definition takes :: "'a image_op \<Rightarrow> bytes \<Rightarrow> 'a \<Rightarrow> bool" where
  "takes f b x \<longleftrightarrow> (\<forall>pre rest. f \<lparr>idata = pre @ b @ rest, ipos = length pre\<rparr> =
     Inr (x, \<lparr>idata = pre @ b @ rest, ipos = length pre + length b\<rparr>))"

named_theorems takes_rules \<open>what an operation takes off the image\<close>

lemma takesD: "takes f b x \<Longrightarrow> f \<lparr>idata = pre @ b @ rest, ipos = length pre\<rparr> =
    Inr (x, \<lparr>idata = pre @ b @ rest, ipos = length pre + length b\<rparr>)"
  by (simp add: takes_def)

lemma takes_seq: "takes f b x \<Longrightarrow> takes (g x) b' y \<Longrightarrow> takes (seqI f g) (b @ b') y"
  unfolding takes_def seqI_def
proof (intro allI)
  fix pre rest
  assume a: "\<forall>pre rest. f \<lparr>idata = pre @ b @ rest, ipos = length pre\<rparr> =
      Inr (x, \<lparr>idata = pre @ b @ rest, ipos = length pre + length b\<rparr>)"
    "\<forall>pre rest. g x \<lparr>idata = pre @ b' @ rest, ipos = length pre\<rparr> =
      Inr (y, \<lparr>idata = pre @ b' @ rest, ipos = length pre + length b'\<rparr>)"
  from a(1) [rule_format, of pre "b' @ rest"] a(2) [rule_format, of "pre @ b" rest]
  show "andThen (f \<lparr>idata = pre @ (b @ b') @ rest, ipos = length pre\<rparr>) (\<lambda>(x, r). g x r) =
      Inr (y, \<lparr>idata = pre @ (b @ b') @ rest, ipos = length pre + length (b @ b')\<rparr>)"
    by (simp add: add.assoc)
qed

lemma takes_last: "takes f b x \<Longrightarrow> takes (g x) [] y \<Longrightarrow> takes (seqI f g) b y"
  using takes_seq [of f b x g "[]" y] by simp

lemma takes_ret: "takes (retI x) [] x"
  by (simp add: takes_def retI_def)

lemma takes_lift: "takes (liftI (Inr x)) [] x"
  by (simp add: takes_def liftI_def)

lemma takes_u8: "takes read_u8 [v] v"
  by (simp add: takes_def read_u8_def img_need_def img_index_def nth_append)

lemma takes_u32: "takes read_u32 (be32 v) v"
  by (simp add: takes_def read_u32_def img_need_def img_slice_def)

lemma takes_raw: "takes (read_raw (length b)) b b"
  by (simp add: takes_def read_raw_def img_need_def img_slice_def)

text \<open>A length and as many bytes.\<close>

lemma takes_sized:
  assumes "takes f b (length p)"
  shows "takes (seqI f (\<lambda>n. seqI (read_raw n) (\<lambda>v. retI (k v)))) (b @ p) (k p)"
  by (rule takes_seq, rule assms, rule takes_last, rule takes_raw, rule takes_ret)

subsection \<open>Lengths\<close>

definition image_length :: "nat \<Rightarrow> bytes" where
  "image_length n = (if n \<le> 245 then [word_of_nat n] else LongLengthIndicator # be32 (word_of_nat n))"

lemma short_image_length:
  assumes "n \<le> 245"
  shows "unat (word_of_nat n :: u8) = n" "(word_of_nat n :: u8) \<noteq> LongLengthIndicator"
    "(word_of_nat n :: u8) \<noteq> NullLengthIndicator" "(word_of_nat n :: u8) \<noteq> objAtomicNull"
    "0 < n \<Longrightarrow> (word_of_nat n :: u8) \<noteq> 0"
proof -
  show u: "unat (word_of_nat n :: u8) = n" using assms by (simp add: unat_of_nat)
  have "w = word_of_nat n \<Longrightarrow> unat w = n" for w :: u8 using u by simp
  from this [of 254] this [of 255] this [of 253] this [of 0]
  show "(word_of_nat n :: u8) \<noteq> LongLengthIndicator" "(word_of_nat n :: u8) \<noteq> NullLengthIndicator"
    "(word_of_nat n :: u8) \<noteq> objAtomicNull" "0 < n \<Longrightarrow> (word_of_nat n :: u8) \<noteq> 0"
    using assms by (auto simp: LongLengthIndicator_def NullLengthIndicator_def objAtomicNull_def)
qed

lemma takes_long_length: "n < 2 ^ 32 \<Longrightarrow> takes (seqI read_u32 (\<lambda>v. retI (unat v))) (be32 (word_of_nat n)) n"
  by (rule takes_last, rule takes_u32) (simp add: unat_of_nat takes_def retI_def)

lemma takes_length: "n < 2 ^ 32 \<Longrightarrow> takes read_length (image_length n) n"
proof -
  assume n: "n < 2 ^ 32"
  show ?thesis
  proof (cases "n \<le> 245")
    case True
    then show ?thesis unfolding read_length_def image_length_def
      by (simp add: takes_last [OF takes_u8] short_image_length takes_ret)
  next
    case False
    have "takes read_length ([LongLengthIndicator] @ be32 (word_of_nat n)) n"
      unfolding read_length_def by (rule takes_seq, rule takes_u8) (simp add: takes_long_length [OF n])
    then show ?thesis using False by (simp add: image_length_def)
  qed
qed

lemma takes_bytes: "b \<noteq> [] \<Longrightarrow> length b < 2 ^ 32 \<Longrightarrow> takes bytesWithLength (image_length (length b) @ b) (Some b)"
proof -
  assume b: "b \<noteq> []" "length b < 2 ^ 32"
  show ?thesis
  proof (cases "length b \<le> 245")
    case True
    show ?thesis unfolding bytesWithLength_def image_length_def if_P [OF True]
    proof (rule takes_seq, rule takes_u8)
      have u: "unat (word_of_nat (length b) :: u8) = length b" by (rule short_image_length [OF True])
      have "takes (seqI (retI (unat (word_of_nat (length b) :: u8))) (\<lambda>n. seqI (read_raw n) (\<lambda>v. retI (Some v)))) ([] @ b) (Some b)"
        unfolding u by (rule takes_sized, rule takes_ret)
      then show "takes (if word_of_nat (length b) = (0::u8) \<or> word_of_nat (length b) = NullLengthIndicator then retI None
         else seqI (if word_of_nat (length b) = LongLengthIndicator then seqI read_u32 (\<lambda>v. retI (unat v))
             else retI (unat (word_of_nat (length b) :: u8))) (\<lambda>n. seqI (read_raw n) (\<lambda>v. retI (Some v)))) b (Some b)"
        using b short_image_length [OF True] by simp
    qed
  next
    case False
    have l: "LongLengthIndicator \<noteq> 0" "LongLengthIndicator \<noteq> NullLengthIndicator"
      by (simp_all add: LongLengthIndicator_def NullLengthIndicator_def)
    have "takes bytesWithLength ([LongLengthIndicator] @ be32 (word_of_nat (length b)) @ b) (Some b)"
      unfolding bytesWithLength_def
      by (rule takes_seq, rule takes_u8) (simp add: l, rule takes_sized, rule takes_long_length, rule b)
    then show ?thesis using False by (simp add: image_length_def)
  qed
qed

lemma takes_null_bytes: "v = 0 \<or> v = NullLengthIndicator \<Longrightarrow> takes bytesWithLength [v] None"
  unfolding bytesWithLength_def by (rule takes_last, rule takes_u8) (auto intro: takes_ret)


subsection \<open>The format\<close>

text \<open>A header: flags that do not exclude the image, a version, a length, and the prefix segment if there is one.\<close>

inductive header_layout :: "bytes \<Rightarrow> bool" where
  header_plain: "flags AND objIsDegenerate = 0 \<Longrightarrow> flags AND objNoPrefixSeg \<noteq> 0 \<Longrightarrow> n < 2 ^ 32 \<Longrightarrow>
    header_layout ([flags, version] @ image_length n)"
| header_prefix: "flags AND objIsDegenerate = 0 \<Longrightarrow> flags AND objNoPrefixSeg = 0 \<Longrightarrow> n < 2 ^ 32 \<Longrightarrow> length p < 2 ^ 32 \<Longrightarrow>
    header_layout ([flags, version] @ image_length n @ image_length (length p) @ p)"

definition is_lob :: "AttrMeta \<Rightarrow> bool" where
  "is_lob m \<longleftrightarrow> AttrType m \<in> {TypeClob, TypeBlob, TypeBfile}"

definition is_xml :: "AttrMeta \<Rightarrow> bool" where
  "is_xml m \<longleftrightarrow> AttrType m = TypeObject \<and> (case ObjType m of None \<Rightarrow> True | Some t \<Rightarrow> IsXMLType t)"

text \<open>
  The value of an attribute or element, the body of an object or collection. An embedded object stands
  as its body, whose first byte must not be the mark of a null; a collection, and every object in one,
  is an image of its own behind its length.
\<close>

inductive value_layout :: "AttrMeta \<Rightarrow> bool \<Rightarrow> ObjValue \<Rightarrow> bytes \<Rightarrow> bool"
and body_layout :: "ObjectType \<Rightarrow> ObjValue \<Rightarrow> bytes \<Rightarrow> bool"
and attrs_layout :: "AttrMeta list \<Rightarrow> ObjValue list \<Rightarrow> bytes \<Rightarrow> bool"
and elements_layout :: "bool \<Rightarrow> AttrMeta \<Rightarrow> ObjValue list \<Rightarrow> int list \<Rightarrow> bytes \<Rightarrow> bool" where
  null_layout: "AttrType m \<noteq> TypeObject \<or> is_xml m \<Longrightarrow> v \<in> {0, NullLengthIndicator} \<Longrightarrow> value_layout m pc (null_value m) [v]"
| scalar_layout: "AttrType m \<noteq> TypeObject \<Longrightarrow> b \<noteq> [] \<Longrightarrow> length b < 2 ^ 32 \<Longrightarrow>
    value_layout m pc (raw_value (if is_lob m then KindLOB else KindScalar) m b) (image_length (length b) @ b)"
| xml_layout: "is_xml m \<Longrightarrow> header_layout h \<Longrightarrow> flag AND xmlTypeSkipNext4 = 0 \<Longrightarrow> flag AND xmlTypeString \<noteq> 0 \<Longrightarrow>
    p = h @ [version] @ be32 flag @ xs \<Longrightarrow> length p < 2 ^ 32 \<Longrightarrow>
    value_layout m pc (raw_value KindXMLString m xs) (image_length (length p) @ p)"
| object_null_layout: "AttrType m = TypeObject \<Longrightarrow> \<not> is_xml m \<Longrightarrow> value_layout m pc (null_value m) [objAtomicNull]"
| embedded_layout: "AttrType m = TypeObject \<Longrightarrow> ObjType m = Some t \<Longrightarrow> \<not> IsXMLType t \<Longrightarrow> \<not> IsCollection t \<Longrightarrow>
    body_layout t v b \<Longrightarrow> b \<noteq> [] \<Longrightarrow> hd b \<noteq> objAtomicNull \<Longrightarrow> value_layout m False (with_meta m v) b"
| packed_layout: "AttrType m = TypeObject \<Longrightarrow> ObjType m = Some t \<Longrightarrow> \<not> IsXMLType t \<Longrightarrow> IsCollection t \<or> pc \<Longrightarrow>
    body_layout t v b \<Longrightarrow> header_layout h \<Longrightarrow> p = h @ b @ trail \<Longrightarrow> length p < 2 ^ 32 \<Longrightarrow>
    value_layout m pc (with_meta m v) (image_length (length p) @ p)"
| collection_layout: "IsCollection t \<Longrightarrow> Element t = Some e \<Longrightarrow> elements_layout (CollKind t = CollIndexTable) e es is b \<Longrightarrow>
    length es < 2 ^ 32 \<Longrightarrow>
    body_layout t (ObjValue KindCollection None (Some t) [] [] es is) ([flags] @ image_length (length es) @ b)"
| object_layout: "\<not> IsCollection t \<Longrightarrow> attrs_layout (Attrs t) vs b \<Longrightarrow>
    body_layout t (ObjValue KindObject None (Some t) [] vs [] []) b"
| attrs_nil: "attrs_layout [] [] []"
| attrs_cons: "value_layout a False v b \<Longrightarrow> attrs_layout as vs bs \<Longrightarrow> attrs_layout (a # as) (v # vs) (b @ bs)"
| elements_nil: "elements_layout ix e [] [] []"
| elements_plain: "value_layout e True v b \<Longrightarrow> elements_layout False e vs is bs \<Longrightarrow> elements_layout False e (v # vs) is (b @ bs)"
| elements_indexed: "value_layout e True v b \<Longrightarrow> elements_layout True e vs is bs \<Longrightarrow>
    elements_layout True e (v # vs) (sint i # is) (be32 i @ b @ bs)"

lemma header_nonempty: "header_layout h \<Longrightarrow> h \<noteq> []"
  by (auto elim: header_layout.cases)

lemma takes_header: "header_layout h \<Longrightarrow> takes image_header h ()"
proof (induction rule: header_layout.induct)
  case (header_plain flags n version)
  have "takes image_header ([flags] @ [version] @ image_length n) ()"
    unfolding image_header_def
    by (rule takes_seq, rule takes_u8, rule takes_seq, rule takes_u8, rule takes_last, rule takes_length, rule header_plain)
      (simp add: header_plain takes_ret)
  then show ?case by simp
next
  case (header_prefix flags n p version)
  have "takes image_header ([flags] @ [version] @ image_length n @ image_length (length p) @ p) ()"
    unfolding image_header_def
    by (rule takes_seq, rule takes_u8, rule takes_seq, rule takes_u8, rule takes_seq, rule takes_length, rule header_prefix)
      (simp add: header_prefix(1, 2), rule takes_sized, rule takes_length, rule header_prefix)
  then show ?case by simp
qed

lemma on_image_layout:
  assumes "header_layout h" "takes body b v"
  shows "on_image body (h @ b @ trail) = Inr v"
proof -
  have "takes (seqI image_header (\<lambda>_. body)) (h @ b) v" by (rule takes_seq, rule takes_header, rule assms, rule assms)
  from takesD [OF this, of "[]" trail] show ?thesis by (simp add: on_image_def)
qed

text \<open>What is behind an image value: null, or the bytes.\<close>

lemma takes_value:
  assumes "b \<noteq> []" "length b < 2 ^ 32" "takes (g b) [] y"
  shows "takes (seqI bytesWithLength (\<lambda>x. case x of None \<Rightarrow> f | Some b \<Rightarrow> g b)) (image_length (length b) @ b) y"
  by (rule takes_last, rule takes_bytes, rule assms, rule assms) (simp add: assms(3))

lemma takes_no_value:
  assumes "v \<in> {0, NullLengthIndicator}" "takes f [] y"
  shows "takes (seqI bytesWithLength (\<lambda>x. case x of None \<Rightarrow> f | Some b \<Rightarrow> g b)) [v] y"
  by (rule takes_last, rule takes_null_bytes) (use assms in auto)

text \<open>The look at the first byte of a value that is not null takes nothing.\<close>

lemma takes_peek:
  assumes "takes g b y" "b \<noteq> []" "hd b \<noteq> objAtomicNull" "c \<Longrightarrow> hd b \<noteq> NullLengthIndicator"
  shows "takes (seqI (read_null c) (\<lambda>null. if null then f else g)) b y"
proof -
  have "read_null c \<lparr>idata = pre @ b @ rest, ipos = length pre\<rparr> = Inr (False, \<lparr>idata = pre @ b @ rest, ipos = length pre\<rparr>)" for pre rest
    using assms(2-4) by (cases b) (auto simp: read_null_def seqI_def read_u8_def img_need_def img_index_def nth_append)
  then show ?thesis using assms(1) by (simp add: takes_def seqI_def)
qed

lemma takes_null_peek: "takes f [] y \<Longrightarrow> takes (seqI (read_null c) (\<lambda>null. if null then f else g)) [objAtomicNull] y"
proof (rule takes_last)
  show "takes (read_null c) [objAtomicNull] True"
    by (simp add: takes_def read_null_def seqI_def read_u8_def img_need_def img_index_def nth_append)
qed simp

lemma image_length_hd:
  "0 < n \<Longrightarrow> image_length n \<noteq> []" "hd (image_length n @ b) \<noteq> objAtomicNull" "hd (image_length n @ b) \<noteq> NullLengthIndicator"
  by (simp_all add: image_length_def short_image_length) (simp_all add: LongLengthIndicator_def objAtomicNull_def NullLengthIndicator_def)

lemma decodeXMLImage_layout:
  assumes "header_layout h" "flag AND xmlTypeSkipNext4 = 0" "flag AND xmlTypeString \<noteq> 0"
  shows "decodeXMLImage m (h @ [version] @ be32 flag @ xs) = Inr (raw_value KindXMLString m xs)"
proof -
  have "takes (seqI image_header (\<lambda>_. seqI read_u8 (\<lambda>_. seqI read_u32 (\<lambda>flag.
       if flag AND xmlTypeSkipNext4 \<noteq> 0 then seqI (read_raw 4) (\<lambda>_. retI flag) else retI flag)))) (h @ [version] @ be32 flag) flag"
    by (rule takes_seq, rule takes_header, rule assms, rule takes_seq, rule takes_u8, rule takes_last, rule takes_u32)
      (simp add: assms takes_ret)
  from takesD [OF this, of "[]" xs] show ?thesis
    using assms(3) by (simp add: decodeXMLImage_def img_slice_def)
qed

lemma decodeBody_eq:
  "decodeBody t =
     (if IsCollection t then
        seqI read_u8 (\<lambda>_. seqI read_length (\<lambda>n.
        seqI (case Element t of None \<Rightarrow> decode_elements (CollKind t = CollIndexTable) (failI ImagePanic) n
              | Some e \<Rightarrow> decode_elements (CollKind t = CollIndexTable) (decodeValue e True) n) (\<lambda>(es, is).
        retI (ObjValue KindCollection None (Some t) [] [] es is))))
      else
        seqI (decode_attrs (map (\<lambda>a. (AttrName a, decodeValue a False)) (Attrs t))) (\<lambda>vs.
        retI (ObjValue KindObject None (Some t) [] vs [] [])))"
  by (cases t; cases "Element t") (simp_all add: decodeBody.simps Let_def)

lemma decodeValue_lob: "is_lob m \<Longrightarrow>
    decodeValue m pc = seqI bytesWithLength (\<lambda>loc. case loc of None \<Rightarrow> retI (null_value m) | Some l \<Rightarrow> retI (raw_value KindLOB m l))"
  by (cases m) (auto simp: decodeValue.simps Let_def is_lob_def)

lemma decodeValue_xml: "is_xml m \<Longrightarrow>
    decodeValue m pc = seqI bytesWithLength (\<lambda>x. case x of None \<Rightarrow> retI (null_value m) | Some x \<Rightarrow> liftI (decodeXMLImage m x))"
  by (cases m) (auto simp: decodeValue.simps Let_def is_xml_def type_defs split: option.splits)

lemma decodeValue_scalar: "\<not> is_lob m \<Longrightarrow> AttrType m \<noteq> TypeObject \<Longrightarrow>
    decodeValue m pc = seqI bytesWithLength (\<lambda>raw. case raw of None \<Rightarrow> retI (null_value m) | Some b \<Rightarrow> retI (raw_value KindScalar m b))"
  by (cases m) (auto simp: decodeValue.simps Let_def is_lob_def)

lemma decodeValue_object: "AttrType m = TypeObject \<Longrightarrow> ObjType m = Some t \<Longrightarrow> \<not> IsXMLType t \<Longrightarrow>
    decodeValue m pc = seqI (read_null (IsCollection t \<or> pc)) (\<lambda>null.
      if null then retI (null_value m)
      else if IsCollection t \<or> pc then
        seqI bytesWithLength (\<lambda>packed. case packed of None \<Rightarrow> retI (null_value m)
          | Some p \<Rightarrow> seqI (liftI (on_image (decodeBody t) p)) (\<lambda>v. retI (with_meta m v)))
      else seqI (decodeBody t) (\<lambda>v. retI (with_meta m v)))"
  by (cases m) (auto simp: decodeValue.simps Let_def type_defs)

lemma decode_layout:
  shows "value_layout m pc v b \<Longrightarrow> takes (decodeValue m pc) b v"
    and "body_layout t w c \<Longrightarrow> takes (decodeBody t) c w"
    and "attrs_layout as vs bs \<Longrightarrow> takes (decode_attrs (map (\<lambda>a. (AttrName a, decodeValue a False)) as)) bs vs"
    and "elements_layout ix e es is ds \<Longrightarrow> takes (decode_elements ix (decodeValue e True) (length es)) ds (es, is)"
proof (induction rule: value_layout_body_layout_attrs_layout_elements_layout.inducts)
  case (null_layout m v pc)
  consider "is_xml m" | "is_lob m" "AttrType m \<noteq> TypeObject" | "\<not> is_lob m" "AttrType m \<noteq> TypeObject" using null_layout by auto
  then show ?case
    by cases (auto simp: decodeValue_xml decodeValue_lob decodeValue_scalar intro!: takes_no_value takes_ret null_layout)
next
  case (scalar_layout m b pc)
  then show ?case
    by (cases "is_lob m") (auto simp: decodeValue_lob decodeValue_scalar intro!: takes_value takes_ret)
next
  case (xml_layout m h flag p version xs pc)
  then have "p \<noteq> []" using header_nonempty by auto
  moreover have "decodeXMLImage m p = Inr (raw_value KindXMLString m xs)"
    unfolding xml_layout(5) by (rule decodeXMLImage_layout) (rule xml_layout)+
  ultimately show ?case
    unfolding decodeValue_xml [OF xml_layout(1)]
    by (intro takes_value xml_layout) (simp_all add: takes_lift)
next
  case (object_null_layout m pc)
  then obtain t where "ObjType m = Some t" "\<not> IsXMLType t" by (auto simp: is_xml_def split: option.splits)
  then show ?case
    unfolding decodeValue_object [OF object_null_layout(1) \<open>ObjType m = Some t\<close> \<open>\<not> IsXMLType t\<close>]
    by (intro takes_null_peek takes_ret)
next
  case (embedded_layout m t v b)
  show ?case
    unfolding decodeValue_object [OF embedded_layout(1-3)]
    by (rule takes_peek) (use embedded_layout in \<open>auto intro!: takes_last [OF _ takes_ret]\<close>)
next
  case (packed_layout m t pc v b h p trail)
  have "p \<noteq> []" using packed_layout header_nonempty by auto
  moreover have "on_image (decodeBody t) p = Inr v" using packed_layout on_image_layout by simp
  ultimately have "takes (if IsCollection t \<or> pc then
        seqI bytesWithLength (\<lambda>packed. case packed of None \<Rightarrow> retI (null_value m)
          | Some p \<Rightarrow> seqI (liftI (on_image (decodeBody t) p)) (\<lambda>v. retI (with_meta m v)))
      else seqI (decodeBody t) (\<lambda>v. retI (with_meta m v))) (image_length (length p) @ p) (with_meta m v)"
    unfolding if_P [OF packed_layout(4)] using packed_layout
    by (intro takes_value) (simp_all add: takes_last [OF takes_lift takes_ret])
  then show ?case
    unfolding decodeValue_object [OF packed_layout(1-3)]
    by (rule takes_peek) (use \<open>p \<noteq> []\<close> image_length_hd(1) [of "length p"] image_length_hd(2, 3) [of "length p" p] in auto)
next
  case (collection_layout t e es "is" b flags)
  show ?case
    unfolding decodeBody_eq using collection_layout
    by (simp only: if_True option.case) (rule takes_seq, rule takes_u8, rule takes_seq, rule takes_length, assumption,
      rule takes_last, assumption, simp add: takes_ret)
next
  case (object_layout t vs b)
  then show ?case unfolding decodeBody_eq by (simp only: if_False) (rule takes_last, assumption, rule takes_ret)
next
  case attrs_nil
  then show ?case by (simp add: takes_ret)
next
  case (attrs_cons a v b as vs bs)
  have "takes (in_attribute (AttrName a) (decodeValue a False)) b v"
    using attrs_cons by (simp add: takes_def in_attribute_def)
  then show ?case using attrs_cons
    by (simp only: list.map decode_attrs.simps) (rule takes_seq, assumption, rule takes_last, assumption, rule takes_ret)
next
  case (elements_nil ix e)
  then show ?case by (simp add: takes_ret)
next
  case (elements_plain e v b vs "is" bs)
  have "takes (decode_elements False (decodeValue e True) (Suc (length vs))) ([] @ b @ bs) (v # vs, [] @ is)"
    unfolding decode_elements.simps if_False
    by (rule takes_seq, rule takes_ret, rule takes_seq, rule elements_plain, rule takes_last, rule elements_plain)
      (simp add: takes_ret)
  then show ?case by simp
next
  case (elements_indexed e v b vs "is" bs i)
  have i: "takes (seqI read_u32 (\<lambda>i. retI [sint i])) (be32 i) [sint i]"
    by (rule takes_last, rule takes_u32, rule takes_ret)
  have "takes (decode_elements True (decodeValue e True) (Suc (length vs))) (be32 i @ b @ bs) (v # vs, [sint i] @ is)"
    unfolding decode_elements.simps if_True
    by (rule takes_seq, rule i, rule takes_seq, rule elements_indexed, rule takes_last, rule elements_indexed)
      (simp add: takes_ret)
  then show ?case by simp
qed

text \<open>
  Property C13. An image that lays out a value of a type, in whatever way the format allows, decodes to
  exactly that value: attributes in order, nested objects, collections and associative arrays, nulls,
  LOB locators and XML xs.
\<close>

theorem DecodeObjectImage_layout:
  assumes "header_layout h" "body_layout t v b"
  shows "DecodeObjectImage t (h @ b @ trailing) = Inr v"
  unfolding DecodeObjectImage_def by (rule on_image_layout [OF assms(1) decode_layout(2) [OF assms(2)]])

text \<open>An object with a number and a list of numbers, the first of them null.\<close>

definition toy_number :: AttrMeta where
  "toy_number = AttrMeta (asc ''N'') TypeNumber 0 10 0 22 None"

definition toy_list :: ObjectType where
  "toy_list = ObjectType (asc ''S'') (asc ''L'') True CollVarray 10 (Some toy_number) [] False"

definition toy_attr :: AttrMeta where
  "toy_attr = AttrMeta (asc ''E'') TypeObject 0 0 0 0 (Some toy_list)"

definition toy_object :: ObjectType where
  "toy_object = ObjectType (asc ''S'') (asc ''T'') False CollNone 0 None [toy_number, toy_attr] False"

definition toy_elements :: "ObjValue list" where
  "toy_elements = [null_value toy_number, raw_value KindScalar toy_number [128]]"

definition toy_value :: ObjValue where
  "toy_value = ObjValue KindObject None (Some toy_object) []
     [raw_value KindScalar toy_number [193, 2], with_meta toy_attr (ObjValue KindCollection None (Some toy_list) [] [] toy_elements [])] [] []"

definition toy_packed :: bytes where
  "toy_packed = [4, 1, 9] @ [0, 2] @ [255] @ [1, 128]"

lemma toy_layout: "body_layout toy_object toy_value ([2, 193, 2] @ [9 - 1] @ toy_packed)"
proof -
  have h: "header_layout ([4, 1] @ image_length 9)"
    by (rule header_plain) (simp_all add: objIsDegenerate_def objNoPrefixSeg_def)
  have n: "value_layout toy_number pc (raw_value KindScalar toy_number b) (image_length (length b) @ b)"
    if "b \<noteq> []" "length b < 2 ^ 32" for b pc
    using scalar_layout [of toy_number b pc] that by (simp add: toy_number_def is_lob_def type_defs)
  have n1: "value_layout toy_number True (raw_value KindScalar toy_number [128]) (image_length 1 @ [128])"
    using n [of "[128]" True] by simp
  have l2: "length [193, 2 :: u8] = 2" by simp
  have n2: "value_layout toy_number False (raw_value KindScalar toy_number [193, 2]) (image_length 2 @ [193, 2])"
    by (rule n [of "[193, 2]" False, unfolded l2]) simp_all
  have e: "elements_layout False toy_number toy_elements [] ([255] @ (image_length 1 @ [128]) @ [])"
    unfolding toy_elements_def
    by (rule elements_plain, rule null_layout, simp add: toy_number_def type_defs, simp add: NullLengthIndicator_def,
        rule elements_plain, rule n1, rule elements_nil)
  have b: "body_layout toy_list (ObjValue KindCollection None (Some toy_list) [] [] toy_elements [])
      ([0] @ image_length (length toy_elements) @ [255] @ (image_length 1 @ [128]) @ [])"
    by (rule collection_layout [of _ toy_number])
      (use e in \<open>simp_all add: toy_list_def CollIndexTable_def CollVarray_def toy_elements_def\<close>)
  have "value_layout toy_attr False (with_meta toy_attr (ObjValue KindCollection None (Some toy_list) [] [] toy_elements []))
      (image_length (length toy_packed) @ toy_packed)"
    by (rule packed_layout [OF _ _ _ _ b h, where trail = "[]"])
      (simp_all add: toy_attr_def toy_list_def toy_packed_def image_length_def toy_elements_def)
  then have "attrs_layout [toy_number, toy_attr] [raw_value KindScalar toy_number [193, 2],
        with_meta toy_attr (ObjValue KindCollection None (Some toy_list) [] [] toy_elements [])]
      ((image_length 2 @ [193, 2]) @ (image_length (length toy_packed) @ toy_packed) @ [])"
    by (intro attrs_cons attrs_nil n2)
  then show ?thesis
    unfolding toy_value_def using object_layout [of toy_object]
    by (simp add: toy_object_def image_length_def toy_packed_def)
qed

theorem DecodeObjectImage_layout_witness:
  "DecodeObjectImage toy_object (([4, 1] @ image_length 20) @ ([2, 193, 2] @ [8] @ toy_packed) @ []) = Inr toy_value"
  using DecodeObjectImage_layout [OF _ toy_layout, of "[4, 1] @ image_length 20" "[]"]
    header_plain [of 4 20 1] by (simp add: objIsDegenerate_def objNoPrefixSeg_def)

end
