(* ===== verification/TtcMessage.thy ===== *)
theory TtcMessage
  imports TtcTypes
begin

text \<open>
  \<^verbatim>\<open>internal/ttc/message.go\<close>: what every exchange with the server shares. The store \<open>ttc\<close> extends the
  session with the fields of \<open>Conn\<close> the message layer uses (\<open>conn\<close>) and the state of the message in
  progress (\<open>msg\<close>, the \<open>baseMessage\<close> every message embeds); there is one at a time, under the mutex
  of the connection. A message is given by its handler, the operation that processes one server
  message of a given type; the overridable hook \<open>processReturnParameters\<close> is an argument.
\<close>

subsection \<open>Constants\<close>

definition MsgTypeProtocol :: u8 where "MsgTypeProtocol = 1"
definition MsgTypeDataTypes :: u8 where "MsgTypeDataTypes = 2"
definition MsgTypeFunction :: u8 where "MsgTypeFunction = 3"
definition MsgTypeError :: u8 where "MsgTypeError = 4"
definition MsgTypeRowHeader :: u8 where "MsgTypeRowHeader = 6"
definition MsgTypeRowData :: u8 where "MsgTypeRowData = 7"
definition MsgTypeParameter :: u8 where "MsgTypeParameter = 8"
definition MsgTypeStatus :: u8 where "MsgTypeStatus = 9"
definition MsgTypeIOVector :: u8 where "MsgTypeIOVector = 11"
definition MsgTypeLOBData :: u8 where "MsgTypeLOBData = 14"
definition MsgTypeWarning :: u8 where "MsgTypeWarning = 15"
definition MsgTypeDescribeInfo :: u8 where "MsgTypeDescribeInfo = 16"
definition MsgTypePiggyback :: u8 where "MsgTypePiggyback = 17"
definition MsgTypeFlushOutBinds :: u8 where "MsgTypeFlushOutBinds = 19"
definition MsgTypeBitVector :: u8 where "MsgTypeBitVector = 21"
definition MsgTypeServerSidePiggyback :: u8 where "MsgTypeServerSidePiggyback = 23"
definition MsgTypeImplicitResultset :: u8 where "MsgTypeImplicitResultset = 27"
definition MsgTypeToken :: u8 where "MsgTypeToken = 33"
definition MsgTypeFastAuth :: u8 where "MsgTypeFastAuth = 34"

lemmas msg_type_defs = MsgTypeProtocol_def MsgTypeDataTypes_def MsgTypeFunction_def MsgTypeError_def MsgTypeRowHeader_def
  MsgTypeRowData_def MsgTypeParameter_def MsgTypeStatus_def MsgTypeIOVector_def MsgTypeLOBData_def MsgTypeWarning_def
  MsgTypeDescribeInfo_def MsgTypePiggyback_def MsgTypeFlushOutBinds_def MsgTypeBitVector_def
  MsgTypeServerSidePiggyback_def MsgTypeImplicitResultset_def MsgTypeToken_def MsgTypeFastAuth_def MsgTypeEndOfResponse_def

definition FieldVersion18_1Ext1 :: u8 where "FieldVersion18_1Ext1 = 11"
definition FieldVersion20_1 :: u8 where "FieldVersion20_1 = 14"
definition FieldVersion23_1Ext1 :: u8 where "FieldVersion23_1Ext1 = 18"

definition funcAuthPhaseOne :: u8 where "funcAuthPhaseOne = 118"
definition funcAuthPhaseTwo :: u8 where "funcAuthPhaseTwo = 115"
definition funcCloseCursors :: u8 where "funcCloseCursors = 105"
definition funcCommit :: u8 where "funcCommit = 14"
definition funcExecute :: u8 where "funcExecute = 94"
definition funcFetch :: u8 where "funcFetch = 5"
definition funcLOBOp :: u8 where "funcLOBOp = 96"
definition funcLogoff :: u8 where "funcLogoff = 9"
definition funcPing :: u8 where "funcPing = 147"
definition funcRollback :: u8 where "funcRollback = 15"
definition funcSetEndToEndAttr :: u8 where "funcSetEndToEndAttr = 135"
definition funcSetSchema :: u8 where "funcSetSchema = 152"

definition piggybackQueryCacheInvalidation :: u8 where "piggybackQueryCacheInvalidation = 1"
definition piggybackOSPIDMTS :: u8 where "piggybackOSPIDMTS = 2"
definition piggybackTraceEvent :: u8 where "piggybackTraceEvent = 3"
definition piggybackSessRet :: u8 where "piggybackSessRet = 4"
definition piggybackSync :: u8 where "piggybackSync = 5"
definition piggybackLTXID :: u8 where "piggybackLTXID = 7"
definition piggybackACReplayContext :: u8 where "piggybackACReplayContext = 8"
definition piggybackExtSync :: u8 where "piggybackExtSync = 9"
definition piggybackSessSignature :: u8 where "piggybackSessSignature = 10"

lemmas piggyback_defs = piggybackQueryCacheInvalidation_def piggybackOSPIDMTS_def piggybackTraceEvent_def
  piggybackSessRet_def piggybackSync_def piggybackLTXID_def piggybackACReplayContext_def piggybackExtSync_def
  piggybackSessSignature_def

definition keywordNumCurrentSchema :: u16 where "keywordNumCurrentSchema = 168"
definition keywordNumEdition :: u16 where "keywordNumEdition = 172"

definition eocsFlagsTxnInProgress :: u32 where "eocsFlagsTxnInProgress = 0x00000002"
definition eocsFlagsSessRelease :: u32 where "eocsFlagsSessRelease = 0x00008000"
definition sessgetSessionChanged :: u32 where "sessgetSessionChanged = 4"

subsection \<open>State\<close>

record conn_state =
  inConnect :: bool
  conn_closed :: bool
  deferredErr :: "ttc_error option"
  txnInProgress :: bool
  breakInProgress :: bool
  breakSent :: bool
  sessionID :: u32
  serialNum :: u16
  edition :: bytes
  currentSchema :: bytes
  currentSchemaModified :: bool
  cursorsToClose :: "u16 list"
  action :: bytes
  clientIdentifier :: bytes
  clientInfo :: bytes
  module :: bytes
  actionModified :: bool
  clientIdentifierModified :: bool
  clientInfoModified :: bool
  moduleModified :: bool
  endToEndModified :: bool

record baseMessage =
  functionCode :: u8
  messageType :: u8
  callStatus :: u32
  endOfResponse :: bool
  errorOccurred :: bool
  flushOutBinds :: bool
  resend :: bool
  retry :: bool
  errInfo :: ora_error
  warning :: "ora_error option"
  errRowid :: rowid
  errCursorID :: u16
  batchErrors :: "ora_error list"

record ttc = session +
  conn :: conn_state
  msg :: baseMessage

type_synonym ('z, 'a) ttc_op = "('z ttc_scheme, 'a) state"

definition on_conn :: "(conn_state \<Rightarrow> conn_state) \<Rightarrow> ('z, unit) ttc_op" where
  "on_conn f = modify (\<lambda>s. s\<lparr>conn := f (conn s)\<rparr>)"

definition on_msg :: "(baseMessage \<Rightarrow> baseMessage) \<Rightarrow> ('z, unit) ttc_op" where
  "on_msg f = modify (\<lambda>s. s\<lparr>msg := f (msg s)\<rparr>)"

text \<open>A new message: \<open>m.init(c, functionCode)\<close> on its zero value.\<close>

definition init_message :: "u8 \<Rightarrow> baseMessage" where
  "init_message fn = \<lparr>functionCode = fn, messageType = MsgTypeFunction, callStatus = 0, endOfResponse = False,
     errorOccurred = False, flushOutBinds = False, resend = False, retry = False, errInfo = no_error, warning = None,
     errRowid = \<lparr>RBA = 0, PartitionID = 0, BlockNum = 0, SlotNum = 0\<rparr>, errCursorID = 0, batchErrors = []\<rparr>"

text \<open>The idiom \<open>return r.Err()\<close>, and a plain operation in a fallible chain.\<close>

definition ret_err :: "('z, ttc_error + unit) op" where
  "ret_err = State_Monad.bind (gets rerr) (\<lambda>e. State_Monad.return (case e of None \<Rightarrow> Inr () | Some x \<Rightarrow> Inl (TnsErr x)))"

subsection \<open>The request header\<close>

definition write_token :: "('z, unit) op" where
  "write_token = do {
     v \<leftarrow> gets (\<lambda>s. TTCFieldVersion (caps s));
     if v \<ge> FieldVersion23_1Ext1 then WriteUB8 0 else State_Monad.return () }"

definition writePiggybackCode :: "u8 \<Rightarrow> ('z, unit) op" where
  "writePiggybackCode code = do { WriteUint8 MsgTypePiggyback; WriteUint8 code; WriteSeqNum; write_token }"

definition writeHdr :: "bool \<Rightarrow> bytes \<Rightarrow> ('z, unit) op" where
  "writeHdr modified v =
     (if modified then do { WriteUint8 1; WriteUB4 (word_of_nat (length v)) } else do { WriteUint8 0; WriteUB4 0 })"

definition write_attribute :: "bool \<Rightarrow> bytes \<Rightarrow> ('z, unit) op" where
  "write_attribute modified v = (if modified \<and> v \<noteq> [] then WriteBytesWithLength v else State_Monad.return ())"

definition endToEnd_flags :: "conn_state \<Rightarrow> u32" where
  "endToEnd_flags c = (if actionModified c then 0x0010 else 0) OR (if clientIdentifierModified c then 0x0001 else 0) OR
     (if clientInfoModified c then 0x0100 else 0) OR (if moduleModified c then 0x0008 else 0)"

definition writeEndToEndPiggyback :: "('z, unit) ttc_op" where
  "writeEndToEndPiggyback = do {
     c \<leftarrow> gets conn;
     writePiggybackCode funcSetEndToEndAttr;
     WriteUint8 0; WriteUint8 0;
     WriteUB4 (endToEnd_flags c);
     writeHdr (clientIdentifierModified c) (clientIdentifier c);
     writeHdr (moduleModified c) (module c);
     writeHdr (actionModified c) (action c);
     WriteUint8 0; WriteUB4 0; WriteUint8 0; WriteUB4 0;
     writeHdr (clientInfoModified c) (clientInfo c);
     WriteUint8 0; WriteUB4 0; WriteUint8 0; WriteUB4 0; WriteUint8 0; WriteUB4 0;
     write_attribute (clientIdentifierModified c) (clientIdentifier c);
     write_attribute (moduleModified c) (module c);
     write_attribute (actionModified c) (action c);
     write_attribute (clientInfoModified c) (clientInfo c);
     on_conn (\<lambda>c. c\<lparr>actionModified := False, clientIdentifierModified := False, clientInfoModified := False,
       moduleModified := False, endToEndModified := False\<rparr>) }"

definition writePiggybacks :: "('z, unit) ttc_op" where
  "writePiggybacks = do {
     c \<leftarrow> gets conn;
     (if currentSchemaModified c then do {
        writePiggybackCode funcSetSchema;
        WriteUint8 1;
        WriteBytesWithTwoLengths (Some (currentSchema c));
        on_conn (\<lambda>c. c\<lparr>currentSchemaModified := False\<rparr>) }
      else State_Monad.return ());
     (if cursorsToClose c \<noteq> [] then do {
        writePiggybackCode funcCloseCursors;
        WriteUint8 1;
        WriteUB4 (word_of_nat (length (cursorsToClose c)));
        each (\<lambda>id'. WriteUB4 (ucast id')) (cursorsToClose c);
        on_conn (\<lambda>c. c\<lparr>cursorsToClose := []\<rparr>) }
      else State_Monad.return ());
     if endToEndModified c then writeEndToEndPiggyback else State_Monad.return () }"

definition writeFunctionCode :: "('z, unit) ttc_op" where
  "writeFunctionCode = do {
     writePiggybacks;
     m \<leftarrow> gets msg;
     WriteUint8 (messageType m);
     WriteUint8 (functionCode m);
     WriteSeqNum;
     write_token }"

subsection \<open>Server messages\<close>

definition processReturnParameters_base :: "('z, ttc_error + unit) ttc_op" where
  "processReturnParameters_base = do { m \<leftarrow> gets msg; throw (UnexpectedParameter (functionCode m)) }"

text \<open>
  The lists of batch errors: codes, offsets and messages. A length byte of 254 announces one more
  length before each item.
\<close>

definition skip_item_length :: "u8 \<Rightarrow> ('z, unit) op" where
  "skip_item_length first = (if first = LongLengthIndicator then SkipUB4 else State_Monad.return ())"

definition skip_list_end :: "u8 \<Rightarrow> ('z, unit) op" where
  "skip_list_end first = (if first = LongLengthIndicator then SkipRawBytes 1 else State_Monad.return ())"

definition read_batch_code :: "u8 \<Rightarrow> nat \<Rightarrow> ('z, unit) ttc_op" where
  "read_batch_code first i = do {
     skip_item_length first;
     code \<leftarrow> ReadUB2;
     on_msg (\<lambda>m. m\<lparr>batchErrors := (batchErrors m)[i := (batchErrors m ! i)\<lparr>Code := uint code\<rparr>]\<rparr>) }"

definition read_batch_codes :: "u16 \<Rightarrow> ('z, unit) ttc_op" where
  "read_batch_codes numErrors =
     (if numErrors > 0 then do {
        on_msg (\<lambda>m. m\<lparr>batchErrors := replicate (unat numErrors) no_error\<rparr>);
        first \<leftarrow> ReadUB1;
        each (read_batch_code first) [0..<unat numErrors];
        skip_list_end first }
      else State_Monad.return ())"

definition read_batch_offset :: "u16 \<Rightarrow> u8 \<Rightarrow> nat \<Rightarrow> ('z, unit) ttc_op" where
  "read_batch_offset numErrors first i = do {
     skip_item_length first;
     off \<leftarrow> ReadUB4;
     if i < unat numErrors then
       on_msg (\<lambda>m. m\<lparr>batchErrors := (batchErrors m)[i := (batchErrors m ! i)\<lparr>Offset := uint off\<rparr>]\<rparr>)
     else State_Monad.return () }"

definition read_batch_offsets :: "u16 \<Rightarrow> u32 \<Rightarrow> ('z, unit) ttc_op" where
  "read_batch_offsets numErrors numOffsets =
     (if numOffsets > 0 then do {
        first \<leftarrow> ReadUB1;
        each (read_batch_offset numErrors first) [0..<unat numOffsets];
        skip_list_end first }
      else State_Monad.return ())"

definition read_batch_message :: "nat \<Rightarrow> ('z, unit) ttc_op" where
  "read_batch_message i = do {
     SkipUB2;
     (str, _) \<leftarrow> ReadStr False;
     on_msg (\<lambda>m. if i < length (batchErrors m)
       then m\<lparr>batchErrors := (batchErrors m)[i := (batchErrors m ! i)\<lparr>Message := str\<rparr>]\<rparr> else m);
     SkipRawBytes 2 }"

definition read_batch_messages :: "u16 \<Rightarrow> ('z, unit) ttc_op" where
  "read_batch_messages numMsgs =
     (if numMsgs > 0 then do { SkipRawBytes 1; each read_batch_message [0..<unat numMsgs] }
      else State_Monad.return ())"

definition compilation_warning :: ora_error where
  "compilation_warning = no_error\<lparr>Message := asc ''compilation error'', IsWarning := True\<rparr>"

definition set_end_of_response :: "('z, unit) ttc_op" where
  "set_end_of_response = do {
     b \<leftarrow> gets (\<lambda>s. SupportsEndOfResponse (caps s));
     if \<not> b then on_msg (\<lambda>m. m\<lparr>endOfResponse := True\<rparr>) else State_Monad.return () }"

definition processErrorInfo :: "('z, ttc_error + unit) ttc_op" where
  "processErrorInfo = do {
     cs \<leftarrow> ReadUB4;
     on_msg (\<lambda>m. m\<lparr>callStatus := cs\<rparr>);
     SkipUB2; SkipUB4; SkipUB2; SkipUB2; SkipUB2;
     cid \<leftarrow> ReadUB2;
     on_msg (\<lambda>m. m\<lparr>errCursorID := cid\<rparr>);
     errorPos \<leftarrow> ReadSB2;
     SkipUB1; SkipUB1; SkipUB1; SkipUB1; SkipUB1;
     flags \<leftarrow> ReadUB1;
     (if flags AND 0x20 \<noteq> 0 then on_msg (\<lambda>m. m\<lparr>warning := Some compilation_warning\<rparr>) else State_Monad.return ());
     rid \<leftarrow> ReadRowid;
     on_msg (\<lambda>m. m\<lparr>errRowid := rid\<rparr>);
     SkipUB4; SkipUB1; SkipUB1; SkipUB2; SkipUB4; SkipBytesWithLength;
     numErrors \<leftarrow> ReadUB2;
     read_batch_codes numErrors;
     numOffsets \<leftarrow> ReadUB4;
     if numOffsets > 65535 then throw (TooManyBatchErrors numOffsets)
     else do {
       read_batch_offsets numErrors numOffsets;
       numMsgs \<leftarrow> ReadUB2;
       read_batch_messages numMsgs;
       code \<leftarrow> ReadUB4;
       on_msg (\<lambda>m. m\<lparr>errInfo := (errInfo m)\<lparr>Code := uint code\<rparr>\<rparr>);
       rows \<leftarrow> ReadUB8;
       on_msg (\<lambda>m. m\<lparr>errInfo := (errInfo m)\<lparr>RowCount := rows\<rparr>\<rparr>);
       v \<leftarrow> gets (\<lambda>s. TTCFieldVersion (caps s));
       (if v \<ge> FieldVersion20_1 then do { SkipUB4; SkipUB4 } else State_Monad.return ());
       (if code \<noteq> 0 then do {
          on_msg (\<lambda>m. m\<lparr>errorOccurred := True\<rparr>);
          (if errorPos > 0 then on_msg (\<lambda>m. m\<lparr>errInfo := (errInfo m)\<lparr>Offset := errorPos\<rparr>\<rparr>) else State_Monad.return ());
          (str, _) \<leftarrow> ReadStr False;
          on_msg (\<lambda>m. m\<lparr>errInfo := (errInfo m)\<lparr>Message := str\<rparr>\<rparr>) }
        else State_Monad.return ());
       set_end_of_response;
       ret_err } }"

definition processWarningInfo :: "('z, unit) ttc_op" where
  "processWarningInfo = do {
     errNum \<leftarrow> ReadUB2;
     numBytes \<leftarrow> ReadUB2;
     SkipUB2;
     if errNum \<noteq> 0 \<and> numBytes > 0 then do {
       (str, _) \<leftarrow> ReadStr False;
       on_msg (\<lambda>m. m\<lparr>warning := Some (no_error\<lparr>Code := uint errNum, Message := str, IsWarning := True\<rparr>)\<rparr>) }
     else State_Monad.return () }"

definition read_keyword_pair :: "('z, unit) ttc_op" where
  "read_keyword_pair = do {
     n \<leftarrow> ReadUB2;
     str \<leftarrow> (if n > 0 then do { (str, _) \<leftarrow> ReadStr False; State_Monad.return str } else State_Monad.return []);
     n \<leftarrow> ReadUB2;
     (if n > 0 then SkipBytes else State_Monad.return ());
     keyword \<leftarrow> ReadUB2;
     if keyword = keywordNumCurrentSchema then on_conn (\<lambda>c. c\<lparr>currentSchema := str\<rparr>)
     else if keyword = keywordNumEdition then on_conn (\<lambda>c. c\<lparr>edition := str\<rparr>)
     else State_Monad.return () }"

definition processKeywordValuePairs :: "u16 \<Rightarrow> ('z, unit) ttc_op" where
  "processKeywordValuePairs numPairs = repeat_op (unat numPairs) read_keyword_pair"

definition skip_session_pair :: "('z, unit) op" where
  "skip_session_pair = do {
     n \<leftarrow> ReadUB2;
     (if n > 0 then SkipBytes else State_Monad.return ());
     n \<leftarrow> ReadUB2;
     (if n > 0 then SkipBytes else State_Monad.return ());
     SkipUB2 }"

definition processServerSidePiggyback :: "('z, ttc_error + unit) ttc_op" where
  "processServerSidePiggyback = do {
     opcode \<leftarrow> ReadUB1;
     if opcode = piggybackLTXID then do { _ \<leftarrow> ReadBytesWithLength; ret_err }
     else if opcode = piggybackQueryCacheInvalidation \<or> opcode = piggybackTraceEvent then ret_err
     else if opcode = piggybackOSPIDMTS then do { _ \<leftarrow> ReadUB2; SkipBytes; ret_err }
     else if opcode = piggybackSync then do {
       SkipUB2; SkipUB1; n \<leftarrow> ReadUB2; SkipUB1; processKeywordValuePairs n; SkipUB4; ret_err }
     else if opcode = piggybackExtSync then do { SkipUB2; SkipUB1; ret_err }
     else if opcode = piggybackACReplayContext then do {
       SkipUB2; SkipUB1; SkipUB4; SkipUB4; SkipUB1; SkipBytesWithLength; ret_err }
     else if opcode = piggybackSessRet then do {
       SkipUB2; SkipUB1;
       n \<leftarrow> ReadUB2;
       (if n > 0 then do { SkipUB1; repeat_op (unat n) skip_session_pair } else State_Monad.return ());
       flags \<leftarrow> ReadUB4;
       (if flags AND sessgetSessionChanged \<noteq> 0 then on_conn (\<lambda>c. c\<lparr>cursorsToClose := []\<rparr>) else State_Monad.return ());
       sid \<leftarrow> ReadUB4;
       on_conn (\<lambda>c. c\<lparr>sessionID := sid\<rparr>);
       serial \<leftarrow> ReadUB2;
       on_conn (\<lambda>c. c\<lparr>serialNum := serial\<rparr>);
       ret_err }
     else if opcode = piggybackSessSignature then do { SkipUB2; SkipUB1; SkipUB8; SkipUB8; SkipUB8; ret_err }
     else throw (UnknownPiggyback opcode) }"

definition processMessage_base :: "('z, ttc_error + unit) ttc_op \<Rightarrow> u8 \<Rightarrow> ('z, ttc_error + unit) ttc_op" where
  "processMessage_base params msgType =
     (if msgType = MsgTypeError then processErrorInfo
      else if msgType = MsgTypeWarning then do { processWarningInfo; ret_err }
      else if msgType = MsgTypeToken then do {
        token \<leftarrow> ReadUB8;
        if token \<noteq> 0 then throw (MismatchedToken token) else ret_err }
      else if msgType = MsgTypeStatus then do {
        cs \<leftarrow> ReadUB4;
        on_msg (\<lambda>m. m\<lparr>callStatus := cs\<rparr>);
        _ \<leftarrow> ReadUB2;
        set_end_of_response;
        ret_err }
      else if msgType = MsgTypeParameter then params
      else if msgType = MsgTypeServerSidePiggyback then processServerSidePiggyback
      else if msgType = MsgTypeEndOfResponse then do { on_msg (\<lambda>m. m\<lparr>endOfResponse := True\<rparr>); ret_err }
      else do { p \<leftarrow> gets rpos; throw (UnknownMessage msgType (p - 1)) })"

subsection \<open>The response loop\<close>

text \<open>
  The loop of \<open>process\<close> over the messages of a response. Nothing in its text bounds it, so its value
  is an option, \<open>None\<close> if it never ends.
\<close>

partial_function (option) process_loop ::
  "(u8 \<Rightarrow> ('z, ttc_error + unit) ttc_op) \<Rightarrow> 'z ttc_scheme \<Rightarrow> ((ttc_error + unit) \<times> 'z ttc_scheme) option" where
  "process_loop h s =
     (if endOfResponse (msg s) then Some (Inr (), s)
      else case run_state ReadUB1 s of (t, s1) \<Rightarrow>
        if rerr s1 \<noteq> None then Some (Inl (TnsErr (the (rerr s1))), s1)
        else case run_state (h t) s1 of (r, s2) \<Rightarrow>
          if isl r then Some (r, s2)
          else if rerr s2 \<noteq> None then Some (Inl (TnsErr (the (rerr s2))), s2)
          else process_loop h s2)"

definition process :: "(u8 \<Rightarrow> ('z, ttc_error + unit) ttc_op) \<Rightarrow> 'z ttc_scheme \<Rightarrow> ((ttc_error + unit) \<times> 'z ttc_scheme) option" where
  "process h s = process_loop h (s\<lparr>msg := (msg s)\<lparr>endOfResponse := False, flushOutBinds := False\<rparr>\<rparr>)"

text \<open>\<open>simpleMessage\<close>: the function code is the whole request, the base handler the whole response.\<close>

definition simple_write :: "('z, unit) ttc_op" where
  "simple_write = writeFunctionCode"

definition simple_handler :: "u8 \<Rightarrow> ('z, ttc_error + unit) ttc_op" where
  "simple_handler = processMessage_base processReturnParameters_base"

end
