(* ===== verification/TtcReads.thy ===== *)
theory TtcReads
  imports TtcMessage
begin

text \<open>
  The server's messages, as byte layouts: an error report, with its batch errors, is decoded to the
  report, whatever the values of the fields the client skips; and every handler of the message layer
  only goes forward, so the response loop ends on every input.
\<close>

subsection \<open>Updates of the connection and of the message\<close>

lemma keeps_ttc: "keeps s u \<Longrightarrow> conn u = conn s" "keeps s u \<Longrightarrow> msg u = msg s" "keeps s u \<Longrightarrow> caps u = caps s"
  for s u :: "'z ttc_scheme"
proof -
  assume k: "keeps s u"
  show "conn u = conn s" "msg u = msg s"
    using arg_cong [OF conjunct1 [OF k [unfolded keeps_def]], of conn] arg_cong [OF conjunct1 [OF k [unfolded keeps_def]], of msg]
    by (simp_all add: rest_of_state_def)
  show "caps u = caps s" using keeps_fields(1) [OF k] .
qed

lemma quiet_outer:
  "quiet (\<lambda>s :: 'z ttc_scheme. s\<lparr>conn := f (conn s)\<rparr>)" "quiet (\<lambda>s :: 'z ttc_scheme. s\<lparr>msg := g (msg s)\<rparr>)"
proof -
  have r: "rest_of_state (s\<lparr>conn := x\<rparr>) = (rest_of_state s)\<lparr>conn := x\<rparr>" "rest_of_state (s\<lparr>msg := y\<rparr>) = (rest_of_state s)\<lparr>msg := y\<rparr>"
    for s :: "'z ttc_scheme" and x y
    by (simp_all add: rest_of_state_def)
  have f: "ready (s\<lparr>conn := x\<rparr>) = ready s" "stream (s\<lparr>conn := x\<rparr>) = stream s"
    "ready (s\<lparr>msg := y\<rparr>) = ready s" "stream (s\<lparr>msg := y\<rparr>) = stream s" for s :: "'z ttc_scheme" and x y
    by (simp_all add: ready_def stream_def rbuf_ok_def pending_def complete_def rest_of_packet_def)
  have k: "keeps (s\<lparr>conn := f (conn s)\<rparr>) (u\<lparr>conn := f (conn u)\<rparr>) \<and> keeps (s\<lparr>msg := g (msg s)\<rparr>) (u\<lparr>msg := g (msg u)\<rparr>)"
    if "keeps s u" for s u :: "'z ttc_scheme"
    using that by (simp add: keeps_def r keeps_ttc(1) [OF that] keeps_ttc(2) [OF that])
  show "quiet (\<lambda>s :: 'z ttc_scheme. s\<lparr>conn := f (conn s)\<rparr>)" "quiet (\<lambda>s :: 'z ttc_scheme. s\<lparr>msg := g (msg s)\<rparr>)"
    unfolding quiet_def by (intro conjI allI impI; simp add: f k)+
qed

lemma steps_on_msg: "steps (s\<lparr>msg := g (msg s)\<rparr>) (f ()) bs v t \<Longrightarrow> steps s (State_Monad.bind (on_msg g) f) bs v t"
  unfolding on_msg_def by (rule steps_modify [OF quiet_outer(2)])

lemma steps_on_conn: "steps (s\<lparr>conn := g (conn s)\<rparr>) (f ()) bs v t \<Longrightarrow> steps s (State_Monad.bind (on_conn g) f) bs v t"
  unfolding on_conn_def by (rule steps_modify [OF quiet_outer(1)])

lemma steps_on_msg_last: "steps s (on_msg g) [] () (s\<lparr>msg := g (msg s)\<rparr>)"
  unfolding on_msg_def by (rule steps_update [OF quiet_outer(2)])

lemma steps_on_conn_last: "steps s (on_conn g) [] () (s\<lparr>conn := g (conn s)\<rparr>)"
  unfolding on_conn_def by (rule steps_update [OF quiet_outer(1)])

lemma steps_caps: "caps s = c \<Longrightarrow> steps s (f (h c)) bs v t \<Longrightarrow> steps s (State_Monad.bind (gets (\<lambda>s. h (caps s))) f) bs v t"
  for s :: "'z ttc_scheme"
  by (rule steps_gets) (simp_all add: keeps_ttc)

lemma steps_ret_err: "steps s ret_err [] (Inr ()) s"
  by (simp add: steps_def ret_err_def ready_def)

lemma steps_end_of_response:
  "steps s set_end_of_response [] () (s\<lparr>msg := (msg s)\<lparr>endOfResponse := endOfResponse (msg s) \<or> \<not> SupportsEndOfResponse (caps s)\<rparr>\<rparr>)"
  for s :: "'z ttc_scheme"
  unfolding set_end_of_response_def
  by (rule steps_caps, rule refl) (use steps_on_msg_last [of s "\<lambda>m. m\<lparr>endOfResponse := True\<rparr>"] steps_return in \<open>auto\<close>)

text \<open>The same rules where what is left to do is one operation, and the first of two.\<close>

lemma steps_nil: "steps s m b v t \<Longrightarrow> steps s m (b @ []) v t"
  by simp

lemma steps_none: "steps s m [] x t \<Longrightarrow> steps t (f x) bs v w \<Longrightarrow> steps s (State_Monad.bind m f) bs v w"
  using steps_bind [of s m "[]"] by fastforce

subsection \<open>An error report\<close>

text \<open>\<open>skipped\<close> gives the fields the client does not use.\<close>

record error_report =
  rp_status :: u32
  rp_cursor :: u16
  rp_position :: int
  rp_flags :: u8
  rp_rowid :: rowid
  rp_logical :: bytes
  rp_batch :: "(u16 \<times> u32 \<times> bytes) list"
  rp_first :: u8
  rp_code :: u32
  rp_rows :: u64
  rp_text :: bytes
  skipped :: "nat \<Rightarrow> u32"

definition item_prefix :: "error_report \<Rightarrow> nat \<Rightarrow> bytes" where
  "item_prefix e i = (if rp_first e = LongLengthIndicator then ub4_bytes (skipped e (100 + i)) else [])"

definition list_end :: "error_report \<Rightarrow> bytes" where
  "list_end e = (if rp_first e = LongLengthIndicator then [0] else [])"

definition batch_code :: "error_report \<Rightarrow> nat \<Rightarrow> u16" where
  "batch_code e i = fst (rp_batch e ! i)"

definition batch_offset :: "error_report \<Rightarrow> nat \<Rightarrow> u32" where
  "batch_offset e i = fst (snd (rp_batch e ! i))"

definition batch_text :: "error_report \<Rightarrow> nat \<Rightarrow> bytes" where
  "batch_text e i = snd (snd (rp_batch e ! i))"

definition codes_bytes :: "error_report \<Rightarrow> bytes" where
  "codes_bytes e = (let n = length (rp_batch e) in if n = 0 then [] else
     rp_first e # concat (map (\<lambda>i. item_prefix e i @ ub2_bytes (batch_code e i)) [0..<n]) @ list_end e)"

definition offsets_bytes :: "error_report \<Rightarrow> bytes" where
  "offsets_bytes e = (let n = length (rp_batch e) in if n = 0 then [] else
     rp_first e # concat (map (\<lambda>i. item_prefix e i @ ub4_bytes (batch_offset e i)) [0..<n]) @ list_end e)"

definition messages_bytes :: "error_report \<Rightarrow> bytes" where
  "messages_bytes e = (let n = length (rp_batch e) in if n = 0 then [] else
     0 # concat (map (\<lambda>i. ub2_bytes (ucast (skipped e (1000 + i))) @ length_bytes (batch_text e i) @ [0, 0]) [0..<n]))"

definition error_bytes :: "capabilities \<Rightarrow> error_report \<Rightarrow> bytes" where
  "error_bytes c e =
     ub4_bytes (rp_status e) @ ub2_bytes (ucast (skipped e 0)) @ ub4_bytes (skipped e 1) @ ub2_bytes (ucast (skipped e 2)) @
     ub2_bytes (ucast (skipped e 3)) @ ub2_bytes (ucast (skipped e 4)) @ ub2_bytes (rp_cursor e) @ sb4_bytes (rp_position e) @
     [ucast (skipped e 5)] @ [ucast (skipped e 6)] @ [ucast (skipped e 7)] @ [ucast (skipped e 8)] @ [ucast (skipped e 9)] @
     [rp_flags e] @ rowid_bytes (rp_rowid e) @ ub4_bytes (skipped e 10) @ [ucast (skipped e 11)] @ [ucast (skipped e 12)] @
     ub2_bytes (ucast (skipped e 13)) @ ub4_bytes (skipped e 14) @ two_length_bytes (Some (rp_logical e)) @
     ub2_bytes (word_of_nat (length (rp_batch e))) @ codes_bytes e @
     ub4_bytes (word_of_nat (length (rp_batch e))) @ offsets_bytes e @
     ub2_bytes (word_of_nat (length (rp_batch e))) @ messages_bytes e @
     ub4_bytes (rp_code e) @ ub8_bytes (rp_rows e) @
     (if TTCFieldVersion c \<ge> FieldVersion20_1 then ub4_bytes (skipped e 15) @ ub4_bytes (skipped e 16) else []) @
     (if rp_code e \<noteq> 0 then length_bytes (rp_text e) else [])"

definition report_ok :: "error_report \<Rightarrow> bool" where
  "report_ok e \<longleftrightarrow> \<bar>rp_position e\<bar> < 2 ^ 15 \<and> length (rp_logical e) < 2 ^ 32 \<and> length (rp_batch e) < 2 ^ 16"

text \<open>What the message's state is after the report: the abstract effect.\<close>

definition batch_of :: "error_report \<Rightarrow> ora_error list" where
  "batch_of e = map (\<lambda>(c, off, t). no_error\<lparr>Code := uint c, Offset := uint off, Message := t\<rparr>) (rp_batch e)"

definition reported :: "capabilities \<Rightarrow> error_report \<Rightarrow> baseMessage \<Rightarrow> baseMessage" where
  "reported c e m = m\<lparr>callStatus := rp_status e, errCursorID := rp_cursor e, errRowid := rp_rowid e,
     warning := (if rp_flags e AND 0x20 \<noteq> 0 then Some compilation_warning else warning m),
     batchErrors := (if rp_batch e = [] then batchErrors m else batch_of e),
     errInfo := (errInfo m)\<lparr>Code := uint (rp_code e), RowCount := rp_rows e,
       Offset := (if rp_code e \<noteq> 0 \<and> rp_position e > 0 then rp_position e else Offset (errInfo m)),
       Message := (if rp_code e \<noteq> 0 then rp_text e else Message (errInfo m))\<rparr>,
     errorOccurred := (errorOccurred m \<or> rp_code e \<noteq> 0),
     endOfResponse := (endOfResponse m \<or> \<not> SupportsEndOfResponse c)\<rparr>"

text \<open>The three passes over the batch errors, each filling one field.\<close>

definition batch_upto :: "error_report \<Rightarrow> nat \<Rightarrow> nat \<Rightarrow> nat \<Rightarrow> ora_error list" where
  "batch_upto e i j k = map (\<lambda>l. no_error\<lparr>Code := (if l < i then uint (batch_code e l) else 0),
     Offset := (if l < j then uint (batch_offset e l) else 0), Message := (if l < k then batch_text e l else [])\<rparr>)
     [0..<length (rp_batch e)]"

lemma batch_upto_simps [simp]:
  "length (batch_upto e i j k) = length (rp_batch e)" "rp_batch e \<noteq> [] \<Longrightarrow> batch_upto e i j k \<noteq> []"
  "l < length (rp_batch e) \<Longrightarrow> batch_upto e i j k ! l = no_error\<lparr>Code := (if l < i then uint (batch_code e l) else 0),
     Offset := (if l < j then uint (batch_offset e l) else 0), Message := (if l < k then batch_text e l else [])\<rparr>"
  by (auto simp: batch_upto_def)

lemma batch_upto_0: "batch_upto e 0 0 0 = replicate (length (rp_batch e)) no_error"
  by (rule nth_equalityI) (auto simp: no_error_def)

lemma batch_upto_step:
  assumes "l < length (rp_batch e)"
  shows "(batch_upto e l j k)[l := (batch_upto e l j k ! l)\<lparr>Code := uint (batch_code e l)\<rparr>] = batch_upto e (Suc l) j k"
    "(batch_upto e i l k)[l := (batch_upto e i l k ! l)\<lparr>Offset := uint (batch_offset e l)\<rparr>] = batch_upto e i (Suc l) k"
    "(batch_upto e i j l)[l := (batch_upto e i j l ! l)\<lparr>Message := batch_text e l\<rparr>] = batch_upto e i j (Suc l)"
  using assms by (auto intro!: nth_equalityI simp: nth_list_update less_Suc_eq)

lemma batch_upto_all:
  "batch_upto e (length (rp_batch e)) (length (rp_batch e)) (length (rp_batch e)) = batch_of e"
  by (rule nth_equalityI) (auto simp: batch_of_def batch_code_def batch_offset_def batch_text_def case_prod_unfold)

lemma steps_end: "steps s m b v t \<Longrightarrow> b = b' \<Longrightarrow> t = t' \<Longrightarrow> steps s m b' v t'"
  by simp

lemma steps_item_prefix: "steps s (skip_item_length (rp_first e)) (item_prefix e i) () s"
  unfolding item_prefix_def skip_item_length_def by (auto intro: steps_return steps_reads reads_skips(3))

lemma steps_list_end: "steps s (skip_list_end (rp_first e)) (list_end e) () s"
  unfolding list_end_def skip_list_end_def by (cases "rp_first e = LongLengthIndicator")
    (simp_all only: if_True if_False refl steps_return, rule steps_reads, rule reads_SkipRawBytes, simp)

definition with_batch :: "'z ttc_scheme \<Rightarrow> ora_error list \<Rightarrow> 'z ttc_scheme" where
  "with_batch s b = s\<lparr>msg := (msg s)\<lparr>batchErrors := b\<rparr>\<rparr>"

lemma with_batch_simps [simp]:
  "batchErrors (msg (with_batch s b)) = b" "with_batch (with_batch s b) b' = with_batch s b'"
  "caps (with_batch s b) = caps s" "(with_batch s b)\<lparr>msg := (msg (with_batch s b))\<lparr>batchErrors := b'\<rparr>\<rparr> = with_batch s b'"
  "with_batch s (batchErrors (msg s)) = s"
  by (simp_all add: with_batch_def)

lemma batch_count: "report_ok e \<Longrightarrow> unat (word_of_nat (length (rp_batch e)) :: u16) = length (rp_batch e) \<and>
    unat (word_of_nat (length (rp_batch e)) :: u32) = length (rp_batch e) \<and>
    \<not> (word_of_nat (length (rp_batch e)) :: u32) > 65535 \<and>
    ((word_of_nat (length (rp_batch e)) :: u16) > 0) = (rp_batch e \<noteq> []) \<and> ((word_of_nat (length (rp_batch e)) :: u32) > 0) = (rp_batch e \<noteq> [])"
proof -
  assume "report_ok e"
  then have n: "length (rp_batch e) < 2 ^ 16" by (simp add: report_ok_def)
  then have u: "unat (word_of_nat (length (rp_batch e)) :: u16) = length (rp_batch e)"
    "unat (word_of_nat (length (rp_batch e)) :: u32) = length (rp_batch e)" by (simp_all add: unat_of_nat)
  then show ?thesis using n by (auto simp: word_less_nat_alt)
qed

lemma steps_batch_codes:
  assumes "report_ok e"
  shows "steps s (read_batch_codes (word_of_nat (length (rp_batch e)))) (codes_bytes e) ()
    (with_batch s (if rp_batch e = [] then batchErrors (msg s) else batch_upto e (length (rp_batch e)) 0 0))"
proof (cases "rp_batch e = []")
  case True
  then show ?thesis by (simp add: read_batch_codes_def codes_bytes_def steps_return)
next
  case False
  let ?n = "length (rp_batch e)"
  let ?g = "\<lambda>i. item_prefix e i @ ub2_bytes (batch_code e i)"
  have item: "steps (with_batch s (batch_upto e i 0 0)) (read_batch_code (rp_first e) i) (?g i) ()
      (with_batch s (batch_upto e (Suc i) 0 0))" if "i < ?n" for i
    unfolding read_batch_code_def
    by (rule steps_end, rule steps_op, rule steps_item_prefix, rule steps_read, rule reads_ub, rule steps_on_msg_last)
      (simp_all only: append_Nil2 with_batch_simps, rule arg_cong [OF batch_upto_step(1) [OF that]])
  have loop: "steps (with_batch s (batch_upto e 0 0 0)) (each (read_batch_code (rp_first e)) [0..<?n])
      (concat (map ?g [0..<?n])) () (with_batch s (batch_upto e ?n 0 0))"
    using steps_each [where T = "\<lambda>i. with_batch s (batch_upto e i 0 0)" and xs = "[0..<?n]" and g = ?g] item by simp
  have m: "s\<lparr>msg := (msg s)\<lparr>batchErrors := replicate ?n no_error\<rparr>\<rparr> = with_batch s (batch_upto e 0 0 0)"
    by (simp add: with_batch_def batch_upto_0)
  show ?thesis
    using False batch_count [OF assms]
    by (simp add: read_batch_codes_def codes_bytes_def Let_def)
      (rule steps_on_msg, unfold m, rule steps_read [where ?b1.0 = "[rp_first e]", simplified], rule reads_ReadUB1,
       rule steps_op, rule loop, rule steps_list_end)
qed

lemma steps_batch_offsets:
  assumes "report_ok e"
  shows "steps (with_batch s (if rp_batch e = [] then b else batch_upto e i 0 0))
    (read_batch_offsets (word_of_nat (length (rp_batch e))) (word_of_nat (length (rp_batch e)))) (offsets_bytes e) ()
    (with_batch s (if rp_batch e = [] then b else batch_upto e i (length (rp_batch e)) 0))"
proof (cases "rp_batch e = []")
  case True
  then show ?thesis by (simp add: read_batch_offsets_def offsets_bytes_def steps_return)
next
  case False
  let ?n = "length (rp_batch e)" and ?w = "word_of_nat (length (rp_batch e)) :: u16"
  let ?g = "\<lambda>j. item_prefix e j @ ub4_bytes (batch_offset e j)"
  have n: "unat ?w = ?n" using batch_count [OF assms] by blast
  have item: "steps (with_batch s (batch_upto e i j 0)) (read_batch_offset ?w (rp_first e) j) (?g j) ()
      (with_batch s (batch_upto e i (Suc j) 0))" if "j < ?n" for j
    unfolding read_batch_offset_def n if_P [OF that]
    by (rule steps_end, rule steps_op, rule steps_item_prefix, rule steps_read, rule reads_ub, rule steps_on_msg_last)
      (simp_all only: append_Nil2 with_batch_simps, rule arg_cong [OF batch_upto_step(2) [OF that]])
  have loop: "steps (with_batch s (batch_upto e i 0 0)) (each (read_batch_offset ?w (rp_first e)) [0..<?n])
      (concat (map ?g [0..<?n])) () (with_batch s (batch_upto e i ?n 0))"
    using steps_each [where T = "\<lambda>j. with_batch s (batch_upto e i j 0)" and xs = "[0..<?n]" and g = ?g] item by simp
  show ?thesis
    using False batch_count [OF assms]
    by (simp add: read_batch_offsets_def offsets_bytes_def Let_def)
      (rule steps_read [where ?b1.0 = "[rp_first e]", simplified], rule reads_ReadUB1, rule steps_op, rule loop, rule steps_list_end)
qed

lemma steps_batch_messages:
  assumes "report_ok e"
  shows "steps (with_batch s (if rp_batch e = [] then b else batch_upto e i j 0))
    (read_batch_messages (word_of_nat (length (rp_batch e)))) (messages_bytes e) ()
    (with_batch s (if rp_batch e = [] then b else batch_upto e i j (length (rp_batch e))))"
proof (cases "rp_batch e = []")
  case True
  then show ?thesis by (simp add: read_batch_messages_def messages_bytes_def steps_return)
next
  case False
  let ?n = "length (rp_batch e)"
  let ?g = "\<lambda>k. ub2_bytes (ucast (skipped e (1000 + k))) @ length_bytes (batch_text e k) @ [0, 0]"
  have skip: "steps s (SkipRawBytes 2) [0, 0] () s" for s :: "'a ttc_scheme"
    by (rule steps_reads, rule reads_SkipRawBytes) simp
  have item: "steps (with_batch s (batch_upto e i j k)) (read_batch_message k) (?g k) () (with_batch s (batch_upto e i j (Suc k)))" if "k < ?n" for k
    unfolding read_batch_message_def
    by (rule steps_read, rule reads_skips, rule steps_read, rule reads_written_values, unfold prod.case, rule steps_on_msg,
        rule steps_end, rule skip, rule refl, unfold with_batch_simps batch_upto_simps(1) if_P [OF that],
        rule arg_cong [OF batch_upto_step(3) [OF that]])
  have loop: "steps (with_batch s (batch_upto e i j 0)) (each read_batch_message [0..<?n])
      (concat (map ?g [0..<?n])) () (with_batch s (batch_upto e i j ?n))"
    using steps_each [where T = "\<lambda>k. with_batch s (batch_upto e i j k)" and xs = "[0..<?n]" and g = ?g] item by simp
  show ?thesis
    using False batch_count [OF assms]
    by (simp add: read_batch_messages_def messages_bytes_def Let_def)
      (rule steps_read [where ?b1.0 = "[0]", simplified], rule reads_SkipRawBytes, simp, rule loop)
qed

lemma steps_state: "steps s m b v t \<Longrightarrow> t = t' \<Longrightarrow> steps s m b v t'"
  by simp

lemma steps_last: "steps s m b x t \<Longrightarrow> steps t (f x) [] v w \<Longrightarrow> steps s (State_Monad.bind m f) b v w"
  using steps_bind [of s m b x t f "[]" v w] by simp

lemma steps_if_msg:
  "steps s (if c then on_msg g else State_Monad.return ()) [] () (s\<lparr>msg := (if c then g (msg s) else msg s)\<rparr>)"
  for s :: "'z ttc_scheme"
  using steps_on_msg_last [of s g] steps_return [of s "()"] by simp

lemma steps_if_conn:
  "steps s (if c then on_conn g else State_Monad.return ()) [] () (s\<lparr>conn := (if c then g (conn s) else conn s)\<rparr>)"
  for s :: "'z ttc_scheme"
  using steps_on_conn_last [of s g] steps_return [of s "()"] by simp

lemma steps_checksums:
  "steps s (if b then do { SkipUB4; SkipUB4 } else State_Monad.return ()) (if b then ub4_bytes x @ ub4_bytes y else []) () s"
  by (cases b) (simp_all only: if_True if_False steps_return, rule steps_reads, rule reads_bind, rule reads_skips, rule reads_skips)

lemma steps_error_text:
  "steps s (if code \<noteq> 0 then do {
      on_msg (\<lambda>m. m\<lparr>errorOccurred := True\<rparr>);
      (if pos > 0 then on_msg (\<lambda>m. m\<lparr>errInfo := (errInfo m)\<lparr>Offset := pos\<rparr>\<rparr>) else State_Monad.return ());
      (str, _) \<leftarrow> ReadStr False;
      on_msg (\<lambda>m. m\<lparr>errInfo := (errInfo m)\<lparr>Message := str\<rparr>\<rparr>) } else State_Monad.return ())
    (if code \<noteq> 0 then length_bytes t else []) ()
    (s\<lparr>msg := (msg s)\<lparr>errorOccurred := (errorOccurred (msg s) \<or> code \<noteq> 0),
       errInfo := (errInfo (msg s))\<lparr>Offset := (if code \<noteq> 0 \<and> pos > 0 then pos else Offset (errInfo (msg s))),
         Message := (if code \<noteq> 0 then t else Message (errInfo (msg s)))\<rparr>\<rparr>\<rparr>)"
  for s :: "'z ttc_scheme" and code :: u32
proof (cases "code = 0")
  case False
  then have c: "(code \<noteq> 0) = True" by simp
  show ?thesis
    unfolding c if_True
    by (rule steps_state, rule steps_on_msg, rule steps_none, rule steps_if_msg, rule steps_last, rule steps_reads,
        rule reads_written_values, unfold prod.case, rule steps_on_msg_last) simp
qed (simp add: steps_return)

lemma steps_processErrorInfo:
  assumes "report_ok e"
  shows "steps s processErrorInfo (error_bytes (caps s) e) (Inr ()) (s\<lparr>msg := reported (caps s) e (msg s)\<rparr>)"
proof -
  have a: "\<bar>rp_position e\<bar> < 2 ^ 15" "length (rp_logical e) < 2 ^ 32" and n: "\<not> (word_of_nat (length (rp_batch e)) :: u32) > 65535"
    using assms batch_count [OF assms] by (simp_all add: report_ok_def)
  show ?thesis
    unfolding processErrorInfo_def error_bytes_def
    by (rule steps_state, rule steps_read, rule reads_ub, rule steps_on_msg, (rule steps_read, rule reads_skips)+,
        rule steps_read, rule reads_ub, rule steps_on_msg, rule steps_read, rule reads_ReadSB2 [OF a(1)],
        (rule steps_read, rule reads_skips)+, rule steps_read, rule reads_ReadUB1, rule steps_none, rule steps_if_msg,
        rule steps_read, rule reads_ReadRowid, rule steps_on_msg, (rule steps_read, rule reads_skips)+,
        rule steps_read, rule reads_written_two_lengths [OF a(2)], rule steps_read, rule reads_ub,
        rule steps_op, rule steps_batch_codes [OF assms], rule steps_read, rule reads_ub, unfold if_not_P [OF n],
        rule steps_op, rule steps_batch_offsets [OF assms], rule steps_read, rule reads_ub,
        rule steps_op, rule steps_batch_messages [OF assms], rule steps_read, rule reads_ub, rule steps_on_msg,
        rule steps_read, rule reads_ub, rule steps_on_msg, rule steps_caps, simp, rule steps_op, rule steps_checksums,
        rule steps_last, rule steps_error_text, rule steps_none, rule steps_end_of_response, rule steps_ret_err)
      (simp add: reported_def with_batch_def batch_upto_all)
qed

subsection \<open>The response loop ends\<close>

lemma forward_update:
  assumes "\<And>s. rerr (g s) = rerr s" "\<And>s. unread (g s) = unread s" "\<And>s. BytesLeft (g s) = BytesLeft s"
  shows "forward (modify g)"
  by (simp add: forward_def assms le_input_def)

lemma forward_on [forward_rules]: "forward (on_msg g)" "forward (on_conn f)" "forward ret_err" "forward set_end_of_response"
proof -
  show m: "forward (on_msg g)" for g unfolding on_msg_def by (rule forward_update) (simp_all add: unread_def BytesLeft_def)
  show "forward (on_conn f)" unfolding on_conn_def by (rule forward_update) (simp_all add: unread_def BytesLeft_def)
  show "forward ret_err" unfolding ret_err_def by (intro forward_rules)
  show "forward set_end_of_response" unfolding set_end_of_response_def by (intro forward_rules m)
qed

lemma forward_messages [forward_rules]:
  "forward processErrorInfo" "forward processWarningInfo" "forward (processKeywordValuePairs n)" "forward processServerSidePiggyback"
proof -
  have b: "forward (read_batch_codes k)" "forward (read_batch_offsets k j)" "forward (read_batch_messages k)" for k j
    unfolding read_batch_codes_def read_batch_offsets_def read_batch_messages_def read_batch_code_def read_batch_offset_def
      read_batch_message_def skip_item_length_def skip_list_end_def by (intro forward_rules)+
  show "forward processErrorInfo" unfolding processErrorInfo_def by (intro forward_rules b)
  show "forward processWarningInfo" unfolding processWarningInfo_def by (intro forward_rules)
  show k: "forward (processKeywordValuePairs n)" for n
    unfolding processKeywordValuePairs_def read_keyword_pair_def by (intro forward_rules)
  show "forward processServerSidePiggyback"
    unfolding processServerSidePiggyback_def skip_session_pair_def by (intro forward_rules k)
qed

lemma forward_base [forward_rules]: "forward p \<Longrightarrow> forward (processMessage_base p t)"
  unfolding processMessage_base_def by (intro forward_rules)

lemma forward_simple [forward_rules]: "forward (simple_handler t)"
  unfolding simple_handler_def processReturnParameters_base_def by (intro forward_rules)

lemma process_loop_returns:
  assumes "\<And>t. forward (h t)"
  shows "\<exists>r u. process_loop h s = Some (r, u)"
  using wf_less_input
proof (induction s rule: wf_induct_rule)
  case (less s)
  obtain t s1 where t: "run_state ReadUB1 s = (t, s1)" by fastforce
  obtain r s2 where r: "run_state (h t) s1 = (r, s2)" by fastforce
  show ?case
  proof (cases "endOfResponse (msg s) \<or> rerr s1 \<noteq> None \<or> isl r \<or> rerr s2 \<noteq> None")
    case True
    then show ?thesis using t r by (auto simp: process_loop.simps [of h s])
  next
    case False
    then have e: "process_loop h s = process_loop h s2" using t r by (auto simp: process_loop.simps [of h s])
    have "le_input s2 s1" using assms [of t] r False unfolding forward_def by (metis snd_conv)
    moreover have "(s1, s) \<in> less_input"
    proof -
      obtain b where "get_raw 1 s = (Some b, s1)"
        using t False get_raw_None [of 1 s s1] by (cases "get_raw 1 s"; cases "fst (get_raw 1 s)") (auto simp: ReadUB1_def)
      then show ?thesis using get_raw_progress by fastforce
    qed
    ultimately have "(s2, s) \<in> less_input" by (rule le_less_input_trans)
    then show ?thesis using less.IH e by simp
  qed
qed

lemma process_returns: "(\<And>t. forward (h t)) \<Longrightarrow> \<exists>r u. process h s = Some (r, u)"
  unfolding process_def by (rule process_loop_returns)

end
