(* ===== verification/TtcDescribe.thy ===== *)
theory TtcDescribe
  imports TtcReads
begin

text \<open>
  \<^verbatim>\<open>internal/ttc/describe.go\<close>: the description of one result column. The bytes of a description depend
  on the negotiated field version; whatever was negotiated, a column described in that layout is read
  back as described.
\<close>

definition FieldVersion12_2Ext1 :: u8 where "FieldVersion12_2Ext1 = 9"
definition FieldVersion19_1Ext1 :: u8 where "FieldVersion19_1Ext1 = 13"
definition FieldVersion23_1 :: u8 where "FieldVersion23_1 = 17"
definition FieldVersion23_1Ext3 :: u8 where "FieldVersion23_1Ext3 = 20"
definition FieldVersion23_4 :: u8 where "FieldVersion23_4 = 24"

definition udsFlagsIsJSON :: u32 where "udsFlagsIsJSON = 0x00000100"
definition udsFlagsIsOSON :: u32 where "udsFlagsIsOSON = 0x00000800"

definition skip_annotation :: "('z, unit) op" where
  "skip_annotation = do { _ \<leftarrow> ReadStrWithLength; _ \<leftarrow> ReadStrWithLength; SkipUB4 }"

definition skip_annotations :: "('z, unit) op" where
  "skip_annotations = do {
     n \<leftarrow> ReadUB4;
     if n > 0 then do {
       SkipUB1;
       n \<leftarrow> ReadUB4;
       SkipUB1;
       repeat_op (unat n) skip_annotation;
       SkipUB4 }
     else State_Monad.return () }"

definition read_domain :: "('z, bytes \<times> bytes) op" where
  "read_domain = do { a \<leftarrow> ReadStrWithLength; b \<leftarrow> ReadStrWithLength; State_Monad.return (a, b) }"

definition read_vector_info :: "('z, u32 \<times> u8 \<times> u8) op" where
  "read_vector_info = do { d \<leftarrow> ReadUB4; f \<leftarrow> ReadUB1; g \<leftarrow> ReadUB1; State_Monad.return (d, f, g) }"

text \<open>The character set form a column is left with.\<close>

definition effective_form :: "u8 \<Rightarrow> u8 \<Rightarrow> u8" where
  "effective_form typ form =
     (if typ = TypeVarchar \<or> typ = TypeChar \<or> typ = TypeLong \<or> typ = TypeClob then
        (if form = 0 then CSFormImplicit else form)
      else if typ \<noteq> TypeObject then 0 else form)"

definition processMetadata :: "('z, column) op" where
  "processMetadata = do {
     typ \<leftarrow> ReadUB1;
     SkipUB1;
     prec \<leftarrow> ReadSB1;
     scale \<leftarrow> ReadSB1;
     bufSize \<leftarrow> ReadUB4;
     SkipUB4; SkipUB8;
     oid \<leftarrow> ReadBytesWithLength;
     SkipUB2; SkipUB2;
     form \<leftarrow> ReadUB1;
     maxSize \<leftarrow> ReadUB4;
     v \<leftarrow> gets (\<lambda>s. TTCFieldVersion (caps s));
     (if v \<ge> FieldVersion12_2 then SkipUB4 else State_Monad.return ());
     nulls \<leftarrow> ReadUB1;
     SkipUB1;
     name \<leftarrow> ReadStrWithLength;
     schema \<leftarrow> ReadStrWithLength;
     typeName \<leftarrow> ReadStrWithLength;
     SkipUB2;
     uds \<leftarrow> ReadUB4;
     (dschema, dname) \<leftarrow> (if v \<ge> FieldVersion23_1 then read_domain else State_Monad.return ([], []));
     (if v \<ge> FieldVersion23_1Ext3 then skip_annotations else State_Monad.return ());
     (dims, vfmt, vflags) \<leftarrow> (if v \<ge> FieldVersion23_4 then read_vector_info else State_Monad.return (0, 0, 0));
     State_Monad.return \<lparr>Name = name, OraTypeNum = typ, CSForm = effective_form typ form, Precision = prec, Scale = scale,
       MaxSize = (if typ = TypeRaw then bufSize else maxSize), BufferSize = bufSize, NullsAllowed = (nulls \<noteq> 0),
       IsJSON = (uds AND udsFlagsIsJSON \<noteq> 0), IsOSON = (uds AND udsFlagsIsOSON \<noteq> 0),
       DomainSchema = dschema, DomainName = dname, VectorDimensions = dims, VectorFormat = vfmt, VectorFlags = vflags,
       ObjectTypeSchema = schema, ObjectTypeName = typeName, ObjectTypeOID = oid,
       FetchType = typ, FetchCSForm = effective_form typ form\<rparr> }"

subsection \<open>The layout of a description\<close>

text \<open>
  A column as the server describes it: the column, the form and size as sent, the flags, the
  annotations and the skipped fields.
\<close>

record description =
  de_column :: column
  de_form :: u8
  de_size :: u32
  de_nulls :: u8
  de_uds :: u32
  de_annotations :: "(bytes \<times> bytes) list"
  de_skipped :: "nat \<Rightarrow> u32"

definition text_bytes :: "bytes \<Rightarrow> bytes" where
  "text_bytes b = two_length_bytes (Some b)"

definition annotations_bytes :: "description \<Rightarrow> bytes" where
  "annotations_bytes d = (let as = de_annotations d; n = word_of_nat (length as) :: u32 in
     if as = [] then ub4_bytes 0 else
       ub4_bytes n @ [ucast (de_skipped d 20)] @ ub4_bytes n @ [ucast (de_skipped d 21)] @
       concat (map (\<lambda>i. text_bytes (fst (as ! i)) @ text_bytes (snd (as ! i)) @ ub4_bytes (de_skipped d (100 + i))) [0..<length as]) @
       ub4_bytes (de_skipped d 22))"

definition column_bytes :: "u8 \<Rightarrow> description \<Rightarrow> bytes" where
  "column_bytes v d = (let c = de_column d in
     [OraTypeNum c] @ [ucast (de_skipped d 0)] @ [word_of_int (Precision c)] @ [word_of_int (Scale c)] @
     ub4_bytes (BufferSize c) @ ub4_bytes (de_skipped d 1) @ ub8_bytes (ucast (de_skipped d 2)) @
     two_length_bytes (ObjectTypeOID c) @ ub2_bytes (ucast (de_skipped d 3)) @ ub2_bytes (ucast (de_skipped d 4)) @
     [de_form d] @ ub4_bytes (de_size d) @ (if v \<ge> FieldVersion12_2 then ub4_bytes (de_skipped d 5) else []) @
     [de_nulls d] @ [ucast (de_skipped d 6)] @ text_bytes (Name c) @ text_bytes (ObjectTypeSchema c) @ text_bytes (ObjectTypeName c) @
     ub2_bytes (ucast (de_skipped d 7)) @ ub4_bytes (de_uds d) @
     (if v \<ge> FieldVersion23_1 then text_bytes (DomainSchema c) @ text_bytes (DomainName c) else []) @
     (if v \<ge> FieldVersion23_1Ext3 then annotations_bytes d else []) @
     (if v \<ge> FieldVersion23_4 then ub4_bytes (VectorDimensions c) @ [VectorFormat c] @ [VectorFlags c] else []))"

text \<open>A description whose column is the one it stands for, and whose parts fit their length fields.\<close>

definition short_text :: "bytes \<Rightarrow> bool" where
  "short_text b \<longleftrightarrow> length b < 2 ^ 32"

definition describes :: "u8 \<Rightarrow> description \<Rightarrow> bool" where
  "describes v d \<longleftrightarrow> (let c = de_column d in
     - 128 \<le> Precision c \<and> Precision c < 128 \<and> - 128 \<le> Scale c \<and> Scale c < 128 \<and>
     CSForm c = effective_form (OraTypeNum c) (de_form d) \<and> FetchCSForm c = CSForm c \<and> FetchType c = OraTypeNum c \<and>
     MaxSize c = (if OraTypeNum c = TypeRaw then BufferSize c else de_size d) \<and> NullsAllowed c = (de_nulls d \<noteq> 0) \<and>
     IsJSON c = (de_uds d AND udsFlagsIsJSON \<noteq> 0) \<and> IsOSON c = (de_uds d AND udsFlagsIsOSON \<noteq> 0) \<and>
     ObjectTypeOID c \<noteq> Some [] \<and> (\<forall>b. ObjectTypeOID c = Some b \<longrightarrow> short_text b) \<and>
     short_text (Name c) \<and> short_text (ObjectTypeSchema c) \<and> short_text (ObjectTypeName c) \<and>
     short_text (DomainSchema c) \<and> short_text (DomainName c) \<and>
     list_all (\<lambda>(a, b). short_text a \<and> short_text b) (de_annotations d) \<and> length (de_annotations d) < 2 ^ 32 \<and>
     (v < FieldVersion23_1 \<longrightarrow> DomainSchema c = [] \<and> DomainName c = []) \<and>
     (v < FieldVersion23_4 \<longrightarrow> VectorDimensions c = 0 \<and> VectorFormat c = 0 \<and> VectorFlags c = 0))"

lemma reads_text [reads_rules]: "short_text b \<Longrightarrow> reads c ReadStrWithLength (text_bytes b) b"
  unfolding text_bytes_def short_text_def by (rule reads_written_two_lengths)

lemma reads_repeat:
  assumes "\<And>i. i < n \<Longrightarrow> reads c m (g i) ()"
  shows "reads c (repeat_op n m) (concat (map g [0..<n])) ()"
  using assms
proof (induction n arbitrary: g)
  case (Suc n)
  have e: "concat (map g [0..<Suc n]) = g 0 @ concat (map (\<lambda>i. g (Suc i)) [0..<n])"
    by (simp add: upt_conv_Cons map_Suc_upt [symmetric] comp_def del: upt_Suc)
  have "reads c (repeat_op n m) (concat (map (\<lambda>i. g (Suc i)) [0..<n])) ()" using Suc by simp
  then show ?case unfolding e repeat_op.simps by (intro reads_bind [of c m "g 0" "()"] Suc.prems) simp
qed (simp add: reads_return)

lemma reads_if: "(b \<Longrightarrow> reads c m bs v) \<Longrightarrow> (\<not> b \<Longrightarrow> w = v) \<Longrightarrow>
    reads c (if b then m else State_Monad.return w) (if b then bs else []) v"
  by (simp add: reads_return)

lemma reads_annotations:
  assumes "list_all (\<lambda>(a, b). short_text a \<and> short_text b) (de_annotations d)" "length (de_annotations d) < 2 ^ 32"
  shows "reads c skip_annotations (annotations_bytes d) ()"
proof (cases "de_annotations d = []")
  case True
  have "reads c skip_annotations (ub4_bytes 0 @ []) ()"
    unfolding skip_annotations_def by (rule reads_bind, rule reads_ub) (simp add: reads_return)
  then show ?thesis using True by (simp add: annotations_bytes_def)
next
  case False
  let ?as = "de_annotations d"
  have n: "unat (word_of_nat (length ?as) :: u32) = length ?as" using assms(2) by (simp add: unat_of_nat)
  have pos: "(word_of_nat (length ?as) :: u32) > 0" using n False by (simp add: word_less_nat_alt)
  have item: "reads c skip_annotation (text_bytes (fst (?as ! i)) @ text_bytes (snd (?as ! i)) @ ub4_bytes (de_skipped d (100 + i))) ()"
    if "i < length ?as" for i
  proof -
    have s: "short_text (fst (?as ! i))" "short_text (snd (?as ! i))"
      using assms(1) that by (auto simp: list_all_length case_prod_unfold)
    show ?thesis unfolding skip_annotation_def
      by (rule reads_bind, rule reads_text, rule s, rule reads_bind, rule reads_text, rule s, rule reads_skips)
  qed
  show ?thesis
    unfolding skip_annotations_def annotations_bytes_def Let_def if_not_P [OF False]
    by (rule reads_bind, rule reads_ub, unfold if_P [OF pos], rule reads_bind, rule reads_skips, rule reads_bind, rule reads_ub,
        rule reads_bind, rule reads_skips, rule reads_bind, unfold n, rule reads_repeat, erule item, rule reads_skips)
qed

lemma reads_ReadSB1: "- 128 \<le> i \<Longrightarrow> i < 128 \<Longrightarrow> reads c ReadSB1 [word_of_int i] i"
proof -
  assume "- 128 \<le> i" "i < 128"
  then have "sint (word_of_int i :: u8) = i" by (simp add: signed_take_bit_int_eq_self sint_sbintrunc')
  then show ?thesis unfolding ReadSB1_def by (intro reads_map [OF reads_ReadUB1]) simp
qed

lemma reads_oid:
  "oid \<noteq> Some [] \<Longrightarrow> (\<forall>b. oid = Some b \<longrightarrow> short_text b) \<Longrightarrow> reads c ReadBytesWithLength (two_length_bytes oid) oid"
  using reads_two_length_bytes [of oid c] by (simp add: short_text_def)

lemma reads_domain: "short_text a \<Longrightarrow> short_text b \<Longrightarrow> reads c read_domain (text_bytes a @ text_bytes b) (a, b)"
  unfolding read_domain_def by (rule reads_bind, erule reads_text, rule reads_map, erule reads_text, rule refl)

lemma reads_vector_info: "reads c read_vector_info (ub4_bytes x @ [f] @ [g]) (x, f, g)"
  unfolding read_vector_info_def
  by (rule reads_bind, rule reads_ub, rule reads_bind, rule reads_ReadUB1, rule reads_map, rule reads_ReadUB1, rule refl)

lemma reads_final: "reads c m bs v \<Longrightarrow> reads c (f v) [] w \<Longrightarrow> reads c (State_Monad.bind m f) bs w"
  using reads_bind [of c m bs v f "[]" w] by simp

lemma reads_value: "v = w \<Longrightarrow> reads c (State_Monad.return v) [] w"
  by (simp add: reads_return)

lemma reads_processMetadata:
  assumes "describes v d" "v = TTCFieldVersion c"
  shows "reads c processMetadata (column_bytes v d) (de_column d)"
proof -
  note d = assms(1) [unfolded describes_def Let_def]
  have t: "short_text (Name (de_column d))" "short_text (ObjectTypeSchema (de_column d))" "short_text (ObjectTypeName (de_column d))"
    "short_text (DomainSchema (de_column d))" "short_text (DomainName (de_column d))"
    and r: "- 128 \<le> Precision (de_column d)" "Precision (de_column d) < 128" "- 128 \<le> Scale (de_column d)" "Scale (de_column d) < 128"
    and o': "ObjectTypeOID (de_column d) \<noteq> Some []" "\<forall>b. ObjectTypeOID (de_column d) = Some b \<longrightarrow> short_text b"
    and a: "list_all (\<lambda>(a, b). short_text a \<and> short_text b) (de_annotations d)" "length (de_annotations d) < 2 ^ 32"
    using d by blast+
  have dom: "\<not> v \<ge> FieldVersion23_1 \<Longrightarrow> ([], []) = (DomainSchema (de_column d), DomainName (de_column d))"
    and vec: "\<not> v \<ge> FieldVersion23_4 \<Longrightarrow> (0, 0, 0) = (VectorDimensions (de_column d), VectorFormat (de_column d), VectorFlags (de_column d))"
    using d by auto
  show ?thesis
    unfolding processMetadata_def column_bytes_def Let_def
    by (rule reads_bind, rule reads_ReadUB1, rule reads_bind, rule reads_skips, rule reads_bind, rule reads_ReadSB1 [OF r(1,2)],
        rule reads_bind, rule reads_ReadSB1 [OF r(3,4)], rule reads_bind, rule reads_ub, rule reads_bind, rule reads_skips,
        rule reads_bind, rule reads_skips, rule reads_bind, rule reads_oid [OF o'], rule reads_bind, rule reads_skips,
        rule reads_bind, rule reads_skips, rule reads_bind, rule reads_ReadUB1, rule reads_bind, rule reads_ub,
        rule reads_seq0, rule reads_gets_caps, fold assms(2), rule reads_bind, rule reads_if, rule reads_skips, rule refl,
        rule reads_bind, rule reads_ReadUB1, rule reads_bind, rule reads_skips, rule reads_bind, rule reads_text [OF t(1)],
        rule reads_bind, rule reads_text [OF t(2)], rule reads_bind, rule reads_text [OF t(3)], rule reads_bind, rule reads_skips,
        rule reads_bind, rule reads_ub, rule reads_bind, rule reads_if, rule reads_domain [OF t(4,5)], erule dom, unfold prod.case,
        rule reads_bind, rule reads_if, rule reads_annotations [OF a], rule refl,
        rule reads_final, rule reads_if, rule reads_vector_info, erule vec, unfold prod.case,
        rule reads_value, rule column.equality)
      (use d in simp_all)
qed

end
