(* ===== verification/TtcExecute.thy ===== *)
theory TtcExecute
  imports TtcDescribe SqlParse
begin

text \<open>
  \<^verbatim>\<open>internal/ttc/execute.go\<close>: statements, and the execute and fetch messages. The store \<open>exec\<close> adds the
  statement a message is about and the fields of \<open>messageWithData\<close>. A statement made for an implicit
  result is a statement without one of its own, hence the two records. The row sink is the caller's
  code: what it was given is recorded as a list of events, and \<open>sink\<close> is the function by which it
  answers each call. Indexing a slice out of range is the error \<open>Panicked\<close>. The mutex of the connection
  is the flag \<open>locked\<close>: locking it again in the goroutine that holds it never returns, the error \<open>Deadlock\<close>.
\<close>

subsection \<open>Constants\<close>

definition ErrNoDataFound :: int where "ErrNoDataFound = 1403"
definition ErrArrayDMLErrors :: int where "ErrArrayDMLErrors = 24381"
definition ErrVarNotInSelectList :: int where "ErrVarNotInSelectList = 1007"
definition ErrInconsistentDataTypes :: int where "ErrInconsistentDataTypes = 932"
definition EscapeChar :: u8 where "EscapeChar = 253"
definition CharsetUTF8 :: u16 where "CharsetUTF8 = 873"

definition execOptionParse :: u32 where "execOptionParse = 0x01"
definition execOptionBind :: u32 where "execOptionBind = 0x08"
definition execOptionDefine :: u32 where "execOptionDefine = 0x10"
definition execOptionExecute :: u32 where "execOptionExecute = 0x20"
definition execOptionFetch :: u32 where "execOptionFetch = 0x40"
definition execOptionCommit :: u32 where "execOptionCommit = 0x100"
definition execOptionPLSQLBind :: u32 where "execOptionPLSQLBind = 0x400"
definition execOptionNotPLSQL :: u32 where "execOptionNotPLSQL = 0x8000"
definition execOptionDescribe :: u32 where "execOptionDescribe = 0x20000"
definition execOptionBatchErrors :: u32 where "execOptionBatchErrors = 0x80000"
definition execFlagsImplicitResultset :: u32 where "execFlagsImplicitResultset = 0x8000"

definition bindUseIndicators :: u8 where "bindUseIndicators = 0x0001"
definition bindDirInput :: u8 where "bindDirInput = 32"
definition maxLongLength :: u32 where "maxLongLength = 0x7fffffff"
definition maxURowidLength :: u32 where "maxURowidLength = 5267"
definition lobPrefetchFlag :: u64 where "lobPrefetchFlag = 0x2000000"

subsection \<open>Statements\<close>

record stmt = parsedSQL +
  sqlBytes :: bytes
  cursorID :: u16
  executed :: bool
  requiresDefine :: bool
  noPrefetch :: bool
  columns :: "column list"
  moreRows :: bool
  rowCount :: u64
  lastRowid :: bytes
  stmt_closed :: bool
  stmt_warning :: "ora_error option"
  outDirs :: "u8 list"
  outValues :: "bytes option list"
  outNull :: "bool list"
  isChild :: bool

record statement = stmt +
  implicit :: "stmt option"

text \<open>A bind variable; \<open>Value\<close> is the caller's function that yields the value for a row.\<close>

record bind_column =
  BindType :: u8
  BindCSForm :: u8
  BindBufferSize :: u32
  Value :: "nat \<Rightarrow> string + bytes option"

datatype sink_event = AppendValue nat bytes | AppendNull nat | AppendDuplicate nat | FinishRow

text \<open>
  The caller's sink: what a call returns, from the columns of the statement, which the sink may look at, and the
  calls before it.
\<close>

type_synonym row_sink = "column list \<Rightarrow> sink_event list \<Rightarrow> sink_event \<Rightarrow> string option"

record data_msg =
  sink :: "row_sink option"
  delivered :: "sink_event list"
  binds :: "bind_column list"
  numExecs :: nat
  prefetchRows :: int
  arraySize :: int
  autoCommit :: bool
  parseOnly :: bool
  useBatchErrors :: bool
  inFetch :: bool
  discardRows :: bool
  rowIndex :: nat
  bitVector :: bytes
  haveBitVector :: bool
  numColumnsSent :: u16
  outBindDirs :: "u8 list"
  outBinds :: "nat list"

record exec = ttc +
  stm :: statement
  dm :: data_msg
  locked :: bool

type_synonym ('z, 'a) exec_op = "('z exec_scheme, 'a) state"

definition on_stm :: "(statement \<Rightarrow> statement) \<Rightarrow> ('z, unit) exec_op" where
  "on_stm f = modify (\<lambda>s. s\<lparr>stm := f (stm s)\<rparr>)"

definition on_dm :: "(data_msg \<Rightarrow> data_msg) \<Rightarrow> ('z, unit) exec_op" where
  "on_dm f = modify (\<lambda>s. s\<lparr>dm := f (dm s)\<rparr>)"

text \<open>\<open>parseSQL\<close> works on the runes of the text.\<close>

fun utf8_runes :: "nat \<Rightarrow> bytes \<Rightarrow> rune list" where
  "utf8_runes 0 b = []"
| "utf8_runes (Suc k) b = (if b = [] then [] else let (r, n) = DecodeRune b in unat r # utf8_runes k (drop n b))"

definition new_statement :: "parsedSQL \<Rightarrow> bytes \<Rightarrow> stmt" where
  "new_statement p sql = parsedSQL.extend p (stmt.fields sql 0 False False False [] False 0 [] False None [] [] [] False)"

definition Prepare :: "unicode \<Rightarrow> bytes \<Rightarrow> statement" where
  "Prepare u sql = stmt.extend (new_statement (parseSQL u (utf8_runes (length sql) sql)) sql) (statement.fields None)"

definition IsQuery :: "'a stmt_scheme \<Rightarrow> bool" where
  "IsQuery s \<longleftrightarrow> kind s = KindQuery"

definition OutBindValue :: "nat \<Rightarrow> 'a stmt_scheme \<Rightarrow> ttc_error + bytes option \<times> bool" where
  "OutBindValue i s = (if i \<ge> length (outValues s) then Inr (None, True)
     else if i < length (outNull s) then Inr (outValues s ! i, outNull s ! i) else Inl Panicked)"

definition addCursorToClose :: "u16 \<Rightarrow> conn_state \<Rightarrow> conn_state" where
  "addCursorToClose id' c = (if id' \<noteq> 0 then c\<lparr>cursorsToClose := cursorsToClose c @ [id']\<rparr> else c)"

text \<open>\<open>Close\<close> takes the mutex of the connection.\<close>

definition Close_stmt :: "'a stmt_scheme \<Rightarrow> ('z, ttc_error + 'a stmt_scheme) exec_op" where
  "Close_stmt s =
     (if stmt_closed s then ok s
      else do {
        l \<leftarrow> gets locked;
        if l then throw Deadlock
        else do { on_conn (addCursorToClose (cursorID s)); ok (s\<lparr>stmt_closed := True, cursorID := 0\<rparr>) } })"

definition clearCursor :: "('z, unit) exec_op" where
  "clearCursor = do {
     s \<leftarrow> gets stm;
     on_conn (addCursorToClose (cursorID s));
     on_stm (\<lambda>s. s\<lparr>cursorID := 0, executed := False, requiresDefine := False, noPrefetch := False\<rparr>) }"

definition SetFetchTypes :: "(column \<Rightarrow> column) \<Rightarrow> 'a stmt_scheme \<Rightarrow> 'a stmt_scheme" where
  "SetFetchTypes fn s =
     (let cols = map fn (columns s); changed = list_ex (\<lambda>(a, b). FetchType a \<noteq> FetchType b) (zip (columns s) cols);
          s = s\<lparr>columns := cols\<rparr>
      in if changed then s\<lparr>requiresDefine := True, noPrefetch := True\<rparr> else s)"

definition defaultFetchTypes :: "column \<Rightarrow> column" where
  "defaultFetchTypes c =
     (if OraTypeNum c = TypeClob then c\<lparr>FetchType := TypeLong\<rparr>
      else if OraTypeNum c = TypeBlob then c\<lparr>FetchType := TypeLongRaw\<rparr> else c)"

subsection \<open>Describe information\<close>

definition needs_define :: "column \<Rightarrow> bool" where
  "needs_define c \<longleftrightarrow> OraTypeNum c = TypeBlob \<or> OraTypeNum c = TypeClob \<or> OraTypeNum c = TypeJSON \<or> OraTypeNum c = TypeVector"

fun read_columns :: "nat \<Rightarrow> 'a stmt_scheme \<Rightarrow> ('z, 'a stmt_scheme \<times> (ttc_error + column list)) op" where
  "read_columns 0 s = State_Monad.return (s, Inr [])"
| "read_columns (Suc n) s = do {
     c \<leftarrow> processMetadata;
     e \<leftarrow> ret_err;
     case e of Inl err \<Rightarrow> State_Monad.return (s, Inl err)
     | Inr _ \<Rightarrow> do {
         (s, r) \<leftarrow> read_columns n (if needs_define c then s\<lparr>requiresDefine := True, noPrefetch := True\<rparr> else s);
         State_Monad.return (s, map_sum id (\<lambda>cs. defaultFetchTypes c # cs) r) } }"

text \<open>The statement is updated in place, so it is returned beside the error.\<close>

definition describeInto :: "'a stmt_scheme \<Rightarrow> ('z, 'a stmt_scheme \<times> (ttc_error + unit)) op" where
  "describeInto s = do {
     SkipUB4;
     numColumns \<leftarrow> ReadUB4;
     (if numColumns > 0 then SkipUB1 else State_Monad.return ());
     (s, r) \<leftarrow> read_columns (unat numColumns) s;
     case r of Inl err \<Rightarrow> State_Monad.return (s, Inl err)
     | Inr cols \<Rightarrow> do {
         SkipBytesWithLength;
         SkipUB4; SkipUB4; SkipUB4; SkipUB4;
         SkipBytesWithLength;
         e \<leftarrow> ret_err;
         State_Monad.return (s\<lparr>columns := cols\<rparr>, e) } }"

definition processDescribeInfo :: "('z, ttc_error + unit) exec_op" where
  "processDescribeInfo = do {
     s \<leftarrow> gets stm;
     (s, r) \<leftarrow> describeInto s;
     on_stm (\<lambda>_. s);
     tryE (State_Monad.return r) (\<lambda>_. do {
       (if requiresDefine s then on_dm (\<lambda>m. m\<lparr>discardRows := True\<rparr>) else State_Monad.return ());
       ok () }) }"

subsection \<open>Errors and parameters\<close>

definition processReturnParameters_data :: "('z, ttc_error + unit) ttc_op" where
  "processReturnParameters_data = do {
     numParams \<leftarrow> ReadUB2;
     repeat_op (unat numParams) SkipUB4;
     n \<leftarrow> ReadUB2;
     (if n > 0 then SkipRawBytes (unat n) else State_Monad.return ());
     numPairs \<leftarrow> ReadUB2;
     processKeywordValuePairs numPairs;
     n \<leftarrow> ReadUB2;
     (if n > 0 then SkipRawBytes (unat n) else State_Monad.return ());
     ret_err }"

definition first_batch_text :: "ora_error \<Rightarrow> bytes" where
  "first_batch_text be = asc (''ORA-'' @ pad5 (Code be) @ '': '') @ Message be @ asc ('' (row offset '' @ dec_int (Offset be) @ '')'')"

text \<open>What the report does to the statement, once it has been read.\<close>

definition apply_error :: "('z, ttc_error + unit) exec_op" where
  "apply_error = do {
     b \<leftarrow> gets msg;
     d \<leftarrow> gets dm;
     (if errCursorID b \<noteq> 0 then on_stm (\<lambda>s. s\<lparr>cursorID := errCursorID b\<rparr>) else State_Monad.return ());
     k \<leftarrow> gets (\<lambda>s. kind (stm s));
     (if k \<noteq> KindPLSQL \<and> \<not> inFetch d then on_stm (\<lambda>s. s\<lparr>rowCount := RowCount (errInfo b)\<rparr>)
      else if inFetch d \<and> rowIndex d > 0 then on_stm (\<lambda>s. s\<lparr>requiresDefine := False\<rparr>)
      else State_Monad.return ());
     (let r = errRowid b in
      if RBA r \<noteq> 0 \<or> BlockNum r \<noteq> 0 \<or> SlotNum r \<noteq> 0 \<or> PartitionID r \<noteq> 0 then
        on_stm (\<lambda>s. s\<lparr>lastRowid := EncodeRowid (RBA r) (PartitionID r) (BlockNum r) (SlotNum r)\<rparr>)
      else State_Monad.return ());
     cid \<leftarrow> gets (\<lambda>s. cursorID (stm s));
     let code = Code (errInfo b);
     (if code = ErrNoDataFound \<and> inFetch d then do {
        on_msg (\<lambda>m. m\<lparr>errInfo := (errInfo m)\<lparr>Code := 0\<rparr>, errorOccurred := False\<rparr>);
        on_stm (\<lambda>s. s\<lparr>moreRows := False, requiresDefine := False\<rparr>) }
      else if code = ErrArrayDMLErrors then
        (case batchErrors b of [] \<Rightarrow> State_Monad.return ()
         | be # _ \<Rightarrow> on_msg (\<lambda>m. m\<lparr>errInfo := no_error\<lparr>Code := Code be, Message := first_batch_text be, Offset := Offset be\<rparr>\<rparr>))
      else if retry b then on_msg (\<lambda>m. m\<lparr>retry := False\<rparr>)
      else if k = KindQuery \<and> (code = ErrVarNotInSelectList \<or> code = ErrInconsistentDataTypes) then do {
        on_msg (\<lambda>m. m\<lparr>retry := True\<rparr>);
        clearCursor }
      else if code \<noteq> 0 \<and> cid \<noteq> 0 then
        (if code \<notin> integrityErrorCodes then clearCursor else State_Monad.return ())
      else State_Monad.return ());
     ok () }"

definition processErrorInfo_data :: "('z, ttc_error + unit) exec_op" where
  "processErrorInfo_data = tryE processErrorInfo (\<lambda>_. apply_error)"

subsection \<open>Rows\<close>

definition getBitVector :: "nat \<Rightarrow> ('z, unit) exec_op" where
  "getBitVector numBytes = do {
     b \<leftarrow> ReadRawBytes numBytes;
     case b of None \<Rightarrow> State_Monad.return ()
     | Some v \<Rightarrow> on_dm (\<lambda>m. m\<lparr>bitVector := v, haveBitVector := True\<rparr>) }"

definition processRowHeader :: "('z, ttc_error + unit) exec_op" where
  "processRowHeader = do {
     SkipUB1; SkipUB2; SkipUB4; SkipUB4; SkipUB2;
     numBytes \<leftarrow> ReadUB4;
     (if numBytes > 0 then do { SkipUB1; getBitVector (unat numBytes) } else State_Monad.return ());
     SkipBytesWithLength;
     ret_err }"

definition processBitVector :: "('z, ttc_error + unit) exec_op" where
  "processBitVector = do {
     n \<leftarrow> ReadUB2;
     on_dm (\<lambda>m. m\<lparr>numColumnsSent := n\<rparr>);
     k \<leftarrow> gets (\<lambda>s. length (columns (stm s)));
     getBitVector (k div 8 + (if k mod 8 > 0 then 1 else 0));
     ret_err }"

definition isDuplicate :: "data_msg \<Rightarrow> nat \<Rightarrow> ttc_error + bool" where
  "isDuplicate m col =
     (if \<not> haveBitVector m then Inr False
      else if col div 8 < length (bitVector m) then Inr (bitVector m ! (col div 8) AND push_bit (col mod 8) 1 = 0)
      else Inl Panicked)"

fun read_directions :: "nat \<Rightarrow> nat \<Rightarrow> u8 list \<Rightarrow> nat list \<Rightarrow> ('z, u8 list \<times> nat list) op" where
  "read_directions 0 i dirs outs = State_Monad.return (dirs, outs)"
| "read_directions (Suc n) i dirs outs = do {
     d \<leftarrow> ReadUB1;
     read_directions n (i + 1) (dirs @ [d]) (if d \<noteq> bindDirInput then outs @ [i] else outs) }"

definition processIOVector :: "('z, ttc_error + unit) exec_op" where
  "processIOVector = do {
     SkipUB1;
     numRequests \<leftarrow> ReadUB2;
     numIters \<leftarrow> ReadUB4;
     SkipUB4; SkipUB2;
     n \<leftarrow> ReadUB2;
     (if n > 0 then SkipRawBytes (unat n) else State_Monad.return ());
     n \<leftarrow> ReadUB2;
     (if n > 0 then SkipRawBytes (unat n) else State_Monad.return ());
     (dirs, outs) \<leftarrow> read_directions (unat numIters * 256 + unat numRequests) 0 [] [];
     on_dm (\<lambda>m. m\<lparr>outBindDirs := dirs, outBinds := outs\<rparr>);
     on_stm (\<lambda>s. s\<lparr>outDirs := dirs\<rparr>);
     d \<leftarrow> gets dm;
     if outs \<noteq> [] \<and> numExecs d > 1 then
       throw (Msg ''PL/SQL blocks with OUT / IN OUT binds cannot be executed with multiple bind rows'')
     else do {
       on_stm (\<lambda>s. s\<lparr>outValues := replicate (length (binds d)) None, outNull := replicate (length (binds d)) True\<rparr>);
       ret_err } }"

definition child_statement :: stmt where
  "child_statement = (new_statement \<lparr>kind = KindQuery, bindNames = [], isReturning = False\<rparr> [])\<lparr>moreRows := True, isChild := True\<rparr>"

fun read_implicit :: "nat \<Rightarrow> ('z, ttc_error + unit) exec_op" where
  "read_implicit 0 = ok ()"
| "read_implicit (Suc k) = do {
     n \<leftarrow> ReadUB1;
     SkipRawBytes (unat n);
     (child, r) \<leftarrow> describeInto child_statement;
     tryE (State_Monad.return r) (\<lambda>_. do {
       cid \<leftarrow> ReadUB2;
       i \<leftarrow> gets (\<lambda>s. implicit (stm s));
       case i of
         None \<Rightarrow> do { on_stm (\<lambda>s. s\<lparr>implicit := Some (child\<lparr>cursorID := cid\<rparr>)\<rparr>); read_implicit k }
       | Some _ \<Rightarrow> tryE (Close_stmt (child\<lparr>cursorID := cid\<rparr>)) (\<lambda>_. read_implicit k) }) }"

definition processImplicitResult :: "('z, ttc_error + unit) exec_op" where
  "processImplicitResult = do { n \<leftarrow> ReadUB4; tryE (read_implicit (unat n)) (\<lambda>_. ret_err) }"

text \<open>The value of an OUT bind, and its indicator.\<close>

definition read_out_value :: "nat \<Rightarrow> bind_column \<Rightarrow> ('z, ttc_error + bytes option) op" where
  "read_out_value i b =
     (if BindType b = TypeRowid \<or> BindType b = TypeURowid then
        do { (v, present) \<leftarrow> ReadStr False; ok (if present then Some v else None) }
      else if BindType b \<in> {TypeClob, TypeBlob, TypeBfile, TypeCursor, TypeObject, TypeJSON, TypeVector} then
        throw (OutBindUnsupported (i + 1) (TypeName (type_column (BindType b))))
      else do {
        v \<leftarrow> ReadRawBytesAndLength;
        ok (case v of None \<Rightarrow> None | Some d \<Rightarrow> Some (if BindCSForm b = CSFormNChar then DecodeUTF16BE d else d)) })"

fun read_out_binds :: "nat list \<Rightarrow> ('z, ttc_error + unit) exec_op" where
  "read_out_binds [] = ok ()"
| "read_out_binds (i # is) = do {
     bs \<leftarrow> gets (\<lambda>s. binds (dm s));
     if i \<ge> length bs then throw Panicked
     else tryE (read_out_value i (bs ! i)) (\<lambda>v. do {
       actual \<leftarrow> ReadSB4;
       tryE ret_err (\<lambda>_. do {
         let v' = (if actual < 0 \<and> BindType (bs ! i) = TypeBoolean then None else v);
         ov \<leftarrow> gets (\<lambda>s. length (outValues (stm s)));
         if i \<ge> ov then throw Panicked
         else do {
           on_stm (\<lambda>s. s\<lparr>outValues := (outValues s)[i := v'], outNull := (outNull s)[i := (v' = None)]\<rparr>);
           read_out_binds is } }) }) }"

definition processOutBinds :: "('z, ttc_error + unit) exec_op" where
  "processOutBinds = do {
     is \<leftarrow> gets (\<lambda>s. outBinds (dm s));
     tryE (read_out_binds is) (\<lambda>_. do { on_dm (\<lambda>m. m\<lparr>rowIndex := rowIndex m + 1\<rparr>); ret_err }) }"

text \<open>The value of one column in the encoding of its fetch type; \<open>None\<close> is NULL.\<close>

definition read_lob_locator :: "u8 \<Rightarrow> ('z, unit) op" where
  "read_lob_locator typ = do {
     n \<leftarrow> ReadUB4;
     if n > 0 then do {
       (if typ \<noteq> TypeBfile then do { SkipUB8; SkipUB4 } else State_Monad.return ());
       SkipBytes }
     else State_Monad.return () }"

definition read_object_image :: "('z, bytes option) op" where
  "read_object_image = do {
     _ \<leftarrow> ReadBytesWithLength; _ \<leftarrow> ReadBytesWithLength;
     SkipBytesWithLength; SkipUB2;
     n \<leftarrow> ReadUB4;
     SkipUB2;
     if n = 0 then State_Monad.return None else ReadRawBytesAndLength }"

definition read_prefetched_lob :: "('z, bytes option) op" where
  "read_prefetched_lob = do {
     n \<leftarrow> ReadUB4;
     if n = 0 then State_Monad.return None
     else do { SkipUB8; SkipUB4; d \<leftarrow> ReadBytes; SkipBytes; State_Monad.return d } }"

definition read_column_value :: "column \<Rightarrow> ('z, ttc_error + bytes option) op" where
  "read_column_value col =
     (let typ = FetchType col in
      if typ = TypeRowid then do {
        n \<leftarrow> ReadUB1;
        if n = 0 \<or> n = NullLengthIndicator then ok None
        else do { r \<leftarrow> ReadRowid; ok (Some (EncodeRowid (RBA r) (PartitionID r) (BlockNum r) (SlotNum r))) } }
      else if typ = TypeURowid then do {
        first \<leftarrow> ReadRawBytesAndLength;
        case first of None \<Rightarrow> ok None
        | Some _ \<Rightarrow> do { raw \<leftarrow> ReadRawBytesAndLength; ok (Some (DecodeURowid (case raw of None \<Rightarrow> [] | Some b \<Rightarrow> b))) } }
      else if typ = TypeCursor then throw (Msg ''REF CURSOR columns are not supported'')
      else if typ = TypeClob \<or> typ = TypeBlob \<or> typ = TypeBfile then do { read_lob_locator typ; ok None }
      else if typ = TypeJSON \<or> typ = TypeVector then do { d \<leftarrow> read_prefetched_lob; ok d }
      else if typ = TypeObject then do { d \<leftarrow> read_object_image; ok d }
      else do {
        d \<leftarrow> ReadRawBytesAndLength;
        ok (case d of None \<Rightarrow> None | Some b \<Rightarrow>
          Some (if FetchCSForm col = CSFormNChar \<and> (typ = TypeVarchar \<or> typ = TypeChar \<or> typ = TypeLong)
                then DecodeUTF16BE b else b)) })"

definition sink_call :: "sink_event \<Rightarrow> ('z, ttc_error + unit) exec_op" where
  "sink_call ev = do {
     m \<leftarrow> gets dm;
     cols \<leftarrow> gets (\<lambda>s. columns (stm s));
     on_dm (\<lambda>m. m\<lparr>delivered := delivered m @ [ev]\<rparr>);
     case sink m of None \<Rightarrow> throw Panicked
     | Some f \<Rightarrow> (case f cols (delivered m) ev of None \<Rightarrow> ok () | Some err \<Rightarrow> throw (SinkErr err)) }"

definition processColumnData :: "nat \<Rightarrow> column \<Rightarrow> bool \<Rightarrow> ('z, ttc_error + unit) exec_op" where
  "processColumnData idx col deliver = do {
     fetching \<leftarrow> gets (\<lambda>s. inFetch (dm s));
     let typ = FetchType col;
     if BufferSize col = 0 \<and> fetching \<and> typ \<noteq> TypeLong \<and> typ \<noteq> TypeLongRaw \<and> typ \<noteq> TypeURowid then
       (if deliver then sink_call (AppendNull idx) else ok ())
     else tryE (read_column_value col) (\<lambda>v.
       tryE ret_err (\<lambda>_. do {
         (if fetching \<and> (typ = TypeLong \<or> typ = TypeLongRaw) then do { SkipSB4; SkipUB4 } else State_Monad.return ());
         if \<not> deliver then ret_err
         else case v of None \<Rightarrow> sink_call (AppendNull idx) | Some b \<Rightarrow> sink_call (AppendValue idx b) })) }"

fun read_row :: "bool \<Rightarrow> nat \<Rightarrow> column list \<Rightarrow> ('z, ttc_error + unit) exec_op" where
  "read_row deliver i [] = ok ()"
| "read_row deliver i (col # cols) = do {
     m \<leftarrow> gets dm;
     tryE (State_Monad.return (if inFetch m then isDuplicate m i else Inr False)) (\<lambda>dup.
       tryE (if dup then (if deliver then sink_call (AppendDuplicate i) else ok ()) else processColumnData i col deliver)
         (\<lambda>_. read_row deliver (i + 1) cols)) }"

definition processRowData :: "('z, ttc_error + unit) exec_op" where
  "processRowData = do {
     m \<leftarrow> gets dm;
     cols \<leftarrow> gets (\<lambda>s. columns (stm s));
     if \<not> inFetch m \<and> outBinds m \<noteq> [] then processOutBinds
     else
       let deliver = (sink m \<noteq> None \<and> \<not> discardRows m \<and> inFetch m) in
       tryE (read_row deliver 0 cols) (\<lambda>_. do {
         on_dm (\<lambda>m. m\<lparr>rowIndex := rowIndex m + 1\<rparr>);
         (if inFetch m then on_dm (\<lambda>m. m\<lparr>haveBitVector := False\<rparr>) else State_Monad.return ());
         tryE (if deliver then sink_call FinishRow else ok ()) (\<lambda>_. ret_err) }) }"

definition data_handler :: "u8 \<Rightarrow> ('z, ttc_error + unit) exec_op" where
  "data_handler msgType =
     (if msgType = MsgTypeRowHeader then processRowHeader
      else if msgType = MsgTypeRowData then processRowData
      else if msgType = MsgTypeFlushOutBinds then do {
        on_msg (\<lambda>m. m\<lparr>flushOutBinds := True, endOfResponse := True\<rparr>); ok () }
      else if msgType = MsgTypeDescribeInfo then do { SkipBytes; processDescribeInfo }
      else if msgType = MsgTypeError then processErrorInfo_data
      else if msgType = MsgTypeBitVector then processBitVector
      else if msgType = MsgTypeIOVector then processIOVector
      else if msgType = MsgTypeImplicitResultset then processImplicitResult
      else processMessage_base processReturnParameters_data msgType)"

end
