(* ===== verification/GoText.thy ===== *)
theory GoText
  imports TtcExecute
begin

text \<open>
  The parts of Go's \<^verbatim>\<open>strings\<close> and \<^verbatim>\<open>strconv\<close> the upper layers use, on byte strings. Case mapping beyond
  ASCII is the parameter \<open>T\<close>, a function on runes; \<open>ascii_upper_table\<close> and \<open>ascii_lower_table\<close> are
  instances for texts where only ASCII letters have cases.
\<close>

fun index_of :: "'a list \<Rightarrow> 'a list \<Rightarrow> nat option" where
  "index_of p [] = (if p = [] then Some 0 else None)"
| "index_of p (x # xs) = (if take (length p) (x # xs) = p then Some 0 else map_option Suc (index_of p xs))"

definition HasPrefix :: "'a list \<Rightarrow> 'a list \<Rightarrow> bool" where
  "HasPrefix s p \<longleftrightarrow> take (length p) s = p"

definition Contains :: "'a list \<Rightarrow> 'a list \<Rightarrow> bool" where
  "Contains s p \<longleftrightarrow> index_of p s \<noteq> None"

definition replace_byte :: "'a \<Rightarrow> 'a list \<Rightarrow> 'a list \<Rightarrow> 'a list" where
  "replace_byte c new s = concat (map (\<lambda>x. if x = c then new else [x]) s)"

definition map_runes :: "(nat \<Rightarrow> nat) \<Rightarrow> bytes \<Rightarrow> bytes" where
  "map_runes T s = concat (map (\<lambda>r. EncodeRune (word_of_nat (T r))) (utf8_runes (length s) s))"

definition ascii_lower_table :: "nat \<Rightarrow> nat" where
  "ascii_lower_table r = (if 65 \<le> r \<and> r \<le> 90 then r + 32 else r)"

definition ascii_upper_table :: "nat \<Rightarrow> nat" where
  "ascii_upper_table r = (if 97 \<le> r \<and> r \<le> 122 then r - 32 else r)"

text \<open>What Unicode and Go agree on: the cases of ASCII runes.\<close>

definition lower_table_ok :: "(nat \<Rightarrow> nat) \<Rightarrow> bool" where
  "lower_table_ok T \<longleftrightarrow> (\<forall>r < 128. T r = ascii_lower_table r)"

definition upper_table_ok :: "(nat \<Rightarrow> nat) \<Rightarrow> bool" where
  "upper_table_ok T \<longleftrightarrow> (\<forall>r < 128. T r = ascii_upper_table r)"

definition is_ascii :: "bytes \<Rightarrow> bool" where
  "is_ascii s \<longleftrightarrow> (\<forall>b \<in> set s. b < 128)"

text \<open>On ASCII text a case mapping works byte by byte.\<close>

lemma unat_up32: "unat (ucast (b :: u8) :: u32) = unat b"
proof -
  have "unat b < 2 ^ 32" using unsigned_less [of b] by (rule less_trans) simp
  then show ?thesis by (simp add: unsigned_ucast_eq take_bit_nat_eq_self)
qed

lemma utf8_runes_ascii: "is_ascii s \<Longrightarrow> length s \<le> k \<Longrightarrow> utf8_runes k s = map unat s"
proof (induction k arbitrary: s)
  case (Suc k)
  show ?case
  proof (cases s)
    case (Cons b t)
    then have "DecodeRune s = (ucast b, 1)" using Suc.prems by (simp add: DecodeRune_def is_ascii_def RuneSelf_def)
    then show ?thesis using Cons Suc by (simp add: is_ascii_def unat_up32)
  qed simp
qed simp

lemma EncodeRune_ascii: "n < 128 \<Longrightarrow> EncodeRune (word_of_nat n) = [word_of_nat n]"
proof -
  assume n: "n < 128"
  then have "unat (word_of_nat n :: u32) = n" by (simp add: unat_of_nat)
  with n have "(word_of_nat n :: u32) < 0x80" by (simp add: word_less_nat_alt)
  moreover from this have "\<not> (word_of_nat n :: u32) > 0x10FFFF" "\<not> (0xD800 \<le> (word_of_nat n :: u32))"
    by (simp_all add: word_less_nat_alt word_le_nat_alt)
  moreover have "(ucast (word_of_nat n :: u32) :: u8) = word_of_nat n"
  proof (rule unsigned_word_eqI)
    show "unat (ucast (word_of_nat n :: u32) :: u8) = unat (word_of_nat n :: u8)"
      using n by (simp add: unsigned_ucast_eq unat_of_nat take_bit_nat_eq_self)
  qed
  ultimately show ?thesis by (simp add: EncodeRune_def Let_def)
qed

lemma map_runes_ascii:
  assumes "is_ascii s" "\<And>b. b \<in> set s \<Longrightarrow> T (unat b) < 128"
  shows "map_runes T s = map (\<lambda>b. word_of_nat (T (unat b))) s"
  using assms(2) unfolding map_runes_def utf8_runes_ascii [OF assms(1) order_refl]
  by (induction s) (simp_all add: EncodeRune_ascii)

subsection \<open>Numbers\<close>

definition is_digit :: "u8 \<Rightarrow> bool" where
  "is_digit c \<longleftrightarrow> 48 \<le> c \<and> c \<le> 57"

definition digits_val :: "bytes \<Rightarrow> nat" where
  "digits_val = foldl (\<lambda>n c. n * 10 + unat (c - 48)) 0"

text \<open>\<^verbatim>\<open>strconv.ParseUint(s, 10, bits)\<close>: the value, and whether there was an error.\<close>

definition ParseUint :: "nat \<Rightarrow> bytes \<Rightarrow> nat \<times> bool" where
  "ParseUint bits s =
     (if s = [] \<or> \<not> list_all is_digit s then (0, True)
      else if digits_val s \<ge> 2 ^ bits then (2 ^ bits - 1, True)
      else (digits_val s, False))"

text \<open>\<^verbatim>\<open>strconv.Atoi\<close> and \<^verbatim>\<open>strconv.ParseInt(s, 10, 64)\<close>: out of range, the value is the nearest \<open>int64\<close>.\<close>

definition Atoi :: "bytes \<Rightarrow> int \<times> bool" where
  "Atoi s =
     (let neg = (s \<noteq> [] \<and> hd s = 45); d = (if s \<noteq> [] \<and> (hd s = 45 \<or> hd s = 43) then tl s else s) in
      if d = [] \<or> \<not> list_all is_digit d then (0, True)
      else if neg then (if digits_val d > 2 ^ 63 then (- (2 ^ 63), True) else (- int (digits_val d), False))
      else (if digits_val d \<ge> 2 ^ 63 then (2 ^ 63 - 1, True) else (int (digits_val d), False)))"

lemma Atoi_range: "- (2 ^ 63) \<le> fst (Atoi s) \<and> fst (Atoi s) < 2 ^ 63"
  by (auto simp: Atoi_def Let_def)

text \<open>\<^verbatim>\<open>strconv.Itoa\<close>.\<close>

definition itoa_bytes :: "int \<Rightarrow> bytes" where
  "itoa_bytes n = asc (dec_int n)"

end
