(* ===== verification/ObjType.thy ===== *)
theory ObjType
  imports GoText ObjImage
begin

text \<open>
  \<^verbatim>\<open>internal/ttc/objtype.go\<close>: the metadata of object types, resolved from the data dictionary. The query
  is the parameter \<open>q\<close>: it takes the SQL, the values of its binds and a state, and returns rows or an
  error. The cache maps \<^verbatim>\<open>schema.name\<close> to the resolved type, or to \<open>None\<close> while it is being resolved.
  The recursion follows the dictionary, so it takes fuel; \<open>None\<close> is a resolution that is deeper.
\<close>

definition FQN :: "ObjectType \<Rightarrow> bytes" where
  "FQN t = Schema t @ asc ''.'' @ TypName t"

definition attr_TypeName :: "AttrMeta \<Rightarrow> bytes" where
  "attr_TypeName a =
     (case ObjType a of Some t \<Rightarrow> FQN t
      | None \<Rightarrow> TypeName ((type_column (AttrType a))\<lparr>CSForm := AttrCSForm a, Scale := AttrScale a\<rparr>))"

subsection \<open>Rows of a dictionary query\<close>

text \<open>A row is its values with their null marks; a null has the empty text.\<close>

type_synonym dictRow = "(bytes \<times> bool) list"

record dictSink =
  dict_rows :: "dictRow list"
  dict_cur :: dictRow
  dict_last :: dictRow

definition decodeNumberText :: "bytes \<Rightarrow> number_error + bytes" where
  "decodeNumberText b = map_sum id Text (DecodeNumber b)"

text \<open>The calls of the sink; \<open>cols\<close> are the columns of the statement.\<close>

definition dict_append :: "column list \<Rightarrow> sink_event \<Rightarrow> dictSink \<Rightarrow> (string + number_error) + dictSink" where
  "dict_append cols e s =
     (case e of
        AppendValue col b \<Rightarrow>
          (if col \<ge> length cols then Inl (Inl ''panic'')
           else if FetchType (cols ! col) = TypeNumber \<or> FetchType (cols ! col) = TypeBinaryInteger then
             (case decodeNumberText b of Inl err \<Rightarrow> Inl (Inr err) | Inr v \<Rightarrow> Inr (s\<lparr>dict_cur := dict_cur s @ [(v, False)]\<rparr>))
           else Inr (s\<lparr>dict_cur := dict_cur s @ [(b, False)]\<rparr>))
      | AppendNull _ \<Rightarrow> Inr (s\<lparr>dict_cur := dict_cur s @ [([], True)]\<rparr>)
      | AppendDuplicate col \<Rightarrow>
          (if col < length (dict_last s) then Inr (s\<lparr>dict_cur := dict_cur s @ [dict_last s ! col]\<rparr>) else Inl (Inl ''panic''))
      | FinishRow \<Rightarrow> Inr (s\<lparr>dict_rows := dict_rows s @ [dict_cur s], dict_last := dict_cur s, dict_cur := []\<rparr>))"

subsection \<open>Attributes\<close>

datatype type_error = RecursiveType bytes | TypeNotFound bytes | CollectionNotFound bytes | UnsupportedAttribute bytes bytes
  | DictError string | DictPanic

text \<open>The type name without a first parenthesized part: \<open>TIMESTAMP(6) WITH TIME ZONE\<close> has base \<open>TIMESTAMP WITH TIME ZONE\<close>.\<close>

definition base_type :: "bytes \<Rightarrow> bytes" where
  "base_type n =
     (let base = (case index_of [40] n of Some i \<Rightarrow>
            (if i > 0 then (case index_of [41] n of Some j \<Rightarrow> (if j > i then take i n @ drop (j + 1) n else n) | None \<Rightarrow> n) else n)
          | None \<Rightarrow> n)
      in trim_space base)"

text \<open>Type number, character set form, precision and scale by base type.\<close>

definition scalar_type :: "bytes \<Rightarrow> int \<Rightarrow> bool \<Rightarrow> int \<Rightarrow> bool \<Rightarrow> (u8 \<times> u8 \<times> int \<times> int) option" where
  "scalar_type base p precNull s scaleNull =
     (let is_in = (\<lambda>l. base \<in> set (map asc l)); pre = (\<lambda>l. HasPrefix base (asc l)) in
      if is_in [''VARCHAR2'', ''VARCHAR'', ''NVARCHAR2''] then Some (TypeVarchar, CSFormImplicit, 0, 0)
      else if is_in [''CHAR'', ''NCHAR''] then Some (TypeChar, CSFormImplicit, 0, 0)
      else if is_in [''NUMBER'', ''DECIMAL'', ''NUMERIC''] then
        Some (TypeNumber, 0, if precNull then 0 else int8_of p, if \<not> scaleNull then int8_of s else if precNull then - 127 else 0)
      else if is_in [''INTEGER'', ''SMALLINT'', ''INT''] then Some (TypeNumber, 0, 38, 0)
      else if is_in [''FLOAT'', ''REAL'', ''DOUBLE PRECISION''] then Some (TypeNumber, 0, 0, - 127)
      else if is_in [''BINARY_FLOAT''] then Some (TypeBinaryFloat, 0, 0, 0)
      else if is_in [''BINARY_DOUBLE''] then Some (TypeBinaryDouble, 0, 0, 0)
      else if is_in [''BINARY_INTEGER'', ''PLS_INTEGER''] then Some (TypeBinaryInteger, 0, 0, 0)
      else if is_in [''RAW''] then Some (TypeRaw, 0, 0, 0)
      else if is_in [''DATE''] then Some (TypeDate, 0, 0, 0)
      else if pre ''TIMESTAMP'' \<and> Contains base (asc ''LOCAL'') then Some (TypeTimestampLTZ, 0, 0, int8_of s)
      else if pre ''TIMESTAMP'' \<and> Contains base (asc ''TIME ZONE'') then Some (TypeTimestampTZ, 0, 0, int8_of s)
      else if pre ''TIMESTAMP'' then Some (TypeTimestamp, 0, 0, int8_of s)
      else if pre ''INTERVAL DAY'' then Some (TypeIntervalDS, 0, 0, int8_of s)
      else if pre ''INTERVAL YEAR'' then Some (TypeIntervalYM, 0, 0, 0)
      else if is_in [''CLOB'', ''NCLOB''] then Some (TypeClob, CSFormImplicit, 0, 0)
      else if is_in [''BLOB''] then Some (TypeBlob, 0, 0, 0)
      else if is_in [''BFILE''] then Some (TypeBfile, 0, 0, 0)
      else if is_in [''BOOLEAN''] then Some (TypeBoolean, 0, 0, 0)
      else if is_in [''ROWID'', ''UROWID''] then Some (TypeVarchar, CSFormImplicit, 0, 0)
      else if is_in [''JSON''] then Some (TypeJSON, 0, 0, 0)
      else None)"

text \<open>The row of an attribute or element: name, owner, type, length, precision, scale, character set.\<close>

definition scalar_attr :: "bytes \<Rightarrow> bytes \<Rightarrow> bytes \<Rightarrow> bytes \<times> bool \<Rightarrow> bytes \<times> bool \<Rightarrow> bytes \<Rightarrow> type_error + AttrMeta" where
  "scalar_attr name typeName len prec scale charset =
     (let base = base_type typeName; nchar = (charset = asc ''NCHAR_CS'') in
      case scalar_type base (fst (Atoi (fst prec))) (snd prec) (fst (Atoi (fst scale))) (snd scale) of
        None \<Rightarrow> Inl (UnsupportedAttribute name typeName)
      | Some (t, cs, p, s) \<Rightarrow>
          (let cs = (if nchar \<and> cs \<noteq> 0 then CSFormNChar else cs);
               cs = (if HasPrefix typeName (asc ''N'') \<and> base \<in> set (map asc [''NVARCHAR2'', ''NCHAR'', ''NCLOB'']) then CSFormNChar else cs)
           in Inr (AttrMeta name t cs p s (fst (Atoi len)) None)))"

subsection \<open>Resolution\<close>

type_synonym type_cache = "bytes \<rightharpoonup> ObjectType option"

type_synonym 's query = "bytes \<Rightarrow> bytes list \<Rightarrow> 's \<Rightarrow> (string + dictRow list) \<times> 's"

definition type_query :: bytes where
  "type_query = asc ''SELECT TYPECODE FROM ALL_TYPES WHERE OWNER = :1 AND TYPE_NAME = :2''"

definition coll_query :: bytes where
  "coll_query = asc ''SELECT COLL_TYPE, UPPER_BOUND, ELEM_TYPE_OWNER, ELEM_TYPE_NAME, LENGTH, PRECISION, SCALE, CHARACTER_SET_NAME'' @
     [10, 9, 9, 9] @ asc ''FROM ALL_COLL_TYPES WHERE OWNER = :1 AND TYPE_NAME = :2''"

definition attrs_query :: bytes where
  "attrs_query = asc ''SELECT ATTR_NAME, ATTR_TYPE_OWNER, ATTR_TYPE_NAME, LENGTH, PRECISION, SCALE, CHARACTER_SET_NAME'' @
     [10, 9, 9] @ asc ''FROM ALL_TYPE_ATTRS WHERE OWNER = :1 AND TYPE_NAME = :2 ORDER BY ATTR_NO''"

type_synonym ('s, 'a) type_op = "type_cache \<times> 's \<Rightarrow> ((type_error + 'a) \<times> type_cache \<times> 's) option"

definition thenT :: "('s, 'a) type_op \<Rightarrow> ('a \<Rightarrow> ('s, 'b) type_op) \<Rightarrow> ('s, 'b) type_op" where
  "thenT m f s = (case m s of None \<Rightarrow> None | Some (Inl e, s) \<Rightarrow> Some (Inl e, s) | Some (Inr x, s) \<Rightarrow> f x s)"

definition retT :: "'a \<Rightarrow> ('s, 'a) type_op" where
  "retT x s = Some (Inr x, s)"

definition failT :: "type_error \<Rightarrow> ('s, 'a) type_op" where
  "failT e s = Some (Inl e, s)"

definition run_query :: "'s query \<Rightarrow> bytes \<Rightarrow> bytes list \<Rightarrow> ('s, dictRow list) type_op" where
  "run_query q sql args = (\<lambda>(c, s). case q sql args s of (Inl e, s) \<Rightarrow> Some (Inl (DictError e), (c, s)) | (Inr rows, s) \<Rightarrow> Some (Inr rows, (c, s)))"

definition type_key :: "bytes \<Rightarrow> bytes \<Rightarrow> bytes" where
  "type_key sch name = sch @ asc ''.'' @ name"

text \<open>A row has as many values as the query selects; a shorter one would be indexed out of range.\<close>

definition with_row :: "nat \<Rightarrow> dictRow \<Rightarrow> ('s, 'a) type_op \<Rightarrow> ('s, 'a) type_op" where
  "with_row n r m = (if length r < n then failT DictPanic else m)"

definition attrMeta :: "(bytes \<Rightarrow> bytes \<Rightarrow> ('s, ObjectType) type_op) \<Rightarrow> bytes \<Rightarrow> dictRow \<Rightarrow> ('s, AttrMeta) type_op" where
  "attrMeta resolve name r =
     (if \<not> snd (r ! 0) \<and> fst (r ! 0) \<noteq> [] then
        thenT (resolve (fst (r ! 0)) (fst (r ! 1))) (\<lambda>t. retT (AttrMeta name TypeObject 0 0 0 0 (Some t)))
      else case scalar_attr name (fst (r ! 1)) (fst (r ! 2)) (r ! 3) (r ! 4) (fst (r ! 5)) of
        Inl e \<Rightarrow> failT e | Inr a \<Rightarrow> retT a)"

fun attrs_meta :: "(bytes \<Rightarrow> bytes \<Rightarrow> ('s, ObjectType) type_op) \<Rightarrow> dictRow list \<Rightarrow> ('s, AttrMeta list) type_op" where
  "attrs_meta resolve [] = retT []"
| "attrs_meta resolve (r # rs) =
     with_row 7 r (thenT (attrMeta resolve (fst (r ! 0)) (tl r)) (\<lambda>a. thenT (attrs_meta resolve rs) (\<lambda>as. retT (a # as))))"

definition resolveObjectType ::
  "'s query \<Rightarrow> (bytes \<Rightarrow> bytes \<Rightarrow> ('s, ObjectType) type_op) \<Rightarrow> bytes \<Rightarrow> bytes \<Rightarrow> ('s, ObjectType) type_op" where
  "resolveObjectType q resolve sch name =
     thenT (run_query q type_query [sch, name]) (\<lambda>rows.
     case rows of [] \<Rightarrow> failT (TypeNotFound (type_key sch name))
     | r # _ \<Rightarrow> with_row 1 r (
       if fst (r ! 0) = asc ''COLLECTION'' then
         thenT (run_query q coll_query [sch, name]) (\<lambda>rows.
         case rows of [] \<Rightarrow> failT (CollectionNotFound (type_key sch name))
         | r # _ \<Rightarrow> with_row 8 r (thenT (attrMeta resolve [] (drop 2 r)) (\<lambda>e.
             retT (ObjectType sch name True (if HasPrefix (fst (r ! 0)) (asc ''VARYING'') then CollVarray else CollNestedTbl)
               (fst (Atoi (fst (r ! 1)))) (Some e) [] False))))
       else
         thenT (run_query q attrs_query [sch, name]) (\<lambda>rows.
         thenT (attrs_meta resolve rows) (\<lambda>as. retT (ObjectType sch name False CollNone 0 None as False)))))"

definition is_xml_name :: "bytes \<Rightarrow> bytes \<Rightarrow> bool" where
  "is_xml_name sch name \<longleftrightarrow> sch = asc ''SYS'' \<and> name = asc ''XMLTYPE''"

fun ObjectType_of :: "'s query \<Rightarrow> nat \<Rightarrow> bytes \<Rightarrow> bytes \<Rightarrow> ('s, ObjectType) type_op" where
  "ObjectType_of q 0 sch name = (\<lambda>_. None)"
| "ObjectType_of q (Suc k) sch name = (\<lambda>(c, s).
     let key = type_key sch name in
     case c key of
       Some (Some t) \<Rightarrow> Some (Inr t, (c, s))
     | Some None \<Rightarrow> Some (Inl (RecursiveType key), (c, s))
     | None \<Rightarrow>
       if is_xml_name sch name then
         (let t = ObjectType sch name False CollNone 0 None [] True in Some (Inr t, (c(key \<mapsto> Some t), s)))
       else
         (case resolveObjectType q (ObjectType_of q k) sch name (c(key \<mapsto> None), s) of
            None \<Rightarrow> None
          | Some (Inl e, (c, s)) \<Rightarrow> Some (Inl e, (c(key := None), s))
          | Some (Inr t, (c, s)) \<Rightarrow> Some (Inr t, (c(key \<mapsto> Some t), s))))"

subsection \<open>The cache\<close>

text \<open>
  \<open>grows c c'\<close>: the same types are being resolved, and what was cached still is. \<open>goodT P m\<close>: from a cache
  of proper types \<open>m\<close> makes it grow to another one, and its value satisfies \<open>P\<close>.
\<close>

definition cache_ok :: "type_cache \<Rightarrow> bool" where
  "cache_ok c \<longleftrightarrow> (\<forall>k t. c k = Some (Some t) \<longrightarrow> type_ok t)"

definition grows :: "type_cache \<Rightarrow> type_cache \<Rightarrow> bool" where
  "grows c c' \<longleftrightarrow> (\<forall>k. (c' k = Some None \<longleftrightarrow> c k = Some None) \<and> (\<forall>t. c k = Some (Some t) \<longrightarrow> c' k = Some (Some t)))"

definition goodT :: "('a \<Rightarrow> bool) \<Rightarrow> ('s, 'a) type_op \<Rightarrow> bool" where
  "goodT P m \<longleftrightarrow> (\<forall>c s r c' s'. cache_ok c \<longrightarrow> m (c, s) = Some (r, (c', s')) \<longrightarrow>
     cache_ok c' \<and> grows c c' \<and> (\<forall>x. r = Inr x \<longrightarrow> P x))"

lemma goodTD: "goodT P m \<Longrightarrow> cache_ok c \<Longrightarrow> m (c, s) = Some (r, (c', s')) \<Longrightarrow>
    cache_ok c' \<and> grows c c' \<and> (\<forall>x. r = Inr x \<longrightarrow> P x)"
  unfolding goodT_def by blast

lemma grows_refl: "grows c c"
  by (simp add: grows_def)

lemma grows_trans: "grows a b \<Longrightarrow> grows b c \<Longrightarrow> grows a c"
  unfolding grows_def by simp

lemma goodT_then:
  assumes "goodT P m" "\<And>x. P x \<Longrightarrow> goodT Q (f x)"
  shows "goodT Q (thenT m f)"
  unfolding goodT_def
proof (intro allI impI)
  fix c s r c' s'
  assume c: "cache_ok c" and e: "thenT m f (c, s) = Some (r, (c', s'))"
  obtain r1 c1 s1 where m: "m (c, s) = Some (r1, (c1, s1))"
    using e by (cases "m (c, s)") (auto simp: thenT_def)
  note 1 = goodTD [OF assms(1) c m]
  show "cache_ok c' \<and> grows c c' \<and> (\<forall>x. r = Inr x \<longrightarrow> Q x)"
  proof (cases r1)
    case (Inl err)
    then show ?thesis using e m 1 by (auto simp: thenT_def)
  next
    case (Inr x)
    then have "f x (c1, s1) = Some (r, (c', s'))" "P x" using e m 1 by (auto simp: thenT_def)
    then show ?thesis using goodTD [OF assms(2)] 1 grows_trans by blast
  qed
qed

lemma goodT_ret: "P x \<Longrightarrow> goodT P (retT x)"
  by (simp add: goodT_def retT_def grows_refl)

lemma goodT_fail: "goodT P (failT e)"
  by (simp add: goodT_def failT_def grows_refl)

lemma goodT_query: "goodT (\<lambda>_. True) (run_query q sql args)"
  by (auto simp: goodT_def run_query_def grows_refl split: prod.splits sum.splits)

lemma goodT_row: "goodT P m \<Longrightarrow> goodT P (with_row n r m)"
  by (simp add: with_row_def goodT_fail)

lemma goodT_attr:
  assumes "\<And>a b. goodT type_ok (resolve a b)"
  shows "goodT attr_ok (attrMeta resolve name r)"
proof -
  have "attr_ok a" if "scalar_attr name ty len p sc cs = Inr a" for ty len p sc cs a
    using that by (auto simp: scalar_attr_def Let_def split: option.splits prod.splits)
  then have "goodT attr_ok (case scalar_attr name ty len p sc cs of Inl e \<Rightarrow> failT e | Inr a \<Rightarrow> retT a)" for ty len p sc cs
    by (cases "scalar_attr name ty len p sc cs") (simp_all add: goodT_fail, metis goodT_ret)
  note sc = this
  have "goodT attr_ok (thenT (resolve a b) (\<lambda>t. retT (AttrMeta name TypeObject 0 0 0 0 (Some t))))" for a b
    by (rule goodT_then, rule assms, rule goodT_ret) simp
  then show ?thesis unfolding attrMeta_def by (split if_split, intro conjI impI sc)
qed

lemma goodT_attrs:
  assumes "\<And>a b. goodT type_ok (resolve a b)"
  shows "goodT (\<lambda>as. \<forall>a \<in> set as. attr_ok a) (attrs_meta resolve rs)"
proof (induction rs)
  case (Cons r rs)
  show ?case unfolding attrs_meta.simps
    by (rule goodT_row, rule goodT_then, rule goodT_attr, rule assms, rule goodT_then, rule Cons, rule goodT_ret) simp
qed (simp add: goodT_ret)

lemma goodT_resolve:
  assumes "\<And>a b. goodT type_ok (resolve a b)"
  shows "goodT type_ok (resolveObjectType q resolve sch name)"
proof -
  have coll: "goodT type_ok (thenT (run_query q coll_query [sch, name]) (\<lambda>rows.
         case rows of [] \<Rightarrow> failT (CollectionNotFound (type_key sch name))
         | r # _ \<Rightarrow> with_row 8 r (thenT (attrMeta resolve [] (drop 2 r)) (\<lambda>e.
             retT (ObjectType sch name True (if HasPrefix (fst (r ! 0)) (asc ''VARYING'') then CollVarray else CollNestedTbl)
               (fst (Atoi (fst (r ! 1)))) (Some e) [] False)))))"
    by (rule goodT_then, rule goodT_query, split list.split, intro conjI impI allI goodT_fail goodT_row,
        rule goodT_then, rule goodT_attr, rule assms, rule goodT_ret) simp
  have attrs: "goodT type_ok (thenT (run_query q attrs_query [sch, name]) (\<lambda>rows.
         thenT (attrs_meta resolve rows) (\<lambda>as. retT (ObjectType sch name False CollNone 0 None as False))))"
    by (rule goodT_then, rule goodT_query, rule goodT_then, rule goodT_attrs, rule assms, rule goodT_ret) simp
  show ?thesis
    unfolding resolveObjectType_def
    by (rule goodT_then, rule goodT_query, split list.split, intro conjI impI allI goodT_fail goodT_row)
      (use coll attrs in auto)
qed

lemma ObjectType_of_good: "goodT type_ok (ObjectType_of q k sch name)"
proof (induction k arbitrary: sch name)
  case (Suc k)
  show ?case
    unfolding goodT_def
  proof (intro allI impI)
    fix c s r c' s'
    define key where "key = type_key sch name"
    assume c: "cache_ok c" and e: "ObjectType_of q (Suc k) sch name (c, s) = Some (r, (c', s'))"
    consider t where "c key = Some (Some t)" | "c key = Some None" | "c key = None" by (cases "c key") auto
    then show "cache_ok c' \<and> grows c c' \<and> (\<forall>x. r = Inr x \<longrightarrow> type_ok x)"
    proof cases
      case 1
      then show ?thesis using e c by (auto simp: key_def [symmetric] Let_def grows_refl cache_ok_def)
    next
      case 2
      then show ?thesis using e c by (auto simp: key_def [symmetric] Let_def grows_refl)
    next
      case 3
      show ?thesis
      proof (cases "is_xml_name sch name")
        case True
        then show ?thesis using e c 3 by (auto simp: key_def [symmetric] Let_def grows_def cache_ok_def split: if_splits)
      next
        case False
        have c0: "cache_ok (c(key \<mapsto> None))" using c by (simp add: cache_ok_def)
        obtain r1 c1 s1 where m: "resolveObjectType q (ObjectType_of q k) sch name (c(key \<mapsto> None), s) = Some (r1, (c1, s1))"
          using e 3 False by (auto simp: key_def [symmetric] Let_def split: option.splits)
        note 1 = goodTD [OF goodT_resolve [of "ObjectType_of q k", OF Suc] c0 m]
        have "grows c (c1(key := None))" using 1 3 by (auto simp: grows_def)
        moreover have "grows c (c1(key \<mapsto> Some t))" for t using 1 3 by (auto simp: grows_def)
        moreover have "cache_ok (c1(key := None))" using 1 by (auto simp: cache_ok_def)
        moreover have "type_ok t \<Longrightarrow> cache_ok (c1(key \<mapsto> Some t))" for t using 1 by (auto simp: cache_ok_def)
        ultimately show ?thesis using e 3 False m 1
          by (cases r1) (auto simp: key_def [symmetric] Let_def)
      qed
    qed
  qed
qed (simp add: goodT_def)

lemma ObjectType_of_keeps:
  assumes "cache_ok c" "ObjectType_of q k sch name (c, s) = Some (r, (c', s'))"
  shows "cache_ok c' \<and> grows c c' \<and>
    (\<forall>t img. r = Inr t \<longrightarrow> (case DecodeObjectImage t img of Inl e \<Rightarrow> \<not> panics e | Inr v \<Rightarrow> typed_body t v))"
proof -
  have "cache_ok c' \<and> grows c c' \<and> (\<forall>t. r = Inr t \<longrightarrow> type_ok t)"
    using goodTD [OF ObjectType_of_good assms] .
  moreover have "type_ok t \<Longrightarrow> (case DecodeObjectImage t img of Inl e \<Rightarrow> \<not> panics e | Inr v \<Rightarrow> typed_body t v)" for t img
    using good_on_image [OF decode_good(1)] by (simp add: DecodeObjectImage_def result_post_def)
  ultimately show ?thesis by blast
qed

subsection \<open>Resolution ends\<close>

text \<open>
  \<open>ends K n m\<close>: \<open>m\<close> has a result on every cache that lacks at most \<open>n\<close> of the names in \<open>K\<close>. A type being resolved is in
  the cache, so that each nested resolution leaves one name less.
\<close>

definition lacking :: "bytes set \<Rightarrow> type_cache \<Rightarrow> nat" where
  "lacking K c = card {x \<in> K. c x = None}"

definition ends :: "bytes set \<Rightarrow> nat \<Rightarrow> ('s, 'a) type_op \<Rightarrow> bool" where
  "ends K n m \<longleftrightarrow> (\<forall>c s. cache_ok c \<longrightarrow> lacking K c \<le> n \<longrightarrow> m (c, s) \<noteq> None)"

lemma lacking_grows: "finite K \<Longrightarrow> grows c c' \<Longrightarrow> lacking K c' \<le> lacking K c"
  unfolding lacking_def by (rule card_mono) (auto simp: grows_def, metis not_None_eq)

lemma lacking_less:
  assumes "finite K" "key \<in> K" "c key = None"
  shows "lacking K (c(key \<mapsto> None)) < lacking K c"
  unfolding lacking_def by (rule psubset_card_mono) (use assms in auto)

lemma ends_then:
  assumes "finite K" "goodT P m" "ends K n m" "\<And>x. P x \<Longrightarrow> ends K n (f x)"
  shows "ends K n (thenT m f)"
  unfolding ends_def
proof (intro allI impI)
  fix c s assume c: "cache_ok c" "lacking K c \<le> n"
  then obtain r c1 s1 where m: "m (c, s) = Some (r, (c1, s1))" using assms(3) unfolding ends_def by fastforce
  note g = goodTD [OF assms(2) c(1) m]
  have l: "lacking K c1 \<le> n" using lacking_grows [OF assms(1)] g c(2) by (meson order_trans)
  show "thenT m f (c, s) \<noteq> None"
  proof (cases r)
    case (Inl e)
    then show ?thesis by (simp add: thenT_def m)
  next
    case (Inr x)
    then have "ends K n (f x)" using assms(4) g by simp
    then show ?thesis using Inr g l unfolding ends_def by (simp add: thenT_def m)
  qed
qed

lemma ends_basic: "ends K n (retT x)" "ends K n (failT e)" "ends K n (run_query q sql args)"
  by (auto simp: ends_def retT_def failT_def run_query_def split: prod.splits sum.splits)

lemma ends_row: "ends K n m \<Longrightarrow> ends K n (with_row l r m)"
  by (simp add: with_row_def ends_basic)

text \<open>
  The dictionary \<open>q\<close> stays within \<open>K\<close>: the type of an attribute or of an element, where it has an owner and is thus
  resolved in turn, has its name in \<open>K\<close>.
\<close>

definition names_within :: "bytes set \<Rightarrow> dictRow \<Rightarrow> bool" where
  "names_within K r \<longleftrightarrow> (\<not> snd (r ! 0) \<and> fst (r ! 0) \<noteq> [] \<longrightarrow> type_key (fst (r ! 0)) (fst (r ! 1)) \<in> K)"

definition dictionary_within :: "bytes set \<Rightarrow> 's query \<Rightarrow> bool" where
  "dictionary_within K q \<longleftrightarrow> (\<forall>args s rows. \<forall>r \<in> set rows.
     (fst (q attrs_query args s) = Inr rows \<longrightarrow> names_within K (tl r)) \<and>
     (fst (q coll_query args s) = Inr rows \<longrightarrow> names_within K (drop 2 r)))"

lemma goodT_rows:
  assumes "\<And>s rows. fst (q sql args s) = Inr rows \<Longrightarrow> P rows"
  shows "goodT P (run_query q sql args)"
  unfolding goodT_def run_query_def
  using assms by (auto simp: grows_refl split: prod.splits sum.splits) (metis fst_conv)

lemma ends_attr:
  assumes "finite K" "\<And>a b. goodT type_ok (resolve a b)" "\<And>a b. type_key a b \<in> K \<Longrightarrow> ends K n (resolve a b)" "names_within K r"
  shows "ends K n (attrMeta resolve name r)"
proof -
  have "ends K n (case x of Inl e \<Rightarrow> failT e | Inr a \<Rightarrow> retT a)" for x :: "type_error + AttrMeta"
    by (cases x) (simp_all add: ends_basic)
  moreover have "ends K n (thenT (resolve (fst (r ! 0)) (fst (r ! 1))) (\<lambda>t. retT (AttrMeta name TypeObject 0 0 0 0 (Some t))))"
    if "\<not> snd (r ! 0) \<and> fst (r ! 0) \<noteq> []"
    by (rule ends_then [OF assms(1,2) assms(3)]) (use that assms(4) in \<open>auto simp: names_within_def ends_basic\<close>)
  ultimately show ?thesis unfolding attrMeta_def by (split if_split) blast
qed

lemma ends_attrs:
  assumes "finite K" "\<And>a b. goodT type_ok (resolve a b)" "\<And>a b. type_key a b \<in> K \<Longrightarrow> ends K n (resolve a b)"
  shows "\<forall>r \<in> set rs. names_within K (tl r) \<Longrightarrow> ends K n (attrs_meta resolve rs)"
proof (induction rs)
  case (Cons r rs)
  then have r: "names_within K (tl r)" and rs: "ends K n (attrs_meta resolve rs)" by auto
  have a: "ends K n (attrMeta resolve (fst (r ! 0)) (tl r))" by (rule ends_attr [OF assms(1,2) _ r]) (rule assms(3))
  show ?case unfolding attrs_meta.simps
    by (rule ends_row, rule ends_then [OF assms(1) goodT_attr [OF assms(2)] a],
      rule ends_then [OF assms(1) goodT_attrs [OF assms(2)] rs], rule ends_basic)
qed (simp add: ends_basic)

lemma ends_resolve:
  assumes "finite K" "\<And>a b. goodT type_ok (resolve a b)" "\<And>a b. type_key a b \<in> K \<Longrightarrow> ends K n (resolve a b)" "dictionary_within K q"
  shows "ends K n (resolveObjectType q resolve sch name)"
proof -
  have a: "goodT (\<lambda>rows. \<forall>r \<in> set rows. names_within K (tl r)) (run_query q attrs_query [sch, name])"
    and c: "goodT (\<lambda>rows. \<forall>r \<in> set rows. names_within K (drop 2 r)) (run_query q coll_query [sch, name])"
    using assms(4) by (auto intro!: goodT_rows simp: dictionary_within_def)
  have attrs: "ends K n (thenT (run_query q attrs_query [sch, name]) (\<lambda>rows.
         thenT (attrs_meta resolve rows) (\<lambda>as. retT (ObjectType sch name False CollNone 0 None as False))))"
    by (rule ends_then [OF assms(1) a ends_basic(3)],
        rule ends_then [OF assms(1) goodT_attrs [OF assms(2)] ends_attrs [OF assms(1-3)]]) (simp_all add: ends_basic)
  have coll: "ends K n (thenT (run_query q coll_query [sch, name]) (\<lambda>rows.
         case rows of [] \<Rightarrow> failT (CollectionNotFound (type_key sch name))
         | r # _ \<Rightarrow> with_row 8 r (thenT (attrMeta resolve [] (drop 2 r)) (\<lambda>e.
             retT (ObjectType sch name True (if HasPrefix (fst (r ! 0)) (asc ''VARYING'') then CollVarray else CollNestedTbl)
               (fst (Atoi (fst (r ! 1)))) (Some e) [] False)))))"
    by (rule ends_then [OF assms(1) c ends_basic(3)], split list.split, intro conjI impI allI ends_basic ends_row,
        rule ends_then [OF assms(1) goodT_attr [OF assms(2)] ends_attr [OF assms(1-3)]]) (simp_all add: ends_basic)
  show ?thesis
    unfolding resolveObjectType_def
    by (rule ends_then [OF assms(1) goodT_query ends_basic(3)], split list.split, intro conjI impI allI ends_basic ends_row)
      (use coll attrs in auto)
qed

text \<open>As many nested resolutions as names the cache lacks are enough, with one more for the answer from the cache.\<close>

lemma ObjectType_of_ends:
  assumes "finite K" "dictionary_within K q"
  shows "type_key sch name \<in> K \<Longrightarrow> ends K n (ObjectType_of q (Suc n) sch name)"
proof (induction n arbitrary: sch name)
  case 0
  show ?case
    unfolding ends_def
  proof (intro allI impI)
    fix c :: type_cache and s
    assume "lacking K c \<le> 0"
    then have "c (type_key sch name) \<noteq> None"
      using lacking_less [OF assms(1) 0, of c] by auto
    then show "ObjectType_of q (Suc 0) sch name (c, s) \<noteq> None"
      by (cases "c (type_key sch name)") (auto split: option.split)
  qed
next
  case (Suc n)
  define key where "key = type_key sch name"
  have res: "ends K n (resolveObjectType q (ObjectType_of q (Suc n)) sch name)"
    by (rule ends_resolve [OF assms(1) ObjectType_of_good Suc.IH assms(2)])
  show ?case
    unfolding ends_def
  proof (intro allI impI)
    fix c :: type_cache and s
    assume c: "cache_ok c" "lacking K c \<le> Suc n"
    show "ObjectType_of q (Suc (Suc n)) sch name (c, s) \<noteq> None"
    proof (cases "c key")
      case None
      have "cache_ok (c(key \<mapsto> None))" using c(1) by (simp add: cache_ok_def)
      moreover have "lacking K (c(key \<mapsto> None)) \<le> n"
        using lacking_less [OF assms(1) Suc.prems, of c] None c(2) by (simp add: key_def)
      ultimately have "resolveObjectType q (ObjectType_of q (Suc n)) sch name (c(key \<mapsto> None), s) \<noteq> None"
        using res unfolding ends_def by blast
      then show ?thesis using None
        by (auto simp: ObjectType_of.simps(2) [of q "Suc n"] key_def [symmetric] Let_def simp del: ObjectType_of.simps split: sum.split)
    next
      case (Some t)
      then show ?thesis by (cases t) (auto simp: ObjectType_of.simps(2) [of q "Suc n"] key_def [symmetric] simp del: ObjectType_of.simps)
    qed
  qed
qed

text \<open>
  Property C23. Resolving a type ends, however the types of the dictionary refer to each other, as long as there are
  finitely many of them: a recursion that deep as there are names is enough. Whatever rows the dictionary answers with,
  it leaves, failed or not, no type marked as being resolved that was not, loses no cached type, and caches only
  proper types, on which the image decoder never panics and returns values of the type.
\<close>

theorem ObjectType_of_safe:
  assumes "cache_ok c" "finite K" "dictionary_within K q" "type_key sch name \<in> K" "card K < k"
  shows "\<exists>r c' s'. ObjectType_of q k sch name (c, s) = Some (r, (c', s')) \<and> cache_ok c' \<and> grows c c' \<and>
    (\<forall>t img. r = Inr t \<longrightarrow> (case DecodeObjectImage t img of Inl e \<Rightarrow> \<not> panics e | Inr v \<Rightarrow> typed_body t v))"
proof -
  obtain n where n: "k = Suc n" "card K \<le> n" using assms(5) by (cases k) auto
  have "lacking K c \<le> card K" unfolding lacking_def by (rule card_mono [OF assms(2)]) auto
  then have "ObjectType_of q k sch name (c, s) \<noteq> None"
    using ObjectType_of_ends [OF assms(2,3,4), of n] n assms(1) unfolding ends_def n(1) by (meson order_trans)
  then obtain r c' s' where "ObjectType_of q k sch name (c, s) = Some (r, (c', s'))" by (metis not_None_eq prod_cases3)
  with ObjectType_of_keeps [OF assms(1) this] show ?thesis by blast
qed

text \<open>A dictionary with one object type.\<close>

definition toy_dict :: "unit query" where
  "toy_dict sql args s =
     (Inr [[(asc ''A'', False), ([], True), (asc ''DATE'', False), (asc ''7'', False), ([], True), ([], True), ([], True)]], s)"

lemma toy_dict_type: "map_option fst (ObjectType_of toy_dict (Suc k) (asc ''S'') (asc ''T'') (Map.empty, ())) =
    Some (Inr (ObjectType (asc ''S'') (asc ''T'') False CollNone 0 None [AttrMeta (asc ''A'') TypeDate 0 0 0 7 None] False))"
proof -
  have b: "base_type (asc ''DATE'') = asc ''DATE''" "scalar_type (asc ''DATE'') 0 True 0 True = Some (TypeDate, 0, 0, 0)"
    "HasPrefix (asc ''DATE'') (asc ''N'') = False" by code_simp+
  have n: "Atoi (asc ''7'') = (7, False)" "Atoi [] = (0, True)" by (simp_all add: Atoi_def is_digit_def digits_val_def)
  have a: "scalar_attr (asc ''A'') (asc ''DATE'') (asc ''7'') ([], True) ([], True) [] =
      Inr (AttrMeta (asc ''A'') TypeDate 0 0 0 7 None)" by (simp add: scalar_attr_def b n del: asc_simps)
  have "asc ''A'' \<noteq> asc ''COLLECTION''" "\<not> is_xml_name (asc ''S'') (asc ''T'')" by (simp_all add: is_xml_name_def)
  then show ?thesis
    using a unfolding ObjectType_of.simps resolveObjectType_def thenT_def run_query_def toy_dict_def
    by (simp add: with_row_def attrMeta_def thenT_def retT_def del: asc_simps)
qed

theorem ObjectType_of_safe_witness:
  "\<exists>r c. ObjectType_of toy_dict 3 (asc ''S'') (asc ''T'') (Map.empty, ()) = Some (r, (c, ())) \<and> \<not> isl r \<and> cache_ok c"
proof -
  let ?K = "{type_key (asc ''S'') (asc ''T''), type_key (asc ''DATE'') (asc ''7'')}"
  have "cache_ok Map.empty" by (simp add: cache_ok_def)
  moreover have "dictionary_within ?K toy_dict"
    by (auto simp: dictionary_within_def names_within_def toy_dict_def)
  moreover have "card ?K < 3" by (rule le_less_trans [OF card_insert_le_m1 [of 2]]) simp_all
  ultimately obtain r c s where r: "ObjectType_of toy_dict 3 (asc ''S'') (asc ''T'') (Map.empty, ()) = Some (r, (c, s))" "cache_ok c"
    using ObjectType_of_safe [of Map.empty ?K toy_dict "asc ''S''" "asc ''T''" 3 "()"] by auto
  moreover have "\<not> isl r" using toy_dict_type [of 2] r(1) unfolding numeral_3_eq_3 [symmetric] by (auto simp del: ObjectType_of.simps simp flip: numeral_3_eq_3)
  ultimately show ?thesis by simp
qed

end
