(* ===== verification/TtcExecWrite.thy ===== *)
theory TtcExecWrite
  imports TtcExecute
begin

text \<open>
  \<^verbatim>\<open>internal/ttc/execute.go\<close>, the requests: the execute message with its options, define and bind
  metadata and bind rows, the fetch message, and what an execute does after its response.
\<close>

definition metadata_sizes :: "u8 \<Rightarrow> u32 \<Rightarrow> u64 \<times> u32 \<times> u32" where
  "metadata_sizes oraType bufferSize =
     (if oraType = TypeBlob \<or> oraType = TypeClob then (lobPrefetchFlag, bufferSize, 0)
      else if oraType = TypeJSON then (lobPrefetchFlag, 32 * 1024 * 1024, 32 * 1024 * 1024)
      else if oraType = TypeVector then (lobPrefetchFlag, 1024 * 1024, 1024 * 1024)
      else (0, bufferSize, 0))"

definition writeColumnMetadata :: "u8 \<Rightarrow> u8 \<Rightarrow> u32 \<Rightarrow> ('z, unit) op" where
  "writeColumnMetadata oraType0 csForm bufferSize0 = (
     let isRowid = (oraType0 = TypeRowid \<or> oraType0 = TypeURowid);
         oraType = (if isRowid then TypeVarchar else oraType0);
         (contFlag, bufferSize, lobPrefetchLength) = metadata_sizes oraType (if isRowid then maxURowidLength else bufferSize0)
     in do {
       WriteUint8 oraType;
       WriteUint8 bindUseIndicators;
       WriteUint8 0; WriteUint8 0;
       WriteUB4 bufferSize;
       WriteUB4 0;
       WriteUB8 contFlag;
       WriteUB4 0;
       WriteUB2 0;
       WriteUB2 (if csForm \<noteq> 0 then CharsetUTF8 else 0);
       WriteUint8 csForm;
       WriteUB4 lobPrefetchLength;
       v \<leftarrow> gets (\<lambda>s. TTCFieldVersion (caps s));
       if v \<ge> FieldVersion12_2 then WriteUB4 0 else State_Monad.return () })"

text \<open>The state a query starts with, before anything is written.\<close>

definition execute_start :: "('z, unit) exec_op" where
  "execute_start = do {
     k \<leftarrow> gets (\<lambda>s. kind (stm s));
     m \<leftarrow> gets dm;
     if k = KindQuery \<and> \<not> parseOnly m then do {
       on_dm (\<lambda>m. m\<lparr>inFetch := True, rowIndex := 0, discardRows := False\<rparr>);
       on_stm (\<lambda>s. s\<lparr>moreRows := True\<rparr>) }
     else State_Monad.return () }"

definition execute_numParams :: "'a stmt_scheme \<Rightarrow> data_msg \<Rightarrow> nat" where
  "execute_numParams s m = (if \<not> requiresDefine s \<and> \<not> parseOnly m then length (binds m) else 0)"

definition needs_parse :: "'a stmt_scheme \<Rightarrow> bool" where
  "needs_parse s \<longleftrightarrow> cursorID s = 0 \<or> kind s = KindDDL"

definition execute_numIters :: "'a stmt_scheme \<Rightarrow> data_msg \<Rightarrow> u32" where
  "execute_numIters s m =
     (if kind s = KindQuery \<and> \<not> parseOnly m then
        (if cursorID s = 0 \<or> requiresDefine s then word_of_int (prefetchRows m) else word_of_int (arraySize m))
      else 1)"

definition execute_options :: "'a stmt_scheme \<Rightarrow> data_msg \<Rightarrow> u32" where
  "execute_options s m =
     (let numParams = execute_numParams s m in
      (if requiresDefine s then execOptionDefine else if \<not> parseOnly m \<and> \<not> isChild s then execOptionExecute else 0) OR
      (if needs_parse s then execOptionParse else 0) OR
      (if kind s = KindQuery then
         (if parseOnly m then execOptionDescribe
          else if execute_numIters s m > 0 \<and> \<not> noPrefetch s then execOptionFetch else 0)
       else 0) OR
      (if kind s \<noteq> KindPLSQL \<and> \<not> parseOnly m then execOptionNotPLSQL
       else if kind s = KindPLSQL \<and> numParams > 0 then execOptionPLSQLBind else 0) OR
      (if numParams > 0 then execOptionBind else 0) OR
      (if useBatchErrors m then execOptionBatchErrors else 0) OR
      (if autoCommit m \<and> \<not> parseOnly m then execOptionCommit else 0))"

definition execute_flags :: "'a stmt_scheme \<Rightarrow> data_msg \<Rightarrow> u32" where
  "execute_flags s m =
     (if \<not> requiresDefine s \<and> \<not> parseOnly m \<and> \<not> isChild s then execFlagsImplicitResultset else 0)"

subsection \<open>Binds\<close>

definition bind_buffer_size :: "StatementKind \<Rightarrow> u32 \<Rightarrow> bind_column \<Rightarrow> u32" where
  "bind_buffer_size k maxString b =
     (if k = KindPLSQL \<and> (BindType b = TypeVarchar \<or> BindType b = TypeChar \<or> BindType b = TypeRaw) \<and> BindBufferSize b < maxString
      then maxString else BindBufferSize b)"

definition writeBindValue :: "bind_column \<Rightarrow> nat \<Rightarrow> ('z, bool) exec_op" where
  "writeBindValue b row =
     (case Value b row of
        Inl err \<Rightarrow> do { on_conn (\<lambda>c. c\<lparr>deferredErr := Some (SinkErr err)\<rparr>); State_Monad.return False }
      | Inr None \<Rightarrow> do {
          (if BindType b = TypeBoolean then do { WriteUint8 EscapeChar; WriteUint8 1 } else WriteUint8 0);
          State_Monad.return True }
      | Inr (Some v) \<Rightarrow> do { WriteBytesWithLength v; State_Monad.return True })"

text \<open>The loop over the binds that are to be written now; \<open>False\<close> is the early return.\<close>

fun write_bind_values :: "bind_column list \<Rightarrow> nat \<Rightarrow> ('z, bool) exec_op" where
  "write_bind_values [] row = State_Monad.return True"
| "write_bind_values (b # bs) row = do {
     good \<leftarrow> writeBindValue b row;
     if good then write_bind_values bs row else State_Monad.return False }"

definition isLong :: "StatementKind \<Rightarrow> u32 \<Rightarrow> bind_column \<Rightarrow> bool" where
  "isLong k maxString b \<longleftrightarrow> k \<noteq> KindPLSQL \<and> BindBufferSize b > maxString"

fun write_bind_rows :: "(bind_column \<Rightarrow> bool) \<Rightarrow> bind_column list \<Rightarrow> nat \<Rightarrow> nat \<Rightarrow> ('z, unit) exec_op" where
  "write_bind_rows long bs row 0 = State_Monad.return ()"
| "write_bind_rows long bs row (Suc n) = do {
     WriteUint8 MsgTypeRowData;
     good \<leftarrow> write_bind_values (filter (\<lambda>b. \<not> long b) bs) row;
     if \<not> good then State_Monad.return ()
     else do {
       good \<leftarrow> write_bind_values (filter long bs) row;
       if good then write_bind_rows long bs (row + 1) n else State_Monad.return () } }"

definition writeBindParams :: "('z, unit) exec_op" where
  "writeBindParams = do {
     k \<leftarrow> gets (\<lambda>s. kind (stm s));
     m \<leftarrow> gets dm;
     maxString \<leftarrow> gets (\<lambda>s. MaxStringSize (caps s));
     each (\<lambda>b. writeColumnMetadata (BindType b) (BindCSForm b) (bind_buffer_size k maxString b)) (binds m);
     write_bind_rows (isLong k maxString) (binds m) 0 (numExecs m) }"

definition define_size :: "column \<Rightarrow> u32" where
  "define_size c = (if FetchType c = TypeLong \<or> FetchType c = TypeLongRaw then maxLongLength else BufferSize c)"

definition write_presence :: "nat \<Rightarrow> ('z, unit) op" where
  "write_presence n = (if n = 0 then do { WriteUint8 0; WriteUB4 0 } else do { WriteUint8 1; WriteUB4 (word_of_nat n) })"

text \<open>The fixed part between the options and the statement text.\<close>

definition execute_header :: "'a stmt_scheme \<Rightarrow> data_msg \<Rightarrow> ('z, unit) op" where
  "execute_header s m = do {
     WriteUB4 (execute_options s m);
     WriteUB4 (ucast (cursorID s));
     (if needs_parse s then do { WriteUint8 1; WriteUB4 (word_of_nat (length (sqlBytes s))) }
      else do { WriteUint8 0; WriteUB4 0 });
     WriteUint8 1; WriteUB4 13; WriteUint8 0; WriteUint8 0; WriteUB4 0;
     WriteUB4 (execute_numIters s m);
     WriteUB4 maxLongLength;
     write_presence (execute_numParams s m);
     WriteUint8 0; WriteUint8 0; WriteUint8 0; WriteUint8 0; WriteUint8 0;
     (if requiresDefine s then do { WriteUint8 1; WriteUB4 (word_of_nat (length (columns s))) }
      else do { WriteUint8 0; WriteUB4 0 });
     WriteUB4 0; WriteUint8 0; WriteUint8 1; WriteUint8 0; WriteUB4 0; WriteUint8 0; WriteUB4 0; WriteUB4 0;
     WriteUint8 0; WriteUB4 0; WriteUint8 0;
     v \<leftarrow> gets (\<lambda>s. TTCFieldVersion (caps s));
     (if v \<ge> FieldVersion12_2 then do {
        WriteUint8 0; WriteUB4 0; WriteUint8 0; WriteUB4 0; WriteUint8 0;
        if v \<ge> FieldVersion12_2Ext1 then do { WriteUint8 0; WriteUB4 0 } else State_Monad.return () }
      else State_Monad.return ()) }"

text \<open>The statement text and the array al8i4.\<close>

definition execute_array :: "'a stmt_scheme \<Rightarrow> data_msg \<Rightarrow> ('z, unit) op" where
  "execute_array s m = do {
     (if needs_parse s then do { WriteBytesWithLength (sqlBytes s); WriteUB4 1 } else WriteUB4 0);
     (if kind s = KindQuery then (if cursorID s = 0 then WriteUB4 0 else WriteUB4 (execute_numIters s m))
      else WriteUB4 (word_of_nat (numExecs m)));
     WriteUB4 0; WriteUB4 0; WriteUB4 0; WriteUB4 0; WriteUB4 0;
     (if kind s = KindQuery then WriteUB4 1 else WriteUB4 0);
     WriteUB4 0;
     WriteUB4 (execute_flags s m);
     WriteUB4 0; WriteUB4 0; WriteUB4 0 }"

definition execute_write :: "('z, unit) exec_op" where
  "execute_write = do {
     execute_start;
     s \<leftarrow> gets stm;
     m \<leftarrow> gets dm;
     writeFunctionCode;
     execute_header s m;
     execute_array s m;
     if requiresDefine s then each (\<lambda>c. writeColumnMetadata (FetchType c) (FetchCSForm c) (define_size c)) (columns s)
     else if execute_numParams s m > 0 then writeBindParams
     else State_Monad.return () }"

definition execute_finish :: "('z, unit) exec_op" where
  "execute_finish = do {
     m \<leftarrow> gets dm;
     (if \<not> parseOnly m then on_stm (\<lambda>s. s\<lparr>executed := True\<rparr>) else State_Monad.return ());
     s \<leftarrow> gets stm;
     if requiresDefine s \<and> \<not> parseOnly m then do {
       again \<leftarrow> gets (\<lambda>s. resend (msg s));
       if again then on_stm (\<lambda>s. s\<lparr>requiresDefine := False\<rparr>) else on_msg (\<lambda>m. m\<lparr>resend := True\<rparr>) }
     else State_Monad.return () }"

definition fetch_write :: "('z, unit) exec_op" where
  "fetch_write = do {
     writeFunctionCode;
     s \<leftarrow> gets stm;
     m \<leftarrow> gets dm;
     WriteUB4 (ucast (cursorID s));
     WriteUB4 (word_of_int (arraySize m)) }"

end
