(* ===== verification/TtcConn.thy ===== *)
theory TtcConn
  imports TtcExecWrite
begin

text \<open>
  \<^verbatim>\<open>internal/ttc/conn.go\<close>: one exchange with the server, from the request to the last packet of the
  response, with markers, resets, refusals, the flush of OUT binds and the retry of a query whose
  cursor the server no longer accepts; the calls built on it; and the entry points of
  \<^verbatim>\<open>execute.go\<close> that use it. The interface \<open>message\<close> is a record of operations. What a peer sends is
  in the transport from the start, as \<open>incoming\<close>. A context is given by its error before and after
  the call: the goroutine that watches it meanwhile is not modelled, only the break it sends.
\<close>

definition MarkerTypeInterrupt :: u8 where "MarkerTypeInterrupt = 3"

record 's message =
  m_write :: "('s, unit) state"
  m_handle :: "u8 \<Rightarrow> ('s, ttc_error + unit) state"
  m_finish :: "('s, unit) state"

definition SetPacketSent :: "bool \<Rightarrow> ('z, unit) op" where
  "SetPacketSent v = modify (\<lambda>s. s\<lparr>packetSent := v\<rparr>)"

definition sendMarker :: "u8 \<Rightarrow> ('z, unit) op" where
  "sendMarker markerType = do {
     StartRequest PacketTypeMarker 0 0;
     WriteUint8 1; WriteUint8 0; WriteUint8 markerType;
     _ \<leftarrow> EndRequest;
     State_Monad.return () }"

subsection \<open>Reset\<close>

lemma wait_packets_err: "rerr s \<noteq> None \<Longrightarrow> wait_packets m s = s"
  by (simp add: wait_packets_def)

text \<open>The marker the current packet holds, if it is a marker packet.\<close>

definition read_marker :: "('z, u8) op" where
  "read_marker = do { SkipRawBytes 2; ReadUB1 }"

lemma read_marker_unread:
  fixes s :: "'z session_scheme"
  assumes "rerr (snd (run_state read_marker s)) = None"
  shows "unread (snd (run_state read_marker s)) \<le> unread s"
proof -
  have "forward (read_marker :: ('z, u8) op)" unfolding read_marker_def by (intro forward_rules)
  from this [unfolded forward_def, rule_format, OF assms]
  have "le_input (snd (run_state read_marker s)) s" by (rule conjunct2)
  then show ?thesis by (auto simp: le_input_def)
qed

text \<open>The first loop of \<open>reset\<close>: packets are dropped until the reset marker.\<close>

function await_reset :: "'z session_scheme \<Rightarrow> (ttc_error + unit) \<times> 'z session_scheme" where
  "await_reset s =
     (case current s of None \<Rightarrow> (Inl Panicked, s)
      | Some p \<Rightarrow>
        if Type p = PacketTypeMarker \<and> fst (run_state read_marker s) = MarkerTypeReset then (Inr (), snd (run_state read_marker s))
        else let s1 = (if Type p = PacketTypeMarker then snd (run_state read_marker s) else s); s2 = wait_packets False s1 in
          if rerr s2 \<noteq> None then (Inl (TnsErr (the (rerr s2))), s2) else await_reset s2)"
  by pat_completeness auto

termination
proof (relation "measure unread", simp)
  fix s :: "'z session_scheme" and p and s1 s2 :: "'z session_scheme"
  assume a: "s1 = (if Type p = PacketTypeMarker then snd (run_state read_marker s) else s)" "s2 = wait_packets False s1"
    "\<not> rerr s2 \<noteq> None"
  then have "rerr s1 = None" using wait_packets_err [of s1] by fastforce
  then have "unread s1 \<le> unread s" using a(1) read_marker_unread by (auto split: if_splits)
  moreover have "unread s2 < unread s1" using wait_packets_progress a(2,3) by blast
  ultimately show "(s2, s) \<in> measure unread" by simp
qed

declare await_reset.simps [simp del]

function skip_markers :: "'z session_scheme \<Rightarrow> (ttc_error + unit) \<times> 'z session_scheme" where
  "skip_markers s =
     (case current s of None \<Rightarrow> (Inl Panicked, s)
      | Some p \<Rightarrow>
        if Type p \<noteq> PacketTypeMarker then (Inr (), s)
        else let s1 = wait_packets False s in
          if rerr s1 \<noteq> None then (Inl (TnsErr (the (rerr s1))), s1) else skip_markers s1)"
  by pat_completeness auto

termination
  by (relation "measure unread") (auto intro: wait_packets_progress)

declare skip_markers.simps [simp del]

definition reset :: "('z, ttc_error + unit) ttc_op" where
  "reset = do {
     ClearErr;
     sendMarker MarkerTypeReset;
     modify (\<lambda>s. s\<lparr>tr := (tr s)\<lparr>sec := (if Active (sec (tr s)) then security_Reset (prims (tr s)) (sec (tr s)) else sec (tr s))\<rparr>\<rparr>);
     tryE (State await_reset) (\<lambda>_.
     tryE (State skip_markers) (\<lambda>_. do {
       on_conn (\<lambda>c. c\<lparr>breakInProgress := False\<rparr>);
       ret_err })) }"

subsection \<open>One exchange\<close>

definition receivePacket :: "bool \<Rightarrow> ('z, ttc_error + unit) ttc_op" where
  "receivePacket boundary = do {
     eor \<leftarrow> gets (\<lambda>s. SupportsEndOfResponse (caps s));
     SetCheckRequestBoundary (boundary \<and> eor);
     err \<leftarrow> WaitForPackets False;
     SetCheckRequestBoundary False;
     case err of Some e \<Rightarrow> throw (TnsErr e)
     | None \<Rightarrow> do {
         p \<leftarrow> gets current;
         case p of None \<Rightarrow> throw Panicked
         | Some p \<Rightarrow>
           if Type p = PacketTypeMarker then tryE reset (\<lambda>_. ret_err)
           else if Type p = PacketTypeRefuse then do {
             SetPacketSent False;
             SkipRawBytes 2;
             n \<leftarrow> ReadUint16BE;
             (if n > 0 then do {
                b \<leftarrow> ReadRawBytes (unat n);
                on_msg (\<lambda>m. m\<lparr>errInfo := (errInfo m)\<lparr>Message := (case b of None \<Rightarrow> [] | Some x \<Rightarrow> x)\<rparr>\<rparr>) }
              else State_Monad.return ());
             ret_err }
           else ret_err } }"

definition end_request :: "('z, ttc_error + unit) op" where
  "end_request = do { e \<leftarrow> EndRequest; case e of None \<Rightarrow> ok () | Some x \<Rightarrow> throw (TnsErr x) }"

definition send_message :: "'z exec_scheme message \<Rightarrow> ('z, ttc_error + unit) exec_op" where
  "send_message m = do {
     on_conn (\<lambda>c. c\<lparr>deferredErr := None\<rparr>);
     ResetPackets;
     StartRequest PacketTypeData 0 0;
     m_write m;
     d \<leftarrow> gets (\<lambda>s. deferredErr (conn s));
     case d of Some e \<Rightarrow> throw e
     | None \<Rightarrow> tryE end_request (\<lambda>_. receivePacket True) }"

definition run_response :: "'z exec_scheme message \<Rightarrow> 'z exec_scheme \<Rightarrow> ((ttc_error + unit) \<times> 'z exec_scheme) option" where
  "run_response m s =
     Option.bind (process (m_handle m) s) (\<lambda>(r, s).
       if r = Inl (TnsErr ErrMarkerDetected) then
         (case run_state reset s of (Inl e, s) \<Rightarrow> Some (Inl e, s) | (Inr _, s) \<Rightarrow> process (m_handle m) s)
       else Some (r, s))"

text \<open>A failed exchange leaves the connection usable by a break and a reset, unless it is closed.\<close>

definition abandon :: "ttc_error \<Rightarrow> ('z, unit) ttc_op" where
  "abandon e = do {
     s \<leftarrow> gets id;
     (if \<not> inConnect (conn s) \<and> packetSent s \<and> Connected (tr s) \<and> e \<noteq> TnsErr ErrConnectionClosed then do {
        sendMarker MarkerTypeBreak;
        _ \<leftarrow> reset;
        State_Monad.return () }
      else State_Monad.return ());
     if e = TnsErr ErrConnectionClosed then on_conn (\<lambda>c. c\<lparr>conn_closed := True\<rparr>) else State_Monad.return () }"

definition flush_binds :: "'z exec_scheme message \<Rightarrow> 'z exec_scheme \<Rightarrow> ((ttc_error + unit) \<times> 'z exec_scheme) option" where
  "flush_binds m s =
     (if \<not> flushOutBinds (msg s) then Some (Inr (), s)
      else case run_state (do { StartRequest PacketTypeData 0 0; WriteUint8 MsgTypeFlushOutBinds;
          tryE end_request (\<lambda>_. receivePacket False) }) s of
        (Inl e, s) \<Rightarrow> Some (Inl e, s)
      | (Inr _, s) \<Rightarrow> process (m_handle m) s)"

definition note_status :: "'z ttc_scheme \<Rightarrow> 'z ttc_scheme" where
  "note_status s = s\<lparr>conn := (conn s)\<lparr>txnInProgress := (callStatus (msg s) AND eocsFlagsTxnInProgress \<noteq> 0),
     cursorsToClose := (if callStatus (msg s) AND eocsFlagsSessRelease \<noteq> 0 then [] else cursorsToClose (conn s))\<rparr>\<rparr>"

definition clear_retry :: "'z ttc_scheme \<Rightarrow> 'z ttc_scheme" where
  "clear_retry s = s\<lparr>msg := (msg s)\<lparr>errorOccurred := False, retry := False\<rparr>\<rparr>"

definition server_error :: "'z ttc_scheme \<Rightarrow> (ttc_error + unit) \<times> 'z ttc_scheme" where
  "server_error s =
     (let e = errInfo (msg s) in
      (Inl (OraErr e),
       if IsSessionDead e then s\<lparr>conn := (conn s)\<lparr>conn_closed := True\<rparr>, tr := Close (tr s)\<rparr> else s))"

text \<open>The retry is a recursive call that nothing in its text bounds.\<close>

partial_function (option) processMessageLocked ::
  "'z exec_scheme message \<Rightarrow> 'z exec_scheme \<Rightarrow> ((ttc_error + unit) \<times> 'z exec_scheme) option" where
  "processMessageLocked m s =
     (case run_state (send_message m) s of
        (Inl e, s) \<Rightarrow> Some (Inl e, s)
      | (Inr _, s) \<Rightarrow>
        Option.bind (run_response m s) (\<lambda>(r, s).
          case r of Inl e \<Rightarrow> Some (Inl e, snd (run_state (abandon e) s))
          | Inr _ \<Rightarrow>
            Option.bind (flush_binds m (snd (run_state (m_finish m) s))) (\<lambda>(r, s).
              case r of Inl e \<Rightarrow> Some (Inl e, s)
              | Inr _ \<Rightarrow>
                if \<not> errorOccurred (msg (note_status s)) then Some (Inr (), note_status s)
                else if retry (msg (note_status s)) then processMessageLocked m (clear_retry (note_status s))
                else Some (server_error (note_status s)))))"

text \<open>Cancellation from another goroutine: at most one break, out of band where that is possible.\<close>

definition sendBreak :: "bool \<Rightarrow> ('z, unit) ttc_op" where
  "sendBreak oobSent = do {
     s \<leftarrow> gets id;
     if \<not> Connected (tr s) \<or> inConnect (conn s) \<or> breakSent (conn s) then State_Monad.return ()
     else do {
       on_conn (\<lambda>c. c\<lparr>breakSent := True\<rparr>);
       if SupportsOOB (caps s) \<and> oobSent then State_Monad.return ()
       else modify (\<lambda>s. let s' = snd (run_state (sendMarker MarkerTypeInterrupt)
           (s\<lparr>wmaxSize := uint (SDU (caps s)) - int (Overhead (sec (tr s))), werr := None,
              wdata := replicate (nat (uint (SDU (caps s)) - int (Overhead (sec (tr s))))) 0\<rparr>)) in s\<lparr>tr := tr s'\<rparr>) } }"

definition errOrCancelled :: "(ttc_error + unit) \<Rightarrow> ttc_error" where
  "errOrCancelled r = (case r of Inl e \<Rightarrow> e | Inr _ \<Rightarrow> Msg ''statement cancelled'')"

text \<open>What follows an exchange during which a break went out.\<close>

definition after_break :: "'z exec_scheme message \<Rightarrow> ttc_error option \<Rightarrow> ttc_error + unit \<Rightarrow> 'z exec_scheme \<Rightarrow>
    ((ttc_error + unit) \<times> 'z exec_scheme) option" where
  "after_break m ctxErr r s =
     (let done = (\<lambda>s :: 'z exec_scheme. (case ctxErr of Some e \<Rightarrow> Inl (Cancelled e (errOrCancelled r)) | None \<Rightarrow> r,
            s\<lparr>conn := (conn s)\<lparr>breakSent := False\<rparr>\<rparr>)) in
      if \<not> Connected (tr s) \<or> r = Inl (TnsErr ErrConnectionClosed) then Some (done s)
      else let s = (if SupportsOOB (caps s) then snd (run_state (sendMarker MarkerTypeInterrupt) s) else s) in
        if isl r then Some (done s)
        else case run_state (receivePacket False) s of
          (Inl _, s) \<Rightarrow> Some (done s)
        | (Inr _, s) \<Rightarrow> map_option (\<lambda>(_, s). done s) (process (m_handle m) s))"

definition processMessageCtx :: "ttc_error option \<Rightarrow> ttc_error option \<Rightarrow> 'z exec_scheme message \<Rightarrow> 'z exec_scheme \<Rightarrow>
    ((ttc_error + unit) \<times> 'z exec_scheme) option" where
  "processMessageCtx before after m s =
     (if \<not> Connected (tr s) then Some (Inl (TnsErr ErrConnectionClosed), s)
      else case before of Some e \<Rightarrow> Some (Inl e, s)
      | None \<Rightarrow> Option.bind (processMessageLocked m s) (\<lambda>(r, s).
          if breakSent (conn s) then after_break m after r s else Some (r, s)))"

definition processMessage :: "'z exec_scheme message \<Rightarrow> 'z exec_scheme \<Rightarrow> ((ttc_error + unit) \<times> 'z exec_scheme) option" where
  "processMessage = processMessageCtx None None"

subsection \<open>Calls\<close>

definition simple_message :: "'z exec_scheme message" where
  "simple_message = \<lparr>m_write = simple_write, m_handle = simple_handler, m_finish = State_Monad.return ()\<rparr>"

definition start_message :: "u8 \<Rightarrow> 'z exec_scheme \<Rightarrow> 'z exec_scheme" where
  "start_message fn s = s\<lparr>msg := init_message fn\<rparr>"

text \<open>\<open>c.mu.Lock(); defer c.mu.Unlock()\<close> around a call.\<close>

definition with_mutex :: "('z exec_scheme \<Rightarrow> ((ttc_error + 'a) \<times> 'z exec_scheme) option) \<Rightarrow> 'z exec_scheme \<Rightarrow>
    ((ttc_error + 'a) \<times> 'z exec_scheme) option" where
  "with_mutex f s =
     (if locked s then Some (Inl Deadlock, s)
      else map_option (\<lambda>(r, s). (r, s\<lparr>locked := False\<rparr>)) (f (s\<lparr>locked := True\<rparr>)))"

definition simple_call :: "u8 \<Rightarrow> ttc_error option \<Rightarrow> ttc_error option \<Rightarrow> 'z exec_scheme \<Rightarrow> ((ttc_error + unit) \<times> 'z exec_scheme) option" where
  "simple_call fn before after = with_mutex (\<lambda>s. processMessageCtx before after simple_message (start_message fn s))"

definition Commit :: "ttc_error option \<Rightarrow> ttc_error option \<Rightarrow> 'z exec_scheme \<Rightarrow> ((ttc_error + unit) \<times> 'z exec_scheme) option" where
  "Commit = simple_call funcCommit"

definition Rollback :: "ttc_error option \<Rightarrow> ttc_error option \<Rightarrow> 'z exec_scheme \<Rightarrow> ((ttc_error + unit) \<times> 'z exec_scheme) option" where
  "Rollback = simple_call funcRollback"

definition Ping :: "ttc_error option \<Rightarrow> ttc_error option \<Rightarrow> 'z exec_scheme \<Rightarrow> ((ttc_error + unit) \<times> 'z exec_scheme) option" where
  "Ping = simple_call funcPing"

text \<open>A call whose outcome is ignored.\<close>

definition ignore_call :: "u8 \<Rightarrow> 'z exec_scheme \<Rightarrow> 'z exec_scheme option" where
  "ignore_call fn s = map_option snd (processMessage simple_message (start_message fn s))"

definition Close_conn :: "'z exec_scheme \<Rightarrow> ((ttc_error + unit) \<times> 'z exec_scheme) option" where
  "Close_conn = with_mutex (\<lambda>s.
     if conn_closed (conn s) then Some (Inr (), s)
     else
       let s = s\<lparr>conn := (conn s)\<lparr>conn_closed := True\<rparr>\<rparr> in
       if \<not> Connected (tr s) then Some (Inr (), s)
       else Option.bind (if txnInProgress (conn s) then ignore_call funcRollback s else Some s) (\<lambda>s.
         Option.bind (if Connected (tr s) then ignore_call funcLogoff s else Some s) (\<lambda>s.
           let s = (if Connected (tr s) then
                snd (run_state (do { StartRequest PacketTypeData 0 DataFlagsEOF; _ \<leftarrow> EndRequest; State_Monad.return () }) s) else s)
           in Some (Inr (), s\<lparr>tr := Close (tr s)\<rparr>))))"

definition Closed :: "'z ttc_scheme \<Rightarrow> bool" where
  "Closed s \<longleftrightarrow> conn_closed (conn s) \<or> \<not> Connected (tr s)"

definition SetCurrentSchema :: "bytes \<Rightarrow> conn_state \<Rightarrow> conn_state" where
  "SetCurrentSchema schema c = c\<lparr>currentSchema := schema, currentSchemaModified := True\<rparr>"

definition SetClientInfo :: "bytes \<Rightarrow> bytes \<Rightarrow> bytes \<Rightarrow> bytes \<Rightarrow> u8 \<Rightarrow> conn_state \<Rightarrow> conn_state" where
  "SetClientInfo modul actn info ident which c =
     (let c = (if which AND 1 \<noteq> 0 then c\<lparr>module := modul, moduleModified := True\<rparr> else c);
          c = (if which AND 2 \<noteq> 0 then c\<lparr>action := actn, actionModified := True\<rparr> else c);
          c = (if which AND 4 \<noteq> 0 then c\<lparr>clientInfo := info, clientInfoModified := True\<rparr> else c);
          c = (if which AND 8 \<noteq> 0 then c\<lparr>clientIdentifier := ident, clientIdentifierModified := True\<rparr> else c)
      in c\<lparr>endToEndModified := True\<rparr>)"

subsection \<open>Execute and fetch\<close>

definition execute_message :: "'z exec_scheme message" where
  "execute_message = \<lparr>m_write = execute_write, m_handle = data_handler, m_finish = execute_finish\<rparr>"

definition fetch_message :: "'z exec_scheme message" where
  "fetch_message = \<lparr>m_write = fetch_write, m_handle = data_handler, m_finish = State_Monad.return ()\<rparr>"

record ExecuteOptions =
  opt_binds :: "bind_column list"
  opt_NumRows :: int
  opt_PrefetchRows :: int
  opt_ArraySize :: int
  opt_AutoCommit :: bool
  opt_ParseOnly :: bool
  opt_Sink :: "row_sink option"
  opt_BatchErrors :: bool

definition new_data :: data_msg where
  "new_data = \<lparr>sink = None, delivered = [], binds = [], numExecs = 0, prefetchRows = 0, arraySize = 0, autoCommit = False,
     parseOnly = False, useBatchErrors = False, inFetch = False, discardRows = False, rowIndex = 0, bitVector = [],
     haveBitVector = False, numColumnsSent = 0, outBindDirs = [], outBinds = []\<rparr>"

definition execute_data :: "ExecuteOptions \<Rightarrow> data_msg" where
  "execute_data o' = (let prefetch = (if opt_PrefetchRows o' \<le> 0 then 1000 else opt_PrefetchRows o') in
     new_data\<lparr>binds := opt_binds o', numExecs := (if opt_NumRows o' \<le> 0 then 1 else nat (opt_NumRows o')),
       parseOnly := opt_ParseOnly o', prefetchRows := prefetch,
       arraySize := (if opt_ArraySize o' \<le> 0 then prefetch else opt_ArraySize o'),
       autoCommit := opt_AutoCommit o', useBatchErrors := opt_BatchErrors o', sink := opt_Sink o'\<rparr>)"

text \<open>The exchange of a message that may ask for a second pass with defines.\<close>

definition with_resend :: "ttc_error option \<Rightarrow> ttc_error option \<Rightarrow> ttc_error option \<Rightarrow> 'z exec_scheme \<Rightarrow>
    ((ttc_error + unit) \<times> 'z exec_scheme) option" where
  "with_resend before between after s =
     Option.bind (processMessageCtx before between execute_message s) (\<lambda>(r, s).
       if isl r \<or> \<not> resend (msg s) then Some (r, s)
       else processMessageCtx between after execute_message
         (s\<lparr>msg := (msg s)\<lparr>resend := False\<rparr>, dm := (dm s)\<lparr>rowIndex := 0\<rparr>\<rparr>))"

definition execute_checks :: "ExecuteOptions \<Rightarrow> 'a stmt_scheme \<Rightarrow> ttc_error option" where
  "execute_checks o' s =
     (if length (opt_binds o') \<noteq> length (bindNames s) \<and> \<not> opt_ParseOnly o' then
        Some (BindCountMismatch (length (bindNames s)) (length (opt_binds o')))
      else if opt_NumRows o' > 1 \<and> kind s = KindQuery then Some (Msg ''cannot execute a query with multiple bind rows'')
      else None)"

text \<open>The statement before the exchange; closing the implicit result of the last execution takes the mutex.\<close>

definition execute_reset :: "('z, ttc_error + unit) exec_op" where
  "execute_reset = do {
     on_stm (\<lambda>s. s\<lparr>rowCount := 0, stmt_warning := None, outDirs := [], outValues := [], outNull := []\<rparr>);
     i \<leftarrow> gets (\<lambda>s. implicit (stm s));
     case i of None \<Rightarrow> ok ()
     | Some child \<Rightarrow> tryE (Close_stmt child) (\<lambda>_. do { on_stm (\<lambda>s. s\<lparr>implicit := None\<rparr>); ok () }) }"

definition Execute :: "ttc_error option \<Rightarrow> ttc_error option \<Rightarrow> ttc_error option \<Rightarrow> ExecuteOptions \<Rightarrow> 'z exec_scheme \<Rightarrow>
    ((ttc_error + unit) \<times> 'z exec_scheme) option" where
  "Execute before between after o' s0 =
     (if stmt_closed (stm s0) then Some (Inl (Msg ''statement is closed''), s0)
      else with_mutex (\<lambda>s.
        if Closed s then Some (Inl (TnsErr ErrConnectionClosed), s)
        else case execute_checks o' (stm s) of Some e \<Rightarrow> Some (Inl e, s)
        | None \<Rightarrow>
          (case run_state execute_reset s of (Inl e, s) \<Rightarrow> Some (Inl e, s)
           | (Inr _, s) \<Rightarrow>
             Option.bind (with_resend before between after (start_message funcExecute (s\<lparr>dm := execute_data o'\<rparr>))) (\<lambda>(r, s).
               if isl r then Some (r, s)
               else Some (Inr (), s\<lparr>stm := (stm s)\<lparr>stmt_warning := warning (msg s)\<rparr>\<rparr>)))) s0)"

definition describe_options :: ExecuteOptions where
  "describe_options = \<lparr>opt_binds = [], opt_NumRows = 0, opt_PrefetchRows = 0, opt_ArraySize = 0, opt_AutoCommit = False,
     opt_ParseOnly = True, opt_Sink = None, opt_BatchErrors = False\<rparr>"

definition Describe :: "ttc_error option \<Rightarrow> ttc_error option \<Rightarrow> ttc_error option \<Rightarrow> 'z exec_scheme \<Rightarrow>
    ((ttc_error + unit) \<times> 'z exec_scheme) option" where
  "Describe before between after = Execute before between after describe_options"

definition Fetch :: "ttc_error option \<Rightarrow> ttc_error option \<Rightarrow> ttc_error option \<Rightarrow>
    row_sink option \<Rightarrow> int \<Rightarrow> 'z exec_scheme \<Rightarrow>
    ((ttc_error + unit) \<times> 'z exec_scheme) option" where
  "Fetch before between after snk size0 s0 =
     (if stmt_closed (stm s0) then Some (Inl (Msg ''statement is closed''), s0)
      else if \<not> moreRows (stm s0) then Some (Inr (), s0)
      else
        let sz = (if size0 \<le> 0 then 1000 else size0) in
        with_mutex (\<lambda>s.
          if Closed s then Some (Inl (TnsErr ErrConnectionClosed), s)
          else if cursorID (stm s) = 0 then Some (Inl (Msg ''cursor has been closed''), s)
          else if isChild (stm s) then
            with_resend before between after
              (start_message funcExecute (s\<lparr>dm := new_data\<lparr>sink := snk, prefetchRows := sz, arraySize := sz\<rparr>\<rparr>))
          else processMessageCtx before after fetch_message
              (start_message funcFetch (s\<lparr>dm := new_data\<lparr>sink := snk, arraySize := sz, inFetch := True\<rparr>\<rparr>))) s0)"

end
