(* ===== verification/TtcLob.thy ===== *)
theory TtcLob
  imports TtcConn
begin

text \<open>
  \<^verbatim>\<open>internal/ttc/lob.go\<close>: reading a LOB by its locator. The store \<open>lob\<close> adds the fields of
  \<open>lobOpMessage\<close> to those of a call.
\<close>

definition lobOpRead :: u32 where "lobOpRead = 0x0002"
definition lobLocOffsetFlag3 :: nat where "lobLocOffsetFlag3 = 6"
definition lobLocOffsetFlag4 :: nat where "lobLocOffsetFlag4 = 7"
definition lobLocFlagsVarLenCharset :: u8 where "lobLocFlagsVarLenCharset = 0x80"
definition lobLocFlagsLittleEndian :: u8 where "lobLocFlagsLittleEndian = 0x40"
definition lobMaxAmount :: int where "lobMaxAmount = 2 ^ 32 - 1"

record lobOpMessage =
  operation :: u32
  locator :: bytes
  sourceOffset :: u64
  amount :: int
  sendAmount :: bool
  lob_data :: bytes
  gotData :: bool

record lob = exec +
  lobm :: lobOpMessage

type_synonym ('z, 'a) lob_op = "('z lob_scheme, 'a) state"

definition on_lob :: "(lobOpMessage \<Rightarrow> lobOpMessage) \<Rightarrow> ('z, unit) lob_op" where
  "on_lob f = modify (\<lambda>s. s\<lparr>lobm := f (lobm s)\<rparr>)"

text \<open>The fields of the request after its function code.\<close>

definition lob_fields :: "lobOpMessage \<Rightarrow> ('z, unit) op" where
  "lob_fields m = do {
     WriteUint8 1;
     WriteUB4 (word_of_nat (length (locator m)));
     WriteUint8 0; WriteUB4 0; WriteUB4 0; WriteUB4 0;
     WriteUint8 0; WriteUint8 0; WriteUint8 0;
     WriteUB4 (operation m);
     WriteUint8 0; WriteUint8 0;
     WriteUB8 (sourceOffset m);
     WriteUB8 0;
     WriteUint8 (if sendAmount m then 1 else 0);
     WriteUint16BE 0; WriteUint16BE 0; WriteUint16BE 0;
     WriteBytes (locator m);
     if sendAmount m then WriteUB8 (word_of_int (amount m)) else State_Monad.return () }"

definition lob_write :: "('z, unit) lob_op" where
  "lob_write = do { writeFunctionCode; m \<leftarrow> gets lobm; lob_fields m }"

definition processReturnParameters_lob :: "('z, ttc_error + unit) lob_op" where
  "processReturnParameters_lob = do {
     m \<leftarrow> gets lobm;
     loc \<leftarrow> ReadRawBytes (length (locator m));
     (case loc of None \<Rightarrow> State_Monad.return () | Some l \<Rightarrow> on_lob (\<lambda>m. m\<lparr>locator := l\<rparr>));
     (if sendAmount m then do { n \<leftarrow> ReadSB8; on_lob (\<lambda>m. m\<lparr>amount := n\<rparr>) } else State_Monad.return ());
     ret_err }"

definition lob_handler :: "u8 \<Rightarrow> ('z, ttc_error + unit) lob_op" where
  "lob_handler msgType =
     (if msgType = MsgTypeLOBData then do {
        b \<leftarrow> ReadRawBytesAndLength;
        tryE ret_err (\<lambda>_. do {
          on_lob (\<lambda>m. m\<lparr>lob_data := lob_data m @ (case b of None \<Rightarrow> [] | Some x \<Rightarrow> x), gotData := True\<rparr>);
          ok () }) }
      else processMessage_base processReturnParameters_lob msgType)"

definition lob_message :: "'z lob_scheme message" where
  "lob_message = \<lparr>m_write = lob_write, m_handle = lob_handler, m_finish = State_Monad.return ()\<rparr>"

subsection \<open>The contents\<close>

fun utf16_units :: "(u8 \<Rightarrow> u8 \<Rightarrow> u16) \<Rightarrow> bytes \<Rightarrow> u16 list" where
  "utf16_units f (a # b # bs) = f a b # utf16_units f bs"
| "utf16_units f bs = []"

definition decodeUTF16LE :: "bytes \<Rightarrow> bytes" where
  "decodeUTF16LE b = concat (map EncodeRune (utf16_decode (utf16_units (\<lambda>a b. of_le16 [a, b]) b)))"

definition lob_contents :: "bytes \<Rightarrow> bool \<Rightarrow> bool \<Rightarrow> bytes \<Rightarrow> bytes" where
  "lob_contents loc isCharacter nchar b =
     (if \<not> isCharacter then b
      else if nchar \<or> (length loc > lobLocOffsetFlag3 \<and> loc ! lobLocOffsetFlag3 AND lobLocFlagsVarLenCharset \<noteq> 0) then
        (if length loc > lobLocOffsetFlag4 \<and> \<not> nchar \<and> loc ! lobLocOffsetFlag4 AND lobLocFlagsLittleEndian \<noteq> 0 then decodeUTF16LE b
         else DecodeUTF16BE b)
      else b)"

definition ReadLOB :: "ttc_error option \<Rightarrow> ttc_error option \<Rightarrow> bytes \<Rightarrow> bool \<Rightarrow> bool \<Rightarrow> 'z lob_scheme \<Rightarrow>
    ((ttc_error + bytes) \<times> 'z lob_scheme) option" where
  "ReadLOB before after loc isCharacter nchar s0 =
     (if loc = [] then Some (Inl (Msg ''empty LOB locator''), s0)
      else with_mutex (\<lambda>s.
        let s = start_message funcLOBOp (s\<lparr>lobm := \<lparr>operation = lobOpRead, locator = loc, sourceOffset = 1, amount = lobMaxAmount,
              sendAmount = True, lob_data = [], gotData = False\<rparr>\<rparr>) in
        map_option (\<lambda>(r, s). (map_sum id (\<lambda>_. lob_contents loc isCharacter nchar (lob_data (lobm s))) r, s))
          (processMessageCtx before after lob_message s)) s0)"

end
