(* ===== verification/TtcProtocol.thy ===== *)
theory TtcProtocol
  imports TtcConn
begin

text \<open>
  \<^verbatim>\<open>internal/ttc/protocol.go\<close>: the messages that negotiate protocol, capabilities and data types. The table
  of data type conversions, a generated file, is the parameter \<open>dataTypes\<close>. \<open>login\<close> adds the
  fields of \<open>protocolMessage\<close>.
\<close>

definition driverName :: bytes where "driverName = asc ''adbc-driver-oracle''"
definition EncodingMultiByte :: u8 where "EncodingMultiByte = 0x01"
definition EncodingConvLength :: u8 where "EncodingConvLength = 0x02"

record protocolMessage =
  pr_serverVersion :: u8
  pr_serverFlags :: u8
  pr_serverBanner :: bytes
  serverCompileCaps :: "bytes option"
  serverRuntimeCaps :: "bytes option"

record login = exec +
  prot :: protocolMessage

type_synonym ('z, 'a) login_op = "('z login_scheme, 'a) state"

definition on_prot :: "(protocolMessage \<Rightarrow> protocolMessage) \<Rightarrow> ('z, unit) login_op" where
  "on_prot f = modify (\<lambda>s. s\<lparr>prot := f (prot s)\<rparr>)"

definition on_caps :: "(capabilities \<Rightarrow> capabilities) \<Rightarrow> ('z, unit) op" where
  "on_caps f = modify (\<lambda>s. s\<lparr>caps := f (caps s)\<rparr>)"

definition protocol_write :: "('z, unit) op" where
  "protocol_write = do {
     WriteUint8 MsgTypeProtocol;
     WriteUint8 6;
     WriteUint8 0;
     WriteStr driverName;
     WriteUint8 0 }"

text \<open>The character set of national text, at an offset given by two of its bytes.\<close>

definition fdo_ncharset :: "bytes \<Rightarrow> ttc_error + u16" where
  "fdo_ncharset fdo =
     (if length fdo < 7 then Inl (Msg ''protocol FDO too short'')
      else let ix = 6 + unat (fdo ! 5) + unat (fdo ! 6) in
        if length fdo < ix + 5 then Inl (Msg ''protocol FDO too short for ncharset'')
        else Inr (push_bit 8 (ucast (fdo ! (ix + 3))) OR ucast (fdo ! (ix + 4))))"

definition processProtocolInfo :: "('z, ttc_error + unit) login_op" where
  "processProtocolInfo = do {
     v \<leftarrow> ReadUB1;
     on_prot (\<lambda>p. p\<lparr>pr_serverVersion := v\<rparr>);
     SkipUB1;
     banner \<leftarrow> ReadNullTerminatedBytes;
     on_prot (\<lambda>p. p\<lparr>pr_serverBanner := banner\<rparr>);
     cs \<leftarrow> ReadUint16LE;
     on_caps (\<lambda>c. c\<lparr>CharsetID := cs\<rparr>);
     fl \<leftarrow> ReadUB1;
     on_prot (\<lambda>p. p\<lparr>pr_serverFlags := fl\<rparr>);
     numElem \<leftarrow> ReadUint16LE;
     (if numElem > 0 then SkipRawBytes (unat numElem * 5) else State_Monad.return ());
     fdoLen \<leftarrow> ReadUint16BE;
     fdo \<leftarrow> ReadRawBytes (unat fdoLen);
     tryE ret_err (\<lambda>_.
     tryE (State_Monad.return (fdo_ncharset (case fdo of None \<Rightarrow> [] | Some b \<Rightarrow> b))) (\<lambda>ncs. do {
       on_caps (\<lambda>c. c\<lparr>NCharsetID := ncs\<rparr>);
       cc \<leftarrow> ReadBytes;
       on_prot (\<lambda>p. p\<lparr>serverCompileCaps := cc\<rparr>);
       (case cc of None \<Rightarrow> State_Monad.return () | Some b \<Rightarrow> on_caps (AdjustForServerCompileCaps b));
       rc \<leftarrow> ReadBytes;
       on_prot (\<lambda>p. p\<lparr>serverRuntimeCaps := rc\<rparr>);
       (case rc of None \<Rightarrow> State_Monad.return () | Some b \<Rightarrow> on_caps (AdjustForServerRuntimeCaps b));
       ret_err })) }"

definition protocol_handler :: "u8 \<Rightarrow> ('z, ttc_error + unit) login_op" where
  "protocol_handler msgType =
     (if msgType \<noteq> MsgTypeProtocol then processMessage_base processReturnParameters_base msgType
      else tryE processProtocolInfo (\<lambda>_. do { set_end_of_response; ok () }))"

definition protocol_message :: "'z login_scheme message" where
  "protocol_message = \<lparr>m_write = protocol_write, m_handle = protocol_handler, m_finish = State_Monad.return ()\<rparr>"

definition write_conversion :: "u16 \<times> u16 \<times> u16 \<Rightarrow> ('z, unit) op" where
  "write_conversion dt = (case dt of (a, b, c) \<Rightarrow> do { WriteUint16BE a; WriteUint16BE b; WriteUint16BE c; WriteUint16BE 0 })"

definition dataTypes_write :: "(u16 \<times> u16 \<times> u16) list \<Rightarrow> ('z, unit) op" where
  "dataTypes_write dataTypes = do {
     WriteUint8 MsgTypeDataTypes;
     WriteUint16LE CharsetUTF8;
     WriteUint16LE CharsetUTF8;
     WriteUint8 (EncodingMultiByte OR EncodingConvLength);
     c \<leftarrow> gets caps;
     WriteBytesWithLength (CompileCaps c);
     WriteBytesWithLength (RuntimeCaps c);
     each write_conversion dataTypes;
     WriteUint16BE 0 }"

lemma ReadUint16BE_progress:
  assumes "run_state ReadUint16BE s = (v, s')" "rerr s' = None"
  shows "(s', s) \<in> less_input"
proof (cases "get_raw 2 s")
  case (Pair ob t)
  then show ?thesis using assms get_raw_None [of 2 s t] get_raw_progress [of 2 s _ t]
    by (cases ob) (auto simp: ReadUint16BE_def Let_def)
qed

text \<open>The loop over the conversions of the response, up to a zero type or an error.\<close>

definition read_conversion :: "('z, u16) op" where
  "read_conversion = do { conv \<leftarrow> ReadUint16BE; (if conv \<noteq> 0 then SkipRawBytes 4 else State_Monad.return ()); State_Monad.return conv }"

lemma read_conversion_progress:
  assumes "rerr (snd (run_state read_conversion s)) = None"
  shows "le_input (snd (run_state read_conversion (s :: 'z session_scheme))) s"
proof -
  have "forward (read_conversion :: ('z, u16) op)" unfolding read_conversion_def by (intro forward_rules)
  from this [unfolded forward_def, rule_format, OF assms] show ?thesis by (rule conjunct2)
qed

function read_conversions :: "'z session_scheme \<Rightarrow> 'z session_scheme" where
  "read_conversions s =
     (if fst (run_state ReadUint16BE s) = 0 \<or> rerr (snd (run_state ReadUint16BE s)) \<noteq> None then snd (run_state ReadUint16BE s)
      else if rerr (snd (run_state read_conversion (snd (run_state ReadUint16BE s)))) \<noteq> None then
        snd (run_state read_conversion (snd (run_state ReadUint16BE s)))
      else read_conversions (snd (run_state read_conversion (snd (run_state ReadUint16BE s)))))"
  by pat_completeness auto

termination
proof (relation less_input, rule wf_less_input)
  fix s :: "'z session_scheme"
  assume a: "\<not> (fst (run_state ReadUint16BE s) = 0 \<or> rerr (snd (run_state ReadUint16BE s)) \<noteq> None)"
    "\<not> rerr (snd (run_state read_conversion (snd (run_state ReadUint16BE s)))) \<noteq> None"
  then have "(snd (run_state ReadUint16BE s), s) \<in> less_input" by (intro ReadUint16BE_progress [of s "fst (run_state ReadUint16BE s)"]) auto
  with a show "(snd (run_state read_conversion (snd (run_state ReadUint16BE s))), s) \<in> less_input"
    by (intro le_less_input_trans [OF read_conversion_progress]) auto
qed

declare read_conversions.simps [simp del]

definition dataTypes_handler :: "u8 \<Rightarrow> ('z, ttc_error + unit) ttc_op" where
  "dataTypes_handler msgType =
     (if msgType \<noteq> MsgTypeDataTypes then processMessage_base processReturnParameters_base msgType
      else do {
        modify read_conversions;
        set_end_of_response;
        ret_err })"

definition dataTypes_message :: "(u16 \<times> u16 \<times> u16) list \<Rightarrow> 'z exec_scheme message" where
  "dataTypes_message dts = \<lparr>m_write = dataTypes_write dts, m_handle = dataTypes_handler, m_finish = State_Monad.return ()\<rparr>"

end
