(* ===== verification/TtcAuth.thy ===== *)
theory TtcAuth
  imports TtcProtocol GoText
begin

text \<open>
  \<^verbatim>\<open>internal/ttc/auth.go\<close> and the fast authentication message of \<^verbatim>\<open>protocol.go\<close>. The primitives are those of
  the packet layer, \<open>prims\<close>, with PBKDF2 and the random source in \<open>auth_env\<close>: the \<open>i\<close>-th request for \<open>n\<close>
  random bytes is answered by \<open>au_rand i n\<close>, \<open>None\<close> for an error. A slice expression out of range is
  \<open>Panicked\<close>. When a verifier cannot be made its partial results are dropped, as no request is sent.
\<close>

definition authModeLogon :: u32 where "authModeLogon = 0x00000001"
definition authModeWithPassword :: u32 where "authModeWithPassword = 0x00000100"
definition verifierType11g1 :: u32 where "verifierType11g1 = 0xb152"
definition verifierType11g2 :: u32 where "verifierType11g2 = 0x1b25"
definition verifierType12c :: u32 where "verifierType12c = 0x4815"

record auth_env =
  pbkdf2_Key :: "bytes \<Rightarrow> bytes \<Rightarrow> int \<Rightarrow> nat \<Rightarrow> bytes option"
  au_rand :: "nat \<Rightarrow> nat \<Rightarrow> bytes option"

record authMessage =
  username :: bytes
  password :: bytes
  au_token :: bytes
  authMode :: u32
  au_program :: bytes
  terminal :: bytes
  machine :: bytes
  osuser :: bytes
  au_pid :: bytes
  au_driverName :: bytes
  connectString :: bytes
  alterSession :: bytes
  fullVersionNum :: u32
  sessionData :: "bytes \<rightharpoonup> bytes"
  verifierType :: u32
  sessionKey :: bytes
  speedyKey :: bytes
  encodedPassword :: bytes
  comboKey :: "bytes option"

text \<open>The messages of a logon have their own \<open>baseMessage\<close>: that of \<open>auth\<close> is \<open>authb\<close>, and so on.\<close>

record logon = login +
  authm :: authMessage
  authb :: baseMessage
  protb :: baseMessage
  dtb :: baseMessage
  aenv :: auth_env
  randoms :: nat

type_synonym ('z, 'a) logon_op = "('z logon_scheme, 'a) state"

definition on_auth :: "(authMessage \<Rightarrow> authMessage) \<Rightarrow> ('z, unit) logon_op" where
  "on_auth f = modify (\<lambda>s. s\<lparr>authm := f (authm s)\<rparr>)"

definition auth_initialize :: "authMessage \<Rightarrow> baseMessage" where
  "auth_initialize m =
     (if au_token m \<noteq> [] then init_message funcAuthPhaseTwo else (init_message funcAuthPhaseOne)\<lparr>resend := True\<rparr>)"

subsection \<open>Hexadecimal and CBC\<close>

definition hex_val :: "u8 \<Rightarrow> u8 option" where
  "hex_val c = (if 48 \<le> c \<and> c \<le> 57 then Some (c - 48) else if 97 \<le> c \<and> c \<le> 102 then Some (c - 87)
     else if 65 \<le> c \<and> c \<le> 70 then Some (c - 55) else None)"

fun hex_decode :: "bytes \<Rightarrow> bytes option" where
  "hex_decode [] = Some []"
| "hex_decode [_] = None"
| "hex_decode (a # b # s) =
     (case (hex_val a, hex_val b, hex_decode s) of (Some x, Some y, Some r) \<Rightarrow> Some ((push_bit 4 x OR y) # r) | _ \<Rightarrow> None)"

definition hex_digit :: "u8 \<Rightarrow> u8" where
  "hex_digit v = (if v < 10 then v + 48 else v + 55)"

text \<open>\<^verbatim>\<open>strings.ToUpper(hex.EncodeToString(b))\<close>.\<close>

definition hex_upper :: "bytes \<Rightarrow> bytes" where
  "hex_upper b = concat (map (\<lambda>c. [hex_digit (drop_bit 4 c), hex_digit (c AND 0xF)]) b)"

definition decryptCBC :: "crypto \<Rightarrow> bytes \<Rightarrow> bytes \<Rightarrow> ttc_error + bytes" where
  "decryptCBC cr key b =
     (if \<not> aes_key_ok key then Inl (Msg ''crypto/aes: invalid key size'')
      else if length b mod 16 \<noteq> 0 then Inl (Msg ''encrypted data is not a multiple of the AES block size'')
      else Inr (cbc_decrypt (aesDec cr key) (replicate 16 0) b))"

definition cbc_padded :: "bytes \<Rightarrow> bool \<Rightarrow> bytes" where
  "cbc_padded pt zeros = (let n = 16 - length pt mod 16 in pt @ replicate n (if zeros then 0 else word_of_nat n))"

definition encryptCBC :: "crypto \<Rightarrow> bytes \<Rightarrow> bytes \<Rightarrow> bool \<Rightarrow> ttc_error + bytes" where
  "encryptCBC cr key pt zeros =
     (if \<not> aes_key_ok key then Inl (Msg ''crypto/aes: invalid key size'')
      else Inr (fst (cbc_encrypt (aesEnc cr key) (replicate 16 0) (cbc_padded pt zeros))))"

text \<open>The slice \<open>b[:n]\<close>, within the length of what is known to be its capacity.\<close>

definition upto :: "nat \<Rightarrow> bytes \<Rightarrow> ttc_error + bytes" where
  "upto n b = (if n \<le> length b then Inr (take n b) else Inl Panicked)"

definition or_error :: "ttc_error \<Rightarrow> 'a option \<Rightarrow> ttc_error + 'a" where
  "or_error e x = (case x of None \<Rightarrow> Inl e | Some v \<Rightarrow> Inr v)"

subsection \<open>The verifier\<close>

definition sess_data :: "authMessage \<Rightarrow> string \<Rightarrow> bytes" where
  "sess_data m k = (case sessionData m (asc k) of None \<Rightarrow> [] | Some v \<Rightarrow> v)"

definition rand_error :: ttc_error where
  "rand_error = Msg ''rand''"

definition pbkdf2_error :: ttc_error where
  "pbkdf2_error = Msg ''pbkdf2''"

text \<open>Key length, hash of the password, and the key it is made of for the 12c verifier.\<close>

definition password_hash :: "crypto \<Rightarrow> auth_env \<Rightarrow> authMessage \<Rightarrow> bytes \<Rightarrow> ttc_error + nat \<times> bytes \<times> bytes" where
  "password_hash cr env m vdata =
     (if verifierType m = verifierType12c then
        andThen (or_error pbkdf2_error (pbkdf2_Key env (password m) (vdata @ asc ''AUTH_PBKDF2_SPEEDY_KEY'')
            (fst (Atoi (sess_data m ''AUTH_PBKDF2_VGEN_COUNT''))) 64)) (\<lambda>key.
        Inr (32, take 32 (digest cr SHA512 (key @ vdata)), key))
      else Inr (24, digest cr SHA1 (password m @ vdata) @ [0, 0, 0, 0], []))"

text \<open>The key both ends combine from their session keys, and the client's session key in hexadecimal.\<close>

definition combo_key :: "crypto \<Rightarrow> auth_env \<Rightarrow> authMessage \<Rightarrow> nat \<Rightarrow> bytes \<Rightarrow> bytes \<Rightarrow> ttc_error + bytes" where
  "combo_key cr env m keyLen partA partB =
     (if length partA = 48 then
        let b = map (\<lambda>i. partA ! i XOR partB ! i) [16..<40] in
        upto keyLen (digest cr MD5 (take 16 b) @ digest cr MD5 (drop 16 b))
      else
        andThen (or_error (Msg ''invalid AUTH_PBKDF2_CSK_SALT'') (hex_decode (sess_data m ''AUTH_PBKDF2_CSK_SALT''))) (\<lambda>salt.
        andThen (upto keyLen partB) (\<lambda>b. andThen (upto keyLen partA) (\<lambda>a.
        or_error pbkdf2_error (pbkdf2_Key env (hex_upper (b @ a)) salt (fst (Atoi (sess_data m ''AUTH_PBKDF2_SDER_COUNT''))) keyLen)))))"

definition session_key :: "bytes \<Rightarrow> bytes \<Rightarrow> ttc_error + bytes" where
  "session_key partA encodedClientKey = upto (if length partA = 48 then 96 else 64) (hex_upper encodedClientKey)"

definition speedy_key :: "crypto \<Rightarrow> authMessage \<Rightarrow> bytes \<Rightarrow> bytes \<Rightarrow> bytes \<Rightarrow> ttc_error + bytes" where
  "speedy_key cr m combo salt passwordKey =
     (if verifierType m = verifierType12c then
        andThen (encryptCBC cr combo (salt @ passwordKey) False) (\<lambda>sp. andThen (upto 80 sp) (\<lambda>x. Inr (hex_upper x)))
      else Inr (speedyKey m))"

text \<open>The random bytes are asked for in this order: the client's session key, a salt, for 12c one more.\<close>

definition rand_bytes :: "auth_env \<Rightarrow> nat \<Rightarrow> nat \<Rightarrow> ttc_error + bytes" where
  "rand_bytes env i n = or_error rand_error (au_rand env i n)"

definition generateVerifier :: "crypto \<Rightarrow> auth_env \<Rightarrow> nat \<Rightarrow> authMessage \<Rightarrow> ttc_error + authMessage" where
  "generateVerifier cr env i m =
     andThen (or_error (Msg ''invalid AUTH_VFR_DATA'') (hex_decode (sess_data m ''AUTH_VFR_DATA''))) (\<lambda>vdata.
     andThen (password_hash cr env m vdata) (\<lambda>(keyLen, hsh, passwordKey).
     andThen (or_error (Msg ''invalid AUTH_SESSKEY'') (hex_decode (sess_data m ''AUTH_SESSKEY''))) (\<lambda>encodedServerKey.
     andThen (decryptCBC cr hsh encodedServerKey) (\<lambda>partA.
     andThen (rand_bytes env i (length partA)) (\<lambda>partB.
     andThen (encryptCBC cr hsh partB False) (\<lambda>encodedClientKey.
     andThen (session_key partA encodedClientKey) (\<lambda>sk.
     andThen (combo_key cr env m keyLen partA partB) (\<lambda>combo.
     andThen (if verifierType m = verifierType12c then rand_bytes env (i + 1) 16 else Inr []) (\<lambda>salt1.
     andThen (speedy_key cr m combo salt1 passwordKey) (\<lambda>sp.
     andThen (rand_bytes env (if verifierType m = verifierType12c then i + 2 else i + 1) 16) (\<lambda>salt2.
     andThen (encryptCBC cr combo (salt2 @ password m) False) (\<lambda>encPassword.
     Inr (m\<lparr>sessionKey := sk, comboKey := Some combo, speedyKey := sp, encodedPassword := hex_upper encPassword\<rparr>)))))))))))))"

definition serverVersion :: "authMessage \<Rightarrow> capabilities \<Rightarrow> u32 list" where
  "serverVersion m c =
     (let full = word_of_nat (fst (ParseUint 32 (sess_data m ''AUTH_VERSION_NO''))) :: u32 in
      if TTCFieldVersion c \<ge> FieldVersion18_1Ext1 then
        [drop_bit 24 full AND 0xff, drop_bit 16 full AND 0xff, drop_bit 12 full AND 0x0f, drop_bit 4 full AND 0xff, full AND 0x0f]
      else [drop_bit 24 full AND 0xff, drop_bit 20 full AND 0x0f, drop_bit 12 full AND 0x0f, drop_bit 8 full AND 0x0f, full AND 0x0f])"

subsection \<open>The response\<close>

text \<open>The proof of the server: it holds the key too.\<close>

definition check_server :: "crypto \<Rightarrow> bytes \<Rightarrow> bytes option \<Rightarrow> ttc_error option" where
  "check_server cr combo response =
     (case response of None \<Rightarrow> Some (Msg ''server did not return an authentication response'')
      | Some encoded \<Rightarrow>
        (case hex_decode encoded of None \<Rightarrow> Some (Msg ''invalid server authentication response'')
         | Some raw \<Rightarrow>
           (case decryptCBC cr combo raw of Inl _ \<Rightarrow> Some (Msg ''server key mismatch'')
            | Inr resp \<Rightarrow> if length resp < 32 \<or> take 16 (drop 16 resp) \<noteq> asc ''SERVER_TO_CLIENT'' then Some (Msg ''server key mismatch'')
                          else None)))"

definition read_auth_pair :: "('z, unit) logon_op" where
  "read_auth_pair = do {
     key \<leftarrow> ReadStrWithLength;
     val \<leftarrow> ReadStrWithLength;
     (if key = asc ''AUTH_VFR_DATA'' then do { v \<leftarrow> ReadUB4; on_auth (\<lambda>m. m\<lparr>verifierType := v\<rparr>) } else SkipUB4);
     on_auth (\<lambda>m. m\<lparr>sessionData := (sessionData m)(key \<mapsto> val)\<rparr>) }"

definition processReturnParameters_auth :: "('z, ttc_error + unit) logon_op" where
  "processReturnParameters_auth = do {
     numParams \<leftarrow> ReadUB2;
     repeat_op (unat numParams) read_auth_pair;
     tryE ret_err (\<lambda>_. do {
       s \<leftarrow> gets id;
       if functionCode (msg s) = funcAuthPhaseOne then do { on_msg (\<lambda>m. m\<lparr>functionCode := funcAuthPhaseTwo\<rparr>); ok () }
       else case comboKey (authm s) of None \<Rightarrow> ok ()
       | Some k \<Rightarrow>
         (case check_server (prims (tr s)) k (sessionData (authm s) (asc ''AUTH_SVR_RESPONSE'')) of
            Some e \<Rightarrow> throw e | None \<Rightarrow> ok ()) }) }"

definition auth_handler :: "u8 \<Rightarrow> ('z, ttc_error + unit) logon_op" where
  "auth_handler = processMessage_base processReturnParameters_auth"

subsection \<open>The request\<close>

definition writeKeyValue :: "string \<Rightarrow> bytes \<Rightarrow> u32 \<Rightarrow> ('z, unit) op" where
  "writeKeyValue k v flags = do {
     WriteBytesWithTwoLengths (Some (asc k));
     WriteBytesWithTwoLengths (Some v);
     WriteUB4 flags }"

text \<open>What the second phase needs before it is written; with an error nothing is written.\<close>

definition prepare_phase_two :: "crypto \<Rightarrow> auth_env \<Rightarrow> nat \<Rightarrow> authMessage \<Rightarrow> ttc_error + authMessage" where
  "prepare_phase_two cr env i m =
     (if au_token m \<noteq> [] then Inr m
      else let m = m\<lparr>authMode := authMode m OR authModeWithPassword\<rparr> in
        if verifierType m \<notin> {verifierType12c, verifierType11g1, verifierType11g2} then Inl (Msg ''unsupported password verifier type'')
        else generateVerifier cr env i m)"

definition phase_two_pairs :: "authMessage \<Rightarrow> u32" where
  "phase_two_pairs m = 4 + (if au_token m \<noteq> [] then 1 else 2 + (if verifierType m = verifierType12c then 1 else 0)) +
     (if connectString m \<noteq> [] then 1 else 0)"

definition auth_header :: "authMessage \<Rightarrow> u32 \<Rightarrow> ('z, unit) op" where
  "auth_header m numPairs = do {
     WriteUint8 (if username m \<noteq> [] then 1 else 0);
     WriteUB4 (word_of_nat (length (username m)));
     WriteUB4 (authMode m);
     WriteUint8 1;
     WriteUB4 numPairs;
     WriteUint8 1;
     WriteUint8 1;
     (if username m \<noteq> [] then WriteBytesWithLength (username m) else State_Monad.return ()) }"

definition phase_one_fields :: "authMessage \<Rightarrow> ('z, unit) op" where
  "phase_one_fields m = do {
     writeKeyValue ''AUTH_TERMINAL'' (terminal m) 0;
     writeKeyValue ''AUTH_PROGRAM_NM'' (au_program m) 0;
     writeKeyValue ''AUTH_MACHINE'' (machine m) 0;
     writeKeyValue ''AUTH_PID'' (au_pid m) 0;
     writeKeyValue ''AUTH_SID'' (osuser m) 0 }"

definition phase_two_fields :: "authMessage \<Rightarrow> ('z, unit) op" where
  "phase_two_fields m = do {
     (if au_token m \<noteq> [] then writeKeyValue ''AUTH_TOKEN'' (au_token m) 0
      else do {
        writeKeyValue ''AUTH_SESSKEY'' (sessionKey m) 1;
        (if verifierType m = verifierType12c then writeKeyValue ''AUTH_PBKDF2_SPEEDY_KEY'' (speedyKey m) 0 else State_Monad.return ());
        writeKeyValue ''AUTH_PASSWORD'' (encodedPassword m) 0 });
     writeKeyValue ''SESSION_CLIENT_CHARSET'' (asc ''873'') 0;
     writeKeyValue ''SESSION_CLIENT_DRIVER_NAME'' (au_driverName m) 0;
     writeKeyValue ''SESSION_CLIENT_VERSION'' (asc (dec_nat (unat (fullVersionNum m)))) 0;
     writeKeyValue ''AUTH_ALTER_SESSION'' (alterSession m) 1;
     (if connectString m \<noteq> [] then writeKeyValue ''AUTH_CONNECT_STRING'' (connectString m) 0 else State_Monad.return ()) }"

definition auth_write :: "('z, unit) logon_op" where
  "auth_write = do {
     s \<leftarrow> gets id;
     if functionCode (msg s) = funcAuthPhaseOne then do {
       writeFunctionCode;
       auth_header (authm s) 5;
       phase_one_fields (authm s) }
     else case prepare_phase_two (prims (tr s)) (aenv s) (randoms s) (authm s) of
       Inl e \<Rightarrow> on_conn (\<lambda>c. c\<lparr>deferredErr := Some e\<rparr>)
     | Inr m \<Rightarrow> do {
         on_auth (\<lambda>_. m);
         modify (\<lambda>s. s\<lparr>randoms := randoms s + 3\<rparr>);
         writeFunctionCode;
         auth_header m (phase_two_pairs m);
         phase_two_fields m } }"

definition auth_message :: "'z logon_scheme message" where
  "auth_message = \<lparr>m_write = auth_write, m_handle = auth_handler, m_finish = State_Monad.return ()\<rparr>"

subsection \<open>Fast authentication\<close>

text \<open>Running an operation of a message inside another message: its \<open>baseMessage\<close> is swapped in.\<close>

definition inside_message :: "('s ttc_scheme \<Rightarrow> baseMessage) \<Rightarrow> (baseMessage \<Rightarrow> 's ttc_scheme \<Rightarrow> 's ttc_scheme) \<Rightarrow>
    ('s, 'a) ttc_op \<Rightarrow> ('s, 'a) ttc_op" where
  "inside_message get put m = do {
     outer \<leftarrow> gets msg;
     modify (\<lambda>s. s\<lparr>msg := get s\<rparr>);
     r \<leftarrow> m;
     modify (\<lambda>s. (put (msg s) s)\<lparr>msg := outer\<rparr>);
     State_Monad.return r }"

definition as_auth :: "('z, 'a) logon_op \<Rightarrow> ('z, 'a) logon_op" where
  "as_auth = inside_message authb (\<lambda>b s. s\<lparr>authb := b\<rparr>)"

definition as_protocol :: "('z, 'a) logon_op \<Rightarrow> ('z, 'a) logon_op" where
  "as_protocol = inside_message protb (\<lambda>b s. s\<lparr>protb := b\<rparr>)"

definition as_dataTypes :: "('z, 'a) logon_op \<Rightarrow> ('z, 'a) logon_op" where
  "as_dataTypes = inside_message dtb (\<lambda>b s. s\<lparr>dtb := b\<rparr>)"

definition fastAuth_write :: "(u16 \<times> u16 \<times> u16) list \<Rightarrow> ('z, unit) logon_op" where
  "fastAuth_write dts = do {
     WriteUint8 MsgTypeFastAuth;
     WriteUint8 1; WriteUint8 1; WriteUint8 0;
     protocol_write;
     WriteUint16BE 0; WriteUint8 0; WriteUint16BE 0;
     on_caps (\<lambda>c. c\<lparr>TTCFieldVersion := FieldVersion19_1Ext1\<rparr>);
     WriteUint8 FieldVersion19_1Ext1;
     dataTypes_write dts;
     as_auth auth_write;
     on_caps (\<lambda>c. c\<lparr>TTCFieldVersion := FieldVersionMax\<rparr>) }"

definition fastAuth_handler :: "u8 \<Rightarrow> ('z, ttc_error + unit) logon_op" where
  "fastAuth_handler msgType =
     (if msgType = MsgTypeProtocol then as_protocol (protocol_handler msgType)
      else if msgType = MsgTypeDataTypes then as_dataTypes (dataTypes_handler msgType)
      else do {
        r \<leftarrow> as_auth (auth_handler msgType);
        b \<leftarrow> gets authb;
        on_msg (\<lambda>m. m\<lparr>endOfResponse := endOfResponse b\<rparr>);
        (if errorOccurred b then on_msg (\<lambda>m. m\<lparr>errorOccurred := True, errInfo := errInfo b\<rparr>) else State_Monad.return ());
        State_Monad.return r })"

definition fastAuth_message :: "(u16 \<times> u16 \<times> u16) list \<Rightarrow> 'z logon_scheme message" where
  "fastAuth_message dts = \<lparr>m_write = fastAuth_write dts, m_handle = fastAuth_handler, m_finish = State_Monad.return ()\<rparr>"

end
