(* ===== verification/AuthProps.thy ===== *)
theory AuthProps
  imports TtcAuth TnsChannel
begin

text \<open>
  The logon of \<^theory_text>\<open>TtcAuth\<close> seen from a server that holds the password verifier: it recovers the client's half of
  the key from the session key, combines the same key, and reads the password. The server is a
  specification, its functions are not code of the program. \<open>auth_env_ok\<close> is what the program relies on
  of its random source and of PBKDF2.
\<close>

definition auth_env_ok :: "auth_env \<Rightarrow> bool" where
  "auth_env_ok env \<longleftrightarrow>
     (\<forall>i n. \<exists>r. au_rand env i n = Some r \<and> length r = n) \<and>
     (\<forall>p s n k. \<exists>r. pbkdf2_Key env p s n k = Some r \<and> length r = k)"

lemma auth_env_rand: "auth_env_ok env \<Longrightarrow> \<exists>r. rand_bytes env i n = Inr r \<and> length r = n"
  unfolding auth_env_ok_def rand_bytes_def or_error_def by (metis option.simps(5))

lemma auth_env_pbkdf2: "auth_env_ok env \<Longrightarrow> \<exists>r. pbkdf2_Key env p s n k = Some r \<and> length r = k"
  by (simp add: auth_env_ok_def)

subsection \<open>Hexadecimal\<close>

lemma hex_val_digits: "list_all (\<lambda>v. hex_val (hex_digit v) = Some v) (map word_of_nat [0..<16])"
  by code_simp

lemma hex_val_digit:
  fixes v :: u8
  assumes "unat v < 16"
  shows "hex_val (hex_digit v) = Some v"
proof -
  have "v \<in> set (map word_of_nat [0..<16])" using assms by (auto intro: image_eqI [of v _ "unat v"])
  with hex_val_digits show ?thesis by (simp only: list_all_iff)
qed

lemma nibbles: "push_bit 4 (drop_bit 4 c) OR (c AND 0xF) = c" "unat (drop_bit 4 c) < 16" "unat (c AND 0xF) < 16"
  for c :: u8
proof -
  have t: "c AND 0xF = take_bit 4 c" by (simp add: take_bit_eq_mask mask_eq_exp_minus_1)
  from t show "push_bit 4 (drop_bit 4 c) OR (c AND 0xF) = c" 
    by (intro bit_word_eqI) (auto simp: bit_simps)
  have "unat c < 2 ^ LENGTH(8)" by (rule unsigned_less)
  then show "unat (drop_bit 4 c) < 16" by (subst unat_drop_bit_eq, simp add: drop_bit_eq_div)
  show "unat (c AND 0xF) < 16" using take_bit_nat_less_exp [of 4 "unat c"] by (simp add: t unsigned_take_bit_eq)
qed

lemma hex_upper_simps [simp]: "hex_upper [] = []"
  "hex_upper (c # b) = hex_digit (drop_bit 4 c) # hex_digit (c AND 0xF) # hex_upper b"
  by (simp_all add: hex_upper_def)

lemma hex_round_trip [simp]: "hex_decode (hex_upper b) = Some b"
  by (induction b) (simp_all add: hex_val_digit nibbles)

lemma length_hex_upper [simp]: "length (hex_upper b) = 2 * length b"
  by (induction b) simp_all

lemma take_hex_upper: "take (2 * n) (hex_upper b) = hex_upper (take n b)"
proof (induction b arbitrary: n)
  case (Cons c b)
  show ?case by (cases n) (simp_all add: Cons.IH)
qed simp

subsection \<open>CBC with padding\<close>

lemma cbc_encrypt_append:
  assumes "\<And>b. length b = 16 \<Longrightarrow> length (E b) = 16" "length iv = 16" "length p = 16 * n"
  shows "\<exists>r. fst (cbc_encrypt E iv (p @ q)) = fst (cbc_encrypt E iv p) @ r"
  using assms(2,3)
proof (induction n arbitrary: iv p)
  case (Suc n)
  then obtain x ys where p: "p = x # ys" by (cases p) auto
  define c where "c = E (xor_bytes (take 16 p) iv)"
  have c: "length c = 16" unfolding c_def by (rule assms(1)) (use Suc.prems in simp)
  have t: "drop 15 (ys @ q) = drop 15 ys @ q" "take 15 (ys @ q) = take 15 ys" using Suc.prems p by simp_all
  obtain r where r: "fst (cbc_encrypt E c (drop 15 ys @ q)) = fst (cbc_encrypt E c (drop 15 ys)) @ r"
    using Suc.IH [OF c, of "drop 15 ys"] Suc.prems p by auto
  have "fst (cbc_encrypt E iv (p @ q)) = c @ fst (cbc_encrypt E c (drop 15 ys @ q))"
    by (simp add: p c_def t case_prod_unfold Let_def del: take_append drop_append)
  moreover have "fst (cbc_encrypt E iv p) = c @ fst (cbc_encrypt E c (drop 15 ys))"
    by (simp add: p c_def case_prod_unfold Let_def)
  ultimately show ?case using r by simp
qed simp

definition cbc_seal :: "crypto \<Rightarrow> bytes \<Rightarrow> bytes \<Rightarrow> bytes" where
  "cbc_seal cr key b = fst (cbc_encrypt (aesEnc cr key) (replicate 16 0) b)"

definition cbc_open :: "crypto \<Rightarrow> bytes \<Rightarrow> bytes \<Rightarrow> bytes" where
  "cbc_open cr key b = cbc_decrypt (aesDec cr key) (replicate 16 0) b"

lemma cbc_open_seal:
  assumes "crypto_ok cr" "aes_key_ok key" "16 dvd length b"
  shows "cbc_open cr key (cbc_seal cr key b) = b" "length (cbc_seal cr key b) = length b"
proof -
  from assms(3) obtain n where n: "length b = 16 * n" by (elim dvdE)
  show "cbc_open cr key (cbc_seal cr key b) = b" unfolding cbc_open_def cbc_seal_def
    by (rule cbc_round_trip) (use n crypto_okD [OF assms(1,2)] in auto)
  show "length (cbc_seal cr key b) = length b" unfolding cbc_seal_def n
    by (rule cbc_length) (use n crypto_okD [OF assms(1,2)] in auto)
qed

lemma take_cbc_seal:
  assumes "crypto_ok cr" "aes_key_ok key" "16 dvd length p"
  shows "take (length p) (cbc_seal cr key (p @ q)) = cbc_seal cr key p"
proof -
  from assms(3) obtain n where n: "length p = 16 * n" by (elim dvdE)
  have "\<exists>r. cbc_seal cr key (p @ q) = cbc_seal cr key p @ r" unfolding cbc_seal_def
    by (rule cbc_encrypt_append) (use n crypto_okD [OF assms(1,2)] in auto)
  then show ?thesis using cbc_open_seal(2) [OF assms] by auto
qed

lemma cbc_padded_form:
  obtains k where "cbc_padded pt zeros = pt @ replicate k (if zeros then 0 else word_of_nat k)" "1 \<le> k" "k \<le> 16"
    "length pt + k = 16 * (length pt div 16 + 1)"
proof -
  let ?k = "16 - length pt mod 16"
  have "length pt mod 16 < 16" by simp
  moreover have "length pt = 16 * (length pt div 16) + length pt mod 16" by simp
  ultimately have "1 \<le> ?k" "?k \<le> 16" "length pt + ?k = 16 * (length pt div 16 + 1)" by presburger+
  then show thesis by (intro that [of ?k]) (simp_all add: cbc_padded_def Let_def)
qed

lemma length_cbc_padded: "length (cbc_padded pt zeros) = 16 * (length pt div 16 + 1)"
  by (rule cbc_padded_form [of pt zeros]) simp

lemma encryptCBC_seal: "aes_key_ok key \<Longrightarrow> encryptCBC cr key pt zeros = Inr (cbc_seal cr key (cbc_padded pt zeros))"
  by (simp add: encryptCBC_def cbc_seal_def)

lemma decryptCBC_seal:
  assumes "crypto_ok cr" "aes_key_ok key" "16 dvd length b"
  shows "decryptCBC cr key (cbc_seal cr key b) = Inr b"
  using assms(2,3) cbc_open_seal [OF assms] by (simp add: decryptCBC_def cbc_open_def mod_eq_0_iff_dvd)

text \<open>Removing the padding: its length is its last byte.\<close>

definition unpad :: "bytes \<Rightarrow> bytes" where
  "unpad b = take (length b - unat (last b)) b"

lemma unpad_padded: "unpad (cbc_padded pt False) = pt"
proof (rule cbc_padded_form [of pt False])
  fix k assume k: "cbc_padded pt False = pt @ replicate k (if False then 0 else word_of_nat k)" "1 \<le> k" "k \<le> 16"
  then have "last (cbc_padded pt False) = word_of_nat k" by simp
  moreover have "unat (word_of_nat k :: u8) = k" using k by (simp add: unat_of_nat)
  ultimately show ?thesis using k by (simp add: unpad_def)
qed

subsection \<open>The handshake\<close>

text \<open>
  The server's view: it decrypts the client's session key with the password's hash, combines the two
  session keys (\<open>combine\<close>), and decrypts the password with the result, behind 16 bytes of salt.
\<close>

definition server_combo :: "crypto \<Rightarrow> (bytes \<Rightarrow> ttc_error + bytes) \<Rightarrow> bytes \<Rightarrow> bytes \<Rightarrow> bytes option" where
  "server_combo cr combine hsh sk =
     (case hex_decode sk of None \<Rightarrow> None | Some ck \<Rightarrow> (case combine (cbc_open cr hsh ck) of Inl _ \<Rightarrow> None | Inr k \<Rightarrow> Some k))"

definition server_password :: "crypto \<Rightarrow> bytes \<Rightarrow> bytes \<Rightarrow> bytes option" where
  "server_password cr k ep = map_option (\<lambda>e. drop 16 (unpad (cbc_open cr k e))) (hex_decode ep)"

definition server_proof :: "crypto \<Rightarrow> bytes \<Rightarrow> bytes \<Rightarrow> bytes" where
  "server_proof cr k challenge = hex_upper (cbc_seal cr k (challenge @ asc ''SERVER_TO_CLIENT''))"

lemma password_hash_length:
  assumes "crypto_ok cr" "auth_env_ok env" "password_hash cr env m vdata = Inr (keyLen, hsh, pkey)"
  shows "length hsh = keyLen \<and> keyLen \<in> {24, 32} \<and> (verifierType m = verifierType12c \<longrightarrow> length pkey = 64)"
proof (cases "verifierType m = verifierType12c")
  case True
  obtain r where "pbkdf2_Key env (password m) (vdata @ asc ''AUTH_PBKDF2_SPEEDY_KEY'') (fst (Atoi (sess_data m ''AUTH_PBKDF2_VGEN_COUNT''))) 64 = Some r"
      "length r = 64" using auth_env_pbkdf2 [OF assms(2)] by blast
  then show ?thesis using True assms(3) digest_length [OF assms(1)]
    by (auto simp: password_hash_def or_error_def)
next
  case False
  then show ?thesis using assms(3) digest_length [OF assms(1)] by (auto simp: password_hash_def)
qed

lemma combo_key_defined:
  assumes "crypto_ok cr" "auth_env_ok env" "keyLen \<in> {24, 32}" "length partB = length partA"
    "length partA = 48 \<or> length partA = 32 \<and> hex_decode (sess_data m ''AUTH_PBKDF2_CSK_SALT'') \<noteq> None"
  shows "\<exists>k. combo_key cr env m keyLen partA partB = Inr k \<and> length k = keyLen"
proof (cases "length partA = 48")
  case True
  then show ?thesis using assms(3) digest_length [OF assms(1)] by (auto simp: combo_key_def upto_def Let_def)
next
  case False
  with assms(5) obtain salt where "hex_decode (sess_data m ''AUTH_PBKDF2_CSK_SALT'') = Some salt" "length partA = 32" by auto
  moreover obtain r where "pbkdf2_Key env (hex_upper (take keyLen partB @ take keyLen partA)) salt
      (fst (Atoi (sess_data m ''AUTH_PBKDF2_SDER_COUNT''))) keyLen = Some r" "length r = keyLen"
    using auth_env_pbkdf2 [OF assms(2)] by blast
  ultimately show ?thesis using assms(3,4) by (auto simp: combo_key_def upto_def or_error_def)
qed

lemma check_server_proof:
  assumes "crypto_ok cr" "aes_key_ok k" "length challenge = 16"
  shows "check_server cr k (Some (server_proof cr k challenge)) = None"
proof -
  have "length (asc ''SERVER_TO_CLIENT'') = 16" by (simp add: asc_def)
  then show ?thesis using decryptCBC_seal [OF assms(1,2), of "challenge @ asc ''SERVER_TO_CLIENT''"] assms(3)
    by (simp add: check_server_def server_proof_def)
qed

lemma speedy_key_defined:
  assumes "crypto_ok cr" "aes_key_ok k" "length salt = 16" "verifierType m = verifierType12c \<longrightarrow> length pkey = 64"
  shows "\<exists>sp. speedy_key cr m k salt pkey = Inr sp"
proof (cases "verifierType m = verifierType12c")
  case True
  then have "length (cbc_seal cr k (cbc_padded (salt @ pkey) False)) = 96"
    using assms by (subst cbc_open_seal(2)) (simp_all add: length_cbc_padded)
  with True show ?thesis by (simp add: speedy_key_def encryptCBC_seal [OF assms(2)] upto_def)
qed (simp add: speedy_key_def)

lemma client_session_key:
  assumes "crypto_ok cr" "aes_key_ok hsh" "length partB = length partA" "length partA = 48 \<or> length partA = 32"
  obtains ck where "encryptCBC cr hsh partB False = Inr ck" "session_key partA ck = Inr (hex_upper (cbc_seal cr hsh partB))"
proof
  let ?ck = "cbc_seal cr hsh (cbc_padded partB False)"
  show "encryptCBC cr hsh partB False = Inr ?ck" by (rule encryptCBC_seal [OF assms(2)])
  have d: "16 dvd length partB" using assms(3,4) by auto
  have "take (length partB) ?ck = cbc_seal cr hsh partB"
    by (rule cbc_padded_form [of partB False]) (use take_cbc_seal [OF assms(1,2) d] in simp)
  moreover have "length ?ck \<ge> length partB"
    by (subst cbc_open_seal(2) [OF assms(1,2)]) (auto simp: length_cbc_padded intro: cbc_padded_form [of partB False])
  moreover have "(if length partA = 48 then 96 else 64) = 2 * length partB" using assms(3,4) by auto
  ultimately show "session_key partA ?ck = Inr (hex_upper (cbc_seal cr hsh partB))"
    by (simp add: session_key_def upto_def take_hex_upper)
qed

text \<open>
  Property C6. A server that knows the password's hash completes the logon with what the client sends:
  from \<open>AUTH_SESSKEY\<close> it combines the key the client combined, with that key it reads the password out
  of \<open>AUTH_PASSWORD\<close>, and the client accepts its proof made with that key, for every verifier type,
  every password and all random choices.
\<close>

theorem logon_handshake:
  assumes "crypto_ok cr" "auth_env_ok env"
    and "hex_decode (sess_data m ''AUTH_VFR_DATA'') = Some vdata"
    and "password_hash cr env m vdata = Inr (keyLen, hsh, pkey)"
    and "sess_data m ''AUTH_SESSKEY'' = hex_upper (cbc_seal cr hsh partA)"
    and "length partA = 48 \<or> length partA = 32 \<and> hex_decode (sess_data m ''AUTH_PBKDF2_CSK_SALT'') \<noteq> None"
  shows "\<exists>m' k. generateVerifier cr env i m = Inr m' \<and> comboKey m' = Some k \<and>
     server_combo cr (combo_key cr env m keyLen partA) hsh (sessionKey m') = Some k \<and>
     server_password cr k (encodedPassword m') = Some (password m) \<and>
     (\<forall>challenge. length challenge = 16 \<longrightarrow> check_server cr k (Some (server_proof cr k challenge)) = None)"
proof -
  have hl: "length hsh = keyLen" "keyLen \<in> {24, 32}" "verifierType m = verifierType12c \<longrightarrow> length pkey = 64"
    using password_hash_length [OF assms(1,2,4)] by auto
  then have hk: "aes_key_ok hsh" by (auto simp: aes_key_ok_def)
  have dA: "16 dvd length partA" using assms(6) by auto
  have A: "decryptCBC cr hsh (cbc_seal cr hsh partA) = Inr partA" by (rule decryptCBC_seal [OF assms(1) hk dA])
  obtain partB where B: "rand_bytes env i (length partA) = Inr partB" "length partB = length partA"
    using auth_env_rand [OF assms(2)] by blast
  obtain ck where ck: "encryptCBC cr hsh partB False = Inr ck" and sk: "session_key partA ck = Inr (hex_upper (cbc_seal cr hsh partB))"
    by (rule client_session_key [OF assms(1) hk B(2)]) (use assms(6) in auto)
  have openB: "cbc_open cr hsh (cbc_seal cr hsh partB) = partB"
    by (rule cbc_open_seal(1) [OF assms(1) hk]) (use dA B in simp)
  obtain k where k: "combo_key cr env m keyLen partA partB = Inr k" "length k = keyLen"
    using combo_key_defined [OF assms(1,2) hl(2) B(2) assms(6)] by blast
  then have kk: "aes_key_ok k" using hl by (auto simp: aes_key_ok_def)
  have "\<exists>s1. (if verifierType m = verifierType12c then rand_bytes env (i + 1) 16 else Inr []) = Inr s1 \<and>
      (verifierType m = verifierType12c \<longrightarrow> length s1 = 16)"
    using auth_env_rand [OF assms(2), of "i + 1" 16] by (cases "verifierType m = verifierType12c") auto
  then obtain s1 where s1: "(if verifierType m = verifierType12c then rand_bytes env (i + 1) 16 else Inr []) = Inr s1"
      "verifierType m = verifierType12c \<longrightarrow> length s1 = 16" by blast
  have "\<exists>sp. speedy_key cr m k s1 pkey = Inr sp"
  proof (cases "verifierType m = verifierType12c")
    case True
    then show ?thesis using s1(2) hl(3) by (intro speedy_key_defined [OF assms(1) kk]) auto
  qed (simp add: speedy_key_def)
  then obtain sp where sp: "speedy_key cr m k s1 pkey = Inr sp" ..
  obtain s2 where s2: "rand_bytes env (if verifierType m = verifierType12c then i + 2 else i + 1) 16 = Inr s2" "length s2 = 16"
    using auth_env_rand [OF assms(2)] by blast
  define ep where "ep = cbc_seal cr k (cbc_padded (s2 @ password m) False)"
  have ep: "encryptCBC cr k (s2 @ password m) False = Inr ep" unfolding ep_def by (rule encryptCBC_seal [OF kk])
  have "cbc_open cr k ep = cbc_padded (s2 @ password m) False"
    unfolding ep_def by (rule cbc_open_seal(1) [OF assms(1) kk]) (simp add: length_cbc_padded)
  then have pw: "server_password cr k (hex_upper ep) = Some (password m)"
    using s2 by (simp add: server_password_def unpad_padded)
  have "generateVerifier cr env i m =
      Inr (m\<lparr>sessionKey := hex_upper (cbc_seal cr hsh partB), comboKey := Some k, speedyKey := sp, encodedPassword := hex_upper ep\<rparr>)"
    by (simp add: generateVerifier_def assms(3,4,5) or_error_def A B ck sk k s1(1) sp s2(1) ep)
  then show ?thesis
    using pw k openB check_server_proof [OF assms(1) kk] by (simp add: server_combo_def)
qed

definition toy_auth_env :: auth_env where
  "toy_auth_env = \<lparr>pbkdf2_Key = \<lambda>p s n k. Some (take k (p @ s @ replicate k (word_of_int n))),
     au_rand = \<lambda>i n. Some (replicate n (word_of_nat (i + 3)))\<rparr>"

lemma toy_auth_env_ok: "auth_env_ok toy_auth_env"
  by (auto simp: auth_env_ok_def toy_auth_env_def)

definition toy_auth :: authMessage where
  "toy_auth = \<lparr>username = asc ''SCOTT'', password = asc ''tiger'', au_token = [], authMode = authModeLogon, au_program = [],
     terminal = [], machine = [], osuser = [], au_pid = [], au_driverName = [], connectString = [], alterSession = [],
     fullVersionNum = 0,
     sessionData = Map.empty(asc ''AUTH_VFR_DATA'' \<mapsto> asc ''0A1b'',
       asc ''AUTH_SESSKEY'' \<mapsto> hex_upper (cbc_seal toy_crypto (digest toy_crypto SHA1 (asc ''tiger'' @ [0x0A, 0x1B]) @ [0, 0, 0, 0]) (replicate 48 9))),
     verifierType = verifierType11g2, sessionKey = [], speedyKey = [], encodedPassword = [], comboKey = None\<rparr>"

lemma toy_auth_data: "sess_data toy_auth ''AUTH_VFR_DATA'' = asc ''0A1b''"
  "sess_data toy_auth ''AUTH_SESSKEY'' =
     hex_upper (cbc_seal toy_crypto (digest toy_crypto SHA1 (asc ''tiger'' @ [0x0A, 0x1B]) @ [0, 0, 0, 0]) (replicate 48 9))"
  by (simp_all add: sess_data_def toy_auth_def asc_def)

theorem logon_handshake_witness:
  "\<exists>m' k. generateVerifier toy_crypto toy_auth_env 0 toy_auth = Inr m' \<and> comboKey m' = Some k \<and>
     server_combo toy_crypto (combo_key toy_crypto toy_auth_env toy_auth 24 (replicate 48 9))
       (digest toy_crypto SHA1 (asc ''tiger'' @ [0x0A, 0x1B]) @ [0, 0, 0, 0]) (sessionKey m') = Some k \<and>
     server_password toy_crypto k (encodedPassword m') = Some (password toy_auth) \<and>
     (\<forall>challenge. length challenge = 16 \<longrightarrow> check_server toy_crypto k (Some (server_proof toy_crypto k challenge)) = None)"
proof -
  have v: "hex_decode (sess_data toy_auth ''AUTH_VFR_DATA'') = Some [0x0A, 0x1B]" unfolding toy_auth_data by code_simp
  have h: "password_hash toy_crypto toy_auth_env toy_auth [0x0A, 0x1B] =
      Inr (24, digest toy_crypto SHA1 (asc ''tiger'' @ [0x0A, 0x1B]) @ [0, 0, 0, 0], [])"
    by (simp add: password_hash_def toy_auth_def verifierType11g2_def verifierType12c_def)
  show ?thesis by (rule logon_handshake [OF toy_crypto_ok toy_auth_env_ok v h toy_auth_data(2)]) simp
qed

text \<open>
  A server can make the client panic while it logs on: a session key that decrypts to fewer
  bytes than the cipher key has, and not to 48, is sliced beyond its end, before the password is used.
\<close>

theorem short_server_key_panics:
  assumes "crypto_ok cr" "auth_env_ok env"
    and "hex_decode (sess_data m ''AUTH_VFR_DATA'') = Some vdata"
    and "password_hash cr env m vdata = Inr (keyLen, hsh, pkey)"
    and "sess_data m ''AUTH_SESSKEY'' = hex_upper (cbc_seal cr hsh partA)" "length partA = 16"
    and "hex_decode (sess_data m ''AUTH_PBKDF2_CSK_SALT'') \<noteq> None"
  shows "generateVerifier cr env i m = Inl Panicked"
proof -
  have hl: "length hsh = keyLen" "keyLen \<in> {24, 32}" using password_hash_length [OF assms(1,2,4)] by auto
  then have hk: "aes_key_ok hsh" by (auto simp: aes_key_ok_def)
  have A: "decryptCBC cr hsh (cbc_seal cr hsh partA) = Inr partA" by (rule decryptCBC_seal [OF assms(1) hk]) (simp add: assms)
  obtain partB where B: "rand_bytes env i (length partA) = Inr partB" "length partB = length partA"
    using auth_env_rand [OF assms(2)] by blast
  have "length (cbc_seal cr hsh (cbc_padded partB False)) = 32"
    by (subst cbc_open_seal(2) [OF assms(1) hk]) (simp_all add: length_cbc_padded B assms)
  then have "session_key partA (cbc_seal cr hsh (cbc_padded partB False)) = Inr (hex_upper (cbc_seal cr hsh (cbc_padded partB False)))"
    by (simp add: session_key_def upto_def assms)
  moreover have "combo_key cr env m keyLen partA partB = Inl Panicked"
    using assms(6,7) hl B by (auto simp: combo_key_def or_error_def upto_def)
  ultimately show ?thesis
    by (simp add: generateVerifier_def assms(3,4,5) or_error_def A B(1) encryptCBC_seal [OF hk])
qed

definition toy_short_auth :: authMessage where
  "toy_short_auth = toy_auth\<lparr>sessionData := Map.empty(asc ''AUTH_VFR_DATA'' \<mapsto> asc ''0A1b'',
     asc ''AUTH_SESSKEY'' \<mapsto> hex_upper (cbc_seal toy_crypto (digest toy_crypto SHA1 (asc ''tiger'' @ [0x0A, 0x1B]) @ [0, 0, 0, 0]) (replicate 16 9)))\<rparr>"

theorem short_server_key_panics_witness:
  "generateVerifier toy_crypto toy_auth_env 0 toy_short_auth = Inl Panicked"
proof -
  have d: "sess_data toy_short_auth ''AUTH_VFR_DATA'' = asc ''0A1b''"
    "sess_data toy_short_auth ''AUTH_SESSKEY'' =
       hex_upper (cbc_seal toy_crypto (digest toy_crypto SHA1 (asc ''tiger'' @ [0x0A, 0x1B]) @ [0, 0, 0, 0]) (replicate 16 9))"
    "sess_data toy_short_auth ''AUTH_PBKDF2_CSK_SALT'' = []"
    by (simp_all add: sess_data_def toy_short_auth_def asc_def)
  have v: "hex_decode (sess_data toy_short_auth ''AUTH_VFR_DATA'') = Some [0x0A, 0x1B]" unfolding d by code_simp
  have h: "password_hash toy_crypto toy_auth_env toy_short_auth [0x0A, 0x1B] =
      Inr (24, digest toy_crypto SHA1 (asc ''tiger'' @ [0x0A, 0x1B]) @ [0, 0, 0, 0], [])"
    by (simp add: password_hash_def toy_short_auth_def toy_auth_def verifierType11g2_def verifierType12c_def)
  show ?thesis by (rule short_server_key_panics [OF toy_crypto_ok toy_auth_env_ok v h d(2)]) (simp_all add: d)
qed

end
