(* ===== verification/TtcConnect.thy ===== *)
theory TtcConnect
  imports TtcAuth Ano
begin

text \<open>
  The connection phase: \<^verbatim>\<open>internal/ttc/connect.go\<close> and \<open>Dial\<close> with what it calls in \<^verbatim>\<open>internal/ttc/conn.go\<close>.
  What is outside the program is in \<open>dial_env\<close>: the sockets that dialing yields, by number and address
  (each with everything its peer will send), the TLS handshake, the host's names, the random sources and
  the platform's support for urgent data. Deadlines and the trace hook are left out. A nil transport is
  a closed one.
\<close>

definition ErrInvalidServiceName :: int where "ErrInvalidServiceName = 12514"
definition ErrInvalidSID :: int where "ErrInvalidSID = 12505"

record Address =
  Host :: bytes
  Port :: int
  Protocol :: bytes

record tls_config =
  tls_ServerName :: bytes
  InsecureSkipVerify :: bool

record Config =
  Addresses :: "Address list"
  ServiceName :: bytes
  SID :: bytes
  InstanceName :: bytes
  ServerType :: bytes
  Username :: bytes
  cf_Password :: bytes
  Token :: bytes
  Mode :: u32
  cf_TLS :: "tls_config option"
  cf_SDU :: u32
  Program :: bytes
  Machine :: bytes
  OSUser :: bytes
  Terminal :: bytes
  cf_DriverName :: bytes
  FullVersion :: u32
  SessionTimeZone :: bytes
  cf_CurrentSchema :: bytes
  ExtraConnectData :: "(bytes \<times> bytes) list"
  DisableOOB :: bool
  cf_ANO :: "ANOConfig option"

datatype dial_error = RetryWithANO | NNERequired | NNENotNegotiated | NotDialed Address | TLSFailed | InvalidRedirect bytes
  | VersionNotSupported u16 | ListenerRefused int bytes | ConfigError string | DialErr ttc_error

record dial_env =
  de_dial :: "nat \<Rightarrow> Address \<Rightarrow> transport option"
  de_tls :: "tls_config \<Rightarrow> transport \<Rightarrow> transport option"
  de_executable :: "bytes option"
  de_hostname :: bytes
  de_user :: "bytes option"
  de_pid :: nat
  de_upper :: "nat \<Rightarrow> nat"
  de_lower :: "nat \<Rightarrow> nat"
  de_connectionID :: bytes
  de_goos_oob :: bool
  de_tcp_oob :: bool
  de_sendOOB :: bool
  de_anoRandom :: "nat \<Rightarrow> bytes option"
  de_auth :: auth_env
  de_dataTypes :: "(u16 \<times> u16 \<times> u16) list"

record connectMessage =
  cm_connectString :: bytes
  cm_packetFlags :: u8
  cm_sdu :: u32
  cm_host :: bytes
  cm_port :: int
  allowANO :: bool
  redirectData :: bytes
  redirectDataLen :: u16
  readRedirectDataLen :: bool
  refuseMessage :: bytes
  accepted :: bool
  naRequired :: bool

text \<open>What \<open>authenticate\<close> leaves in the connection.\<close>

record session_info =
  si_serverVersion :: "u32 list"
  si_serverBanner :: bytes
  si_dbName :: bytes
  si_dbDomain :: bytes
  si_dbUniqueName :: bytes
  si_serviceName :: bytes
  si_instanceName :: bytes
  si_maxOpenCursors :: int
  si_maxIdentifierLen :: int
  si_supportsBool :: bool

record dialing = logon +
  cfg :: Config
  denv :: dial_env
  dials :: nat
  cmsg :: connectMessage
  sinfo :: session_info

type_synonym ('z, 'a) dial_op = "('z dialing_scheme, 'a) state"

definition on_cmsg :: "(connectMessage \<Rightarrow> connectMessage) \<Rightarrow> ('z, unit) dial_op" where
  "on_cmsg f = modify (\<lambda>s. s\<lparr>cmsg := f (cmsg s)\<rparr>)"

subsection \<open>The connect packet\<close>

definition connect_write :: "connectMessage \<Rightarrow> ('z, unit) op" where
  "connect_write m = do {
     oob \<leftarrow> gets (\<lambda>s. SupportsOOB (caps s));
     let serviceOptions = (if oob then GSODontCare OR GSOCanRecvAttention else GSODontCare);
     let connectFlags2 = (if oob then CheckOOB else 0);
     let nsiFlags = (if allowANO m then NSISupportSecurityRen else NSISupportSecurityRen OR NSIDisableNA);
     let sdu16 = (if cm_sdu m > 0xffff then 0xffff else ucast (cm_sdu m));
     StartRequest PacketTypeConnect (cm_packetFlags m) 0;
     WriteUint16BE VersionDesired;
     WriteUint16BE VersionMinimum;
     WriteUint16BE serviceOptions;
     WriteUint16BE sdu16;
     WriteUint16BE sdu16;
     WriteUint16BE ProtocolCharacteristics;
     WriteUint16BE 0;
     WriteUint16BE 1;
     WriteUint16BE (word_of_nat (length (cm_connectString m)));
     WriteUint16BE 74;
     WriteUint32BE 0;
     WriteUint8 nsiFlags;
     WriteUint8 nsiFlags;
     WriteUint64BE 0; WriteUint64BE 0; WriteUint64BE 0;
     WriteUint32BE (cm_sdu m);
     WriteUint32BE (cm_sdu m);
     WriteUint32BE 0;
     WriteUint32BE connectFlags2;
     (if length (cm_connectString m) > MaxConnectData then do { _ \<leftarrow> EndRequest; StartRequest PacketTypeData 0 0 }
      else State_Monad.return ());
     WriteBytes (cm_connectString m) }"

text \<open>The number in \<open>(ERR=n)\<close>, 0 without one.\<close>

definition refuse_code :: "bytes \<Rightarrow> int" where
  "refuse_code t =
     (case index_of (asc ''(ERR='') t of None \<Rightarrow> 0
      | Some pos \<Rightarrow> (case index_of (asc '')'') (drop pos t) of None \<Rightarrow> 0
        | Some e \<Rightarrow> if e > 0 then fst (Atoi (take (e - 5) (drop (pos + 5) t))) else 0))"

definition process_redirect :: "('z, dial_error + unit) dial_op" where
  "process_redirect = do {
     m \<leftarrow> gets cmsg;
     (if \<not> readRedirectDataLen m then do {
        n \<leftarrow> ReadUint16BE;
        on_cmsg (\<lambda>m. m\<lparr>redirectDataLen := n, readRedirectDataLen := True\<rparr>) }
      else State_Monad.return ());
     e \<leftarrow> WaitForPackets False;
     case e of Some x \<Rightarrow> throw (DialErr (TnsErr x))
     | None \<Rightarrow> do {
         n \<leftarrow> gets (\<lambda>s. redirectDataLen (cmsg s));
         b \<leftarrow> ReadRawBytes (unat n);
         (if n > 0 then on_cmsg (\<lambda>m. m\<lparr>redirectData := or_nil b\<rparr>) else State_Monad.return ());
         on_cmsg (\<lambda>m. m\<lparr>readRedirectDataLen := False\<rparr>);
         ok () } }"

definition process_accept :: "('z, dial_error + unit) dial_op" where
  "process_accept = do {
     version \<leftarrow> ReadUint16BE;
     if version < VersionMinAccepted then throw (VersionNotSupported version)
     else do {
       options \<leftarrow> ReadUint16BE;
       SkipRawBytes 10;
       flags1 \<leftarrow> ReadUB1;
       (if flags1 AND NSINARequired \<noteq> 0 then on_cmsg (\<lambda>m. m\<lparr>naRequired := True\<rparr>) else State_Monad.return ());
       SkipRawBytes 9;
       sdu \<leftarrow> ReadUint32BE;
       on_caps (\<lambda>c. c\<lparr>SDU := sdu\<rparr>);
       flags2 \<leftarrow> (if version \<ge> VersionMinOOBCheck then do { SkipRawBytes 5; ReadUint32BE } else State_Monad.return 0);
       on_caps (AdjustForProtocol version options flags2);
       modify (\<lambda>s. s\<lparr>tr := SetFullPacketSize True (tr s)\<rparr>);
       on_cmsg (\<lambda>m. m\<lparr>accepted := True\<rparr>);
       ok () } }"

definition dial_result :: "ttc_error + 'a \<Rightarrow> dial_error + 'a" where
  "dial_result r = map_sum DialErr id r"

definition connect_processPacket :: "('z, dial_error + unit) dial_op" where
  "connect_processPacket = do {
     p \<leftarrow> gets current;
     case p of None \<Rightarrow> throw (DialErr Panicked)
     | Some p \<Rightarrow>
       tryE (if Type p = PacketTypeRedirect then process_redirect
             else if Type p = PacketTypeAccept then process_accept
             else if Type p = PacketTypeRefuse then do {
               t \<leftarrow> gets (\<lambda>s. refuseMessage (cmsg s));
               throw (ListenerRefused (refuse_code t) t) }
             else ok ())
         (\<lambda>_. do { r \<leftarrow> ret_err; State_Monad.return (dial_result r) }) }"

subsection \<open>Addresses and defaults\<close>

definition fill_address :: "bool \<Rightarrow> Address \<Rightarrow> Address" where
  "fill_address tls a =
     a\<lparr>Port := (if Port a = 0 then 1521 else Port a),
       Protocol := (if Protocol a = [] then (if tls then asc ''tcps'' else asc ''tcp'') else Protocol a)\<rparr>"

definition or_default :: "bytes \<Rightarrow> bytes \<Rightarrow> bytes" where
  "or_default d v = (if v = [] then d else v)"

text \<open>\<open>de_executable\<close> is the base name of the executable.\<close>

definition fillDefaults :: "dial_env \<Rightarrow> Config \<Rightarrow> Config" where
  "fillDefaults env c =
     c\<lparr>Program := or_default (case de_executable env of Some e \<Rightarrow> e | None \<Rightarrow> asc ''adbc-driver-oracle'') (Program c),
       Machine := or_default (or_default (asc ''localhost'') (de_hostname env)) (Machine c),
       OSUser := (if OSUser c = [] then (case de_user env of Some u \<Rightarrow> u | None \<Rightarrow> []) else OSUser c),
       Terminal := or_default (asc ''unknown'') (Terminal c),
       cf_DriverName := or_default driverName (cf_DriverName c),
       SessionTimeZone := or_default (asc ''+00:00'') (SessionTimeZone c),
       Addresses := map (fill_address (cf_TLS c \<noteq> None)) (Addresses c)\<rparr>"

definition clause :: "string \<Rightarrow> bytes \<Rightarrow> bytes" where
  "clause k v = asc ''('' @ asc k @ asc ''='' @ v @ asc '')''"

text \<open>The connect descriptor. Go ranges over the extra data in any order; here it is the order of the list.\<close>

definition connectData :: "dial_env \<Rightarrow> Config \<Rightarrow> Address \<Rightarrow> bytes" where
  "connectData env c a =
     clause ''DESCRIPTION''
       (clause ''ADDRESS'' (clause ''PROTOCOL'' (Protocol a) @ clause ''HOST'' (Host a) @ clause ''PORT'' (itoa_bytes (Port a))) @
        clause ''CONNECT_DATA''
          ((if ServiceName c \<noteq> [] then clause ''SERVICE_NAME'' (ServiceName c) else []) @
           (if InstanceName c \<noteq> [] then clause ''INSTANCE_NAME'' (InstanceName c)
            else if SID c \<noteq> [] then clause ''SID'' (SID c) else []) @
           (if ServerType c \<noteq> [] then clause ''SERVER'' (ServerType c) else []) @
           clause ''CID'' (clause ''PROGRAM'' (Program c) @ clause ''HOST'' (Machine c) @ clause ''USER'' (OSUser c)) @
           concat (map (\<lambda>(k, v). asc ''('' @ map_runes (de_upper env) k @ asc ''='' @ v @ asc '')'') (ExtraConnectData c)) @
           clause ''CONNECTION_ID'' (de_connectionID env)) @
        (if Protocol a = asc ''tcps'' then asc ''(SECURITY=(SSL_SERVER_DN_MATCH=ON))'' else []))"

text \<open>
  \<open>get\<close> of \<open>parseRedirectAddress\<close>. The position is found in the upper-case text and used in the original,
  which may be shorter: \<open>None\<close> is the panic.
\<close>

definition redirect_field :: "(nat \<Rightarrow> nat) \<Rightarrow> bytes \<Rightarrow> string \<Rightarrow> bytes option" where
  "redirect_field up desc key =
     (case index_of (asc ''('' @ asc key @ asc ''='') (map_runes up desc) of None \<Rightarrow> Some []
      | Some i \<Rightarrow>
        if i + length key + 2 > length desc then None
        else let rest = drop (i + length key + 2) desc in
          (case index_of (asc '')'') rest of None \<Rightarrow> Some [] | Some e \<Rightarrow> Some (trim_space (take e rest))))"

definition parseRedirectAddress :: "dial_env \<Rightarrow> bytes \<Rightarrow> dial_error + Address" where
  "parseRedirectAddress env desc =
     (case redirect_field (de_upper env) desc ''HOST'' of None \<Rightarrow> Inl (DialErr Panicked)
      | Some h \<Rightarrow> if h = [] then Inl (InvalidRedirect desc)
        else (case (redirect_field (de_upper env) desc ''PORT'', redirect_field (de_upper env) desc ''PROTOCOL'') of
            (Some p, Some pr) \<Rightarrow>
              let port = fst (Atoi p) in
              Inr \<lparr>Host = h, Port = (if port = 0 then 1521 else port), Protocol = map_runes (de_lower env) pr\<rparr>
          | _ \<Rightarrow> Inl (DialErr Panicked)))"

subsection \<open>Connecting to one address\<close>

definition effective_tls :: "Config \<Rightarrow> Address \<Rightarrow> tls_config" where
  "effective_tls c a =
     (let t = (case cf_TLS c of None \<Rightarrow> \<lparr>tls_ServerName = [], InsecureSkipVerify = False\<rparr> | Some t \<Rightarrow> t) in
      if tls_ServerName t = [] \<and> \<not> InsecureSkipVerify t then t\<lparr>tls_ServerName := Host a\<rparr> else t)"

definition UpgradeTLS :: "Address \<Rightarrow> ('z, dial_error + unit) dial_op" where
  "UpgradeTLS a = do {
     s \<leftarrow> gets id;
     case de_tls (denv s) (effective_tls (cfg s) a) (tr s) of None \<Rightarrow> throw TLSFailed
     | Some t \<Rightarrow> do { modify (\<lambda>s. s\<lparr>tr := t\<rparr>); ok () } }"

text \<open>A new transport with new buffers, all their fields zero but the size of the write buffer.\<close>

definition new_session :: "transport \<Rightarrow> capabilities \<Rightarrow> session" where
  "new_session t c = snd (run_state SizeForSDU
     \<lparr>tr = t\<lparr>fullPacketSize := False, maxPacketSize := unat (SDU c), closed := False, sec := None\<rparr>, caps = c,
      rdata = [], rpos = 0, rsize = 0, current = None, saved = [], nextPacketPos = 0, pendingErrorNum = 0,
      checkRequestBoundary = False, rerr = None, chunk_nil = True, wdata = [], wpos = 0, wmaxSize = 0,
      packetType = 0, packetFlags = 0, dataFlags = 0, seqNum = 0, packetSent = False, werr = None\<rparr>)"

definition dialTCP :: "Address \<Rightarrow> ('z, dial_error + unit) dial_op" where
  "dialTCP a = do {
     s \<leftarrow> gets id;
     modify (\<lambda>s. s\<lparr>dials := dials s + 1\<rparr>);
     case de_dial (denv s) (dials s) a of None \<Rightarrow> throw (NotDialed a)
     | Some t \<Rightarrow> do {
         modify (\<lambda>s. session.extend (new_session t (caps s)) (session.more s));
         if Protocol a = asc ''tcps'' then UpgradeTLS a else ok () } }"

definition negotiateANO :: "('z, dial_error + unit) dial_op" where
  "negotiateANO = do {
     s \<leftarrow> gets id;
     case cf_ANO (cfg s) of None \<Rightarrow> throw (ConfigError ''server requested Native Network Encryption but it is disabled'')
     | Some c \<Rightarrow>
         let (r, a) = run_state Negotiate (NewANO (session.truncate s) (de_anoRandom (denv s)) c) in do {
           modify (\<lambda>s. session.extend (session.truncate a) (session.more s));
           case r of Inl e \<Rightarrow> throw (DialErr (TnsErr e))
           | Inr sc \<Rightarrow>
             if Active sc then do {
               modify (\<lambda>s. s\<lparr>tr := SetSecurity sc (tr s)\<rparr>);
               SizeForSDU;
               on_caps (\<lambda>c. c\<lparr>SupportsOOB := False\<rparr>);
               ok () }
             else ok () } }"

text \<open>The answer to the connect packet: \<open>Some (address, descriptor)\<close> where it redirects.\<close>

definition follow_redirect :: "Address \<Rightarrow> ('z, dial_error + Address \<times> bytes) dial_op" where
  "follow_redirect a = do {
     s \<leftarrow> gets id;
     case index_of [0] (redirectData (cmsg s)) of None \<Rightarrow> throw (InvalidRedirect (redirectData (cmsg s)))
     | Some pos \<Rightarrow>
       tryE (State_Monad.return (parseRedirectAddress (denv s) (take pos (redirectData (cmsg s))))) (\<lambda>a'. do {
         modify (\<lambda>s. s\<lparr>tr := Close (tr s)\<rparr>);
         let a' = a'\<lparr>Protocol := Protocol a\<rparr>;
         tryE (dialTCP a') (\<lambda>_. ok (a', drop (pos + 1) (redirectData (cmsg s)))) }) }"

definition connection_accepted :: "bool \<Rightarrow> ('z, dial_error + unit) dial_op" where
  "connection_accepted ano = do {
     modify (\<lambda>s. s\<lparr>tr := SetMaxPacketSize (unat (SDU (caps s))) (tr s)\<rparr>);
     SizeForSDU;
     s \<leftarrow> gets id;
     if naRequired (cmsg s) \<and> \<not> ano then
       (if cf_ANO (cfg s) = None then throw NNERequired else throw RetryWithANO)
     else if ano then negotiateANO
     else ok () }"

definition send_connect :: "Address \<Rightarrow> bool \<Rightarrow> bytes \<Rightarrow> u8 \<Rightarrow> ('z, dial_error + unit) dial_op" where
  "send_connect a ano cs flags = do {
     s \<leftarrow> gets id;
     let m = \<lparr>cm_connectString = cs, cm_packetFlags = flags, cm_sdu = SDU (caps s), cm_host = Host a, cm_port = Port a,
       allowANO = ano, redirectData = [], redirectDataLen = 0, readRedirectDataLen = False, refuseMessage = [],
       accepted = False, naRequired = False\<rparr>;
     modify (\<lambda>s. s\<lparr>cmsg := m, msg := init_message 0\<rparr>);
     ResetPackets;
     connect_write m;
     r \<leftarrow> end_request;
     tryE (State_Monad.return (dial_result r)) (\<lambda>_. do {
       r \<leftarrow> receivePacket False;
       tryE (State_Monad.return (dial_result r)) (\<lambda>_. connect_processPacket) }) }"

text \<open>A listener that asks for TLS again gets it before the connect packet is sent once more.\<close>

definition renegotiate :: "Address \<Rightarrow> ('z, dial_error + unit) dial_op" where
  "renegotiate a = do {
     p \<leftarrow> gets current;
     if Protocol a = asc ''tcps'' then
       (case p of None \<Rightarrow> throw (DialErr Panicked)
        | Some p \<Rightarrow> if Flags p AND PacketFlagTLSReneg \<noteq> 0 then UpgradeTLS a else ok ())
     else ok () }"

text \<open>Nothing bounds the redirects and resends.\<close>

partial_function (option) connect_loop :: "Address \<Rightarrow> bool \<Rightarrow> bytes \<Rightarrow> u8 \<Rightarrow> 'z dialing_scheme \<Rightarrow>
    ((dial_error + unit) \<times> 'z dialing_scheme) option" where
  "connect_loop a ano cs flags s =
     (case run_state (send_connect a ano cs flags) s of
        (Inl e, s) \<Rightarrow> Some (Inl e, s)
      | (Inr _, s) \<Rightarrow>
        if redirectData (cmsg s) \<noteq> [] then
          (case run_state (follow_redirect a) s of
             (Inl e, s) \<Rightarrow> Some (Inl e, s)
           | (Inr r, s) \<Rightarrow> connect_loop (fst r) ano (snd r) PacketFlagRedirect s)
        else if accepted (cmsg s) then Some (run_state (connection_accepted ano) s)
        else (case run_state (renegotiate a) s of
             (Inl e, s) \<Rightarrow> Some (Inl e, s)
           | (Inr _, s) \<Rightarrow> connect_loop a ano cs flags s))"

definition connectAddress :: "Address \<Rightarrow> bool \<Rightarrow> 'z dialing_scheme \<Rightarrow> ((dial_error + unit) \<times> 'z dialing_scheme) option" where
  "connectAddress a ano s =
     (case run_state (dialTCP a) s of
        (Inl e, s) \<Rightarrow> Some (Inl e, s)
      | (Inr _, s) \<Rightarrow> connect_loop a ano (connectData (denv s) (cfg s) a) 0 s)"

subsection \<open>Logging on\<close>

definition new_auth_message :: "Config \<Rightarrow> dial_env \<Rightarrow> authMessage" where
  "new_auth_message c env =
     \<lparr>username = Username c, password = cf_Password c, au_token = Token c, authMode = authModeLogon OR Mode c,
      au_program = Program c, terminal = Terminal c, machine = Machine c, osuser = OSUser c,
      au_pid = itoa_bytes (int (de_pid env)), au_driverName = cf_DriverName c, connectString = [],
      alterSession = asc ''ALTER SESSION SET TIME_ZONE='' @ [39] @ replace_byte 39 [39, 39] (SessionTimeZone c) @ [39, 0],
      fullVersionNum = FullVersion c, sessionData = Map.empty, verifierType = 0, sessionKey = [], speedyKey = [],
      encodedPassword = [], comboKey = None\<rparr>"

text \<open>Out-of-band breaks: tried, with a reset marker behind, where both sides can.\<close>

definition check_oob :: "('z, unit) dial_op" where
  "check_oob = do {
     s \<leftarrow> gets id;
     (if SupportsOOB (caps s) \<and> \<not> (de_goos_oob (denv s) \<and> de_tcp_oob (denv s)) then on_caps (\<lambda>c. c\<lparr>SupportsOOB := False\<rparr>)
      else State_Monad.return ());
     s \<leftarrow> gets id;
     if SupportsOOB (caps s) \<and> SupportsOOBCheck (caps s) then
       (if de_sendOOB (denv s) \<and> Connected (tr s) then sendMarker MarkerTypeReset else on_caps (\<lambda>c. c\<lparr>SupportsOOB := False\<rparr>))
     else State_Monad.return () }"

text \<open>One message of the logon, whose \<open>baseMessage\<close> is read with \<open>get\<close> and kept with \<open>put\<close>.\<close>

definition run_logon :: "('z dialing_scheme \<Rightarrow> baseMessage) \<Rightarrow> (baseMessage \<Rightarrow> 'z dialing_scheme \<Rightarrow> 'z dialing_scheme) \<Rightarrow>
    'z dialing_scheme message \<Rightarrow> 'z dialing_scheme \<Rightarrow> ((ttc_error + unit) \<times> 'z dialing_scheme) option" where
  "run_logon get put m s = map_option (\<lambda>(r, s). (r, put (msg s) s)) (processMessage m (s\<lparr>msg := get s\<rparr>))"

definition run_auth :: "'z dialing_scheme \<Rightarrow> ((ttc_error + unit) \<times> 'z dialing_scheme) option" where
  "run_auth = run_logon authb (\<lambda>b s. s\<lparr>authb := b\<rparr>) auth_message"

definition thenO :: "((ttc_error + unit) \<times> 's) option \<Rightarrow> ('s \<Rightarrow> ((ttc_error + unit) \<times> 's) option) \<Rightarrow> ((ttc_error + unit) \<times> 's) option" where
  "thenO r f = Option.bind r (\<lambda>(r, s). case r of Inl e \<Rightarrow> Some (Inl e, s) | Inr _ \<Rightarrow> f s)"

definition set_end_of_response_cap :: "bool \<Rightarrow> 'z session_scheme \<Rightarrow> 'z session_scheme" where
  "set_end_of_response_cap v s = s\<lparr>caps := (caps s)\<lparr>SupportsEndOfResponse := v\<rparr>\<rparr>"

text \<open>The three messages in turn, without end-of-response marks until the last.\<close>

definition slow_logon :: "'z dialing_scheme \<Rightarrow> ((ttc_error + unit) \<times> 'z dialing_scheme) option" where
  "slow_logon s =
     (let eor = SupportsEndOfResponse (caps s) in
      thenO (run_logon protb (\<lambda>b s. s\<lparr>protb := b\<rparr>) protocol_message (set_end_of_response_cap False s)) (\<lambda>s.
      thenO (run_logon dtb (\<lambda>b s. s\<lparr>dtb := b\<rparr>) (dataTypes_message (de_dataTypes (denv s))) s) (\<lambda>s.
      run_auth (set_end_of_response_cap eor s))))"

definition fast_logon :: "'z dialing_scheme \<Rightarrow> ((ttc_error + unit) \<times> 'z dialing_scheme) option" where
  "fast_logon s = processMessage (fastAuth_message (de_dataTypes (denv s))) (start_message 0 s)"

definition session_number :: "nat \<Rightarrow> bytes \<Rightarrow> nat option" where
  "session_number bits v = (case ParseUint bits v of (n, err) \<Rightarrow> if err then None else Some n)"

definition read_session_info :: "authMessage \<Rightarrow> capabilities \<Rightarrow> bytes \<Rightarrow> session_info" where
  "read_session_info m c banner =
     (let len = fst (Atoi (sess_data m ''AUTH_MAX_IDEN_LENGTH'')) in
      \<lparr>si_serverVersion = serverVersion m c, si_serverBanner = banner, si_dbName = sess_data m ''AUTH_SC_DBUNIQUE_NAME'',
       si_dbDomain = sess_data m ''AUTH_SC_DB_DOMAIN'', si_dbUniqueName = sess_data m ''AUTH_SC_REAL_DBUNIQUE_NAME'',
       si_serviceName = sess_data m ''AUTH_SC_SERVICE_NAME'', si_instanceName = sess_data m ''AUTH_INSTANCENAME'',
       si_maxOpenCursors = fst (Atoi (sess_data m ''AUTH_MAX_OPEN_CURSORS'')),
       si_maxIdentifierLen = (if len = 0 then 30 else len),
       si_supportsBool = (TTCFieldVersion c \<ge> FieldVersion23_1)\<rparr>)"

definition note_session :: "'z dialing_scheme \<Rightarrow> 'z dialing_scheme" where
  "note_session s =
     (let m = authm s; c = conn s;
          c = (case session_number 32 (sess_data m ''AUTH_SESSION_ID'') of None \<Rightarrow> c | Some n \<Rightarrow> c\<lparr>sessionID := word_of_nat n\<rparr>);
          c = (case session_number 16 (sess_data m ''AUTH_SERIAL_NUM'') of None \<Rightarrow> c | Some n \<Rightarrow> c\<lparr>serialNum := word_of_nat n\<rparr>);
          c = (if cf_CurrentSchema (cfg s) \<noteq> [] then c\<lparr>currentSchema := cf_CurrentSchema (cfg s), currentSchemaModified := True\<rparr> else c)
      in s\<lparr>sinfo := read_session_info m (caps s) (pr_serverBanner (prot s)), pendingErrorNum := 0, conn := c\<rparr>)"

definition start_logon :: "'z dialing_scheme \<Rightarrow> 'z dialing_scheme" where
  "start_logon s =
     (let s = snd (run_state check_oob s); m = new_auth_message (cfg s) (denv s) in
      s\<lparr>authm := m, authb := auth_initialize m, protb := init_message 0, dtb := init_message 0, aenv := de_auth (denv s),
        prot := \<lparr>pr_serverVersion = 0, pr_serverFlags = 0, pr_serverBanner = [], serverCompileCaps = None, serverRuntimeCaps = None\<rparr>\<rparr>)"

definition authenticate :: "'z dialing_scheme \<Rightarrow> ((ttc_error + unit) \<times> 'z dialing_scheme) option" where
  "authenticate s0 =
     (let s = start_logon s0 in
      thenO (if SupportsFastAuth (caps s) then fast_logon s else slow_logon s) (\<lambda>s.
      thenO (if resend (authb s) then run_auth s else Some (Inr (), s)) (\<lambda>s.
      Some (Inr (), note_session s))))"

subsection \<open>Dial\<close>

definition client_ano :: "Config \<Rightarrow> bool" where
  "client_ano c = (case cf_ANO c of None \<Rightarrow> False | Some a \<Rightarrow> EncryptionLevel a \<ge> LevelRequested \<or> ChecksumLevel a \<ge> LevelRequested)"

definition initial_caps :: "Config \<Rightarrow> bool \<Rightarrow> capabilities" where
  "initial_caps c oob = (let k = NewCapabilities\<lparr>SupportsOOB := oob\<rparr> in if cf_SDU c > 0 then k\<lparr>SDU := cf_SDU c\<rparr> else k)"

definition close_transport :: "'z session_scheme \<Rightarrow> 'z session_scheme" where
  "close_transport s = s\<lparr>tr := Close (tr s)\<rparr>"

text \<open>One address, with the second attempt a server demands that requires encryption.\<close>

definition try_address :: "Address \<Rightarrow> 'z dialing_scheme \<Rightarrow> ((dial_error + unit) \<times> 'z dialing_scheme) option" where
  "try_address a s =
     Option.bind (connectAddress a (client_ano (cfg s)) s) (\<lambda>(r, s).
       if r = Inl RetryWithANO then
         connectAddress a True ((close_transport s)\<lparr>caps := initial_caps (cfg s) False\<rparr>)
       else Some (r, s))"

definition definitive :: "dial_error \<Rightarrow> bool" where
  "definitive e = (case e of ListenerRefused code _ \<Rightarrow> code = ErrInvalidServiceName \<or> code = ErrInvalidSID
     | DialErr (OraErr x) \<Rightarrow> Code x = ErrInvalidServiceName \<or> Code x = ErrInvalidSID | _ \<Rightarrow> False)"

fun try_addresses :: "Address list \<Rightarrow> dial_error + unit \<Rightarrow> 'z dialing_scheme \<Rightarrow> ((dial_error + unit) \<times> 'z dialing_scheme) option" where
  "try_addresses [] prev s = Some (prev, s)"
| "try_addresses (a # as) prev s =
     Option.bind (try_address a s) (\<lambda>(r, s).
       case r of Inr _ \<Rightarrow> Some (Inr (), s)
       | Inl e \<Rightarrow>
         if definitive e \<and> as = [] then Some (Inl e, close_transport s) else try_addresses as (Inl e) (close_transport s))"

definition verifyNNERequirement :: "'z dialing_scheme \<Rightarrow> dial_error option" where
  "verifyNNERequirement s =
     (case cf_ANO (cfg s) of None \<Rightarrow> None
      | Some a \<Rightarrow>
        if cf_TLS (cfg s) \<noteq> None then None
        else if EncryptionLevel a = LevelRequired \<and> \<not> EncryptionActive (sec (tr s)) then Some NNENotNegotiated
        else if ChecksumLevel a = LevelRequired \<and> \<not> ChecksumActive (sec (tr s)) then Some NNENotNegotiated
        else None)"

definition NNEInfo :: "'z session_scheme \<Rightarrow> string \<times> string \<times> bool" where
  "NNEInfo s =
     (case sec (tr s) of Some x \<Rightarrow>
        if Active (Some x) then (EncryptionAlgorithmName (EncryptionID x), ChecksumAlgorithmName (ChecksumID x), True)
        else ([], [], False)
      | None \<Rightarrow> ([], [], False))"

definition config_error :: "Config \<Rightarrow> string option" where
  "config_error c =
     (if Addresses c = [] then Some ''no host specified''
      else if ServiceName c = [] \<and> SID c = [] then Some ''a service name or SID is required''
      else if Username c = [] \<and> Token c = [] then Some ''a username is required''
      else None)"

text \<open>The connection \<open>Dial\<close> starts from is zero but for its configuration and capabilities.\<close>

definition dial_start :: "Config \<Rightarrow> dial_env \<Rightarrow> 'z dialing_scheme \<Rightarrow> 'z dialing_scheme" where
  "dial_start c0 env z =
     (let c = fillDefaults env c0 in
      z\<lparr>cfg := c, denv := env, dials := 0, randoms := 0,
        caps := initial_caps c (cf_TLS c = None \<and> \<not> DisableOOB c \<and> de_goos_oob env \<and> \<not> client_ano c),
        conn := (conn z)\<lparr>inConnect := True\<rparr>\<rparr>)"

definition Dial :: "Config \<Rightarrow> dial_env \<Rightarrow> 'z dialing_scheme \<Rightarrow> ((dial_error + unit) \<times> 'z dialing_scheme) option" where
  "Dial c env z =
     (case config_error c of Some e \<Rightarrow> Some (Inl (ConfigError e), z)
      | None \<Rightarrow>
        let s = dial_start c env z in
        Option.bind (try_addresses (Addresses (cfg s)) (Inr ()) s) (\<lambda>(r, s).
          case r of Inl e \<Rightarrow> Some (Inl e, s)
          | Inr _ \<Rightarrow>
            (case verifyNNERequirement s of Some e \<Rightarrow> Some (Inl e, close_transport s)
             | None \<Rightarrow>
               map_option (\<lambda>(r, s). case r of Inl e \<Rightarrow> (Inl (DialErr e), close_transport s)
                 | Inr _ \<Rightarrow> (Inr (), s\<lparr>conn := (conn s)\<lparr>inConnect := False\<rparr>\<rparr>)) (authenticate s))))"

end
