(* ===== verification/Frames.thy ===== *)
theory Frames
  imports TtcConn
begin

text \<open>
  What an operation leaves alone. \<open>frames part m\<close> says that \<open>m\<close> keeps \<open>part\<close> of the store; its rules are
  collected in \<open>frame_rules\<close>. The operations of the session keep the extension of the session, those of
  an exchange with the server the extension of the connection.
\<close>

named_theorems frame_rules \<open>operations that keep a part of the store\<close>

definition frames :: "('s \<Rightarrow> 'b) \<Rightarrow> ('s, 'a) state \<Rightarrow> bool" where
  "frames part m \<longleftrightarrow> (\<forall>s. part (snd (run_state m s)) = part s)"

lemma framesD: "frames part m \<Longrightarrow> run_state m s = (v, t) \<Longrightarrow> part t = part s"
  by (auto simp: frames_def dest: spec [of _ s])

lemma frames_snd: "frames part m \<Longrightarrow> part (snd (run_state m s)) = part s"
  by (simp add: frames_def)

lemma frames_weaken: "frames part m \<Longrightarrow> frames (\<lambda>s. g (part s)) m"
  by (simp add: frames_def)

lemma frames_return [frame_rules]: "frames part (State_Monad.return v)"
  by (simp add: frames_def)

lemma frames_bind [frame_rules]:
  assumes "frames part m" "\<And>x. frames part (f x)"
  shows "frames part (State_Monad.bind m f)"
  unfolding frames_def
proof
  fix s
  obtain x t where m: "run_state m s = (x, t)" by (cases "run_state m s")
  then have "part t = part s" by (rule framesD [OF assms(1)])
  moreover have "part (snd (run_state (f x) t)) = part t" using assms(2) [of x] by (simp add: frames_def)
  ultimately show "part (snd (run_state (State_Monad.bind m f) s)) = part s" using m by simp
qed

lemma frames_modify [frame_rules]: "(\<And>s. part (g s) = part s) \<Longrightarrow> frames part (modify g)"
  by (simp add: frames_def)

lemma frames_gets [frame_rules]: "frames part (gets g)"
  by (simp add: frames_def)

lemma frames_State: "(\<And>s. part (snd (g s)) = part s) \<Longrightarrow> frames part (State g)"
  by (simp add: frames_def)

lemma frames_if [frame_rules]: "frames part a \<Longrightarrow> frames part b \<Longrightarrow> frames part (if c then a else b)"
  by simp

lemma frames_option [frame_rules]:
  "frames part a \<Longrightarrow> (\<And>x. frames part (f x)) \<Longrightarrow> frames part (case v of None \<Rightarrow> a | Some x \<Rightarrow> f x)"
  by (cases v) simp_all

lemma frames_prod [frame_rules]: "(\<And>x y. frames part (f x y)) \<Longrightarrow> frames part (case p of (x, y) \<Rightarrow> f x y)"
  by (cases p) simp

lemma frames_let: "(\<And>x. frames part (f x)) \<Longrightarrow> frames part (let x = v in f x)"
  by simp

lemma frames_throw [frame_rules]: "frames part (throw e)"
  by (simp add: frames_def throw_def)

lemma frames_ok [frame_rules]: "frames part (ok v)"
  by (simp add: frames_def ok_def)

lemma frames_tryE [frame_rules]: "frames part m \<Longrightarrow> (\<And>x. frames part (f x)) \<Longrightarrow> frames part (tryE m f)"
  unfolding tryE_def by (intro frame_rules) (auto split: sum.split intro: frame_rules)

subsection \<open>The session keeps its extension\<close>

lemma more_set_err [simp]: "session.more (set_err e s) = session.more s"
  by (simp add: set_err_def)

lemma more_processPacket [simp]: "session.more (snd (processPacket p s)) = session.more s"
  by (simp add: processPacket_def Let_def)

lemma more_startPacket [simp]: "session.more (startPacket s) = session.more s"
  by (simp add: startPacket_def readUint16BEraw_def Let_def)

lemma more_packet_loop [simp]: "session.more (packet_loop s) = session.more s"
proof (induction s rule: packet_loop.induct)
  case (1 s)
  then show ?case by (subst packet_loop.simps) (auto split: prod.split sum.split option.split)
qed

lemma more_wait_packets [simp]: "session.more (wait_packets b s) = session.more s"
  by (simp add: wait_packets_def Let_def)

lemma more_get_rest [simp]: "session.more (snd (get_rest n acc s)) = session.more s"
proof (induction n acc s rule: get_rest.induct)
  case (1 n acc s)
  then show ?case by (subst get_rest.simps) (auto simp: Let_def)
qed

lemma more_get_raw [simp]: "session.more (snd (get_raw n s)) = session.more s"
  by (simp add: get_raw_def Let_def)

lemma more_skip_raw [simp]: "session.more (skip_raw n s) = session.more s"
proof (induction n s rule: skip_raw.induct)
  case (1 n s)
  then show ?case by (subst skip_raw.simps) (auto simp: Let_def)
qed

lemma more_store [simp]: "session.more (store p b s) = session.more s"
  by (simp add: store_def)

lemma more_put_header [simp]: "session.more (put_header s) = session.more s"
  by (simp add: put_header_def Let_def)

lemma more_send_packet [simp]: "session.more (send_packet b s) = session.more s"
  by (auto simp: send_packet_def Let_def split: prod.split option.split)

lemma more_put_fixed [simp]: "session.more (put_fixed b s) = session.more s"
  by (simp add: put_fixed_def ensure_def Let_def)

lemma more_write_raw [simp]: "session.more (write_raw b s) = session.more s"
proof (induction b s rule: write_raw.induct)
  case (1 b s)
  then show ?case by (subst write_raw.simps) (auto simp: Let_def)
qed

lemma session_frames [frame_rules]:
  "frames session.more (getRaw n)" "frames session.more (SkipRawBytes n)" "frames session.more (ReadRawBytes n)"
  "frames session.more (WaitForPackets b)" "frames session.more ReadUB1" "frames session.more ReadUint16BE"
  "frames session.more ReadUint32BE" "frames session.more ClearErr" "frames session.more ResetPackets"
  "frames session.more (SetCheckRequestBoundary b)" "frames session.more (SetPacketSent b)"
  by (auto simp: frames_def getRaw_def SkipRawBytes_def ReadRawBytes_def WaitForPackets_def ReadUB1_def ReadUint16BE_def
      ReadUint32BE_def ClearErr_def ResetPackets_def SetCheckRequestBoundary_def SetPacketSent_def case_prod_unfold)

lemma write_frames [frame_rules]:
  "frames session.more (StartRequest a b c)" "frames session.more EndRequest" "frames session.more (WriteUint8 x)"
  "frames session.more (WriteUint16BE y)" "frames session.more (WriteUint32BE z)" "frames session.more (WriteUint64BE w)"
  "frames session.more (WriteRaw bs)" "frames session.more (WriteBytes bs)" "frames session.more SizeForSDU"
  by (auto simp: frames_def StartRequest_def EndRequest_def WriteUint8_def WriteUint16BE_def WriteUint32BE_def
      WriteUint64BE_def WriteRaw_def WriteBytes_def SizeForSDU_def Let_def case_prod_unfold)

subsection \<open>An exchange keeps the extension of the connection\<close>

lemma session_more_parts:
  fixes s t :: "'z ttc_scheme"
  assumes "session.more s = session.more t"
  shows "conn s = conn t \<and> msg s = msg t \<and> ttc.more s = ttc.more t"
  using assms by (cases s, cases t) simp

lemma frames_session: "frames session.more (m :: ('z ttc_scheme, 'a) state) \<Longrightarrow> frames ttc.more m"
  unfolding frames_def using session_more_parts by blast

lemmas ttc_session_frames [frame_rules] = session_frames [THEN frames_session] write_frames [THEN frames_session]

lemma frames_sendMarker [frame_rules]: "frames ttc.more (sendMarker m)"
  unfolding sendMarker_def by (intro frame_rules)

lemma frames_on_conn [frame_rules]: "frames ttc.more (on_conn f)"
  unfolding on_conn_def by (intro frame_rules) simp

lemma frames_on_msg [frame_rules]: "frames ttc.more (on_msg f)"
  unfolding on_msg_def by (intro frame_rules) simp

lemma more_read_marker:
  fixes s :: "'z session_scheme"
  shows "session.more (snd (run_state read_marker s)) = session.more s"
proof -
  have "frames session.more (read_marker :: ('z, u8) op)" unfolding read_marker_def by (intro frame_rules)
  then show ?thesis by (simp add: frames_def)
qed

lemma more_await_reset: "session.more (snd (await_reset s)) = session.more s"
proof (induction s rule: await_reset.induct)
  case (1 s)
  then show ?case by (subst await_reset.simps) (auto simp: Let_def more_read_marker split: option.split)
qed

lemma more_skip_markers: "session.more (snd (skip_markers s)) = session.more s"
proof (induction s rule: skip_markers.induct)
  case (1 s)
  then show ?case by (subst skip_markers.simps) (auto simp: Let_def split: option.split)
qed

lemma frames_markers [frame_rules]: "frames ttc.more (State await_reset)" "frames ttc.more (State skip_markers)"
  by (rule frames_session, rule frames_State, rule more_await_reset) (rule frames_session, rule frames_State, rule more_skip_markers)

lemma frames_ret_err [frame_rules]: "frames part ret_err"
  unfolding ret_err_def by (intro frame_rules)

lemma frames_reset [frame_rules]: "frames ttc.more reset"
  unfolding reset_def by (intro frame_rules) simp

lemma frames_receivePacket [frame_rules]: "frames ttc.more (receivePacket b)"
  unfolding receivePacket_def by (intro frame_rules)

lemma frames_end_request [frame_rules]: "frames ttc.more end_request"
  unfolding end_request_def by (intro frame_rules)

end
