(* ===== verification/ConnectProps.thy ===== *)
theory ConnectProps
  imports TtcConnect Frames AuthProps
begin

text \<open>
  Properties of the connection phase of \<^theory_text>\<open>TtcConnect\<close>: protection a client requires is in place before it logs
  on, and what becomes of a listener's refusal.
\<close>

subsection \<open>The configuration is kept\<close>

lemma ttc_more_parts:
  fixes s t :: "'z dialing_scheme"
  assumes "ttc.more s = ttc.more t"
  shows "cfg s = cfg t" "denv s = denv t" "cmsg s = cmsg t" "dials s = dials t"
  using assms by (cases s, cases t, simp)+

lemma frames_cfg: "frames ttc.more (m :: ('z dialing_scheme, 'a) state) \<Longrightarrow> frames cfg m"
  unfolding frames_def using ttc_more_parts(1) by blast

lemma frames_cmsg: "frames ttc.more (m :: ('z dialing_scheme, 'a) state) \<Longrightarrow> frames cmsg m"
  unfolding frames_def using ttc_more_parts(3) by blast

lemmas cfg_frames [frame_rules] = ttc_session_frames [THEN frames_cfg] frames_end_request [THEN frames_cfg]
  frames_receivePacket [THEN frames_cfg]

lemmas cmsg_frames [frame_rules] = ttc_session_frames [THEN frames_cmsg] frames_end_request [THEN frames_cmsg]
  frames_receivePacket [THEN frames_cmsg]

lemma frames_connect_write: "frames session.more (connect_write m)"
  unfolding connect_write_def Let_def by (intro frame_rules)

lemmas connect_write_frames [frame_rules] = frames_connect_write [THEN frames_session, THEN frames_cfg]
  frames_connect_write [THEN frames_session, THEN frames_cmsg]

lemma extend_parts [simp]:
  fixes s :: "'z dialing_scheme"
  shows "cfg (session.extend x (session.more s)) = cfg s" "denv (session.extend x (session.more s)) = denv s"
    "cmsg (session.extend x (session.more s)) = cmsg s"
  by (cases s; simp add: session.defs)+

lemma dial_frames [frame_rules]:
  "frames cfg (on_cmsg f)" "frames cfg (on_caps g)" "frames cmsg (on_caps g)"
  "frames cfg (UpgradeTLS a)" "frames cfg process_redirect" "frames cfg process_accept"
  unfolding on_cmsg_def on_caps_def UpgradeTLS_def process_redirect_def process_accept_def Let_def
  by (intro frame_rules; simp)+

lemma frames_processPacket [frame_rules]: "frames cfg connect_processPacket"
  unfolding connect_processPacket_def by (intro frame_rules)

lemma frames_dialTCP [frame_rules]: "frames cfg (dialTCP a)"
  unfolding dialTCP_def by (intro frame_rules) simp_all

lemma frames_negotiateANO [frame_rules]: "frames cfg negotiateANO"
  unfolding negotiateANO_def Let_def by (intro frame_rules) (auto split: sum.split intro!: frame_rules)

lemma frames_rest [frame_rules]: "frames cfg (follow_redirect a)" "frames cfg (connection_accepted b)"
    "frames cfg (send_connect a b c d)" "frames cfg (renegotiate a)"
  unfolding follow_redirect_def connection_accepted_def send_connect_def renegotiate_def Let_def
  by (intro frame_rules; simp)+

lemma connect_loop_cfg:
  assumes "connect_loop a ano cs flags s = Some y"
  shows "cfg (snd y) = cfg s"
proof (rule connect_loop.raw_induct [where P = "\<lambda>a ano cs flags s y. cfg (snd y) = cfg s", OF _ assms])
  fix loop :: "Address \<Rightarrow> bool \<Rightarrow> bytes \<Rightarrow> u8 \<Rightarrow> 'a dialing_scheme \<Rightarrow> ((dial_error + unit) \<times> 'a dialing_scheme) option"
    and a ano cs flags s y
  assume IH: "\<And>a ano cs flags s y. loop a ano cs flags s = Some y \<Longrightarrow> cfg (snd y) = cfg s"
    and body: "(case run_state (send_connect a ano cs flags) s of
        (Inl e, s) \<Rightarrow> Some (Inl e, s)
      | (Inr _, s) \<Rightarrow>
        if redirectData (cmsg s) \<noteq> [] then
          (case run_state (follow_redirect a) s of
             (Inl e, s) \<Rightarrow> Some (Inl e, s)
           | (Inr r, s) \<Rightarrow> loop (fst r) ano (snd r) PacketFlagRedirect s)
        else if accepted (cmsg s) then Some (run_state (connection_accepted ano) s)
        else (case run_state (renegotiate a) s of
             (Inl e, s) \<Rightarrow> Some (Inl e, s)
           | (Inr _, s) \<Rightarrow> loop a ano cs flags s)) = Some y"
  show "cfg (snd y) = cfg s" using body
    by (auto simp: case_prod_unfold frames_rest [THEN frames_snd] split: sum.splits if_splits dest!: IH)
qed

lemma connectAddress_cfg:
  assumes "connectAddress a ano s = Some (r, t)"
  shows "cfg t = cfg s"
proof -
  obtain v u where d: "run_state (dialTCP a) s = (v, u)" by (cases "run_state (dialTCP a) s")
  then have u: "cfg u = cfg s" by (rule framesD [OF frames_dialTCP])
  show ?thesis
  proof (cases v)
    case (Inr x)
    then have "connect_loop a ano (connectData (denv u) (cfg u) a) 0 u = Some (r, t)"
      using assms d by (simp add: connectAddress_def)
    from connect_loop_cfg [OF this] u show ?thesis by simp
  qed (use assms d u in \<open>simp add: connectAddress_def\<close>)
qed

lemma close_transport_cfg [simp]: "cfg (close_transport s) = cfg s"
  by (simp add: close_transport_def)

lemma try_address_cfg:
  assumes "try_address a s = Some (r, t)"
  shows "cfg t = cfg s"
proof -
  obtain v u where u: "connectAddress a (client_ano (cfg s)) s = Some (v, u)"
    using assms by (auto simp: try_address_def bind_eq_Some_conv)
  then have cu: "cfg u = cfg s" by (rule connectAddress_cfg)
  show ?thesis
  proof (cases "v = Inl RetryWithANO")
    case True
    then have "connectAddress a True ((close_transport u)\<lparr>caps := initial_caps (cfg u) False\<rparr>) = Some (r, t)"
      using assms u by (simp add: try_address_def)
    from connectAddress_cfg [OF this] cu show ?thesis by simp
  qed (use assms u cu in \<open>simp add: try_address_def\<close>)
qed

lemma try_addresses_cfg: "try_addresses as prev s = Some (r, t) \<Longrightarrow> cfg t = cfg s"
proof (induction as arbitrary: prev s)
  case (Cons a as)
  then obtain r1 u where u: "try_address a s = Some (r1, u)" by (auto simp: bind_eq_Some_conv)
  then have cu: "cfg u = cfg s" by (rule try_address_cfg)
  show ?case
  proof (cases r1)
    case (Inl e)
    show ?thesis
    proof (cases "definitive e \<and> as = []")
      case False
      then have "try_addresses as (Inl e) (close_transport u) = Some (r, t)" using Cons.prems u Inl by (auto split: if_splits)
      from Cons.IH [OF this] cu show ?thesis by simp
    qed (use Cons.prems u Inl cu in auto)
  qed (use Cons.prems u cu in auto)
qed simp

subsection \<open>Required protection\<close>

definition protected :: "ANOConfig \<Rightarrow> 'z session_scheme \<Rightarrow> bool" where
  "protected a s \<longleftrightarrow> (EncryptionLevel a = LevelRequired \<longrightarrow> EncryptionActive (sec (tr s))) \<and>
     (ChecksumLevel a = LevelRequired \<longrightarrow> ChecksumActive (sec (tr s)))"

text \<open>What \<open>Dial\<close> does for a client that has no TLS configured.\<close>

lemma Dial_protects:
  assumes "Dial c env z = Some (r, s)" "config_error c = None" "cf_ANO c = Some a" "cf_TLS c = None"
  shows "\<exists>r0 s0. try_addresses (Addresses (fillDefaults env c)) (Inr ()) (dial_start c env z) = Some (r0, s0) \<and>
     (if isl r0 then r = r0 \<and> s = s0
      else if \<not> protected a s0 then r = Inl NNENotNegotiated \<and> s = close_transport s0
      else \<exists>r1 s1. authenticate s0 = Some (r1, s1) \<and> r = map_sum DialErr id r1 \<and> (isl r \<longrightarrow> s = close_transport s1))"
proof -
  have c0: "cfg (dial_start c env z) = fillDefaults env c" by (simp add: dial_start_def Let_def)
  have d: "cf_ANO (fillDefaults env c) = Some a" "cf_TLS (fillDefaults env c) = None"
    using assms by (simp_all add: fillDefaults_def)
  obtain r0 s0 where t: "try_addresses (Addresses (fillDefaults env c)) (Inr ()) (dial_start c env z) = Some (r0, s0)"
    using assms(1,2) c0 by (auto simp: Dial_def Let_def bind_eq_Some_conv)
  have cs0: "cfg s0 = fillDefaults env c" using try_addresses_cfg [OF t] c0 by simp
  have v: "verifyNNERequirement s0 = (if protected a s0 then None else Some NNENotNegotiated)"
    using cs0 d by (auto simp: verifyNNERequirement_def protected_def)
  show ?thesis
  proof (cases r0)
    case (Inl e)
    then have "r = Inl e \<and> s = s0" using assms(1,2) t c0 by (simp add: Dial_def Let_def)
    with Inl t show ?thesis by simp
  next
    case (Inr u)
    have D: "Dial c env z = (if protected a s0 then
        map_option (\<lambda>(r, s). case r of Inl e \<Rightarrow> (Inl (DialErr e), close_transport s)
                 | Inr _ \<Rightarrow> (Inr (), s\<lparr>conn := (conn s)\<lparr>inConnect := False\<rparr>\<rparr>)) (authenticate s0)
        else Some (Inl NNENotNegotiated, close_transport s0))"
      using assms(2) t c0 v Inr by (simp add: Dial_def Let_def)
    show ?thesis
    proof (cases "protected a s0")
      case True
      then obtain r1 s1 where A: "authenticate s0 = Some (r1, s1)" using assms(1) by (auto simp: D)
      then have "r = map_sum DialErr id r1 \<and> (isl r \<longrightarrow> s = close_transport s1)"
        using assms(1) True by (cases r1) (auto simp: D)
      then show ?thesis using True t A Inr by auto
    qed (use assms(1) t Inr in \<open>auto simp: D\<close>)
  qed
qed

subsection \<open>A refusal\<close>

definition refused :: "dial_error + 'a \<Rightarrow> bool" where
  "refused r \<longleftrightarrow> (\<exists>n t. r = Inl (ListenerRefused n t))"

definition anonymous :: "dial_error + 'a \<Rightarrow> bool" where
  "anonymous r \<longleftrightarrow> (\<forall>n t. r = Inl (ListenerRefused n t) \<longrightarrow> n = 0 \<and> t = [])"

lemma anonymous_tryE:
  assumes "anonymous (fst (run_state m s))" "\<And>x t. run_state m s = (Inr x, t) \<Longrightarrow> anonymous (fst (run_state (f x) t))"
  shows "anonymous (fst (run_state (tryE m f) s))"
proof -
  obtain r t where m: "run_state m s = (r, t)" by (cases "run_state m s")
  show ?thesis using assms m by (cases r) (auto simp: tryE_def anonymous_def)
qed

lemma not_refused_anonymous: "\<not> refused r \<Longrightarrow> anonymous r"
  by (auto simp: refused_def anonymous_def)

lemma not_refused:
  "\<not> refused (fst (run_state process_redirect s))" "\<not> refused (fst (run_state process_accept s))"
  "\<not> refused (dial_result r)" "\<not> refused (fst (run_state (UpgradeTLS a) s'))"
  by (auto simp: refused_def process_redirect_def process_accept_def dial_result_def tryE_def throw_def ok_def UpgradeTLS_def
      case_prod_unfold split: sum.splits if_splits option.splits, (cases r; simp))

lemma not_refused_calls:
  "\<not> refused (fst (run_state (dialTCP a) s))" "\<not> refused (fst (run_state negotiateANO s))"
  "\<not> refused (fst (run_state (renegotiate a) s))" "\<not> refused (parseRedirectAddress env desc)"
  using not_refused(4)
  by (auto simp: refused_def dialTCP_def negotiateANO_def renegotiate_def parseRedirectAddress_def throw_def ok_def
      case_prod_unfold Let_def split: sum.splits if_splits option.splits)

lemma anonymous_follow: "anonymous (fst (run_state (follow_redirect a) s))"
proof -
  have "anonymous (parseRedirectAddress env desc)" for env desc by (rule not_refused_anonymous, rule not_refused_calls)
  moreover have "anonymous (fst (run_state (dialTCP b) t))" for b and t :: "'a dialing_scheme"
    by (rule not_refused_anonymous, rule not_refused_calls)
  ultimately show ?thesis unfolding follow_redirect_def Let_def
    by (auto split: option.split intro!: anonymous_tryE simp: throw_def ok_def) (auto simp: anonymous_def)
qed

lemma anonymous_accepted: "anonymous (fst (run_state (connection_accepted b) s))"
  using not_refused_calls(2)
  by (auto simp: connection_accepted_def throw_def ok_def case_prod_unfold anonymous_def refused_def)

lemma anonymous_processPacket:
  assumes "refuseMessage (cmsg s) = []"
  shows "anonymous (fst (run_state connect_processPacket s))"
proof -
  have c: "refuse_code [] = 0" by (simp add: refuse_code_def asc_def)
  have r: "anonymous (fst (run_state process_redirect s))" "anonymous (fst (run_state process_accept s))"
    by (rule not_refused_anonymous, rule not_refused)+
  have e: "anonymous (fst (run_state (do { r \<leftarrow> ret_err; State_Monad.return (dial_result r) }) t))" for t :: "'a dialing_scheme"
    by (simp add: case_prod_unfold not_refused_anonymous not_refused(3))
  show ?thesis unfolding connect_processPacket_def
    using assms r by (auto split: option.split intro!: anonymous_tryE e simp: throw_def ok_def c)
      (auto simp: anonymous_def)
qed

lemma frames_refuse [frame_rules]: "frames cmsg m \<Longrightarrow> frames (\<lambda>s. refuseMessage (cmsg s)) m"
  by (rule frames_weaken)

lemma anonymous_send: "anonymous (fst (run_state (send_connect a ano cs flags) s))"
proof -
  have w: "refuseMessage (cmsg (snd (run_state (do { ResetPackets; connect_write m; end_request }) t))) = refuseMessage (cmsg t)"
    for m and t :: "'a dialing_scheme" by (rule frames_snd [where part = "\<lambda>s. refuseMessage (cmsg s)"]) (intro frame_rules)
  have d: "anonymous (dial_result r)" for r :: "ttc_error + unit" by (rule not_refused_anonymous, rule not_refused)
  have r: "refuseMessage (cmsg (snd (run_state (receivePacket False) t))) = refuseMessage (cmsg t)" for t :: "'a dialing_scheme"
    by (rule frames_snd [where part = "\<lambda>s. refuseMessage (cmsg s)"]) (intro frame_rules)
  show ?thesis unfolding send_connect_def Let_def
    using w r by (auto simp: case_prod_unfold d intro!: anonymous_tryE anonymous_processPacket)
qed

lemma anonymous_loop:
  assumes "connect_loop a ano cs flags s = Some y"
  shows "anonymous (fst y)"
proof (rule connect_loop.raw_induct [where P = "\<lambda>a ano cs flags s y. anonymous (fst y)", OF _ assms])
  fix loop :: "Address \<Rightarrow> bool \<Rightarrow> bytes \<Rightarrow> u8 \<Rightarrow> 'a dialing_scheme \<Rightarrow> ((dial_error + unit) \<times> 'a dialing_scheme) option"
    and a ano cs flags s y
  assume IH: "\<And>a ano cs flags s y. loop a ano cs flags s = Some y \<Longrightarrow> anonymous (fst y)"
    and body: "(case run_state (send_connect a ano cs flags) s of
        (Inl e, s) \<Rightarrow> Some (Inl e, s)
      | (Inr _, s) \<Rightarrow>
        if redirectData (cmsg s) \<noteq> [] then
          (case run_state (follow_redirect a) s of
             (Inl e, s) \<Rightarrow> Some (Inl e, s)
           | (Inr r, s) \<Rightarrow> loop (fst r) ano (snd r) PacketFlagRedirect s)
        else if accepted (cmsg s) then Some (run_state (connection_accepted ano) s)
        else (case run_state (renegotiate a) s of
             (Inl e, s) \<Rightarrow> Some (Inl e, s)
           | (Inr _, s) \<Rightarrow> loop a ano cs flags s)) = Some y"
  define u where "u = snd (run_state (send_connect a ano cs flags) s)"
  have a1: "anonymous (fst (run_state (send_connect a ano cs flags) s))" by (rule anonymous_send)
  have a2: "anonymous (fst (run_state (follow_redirect a) u))" by (rule anonymous_follow)
  have a3: "anonymous (fst (run_state (renegotiate a) u))" by (rule not_refused_anonymous, rule not_refused_calls)
  have l: "anonymous (Inl e :: dial_error + unit)" if "anonymous (x :: dial_error + 'b)" "x = Inl e" for x e
    using that by (simp add: anonymous_def)
  show "anonymous (fst y)" using body
    by (auto simp: case_prod_unfold u_def [symmetric] anonymous_accepted split: sum.splits if_splits
        dest: IH l [OF a1] l [OF a2] l [OF a3])
qed

lemma anonymous_connect: "connectAddress a ano s = Some y \<Longrightarrow> anonymous (fst y)"
  using not_refused_anonymous [OF not_refused_calls(1), of a s]
  by (auto simp: connectAddress_def case_prod_unfold anonymous_def split: sum.splits dest: anonymous_loop)

lemma anonymous_address: "try_address a s = Some y \<Longrightarrow> anonymous (fst y)"
  by (auto simp: try_address_def bind_eq_Some_conv split: if_splits dest!: anonymous_connect)

lemma anonymous_addresses: "try_addresses as prev s = Some y \<Longrightarrow> anonymous prev \<Longrightarrow> anonymous (fst y)"
proof (induction as arbitrary: prev s)
  case (Cons a as)
  then obtain r u where u: "try_address a s = Some (r, u)" by (auto simp: bind_eq_Some_conv)
  then have r: "anonymous r" using anonymous_address by fastforce
  show ?case
  proof (cases r)
    case (Inl e)
    show ?thesis
    proof (cases "definitive e \<and> as = []")
      case False
      then have "try_addresses as (Inl e) (close_transport u) = Some y" using Cons.prems u Inl by (auto split: if_splits)
      then show ?thesis using r Inl by (intro Cons.IH) auto
    qed (use Cons.prems u Inl r in auto)
  qed (use Cons.prems u in \<open>auto simp: anonymous_def\<close>)
qed auto

lemma not_Inl_unit: "\<forall>e. r \<noteq> Inl e \<Longrightarrow> r = Inr ()"
  by (cases r) auto

lemma Dial_anonymous: "Dial c env z = Some (r, s) \<Longrightarrow> anonymous r"
proof (cases "config_error c")
  case None
  assume D: "Dial c env z = Some (r, s)"
  have a0: "anonymous (Inr () :: dial_error + unit)" by (simp add: anonymous_def)
  obtain r0 s0 where r: "try_addresses (Addresses (cfg (dial_start c env z))) (Inr ()) (dial_start c env z) = Some (r0, s0)"
    using D None by (auto simp: Dial_def Let_def bind_eq_Some_conv)
  then have "anonymous r0" using anonymous_addresses [OF r a0] by simp
  then show ?thesis
    using D None r by (auto simp: Dial_def Let_def verifyNNERequirement_def anonymous_def
        split: sum.splits option.splits if_splits dest!: not_Inl_unit)
qed (auto simp: Dial_def anonymous_def)

text \<open>A REFUSE packet does end the attempt, and so.\<close>

lemma refuse_packet:
  assumes "current s = Some p" "Type p = PacketTypeRefuse" "refuseMessage (cmsg s) = []"
  shows "fst (run_state connect_processPacket s) = Inl (ListenerRefused 0 [])"
  using assms
  by (simp add: connect_processPacket_def tryE_def throw_def refuse_code_def asc_def PacketTypeRefuse_def PacketTypeRedirect_def
      PacketTypeAccept_def)

text \<open>
  Property C35. The reason of a listener's refusal is lost: whatever text and error number the REFUSE
  packet holds, a refusal that \<open>Dial\<close> reports has number 0 and an empty text, so that the branches for an
  unknown service (12514) or SID (12505) are never taken.
\<close>

theorem refusal_reason_lost:
  "Dial c env z \<notin> {Some (Inl (ListenerRefused n t), s) | n t s. (n, t) \<noteq> (0, [])}"
  by (auto dest: Dial_anonymous simp: anonymous_def)

end
