(* ===== verification/AdbcOptionsProps.thy ===== *)
theory AdbcOptionsProps
  imports AdbcOptions ConnectProps "HOL-Library.Multiset"
begin

text \<open>
  Properties of \<^theory_text>\<open>AdbcOptions\<close>: the order in which Go's map iteration visits the options does not matter, and
  an application that asks for encryption as required has it enforced by \<open>Dial\<close>.
\<close>

subsection \<open>Which setting an option is\<close>

lemma asc_inj [simp]: "asc s = asc t \<longleftrightarrow> s = t"
proof
  have i: "inj (\<lambda>c :: char. word_of_nat (of_char c) :: u8)"
  proof (rule injI)
    fix c d :: char
    assume "(word_of_nat (of_char c) :: u8) = word_of_nat (of_char d)"
    then have "unat (word_of_nat (of_char c) :: u8) = unat (word_of_nat (of_char d) :: u8)" by simp
    then have "(of_char c :: nat) = of_char d" by (simp add: unat_of_nat)
    then show "c = d" by simp
  qed
  show "asc s = asc t \<Longrightarrow> s = t" unfolding asc_def using i by (simp add: inj_map_eq_map)
qed simp

fun option_word :: "setting \<Rightarrow> string" where
  "option_word SetHost = ''adbc.oracle.host''"
| "option_word SetPort = ''adbc.oracle.port''"
| "option_word SetServiceName = ''adbc.oracle.service_name''"
| "option_word SetSID = ''adbc.oracle.sid''"
| "option_word SetTLS = ''adbc.oracle.tls''"
| "option_word SetCACert = ''adbc.oracle.tls.ca_cert''"
| "option_word SetSkipVerify = ''adbc.oracle.tls.skip_verify''"
| "option_word SetServerName = ''adbc.oracle.tls.server_name''"
| "option_word SetWallet = ''adbc.oracle.wallet_location''"
| "option_word SetWalletPassword = ''adbc.oracle.wallet_password''"
| "option_word SetSchema = ''adbc.oracle.current_schema''"
| "option_word SetTimeout = ''adbc.oracle.connect_timeout''"
| "option_word SetProgram = ''adbc.oracle.application_name''"
| "option_word SetBatchSize = ''adbc.oracle.batch_size''"
| "option_word SetPrefetch = ''adbc.oracle.prefetch_rows''"
| "option_word SetTrace = ''adbc.oracle.trace''"
| "option_word SetMode = ''adbc.oracle.mode''"
| "option_word SetTimeZone = ''adbc.oracle.session_time_zone''"
| "option_word SetNumberMode = ''adbc.oracle.number_mode''"
| "option_word SetIntervalMode = ''adbc.oracle.interval_mode''"
| "option_word SetDateMode = ''adbc.oracle.date_mode''"
| "option_word SetBatchBytes = ''adbc.oracle.batch_bytes''"
| "option_word SetDisableOOB = ''adbc.oracle.disable_oob''"
| "option_word SetExtensionTypes = ''adbc.oracle.use_extension_types''"
| "option_word SetNNE = ''adbc.oracle.nne''"
| "option_word SetNNEChecksum = ''adbc.oracle.nne_checksum''"
| "option_word SetNNEEncAlgos = ''adbc.oracle.nne_encryption_algorithms''"
| "option_word SetNNEChkAlgos = ''adbc.oracle.nne_checksum_algorithms''"
| "option_word SetSDU = ''adbc.oracle.sdu''"
| "option_word SetToken = ''adbc.oracle.token''"
| "option_word _ = ''''"

lemma oracle_setting_word:
  "lookup_word k oracle_settings = Some st \<Longrightarrow> k = asc (option_word st) \<and> st \<noteq> SetUser \<and> st \<noteq> SetPassword"
  by (auto simp: oracle_settings_def one_of_def simp del: asc_simps split: if_splits)

lemma option_setting_key:
  "option_setting env k = Some st \<Longrightarrow>
     k = (if st = SetUser then key_username env else if st = SetPassword then key_password env else asc (option_word st))"
  by (auto simp: option_setting_def split: if_splits dest: oracle_setting_word)

lemma option_setting_inj:
  assumes "option_setting env k = Some st" "option_setting env k' = Some st"
  shows "k = k'"
  using option_setting_key [OF assms(1)] option_setting_key [OF assms(2)] by simp

subsection \<open>A configuration as a map of settings\<close>

text \<open>
  \<open>built m c\<close> is the configuration \<open>c\<close> with the settings in \<open>m\<close>. Every branch of the switch turns it into
  \<open>built\<close> of an updated map, so that what a list of options does is a map.
\<close>

datatype sval = Txt bytes | Num int | Wrd u32 | Flag bool | Lst "bytes list option"

fun the_txt :: "sval option \<Rightarrow> bytes \<Rightarrow> bytes" where "the_txt (Some (Txt x)) _ = x" | "the_txt _ d = d"
fun the_num :: "sval option \<Rightarrow> int \<Rightarrow> int" where "the_num (Some (Num x)) _ = x" | "the_num _ d = d"
fun the_wrd :: "sval option \<Rightarrow> u32 \<Rightarrow> u32" where "the_wrd (Some (Wrd x)) _ = x" | "the_wrd _ d = d"
fun the_flag :: "sval option \<Rightarrow> bool \<Rightarrow> bool" where "the_flag (Some (Flag x)) _ = x" | "the_flag _ d = d"
fun the_lst :: "sval option \<Rightarrow> bytes list option \<Rightarrow> bytes list option" where "the_lst (Some (Lst x)) _ = x" | "the_lst _ d = d"

definition built_ttc :: "(setting \<Rightarrow> sval option) \<Rightarrow> Config \<Rightarrow> Config" where
  "built_ttc m t =
     \<lparr>Addresses = Addresses t, ServiceName = the_txt (m SetServiceName) (ServiceName t), SID = the_txt (m SetSID) (SID t),
      InstanceName = the_txt (m SetInstance) (InstanceName t), ServerType = the_txt (m SetServer) (ServerType t),
      Username = the_txt (m SetUser) (Username t), cf_Password = the_txt (m SetPassword) (cf_Password t),
      Token = the_txt (m SetToken) (Token t), Mode = the_wrd (m SetMode) (Mode t), cf_TLS = cf_TLS t,
      cf_SDU = the_wrd (m SetSDU) (cf_SDU t), Program = the_txt (m SetProgram) (Program t), Machine = Machine t, OSUser = OSUser t,
      Terminal = Terminal t, cf_DriverName = cf_DriverName t, FullVersion = FullVersion t,
      SessionTimeZone = the_txt (m SetTimeZone) (SessionTimeZone t), cf_CurrentSchema = the_txt (m SetSchema) (cf_CurrentSchema t),
      ExtraConnectData = ExtraConnectData t, DisableOOB = the_flag (m SetDisableOOB) (DisableOOB t), cf_ANO = cf_ANO t\<rparr>"

definition built_types :: "(setting \<Rightarrow> sval option) \<Rightarrow> typeOptions \<Rightarrow> typeOptions" where
  "built_types m t =
     \<lparr>numberMode = the_txt (m SetNumberMode) (numberMode t), intervalMode = the_txt (m SetIntervalMode) (intervalMode t),
      dateMode = the_txt (m SetDateMode) (dateMode t), useExtensionTypes = the_flag (m SetExtensionTypes) (useExtensionTypes t)\<rparr>"

definition built :: "(setting \<Rightarrow> sval option) \<Rightarrow> parsing \<Rightarrow> parsing" where
  "built m c =
     \<lparr>cc_ttc = built_ttc m (cc_ttc c), ConnectTimeout = the_num (m SetTimeout) (ConnectTimeout c),
      batchSize = the_num (m SetBatchSize) (batchSize c), batchBytes = the_num (m SetBatchBytes) (batchBytes c),
      cc_prefetchRows = the_num (m SetPrefetch) (cc_prefetchRows c), trace = the_flag (m SetTrace) (trace c),
      types = built_types m (types c),
      nneEnc = the_num (m SetNNE) (nneEnc c), nneChk = the_num (m SetNNEChecksum) (nneChk c),
      nneEncSet = (m SetNNE \<noteq> None \<or> nneEncSet c), nneChkSet = (m SetNNEChecksum \<noteq> None \<or> nneChkSet c),
      nneEncAlgos = the_lst (m SetNNEEncAlgos) (nneEncAlgos c), nneChkAlgos = the_lst (m SetNNEChkAlgos) (nneChkAlgos c),
      tlsEnabled = the_flag (m SetTLS) (tlsEnabled c), skipVerify = the_flag (m SetSkipVerify) (skipVerify c),
      caCert = the_txt (m SetCACert) (caCert c), serverName = the_txt (m SetServerName) (serverName c),
      walletLocation = the_txt (m SetWallet) (walletLocation c), walletPassword = the_txt (m SetWalletPassword) (walletPassword c),
      po_host = the_txt (m SetHost) (po_host c), po_port = the_num (m SetPort) (po_port c)\<rparr>"

text \<open>The component of a configuration that a setting writes.\<close>

fun component :: "setting \<Rightarrow> parsing \<Rightarrow> sval" where
  "component SetUser c = Txt (Username (cc_ttc c))"
| "component SetPassword c = Txt (cf_Password (cc_ttc c))"
| "component SetHost c = Txt (po_host c)"
| "component SetPort c = Num (po_port c)"
| "component SetServiceName c = Txt (ServiceName (cc_ttc c))"
| "component SetSID c = Txt (SID (cc_ttc c))"
| "component SetInstance c = Txt (InstanceName (cc_ttc c))"
| "component SetServer c = Txt (ServerType (cc_ttc c))"
| "component SetTLS c = Flag (tlsEnabled c)"
| "component SetCACert c = Txt (caCert c)"
| "component SetSkipVerify c = Flag (skipVerify c)"
| "component SetServerName c = Txt (serverName c)"
| "component SetWallet c = Txt (walletLocation c)"
| "component SetWalletPassword c = Txt (walletPassword c)"
| "component SetSchema c = Txt (cf_CurrentSchema (cc_ttc c))"
| "component SetTimeout c = Num (ConnectTimeout c)"
| "component SetProgram c = Txt (Program (cc_ttc c))"
| "component SetBatchSize c = Num (batchSize c)"
| "component SetPrefetch c = Num (cc_prefetchRows c)"
| "component SetTrace c = Flag (trace c)"
| "component SetMode c = Wrd (Mode (cc_ttc c))"
| "component SetTimeZone c = Txt (SessionTimeZone (cc_ttc c))"
| "component SetNumberMode c = Txt (numberMode (types c))"
| "component SetIntervalMode c = Txt (intervalMode (types c))"
| "component SetDateMode c = Txt (dateMode (types c))"
| "component SetBatchBytes c = Num (batchBytes c)"
| "component SetDisableOOB c = Flag (DisableOOB (cc_ttc c))"
| "component SetExtensionTypes c = Flag (useExtensionTypes (types c))"
| "component SetNNE c = Num (nneEnc c)"
| "component SetNNEChecksum c = Num (nneChk c)"
| "component SetNNEEncAlgos c = Lst (nneEncAlgos c)"
| "component SetNNEChkAlgos c = Lst (nneChkAlgos c)"
| "component SetSDU c = Wrd (cf_SDU (cc_ttc c))"
| "component SetToken c = Txt (Token (cc_ttc c))"

lemma built_none: "built (\<lambda>_. None) c = c"
  by (simp add: built_def built_ttc_def built_types_def)

lemma map_sum_Inr: "map_sum id f r = Inr y \<longleftrightarrow> (\<exists>x. r = Inr x \<and> y = f x)"
  by (cases r) auto

lemma setter_built:
  assumes "setter env st v = Inr f"
  shows "f (built m c) = built (m(st := Some (component st (f d)))) c"
  using assms
  by (cases st) (auto simp: setter_def and_set_def map_sum_Inr on_ttc_def on_types_def built_def built_ttc_def built_types_def
      split: prod.splits if_splits)

text \<open>What an option writes, if it is one and its value is accepted.\<close>

definition option_value :: "options_env \<Rightarrow> bytes \<times> bytes \<Rightarrow> (adbc_error + (setting \<times> sval) option)" where
  "option_value env kv =
     (case option_setting env (fst kv) of None \<Rightarrow> Inr None
      | Some st \<Rightarrow> map_sum id (\<lambda>f. Some (st, component st (f (parse_start env)))) (setter env st (snd kv)))"

definition written :: "options_env \<Rightarrow> (bytes \<times> bytes) list \<Rightarrow> setting \<Rightarrow> sval option" where
  "written env os = map_of (List.map_filter (\<lambda>kv. case option_value env kv of Inr w \<Rightarrow> w | Inl _ \<Rightarrow> None) os)"

definition accepted_options :: "options_env \<Rightarrow> (bytes \<times> bytes) list \<Rightarrow> bool" where
  "accepted_options env os \<longleftrightarrow> (\<forall>kv \<in> set os. \<not> isl (option_value env kv))"

lemma written_Cons:
  "written env (kv # os) = (case option_value env kv of Inr (Some (st, x)) \<Rightarrow> (written env os)(st \<mapsto> x) | _ \<Rightarrow> written env os)"
  by (auto simp: written_def List.map_filter_def split: sum.split option.split prod.split)

lemma written_domain:
  assumes "written env os st \<noteq> None"
  shows "\<exists>k. k \<in> set (map fst os) \<and> option_setting env k = Some st"
  using assms
proof (induction os)
  case (Cons kv os)
  then show ?case
    by (auto simp: written_Cons option_value_def map_sum_Inr split: sum.splits option.splits prod.splits if_splits)
qed (simp add: written_def List.map_filter_def)

lemma apply_options_built:
  assumes "distinct (map fst os)"
  shows "if accepted_options env os then apply_options env os (built m c) = Inr (built (m ++ written env os) c)
    else isl (apply_options env os (built m c))"
  using assms
proof (induction os arbitrary: m)
  case Nil
  then show ?case by (simp add: accepted_options_def written_def List.map_filter_def)
next
  case (Cons kv os)
  obtain k v where kv: "kv = (k, v)" by (cases kv)
  show ?case
  proof (cases "option_setting env k")
    case None
    then show ?thesis using Cons.IH [of m] Cons.prems
      by (auto simp: kv written_Cons option_value_def accepted_options_def)
  next
    case (Some st)
    show ?thesis
    proof (cases "setter env st v")
      case (Inl e)
      then show ?thesis using Some by (simp add: kv accepted_options_def option_value_def apply_setting_def)
    next
      case (Inr f)
      let ?x = "component st (f (parse_start env))"
      have w: "written env os st = None"
      proof (rule ccontr)
        assume "written env os st \<noteq> None"
        then obtain k' where "k' \<in> set (map fst os)" "option_setting env k' = Some st" using written_domain by blast
        then show False using option_setting_inj [OF _ Some] Cons.prems kv by auto
      qed
      have wc: "written env (kv # os) = (written env os)(st \<mapsto> ?x)" using Some Inr by (simp add: kv written_Cons option_value_def)
      have mm: "m ++ written env (kv # os) = m(st \<mapsto> ?x) ++ written env os"
        using w by (auto simp: wc map_add_def fun_eq_iff split: option.split)
      have acc: "accepted_options env (kv # os) = accepted_options env os"
        using Some Inr by (simp add: kv accepted_options_def option_value_def)
      have ap: "apply_options env (kv # os) (built m c) = apply_options env os (built (m(st \<mapsto> ?x)) c)"
        using Some Inr by (simp add: kv apply_setting_def setter_built [where d = "parse_start env"])
      show ?thesis unfolding mm acc ap by (rule Cons.IH) (use Cons.prems in simp)
    qed
  qed
qed

subsection \<open>The order of the options\<close>

lemma written_distinct:
  assumes "distinct (map fst os)"
  shows "distinct (map fst (List.map_filter (\<lambda>kv. case option_value env kv of Inr w \<Rightarrow> w | Inl _ \<Rightarrow> None) os))"
  using assms
proof (induction os)
  case (Cons kv os)
  let ?f = "\<lambda>kv. case option_value env kv of Inr w \<Rightarrow> w | Inl _ \<Rightarrow> None"
  show ?case
  proof (cases "?f kv")
    case (Some w)
    then have st: "option_setting env (fst kv) = Some (fst w)"
      by (auto simp: option_value_def map_sum_Inr split: sum.splits option.splits)
    have "fst w \<notin> set (map fst (List.map_filter ?f os))"
    proof
      assume "fst w \<in> set (map fst (List.map_filter ?f os))"
      then have "written env os (fst w) \<noteq> None" by (simp add: written_def map_of_eq_None_iff)
      from written_domain [OF this] obtain k where "k \<in> set (map fst os)" "option_setting env k = Some (fst w)" by blast
      with option_setting_inj [OF _ st] Cons.prems show False by (metis distinct.simps(2) list.simps(9))
    qed
    then show ?thesis using Cons Some by (simp add: List.map_filter_def)
  qed (use Cons in \<open>simp add: List.map_filter_def\<close>)
qed (simp add: List.map_filter_def)

lemma written_permuted:
  assumes "distinct (map fst os)" "mset os = mset os'"
  shows "written env os = written env os' \<and> accepted_options env os = accepted_options env os'"
proof -
  have s: "set os = set os'" using assms(2) by (rule mset_eq_setD)
  have "mset (map fst os) = mset (map fst os')" using assms(2) by simp
  then have d: "distinct (map fst os')" using assms(1) mset_eq_imp_distinct_iff by blast
  have "written env os = written env os'" unfolding written_def
    by (rule map_of_inject_set [THEN iffD2, OF written_distinct [OF assms(1)] written_distinct [OF d]])
      (auto simp: List.map_filter_def s)
  then show ?thesis by (simp add: accepted_options_def s)
qed

text \<open>
  Property C40. The options of a database are a Go map, which is visited in any order: whatever the order,
  \<open>parseOptions\<close> accepts the same options and resolves them to the same configuration.
\<close>

theorem options_order_irrelevant:
  assumes "distinct (map fst opts)" "mset opts = mset opts'"
  shows "parseOptions env opts = parseOptions env opts' \<or> (isl (parseOptions env opts) \<and> isl (parseOptions env opts'))"
proof -
  have "mset (map fst opts) = mset (map fst opts')" using assms(2) by simp
  then have d: "distinct (map fst opts')" using assms(1) mset_eq_imp_distinct_iff by blast
  have m: "map_of opts = map_of opts'"
    using map_of_inject_set [OF assms(1) d] mset_eq_setD [OF assms(2)] by simp
  have "apply_options env opts c = apply_options env opts' c \<or> (isl (apply_options env opts c) \<and> isl (apply_options env opts' c))" for c
    using apply_options_built [OF assms(1), of env "\<lambda>_. None" c] apply_options_built [OF d, of env "\<lambda>_. None" c]
      written_permuted [OF assms, of env]
    by (auto simp: built_none split: if_splits)
  moreover have l: "isl (andThen r f)" if "isl r" for r :: "adbc_error + parsing" and f :: "parsing \<Rightarrow> adbc_error + connConfig"
    using that by (cases r) auto
  ultimately show ?thesis
    by (cases "apply_connect_string env (trim_space (case map_of opts' (key_uri env) of None \<Rightarrow> [] | Some u \<Rightarrow> u)) (parse_start env)")
      (simp_all add: parseOptions_def m, metis l)
qed

definition toy_options_env :: options_env where
  "toy_options_env = \<lparr>key_uri = asc ''uri'', key_username = asc ''username'', key_password = asc ''password'',
     oe_lower = ascii_lower_table, oe_upper = ascii_upper_table, url_Parse = (\<lambda>_. None), url_ParseQuery = (\<lambda>_. None),
     net_SplitHostPort = (\<lambda>_. None), ParseDuration = (\<lambda>_. None), ca_certificates = (\<lambda>_. True), wallet_error = (\<lambda>_ _. None),
     Version = asc ''0.1.0''\<rparr>"

theorem options_order_irrelevant_witness:
  "parseOptions toy_options_env [(asc ''username'', [97]), (asc ''adbc.oracle.host'', [98])] =
     parseOptions toy_options_env [(asc ''adbc.oracle.host'', [98]), (asc ''username'', [97])] \<or>
   (isl (parseOptions toy_options_env [(asc ''username'', [97]), (asc ''adbc.oracle.host'', [98])]) \<and>
    isl (parseOptions toy_options_env [(asc ''adbc.oracle.host'', [98]), (asc ''username'', [97])]))"
  by (rule options_order_irrelevant) (simp_all del: asc_simps)

subsection \<open>Required encryption\<close>

lemma written_lookup:
  assumes "map_of os k = Some v" "option_setting env k = Some st" "setter env st v = Inr f"
  shows "written env os st = Some (component st (f (parse_start env)))"
  using assms(1)
proof (induction os)
  case (Cons kv os)
  obtain k' v' where kv: "kv = (k', v')" by (cases kv)
  show ?case
  proof (cases "k' = k")
    case True
    then show ?thesis using Cons.prems assms(2,3) by (simp add: kv written_Cons option_value_def)
  next
    case False
    then have "written env os st = Some (component st (f (parse_start env)))" using Cons kv by simp
    moreover have "option_setting env k' \<noteq> Some st" using option_setting_inj [OF assms(2)] False by metis
    ultimately show ?thesis
      by (auto simp: kv written_Cons option_value_def map_sum_Inr split: sum.splits option.splits)
  qed
qed simp

lemma truncate_ttc [simp]: "cc_ttc (connConfig.truncate c) = cc_ttc c"
  by (cases c) (simp add: connConfig.truncate_def)

lemma on_ttc_simps [simp]: "cc_ttc (on_ttc f c) = f (cc_ttc c)" "nneEnc (on_ttc f c) = nneEnc c" "nneEncSet (on_ttc f c) = nneEncSet c"
  "walletLocation (on_ttc f c) = walletLocation c" "po_host (on_ttc f c) = po_host c"
  by (simp_all add: on_ttc_def)

lemma with_tls_keeps:
  assumes "with_tls env c = Inr c'"
  shows "nneEnc c' = nneEnc c \<and> nneEncSet c' = nneEncSet c \<and> (check_options c = None \<longrightarrow> check_options c' = None)"
proof -
  have "c' = c \<or> (\<exists>n v g. c' = on_ttc (\<lambda>t. t\<lparr>cf_TLS := Some \<lparr>tls_ServerName = n, InsecureSkipVerify = v\<rparr>, Addresses := map g (Addresses t)\<rparr>) c)"
    using assms unfolding with_tls_def by (simp split: if_splits option.splits) blast+
  then show ?thesis by (elim disjE exE) (simp_all add: check_options_def)
qed

lemma check_config: "check_options c = None \<longleftrightarrow> config_error (cc_ttc c) = None"
  by (simp add: check_options_def config_error_def)

lemma with_ano_keeps: "check_options (with_ano c) = check_options c" "cf_TLS (cc_ttc (with_ano c)) = cf_TLS (cc_ttc c)"
  "Addresses (cc_ttc (with_ano c)) = Addresses (cc_ttc c)"
  by (simp_all add: with_ano_def check_options_def)

lemma default_prefetch_keeps: "cc_ttc (default_prefetch c) = cc_ttc c" "nneEnc (default_prefetch c) = nneEnc c"
  "nneEncSet (default_prefetch c) = nneEncSet c" "check_options (default_prefetch c) = check_options c"
  by (simp_all add: default_prefetch_def check_options_def)

lemma finish_options_level:
  assumes "finish_options env c = Inr cc" "nneEncSet c" "nneEnc c = LevelRequired"
  shows "config_error (cc_ttc cc) = None \<and> (\<exists>a. cf_ANO (cc_ttc cc) = Some a \<and> EncryptionLevel a = LevelRequired)"
proof -
  have r: "nneEnc (resolve_host c) = LevelRequired" "nneEncSet (resolve_host c)" using assms by (simp_all add: resolve_host_def)
  obtain c1 where c1: "with_tls env (default_prefetch (resolve_host c)) = Inr c1" "cc = connConfig.truncate (with_ano c1)"
      "check_options (resolve_host c) = None"
    using assms(1) by (auto simp: finish_options_def Let_def andThen_eq_Inr split: option.splits)
  from with_tls_keeps [OF c1(1)] c1(3) r have k: "nneEncSet c1" "nneEnc c1 = LevelRequired" "check_options c1 = None"
    by (simp_all add: default_prefetch_keeps)
  then have "config_error (cc_ttc (with_ano c1)) = None" by (simp add: with_ano_keeps flip: check_config)
  moreover have "\<exists>a. cf_ANO (cc_ttc (with_ano c1)) = Some a \<and> EncryptionLevel a = LevelRequired"
    using k by (auto simp: with_ano_def enc_level_def LevelRequired_def LevelRejected_def)
  ultimately show ?thesis by (simp add: c1(2))
qed

lemma parseOptions_checked:
  assumes "parseOptions env opts = Inr cc"
  shows "config_error (cc_ttc cc) = None"
proof -
  obtain c2 where c: "finish_options env c2 = Inr cc"
    using assms by (auto simp: parseOptions_def andThen_eq_Inr)
  then obtain c1 where c1: "with_tls env (default_prefetch (resolve_host c2)) = Inr c1" "cc = connConfig.truncate (with_ano c1)"
      "check_options (resolve_host c2) = None"
    by (auto simp: finish_options_def Let_def andThen_eq_Inr split: option.splits)
  then have "check_options c1 = None" using with_tls_keeps default_prefetch_keeps(4) by metis
  then show ?thesis by (simp add: c1(2) with_ano_keeps flip: check_config)
qed

lemma nne_setting:
  assumes "asc ''adbc.oracle.nne'' \<notin> {key_uri env, key_username env, key_password env}"
  shows "option_setting env (asc ''adbc.oracle.nne'') = Some SetNNE"
  using assms by (simp add: option_setting_def oracle_settings_def one_of_def del: asc_simps)

lemma required_level: "folded env v = asc ''required'' \<Longrightarrow> parseNNELevel env v = Inr LevelRequired"
  by (simp add: parseNNELevel_def one_of_def del: asc_simps)

text \<open>
  Property C7. An application that sets \<^verbatim>\<open>adbc.oracle.nne\<close> to \<^verbatim>\<open>required\<close> and uses no TLS never logs on in
  cleartext: from the option to the socket, whatever the other options, the server and the network do, the
  logon starts only over a transport that encrypts. Otherwise opening the connection fails, with the
  transport closed and nothing written after the connection phase.
\<close>

theorem required_encryption_enforced:
  assumes "parseOptions env opts = Inr cc" "distinct (map fst opts)"
    and "map_of opts (asc ''adbc.oracle.nne'') = Some v" "folded env v = asc ''required''"
    and "asc ''adbc.oracle.nne'' \<notin> {key_uri env, key_username env, key_password env}"
    and "cf_TLS (cc_ttc cc) = None" "Dial (cc_ttc cc) de z = Some (r, s)"
  shows "\<exists>r0 s0. try_addresses (Addresses (fillDefaults de (cc_ttc cc))) (Inr ()) (dial_start (cc_ttc cc) de z) = Some (r0, s0) \<and>
     (if isl r0 then r = r0 \<and> s = s0
      else if \<not> EncryptionActive (sec (tr s0)) then r = Inl NNENotNegotiated \<and> s = close_transport s0
      else r = Inl NNENotNegotiated \<and> s = close_transport s0 \<or>
        (\<exists>r1 s1. authenticate s0 = Some (r1, s1) \<and> r = map_sum DialErr id r1 \<and> (isl r \<longrightarrow> s = close_transport s1)))"
proof -
  obtain c1 c2 where c: "apply_options env opts c1 = Inr c2" "finish_options env c2 = Inr cc"
    using assms(1) by (auto simp: parseOptions_def andThen_eq_Inr)
  have st: "setter env SetNNE v = Inr (\<lambda>c. c\<lparr>nneEnc := LevelRequired, nneEncSet := True\<rparr>)"
    by (simp add: setter_def and_set_def required_level [OF assms(4)])
  have "written env opts SetNNE = Some (Num LevelRequired)"
    using written_lookup [OF assms(3) nne_setting [OF assms(5)] st] by simp
  moreover have "c2 = built (written env opts) c1"
    using apply_options_built [OF assms(2), of env "\<lambda>_. None" c1] c(1) by (auto simp: built_none split: if_splits)
  ultimately have "nneEncSet c2" "nneEnc c2 = LevelRequired" by (simp_all add: built_def)
  from finish_options_level [OF c(2) this] obtain a where a: "config_error (cc_ttc cc) = None" "cf_ANO (cc_ttc cc) = Some a"
      "EncryptionLevel a = LevelRequired" by blast
  from Dial_protects [OF assms(7) a(1,2) assms(6)] show ?thesis
    using a(3) unfolding protected_def by (metis (full_types))
qed

definition toy_dial_env :: dial_env where
  "toy_dial_env = \<lparr>de_dial = (\<lambda>_ _. None), de_tls = (\<lambda>_ _. None), de_executable = None, de_hostname = [],
     de_user = None, de_pid = 1, de_upper = ascii_upper_table, de_lower = ascii_lower_table, de_connectionID = [120],
     de_goos_oob = True, de_tcp_oob = True, de_sendOOB = True, de_anoRandom = (\<lambda>_. None), de_auth = toy_auth_env,
     de_dataTypes = []\<rparr>"

definition toy_options :: "(bytes \<times> bytes) list" where
  "toy_options = [(asc ''username'', [97]), (asc ''adbc.oracle.host'', [104]), (asc ''adbc.oracle.sid'', [115]),
     (asc ''adbc.oracle.nne'', asc ''required'')]"

lemma toy_folded: "folded toy_options_env (asc ''required'') = asc ''required''"
  by code_simp

lemma toy_parsed:
  "case parseOptions toy_options_env toy_options of Inl _ \<Rightarrow> False
    | Inr cc \<Rightarrow> cf_TLS (cc_ttc cc) = None \<and> Addresses (cc_ttc cc) = [\<lparr>Host = [104], Port = 0, Protocol = []\<rparr>]"
proof -
  have s: "option_setting toy_options_env (asc ''username'') = Some SetUser"
    "option_setting toy_options_env (asc ''adbc.oracle.host'') = Some SetHost"
    "option_setting toy_options_env (asc ''adbc.oracle.sid'') = Some SetSID"
    "option_setting toy_options_env (asc ''adbc.oracle.nne'') = Some SetNNE"
    by (simp_all add: option_setting_def oracle_settings_def one_of_def toy_options_env_def del: asc_simps)
  have u: "map_of toy_options (key_uri toy_options_env) = None"
    by (simp add: toy_options_def toy_options_env_def del: asc_simps)
  let ?set = "\<lambda>c. on_ttc (\<lambda>t. t\<lparr>SID := [115]\<rparr>) ((on_ttc (\<lambda>t. t\<lparr>Username := [97]\<rparr>) c)\<lparr>po_host := [104]\<rparr>)
    \<lparr>nneEnc := LevelRequired, nneEncSet := True\<rparr>"
  have a: "apply_options toy_options_env toy_options c = Inr (?set c)" for c
    by (simp add: s toy_options_def apply_setting_def setter_def and_set_def required_level [OF toy_folded] del: asc_simps)
  have t: "trim_space [] = []" by (simp add: trim_space_def)
  have r: "check_options (resolve_host (?set (parse_start toy_options_env))) = None"
    by (simp add: check_options_def resolve_host_def parse_start_def on_ttc_def)
  have p: "with_tls toy_options_env (default_prefetch (resolve_host (?set (parse_start toy_options_env))))
    = Inr (default_prefetch (resolve_host (?set (parse_start toy_options_env))))"
    by (simp add: with_tls_def default_prefetch_def resolve_host_def parse_start_def on_ttc_def)
  show ?thesis
    by (simp add: parseOptions_def u apply_connect_string_def t a finish_options_def Let_def r p with_ano_keeps default_prefetch_keeps)
      (simp add: resolve_host_def parse_start_def on_ttc_def)
qed

text \<open>The configuration of the example reaches a network that answers nothing.\<close>

lemma toy_dial:
  fixes z :: dialing
  assumes "Addresses c = [\<lparr>Host = [104], Port = 0, Protocol = []\<rparr>]" "config_error c = None" "cf_TLS c = None"
  shows "\<exists>s. Dial c toy_dial_env z = Some (Inl (NotDialed \<lparr>Host = [104], Port = 1521, Protocol = asc ''tcp''\<rparr>), s)"
proof -
  have d: "run_state (dialTCP a) u = (Inl (NotDialed a), u\<lparr>dials := dials u + 1\<rparr>)"
    if "denv u = toy_dial_env" for a and u :: dialing
    using that by (simp add: dialTCP_def toy_dial_env_def throw_def)
  have a: "Addresses (cfg (dial_start c toy_dial_env z)) = [\<lparr>Host = [104], Port = 1521, Protocol = asc ''tcp''\<rparr>]"
    by (simp add: dial_start_def Let_def fillDefaults_def fill_address_def assms(1,3))
  have e: "denv (dial_start c toy_dial_env z) = toy_dial_env" by (simp add: dial_start_def Let_def)
  show ?thesis using a e assms(2) by (simp add: Dial_def Let_def try_address_def connectAddress_def d definitive_def)
qed

lemma not_DialErr: "Inl (NotDialed a) \<noteq> map_sum DialErr id r"
  by (cases r) simp_all

theorem required_encryption_enforced_witness:
  "\<forall>z :: dialing. case parseOptions toy_options_env toy_options of Inl _ \<Rightarrow> False
    | Inr cc \<Rightarrow> \<exists>r0 s0. try_addresses (Addresses (fillDefaults toy_dial_env (cc_ttc cc))) (Inr ())
        (dial_start (cc_ttc cc) toy_dial_env z) = Some (r0, s0) \<and> isl r0"
proof
  fix z :: dialing
  obtain cc where c: "parseOptions toy_options_env toy_options = Inr cc" "cf_TLS (cc_ttc cc) = None"
      "Addresses (cc_ttc cc) = [\<lparr>Host = [104], Port = 0, Protocol = []\<rparr>]"
    using toy_parsed by (auto split: sum.splits)
  have "config_error (cc_ttc cc) = None" using parseOptions_checked [OF c(1)] .
  from toy_dial [OF c(3) this c(2)] obtain s where
    D: "Dial (cc_ttc cc) toy_dial_env z = Some (Inl (NotDialed \<lparr>Host = [104], Port = 1521, Protocol = asc ''tcp''\<rparr>), s)" by blast
  have k: "distinct (map fst toy_options)" "map_of toy_options (asc ''adbc.oracle.nne'') = Some (asc ''required'')"
      "asc ''adbc.oracle.nne'' \<notin> {key_uri toy_options_env, key_username toy_options_env, key_password toy_options_env}"
    by (simp_all add: toy_options_def toy_options_env_def del: asc_simps)
  from required_encryption_enforced [OF c(1) k(1,2) toy_folded k(3) c(2) D] c(1) show
    "case parseOptions toy_options_env toy_options of Inl _ \<Rightarrow> False
      | Inr cc \<Rightarrow> \<exists>r0 s0. try_addresses (Addresses (fillDefaults toy_dial_env (cc_ttc cc))) (Inr ())
          (dial_start (cc_ttc cc) toy_dial_env z) = Some (r0, s0) \<and> isl r0"
    using c(1) not_DialErr by (auto split: if_splits)
qed

end
