(* ===== verification/AdbcConv.thy ===== *)
theory AdbcConv
  imports AdbcOptions Number Date Interval Floats Oson
begin

text \<open>
  \<^verbatim>\<open>driver/oracle/errors.go\<close> and the reading half of \<^verbatim>\<open>arrow_conv.go\<close>: server errors as ADBC statuses, the
  Arrow type of a described column and the value of the column's wire bytes. The Arrow library and Go's
  floating-point parser are the parameters in \<open>conv_env\<close>; \<open>json_fuel\<close> bounds the nesting of a JSON value.
\<close>

lemma map_sum_eq_Inr: "map_sum f g r = Inr y \<longleftrightarrow> (\<exists>x. r = Inr x \<and> y = g x)"
  by (cases r) auto

subsection \<open>Errors\<close>

definition statusForORA :: "int \<Rightarrow> adbc_status" where
  "statusForORA code =
     (if code \<in> {942, 4043, 1418, 2289, 1435, 4080, 2443, 12514, 12505} then StatusNotFound
      else if code \<in> {955, 1430, 1408, 2264, 2275, 2260, 2261} then StatusAlreadyExists
      else if code \<in> {1017, 28000, 28001, 1005, 1045} then StatusUnauthenticated
      else if code \<in> {1031, 1950, 2004, 1932} then StatusUnauthorized
      else if code \<in> {1, 1400, 1407, 1438, 2290, 2291, 2292, 2293, 2296, 2297, 2299, 12899} then StatusIntegrity
      else if code = 1013 then StatusCancelled
      else if code \<in> {3113, 3114, 12170, 12541, 12537, 12571, 12570, 12572, 12583, 2396, 1012, 28} then StatusIO
      else if 900 \<le> code \<and> code \<le> 999 then StatusInvalidArgument
      else if 1700 \<le> code \<and> code \<le> 1799 then StatusInvalidArgument
      else StatusInternal)"

text \<open>The errors of a context, and what a sink may report: an error with a status or another one.\<close>

definition ctx_Canceled :: ttc_error where "ctx_Canceled = Msg ''context canceled''"
definition ctx_DeadlineExceeded :: ttc_error where "ctx_DeadlineExceeded = Msg ''context deadline exceeded''"

datatype go_error = AdbcErr adbc_error | PlainErr string

definition plain_status :: "string \<Rightarrow> adbc_error" where
  "plain_status m = errStatus StatusInternal m"

text \<open>What \<open>errors.Is\<close> and \<open>errors.As\<close> find: the wrapped error of a cancelled call.\<close>

fun unwrapped :: "ttc_error \<Rightarrow> ttc_error" where
  "unwrapped (Cancelled e _) = unwrapped e"
| "unwrapped e = e"

definition fromTTCError :: "adbc_error option \<Rightarrow> ttc_error \<Rightarrow> adbc_error" where
  "fromTTCError sinkErr e0 =
     (let e = unwrapped e0 in
      case (e, sinkErr) of
        (SinkErr _, Some ae) \<Rightarrow> ae
      | _ \<Rightarrow>
        (case AsError e of Some oe \<Rightarrow> AdbcError (statusForORA (Code oe)) ''server error'' (int32_of (Code oe))
         | None \<Rightarrow>
           if e = TnsErr ErrConnectionClosed then errStatus StatusIO ''connection closed''
           else if e = ctx_Canceled then errStatus StatusCancelled ''cancelled''
           else if e = ctx_DeadlineExceeded \<or> e = TnsErr SocketTimeout then errStatus StatusTimeout ''timeout''
           else if e = Panicked then AdbcPanic
           else plain_status ''error''))"

subsection \<open>Arrow types\<close>

datatype time_unit = UnitSecond | UnitMillisecond | UnitMicrosecond | UnitNanosecond

datatype arrow_type = NullType | BooleanType | Int8Type | Int16Type | Int32Type | Int64Type | Uint8Type | Uint16Type
  | Uint32Type | Uint64Type | Float16Type | Float32Type | Float64Type | Decimal128Type int int | Decimal256Type int int
  | StringType | StringViewType | LargeStringType | BinaryType | BinaryViewType | LargeBinaryType | FixedSizeBinaryType int
  | Date32Type | Date64Type | TimestampType time_unit bytes | MonthDayNanoIntervalType | DurationType time_unit
  | ListType | LargeListType | ListViewType | FixedSizeListType | StructType | MapType | OtherArrowType

record arrow_field =
  fd_Name :: bytes
  fd_Type :: arrow_type
  fd_Nullable :: bool
  fd_Metadata :: "(bytes \<times> bytes) list"

text \<open>
  A value: integers of any width, decimals by their unscaled value, floats by their bits, times and
  durations in their unit, and nested values by what \<^verbatim>\<open>json.Marshal\<close> makes of them.
\<close>

datatype arrow_value = VBool bool | VInt int | VFloat16 u16 | VFloat32 u32 | VFloat64 u64 | VDecimal int | VString bytes
  | VBinary bytes | VDate int | VTimestamp int | VDuration int | VInterval int int int | VNested "bytes option"

definition unit_nanos :: "time_unit \<Rightarrow> int" where
  "unit_nanos u = (case u of UnitSecond \<Rightarrow> 1000000000 | UnitMillisecond \<Rightarrow> 1000000 | UnitMicrosecond \<Rightarrow> 1000 | UnitNanosecond \<Rightarrow> 1)"

definition numberArrowType :: "column \<Rightarrow> bytes \<Rightarrow> arrow_type" where
  "numberArrowType c mode =
     (let p = Precision c; s = Scale c; fits = (0 < p \<and> p \<le> 38 \<and> 0 \<le> s \<and> s \<le> p) in
      if mode = NumberModeString then StringType
      else if mode = NumberModeDouble then Float64Type
      else if mode = NumberModeDecimal then
        (if fits then Decimal128Type p s else if p = 0 \<and> s = 0 then Decimal128Type 38 0 else Decimal128Type 38 10)
      else if 0 < p \<and> s = 0 \<and> p \<le> 18 then Int64Type
      else if fits then Decimal128Type p s
      else Float64Type)"

definition timestampUnit :: "int \<Rightarrow> time_unit" where
  "timestampUnit scale = (if scale \<le> 0 then UnitSecond else if scale \<le> 3 then UnitMillisecond
     else if scale \<le> 6 then UnitMicrosecond else UnitNanosecond)"

datatype objectKind = objectJSON | objectXML | objectGeometry

definition objectKindFor :: "column \<Rightarrow> objectKind" where
  "objectKindFor c =
     (if ObjectTypeSchema c = asc ''SYS'' \<and> ObjectTypeName c = asc ''XMLTYPE'' then objectXML
      else if ObjectTypeSchema c = asc ''MDSYS'' \<and> ObjectTypeName c = asc ''SDO_GEOMETRY'' then objectGeometry
      else objectJSON)"

definition extension :: "string \<Rightarrow> string \<Rightarrow> (bytes \<times> bytes) list" where
  "extension name md = [(asc ''ARROW:extension:name'', asc name), (asc ''ARROW:extension:metadata'', asc md)]"

definition objectArrowType :: "column \<Rightarrow> bool \<Rightarrow> arrow_type \<times> (bytes \<times> bytes) list" where
  "objectArrowType c useExt =
     (case objectKindFor c of
        objectXML \<Rightarrow> (StringType, if useExt then
          extension ''arrow.opaque'' (''{'' @ [CHR 0x22] @ ''type_name'' @ [CHR 0x22] @ '':'' @ [CHR 0x22] @ ''XMLTYPE'' @ [CHR 0x22] @
            '','' @ [CHR 0x22] @ ''vendor_name'' @ [CHR 0x22] @ '':'' @ [CHR 0x22] @ ''Oracle Database'' @ [CHR 0x22] @ ''}'') else [])
      | objectGeometry \<Rightarrow> (BinaryType, if useExt then extension ''geoarrow.wkb'' ''{}'' else [])
      | objectJSON \<Rightarrow> (StringType, if useExt then extension ''arrow.json'' '''' else []))"

definition not_implemented :: "string \<Rightarrow> adbc_error" where
  "not_implemented m = errStatus StatusNotImplemented m"

definition string_types :: "u8 list" where
  "string_types = [TypeVarchar, TypeChar, TypeLong, TypeClob, TypeRowid, TypeURowid, TypeJSON]"

definition arrowTypeFor :: "column \<Rightarrow> typeOptions \<Rightarrow> adbc_error + arrow_type" where
  "arrowTypeFor c opts =
     (let t = OraTypeNum c in
      if t = TypeNumber then Inr (numberArrowType c (numberMode opts))
      else if t = TypeBinaryInteger then Inr Int64Type
      else if t = TypeBinaryFloat then Inr Float32Type
      else if t = TypeBinaryDouble then Inr Float64Type
      else if t \<in> set string_types then Inr StringType
      else if t \<in> {TypeRaw, TypeLongRaw, TypeBlob} then Inr BinaryType
      else if t = TypeDate then Inr (if dateMode opts = DateModeDate32 then Date32Type else TimestampType UnitSecond [])
      else if t = TypeTimestamp then Inr (TimestampType (timestampUnit (Scale c)) [])
      else if t \<in> {TypeTimestampTZ, TypeTimestampLTZ} then Inr (TimestampType (timestampUnit (Scale c)) (asc ''UTC''))
      else if t = TypeIntervalDS then
        Inr (if intervalMode opts = IntervalModeDuration then DurationType (timestampUnit (Scale c))
          else if intervalMode opts = IntervalModeString then StringType else MonthDayNanoIntervalType)
      else if t = TypeIntervalYM then
        Inr (if intervalMode opts = IntervalModeString then StringType else MonthDayNanoIntervalType)
      else if t = TypeBoolean then Inr BooleanType
      else if t = TypeVector then Inl (not_implemented ''VECTOR'')
      else if t = TypeObject then Inr (fst (objectArrowType c (useExtensionTypes opts)))
      else Inl (not_implemented ''type''))"

definition fieldMetadata :: "column \<Rightarrow> typeOptions \<Rightarrow> (bytes \<times> bytes) list" where
  "fieldMetadata c opts = (asc ''ORACLE:type'', TypeName c) #
     (if \<not> useExtensionTypes opts then []
      else if OraTypeNum c = TypeObject then snd (objectArrowType c True)
      else if OraTypeNum c = TypeJSON then extension ''arrow.json'' ''''
      else [])"

definition column_field :: "column \<Rightarrow> typeOptions \<Rightarrow> arrow_type \<Rightarrow> arrow_field" where
  "column_field c opts dt = \<lparr>fd_Name = Name c, fd_Type = dt, fd_Nullable = NullsAllowed c, fd_Metadata = fieldMetadata c opts\<rparr>"

definition schemaFor :: "column list \<Rightarrow> typeOptions \<Rightarrow> arrow_field list" where
  "schemaFor cols opts = map (\<lambda>c. column_field c opts (case arrowTypeFor c opts of Inl _ \<Rightarrow> StringType | Inr dt \<Rightarrow> dt)) cols"

fun ensure_fields :: "column list \<Rightarrow> typeOptions \<Rightarrow> adbc_error + arrow_field list" where
  "ensure_fields [] opts = Inr []"
| "ensure_fields (c # cs) opts = andThen (arrowTypeFor c opts) (\<lambda>dt.
     andThen (ensure_fields cs opts) (\<lambda>fs. Inr (column_field c opts dt # fs)))"

subsection \<open>Values of a column\<close>

record conv_env =
  ParseFloat :: "bytes \<Rightarrow> u64 option"
  decimal128_FromString :: "bytes \<Rightarrow> int \<Rightarrow> int \<Rightarrow> int option"
  float_text :: "float_bits \<Rightarrow> bytes"
  json_fuel :: nat

text \<open>The integer a double is, if it is one; the code converts \<open>2 ^ 63\<close> too, which wraps on amd64.\<close>

definition float_integer :: "u64 \<Rightarrow> int option" where
  "float_integer f =
     (let e = uint (drop_bit 52 f AND 0x7FF); m = uint (f AND 0xFFFFFFFFFFFFF);
          mant = (if e = 0 then m else m + 2 ^ 52); k = (if e = 0 then 1 else e) - 1075;
          sg = (if bit f 63 then - 1 else 1) in
      if e = 0x7FF then None
      else if k \<ge> 0 then Some (sg * mant * 2 ^ nat k)
      else if mant mod 2 ^ nat (- k) = 0 then Some (sg * (mant div 2 ^ nat (- k)))
      else None)"

definition invalid_data :: "string \<Rightarrow> go_error" where
  "invalid_data m = AdbcErr (errStatus StatusInvalidData m)"

definition number_int64 :: "conv_env \<Rightarrow> bytes \<Rightarrow> go_error + int" where
  "number_int64 env t =
     (case Atoi t of (n, err) \<Rightarrow>
        if \<not> err then Inr n
        else case Option.bind (ParseFloat env t) float_integer of
            Some v \<Rightarrow> if v > 2 ^ 63 \<or> v < - (2 ^ 63) then Inl (invalid_data ''does not fit in int64'') else Inr (int64_of v)
          | None \<Rightarrow> Inl (invalid_data ''does not fit in int64''))"

definition number_value :: "conv_env \<Rightarrow> arrow_type \<Rightarrow> decoded_number \<Rightarrow> go_error + arrow_value" where
  "number_value env ty d =
     (case ty of
        Int64Type \<Rightarrow> map_sum id VInt (number_int64 env (Text d))
      | Float64Type \<Rightarrow>
          if IsMaxNegativeValue d then Inr (VFloat64 0xDA17A2ECC414A03F)
          else (case ParseFloat env (Text d) of None \<Rightarrow> Inl (invalid_data ''cannot parse number'') | Some f \<Rightarrow> Inr (VFloat64 f))
      | Decimal128Type p s \<Rightarrow>
          (case decimal128_FromString env (Text d) p s of None \<Rightarrow> Inl (invalid_data ''does not fit decimal'') | Some v \<Rightarrow> Inr (VDecimal v))
      | _ \<Rightarrow> Inr (VString (if IsMaxNegativeValue d then asc ''-1E+126'' else Text d)))"

text \<open>\<open>%0kd\<close>: zeros between the sign and the digits up to the width.\<close>

definition pad_int :: "nat \<Rightarrow> int \<Rightarrow> string" where
  "pad_int k i = (let d = dec_nat (nat \<bar>i\<bar>); sg = (if i < 0 then ''-'' else '''') in
     sg @ replicate (k - length sg - length d) CHR ''0'' @ d)"

definition abs32 :: "int \<Rightarrow> int" where
  "abs32 x = (if x < 0 then int32_of (- x) else x)"

definition trim_right :: "char \<Rightarrow> string \<Rightarrow> string" where
  "trim_right c s = rev (dropWhile (\<lambda>x. x = c) (rev s))"

definition isoIntervalDS :: "intervalDS \<Rightarrow> bytes" where
  "isoIntervalDS v =
     (let neg = (Days v < 0 \<or> Hours v < 0 \<or> Minutes v < 0 \<or> Seconds v < 0 \<or> Nanos v < 0);
          part = (\<lambda>x u. if x \<noteq> 0 then dec_int (abs32 x) @ u else '''') in
      asc ((if neg then ''-'' else '''') @ ''P'' @ part (Days v) ''D'' @ ''T'' @ part (Hours v) ''H'' @ part (Minutes v) ''M'' @
        (if Nanos v \<noteq> 0 then
           trim_right (CHR ''.'') (trim_right (CHR ''0'') (dec_int (abs32 (Seconds v)) @ ''.'' @ pad_int 9 (abs32 (Nanos v)))) @ ''S''
         else dec_int (abs32 (Seconds v)) @ ''S'')))"

definition isoIntervalYM :: "intervalYM \<Rightarrow> bytes" where
  "isoIntervalYM v = asc (''P'' @ dec_int (Years v) @ ''Y'' @ dec_int (Months v) @ ''M'')"

text \<open>The time of day of an interval, and the whole interval, in nanoseconds.\<close>

definition intervalDS_nanos :: "intervalDS \<Rightarrow> int" where
  "intervalDS_nanos v =
     int64_of (Hours v * 3600000000000 + Minutes v * 60000000000 + Seconds v * 1000000000 + Nanos v)"

definition duration_nanos :: "intervalDS \<Rightarrow> int" where
  "duration_nanos v = int64_of (Days v * 86400000000000 + intervalDS_nanos v)"

definition decoded :: "string \<Rightarrow> 'e + 'a \<Rightarrow> go_error + 'a" where
  "decoded m r = map_sum (\<lambda>_. PlainErr m) id r"

text \<open>A Go panic while a value is appended: of a decoder, or of a type assertion.\<close>

definition panicked :: "go_error + 'a" where
  "panicked = Inl (AdbcErr AdbcPanic)"

definition decode_number :: "bytes \<Rightarrow> go_error + decoded_number" where
  "decode_number b = (case DecodeNumber b of Inl e \<Rightarrow> if e = NumPanic then panicked else Inl (PlainErr ''number'') | Inr d \<Rightarrow> Inr d)"

definition decode_date :: "bytes \<Rightarrow> go_error + odate" where
  "decode_date b = (case DecodeDate b of Inl e \<Rightarrow> if e = DatePanic then panicked else Inl (PlainErr ''date'') | Inr d \<Rightarrow> Inr d)"

definition timestamp_value :: "time_unit \<Rightarrow> odate \<Rightarrow> int" where
  "timestamp_value u d = (if u = UnitSecond then Unix d else go_div (UnixNanos d) (unit_nanos u))"

definition date32_value :: "odate \<Rightarrow> int" where
  "date32_value d = int32_of (go_div (Unix d) 86400)"

text \<open>
  \<open>makeAppender\<close> and the function it makes: \<open>ty\<close> is the type of the builder. A builder of another type than
  the code asserts is a panic.
\<close>

definition unsupported :: "go_error + 'a" where
  "unsupported = Inl (AdbcErr (not_implemented ''type''))"

definition asserted :: "bool \<Rightarrow> go_error + 'a \<Rightarrow> go_error + 'a" where
  "asserted holds r = (if holds then r else panicked)"

definition append_number :: "conv_env \<Rightarrow> arrow_type \<Rightarrow> bytes \<Rightarrow> go_error + arrow_value" where
  "append_number env ty b =
     (case ty of Int64Type \<Rightarrow> andThen (decode_number b) (number_value env ty)
      | Float64Type \<Rightarrow> andThen (decode_number b) (number_value env ty)
      | Decimal128Type _ _ \<Rightarrow> andThen (decode_number b) (number_value env ty)
      | StringType \<Rightarrow> andThen (decode_number b) (number_value env ty)
      | _ \<Rightarrow> unsupported)"

definition append_json :: "conv_env \<Rightarrow> bytes \<Rightarrow> go_error + arrow_value" where
  "append_json env b =
     (case DecodeOSONToJSON (json_fuel env) (float_text env) b of
        Inl e \<Rightarrow> if e \<in> {OsonPanic, OsonFuel, OsonNumber NumPanic, OsonDate DatePanic} then panicked else Inl (invalid_data ''JSON'')
      | Inr j \<Rightarrow> Inr (VString j))"

definition append_date :: "arrow_type \<Rightarrow> bytes \<Rightarrow> go_error + arrow_value" where
  "append_date ty b =
     (case ty of
        Date32Type \<Rightarrow> map_sum id (\<lambda>d. VDate (date32_value d)) (decode_date b)
      | TimestampType u _ \<Rightarrow> map_sum id (\<lambda>d. VTimestamp (timestamp_value u d)) (decode_date b)
      | _ \<Rightarrow> panicked)"

definition append_intervalDS :: "arrow_type \<Rightarrow> bytes \<Rightarrow> go_error + arrow_value" where
  "append_intervalDS ty b =
     (let v = decoded ''interval'' (DecodeIntervalDS b) in
      case ty of
        DurationType u \<Rightarrow> map_sum id (\<lambda>v. VDuration (go_div (duration_nanos v) (unit_nanos u))) v
      | StringType \<Rightarrow> map_sum id (\<lambda>v. VString (isoIntervalDS v)) v
      | MonthDayNanoIntervalType \<Rightarrow> map_sum id (\<lambda>v. VInterval 0 (Days v) (intervalDS_nanos v)) v
      | _ \<Rightarrow> panicked)"

definition append_intervalYM :: "arrow_type \<Rightarrow> bytes \<Rightarrow> go_error + arrow_value" where
  "append_intervalYM ty b =
     (let v = decoded ''interval'' (DecodeIntervalYM b) in
      case ty of
        StringType \<Rightarrow> map_sum id (\<lambda>v. VString (isoIntervalYM v)) v
      | MonthDayNanoIntervalType \<Rightarrow> map_sum id (\<lambda>v. VInterval (int32_of (Years v * 12 + Months v)) 0 0) v
      | _ \<Rightarrow> panicked)"

definition append_value :: "conv_env \<Rightarrow> column \<Rightarrow> arrow_type \<Rightarrow> bytes \<Rightarrow> go_error + arrow_value" where
  "append_value env c ty b =
     (let t = FetchType c in
      if t \<in> {TypeNumber, TypeBinaryInteger} then append_number env ty b
      else if t = TypeBinaryFloat then asserted (ty = Float32Type) (map_sum id VFloat32 (decoded ''float'' (DecodeBinaryFloat b)))
      else if t = TypeBinaryDouble then asserted (ty = Float64Type) (map_sum id VFloat64 (decoded ''double'' (DecodeBinaryDouble b)))
      else if t \<in> {TypeVarchar, TypeChar, TypeLong, TypeRowid, TypeURowid} then asserted (ty = StringType) (Inr (VString b))
      else if t = TypeJSON then asserted (ty = StringType) (append_json env b)
      else if t \<in> {TypeRaw, TypeLongRaw} then asserted (ty = BinaryType) (Inr (VBinary b))
      else if t \<in> {TypeDate, TypeTimestamp, TypeTimestampTZ, TypeTimestampLTZ} then append_date ty b
      else if t = TypeIntervalDS then append_intervalDS ty b
      else if t = TypeIntervalYM then append_intervalYM ty b
      else if t = TypeBoolean then asserted (ty = BooleanType) (Inr (VBool (b \<noteq> [] \<and> hd b = 1)))
      else unsupported)"

end
