(* ===== verification/AdbcJson.thy ===== *)
theory AdbcJson
  imports AdbcConv ObjType TtcLob
begin

text \<open>
  \<^verbatim>\<open>driver/oracle/objects.go\<close>, the JSON rendering of decoded objects. Reading a LOB is a call on the
  connection, whose state is \<open>'s\<close>; a call that never returns is \<open>None\<close>. The formatting of floating-point
  numbers (\<^verbatim>\<open>strconv.AppendFloat\<close>) is the field \<open>json_float\<close>.
\<close>

record 's object_env =
  json_float :: "float_bits \<Rightarrow> bytes"
  oe_conv :: conv_env
  read_lob :: "bytes \<Rightarrow> bool \<Rightarrow> bool \<Rightarrow> 's \<Rightarrow> ((ttc_error + bytes) \<times> 's) option"
  oe_query :: "'s query"

subsection \<open>Results\<close>

text \<open>A call on the connection returns an error or a value, with the state after it, or never.\<close>

datatype object_error = ObjectText string | ObjectCall ttc_error | ObjectPanic

type_synonym ('s, 'a) object_op = "'s \<Rightarrow> ((object_error + 'a) \<times> 's) option"

definition returnO :: "'a \<Rightarrow> ('s, 'a) object_op" where
  "returnO x s = Some (Inr x, s)"

definition failO :: "object_error \<Rightarrow> ('s, 'a) object_op" where
  "failO e s = Some (Inl e, s)"

definition bindO :: "('s, 'a) object_op \<Rightarrow> ('a \<Rightarrow> ('s, 'b) object_op) \<Rightarrow> ('s, 'b) object_op" where
  "bindO m f s = Option.bind (m s) (\<lambda>(r, s). case r of Inl e \<Rightarrow> Some (Inl e, s) | Inr x \<Rightarrow> f x s)"

definition liftO :: "object_error + 'a \<Rightarrow> ('s, 'a) object_op" where
  "liftO r s = Some (r, s)"

subsection \<open>Scalars\<close>

definition hex_low :: "u8 \<Rightarrow> u8" where
  "hex_low v = (if v < 10 then v + 48 else v + 87)"

definition hex_encode :: "bytes \<Rightarrow> bytes" where
  "hex_encode b = concat (map (\<lambda>c. [hex_low (drop_bit 4 c), hex_low (c AND 0xf)]) b)"

definition json_escape :: "u8 \<Rightarrow> bytes" where
  "json_escape c =
     (if c = 34 \<or> c = 92 then [92, c]
      else if c = 10 then [92, 110]
      else if c = 13 then [92, 114]
      else if c = 9 then [92, 116]
      else if c < 0x20 then [92, 117, 48, 48, hex_low (drop_bit 4 c), hex_low (c AND 0xf)]
      else [c])"

definition json_string :: "bytes \<Rightarrow> bytes" where
  "json_string s = [34] @ concat (map json_escape s) @ [34]"

definition json_number_float :: "'s object_env \<Rightarrow> float_bits \<Rightarrow> bytes" where
  "json_number_float env f = (if not_finite f then asc ''null'' else json_float env f)"

definition civil_text :: "gotime \<Rightarrow> string" where
  "civil_text t =
     pad_int 4 (time_Year t) @ ''-'' @ pad_int 2 (time_Month t) @ ''-'' @ pad_int 2 (time_Day t) @ ''T'' @
     pad_int 2 (time_Hour t) @ '':'' @ pad_int 2 (time_Minute t) @ '':'' @ pad_int 2 (time_Second t)"

text \<open>The instant goes through \<open>UnixNanos\<close>; the length of the value decides about fraction and zone.\<close>

definition json_date :: "bytes \<Rightarrow> odate \<Rightarrow> bytes" where
  "json_date wire d =
     (let t = time_Unix 0 (UnixNanos d) in
      [34] @ asc (civil_text t) @
      (if length wire = 7 then [] else asc (''.'' @ pad_int 9 (gt_nsec t)) @ (if length wire \<ge> 13 then [90] else [])) @ [34])"

definition scalar_error :: "('e \<Rightarrow> bool) \<Rightarrow> 'e + 'a \<Rightarrow> object_error + 'a" where
  "scalar_error panic r = (case r of Inl e \<Rightarrow> Inl (if panic e then ObjectPanic else ObjectText ''value'') | Inr x \<Rightarrow> Inr x)"

definition json_scalar :: "'s object_env \<Rightarrow> AttrMeta \<Rightarrow> bytes \<Rightarrow> object_error + bytes" where
  "json_scalar env m wire =
     (let t = AttrType m in
      if t = TypeNumber then
        map_sum id (\<lambda>d. if IsMaxNegativeValue d then asc ''-1e126'' else Text d) (scalar_error (\<lambda>e. e = NumPanic) (DecodeNumber wire))
      else if t = TypeBinaryInteger then Inr (asc (dec_int (sint (of_be wire :: u32))))
      else if t = TypeBinaryFloat then
        map_sum id (\<lambda>f. json_number_float env (Float32 f)) (scalar_error (\<lambda>_. False) (DecodeBinaryFloat wire))
      else if t = TypeBinaryDouble then
        map_sum id (\<lambda>f. json_number_float env (Float64 f)) (scalar_error (\<lambda>_. False) (DecodeBinaryDouble wire))
      else if t = TypeBoolean then Inr (if list_ex (\<lambda>c. c \<noteq> 0) wire then asc ''true'' else asc ''false'')
      else if t \<in> {TypeVarchar, TypeChar, TypeLong} then
        Inr (json_string (if AttrCSForm m = CSFormNChar then DecodeUTF16BE wire else wire))
      else if t \<in> {TypeRaw, TypeLongRaw} then Inr (json_string (hex_encode wire))
      else if t \<in> {TypeDate, TypeTimestamp, TypeTimestampTZ, TypeTimestampLTZ} then
        map_sum id (json_date wire) (scalar_error (\<lambda>e. e = DatePanic) (DecodeDate wire))
      else if t = TypeIntervalDS then map_sum id (\<lambda>v. json_string (isoIntervalDS v)) (scalar_error (\<lambda>_. False) (DecodeIntervalDS wire))
      else if t = TypeIntervalYM then map_sum id (\<lambda>v. json_string (isoIntervalYM v)) (scalar_error (\<lambda>_. False) (DecodeIntervalYM wire))
      else if t = TypeJSON then
        scalar_error (\<lambda>e. e \<in> {OsonPanic, OsonFuel, OsonNumber NumPanic, OsonDate DatePanic})
          (DecodeOSONToJSON (json_fuel (oe_conv env)) (float_text (oe_conv env)) wire)
      else Inl (ObjectText ''type is not supported inside objects''))"

subsection \<open>Values\<close>

definition json_lob :: "'s object_env \<Rightarrow> AttrMeta \<Rightarrow> bytes \<Rightarrow> ('s, bytes) object_op" where
  "json_lob env m loc s =
     (let isChar = (AttrType m = TypeClob) in
      map_option (\<lambda>(r, s). (case r of Inl e \<Rightarrow> Inl (ObjectCall e)
          | Inr b \<Rightarrow> Inr (json_string (if isChar then b else hex_encode b)), s))
        (read_lob env loc isChar (AttrCSForm m = CSFormNChar) s))"

text \<open>
  \<open>value\<close> of the writer. The members of an object take their names from the attributes of its type and those
  of an indexed collection from its indexes; a member without one is an index out of range.
\<close>

fun json_value :: "'s object_env \<Rightarrow> ObjValue \<Rightarrow> ('s, bytes) object_op"
and json_members :: "'s object_env \<Rightarrow> bytes \<Rightarrow> bytes list \<Rightarrow> ObjValue list \<Rightarrow> ('s, bytes) object_op"
and json_items :: "'s object_env \<Rightarrow> bytes \<Rightarrow> ObjValue list \<Rightarrow> ('s, bytes) object_op" where
  "json_value env (ObjValue k m t wire fs es is) =
     (case k of
        KindNull \<Rightarrow> returnO (asc ''null'')
      | KindObject \<Rightarrow>
          bindO (json_members env [] (case t of None \<Rightarrow> [] | Some ty \<Rightarrow> map AttrName (Attrs ty)) fs)
            (\<lambda>b. returnO ([123] @ b @ [125]))
      | KindCollection \<Rightarrow>
          if is \<noteq> [] then bindO (json_members env [] (map (\<lambda>i. asc (dec_int i)) is) es) (\<lambda>b. returnO ([123] @ b @ [125]))
          else bindO (json_items env [] es) (\<lambda>b. returnO ([91] @ b @ [93]))
      | KindXMLString \<Rightarrow> returnO (json_string wire)
      | KindLOB \<Rightarrow> (case m of None \<Rightarrow> failO ObjectPanic | Some a \<Rightarrow> json_lob env a wire)
      | KindScalar \<Rightarrow> (case m of None \<Rightarrow> failO ObjectPanic | Some a \<Rightarrow> liftO (json_scalar env a wire)))"
| "json_members env sep ns [] = returnO []"
| "json_members env sep [] (v # vs) = failO ObjectPanic"
| "json_members env sep (n # ns) (v # vs) =
     bindO (json_value env v) (\<lambda>b. bindO (json_members env [44] ns vs) (\<lambda>rest.
       returnO (sep @ json_string n @ [58] @ b @ rest)))"
| "json_items env sep [] = returnO []"
| "json_items env sep (v # vs) =
     bindO (json_value env v) (\<lambda>b. bindO (json_items env [44] vs) (\<lambda>rest. returnO (sep @ b @ rest)))"

end
