(* ===== verification/AdbcGeometry.thy ===== *)
theory AdbcGeometry
  imports AdbcJson
begin

text \<open>
  \<^verbatim>\<open>driver/oracle/objects.go\<close>, \<^verbatim>\<open>sdoGeometryToWKB\<close>: from a decoded \<^verbatim>\<open>MDSYS.SDO_GEOMETRY\<close> value to WKB. Doubles are
  their bits; \<open>T\<close> is the folding of \<^verbatim>\<open>strings.EqualFold\<close> on runes.
\<close>

subsection \<open>Numbers and attributes\<close>

definition nan_bits :: u64 where "nan_bits = 0x7FF8000000000001"

text \<open>Go's \<open>int(f)\<close>: truncation; what does not fit is the smallest integer on amd64.\<close>

definition float_int :: "u64 \<Rightarrow> int" where
  "float_int f =
     (let e = uint (drop_bit 52 f AND 0x7FF); m = uint (f AND 0xFFFFFFFFFFFFF);
          mant = (if e = 0 then m else m + 2 ^ 52); k = (if e = 0 then 1 else e) - 1075;
          v = (if k \<ge> 0 then mant * 2 ^ nat k else mant div 2 ^ nat (- k));
          i = (if bit f 63 then - v else v) in
      if e = 0x7FF \<or> i < - (2 ^ 63) \<or> i \<ge> 2 ^ 63 then - (2 ^ 63) else i)"

text \<open>The zero \<open>Value\<close> stands for an attribute that is not there.\<close>

definition no_value :: ObjValue where
  "no_value = ObjValue KindNull None None [] [] [] []"

datatype wkb_error = WkbError | WkbPanic

text \<open>A number, whether there was one, and whether the text of the number is not a float.\<close>

definition numberOf :: "conv_env \<Rightarrow> ObjValue \<Rightarrow> wkb_error + (u64 \<times> bool \<times> bool)" where
  "numberOf env v =
     (if Kind v \<noteq> KindScalar then Inr (0, False, False)
      else case DecodeNumber (Raw v) of
        Inl e \<Rightarrow> if e = NumPanic then Inl WkbPanic else Inr (0, False, True)
      | Inr d \<Rightarrow> (case ParseFloat env (Text d) of None \<Rightarrow> Inr (0, True, True) | Some f \<Rightarrow> Inr (f, True, False)))"

fun find_attr :: "(nat \<Rightarrow> nat) \<Rightarrow> bytes \<Rightarrow> AttrMeta list \<Rightarrow> ObjValue list \<Rightarrow> wkb_error + ObjValue" where
  "find_attr T n [] vs = Inr no_value"
| "find_attr T n (a # as) vs =
     (if map_runes T (AttrName a) = map_runes T n then (case vs of v # _ \<Rightarrow> Inr v | [] \<Rightarrow> Inl WkbPanic)
      else find_attr T n as (tl vs))"

definition attrByName :: "(nat \<Rightarrow> nat) \<Rightarrow> ObjValue \<Rightarrow> string \<Rightarrow> wkb_error + ObjValue" where
  "attrByName T v n =
     (if Kind v \<noteq> KindObject then Inr no_value
      else find_attr T (asc n) (case Typ v of None \<Rightarrow> [] | Some t \<Rightarrow> Attrs t) (Fields v))"

fun number_list :: "conv_env \<Rightarrow> ObjValue list \<Rightarrow> wkb_error + u64 list" where
  "number_list env [] = Inr []"
| "number_list env (v # vs) =
     andThen (numberOf env v) (\<lambda>(f, found, err).
       if err then Inl WkbError
       else andThen (number_list env vs) (\<lambda>fs. Inr ((if found then f else nan_bits) # fs)))"

definition numberArray :: "conv_env \<Rightarrow> ObjValue \<Rightarrow> wkb_error + u64 list" where
  "numberArray env v = (if Kind v \<noteq> KindCollection then Inr [] else number_list env (Elements v))"

subsection \<open>The writer\<close>

definition wkbPoint :: u32 where "wkbPoint = 1"
definition wkbLineString :: u32 where "wkbLineString = 2"
definition wkbPolygon :: u32 where "wkbPolygon = 3"
definition wkbMultiPoint :: u32 where "wkbMultiPoint = 4"
definition wkbMultiLineString :: u32 where "wkbMultiLineString = 5"
definition wkbMultiPolygon :: u32 where "wkbMultiPolygon = 6"
definition wkbCollection :: u32 where "wkbCollection = 7"

definition le32 :: "u32 \<Rightarrow> bytes" where "le32 v = rev (be32 v)"
definition le64 :: "u64 \<Rightarrow> bytes" where "le64 v = rev (be64 v)"

definition typeCode :: "nat \<Rightarrow> u32 \<Rightarrow> u32" where
  "typeCode dims base = (if dims = 3 then base + 1000 else if dims = 4 then base + 3000 else base)"

definition wkb_header :: "nat \<Rightarrow> u32 \<Rightarrow> bytes" where
  "wkb_header dims base = 1 # le32 (typeCode dims base)"

definition wkb_count :: "nat \<Rightarrow> bytes" where
  "wkb_count n = le32 (word_of_nat n)"

definition wkb_coords :: "u64 list \<Rightarrow> bytes" where
  "wkb_coords fs = concat (map le64 fs)"

definition writePoint :: "nat \<Rightarrow> u64 list \<Rightarrow> wkb_error + bytes" where
  "writePoint dims c = (if length c < dims then Inl WkbPanic else Inr (wkb_header dims wkbPoint @ wkb_coords (take dims c)))"

definition writeRing :: "nat \<Rightarrow> u64 list \<Rightarrow> bytes" where
  "writeRing dims c = wkb_count (length c div dims) @ wkb_coords c"

subsection \<open>Elements\<close>

record element =
  el_offset :: int
  el_etype :: int
  el_interp :: int
  el_next :: int

fun elements_of :: "int list \<Rightarrow> int \<Rightarrow> element list" where
  "elements_of (p # t # i # rest) cnt =
     \<lparr>el_offset = p, el_etype = t, el_interp = i, el_next = (case rest of q # _ \<Rightarrow> q | [] \<Rightarrow> cnt + 1)\<rparr> # elements_of rest cnt"
| "elements_of _ cnt = []"

definition ordsOf :: "u64 list \<Rightarrow> element \<Rightarrow> u64 list" where
  "ordsOf ords e =
     (let start = el_offset e - 1; stop = el_next e - 1 in
      if start < 0 \<or> stop > int (length ords) \<or> start > stop then []
      else take (nat (stop - start)) (drop (nat start) ords))"

text \<open>A Go slice can be cut again up to its capacity: what follows the start of an element.\<close>

definition ords_reach :: "u64 list \<Rightarrow> element \<Rightarrow> u64 list" where
  "ords_reach ords e =
     (let start = el_offset e - 1; stop = el_next e - 1 in
      if start < 0 \<or> stop > int (length ords) \<or> start > stop then [] else drop (nat start) ords)"

text \<open>The coordinates of a polygon ring; a rectangle is expanded to five points.\<close>

definition ring :: "nat \<Rightarrow> u64 list \<Rightarrow> element \<Rightarrow> wkb_error + u64 list" where
  "ring dims ords e =
     (let c = ordsOf ords e in
      if el_interp e = 1 then Inr c
      else if el_interp e = 3 then
        (if length c < 2 * dims then Inl WkbError
         else
           let x1 = c ! 0; y1 = c ! 1; x2 = c ! dims; y2 = c ! (dims + 1); extra = take (dims - 2) (drop 2 c);
               pt = (\<lambda>x y. x # y # extra) in
           Inr (if el_etype e = 1003 then pt x1 y1 @ pt x2 y1 @ pt x2 y2 @ pt x1 y2 @ pt x1 y1
                else pt x1 y1 @ pt x1 y2 @ pt x2 y2 @ pt x2 y1 @ pt x1 y1))
      else Inl WkbError)"

definition writeLine :: "nat \<Rightarrow> u64 list \<Rightarrow> element \<Rightarrow> wkb_error + bytes" where
  "writeLine dims ords e =
     (if el_interp e \<noteq> 1 then Inl WkbError else Inr (wkb_header dims wkbLineString @ writeRing dims (ordsOf ords e)))"

fun sequenceE :: "('e + 'a) list \<Rightarrow> 'e + 'a list" where
  "sequenceE [] = Inr []"
| "sequenceE (r # rs) = andThen r (\<lambda>x. andThen (sequenceE rs) (\<lambda>xs. Inr (x # xs)))"

text \<open>An exterior ring and the interior rings that follow it; the rest of the elements.\<close>

definition interior :: "element \<Rightarrow> bool" where
  "interior e \<longleftrightarrow> el_etype e = 2003"

definition writePolygon :: "nat \<Rightarrow> u64 list \<Rightarrow> element list \<Rightarrow> wkb_error + (bytes \<times> element list)" where
  "writePolygon dims ords es =
     (case es of [] \<Rightarrow> Inl WkbPanic
      | e # rest \<Rightarrow>
        if el_etype e \<noteq> 1003 then Inl WkbError
        else andThen (sequenceE (map (ring dims ords) (e # takeWhile interior rest))) (\<lambda>rings.
          Inr (wkb_header dims wkbPolygon @ wkb_count (length rings) @ concat (map (writeRing dims) rings), dropWhile interior rest)))"

text \<open>The points of an element, \<open>dims\<close> ordinates each.\<close>

function points_of :: "nat \<Rightarrow> u64 list \<Rightarrow> u64 list list" where
  "points_of dims c = (if dims = 0 \<or> length c < dims then [] else take dims c # points_of dims (drop dims c))"
  by auto

termination
  by (relation "measure (\<lambda>(dims, c). length c)") auto

declare points_of.simps [simp del]

fun writePolygons :: "nat \<Rightarrow> nat \<Rightarrow> u64 list \<Rightarrow> element list \<Rightarrow> wkb_error + bytes" where
  "writePolygons n dims ords [] = Inr []"
| "writePolygons 0 dims ords (e # es) = Inl WkbPanic"
| "writePolygons (Suc n) dims ords (e # es) =
     andThen (writePolygon dims ords (e # es)) (\<lambda>(b, rest). andThen (writePolygons n dims ords rest) (\<lambda>bs. Inr (b @ bs)))"

definition collection_points :: "nat \<Rightarrow> u64 list \<Rightarrow> element \<Rightarrow> wkb_error + bytes" where
  "collection_points dims ords e =
     (let c = ordsOf ords e in
      if el_interp e > 1 then
        map_sum id (\<lambda>ps. wkb_header dims wkbMultiPoint @ wkb_count (length c div dims) @ concat ps)
          (sequenceE (map (writePoint dims) (points_of dims c)))
      else writePoint dims (ords_reach ords e))"

fun writeCollection :: "nat \<Rightarrow> nat \<Rightarrow> u64 list \<Rightarrow> element list \<Rightarrow> wkb_error + bytes" where
  "writeCollection n dims ords [] = Inr []"
| "writeCollection 0 dims ords (e # es) = Inl WkbPanic"
| "writeCollection (Suc n) dims ords (e # es) =
     (if el_etype e = 1 then
        andThen (collection_points dims ords e) (\<lambda>b. map_sum id ((@) b) (writeCollection n dims ords es))
      else if el_etype e = 2 then
        andThen (writeLine dims ords e) (\<lambda>b. map_sum id ((@) b) (writeCollection n dims ords es))
      else if el_etype e = 1003 then
        andThen (writePolygon dims ords (e # es)) (\<lambda>(b, rest). map_sum id ((@) b) (writeCollection n dims ords rest))
      else Inl WkbError)"

subsection \<open>Geometries\<close>

definition write_shape :: "nat \<Rightarrow> int \<Rightarrow> u64 list \<Rightarrow> element list \<Rightarrow> wkb_error + bytes" where
  "write_shape dims shape ords es =
     (if shape = 1 then
        (case es of [] \<Rightarrow> Inl WkbError
         | e # _ \<Rightarrow> if length (ordsOf ords e) < dims then Inl WkbError else writePoint dims (ordsOf ords e))
      else if shape = 2 then (case es of [] \<Rightarrow> Inl WkbError | e # _ \<Rightarrow> writeLine dims ords e)
      else if shape = 3 then
        (case es of [] \<Rightarrow> Inl WkbError | e # _ \<Rightarrow> map_sum id fst (writePolygon dims ords es))
      else if shape = 5 then
        (if list_ex (\<lambda>e. el_etype e \<noteq> 1) es then Inl WkbError
         else let ps = concat (map (\<lambda>e. points_of dims (ordsOf ords e)) es) in
           map_sum id (\<lambda>bs. wkb_header dims wkbMultiPoint @ wkb_count (length ps) @ concat bs) (sequenceE (map (writePoint dims) ps)))
      else if shape = 6 then
        map_sum id (\<lambda>bs. wkb_header dims wkbMultiLineString @ wkb_count (length es) @ concat bs) (sequenceE (map (writeLine dims ords) es))
      else if shape = 7 then
        map_sum id (\<lambda>b. wkb_header dims wkbMultiPolygon @ wkb_count (length (filter (\<lambda>e. el_etype e = 1003) es)) @ b)
          (writePolygons (length es) dims ords es)
      else if shape = 4 then
        map_sum id (\<lambda>b. wkb_header dims wkbCollection @ wkb_count (length (filter (\<lambda>e. el_etype e \<noteq> 2003) es)) @ b)
          (writeCollection (length es) dims ords es)
      else Inl WkbError)"

text \<open>The point representation; numbers that cannot be read are zero there.\<close>

definition optimised_point :: "(nat \<Rightarrow> nat) \<Rightarrow> conv_env \<Rightarrow> nat \<Rightarrow> ObjValue \<Rightarrow> wkb_error + bytes" where
  "optimised_point T env dims p =
     (let num = (\<lambda>n. andThen (attrByName T p n) (numberOf env)) in
      andThen (num ''X'') (\<lambda>(x, _, _). andThen (num ''Y'') (\<lambda>(y, _, _). andThen (num ''Z'') (\<lambda>(z, hasZ, _).
        Inr (if dims = 2 then wkb_header 2 wkbPoint @ wkb_coords [x, y]
             else wkb_header 3 wkbPoint @ wkb_coords [x, y, if hasZ then z else nan_bits])))))"

definition sdoGeometryToWKB :: "(nat \<Rightarrow> nat) \<Rightarrow> conv_env \<Rightarrow> ObjValue \<Rightarrow> wkb_error + bytes" where
  "sdoGeometryToWKB T env g =
     andThen (attrByName T g ''SDO_GTYPE'') (\<lambda>gt. andThen (numberOf env gt) (\<lambda>(gf, found, err).
       if err \<or> \<not> found then Inl WkbError
       else
         let gtype = float_int gf; dims = go_div gtype 1000; shape = go_mod gtype 100 in
         if dims < 2 \<or> dims > 4 then Inl WkbError
         else
           andThen (attrByName T g ''SDO_POINT'') (\<lambda>p. andThen (attrByName T g ''SDO_ELEM_INFO'') (\<lambda>ev.
           andThen (attrByName T g ''SDO_ORDINATES'') (\<lambda>ov. andThen (numberArray env ev) (\<lambda>elem.
           andThen (numberArray env ov) (\<lambda>ords.
             if Kind p = KindObject \<and> shape = 1 \<and> elem = [] then optimised_point T env (nat dims) p
             else if length elem mod 3 \<noteq> 0 then Inl WkbError
             else write_shape (nat dims) shape ords (elements_of (map float_int elem) (int (length ords))))))))))"

end
