(* ===== verification/AdbcSink.thy ===== *)
theory AdbcSink
  imports AdbcJson AdbcGeometry TtcConn
begin

text \<open>
  \<open>arrowSink\<close> of \<^verbatim>\<open>driver/oracle/arrow_conv.go\<close> and \<^verbatim>\<open>objects.go\<close>: the rows the wire layer delivers go into one
  builder per column. A builder is the list of its values. The images of object columns are buffered and decoded
  when a batch is made (\<open>flushObjects\<close>).
\<close>

subsection \<open>The state\<close>

record object_column =
  oc_col :: column
  oc_kind :: objectKind
  oc_entries :: "bytes option list"
  oc_typ :: "ObjectType option"

record arrow_sink =
  sk_opts :: typeOptions
  sk_schema :: "arrow_field list option"
  sk_columns :: "column list"
  sk_builders :: "arrow_value option list list"
  lastRaw :: "bytes list"
  lastNull :: "bool list"
  objects :: "object_column option list"
  sk_rows :: int
  sk_bytes :: int
  sk_err :: "go_error option"

definition newArrowSink :: "typeOptions \<Rightarrow> arrow_sink" where
  "newArrowSink opts =
     \<lparr>sk_opts = opts, sk_schema = None, sk_columns = [], sk_builders = [], lastRaw = [], lastNull = [], objects = [],
      sk_rows = 0, sk_bytes = 0, sk_err = None\<rparr>"

definition object_state :: "column \<Rightarrow> object_column option" where
  "object_state c =
     (if OraTypeNum c = TypeObject then Some \<lparr>oc_col = c, oc_kind = objectKindFor c, oc_entries = [], oc_typ = None\<rparr> else None)"

text \<open>\<open>ensure\<close> builds the schema and the builders from the columns of the statement, once.\<close>

definition sink_ensure :: "column list \<Rightarrow> arrow_sink \<Rightarrow> adbc_error + arrow_sink" where
  "sink_ensure cols s =
     (if sk_schema s \<noteq> None then Inr s
      else map_sum id (\<lambda>fs. s\<lparr>sk_schema := Some fs, sk_columns := cols, sk_builders := map (\<lambda>_. []) cols,
          lastRaw := map (\<lambda>_. []) cols, lastNull := map (\<lambda>_. False) cols, objects := map object_state cols\<rparr>)
        (ensure_fields cols (sk_opts s)))"

subsection \<open>The calls of the wire layer\<close>

definition builder_append :: "nat \<Rightarrow> arrow_value option \<Rightarrow> arrow_sink \<Rightarrow> arrow_sink" where
  "builder_append i v s = s\<lparr>sk_builders := (sk_builders s)[i := sk_builders s ! i @ [v]]\<rparr>"

definition entry_append :: "nat \<Rightarrow> object_column \<Rightarrow> bytes option \<Rightarrow> arrow_sink \<Rightarrow> arrow_sink" where
  "entry_append i oc e s = s\<lparr>objects := (objects s)[i := Some (oc\<lparr>oc_entries := oc_entries oc @ [e]\<rparr>)]\<rparr>"

definition column_type :: "arrow_sink \<Rightarrow> nat \<Rightarrow> arrow_type" where
  "column_type s i = (case sk_schema s of None \<Rightarrow> OtherArrowType | Some fs \<Rightarrow> fd_Type (fs ! i))"

text \<open>The appender of a column.\<close>

definition run_appender :: "conv_env \<Rightarrow> nat \<Rightarrow> bytes \<Rightarrow> arrow_sink \<Rightarrow> go_error + arrow_sink" where
  "run_appender env i b s =
     (if i \<ge> length (sk_columns s) then panicked
      else case objects s ! i of
        Some oc \<Rightarrow> Inr (entry_append i oc (Some b) s)
      | None \<Rightarrow> map_sum id (\<lambda>v. builder_append i (Some v) s) (append_value env (sk_columns s ! i) (column_type s i) b))"

definition note_bytes :: "bytes \<Rightarrow> arrow_sink \<Rightarrow> arrow_sink" where
  "note_bytes b s = s\<lparr>sk_bytes := sk_bytes s + int (length b) + 8\<rparr>"

definition sink_value :: "conv_env \<Rightarrow> nat \<Rightarrow> bytes \<Rightarrow> arrow_sink \<Rightarrow> go_error + arrow_sink" where
  "sink_value env i b s =
     map_sum id (\<lambda>s. (note_bytes b s)\<lparr>lastRaw := (lastRaw s)[i := b], lastNull := (lastNull s)[i := False]\<rparr>) (run_appender env i b s)"

definition sink_null :: "nat \<Rightarrow> arrow_sink \<Rightarrow> go_error + arrow_sink" where
  "sink_null i s =
     (if i \<ge> length (sk_columns s) then panicked
      else Inr ((case objects s ! i of Some oc \<Rightarrow> entry_append i oc None s | None \<Rightarrow> builder_append i None s)
        \<lparr>lastNull := (lastNull s)[i := True]\<rparr>))"

definition sink_duplicate :: "conv_env \<Rightarrow> nat \<Rightarrow> arrow_sink \<Rightarrow> go_error + arrow_sink" where
  "sink_duplicate env i s =
     (if i \<ge> length (sk_columns s) then panicked
      else if lastNull s ! i then sink_null i s
      else map_sum id (note_bytes (lastRaw s ! i)) (run_appender env i (lastRaw s ! i) s))"

text \<open>An error is kept and returned by every later call.\<close>

definition sink_call_with :: "column list \<Rightarrow> (arrow_sink \<Rightarrow> go_error + arrow_sink) \<Rightarrow> arrow_sink \<Rightarrow> go_error option \<times> arrow_sink" where
  "sink_call_with cols f s =
     (case sk_err s of Some e \<Rightarrow> (Some e, s)
      | None \<Rightarrow>
        (case andThen (map_sum AdbcErr id (sink_ensure cols s)) f of
           Inl e \<Rightarrow> (Some e, (case sink_ensure cols s of Inl _ \<Rightarrow> s | Inr s \<Rightarrow> s)\<lparr>sk_err := Some e\<rparr>)
         | Inr s \<Rightarrow> (None, s)))"

definition sink_step :: "conv_env \<Rightarrow> column list \<Rightarrow> sink_event \<Rightarrow> arrow_sink \<Rightarrow> go_error option \<times> arrow_sink" where
  "sink_step env cols ev s =
     (case ev of
        AppendValue i b \<Rightarrow> sink_call_with cols (sink_value env i b) s
      | AppendNull i \<Rightarrow> sink_call_with cols (sink_null i) s
      | AppendDuplicate i \<Rightarrow> sink_call_with cols (sink_duplicate env i) s
      | FinishRow \<Rightarrow> (sk_err s, s\<lparr>sk_rows := sk_rows s + 1\<rparr>))"

definition sink_run :: "conv_env \<Rightarrow> column list \<Rightarrow> sink_event list \<Rightarrow> arrow_sink \<Rightarrow> arrow_sink" where
  "sink_run env cols evs s = foldl (\<lambda>s ev. snd (sink_step env cols ev s)) s evs"

definition error_text :: "go_error \<Rightarrow> string" where
  "error_text e = (case e of AdbcErr (AdbcError _ m _) \<Rightarrow> m | AdbcErr AdbcPanic \<Rightarrow> ''panic'' | PlainErr m \<Rightarrow> m)"

text \<open>The sink as the wire layer sees it, from its state when the call began.\<close>

definition arrow_row_sink :: "conv_env \<Rightarrow> arrow_sink \<Rightarrow> row_sink" where
  "arrow_row_sink env s0 cols hist ev = map_option error_text (fst (sink_step env cols ev (sink_run env cols hist s0)))"

text \<open>The error with a status a sink reported, for \<open>fromTTCError\<close>.\<close>

definition sink_status :: "arrow_sink \<Rightarrow> adbc_error option" where
  "sink_status s = (case sk_err s of Some (AdbcErr e) \<Rightarrow> Some e | _ \<Rightarrow> None)"

subsection \<open>Batches\<close>

type_synonym batch = "arrow_value option list list"

definition batch_rows :: "batch \<Rightarrow> nat" where
  "batch_rows b = (case b of [] \<Rightarrow> 0 | c # _ \<Rightarrow> length c)"

definition newRecord :: "arrow_sink \<Rightarrow> batch \<times> arrow_sink" where
  "newRecord s = (sk_builders s, s\<lparr>sk_builders := map (\<lambda>_. []) (sk_builders s), sk_rows := 0, sk_bytes := 0\<rparr>)"

definition sink_release :: "arrow_sink \<Rightarrow> arrow_sink" where
  "sink_release s = s\<lparr>sk_schema := None\<rparr>"

subsection \<open>Object columns\<close>

record 'z flush_env =
  fe_objects :: "'z object_env"
  fe_fold :: "nat \<Rightarrow> nat"
  type_fuel :: nat

text \<open>The calls change the cache of types and the connection.\<close>

definition xmlText :: "'s object_env \<Rightarrow> ObjValue \<Rightarrow> ('s, bytes) object_op" where
  "xmlText env v s =
     (case Kind v of
        KindXMLString \<Rightarrow> Some (Inr (Raw v), s)
      | KindLOB \<Rightarrow> map_option (\<lambda>(r, s). (map_sum ObjectCall id r, s)) (read_lob env (Raw v) True False s)
      | _ \<Rightarrow> Some (Inr [], s))"

definition object_status :: "object_error \<Rightarrow> go_error" where
  "object_status e = (case e of ObjectPanic \<Rightarrow> AdbcErr AdbcPanic | _ \<Rightarrow> invalid_data ''object'')"

definition xml_status :: "object_error \<Rightarrow> go_error" where
  "xml_status e = (case e of ObjectPanic \<Rightarrow> AdbcErr AdbcPanic | ObjectCall t \<Rightarrow> AdbcErr (fromTTCError None t) | ObjectText m \<Rightarrow> PlainErr m)"

definition image_status :: "image_error \<Rightarrow> go_error" where
  "image_status e = (if panics e then AdbcErr AdbcPanic else invalid_data ''image'')"

definition appendObject :: "'s flush_env \<Rightarrow> object_column \<Rightarrow> bytes \<Rightarrow> 's \<Rightarrow> ((go_error + arrow_value) \<times> 's) option" where
  "appendObject env oc img s =
     (let oe = fe_objects env;
          decode = (case oc_typ oc of None \<Rightarrow> Inl ImagePanic | Some t \<Rightarrow> DecodeObjectImage t img) in
      case oc_kind oc of
        objectXML \<Rightarrow>
          (case DecodeXMLTypeImage img of Inl e \<Rightarrow> Some (Inl (image_status e), s)
           | Inr v \<Rightarrow> map_option (\<lambda>(r, s). (map_sum xml_status VString r, s)) (xmlText oe v s))
      | objectGeometry \<Rightarrow>
          (case decode of Inl e \<Rightarrow> Some (Inl (image_status e), s)
           | Inr v \<Rightarrow> Some (map_sum (\<lambda>e. if e = WkbPanic then AdbcErr AdbcPanic else invalid_data ''geometry'') VBinary
               (sdoGeometryToWKB (fe_fold env) (oe_conv oe) v), s))
      | objectJSON \<Rightarrow>
          (case decode of Inl e \<Rightarrow> Some (Inl (image_status e), s)
           | Inr v \<Rightarrow> map_option (\<lambda>(r, s). (map_sum object_status VString r, s)) (json_value oe v s)))"

fun append_entries :: "'s flush_env \<Rightarrow> object_column \<Rightarrow> bytes option list \<Rightarrow> 's \<Rightarrow> ((go_error + arrow_value option list) \<times> 's) option" where
  "append_entries env oc [] s = Some (Inr [], s)"
| "append_entries env oc (None # es) s =
     map_option (\<lambda>(r, s). (map_sum id ((#) None) r, s)) (append_entries env oc es s)"
| "append_entries env oc (Some b # es) s =
     Option.bind (appendObject env oc b s) (\<lambda>(r, s).
       case r of Inl e \<Rightarrow> Some (Inl e, s)
       | Inr v \<Rightarrow> map_option (\<lambda>(r, s). (map_sum id ((#) (Some v)) r, s)) (append_entries env oc es s))"

definition type_status :: "type_error \<Rightarrow> go_error" where
  "type_status e = AdbcErr (if e = DictPanic then AdbcPanic else plain_status ''object type'')"

definition resolve_type :: "'s flush_env \<Rightarrow> object_column \<Rightarrow> type_cache \<times> 's \<Rightarrow> ((go_error + object_column) \<times> type_cache \<times> 's) option" where
  "resolve_type env oc cs =
     (if oc_typ oc \<noteq> None \<or> oc_kind oc = objectXML then Some (Inr oc, cs)
      else map_option (\<lambda>(r, cs). (map_sum type_status (\<lambda>t. oc\<lparr>oc_typ := Some t\<rparr>) r, cs))
        (ObjectType_of (oe_query (fe_objects env)) (type_fuel env) (ObjectTypeSchema (oc_col oc)) (ObjectTypeName (oc_col oc)) cs))"

text \<open>One column, then all of them.\<close>

definition flush_column :: "'s flush_env \<Rightarrow> nat \<Rightarrow> object_column \<Rightarrow> arrow_sink \<Rightarrow> type_cache \<times> 's \<Rightarrow>
    ((go_error + arrow_sink) \<times> type_cache \<times> 's) option" where
  "flush_column env i oc sk cs =
     (if oc_entries oc = [] then Some (Inr sk, cs)
      else Option.bind (resolve_type env oc cs) (\<lambda>(r, c, s).
        case r of Inl e \<Rightarrow> Some (Inl e, c, s)
        | Inr oc \<Rightarrow> map_option (\<lambda>(r, s). (map_sum id (\<lambda>vs. sk\<lparr>sk_builders := (sk_builders sk)[i := sk_builders sk ! i @ vs],
              objects := (objects sk)[i := Some (oc\<lparr>oc_entries := []\<rparr>)]\<rparr>) r, c, s))
            (append_entries env oc (oc_entries oc) s)))"

fun flush_columns :: "'s flush_env \<Rightarrow> nat \<Rightarrow> object_column option list \<Rightarrow> arrow_sink \<Rightarrow> type_cache \<times> 's \<Rightarrow>
    ((go_error + arrow_sink) \<times> type_cache \<times> 's) option" where
  "flush_columns env i [] sk cs = Some (Inr sk, cs)"
| "flush_columns env i (None # ocs) sk cs = flush_columns env (i + 1) ocs sk cs"
| "flush_columns env i (Some oc # ocs) sk cs =
     Option.bind (flush_column env i oc sk cs) (\<lambda>(r, cs).
       case r of Inl e \<Rightarrow> Some (Inl e, cs) | Inr sk \<Rightarrow> flush_columns env (i + 1) ocs sk cs)"

definition flushObjects :: "'s flush_env \<Rightarrow> arrow_sink \<Rightarrow> type_cache \<times> 's \<Rightarrow> ((go_error + arrow_sink) \<times> type_cache \<times> 's) option" where
  "flushObjects env sk cs = flush_columns env 0 (objects sk) sk cs"

end
