(* ===== verification/AdbcReader.thy ===== *)
theory AdbcReader
  imports AdbcSink
begin

text \<open>
  \<^verbatim>\<open>driver/oracle/record_reader.go\<close>: batches of a query on demand. The statement of the reader takes the place of
  \<open>stm\<close> while a call runs. \<open>ctx\<close> gives for each call what the context's \<^verbatim>\<open>Err\<close> says before, between and after
  its round trips; \<open>slice_rows\<close> is the floating-point estimate of the rows that make up \<open>batchBytes\<close>.
\<close>

type_synonym ctx = "nat \<Rightarrow> ttc_error option \<times> ttc_error option \<times> ttc_error option"

record 'z reader_env =
  re_flush :: "'z flush_env"
  re_ctx :: ctx
  slice_rows :: "int \<Rightarrow> int \<Rightarrow> int \<Rightarrow> int"

record reader =
  rd_stmt :: statement
  rd_sink :: arrow_sink
  rd_batchSize :: int
  rd_batchBytes :: int
  rd_prefetchRows :: int
  rd_schema :: "arrow_field list option"
  pending :: "batch list"
  current_batch :: "batch option"
  rd_err :: "adbc_error option"
  rd_refs :: int
  rd_done :: bool
  rd_closed :: bool
  rd_calls :: nat

definition reader_conv :: "'s reader_env \<Rightarrow> conv_env" where
  "reader_conv env = oe_conv (fe_objects (re_flush env))"

definition newStreamingRecordReader :: "connConfig \<Rightarrow> statement \<Rightarrow> reader" where
  "newStreamingRecordReader c st =
     \<lparr>rd_stmt = st, rd_sink = newArrowSink (types c), rd_batchSize = batchSize c, rd_batchBytes = batchBytes c,
      rd_prefetchRows = cc_prefetchRows c, rd_schema = None, pending = [], current_batch = None, rd_err = None, rd_refs = 1,
      rd_done = False, rd_closed = False, rd_calls = 0\<rparr>"

text \<open>An error of the sink is an ADBC error when it has a status; others keep only their text.\<close>

definition go_status :: "go_error \<Rightarrow> adbc_error" where
  "go_status e = (case e of AdbcErr ae \<Rightarrow> ae | PlainErr m \<Rightarrow> plain_status m)"

subsection \<open>Closing\<close>

definition close_statement :: "statement \<Rightarrow> 'z exec_scheme \<Rightarrow> statement \<times> 'z exec_scheme" where
  "close_statement st s = (case run_state (Close_stmt st) s of (Inl _, s) \<Rightarrow> (st, s) | (Inr st, s) \<Rightarrow> (st, s))"

definition reader_close :: "reader \<Rightarrow> 'z exec_scheme \<Rightarrow> reader \<times> 'z exec_scheme" where
  "reader_close r s =
     (if rd_closed r then (r, s)
      else let (st, s) = close_statement (rd_stmt r) s in
        (r\<lparr>rd_closed := True, rd_sink := sink_release (rd_sink r), rd_stmt := st\<rparr>, s))"

definition reader_start :: "reader \<Rightarrow> adbc_error option \<times> reader" where
  "reader_start r =
     (case sink_ensure (columns (rd_stmt r)) (rd_sink r) of
        Inl e \<Rightarrow> (Some e, r)
      | Inr sk \<Rightarrow> (None, r\<lparr>rd_sink := sk, rd_schema := sk_schema sk\<rparr>))"

definition reader_abandon :: "reader \<Rightarrow> 'z exec_scheme \<Rightarrow> reader \<times> 'z exec_scheme" where
  "reader_abandon r s =
     (let (st, s) = close_statement (rd_stmt r) s in
      (r\<lparr>rd_sink := sink_release (rd_sink r), rd_stmt := st, rd_closed := True\<rparr>, s))"

definition reader_Retain :: "reader \<Rightarrow> reader" where
  "reader_Retain r = r\<lparr>rd_refs := rd_refs r + 1\<rparr>"

definition reader_Release :: "reader \<Rightarrow> 'z exec_scheme \<Rightarrow> reader \<times> 'z exec_scheme" where
  "reader_Release r s =
     (let r = r\<lparr>rd_refs := rd_refs r - 1\<rparr> in
      if rd_refs r \<noteq> 0 then (r, s) else reader_close (r\<lparr>current_batch := None, pending := []\<rparr>) s)"

definition reader_fail :: "adbc_error \<Rightarrow> reader \<Rightarrow> 'z exec_scheme \<Rightarrow> reader \<times> 'z exec_scheme" where
  "reader_fail e r s = reader_close (r\<lparr>rd_err := Some e\<rparr>) s"

subsection \<open>Fetching\<close>

text \<open>A call on the statement of the reader; the sink has taken what the call delivered.\<close>

definition reader_fetch :: "'e reader_env \<Rightarrow> int \<Rightarrow> reader \<Rightarrow> 'z exec_scheme \<Rightarrow>
    ((ttc_error + unit) \<times> reader \<times> 'z exec_scheme) option" where
  "reader_fetch env want r s =
     (let (before, between, after) = re_ctx env (rd_calls r) in
      map_option (\<lambda>(res, s). (res, r\<lparr>rd_stmt := stm s, rd_calls := rd_calls r + 1,
          rd_sink := sink_run (reader_conv env) (columns (stm s)) (delivered (dm s)) (rd_sink r)\<rparr>, s))
        (Fetch before between after (Some (arrow_row_sink (reader_conv env) (rd_sink r))) want (s\<lparr>stm := rd_stmt r, dm := new_data\<rparr>)))"

definition wants_more :: "reader \<Rightarrow> bool" where
  "wants_more r \<longleftrightarrow> sk_rows (rd_sink r) < rd_batchSize r \<and> moreRows (rd_stmt r) \<and>
     (rd_batchBytes r = 0 \<or> sk_bytes (rd_sink r) < rd_batchBytes r)"

text \<open>The loop of \<open>Next\<close>; \<open>Inl\<close> is the error that ends it.\<close>

partial_function (option) fetch_rows :: "'e reader_env \<Rightarrow> reader \<Rightarrow> 'z exec_scheme \<Rightarrow> ((adbc_error option) \<times> reader \<times> 'z exec_scheme) option" where
  "fetch_rows env r s =
     (if \<not> wants_more r then Some (None, r, s)
      else
        Option.bind (reader_fetch env (min (rd_batchSize r - sk_rows (rd_sink r)) (rd_prefetchRows r)) r s) (\<lambda>(res, r, s).
          case res of
            Inl e \<Rightarrow> Some (Some (fromTTCError (sink_status (rd_sink r)) e), r, s)
          | Inr _ \<Rightarrow> (case sk_err (rd_sink r) of Some e \<Rightarrow> Some (Some (go_status e), r, s) | None \<Rightarrow> fetch_rows env r s)))"

subsection \<open>Batches\<close>

text \<open>A batch larger than \<open>batchBytes\<close> is handed out in slices.\<close>

definition new_slice :: "batch \<Rightarrow> nat \<Rightarrow> nat \<Rightarrow> batch" where
  "new_slice b i j = map (\<lambda>c. take (j - i) (drop i c)) b"

function slices_from :: "nat \<Rightarrow> nat \<Rightarrow> batch \<Rightarrow> batch list" where
  "slices_from per i b =
     (if per = 0 \<or> i \<ge> batch_rows b then []
      else new_slice b i (min (i + per) (batch_rows b)) # slices_from per (i + per) b)"
  by auto

termination
  by (relation "measure (\<lambda>(per, i, b). batch_rows b - i)") auto

declare slices_from.simps [simp del]

definition split_batch :: "'e reader_env \<Rightarrow> int \<Rightarrow> int \<Rightarrow> batch \<Rightarrow> batch list" where
  "split_batch env limit nbytes b =
     (if limit > 0 \<and> nbytes > limit \<and> batch_rows b > 1 then
        (let per = slice_rows env (int (batch_rows b)) limit nbytes in slices_from (if per < 1 then 1 else nat per) 0 b)
      else [b])"

definition take_pending :: "reader \<Rightarrow> reader" where
  "take_pending r = (case pending r of [] \<Rightarrow> r | b # bs \<Rightarrow> r\<lparr>current_batch := Some b, pending := bs\<rparr>)"

text \<open>\<open>NewRecord\<close> of a record builder panics when its columns differ in length.\<close>

definition make_batch :: "'e reader_env \<Rightarrow> reader \<Rightarrow> bool \<times> reader" where
  "make_batch env r =
     (let (b, sk) = newRecord (rd_sink r) in
      if list_all (\<lambda>c. length c = batch_rows b) b then
        (True, take_pending (r\<lparr>rd_sink := sk, pending := split_batch env (rd_batchBytes r) (sk_bytes (rd_sink r)) b\<rparr>))
      else (False, r\<lparr>rd_err := Some AdbcPanic\<rparr>))"

definition reader_Next :: "'z exec_scheme reader_env \<Rightarrow> reader \<Rightarrow> type_cache \<times> 'z exec_scheme \<Rightarrow>
    (bool \<times> reader \<times> type_cache \<times> 'z exec_scheme) option" where
  "reader_Next env r0 = (\<lambda>(cache, s0).
     if rd_err r0 \<noteq> None \<or> rd_done r0 \<or> rd_closed r0 then Some (False, r0, cache, s0)
     else
       let r = r0\<lparr>current_batch := None\<rparr> in
       if pending r \<noteq> [] then Some (True, take_pending r, cache, s0)
       else Option.bind (fetch_rows env r s0) (\<lambda>(e, r, s).
         case e of Some e \<Rightarrow> (let (r, s) = reader_fail e r s in Some (False, r, cache, s))
         | None \<Rightarrow>
           if sk_rows (rd_sink r) = 0 then (let (r, s) = reader_close (r\<lparr>rd_done := True\<rparr>) s in Some (False, r, cache, s))
           else Option.bind (flushObjects (re_flush env) (rd_sink r) (cache, s)) (\<lambda>(f, cache, s).
             case f of Inl e \<Rightarrow> (let (r, s) = reader_fail (go_status e) r s in Some (False, r, cache, s))
             | Inr sk \<Rightarrow> (let (got, r) = make_batch env (r\<lparr>rd_sink := sk\<rparr>) in Some (got, r, cache, s)))))"

end
