(* ===== verification/AdbcReaderProps.thy ===== *)
theory AdbcReaderProps
  imports AdbcReader
begin

text \<open>
  Properties of the sink and the record reader: the builders hold the values of the rows with repeated values
  written out, and the batches of \<open>Next\<close> hand all of them out in order.
\<close>

subsection \<open>What the wire layer delivers\<close>

text \<open>
  The values of a column in a sequence of calls: a duplicate repeats the last value, which is \<open>l\<close> before the
  first call.
\<close>

fun wire_column :: "nat \<Rightarrow> bytes option \<Rightarrow> sink_event list \<Rightarrow> bytes option list" where
  "wire_column i l [] = []"
| "wire_column i l (AppendValue j b # evs) = (if j = i then Some b # wire_column i (Some b) evs else wire_column i l evs)"
| "wire_column i l (AppendNull j # evs) = (if j = i then None # wire_column i None evs else wire_column i l evs)"
| "wire_column i l (AppendDuplicate j # evs) = (if j = i then l # wire_column i l evs else wire_column i l evs)"
| "wire_column i l (FinishRow # evs) = wire_column i l evs"

definition last_cell :: "arrow_sink \<Rightarrow> nat \<Rightarrow> bytes option" where
  "last_cell s i = (if lastNull s ! i then None else Some (lastRaw s ! i))"

text \<open>The cell of a wire value, when the column accepts it.\<close>

definition cell_of :: "conv_env \<Rightarrow> arrow_sink \<Rightarrow> nat \<Rightarrow> bytes option \<Rightarrow> arrow_value option \<Rightarrow> bool" where
  "cell_of env s i w c \<longleftrightarrow>
     (case w of None \<Rightarrow> c = None
      | Some b \<Rightarrow> \<exists>v. append_value env (sk_columns s ! i) (column_type s i) b = Inr v \<and> c = Some v)"

definition sink_ready :: "arrow_sink \<Rightarrow> bool" where
  "sink_ready s \<longleftrightarrow> sk_schema s \<noteq> None \<and> sk_err s = None \<and> length (sk_builders s) = length (sk_columns s) \<and>
     length (lastRaw s) = length (sk_columns s) \<and> length (lastNull s) = length (sk_columns s) \<and> length (objects s) = length (sk_columns s)"

definition plain_column :: "arrow_sink \<Rightarrow> nat \<Rightarrow> bool" where
  "plain_column s i \<longleftrightarrow> i < length (sk_columns s) \<and> objects s ! i = None"

text \<open>What does not change while rows come in.\<close>

definition same_shape :: "arrow_sink \<Rightarrow> arrow_sink \<Rightarrow> bool" where
  "same_shape s s' \<longleftrightarrow> sk_schema s' = sk_schema s \<and> sk_columns s' = sk_columns s \<and> map (\<lambda>x. x = None) (objects s') = map (\<lambda>x. x = None) (objects s)"

lemma sink_call_ready: "sink_ready s \<Longrightarrow> sink_call_with cols f s = (case f s of Inl e \<Rightarrow> (Some e, s\<lparr>sk_err := Some e\<rparr>) | Inr s \<Rightarrow> (None, s))"
  by (simp add: sink_call_with_def sink_ready_def sink_ensure_def split: sum.split)

definition extends :: "conv_env \<Rightarrow> sink_event list \<Rightarrow> arrow_sink \<Rightarrow> arrow_sink \<Rightarrow> bool" where
  "extends env evs s s' \<longleftrightarrow> sink_ready s' \<and> same_shape s s' \<and>
     (\<forall>i. plain_column s i \<longrightarrow> last_cell s' i = List.last (last_cell s i # wire_column i (last_cell s i) evs) \<and>
        (\<exists>cs. list_all2 (cell_of env s i) (wire_column i (last_cell s i) evs) cs \<and> sk_builders s' ! i = sk_builders s ! i @ cs))"

lemma run_appender_cases:
  assumes "sink_ready s" "run_appender env j b s = Inr s'"
  shows "j < length (sk_columns s) \<and> sink_ready s' \<and> same_shape s s' \<and> lastRaw s' = lastRaw s \<and> lastNull s' = lastNull s \<and>
    (\<forall>i. plain_column s i \<longrightarrow> (if i = j then \<exists>cs. list_all2 (cell_of env s i) [Some b] cs \<and>
       sk_builders s' ! i = sk_builders s ! i @ cs else sk_builders s' ! i = sk_builders s ! i))"
proof (cases "objects s ! j")
  case None
  then obtain v where v: "j < length (sk_columns s)" "append_value env (sk_columns s ! j) (column_type s j) b = Inr v"
      "s' = builder_append j (Some v) s"
    using assms(2) by (auto simp: run_appender_def panicked_def map_sum_eq_Inr split: if_splits)
  have "\<exists>cs. list_all2 (cell_of env s j) [Some b] cs \<and> sk_builders s ! j @ [Some v] = sk_builders s ! j @ cs"
    using v(2) by (intro exI [where x = "[Some v]"]) (simp add: cell_of_def)
  then show ?thesis using v(1,3) assms(1)
    by (auto simp: builder_append_def sink_ready_def same_shape_def plain_column_def nth_list_update)
next
  case (Some oc)
  then have "j < length (sk_columns s)" "s' = entry_append j oc (Some b) s"
    using assms(2) by (auto simp: run_appender_def panicked_def split: if_splits)
  moreover from this assms(1) have "j < length (objects s)" by (simp add: sink_ready_def)
  then have "map (\<lambda>x. x = None) ((objects s)[j := Some (oc\<lparr>oc_entries := e\<rparr>)]) = map (\<lambda>x. x = None) (objects s)" for e
    using Some by (intro nth_equalityI) (auto simp: nth_list_update)
  ultimately show ?thesis using Some assms(1)
    by (auto simp: entry_append_def sink_ready_def same_shape_def plain_column_def)
qed

lemma extends_refl: "sink_ready s \<Longrightarrow> extends env [] s s"
  by (simp add: extends_def same_shape_def)

lemma sink_step_extends:
  assumes r: "sink_ready s" and e: "sk_err (snd (sink_step env cols ev s)) = None"
  shows "extends env [ev] s (snd (sink_step env cols ev s))"
proof (cases ev)
  case (AppendValue j b)
  obtain s1 where s1: "run_appender env j b s = Inr s1"
    using e AppendValue r by (cases "run_appender env j b s") (auto simp: sink_step_def sink_call_ready sink_value_def)
  note c = run_appender_cases [OF r s1]
  then show ?thesis
    using AppendValue r s1
    by (auto simp: extends_def sink_step_def sink_call_ready sink_value_def note_bytes_def sink_ready_def same_shape_def plain_column_def
        last_cell_def nth_list_update)
next
  case (AppendNull j)
  have j: "j < length (sk_columns s)" using e AppendNull r by (auto simp: sink_step_def sink_call_ready sink_null_def panicked_def split: if_splits)
  then show ?thesis
    using AppendNull r
    by (auto simp: extends_def sink_step_def sink_call_ready sink_null_def entry_append_def builder_append_def sink_ready_def same_shape_def
        plain_column_def last_cell_def cell_of_def nth_list_update split: option.split if_splits intro!: nth_equalityI)
next
  case (AppendDuplicate j)
  have j: "j < length (sk_columns s)"
    using e AppendDuplicate r by (auto simp: sink_step_def sink_call_ready sink_duplicate_def panicked_def split: if_splits)
  show ?thesis
  proof (cases "lastNull s ! j")
    case True
    then show ?thesis using j AppendDuplicate r
      by (auto simp: extends_def sink_step_def sink_call_ready sink_null_def sink_duplicate_def entry_append_def builder_append_def
          sink_ready_def same_shape_def plain_column_def last_cell_def cell_of_def nth_list_update
          split: option.split if_splits intro!: nth_equalityI)
  next
    case False
    then obtain s1 where s1: "run_appender env j (lastRaw s ! j) s = Inr s1"
      using e AppendDuplicate r j by (cases "run_appender env j (lastRaw s ! j) s") (auto simp: sink_step_def sink_call_ready sink_duplicate_def)
    note c = run_appender_cases [OF r s1]
    then show ?thesis
      using AppendDuplicate r s1 False j
      by (auto simp: extends_def sink_step_def sink_call_ready sink_duplicate_def note_bytes_def sink_ready_def same_shape_def plain_column_def
          last_cell_def nth_list_update)
  qed
next
  case FinishRow
  then show ?thesis using r by (auto simp: extends_def sink_step_def sink_ready_def same_shape_def plain_column_def last_cell_def)
qed

lemma sink_step_error: "sk_err s \<noteq> None \<Longrightarrow> sk_err (snd (sink_step env cols ev s)) \<noteq> None"
  by (auto simp: sink_step_def sink_call_with_def split: sink_event.split)

lemma sink_run_error: "sk_err s \<noteq> None \<Longrightarrow> sk_err (sink_run env cols evs s) \<noteq> None"
  unfolding sink_run_def
  by (induction evs arbitrary: s) (simp_all add: sink_step_error del: not_None_eq)

lemma wire_column_append:
  "wire_column i l (a @ b) = wire_column i l a @ wire_column i (List.last (l # wire_column i l a)) b"
proof (induction a arbitrary: l)
  case (Cons ev a)
  then show ?case by (cases ev) auto
qed simp

lemma same_shape_trans: "same_shape a b \<Longrightarrow> same_shape b c \<Longrightarrow> same_shape a c"
  by (simp add: same_shape_def)

lemma same_shape_plain:
  assumes "same_shape s s'" "sink_ready s" "sink_ready s'"
  shows "plain_column s' i \<longleftrightarrow> plain_column s i" "cell_of env s' i = cell_of env s i"
proof -
  have "i < length (sk_columns s) \<Longrightarrow> (objects s' ! i = None) = (objects s ! i = None)"
    using assms nth_map [of i "objects s" "\<lambda>x. x = None"] nth_map [of i "objects s'" "\<lambda>x. x = None"]
    by (simp add: same_shape_def sink_ready_def)
  then show "plain_column s' i \<longleftrightarrow> plain_column s i" using assms(1) by (auto simp: plain_column_def same_shape_def)
  show "cell_of env s' i = cell_of env s i"
    using assms(1) by (intro ext) (auto simp: cell_of_def column_type_def same_shape_def split: option.split)
qed

lemma extends_trans:
  assumes "sink_ready s" "extends env a s t" "extends env b t u"
  shows "extends env (a @ b) s u"
proof -
  have k: "sink_ready t" "same_shape s t" "sink_ready u" "same_shape t u" using assms(2,3) by (simp_all add: extends_def)
  note p = same_shape_plain [OF k(2) assms(1) k(1)]
  show ?thesis
    unfolding extends_def
  proof (intro conjI allI impI)
    fix i assume i: "plain_column s i"
    obtain cs where a: "last_cell t i = List.last (last_cell s i # wire_column i (last_cell s i) a)"
        "list_all2 (cell_of env s i) (wire_column i (last_cell s i) a) cs" "sk_builders t ! i = sk_builders s ! i @ cs"
      using assms(2) i unfolding extends_def by blast
    obtain ds where b: "last_cell u i = List.last (last_cell t i # wire_column i (last_cell t i) b)"
        "list_all2 (cell_of env s i) (wire_column i (last_cell t i) b) ds" "sk_builders u ! i = sk_builders t ! i @ ds"
      using assms(3) i p unfolding extends_def by metis
    show "last_cell u i = List.last (last_cell s i # wire_column i (last_cell s i) (a @ b))"
      using a(1) b(1) by (auto simp: wire_column_append last_append)
    show "\<exists>cs. list_all2 (cell_of env s i) (wire_column i (last_cell s i) (a @ b)) cs \<and> sk_builders u ! i = sk_builders s ! i @ cs"
      using a b by (intro exI [where x = "cs @ ds"]) (simp add: wire_column_append list_all2_appendI)
  qed (use k same_shape_trans in blast)+
qed

lemma sink_run_extends:
  assumes "sink_ready s" "sk_err (sink_run env cols evs s) = None"
  shows "extends env evs s (sink_run env cols evs s)"
  using assms
proof (induction evs arbitrary: s)
  case Nil
  then show ?case by (simp add: sink_run_def extends_refl)
next
  case (Cons ev evs)
  let ?t = "snd (sink_step env cols ev s)"
  have run: "sink_run env cols (ev # evs) s = sink_run env cols evs ?t" by (simp add: sink_run_def)
  then have "sk_err ?t = None" using Cons.prems(2) sink_run_error by metis
  with sink_step_extends [OF Cons.prems(1)] have t: "extends env [ev] s ?t" by blast
  then have "extends env evs ?t (sink_run env cols evs ?t)" using Cons.IH Cons.prems(2) run by (simp add: extends_def)
  from extends_trans [OF Cons.prems(1) t this] show ?case by (simp add: run)
qed

subsection \<open>The batches\<close>

text \<open>The slices of a batch are consecutive and leave nothing out.\<close>

lemma slices_from_concat:
  assumes "0 < per" "i < length b" "length (b ! i) = batch_rows b"
  shows "concat (map (\<lambda>s. s ! i) (slices_from per k b)) = drop k (b ! i)"
  using assms
proof (induction per k b rule: slices_from.induct)
  case (1 per k b)
  show ?case
  proof (cases "k \<ge> batch_rows b")
    case True
    then show ?thesis using 1(4) by (simp add: slices_from.simps [of per k b])
  next
    case False
    let ?m = "min (k + per) (batch_rows b)"
    have "new_slice b k ?m ! i = take (?m - k) (drop k (b ! i))" using 1(3) by (simp add: new_slice_def)
    moreover have "take (?m - k) (drop k (b ! i)) @ drop (k + per) (b ! i) = drop k (b ! i)"
    proof -
      have "drop (k + per) (b ! i) = drop (?m - k) (drop k (b ! i))" using False 1(4) by (auto simp: min_def)
      then show ?thesis by (metis append_take_drop_id)
    qed
    ultimately show ?thesis using 1 False by (simp add: slices_from.simps [of per k b])
  qed
qed

lemma slices_from_nonempty: "0 < per \<Longrightarrow> k < batch_rows b \<Longrightarrow> slices_from per k b \<noteq> []"
  by (simp add: slices_from.simps [of per k b])

lemma split_batch_concat:
  assumes "i < length b" "length (b ! i) = batch_rows b"
  shows "concat (map (\<lambda>s. s ! i) (split_batch env limit nbytes b)) = b ! i" "split_batch env limit nbytes b \<noteq> []"
  using slices_from_concat [OF _ assms, of _ 0] slices_from_nonempty [of _ 0 b] by (auto simp: split_batch_def Let_def)

definition backlog :: "reader \<Rightarrow> nat \<Rightarrow> arrow_value option list" where
  "backlog r i = concat (map (\<lambda>b. b ! i) (pending r)) @ sk_builders (rd_sink r) ! i"

lemma take_pending_backlog:
  assumes "pending r \<noteq> []"
  obtains b where "current_batch (take_pending r) = Some b" "b ! i @ backlog (take_pending r) i = backlog r i"
    "rd_sink (take_pending r) = rd_sink r"
  using assms by (cases "pending r") (auto simp: take_pending_def backlog_def)

lemma make_batch_backlog:
  assumes "make_batch env r = (True, r')" "pending r = []" "sink_ready (rd_sink r)" "plain_column (rd_sink r) i"
  shows "\<exists>b. current_batch r' = Some b \<and> b ! i @ backlog r' i = backlog r i"
proof -
  let ?b = "sk_builders (rd_sink r)" and ?n = "split_batch env (rd_batchBytes r) (sk_bytes (rd_sink r)) (sk_builders (rd_sink r))"
  have i: "i < length ?b" using assms(3,4) by (simp add: sink_ready_def plain_column_def)
  moreover have "list_all (\<lambda>c. length c = batch_rows ?b) ?b" using assms(1) by (auto simp: make_batch_def newRecord_def split: if_splits)
  ultimately have "length (?b ! i) = batch_rows ?b" by (simp add: list_all_length)
  note n = split_batch_concat [OF i this, of env "rd_batchBytes r" "sk_bytes (rd_sink r)"]
  have r': "r' = take_pending (r\<lparr>rd_sink := snd (newRecord (rd_sink r)), pending := ?n\<rparr>)"
    using assms(1) by (auto simp: make_batch_def newRecord_def split: if_splits)
  obtain x xs where x: "?n = x # xs" using n(2) by (cases ?n) auto
  have "current_batch r' = Some x \<and> x ! i @ backlog r' i = backlog r i"
    using r' x n(1) i assms(2) by (simp add: take_pending_def backlog_def newRecord_def)
  then show ?thesis by blast
qed

text \<open>Decoding the object columns leaves the others alone.\<close>

lemma flush_column_plain:
  assumes "flush_column env k oc sk cs = Some (Inr sk', cs')" "sink_ready sk" "k < length (objects sk)" "objects sk ! k = Some oc0"
  shows "sink_ready sk' \<and> same_shape sk sk' \<and> (\<forall>i. i \<noteq> k \<longrightarrow> sk_builders sk' ! i = sk_builders sk ! i) \<and>
    (\<forall>i. last_cell sk' i = last_cell sk i) \<and> length (objects sk') = length (objects sk) \<and>
    drop (Suc k) (objects sk') = drop (Suc k) (objects sk)"
proof (cases "oc_entries oc = []")
  case True
  then show ?thesis using assms by (auto simp: flush_column_def same_shape_def)
next
  case False
  then obtain t c s where t: "resolve_type env oc cs = Some (t, c, s)"
    using assms(1) by (auto simp: flush_column_def bind_eq_Some_conv)
  obtain oc1 where "t = Inr oc1" using assms(1) False t by (cases t) (auto simp: flush_column_def)
  then obtain oc' vs where "sk' = sk\<lparr>sk_builders := (sk_builders sk)[k := sk_builders sk ! k @ vs], objects := (objects sk)[k := Some oc']\<rparr>"
    using assms(1) False t by (auto simp: flush_column_def map_sum_eq_Inr)
  moreover have "map (\<lambda>x. x = None) ((objects sk)[k := Some oc']) = map (\<lambda>x. x = None) (objects sk)" for oc' :: object_column
    using assms(3,4) by (intro nth_equalityI) (auto simp: nth_list_update)
  ultimately show ?thesis using assms(2) by (auto simp: sink_ready_def same_shape_def last_cell_def)
qed

lemma drop_eq_Cons:
  assumes "drop k xs = y # ys"
  shows "k < length xs" "xs ! k = y" "drop (Suc k) xs = ys"
proof -
  show k: "k < length xs" using assms by (intro not_le_imp_less notI) simp
  from Cons_nth_drop_Suc [OF this] assms show "xs ! k = y" "drop (Suc k) xs = ys" by simp_all
qed

lemma flush_columns_plain:
  assumes "flush_columns env k ocs sk cs = Some (Inr sk', cs')" "sink_ready sk" "drop k (objects sk) = ocs"
  shows "sink_ready sk' \<and> same_shape sk sk' \<and> (\<forall>i. last_cell sk' i = last_cell sk i) \<and>
    (\<forall>i. plain_column sk i \<longrightarrow> sk_builders sk' ! i = sk_builders sk ! i)"
  using assms
proof (induction env k ocs sk cs rule: flush_columns.induct)
  case (1 env k sk cs)
  then show ?case by (auto simp: same_shape_def)
next
  case (2 env k ocs sk cs)
  then show ?case using drop_eq_Cons(3) [OF 2(4)] by simp
next
  case (3 env k oc ocs sk cs)
  note d = drop_eq_Cons [OF 3(4)]
  obtain t cs1 where t: "flush_column env k oc sk cs = Some (t, cs1)" using 3(2) by (auto simp: bind_eq_Some_conv)
  then obtain sk1 where sk1: "t = Inr sk1" using 3(2) by (cases t) auto
  note f = flush_column_plain [OF t [unfolded sk1] 3(3) d(1,2)]
  then have "drop (k + 1) (objects sk1) = ocs" using d(3) by simp
  moreover have "flush_columns env (k + 1) ocs sk1 cs1 = Some (Inr sk', cs')" using 3(2) t sk1 by simp
  ultimately have r: "sink_ready sk' \<and> same_shape sk1 sk' \<and> (\<forall>i. last_cell sk' i = last_cell sk1 i) \<and>
      (\<forall>i. plain_column sk1 i \<longrightarrow> sk_builders sk' ! i = sk_builders sk1 ! i)"
    using "3.IH" [OF t] sk1 f by simp
  have "plain_column sk1 i" "i \<noteq> k" if "plain_column sk i" for i
    using that same_shape_plain(1) [of sk sk1] f 3(3) d(2) by (auto simp: plain_column_def)
  then show ?case using f r same_shape_trans by metis
qed

lemma flushObjects_plain:
  assumes "flushObjects env sk cs = Some (Inr sk', cs')" "sink_ready sk"
  shows "sink_ready sk' \<and> same_shape sk sk' \<and> (\<forall>i. last_cell sk' i = last_cell sk i) \<and>
    (\<forall>i. plain_column sk i \<longrightarrow> sk_builders sk' ! i = sk_builders sk ! i)"
  using flush_columns_plain [OF assms [unfolded flushObjects_def]] by simp

subsection \<open>Fetching\<close>

text \<open>
  The successful fetches of a row stream on their own, without the sink: from call number \<open>n\<close>, on statement
  \<open>st\<close> and session \<open>s\<close>, the calls of the wire layer deliver together \<open>evs\<close> and leave call number \<open>n'\<close>,
  statement \<open>st'\<close> and session \<open>s'\<close>.
\<close>

inductive fetch_calls :: "'e reader_env \<Rightarrow> nat \<Rightarrow> statement \<Rightarrow> 'z exec_scheme \<Rightarrow> sink_event list \<Rightarrow>
    nat \<Rightarrow> statement \<Rightarrow> 'z exec_scheme \<Rightarrow> bool" for env where
  no_call: "fetch_calls env n st s [] n st s"
| another_call: "fetch_calls env n st s (delivered (dm s1) @ evs) n' st' s'"
    if "re_ctx env n = (before, between, after)"
      "Fetch before between after snk want (s\<lparr>stm := st, dm := new_data\<rparr>) = Some (Inr (), s1)"
      "fetch_calls env (n + 1) (stm s1) s1 evs n' st' s'"

lemma fetch_calls_trans:
  "fetch_calls env n st s evs n1 st1 s1 \<Longrightarrow> fetch_calls env n1 st1 s1 evs1 n2 st2 s2 \<Longrightarrow>
   fetch_calls env n st s (evs @ evs1) n2 st2 s2"
  by (induction rule: fetch_calls.induct) (auto intro: another_call)

definition fetched :: "'e reader_env \<Rightarrow> reader \<Rightarrow> 'z exec_scheme \<Rightarrow> reader \<Rightarrow> 'z exec_scheme \<Rightarrow> bool" where
  "fetched env r s r' s' \<longleftrightarrow> (\<exists>evs. fetch_calls env (rd_calls r) (rd_stmt r) s evs (rd_calls r') (rd_stmt r') s' \<and>
       extends (reader_conv env) evs (rd_sink r) (rd_sink r')) \<and>
     pending r' = pending r \<and> rd_closed r' = rd_closed r \<and> rd_done r' = rd_done r \<and> rd_err r' = rd_err r"

lemma fetched_trans:
  "sink_ready (rd_sink r) \<Longrightarrow> fetched env r s r1 s1 \<Longrightarrow> fetched env r1 s1 r2 s2 \<Longrightarrow> fetched env r s r2 s2"
  unfolding fetched_def using extends_trans fetch_calls_trans by (metis (no_types, lifting))

lemma reader_fetch_fetched:
  assumes "reader_fetch env want r s = Some (Inr u, r', s')" "sink_ready (rd_sink r)" "sk_err (rd_sink r') = None"
  shows "fetched env r s r' s'"
proof -
  obtain before between after where c: "re_ctx env (rd_calls r) = (before, between, after)" by (cases "re_ctx env (rd_calls r)")
  then have f: "Fetch before between after (Some (arrow_row_sink (reader_conv env) (rd_sink r))) want
      (s\<lparr>stm := rd_stmt r, dm := new_data\<rparr>) = Some (Inr (), s')"
    and r': "r' = r\<lparr>rd_stmt := stm s', rd_calls := rd_calls r + 1,
      rd_sink := sink_run (reader_conv env) (columns (stm s')) (delivered (dm s')) (rd_sink r)\<rparr>"
    using assms(1) by (auto simp: reader_fetch_def)
  have "fetch_calls env (rd_calls r) (rd_stmt r) s (delivered (dm s') @ []) (rd_calls r') (rd_stmt r') s'"
    using another_call [OF c f no_call] by (simp add: r')
  moreover have "extends (reader_conv env) (delivered (dm s')) (rd_sink r) (rd_sink r')"
    using sink_run_extends [OF assms(2)] assms(3) by (simp add: r')
  ultimately show ?thesis by (auto simp: fetched_def r')
qed

lemma fetch_rows_fetched:
  fixes env :: "'a reader_env" and s :: "'b exec_scheme"
  assumes "fetch_rows env r s = Some y" "fst y = None" "sink_ready (rd_sink r)"
  shows "fetched env r s (fst (snd y)) (snd (snd y)) \<and> \<not> wants_more (fst (snd y))"
proof -
  have "fst y = None \<longrightarrow> sink_ready (rd_sink r) \<longrightarrow> fetched env r s (fst (snd y)) (snd (snd y)) \<and> \<not> wants_more (fst (snd y))"
  proof (rule fetch_rows.raw_induct [where P = "\<lambda>env r s y. fst y = None \<longrightarrow> sink_ready (rd_sink r) \<longrightarrow>
      fetched env r s (fst (snd y)) (snd (snd y)) \<and> \<not> wants_more (fst (snd y))", OF _ assms(1)])
    fix loop :: "'a reader_env \<Rightarrow> reader \<Rightarrow> 'b exec_scheme \<Rightarrow> (adbc_error option \<times> reader \<times> 'b exec_scheme) option" and env r s y
    assume IH: "\<And>env r s y. loop env r s = Some y \<Longrightarrow> fst y = None \<longrightarrow> sink_ready (rd_sink r) \<longrightarrow>
        fetched env r s (fst (snd y)) (snd (snd y)) \<and> \<not> wants_more (fst (snd y))"
      and body: "(if \<not> wants_more r then Some (None, r, s)
        else Option.bind (reader_fetch env (min (rd_batchSize r - sk_rows (rd_sink r)) (rd_prefetchRows r)) r s) (\<lambda>(res, r, s).
          case res of
            Inl e \<Rightarrow> Some (Some (fromTTCError (sink_status (rd_sink r)) e), r, s)
          | Inr _ \<Rightarrow> (case sk_err (rd_sink r) of Some e \<Rightarrow> Some (Some (go_status e), r, s) | None \<Rightarrow> loop env r s))) = Some y"
    show "fst y = None \<longrightarrow> sink_ready (rd_sink r) \<longrightarrow> fetched env r s (fst (snd y)) (snd (snd y)) \<and> \<not> wants_more (fst (snd y))"
    proof (intro impI)
      assume n: "fst y = None" and rdy: "sink_ready (rd_sink r)"
      show "fetched env r s (fst (snd y)) (snd (snd y)) \<and> \<not> wants_more (fst (snd y))"
      proof (cases "wants_more r")
        case False
        then have "y = (None, r, s)" using body by simp
        then show ?thesis using False extends_refl [OF rdy] by (auto simp: fetched_def intro: no_call)
      next
        case True
        then obtain res r1 s1 where f: "reader_fetch env (min (rd_batchSize r - sk_rows (rd_sink r)) (rd_prefetchRows r)) r s = Some (res, r1, s1)"
          using body by (auto simp: bind_eq_Some_conv)
        then obtain u where u: "res = Inr u" "sk_err (rd_sink r1) = None" "loop env r1 s1 = Some y"
          using body True n by (auto split: sum.splits option.splits)
        have 1: "fetched env r s r1 s1" by (rule reader_fetch_fetched [OF f [unfolded u(1)] rdy u(2)])
        then have "sink_ready (rd_sink r1)" by (auto simp: fetched_def extends_def)
        with IH [OF u(3)] n have "fetched env r1 s1 (fst (snd y)) (snd (snd y)) \<and> \<not> wants_more (fst (snd y))" by blast
        then show ?thesis using fetched_trans [OF rdy 1] by blast
      qed
    qed
  qed
  with assms show ?thesis by blast
qed

lemma make_batch_ready:
  assumes "make_batch env r = (True, r')" "sink_ready (rd_sink r)"
  shows "sink_ready (rd_sink r')"
proof -
  have "rd_sink (take_pending q) = rd_sink q" for q by (simp add: take_pending_def split: list.split)
  then show ?thesis using assms by (auto simp: make_batch_def newRecord_def sink_ready_def split: if_splits)
qed

lemma reader_close_keeps [simp]: "rd_err (fst (reader_close r s)) = rd_err r" "rd_closed (fst (reader_close r s))"
  "pending (fst (reader_close r s)) = pending r" "sk_rows (rd_sink (fst (reader_close r s))) = sk_rows (rd_sink r)"
  by (simp_all add: reader_close_def sink_release_def case_prod_unfold Let_def)

lemma reader_fail_error [simp]: "rd_err (fst (reader_fail e r s)) = Some e"
  by (simp add: reader_fail_def reader_close_keeps)

lemma make_batch_keeps: "make_batch env r = (got, r') \<Longrightarrow> rd_stmt r' = rd_stmt r \<and> rd_calls r' = rd_calls r"
  by (auto simp: make_batch_def newRecord_def take_pending_def split: if_splits list.split)

text \<open>
  Property C8. \<open>Next\<close> loses, repeats and reorders nothing: as long as it returns true, the batch it hands out
  followed by what it still holds is what it held before followed by the values that the calls of \<open>Fetch\<close> made
  meanwhile, one after the other on the statement and the session, delivered: every one of them, in order, with
  each duplicate replaced by the value it repeats, however the rows fall on fetches, batches and slices. (A column
  without object values, whose deferred decoding is another matter.) When it returns false without an error, it is closed and holds no row.
\<close>

theorem reader_delivers_in_order:
  assumes "reader_Next env r (cache, s) = Some (got, r', cache', s')" "sink_ready (rd_sink r)" "plain_column (rd_sink r) i"
    "rd_err r' = None"
  shows "if got then sink_ready (rd_sink r') \<and> (\<exists>evs s1 cs b. fetch_calls env (rd_calls r) (rd_stmt r) s evs (rd_calls r') (rd_stmt r') s1 \<and>
      current_batch r' = Some b \<and> b ! i @ backlog r' i = backlog r i @ cs \<and>
      list_all2 (cell_of (reader_conv env) (rd_sink r) i) (wire_column i (last_cell (rd_sink r) i) evs) cs)
    else r' = r \<or> (rd_closed r' \<and> sk_rows (rd_sink r') = 0 \<and> pending r' = [])"
proof (cases "rd_err r \<noteq> None \<or> rd_done r \<or> rd_closed r")
  case True
  then show ?thesis using assms(1) by (auto simp: reader_Next_def)
next
  case False
  let ?r = "r\<lparr>current_batch := None\<rparr>"
  show ?thesis
  proof (cases "pending r = []")
    case p: False
    then have n: "got" "r' = take_pending ?r" using assms(1) False by (simp_all add: reader_Next_def Let_def)
    obtain b where "current_batch r' = Some b" "b ! i @ backlog r' i = backlog ?r i" "rd_sink r' = rd_sink r"
      using take_pending_backlog [of ?r i] p n(2) by auto
    moreover have "rd_stmt r' = rd_stmt r" "rd_calls r' = rd_calls r" using n(2) by (simp_all add: take_pending_def split: list.split)
    ultimately have "fetch_calls env (rd_calls r) (rd_stmt r) s [] (rd_calls r') (rd_stmt r') s \<and>
        current_batch r' = Some b \<and> b ! i @ backlog r' i = backlog r i @ [] \<and>
        list_all2 (cell_of (reader_conv env) (rd_sink r) i) (wire_column i (last_cell (rd_sink r) i) []) []" "sink_ready (rd_sink r')"
      using assms(2) by (simp_all add: backlog_def no_call)
    then show ?thesis using n(1) by (simp only: if_True) blast
  next
    case p: True
    then obtain e r1 s1 where f: "fetch_rows env ?r s = Some (e, r1, s1)"
      using assms(1) False by (auto simp: reader_Next_def Let_def bind_eq_Some_conv)
    have e: "e = None" using assms(1,4) False p f
      by (cases e) (auto simp: reader_Next_def Let_def case_prod_unfold)
    with fetch_rows_fetched [OF f] assms(2) have g: "fetched env ?r s r1 s1" by simp
    then obtain evs where calls: "fetch_calls env (rd_calls r) (rd_stmt r) s evs (rd_calls r1) (rd_stmt r1) s1"
        and x: "extends (reader_conv env) evs (rd_sink r) (rd_sink r1)" by (auto simp: fetched_def)
    have k: "pending r1 = []" "sink_ready (rd_sink r1)" "same_shape (rd_sink r) (rd_sink r1)"
      using g p x by (simp_all add: fetched_def extends_def)
    show ?thesis
    proof (cases "sk_rows (rd_sink r1) = 0")
      case True
      then show ?thesis using assms(1) False p f e k
        by (auto simp: reader_Next_def Let_def case_prod_unfold)
    next
      case rows: False
      obtain fl c2 s2 where fl: "flushObjects (re_flush env) (rd_sink r1) (cache, s1) = Some (fl, c2, s2)"
        using assms(1) False p f e rows by (auto simp: reader_Next_def Let_def bind_eq_Some_conv)
      then obtain sk where sk: "fl = Inr sk" using assms(1,4) False p f e rows
        by (cases fl) (auto simp: reader_Next_def Let_def case_prod_unfold)
      note pl = flushObjects_plain [OF fl [unfolded sk] k(2)]
      have m: "make_batch env (r1\<lparr>rd_sink := sk\<rparr>) = (got, r')"
        using assms(1) False p f e rows fl sk by (simp add: reader_Next_def Let_def case_prod_unfold prod_eq_iff)
      then have got: "got" using assms(4) by (auto simp: make_batch_def newRecord_def split: if_splits)
      have i: "plain_column (rd_sink r1) i" "plain_column sk i"
        using assms(2,3) k(2,3) pl same_shape_plain(1) by blast+
      obtain b where b: "current_batch r' = Some b" "b ! i @ backlog r' i = backlog (r1\<lparr>rd_sink := sk\<rparr>) i"
        using make_batch_backlog [OF m [unfolded eqTrueI [OF got]], of i] k(1) pl i(2) by auto
      obtain cs where cs: "list_all2 (cell_of (reader_conv env) (rd_sink r) i) (wire_column i (last_cell (rd_sink r) i) evs) cs"
          "sk_builders (rd_sink r1) ! i = sk_builders (rd_sink r) ! i @ cs"
        using x assms(3) unfolding extends_def by blast
      have "backlog (r1\<lparr>rd_sink := sk\<rparr>) i = backlog r i @ cs" using p k(1) pl i(1) cs(2) by (simp add: backlog_def)
      moreover have "sink_ready (rd_sink r')" using make_batch_ready [OF m [unfolded eqTrueI [OF got]]] pl by simp
      ultimately show ?thesis using got b cs(1) calls make_batch_keeps [OF m] by auto
    qed
  qed
qed

definition toy_sink :: arrow_sink where
  "toy_sink = (newArrowSink \<lparr>numberMode = [], intervalMode = [], dateMode = [], useExtensionTypes = False\<rparr>)
     \<lparr>sk_schema := Some [], sk_columns := [type_column TypeNumber], sk_builders := [[Some (VInt 2)]], lastRaw := [[]],
      lastNull := [False], objects := [None], sk_rows := 1\<rparr>"

definition toy_reader :: reader where
  "toy_reader =
     \<lparr>rd_stmt = Prepare ascii_unicode [], rd_sink = toy_sink, rd_batchSize = 1, rd_batchBytes = 0, rd_prefetchRows = 1,
      rd_schema = None, pending = [], current_batch = None, rd_err = None, rd_refs = 1, rd_done = False, rd_closed = False, rd_calls = 0\<rparr>"

text \<open>A row is waiting in the builder: \<open>Next\<close> makes a batch of it.\<close>

theorem reader_delivers_in_order_witness:
  "\<forall>(env :: 'z exec_scheme reader_env) s. \<exists>r' b cs. reader_Next env toy_reader (Map.empty, s) = Some (True, r', Map.empty, s) \<and>
     current_batch r' = Some b \<and> b ! 0 @ backlog r' 0 = Some (VInt 2) # cs"
proof (intro allI)
  fix env :: "'z exec_scheme reader_env" and s :: "'z exec_scheme"
  let ?r = "toy_reader\<lparr>current_batch := None\<rparr>"
  have f: "fetch_rows env ?r s = Some (None, ?r, s)"
    by (subst fetch_rows.simps) (simp add: wants_more_def toy_reader_def toy_sink_def newArrowSink_def)
  have o: "flushObjects (re_flush env) (rd_sink ?r) (Map.empty, s) = Some (Inr toy_sink, Map.empty, s)"
    by (simp add: flushObjects_def toy_reader_def toy_sink_def newArrowSink_def)
  have m: "fst (make_batch env (?r\<lparr>rd_sink := toy_sink\<rparr>))" "rd_err (snd (make_batch env (?r\<lparr>rd_sink := toy_sink\<rparr>))) = None"
    by (simp_all add: make_batch_def newRecord_def split_batch_def take_pending_def toy_reader_def toy_sink_def newArrowSink_def batch_rows_def)
  define r' where "r' = snd (make_batch env (?r\<lparr>rd_sink := toy_sink\<rparr>))"
  have t: "rd_err toy_reader = None" "\<not> rd_done toy_reader" "\<not> rd_closed toy_reader" "pending ?r = []" "sk_rows (rd_sink ?r) \<noteq> 0"
    "rd_sink toy_reader = toy_sink" "backlog toy_reader 0 = [Some (VInt 2)]"
    by (simp_all add: toy_reader_def toy_sink_def backlog_def newArrowSink_def)
  have n: "reader_Next env toy_reader (Map.empty, s) = Some (True, r', Map.empty, s)"
    using f o m(1) t by (simp add: reader_Next_def Let_def r'_def case_prod_unfold)
  have "sink_ready (rd_sink toy_reader)" "plain_column (rd_sink toy_reader) 0"
    by (simp_all add: toy_reader_def toy_sink_def newArrowSink_def sink_ready_def plain_column_def)
  from reader_delivers_in_order [OF n this] m(2) t(7) n
  show "\<exists>r' b cs. reader_Next env toy_reader (Map.empty, s) = Some (True, r', Map.empty, s) \<and>
      current_batch r' = Some b \<and> b ! 0 @ backlog r' 0 = Some (VInt 2) # cs"
    by (auto simp: r'_def)
qed

end
