(* ===== verification/AdbcBind.thy ===== *)
theory AdbcBind
  imports AdbcConv
begin

text \<open>
  The writing half of \<^verbatim>\<open>driver/oracle/arrow_conv.go\<close>: the bind variable of an Arrow array. An array is its type
  and its values, \<open>None\<close> for null; the conversions of the Arrow library are in \<open>bind_env\<close>.
\<close>

subsection \<open>Bind variables\<close>

record arrow_array =
  ar_Type :: arrow_type
  ar_Values :: "arrow_value option list"

record bind_env =
  decimal_ToString :: "int \<Rightarrow> int \<Rightarrow> bytes"
  Float16_Float32 :: "u16 \<Rightarrow> u32"
  Date32_ToTime :: "int \<Rightarrow> gotime"
  Date64_ToTime :: "int \<Rightarrow> gotime"
  Timestamp_ToTime :: "int \<Rightarrow> time_unit \<Rightarrow> gotime"
  zone_offset :: "bytes \<Rightarrow> gotime \<Rightarrow> int"

text \<open>The value of a row: null is sent as null, an index out of range is a panic.\<close>

definition months_error :: string where
  "months_error = ''intervals with a month component cannot be bound as INTERVAL DAY TO SECOND''"

definition row_value :: "arrow_array \<Rightarrow> (arrow_value \<Rightarrow> string + bytes option) \<Rightarrow> nat \<Rightarrow> string + bytes option" where
  "row_value a f i = (if i < length (ar_Values a) then (case ar_Values a ! i of None \<Rightarrow> Inr None | Some v \<Rightarrow> f v) else Inl ''panic'')"

definition sent :: "'e + bytes \<Rightarrow> string + bytes option" where
  "sent r = map_sum (\<lambda>_. ''number'') Some r"

definition make_bind :: "u8 \<Rightarrow> u32 \<Rightarrow> (nat \<Rightarrow> string + bytes option) \<Rightarrow> bind_column" where
  "make_bind t sz f = \<lparr>BindType = t, BindCSForm = 0, BindBufferSize = sz, Value = f\<rparr>"

definition intBind :: "arrow_array \<Rightarrow> bind_column" where
  "intBind a = make_bind TypeNumber 22 (row_value a (\<lambda>v. case v of VInt n \<Rightarrow> sent (EncodeInt64 [] n) | _ \<Rightarrow> Inl ''panic''))"

definition uintBind :: "arrow_array \<Rightarrow> bind_column" where
  "uintBind a = make_bind TypeNumber 22 (row_value a (\<lambda>v. case v of VInt n \<Rightarrow> sent (EncodeNumber [] (itoa_bytes n)) | _ \<Rightarrow> Inl ''panic''))"

definition boolBind :: "bool \<Rightarrow> arrow_array \<Rightarrow> bind_column" where
  "boolBind supportsBool a =
     (if supportsBool then
        make_bind TypeBoolean 4 (row_value a (\<lambda>v. case v of VBool b \<Rightarrow> Inr (Some (if b then [1, 1] else [0])) | _ \<Rightarrow> Inl ''panic''))
      else
        make_bind TypeNumber 22 (row_value a (\<lambda>v. case v of VBool b \<Rightarrow> sent (EncodeInt64 [] (if b then 1 else 0)) | _ \<Rightarrow> Inl ''panic'')))"

definition floatBind :: "bind_env \<Rightarrow> arrow_array \<Rightarrow> bind_column" where
  "floatBind env a = make_bind TypeBinaryFloat 4 (row_value a (\<lambda>v. case v of
     VFloat16 h \<Rightarrow> Inr (Some (EncodeBinaryFloat [] (Float16_Float32 env h)))
   | VFloat32 f \<Rightarrow> Inr (Some (EncodeBinaryFloat [] f))
   | _ \<Rightarrow> Inl ''panic''))"

definition doubleBind :: "arrow_array \<Rightarrow> bind_column" where
  "doubleBind a = make_bind TypeBinaryDouble 8 (row_value a (\<lambda>v. case v of
     VFloat64 f \<Rightarrow> Inr (Some (EncodeBinaryDouble [] f)) | _ \<Rightarrow> Inl ''panic''))"

definition decimalBind :: "bind_env \<Rightarrow> int \<Rightarrow> arrow_array \<Rightarrow> bind_column" where
  "decimalBind env sc a = make_bind TypeNumber 22 (row_value a (\<lambda>v. case v of
     VDecimal n \<Rightarrow> sent (EncodeNumber [] (decimal_ToString env n sc)) | _ \<Rightarrow> Inl ''panic''))"

text \<open>Text and binary: the longest value decides between the short and the long type, and an empty value is null.\<close>

definition value_bytes :: "arrow_value option \<Rightarrow> bytes" where
  "value_bytes v = (case v of Some (VString b) \<Rightarrow> b | Some (VBinary b) \<Rightarrow> b | _ \<Rightarrow> [])"

definition max_len :: "arrow_array \<Rightarrow> nat" where
  "max_len a = foldl (\<lambda>m v. if v \<noteq> None \<and> length (value_bytes v) > m then length (value_bytes v) else m) 0 (ar_Values a)"

definition longLength :: u32 where "longLength = 0x7fffffff"

definition sized_bind :: "u8 \<Rightarrow> u8 \<Rightarrow> u8 \<Rightarrow> u32 \<Rightarrow> nat \<Rightarrow> (nat \<Rightarrow> string + bytes option) \<Rightarrow> bind_column" where
  "sized_bind short long csform maxString n f =
     (let b = \<lparr>BindType = short, BindCSForm = csform, BindBufferSize = (if n = 0 then 1 else word_of_nat n), Value = f\<rparr> in
      if (word_of_nat n :: u32) > maxString then b\<lparr>BindType := long, BindBufferSize := longLength\<rparr> else b)"

definition nonempty_value :: "arrow_value \<Rightarrow> string + bytes option" where
  "nonempty_value v = (let b = value_bytes (Some v) in Inr (if b = [] then None else Some b))"

definition stringBind :: "u32 \<Rightarrow> arrow_array \<Rightarrow> bind_column" where
  "stringBind maxString a = sized_bind TypeVarchar TypeLong CSFormImplicit maxString (max_len a) (row_value a nonempty_value)"

definition binaryBind :: "u32 \<Rightarrow> arrow_array \<Rightarrow> bind_column" where
  "binaryBind maxString a = sized_bind TypeRaw TypeLongRaw 0 maxString (max_len a) (row_value a nonempty_value)"

text \<open>A fixed-size binary array: every value has the width of the type.\<close>

definition fixedBind :: "u32 \<Rightarrow> int \<Rightarrow> arrow_array \<Rightarrow> bind_column" where
  "fixedBind maxString w a = sized_bind TypeRaw TypeLongRaw 0 maxString
     (if list_ex (\<lambda>v. v \<noteq> None) (ar_Values a) \<and> w > 0 then nat w else 0) (row_value a nonempty_value)"

definition dateBind :: "(int \<Rightarrow> gotime) \<Rightarrow> arrow_array \<Rightarrow> bind_column" where
  "dateBind toTime a = make_bind TypeDate 7 (row_value a (\<lambda>v. case v of
     VDate d \<Rightarrow> Inr (Some (EncodeDate [] (toTime d))) | _ \<Rightarrow> Inl ''panic''))"

definition timestampBind :: "bind_env \<Rightarrow> time_unit \<Rightarrow> bytes \<Rightarrow> arrow_array \<Rightarrow> bind_column" where
  "timestampBind env u tz a =
     (if tz \<noteq> [] then make_bind TypeTimestampTZ 13 (row_value a (\<lambda>v. case v of
         VTimestamp t \<Rightarrow> (let g = Timestamp_ToTime env t u in Inr (Some (EncodeTimestampTZ [] (g\<lparr>gt_off := zone_offset env tz g\<rparr>))))
       | _ \<Rightarrow> Inl ''panic''))
      else make_bind TypeTimestamp 11 (row_value a (\<lambda>v. case v of
         VTimestamp t \<Rightarrow> Inr (Some (EncodeTimestamp [] (Timestamp_ToTime env t u))) | _ \<Rightarrow> Inl ''panic'')))"

text \<open>Hours, minutes, seconds and nanoseconds of a span, each truncated towards zero.\<close>

definition split_nanos :: "int \<Rightarrow> int \<Rightarrow> intervalDS" where
  "split_nanos days ns =
     (let h = go_div ns 3600000000000; ns = ns - h * 3600000000000;
          m = go_div ns 60000000000; ns = ns - m * 60000000000;
          sec = go_div ns 1000000000; ns = ns - sec * 1000000000
      in \<lparr>Days = days, Hours = int32_of h, Minutes = int32_of m, Seconds = int32_of sec, Nanos = int32_of ns\<rparr>)"

definition intervalBind :: "arrow_array \<Rightarrow> bind_column" where
  "intervalBind a = make_bind TypeIntervalDS 11 (row_value a (\<lambda>v. case v of
     VInterval months days ns \<Rightarrow>
       if months \<noteq> 0 then Inl months_error else Inr (Some (EncodeIntervalDS [] (split_nanos days ns)))
   | _ \<Rightarrow> Inl ''panic''))"

definition durationBind :: "time_unit \<Rightarrow> arrow_array \<Rightarrow> bind_column" where
  "durationBind u a = make_bind TypeIntervalDS 11 (row_value a (\<lambda>v. case v of
     VDuration n \<Rightarrow>
       (let d = int64_of (n * unit_nanos u); days = go_div d 86400000000000 in
        Inr (Some (EncodeIntervalDS [] (split_nanos (int32_of days) (d - days * 86400000000000)))))
   | _ \<Rightarrow> Inl ''panic''))"

text \<open>Nested values go as JSON text, which is made for the whole array first.\<close>

fun nested_texts :: "arrow_value option list \<Rightarrow> adbc_error + bytes option list" where
  "nested_texts [] = Inr []"
| "nested_texts (v # vs) =
     (case v of
        Some (VNested None) \<Rightarrow> Inl (invalid ''cannot encode nested value as JSON'')
      | Some (VNested (Some j)) \<Rightarrow> map_sum id ((#) (Some j)) (nested_texts vs)
      | _ \<Rightarrow> map_sum id ((#) None) (nested_texts vs))"

definition nestedBind :: "u32 \<Rightarrow> arrow_array \<Rightarrow> adbc_error + bind_column" where
  "nestedBind maxString a =
     andThen (nested_texts (ar_Values a)) (\<lambda>texts.
       let n = foldl (\<lambda>m t. case t of None \<Rightarrow> m | Some j \<Rightarrow> max m (length j)) 0 texts in
       Inr (sized_bind TypeVarchar TypeLong CSFormImplicit maxString n
         (\<lambda>i. if i < length texts then Inr (texts ! i) else Inl ''panic'')))"

definition bindForArray :: "bind_env \<Rightarrow> u32 \<Rightarrow> bool \<Rightarrow> arrow_array \<Rightarrow> adbc_error + bind_column" where
  "bindForArray env maxString supportsBool a =
     (case ar_Type a of
        NullType \<Rightarrow> Inr \<lparr>BindType = TypeVarchar, BindCSForm = CSFormImplicit, BindBufferSize = 1, Value = (\<lambda>_. Inr None)\<rparr>
      | BooleanType \<Rightarrow> Inr (boolBind supportsBool a)
      | Int8Type \<Rightarrow> Inr (intBind a) | Int16Type \<Rightarrow> Inr (intBind a) | Int32Type \<Rightarrow> Inr (intBind a) | Int64Type \<Rightarrow> Inr (intBind a)
      | Uint8Type \<Rightarrow> Inr (intBind a) | Uint16Type \<Rightarrow> Inr (intBind a) | Uint32Type \<Rightarrow> Inr (intBind a)
      | Uint64Type \<Rightarrow> Inr (uintBind a)
      | Float16Type \<Rightarrow> Inr (floatBind env a) | Float32Type \<Rightarrow> Inr (floatBind env a)
      | Float64Type \<Rightarrow> Inr (doubleBind a)
      | Decimal128Type _ s \<Rightarrow> Inr (decimalBind env s a) | Decimal256Type _ s \<Rightarrow> Inr (decimalBind env s a)
      | StringType \<Rightarrow> Inr (stringBind maxString a) | LargeStringType \<Rightarrow> Inr (stringBind maxString a)
      | StringViewType \<Rightarrow> Inr (stringBind maxString a)
      | BinaryType \<Rightarrow> Inr (binaryBind maxString a) | LargeBinaryType \<Rightarrow> Inr (binaryBind maxString a)
      | BinaryViewType \<Rightarrow> Inr (binaryBind maxString a)
      | FixedSizeBinaryType w \<Rightarrow> Inr (fixedBind maxString w a)
      | Date32Type \<Rightarrow> Inr (dateBind (Date32_ToTime env) a) | Date64Type \<Rightarrow> Inr (dateBind (Date64_ToTime env) a)
      | TimestampType u tz \<Rightarrow> Inr (timestampBind env u tz a)
      | MonthDayNanoIntervalType \<Rightarrow> Inr (intervalBind a)
      | DurationType u \<Rightarrow> Inr (durationBind u a)
      | ListType \<Rightarrow> nestedBind maxString a | LargeListType \<Rightarrow> nestedBind maxString a | ListViewType \<Rightarrow> nestedBind maxString a
      | FixedSizeListType \<Rightarrow> nestedBind maxString a | StructType \<Rightarrow> nestedBind maxString a | MapType \<Rightarrow> nestedBind maxString a
      | OtherArrowType \<Rightarrow> Inl (not_implemented ''cannot bind Arrow type''))"

fun bindsFromRecord :: "bind_env \<Rightarrow> u32 \<Rightarrow> bool \<Rightarrow> arrow_array list \<Rightarrow> adbc_error + bind_column list" where
  "bindsFromRecord env maxString supportsBool [] = Inr []"
| "bindsFromRecord env maxString supportsBool (a # as) =
     andThen (bindForArray env maxString supportsBool a) (\<lambda>b.
     andThen (bindsFromRecord env maxString supportsBool as) (\<lambda>bs. Inr (b # bs)))"

end
