(* ===== verification/AdbcIngestSql.thy ===== *)
theory AdbcIngestSql
  imports AdbcBind
begin

text \<open>
  Identifiers (\<^verbatim>\<open>identFor\<close>, \<^verbatim>\<open>isReservedWord\<close>), the Oracle type of an Arrow type (\<^verbatim>\<open>oracleTypeForArrow\<close>) and
  the statements of an ingest (\<^verbatim>\<open>bulk_ingest.go\<close>). \<open>T\<close> is the upper-case table.
\<close>

subsection \<open>Identifiers\<close>

definition reserved_words :: "string list" where
  "reserved_words =
     [''ACCESS'', ''ADD'', ''ALL'', ''ALTER'', ''AND'', ''ANY'', ''AS'', ''ASC'', ''AUDIT'', ''BETWEEN'', ''BY'', ''CHAR'', ''CHECK'',
      ''CLUSTER'', ''COLUMN'', ''COMMENT'', ''COMPRESS'', ''CONNECT'', ''CREATE'', ''CURRENT'', ''DATE'', ''DECIMAL'', ''DEFAULT'',
      ''DELETE'', ''DESC'', ''DISTINCT'', ''DROP'', ''ELSE'', ''EXCLUSIVE'', ''EXISTS'', ''FILE'', ''FLOAT'', ''FOR'', ''FROM'', ''GRANT'',
      ''GROUP'', ''HAVING'', ''IDENTIFIED'', ''IMMEDIATE'', ''IN'', ''INCREMENT'', ''INDEX'', ''INITIAL'', ''INSERT'', ''INTEGER'',
      ''INTERSECT'', ''INTO'', ''IS'', ''LEVEL'', ''LIKE'', ''LOCK'', ''LONG'', ''MAXEXTENTS'', ''MINUS'', ''MLSLABEL'', ''MODE'',
      ''MODIFY'', ''NOAUDIT'', ''NOCOMPRESS'', ''NOT'', ''NOWAIT'', ''NULL'', ''NUMBER'', ''OF'', ''OFFLINE'', ''ON'', ''ONLINE'',
      ''OPTION'', ''OR'', ''ORDER'', ''PCTFREE'', ''PRIOR'', ''PUBLIC'', ''RAW'', ''RENAME'', ''RESOURCE'', ''REVOKE'', ''ROW'',
      ''ROWID'', ''ROWNUM'', ''ROWS'', ''SELECT'', ''SESSION'', ''SET'', ''SHARE'', ''SIZE'', ''SMALLINT'', ''START'', ''SUCCESSFUL'',
      ''SYNONYM'', ''SYSDATE'', ''TABLE'', ''THEN'', ''TO'', ''TRIGGER'', ''UID'', ''UNION'', ''UNIQUE'', ''UPDATE'', ''USER'',
      ''VALIDATE'', ''VALUES'', ''VARCHAR'', ''VARCHAR2'', ''VIEW'', ''WHENEVER'', ''WHERE'', ''WITH'']"

definition isReservedWord :: "(nat \<Rightarrow> nat) \<Rightarrow> bytes \<Rightarrow> bool" where
  "isReservedWord T name \<longleftrightarrow> one_of (map_runes T name) reserved_words"

definition ident_letter :: "u8 \<Rightarrow> bool" where
  "ident_letter c \<longleftrightarrow> (65 \<le> c \<and> c \<le> 90) \<or> (97 \<le> c \<and> c \<le> 122)"

definition ident_other :: "u8 \<Rightarrow> bool" where
  "ident_other c \<longleftrightarrow> is_digit c \<or> c = 95 \<or> c = 36 \<or> c = 35"

definition simple_ident :: "bytes \<Rightarrow> bool" where
  "simple_ident name \<longleftrightarrow> name \<noteq> [] \<and> length name \<le> 128 \<and> ident_letter (hd name) \<and>
     (\<forall>c \<in> set (tl name). ident_letter c \<or> ident_other c)"

definition identFor :: "(nat \<Rightarrow> nat) \<Rightarrow> bytes \<Rightarrow> bytes" where
  "identFor T name =
     (if simple_ident name \<and> \<not> isReservedWord T name then map_runes T name
      else [34] @ replace_byte 34 [34, 34] name @ [34])"

subsection \<open>Column types\<close>

record ingest_options =
  targetTable :: bytes
  targetSchema :: bytes
  ingestMode :: bytes
  ingestTemporary :: bool
  ingestBatchRows :: int
  ingestVarcharLength :: int
  ingestRawLength :: int
  ingestStringType :: bytes
  ingestBinaryType :: bytes
  ingestStructType :: bytes
  ingestTablespace :: bytes

text \<open>\<open>NAME(n)\<close> and \<open>NUMBER(p,s)\<close>.\<close>

definition sized :: "bytes \<Rightarrow> int \<Rightarrow> bytes" where
  "sized n k = n @ asc (''('' @ dec_int k @ '')'')"

definition decimal_column :: "int \<Rightarrow> int \<Rightarrow> bytes" where
  "decimal_column p s = (if p > 38 then asc ''NUMBER'' else asc (''NUMBER('' @ dec_int p @ '','' @ dec_int s @ '')''))"

definition unit_scale :: "time_unit \<Rightarrow> int" where
  "unit_scale u = (case u of UnitSecond \<Rightarrow> 0 | UnitMillisecond \<Rightarrow> 3 | UnitMicrosecond \<Rightarrow> 6 | UnitNanosecond \<Rightarrow> 9)"

definition or_else :: "bytes \<Rightarrow> bytes \<Rightarrow> bytes" where
  "or_else b d = (if b = [] then d else b)"

definition text_column :: "bytes \<Rightarrow> bytes \<Rightarrow> bytes" where
  "text_column stringType other = (if one_of stringType [''CLOB'', ''NCLOB''] then stringType else other)"

definition struct_column :: "ingest_options \<Rightarrow> int \<Rightarrow> u32 \<Rightarrow> bytes" where
  "struct_column s varcharLen version =
     (let t = ingestStructType s in
      if one_of t [''CLOB'', ''BLOB'', ''JSON''] then t
      else if t = asc ''VARCHAR2'' then sized (asc ''VARCHAR2'') varcharLen
      else if uint version \<ge> 21 then asc ''JSON'' else asc ''CLOB'')"

definition oracleTypeForArrow :: "arrow_type \<Rightarrow> ingest_options \<Rightarrow> bool \<Rightarrow> u32 \<Rightarrow> bytes option" where
  "oracleTypeForArrow dt s supportsBool version =
     (let varcharLen = (if ingestVarcharLength s = 0 then 4000 else ingestVarcharLength s);
          rawLen = (if ingestRawLength s = 0 then 2000 else ingestRawLength s);
          stringType = or_else (ingestStringType s) (asc ''VARCHAR2'');
          binaryType = or_else (ingestBinaryType s) (asc ''RAW'') in
      case dt of
        NullType \<Rightarrow> Some (asc ''VARCHAR2(1)'')
      | BooleanType \<Rightarrow> Some (if supportsBool then asc ''BOOLEAN'' else asc ''NUMBER(1)'')
      | Int8Type \<Rightarrow> Some (asc ''NUMBER(3)'') | Uint8Type \<Rightarrow> Some (asc ''NUMBER(3)'')
      | Int16Type \<Rightarrow> Some (asc ''NUMBER(5)'') | Uint16Type \<Rightarrow> Some (asc ''NUMBER(5)'')
      | Int32Type \<Rightarrow> Some (asc ''NUMBER(10)'') | Uint32Type \<Rightarrow> Some (asc ''NUMBER(10)'')
      | Int64Type \<Rightarrow> Some (asc ''NUMBER(19)'') | Uint64Type \<Rightarrow> Some (asc ''NUMBER(20)'')
      | Float16Type \<Rightarrow> Some (asc ''BINARY_FLOAT'') | Float32Type \<Rightarrow> Some (asc ''BINARY_FLOAT'')
      | Float64Type \<Rightarrow> Some (asc ''BINARY_DOUBLE'')
      | Decimal128Type p sc \<Rightarrow> Some (decimal_column p sc) | Decimal256Type p sc \<Rightarrow> Some (decimal_column p sc)
      | StringType \<Rightarrow> Some (text_column stringType (sized stringType varcharLen))
      | StringViewType \<Rightarrow> Some (text_column stringType (sized stringType varcharLen))
      | LargeStringType \<Rightarrow> Some (text_column stringType (asc ''CLOB''))
      | BinaryType \<Rightarrow> Some (if binaryType = asc ''BLOB'' then asc ''BLOB'' else sized (asc ''RAW'') rawLen)
      | BinaryViewType \<Rightarrow> Some (if binaryType = asc ''BLOB'' then asc ''BLOB'' else sized (asc ''RAW'') rawLen)
      | FixedSizeBinaryType w \<Rightarrow> Some (if binaryType = asc ''BLOB'' then asc ''BLOB'' else sized (asc ''RAW'') w)
      | LargeBinaryType \<Rightarrow> Some (asc ''BLOB'')
      | Date32Type \<Rightarrow> Some (asc ''DATE'') | Date64Type \<Rightarrow> Some (asc ''DATE'')
      | TimestampType u tz \<Rightarrow>
          Some (sized (asc ''TIMESTAMP'') (unit_scale u) @ (if tz \<noteq> [] then asc '' WITH TIME ZONE'' else []))
      | MonthDayNanoIntervalType \<Rightarrow> Some (asc ''INTERVAL DAY(9) TO SECOND(9)'')
      | DurationType _ \<Rightarrow> Some (asc ''INTERVAL DAY(9) TO SECOND(9)'')
      | ListType \<Rightarrow> Some (struct_column s varcharLen version) | LargeListType \<Rightarrow> Some (struct_column s varcharLen version)
      | ListViewType \<Rightarrow> Some (struct_column s varcharLen version) | FixedSizeListType \<Rightarrow> Some (struct_column s varcharLen version)
      | StructType \<Rightarrow> Some (struct_column s varcharLen version) | MapType \<Rightarrow> Some (struct_column s varcharLen version)
      | OtherArrowType \<Rightarrow> None)"

subsection \<open>Statements\<close>

definition qualifiedTarget :: "(nat \<Rightarrow> nat) \<Rightarrow> ingest_options \<Rightarrow> bytes" where
  "qualifiedTarget T s =
     (if targetSchema s \<noteq> [] then identFor T (targetSchema s) @ [46] @ identFor T (targetTable s) else identFor T (targetTable s))"

text \<open>A list of texts with a separator before each but the first.\<close>

fun separated :: "bytes \<Rightarrow> bytes list \<Rightarrow> bytes" where
  "separated sep [] = []"
| "separated sep [x] = x"
| "separated sep (x # y # xs) = x @ sep @ separated sep (y # xs)"

definition buildInsertSQL :: "(nat \<Rightarrow> nat) \<Rightarrow> ingest_options \<Rightarrow> arrow_field list \<Rightarrow> bytes" where
  "buildInsertSQL T s fs =
     asc ''INSERT INTO '' @ qualifiedTarget T s @ asc '' ('' @ separated (asc '', '') (map (\<lambda>f. identFor T (fd_Name f)) fs) @
     asc '') VALUES ('' @ separated (asc '', '') (map (\<lambda>i. asc ('':'' @ dec_nat (i + 1))) [0..<length fs]) @ asc '')''"

fun create_columns :: "(nat \<Rightarrow> nat) \<Rightarrow> ingest_options \<Rightarrow> bool \<Rightarrow> u32 \<Rightarrow> arrow_field list \<Rightarrow> bytes list option" where
  "create_columns T s supportsBool version [] = Some []"
| "create_columns T s supportsBool version (f # fs) =
     Option.bind (oracleTypeForArrow (fd_Type f) s supportsBool version) (\<lambda>ty.
       map_option ((#) (identFor T (fd_Name f) @ [32] @ ty @ (if fd_Nullable f then [] else asc '' NOT NULL'')))
         (create_columns T s supportsBool version fs))"

definition buildCreateTableSQL :: "(nat \<Rightarrow> nat) \<Rightarrow> ingest_options \<Rightarrow> bool \<Rightarrow> u32 \<Rightarrow> arrow_field list \<Rightarrow> bytes option" where
  "buildCreateTableSQL T s supportsBool version fs =
     map_option (\<lambda>cols. asc ''CREATE '' @ (if ingestTemporary s then asc ''GLOBAL TEMPORARY '' else []) @ asc ''TABLE '' @
         qualifiedTarget T s @ asc '' ('' @ separated (asc '', '') cols @ asc '')'' @
         (if ingestTemporary s then asc '' ON COMMIT PRESERVE ROWS''
          else if ingestTablespace s \<noteq> [] then asc '' TABLESPACE '' @ identFor T (ingestTablespace s) else []))
       (create_columns T s supportsBool version fs)"

end
