(* ===== verification/AdbcConnection.thy ===== *)
theory AdbcConnection
  imports AdbcReader AdbcIngestSql TtcConnect
begin

text \<open>
  \<^verbatim>\<open>driver/oracle/driver.go\<close> and \<^verbatim>\<open>options_getset.go\<close>, databases and connections. The names and values the ADBC
  package defines for options are the fields of \<open>adbc_keys\<close>. \<open>world\<close> is what the calls of an application act
  on: the settings of the connection, the session, the cache of object types and the number of calls made, which
  tells the \<open>ctx\<close> of each.
\<close>

subsection \<open>Databases\<close>

type_synonym database = "bytes \<rightharpoonup> bytes"

definition db_SetOptions :: "(bytes \<times> bytes) list \<Rightarrow> database \<Rightarrow> database" where
  "db_SetOptions kvs db = foldl (\<lambda>d (k, v). d(k \<mapsto> v)) db kvs"

definition db_SetOption :: "bytes \<Rightarrow> bytes \<Rightarrow> database \<Rightarrow> database" where
  "db_SetOption k v db = db(k \<mapsto> v)"

definition not_found :: "string \<Rightarrow> adbc_error" where
  "not_found m = errStatus StatusNotFound m"

definition db_GetOption :: "options_env \<Rightarrow> database \<Rightarrow> bytes \<Rightarrow> adbc_error + bytes" where
  "db_GetOption env db k =
     (if k = key_password env then Inl (not_found ''write-only'')
      else case db k of Some v \<Rightarrow> Inr v | None \<Rightarrow> Inl (not_found ''unknown database option''))"

definition db_GetOptionInt :: "options_env \<Rightarrow> database \<Rightarrow> bytes \<Rightarrow> adbc_error + int" where
  "db_GetOptionInt env db k = andThen (db_GetOption env db k) (\<lambda>v.
     case Atoi v of (n, err) \<Rightarrow> if err then Inl (invalid ''not an integer'') else Inr n)"

definition db_GetOptionDouble :: "conv_env \<Rightarrow> options_env \<Rightarrow> database \<Rightarrow> bytes \<Rightarrow> adbc_error + u64" where
  "db_GetOptionDouble ce env db k = andThen (db_GetOption env db k) (\<lambda>v.
     case ParseFloat ce v of None \<Rightarrow> Inl (invalid ''not a number'') | Some f \<Rightarrow> Inr f)"

definition db_GetOptionBytes :: "bytes \<Rightarrow> adbc_error + bytes" where
  "db_GetOptionBytes k = Inl (not_found ''unknown database option'')"

definition db_SetOptionBytes :: "bytes \<Rightarrow> bytes \<Rightarrow> adbc_error" where
  "db_SetOptionBytes k v = not_implemented ''byte-valued options''"

definition db_SetOptionInt :: "bytes \<Rightarrow> int \<Rightarrow> database \<Rightarrow> database" where
  "db_SetOptionInt k n = db_SetOption k (itoa_bytes n)"

definition db_SetOptionDouble :: "(u64 \<Rightarrow> bytes) \<Rightarrow> bytes \<Rightarrow> u64 \<Rightarrow> database \<Rightarrow> database" where
  "db_SetOptionDouble formatG k f = db_SetOption k (formatG f)"

subsection \<open>Connections\<close>

record connection_impl =
  cn_cfg :: connConfig
  cn_autoCommit :: bool
  cn_closed :: bool

record 'z world =
  w_conn :: connection_impl
  w_session :: "'z dialing_scheme"
  w_cache :: type_cache
  w_calls :: nat

record adbc_keys =
  KeyAutoCommit :: bytes
  KeyCurrentCatalog :: bytes
  KeyCurrentDbSchema :: bytes
  KeyIsolationLevel :: bytes
  KeyReadOnly :: bytes
  ValueEnabled :: bytes
  ValueDisabled :: bytes
  LevelsReadCommitted :: "bytes list"
  LevelsSerializable :: "bytes list"
  KeyIngestTargetTable :: bytes
  KeyIngestTargetDBSchema :: bytes
  KeyIngestMode :: bytes
  KeyIngestTemporary :: bytes
  ModeCreate :: bytes
  ModeAppend :: bytes
  ModeReplace :: bytes
  ModeCreateAppend :: bytes
  AdbcVersion1_1_0 :: int

record driver_env =
  dr_keys :: adbc_keys
  dr_options :: options_env
  dr_unicode :: unicode
  dr_conv :: conv_env
  dr_bind :: bind_env
  dr_ctx :: ctx
  dr_dial :: dial_env
  dr_order :: "database \<Rightarrow> (bytes \<times> bytes) list"
  dr_net :: "dial_error \<Rightarrow> adbc_error"
  dr_fold :: "nat \<Rightarrow> nat"
  dr_build :: "bytes option"
  dr_refs :: "((bytes \<times> bytes) \<times> bytes \<times> bytes) list \<Rightarrow> ((bytes \<times> bytes) \<times> bytes \<times> bytes) list"

type_synonym ('z, 'a) world_op = "'z world \<Rightarrow> ((adbc_error + 'a) \<times> 'z world) option"

definition returnW :: "'a \<Rightarrow> ('z, 'a) world_op" where "returnW x w = Some (Inr x, w)"
definition failW :: "adbc_error \<Rightarrow> ('z, 'a) world_op" where "failW e w = Some (Inl e, w)"

definition bindW :: "('z, 'a) world_op \<Rightarrow> ('a \<Rightarrow> ('z, 'b) world_op) \<Rightarrow> ('z, 'b) world_op" where
  "bindW m f w = Option.bind (m w) (\<lambda>(r, w). case r of Inl e \<Rightarrow> Some (Inl e, w) | Inr x \<Rightarrow> f x w)"

definition on_cfg :: "(connConfig \<Rightarrow> connConfig) \<Rightarrow> ('z, unit) world_op" where
  "on_cfg f w = Some (Inr (), w\<lparr>w_conn := (w_conn w)\<lparr>cn_cfg := f (cn_cfg (w_conn w))\<rparr>\<rparr>)"

definition set_autoCommit :: "bool \<Rightarrow> ('z, unit) world_op" where
  "set_autoCommit b w = Some (Inr (), w\<lparr>w_conn := (w_conn w)\<lparr>cn_autoCommit := b\<rparr>\<rparr>)"

text \<open>The error of a bind value travels as a \<open>SinkErr\<close>; one of them has a status of its own.\<close>

definition call_status :: "adbc_error option \<Rightarrow> ttc_error \<Rightarrow> adbc_error" where
  "call_status sk e =
     fromTTCError (if sk \<noteq> None then sk
       else if unwrapped e = SinkErr months_error then Some (not_implemented months_error)
       else if unwrapped e = SinkErr ''panic'' then Some AdbcPanic else None) e"

subsection \<open>Opening a connection\<close>

text \<open>What a failed dial is; errors of the network are the platform's.\<close>

definition dial_status :: "driver_env \<Rightarrow> dial_error \<Rightarrow> adbc_error" where
  "dial_status env e =
     (case e of
        NotDialed _ \<Rightarrow> dr_net env e | TLSFailed \<Rightarrow> dr_net env e
      | NNERequired \<Rightarrow> AdbcError (statusForORA 12660) ''encryption required'' 12660
      | NNENotNegotiated \<Rightarrow> AdbcError (statusForORA 12660) ''encryption not negotiated'' 12660
      | ListenerRefused code _ \<Rightarrow> AdbcError (statusForORA code) ''listener refused'' (int32_of code)
      | DialErr t \<Rightarrow> fromTTCError None t
      | _ \<Rightarrow> plain_status ''dial'')"

text \<open>\<open>z\<close> is the connection before it is dialed; the map iterates over a copy of the options.\<close>

definition db_Open :: "driver_env \<Rightarrow> database \<Rightarrow> 'z dialing_scheme \<Rightarrow> (adbc_error + 'z world) option" where
  "db_Open env db z =
     (case parseOptions (dr_options env) (dr_order env db) of Inl e \<Rightarrow> Some (Inl e)
      | Inr c \<Rightarrow> map_option (\<lambda>(r, s).
          case r of Inl e \<Rightarrow> Inl (dial_status env e)
          | Inr _ \<Rightarrow> Inr \<lparr>w_conn = \<lparr>cn_cfg = c, cn_autoCommit = True, cn_closed = False\<rparr>, w_session = s, w_cache = Map.empty, w_calls = 0\<rparr>)
        (Dial (cc_ttc c) (dr_dial env) z))"

subsection \<open>Calls\<close>

text \<open>A call on the session with the context of its turn.\<close>

definition session_call :: "driver_env \<Rightarrow>
    (ttc_error option \<Rightarrow> ttc_error option \<Rightarrow> ttc_error option \<Rightarrow> 'z dialing_scheme \<Rightarrow> ((ttc_error + 'a) \<times> 'z dialing_scheme) option) \<Rightarrow>
    ('z, 'a) world_op" where
  "session_call env f w =
     (let (before, between, after) = dr_ctx env (w_calls w) in
      map_option (\<lambda>(r, s). (map_sum (call_status None) id r, w\<lparr>w_session := s, w_calls := w_calls w + 1\<rparr>))
        (f before between after (w_session w)))"

definition conn_options :: "bool \<Rightarrow> bind_column list \<Rightarrow> int \<Rightarrow> ExecuteOptions" where
  "conn_options auto bs n = \<lparr>opt_binds = bs, opt_NumRows = n, opt_PrefetchRows = 0, opt_ArraySize = 0, opt_AutoCommit = auto,
     opt_ParseOnly = False, opt_Sink = None, opt_BatchErrors = False\<rparr>"

text \<open>Executing a statement: its new state, also after an error.\<close>

definition execute_on :: "driver_env \<Rightarrow> ExecuteOptions \<Rightarrow> statement \<Rightarrow> 'z world \<Rightarrow>
    ((ttc_error + unit) \<times> statement \<times> 'z world) option" where
  "execute_on env o' st w =
     (let (before, between, after) = dr_ctx env (w_calls w) in
      map_option (\<lambda>(r, s). (r, stm s, w\<lparr>w_session := s, w_calls := w_calls w + 1\<rparr>))
        (Execute before between after o' ((w_session w)\<lparr>stm := st, dm := new_data\<rparr>)))"

definition fetch_on :: "driver_env \<Rightarrow> row_sink option \<Rightarrow> int \<Rightarrow> statement \<Rightarrow> 'z world \<Rightarrow>
    ((ttc_error + unit) \<times> statement \<times> 'z world) option" where
  "fetch_on env sk n st w =
     (let (before, between, after) = dr_ctx env (w_calls w) in
      map_option (\<lambda>(r, s). (r, stm s, w\<lparr>w_session := s, w_calls := w_calls w + 1\<rparr>))
        (Fetch before between after sk n ((w_session w)\<lparr>stm := st, dm := new_data\<rparr>)))"

definition describe_on :: "driver_env \<Rightarrow> statement \<Rightarrow> 'z world \<Rightarrow> ((ttc_error + unit) \<times> statement \<times> 'z world) option" where
  "describe_on env st w =
     (let (before, between, after) = dr_ctx env (w_calls w) in
      map_option (\<lambda>(r, s). (r, stm s, w\<lparr>w_session := s, w_calls := w_calls w + 1\<rparr>))
        (Describe before between after ((w_session w)\<lparr>stm := st, dm := new_data\<rparr>)))"

definition close_on :: "statement \<Rightarrow> 'z world \<Rightarrow> statement \<times> 'z world" where
  "close_on st w = (let (st, s) = close_statement st (w_session w) in (st, w\<lparr>w_session := s\<rparr>))"

definition execNoResult :: "driver_env \<Rightarrow> bytes \<Rightarrow> ('z, unit) world_op" where
  "execNoResult env sql w =
     map_option (\<lambda>(r, st, w). (map_sum (call_status None) id r, snd (close_on st w)))
       (execute_on env (conn_options (cn_autoCommit (w_conn w)) [] 0) (Prepare (dr_unicode env) sql) w)"

definition conn_Close :: "('z, unit) world_op" where
  "conn_Close w =
     (if cn_closed (w_conn w) then Some (Inl (errStatus StatusInvalidState ''already closed''), w)
      else map_option (\<lambda>(r, s). (map_sum (\<lambda>_. plain_status ''close'') id r, w\<lparr>w_conn := (w_conn w)\<lparr>cn_closed := True\<rparr>, w_session := s\<rparr>))
        (Close_conn (w_session w)))"

definition conn_Commit :: "driver_env \<Rightarrow> ('z, unit) world_op" where
  "conn_Commit env w =
     (if cn_autoCommit (w_conn w) then Some (Inl (errStatus StatusInvalidState ''autocommit is enabled''), w)
      else session_call env (\<lambda>before between after. Commit before after) w)"

definition conn_Rollback :: "driver_env \<Rightarrow> ('z, unit) world_op" where
  "conn_Rollback env w =
     (if cn_autoCommit (w_conn w) then Some (Inl (errStatus StatusInvalidState ''autocommit is enabled''), w)
      else session_call env (\<lambda>before between after. Rollback before after) w)"

subsection \<open>Options of a connection\<close>

definition set_count :: "bytes \<Rightarrow> int \<Rightarrow> (int \<Rightarrow> connConfig \<Rightarrow> connConfig) \<Rightarrow> ('z, unit) world_op" where
  "set_count value least f = (case parse_count least value of Inl e \<Rightarrow> failW e | Inr n \<Rightarrow> on_cfg (f n))"

definition set_mode :: "adbc_error + bytes \<Rightarrow> (bytes \<Rightarrow> typeOptions \<Rightarrow> typeOptions) \<Rightarrow> ('z, unit) world_op" where
  "set_mode r f = (case r of Inl e \<Rightarrow> failW e | Inr m \<Rightarrow> on_cfg (\<lambda>c. c\<lparr>types := f m (types c)\<rparr>))"

definition on_session :: "(conn_state \<Rightarrow> conn_state) \<Rightarrow> ('z, unit) world_op" where
  "on_session f w = Some (Inr (), w\<lparr>w_session := (w_session w)\<lparr>conn := f (conn (w_session w))\<rparr>\<rparr>)"

definition set_autocommit_option :: "driver_env \<Rightarrow> bytes \<Rightarrow> ('z, unit) world_op" where
  "set_autocommit_option env value w =
     (if value = ValueEnabled (dr_keys env) then
        bindW (if \<not> cn_autoCommit (w_conn w) \<and> txnInProgress (conn (w_session w))
               then session_call env (\<lambda>_ _ _. Commit None None) else returnW ()) (\<lambda>_. set_autoCommit True) w
      else if value = ValueDisabled (dr_keys env) then set_autoCommit False w
      else failW (invalid ''unknown value'') w)"

definition set_isolation :: "driver_env \<Rightarrow> bytes \<Rightarrow> ('z, unit) world_op" where
  "set_isolation env value =
     (if value \<in> set (LevelsReadCommitted (dr_keys env)) then execNoResult env (asc ''ALTER SESSION SET ISOLATION_LEVEL = READ COMMITTED'')
      else if value \<in> set (LevelsSerializable (dr_keys env)) then execNoResult env (asc ''ALTER SESSION SET ISOLATION_LEVEL = SERIALIZABLE'')
      else failW (not_implemented ''isolation level''))"

definition client_info_option :: "bytes \<Rightarrow> u8 option" where
  "client_info_option k = lookup_word k [([''adbc.oracle.module''], 1), ([''adbc.oracle.action''], 2), ([''adbc.oracle.client_info''], 4),
     ([''adbc.oracle.client_identifier''], 8)]"

definition conn_SetOption :: "driver_env \<Rightarrow> bytes \<Rightarrow> bytes \<Rightarrow> ('z, unit) world_op" where
  "conn_SetOption env k value =
     (let K = dr_keys env; is_key = (\<lambda>n. k = asc n); oe = dr_options env in
      if k = KeyAutoCommit K then set_autocommit_option env value
      else if k = KeyCurrentDbSchema K then
        bindW (on_session (SetCurrentSchema value)) (\<lambda>_. session_call env (\<lambda>_ _ _. Ping None None))
      else if k = KeyIsolationLevel K then set_isolation env value
      else if k = KeyReadOnly K then
        (if value = ValueEnabled K then execNoResult env (asc ''SET TRANSACTION READ ONLY'')
         else if value = ValueDisabled K then returnW () else failW (invalid ''invalid value''))
      else if is_key ''adbc.oracle.batch_size'' then set_count value 1 (\<lambda>n c. c\<lparr>batchSize := n\<rparr>)
      else if is_key ''adbc.oracle.prefetch_rows'' then set_count value 1 (\<lambda>n c. c\<lparr>cc_prefetchRows := n\<rparr>)
      else if is_key ''adbc.oracle.number_mode'' then set_mode (parseNumberMode oe value) (\<lambda>m t. t\<lparr>numberMode := m\<rparr>)
      else if is_key ''adbc.oracle.interval_mode'' then set_mode (parseIntervalMode oe value) (\<lambda>m t. t\<lparr>intervalMode := m\<rparr>)
      else if is_key ''adbc.oracle.date_mode'' then set_mode (parseDateMode oe value) (\<lambda>m t. t\<lparr>dateMode := m\<rparr>)
      else if is_key ''adbc.oracle.batch_bytes'' then set_count value 0 (\<lambda>n c. c\<lparr>batchBytes := n\<rparr>)
      else if is_key ''adbc.oracle.use_extension_types'' then on_cfg (\<lambda>c. c\<lparr>types := (types c)\<lparr>useExtensionTypes := isTrue oe value\<rparr>\<rparr>)
      else case client_info_option k of
        Some which \<Rightarrow> on_session (SetClientInfo value value value value which)
      | None \<Rightarrow> failW (not_implemented ''unknown connection option''))"

subsection \<open>Queries on the dictionary\<close>

text \<open>
  \<open>stringSink\<close> of \<^verbatim>\<open>metadata.go\<close>: rows as text, each value with whether it is null; its error is a number that does not
  decode or a panic.
\<close>

type_synonym stringRow = "(bytes \<times> bool) list"

record stringSink =
  ss_rows :: "stringRow list"
  ss_cur :: stringRow
  ss_last :: stringRow

datatype string_error = StringNumber number_error | StringPanic

definition new_strings :: stringSink where
  "new_strings = \<lparr>ss_rows = [], ss_cur = [], ss_last = []\<rparr>"

definition string_text :: "column \<Rightarrow> bytes \<Rightarrow> string_error + bytes" where
  "string_text c b =
     (if FetchType c = TypeNumber \<or> FetchType c = TypeBinaryInteger then map_sum StringNumber Text (DecodeNumber b) else Inr b)"

definition string_step :: "column list \<Rightarrow> sink_event \<Rightarrow> stringSink \<Rightarrow> string_error + stringSink" where
  "string_step cols ev s =
     (let put = (\<lambda>x. s\<lparr>ss_cur := ss_cur s @ [x]\<rparr>) in
      case ev of
        AppendValue i b \<Rightarrow>
          (if i \<ge> length cols then Inl StringPanic else map_sum id (\<lambda>v. put (v, False)) (string_text (cols ! i) b))
      | AppendNull _ \<Rightarrow> Inr (put ([], True))
      | AppendDuplicate i \<Rightarrow> (if i \<ge> length (ss_last s) then Inl StringPanic else Inr (put (ss_last s ! i)))
      | FinishRow \<Rightarrow> Inr \<lparr>ss_rows = ss_rows s @ [ss_cur s], ss_cur = [], ss_last = ss_cur s\<rparr>)"

fun string_run :: "column list \<Rightarrow> sink_event list \<Rightarrow> stringSink \<Rightarrow> string_error + stringSink" where
  "string_run cols [] s = Inr s"
| "string_run cols (ev # evs) s = (case string_step cols ev s of Inl e \<Rightarrow> Inl e | Inr s \<Rightarrow> string_run cols evs s)"

definition string_row_sink :: "stringSink \<Rightarrow> row_sink" where
  "string_row_sink s0 cols hist ev =
     (case string_run cols (hist @ [ev]) s0 of Inl StringPanic \<Rightarrow> Some ''panic'' | Inl (StringNumber _) \<Rightarrow> Some ''number'' | Inr _ \<Rightarrow> None)"

text \<open>The outcome of a call that fed the sink.\<close>

definition after_strings :: "stringSink \<Rightarrow> (ttc_error + unit) \<times> statement \<times> 'z world \<Rightarrow> (adbc_error + stringSink) \<times> statement \<times> 'z world" where
  "after_strings sk = (\<lambda>(r, st, w).
     ((case (r, string_run (columns st) (delivered (dm (w_session w))) sk) of
         (Inl e, _) \<Rightarrow> Inl (call_status None e) | (Inr _, Inr sk) \<Rightarrow> Inr sk | (Inr _, Inl _) \<Rightarrow> Inl AdbcPanic), st, w))"

partial_function (option) query_rows :: "driver_env \<Rightarrow> stringSink \<Rightarrow> statement \<Rightarrow> 'z world \<Rightarrow>
    ((adbc_error + stringRow list) \<times> statement \<times> 'z world) option" where
  "query_rows env sk st w =
     (if \<not> moreRows st then Some (Inr (ss_rows sk), st, w)
      else Option.bind (fetch_on env (Some (string_row_sink sk)) 1000 st w) (\<lambda>x.
        case after_strings sk x of (Inl e, st, w) \<Rightarrow> Some (Inl e, st, w) | (Inr sk, st, w) \<Rightarrow> query_rows env sk st w))"

definition query_options :: "bind_column list \<Rightarrow> ExecuteOptions" where
  "query_options bs = \<lparr>opt_binds = bs, opt_NumRows = 0, opt_PrefetchRows = 1000, opt_ArraySize = 1000, opt_AutoCommit = False,
     opt_ParseOnly = False, opt_Sink = Some (string_row_sink new_strings), opt_BatchErrors = False\<rparr>"

definition queryAll :: "driver_env \<Rightarrow> bytes \<Rightarrow> ('z, stringRow list) world_op" where
  "queryAll env sql w =
     map_option (\<lambda>(r, st, w). (r, snd (close_on st w)))
       (Option.bind (execute_on env (query_options []) (Prepare (dr_unicode env) sql) w) (\<lambda>x.
          case after_strings new_strings x of (Inl e, st, w) \<Rightarrow> Some (Inl e, st, w) | (Inr sk, st, w) \<Rightarrow> query_rows env sk st w))"

text \<open>A text in single quotes.\<close>

definition quoted :: "string \<Rightarrow> string" where
  "quoted t = [CHR 0x27] @ t @ [CHR 0x27]"

text \<open>Indexing past the end of a row is a panic.\<close>

definition row_get :: "stringRow \<Rightarrow> nat \<Rightarrow> bytes option" where
  "row_get r i = (if i < length r then Some (fst (r ! i)) else None)"

definition row_isNull :: "stringRow \<Rightarrow> nat \<Rightarrow> bool option" where
  "row_isNull r i = (if i < length r then Some (snd (r ! i)) else None)"

definition from_row :: "'a option \<Rightarrow> adbc_error + 'a" where
  "from_row r = (case r of None \<Rightarrow> Inl AdbcPanic | Some x \<Rightarrow> Inr x)"

definition liftW :: "adbc_error + 'a \<Rightarrow> ('z, 'a) world_op" where
  "liftW r w = Some (r, w)"

definition current_schema :: "driver_env \<Rightarrow> ('z, bytes) world_op" where
  "current_schema env = bindW (queryAll env (asc (''SELECT SYS_CONTEXT('' @ quoted ''USERENV'' @ '', '' @ quoted ''CURRENT_SCHEMA'' @ '') FROM DUAL'')))
     (\<lambda>rows. case rows of [] \<Rightarrow> returnW [] | r # _ \<Rightarrow> liftW (from_row (row_get r 0)))"

subsection \<open>Reading options back\<close>

definition enabled :: "adbc_keys \<Rightarrow> bool \<Rightarrow> bytes" where
  "enabled K b = (if b then ValueEnabled K else ValueDisabled K)"

definition conn_GetOption :: "driver_env \<Rightarrow> bytes \<Rightarrow> ('z, bytes) world_op" where
  "conn_GetOption env k w =
     (let K = dr_keys env; is_key = (\<lambda>n. k = asc n); c = cn_cfg (w_conn w); (e, chk, active) = NNEInfo (w_session w) in
      if k = KeyAutoCommit K then returnW (enabled K (cn_autoCommit (w_conn w))) w
      else if k = KeyCurrentCatalog K then returnW (si_dbName (sinfo (w_session w))) w
      else if k = KeyCurrentDbSchema K then current_schema env w
      else if is_key ''adbc.oracle.batch_size'' then returnW (itoa_bytes (batchSize c)) w
      else if is_key ''adbc.oracle.prefetch_rows'' then returnW (itoa_bytes (cc_prefetchRows c)) w
      else if is_key ''adbc.oracle.number_mode'' then returnW (numberMode (types c)) w
      else if is_key ''adbc.oracle.interval_mode'' then returnW (intervalMode (types c)) w
      else if is_key ''adbc.oracle.date_mode'' then returnW (dateMode (types c)) w
      else if is_key ''adbc.oracle.batch_bytes'' then returnW (itoa_bytes (batchBytes c)) w
      else if is_key ''adbc.oracle.nne_active'' then returnW (asc (if active then ''true'' else ''false'')) w
      else if is_key ''adbc.oracle.nne_algorithms'' then returnW (if \<not> active then [] else asc (e @ '','' @ chk)) w
      else if is_key ''adbc.oracle.use_extension_types'' then returnW (enabled K (useExtensionTypes (types c))) w
      else failW (not_found ''unknown connection option'') w)"

text \<open>The typed variants know no option.\<close>

definition conn_GetOptionBytes :: "bytes \<Rightarrow> adbc_error + bytes" where
  "conn_GetOptionBytes k = Inl (not_found ''unknown connection option'')"
definition conn_GetOptionInt :: "bytes \<Rightarrow> adbc_error + int" where
  "conn_GetOptionInt k = Inl (not_found ''unknown connection option'')"
definition conn_GetOptionDouble :: "bytes \<Rightarrow> adbc_error + u64" where
  "conn_GetOptionDouble k = Inl (not_found ''unknown connection option'')"
definition conn_SetOptionBytes :: "bytes \<Rightarrow> bytes \<Rightarrow> adbc_error" where
  "conn_SetOptionBytes k v = not_implemented ''byte-valued connection options''"
definition conn_SetOptionInt :: "bytes \<Rightarrow> int \<Rightarrow> adbc_error" where
  "conn_SetOptionInt k n = not_implemented ''integer-valued connection options''"
definition conn_SetOptionDouble :: "bytes \<Rightarrow> u64 \<Rightarrow> adbc_error" where
  "conn_SetOptionDouble k f = not_implemented ''double-valued connection options''"

end
