(* ===== verification/AdbcStatement.thy ===== *)
theory AdbcStatement
  imports AdbcConnection
begin

text \<open>
  Statements (\<^verbatim>\<open>statementImpl\<close> of \<^verbatim>\<open>driver/oracle/driver.go\<close>, the OUT binds of \<^verbatim>\<open>arrow_conv.go\<close> and the ingest of
  \<^verbatim>\<open>bulk_ingest.go\<close>). A bound record is its schema, its arrays and its number of rows; a bound stream is the
  batches it has left and the error it ends with. The reader of an implicit result has a copy of the child statement.
\<close>

subsection \<open>Placeholders\<close>

datatype qmark_mode = InSQL | InSingle | InDouble | InLine | InBlock

definition sql_mode :: "u8 \<Rightarrow> bytes \<Rightarrow> qmark_mode" where
  "sql_mode c rest =
     (if c = 39 then InSingle else if c = 34 then InDouble
      else if c = 45 \<and> take 1 rest = [45] then InLine
      else if c = 47 \<and> take 1 rest = [42] then InBlock else InSQL)"

fun rewrite_from :: "qmark_mode \<Rightarrow> nat \<Rightarrow> bytes \<Rightarrow> bytes" where
  "rewrite_from m n [] = []"
| "rewrite_from InLine n (c # cs) = c # rewrite_from (if c = 10 then InSQL else InLine) n cs"
| "rewrite_from InBlock n [c] = [c]"
| "rewrite_from InBlock n (c # d # cs) =
     (if c = 42 \<and> d = 47 then c # d # rewrite_from InSQL n cs else c # rewrite_from InBlock n (d # cs))"
| "rewrite_from InSingle n (c # cs) = c # rewrite_from (if c = 39 then InSQL else InSingle) n cs"
| "rewrite_from InDouble n (c # cs) = c # rewrite_from (if c = 34 then InSQL else InDouble) n cs"
| "rewrite_from InSQL n (c # cs) =
     (if c = 63 then asc ('':'' @ dec_nat (n + 1)) @ rewrite_from InSQL (n + 1) cs
      else c # rewrite_from (sql_mode c cs) n cs)"

definition rewriteQmark :: "bytes \<Rightarrow> bytes" where
  "rewriteQmark sql = (if 63 \<notin> set sql then sql else rewrite_from InSQL 0 sql)"

subsection \<open>The state\<close>

record arrow_record =
  rec_Fields :: "arrow_field list"
  rec_Columns :: "arrow_array list"
  rec_NumRows :: nat

record record_stream =
  rs_Fields :: "arrow_field list"
  rs_Batches :: "arrow_record list"
  rs_Err :: bool

record statement_impl = ingest_options +
  si_sql :: bytes
  si_closed :: bool
  si_bound :: "arrow_record option"
  si_boundStream :: "record_stream option"
  si_prepared :: "statement option"
  si_bindSchema :: "arrow_field list option"

type_synonym ('z, 'a) stmt_op = "statement_impl \<times> 'z world \<Rightarrow> ((adbc_error + 'a) \<times> statement_impl \<times> 'z world) option"

definition no_ingest :: ingest_options where
  "no_ingest = \<lparr>targetTable = [], targetSchema = [], ingestMode = [], ingestTemporary = False, ingestBatchRows = 0,
     ingestVarcharLength = 0, ingestRawLength = 0, ingestStringType = [], ingestBinaryType = [], ingestStructType = [],
     ingestTablespace = []\<rparr>"

definition NewStatement :: "connection_impl \<Rightarrow> adbc_error + statement_impl" where
  "NewStatement c =
     (if cn_closed c then Inl (errStatus StatusInvalidState ''connection is closed'')
      else Inr (ingest_options.extend no_ingest (statement_impl.fields [] False None None None None)))"

definition clearBound :: "statement_impl \<Rightarrow> statement_impl" where
  "clearBound s = s\<lparr>si_bound := None, si_boundStream := None\<rparr>"

text \<open>Giving up the prepared statement.\<close>

definition drop_prepared :: "statement_impl \<times> 'z world \<Rightarrow> statement_impl \<times> 'z world" where
  "drop_prepared = (\<lambda>(s, w). case si_prepared s of None \<Rightarrow> (s, w)
     | Some st \<Rightarrow> (s\<lparr>si_prepared := None\<rparr>, snd (close_on st w)))"

definition Close_statement :: "('z, unit) stmt_op" where
  "Close_statement = (\<lambda>(s, w).
     if si_closed s then Some (Inl (errStatus StatusInvalidState ''statement already closed''), s, w)
     else Some (Inr (), drop_prepared (clearBound (s\<lparr>si_closed := True\<rparr>), w)))"

definition SetSqlQuery :: "bytes \<Rightarrow> ('z, unit) stmt_op" where
  "SetSqlQuery sql = (\<lambda>(s, w). Some (Inr (), drop_prepared (s\<lparr>si_sql := sql\<rparr>, w)))"

definition Bind :: "arrow_record \<Rightarrow> statement_impl \<Rightarrow> statement_impl" where
  "Bind r s = (clearBound s)\<lparr>si_bound := Some r\<rparr>"

definition BindStream :: "record_stream \<Rightarrow> statement_impl \<Rightarrow> statement_impl" where
  "BindStream r s = (clearBound s)\<lparr>si_boundStream := Some r\<rparr>"

subsection \<open>Options\<close>

definition ingest_count :: "bytes \<Rightarrow> (int \<Rightarrow> statement_impl) \<Rightarrow> adbc_error + statement_impl" where
  "ingest_count value f = map_sum id f (parse_count 1 value)"

definition ingest_word :: "(nat \<Rightarrow> nat) \<Rightarrow> string list \<Rightarrow> bytes \<Rightarrow> (bytes \<Rightarrow> statement_impl) \<Rightarrow> adbc_error + statement_impl" where
  "ingest_word T ws value f = (let u = map_runes T value in if one_of u ws then Inr (f u) else Inl (invalid ''invalid value''))"

definition stmt_SetOption :: "driver_env \<Rightarrow> bytes \<Rightarrow> bytes \<Rightarrow> statement_impl \<Rightarrow> adbc_error + statement_impl" where
  "stmt_SetOption env k value s =
     (let K = dr_keys env; T = oe_upper (dr_options env); is_key = (\<lambda>n. k = asc n) in
      if k = KeyIngestTargetTable K then Inr (s\<lparr>targetTable := value\<rparr>)
      else if k = KeyIngestTargetDBSchema K then Inr (s\<lparr>targetSchema := value\<rparr>)
      else if k = KeyIngestMode K then
        (if value \<in> {ModeCreate K, ModeAppend K, ModeReplace K, ModeCreateAppend K} then Inr (s\<lparr>ingestMode := value\<rparr>)
         else Inl (invalid ''unknown ingest mode''))
      else if k = KeyIngestTemporary K then
        (if value = ValueEnabled K then Inr (s\<lparr>ingestTemporary := True\<rparr>)
         else if value = ValueDisabled K then Inr (s\<lparr>ingestTemporary := False\<rparr>)
         else Inl (invalid ''invalid value''))
      else if is_key ''adbc.oracle.ingest.batch_rows'' then ingest_count value (\<lambda>n. s\<lparr>ingestBatchRows := n\<rparr>)
      else if is_key ''adbc.oracle.ingest.varchar_length'' then ingest_count value (\<lambda>n. s\<lparr>ingestVarcharLength := n\<rparr>)
      else if is_key ''adbc.oracle.ingest.raw_length'' then ingest_count value (\<lambda>n. s\<lparr>ingestRawLength := n\<rparr>)
      else if is_key ''adbc.oracle.ingest.string_type'' then
        ingest_word T [''VARCHAR2'', ''CLOB'', ''NVARCHAR2'', ''NCLOB''] value (\<lambda>u. s\<lparr>ingestStringType := u\<rparr>)
      else if is_key ''adbc.oracle.ingest.binary_type'' then ingest_word T [''RAW'', ''BLOB''] value (\<lambda>u. s\<lparr>ingestBinaryType := u\<rparr>)
      else if is_key ''adbc.oracle.ingest.struct_type'' then
        ingest_word T [''JSON'', ''CLOB'', ''VARCHAR2'', ''BLOB''] value (\<lambda>u. s\<lparr>ingestStructType := u\<rparr>)
      else if is_key ''adbc.oracle.ingest.tablespace'' then Inr (s\<lparr>ingestTablespace := value\<rparr>)
      else Inl (not_implemented ''unknown statement option''))"

definition stmt_SetOptionInt :: "driver_env \<Rightarrow> bytes \<Rightarrow> int \<Rightarrow> statement_impl \<Rightarrow> adbc_error + statement_impl" where
  "stmt_SetOptionInt env k n = stmt_SetOption env k (itoa_bytes n)"

definition stmt_SetOptionBytes :: "bytes \<Rightarrow> bytes \<Rightarrow> adbc_error" where
  "stmt_SetOptionBytes k v = not_implemented ''byte-valued statement options''"
definition stmt_SetOptionDouble :: "bytes \<Rightarrow> u64 \<Rightarrow> adbc_error" where
  "stmt_SetOptionDouble k f = not_implemented ''double-valued statement options''"
definition stmt_GetOptionBytes :: "bytes \<Rightarrow> adbc_error + bytes" where
  "stmt_GetOptionBytes k = Inl (not_found ''unknown statement option'')"
definition stmt_GetOptionInt :: "bytes \<Rightarrow> adbc_error + int" where
  "stmt_GetOptionInt k = Inl (not_found ''unknown statement option'')"
definition stmt_GetOptionDouble :: "bytes \<Rightarrow> adbc_error + u64" where
  "stmt_GetOptionDouble k = Inl (not_found ''unknown statement option'')"

definition stmt_GetOption :: "adbc_keys \<Rightarrow> bytes \<Rightarrow> 'a ingest_options_scheme \<Rightarrow> adbc_error + bytes" where
  "stmt_GetOption K k s =
     (if k = KeyIngestTargetTable K then Inr (targetTable s)
      else if k = KeyIngestTargetDBSchema K then Inr (targetSchema s)
      else if k = KeyIngestMode K then Inr (or_else (ingestMode s) (ModeCreate K))
      else if k = KeyIngestTemporary K then Inr (enabled K (ingestTemporary s))
      else Inl (not_found ''unknown statement option''))"

subsection \<open>Parameters\<close>

definition Prepare_statement :: "driver_env \<Rightarrow> statement_impl \<Rightarrow> adbc_error + statement_impl" where
  "Prepare_statement env s =
     (if si_sql s = [] then Inl (errStatus StatusInvalidState ''no SQL set'')
      else Inr (s\<lparr>si_prepared := Some (Prepare (dr_unicode env) (rewriteQmark (si_sql s)))\<rparr>))"

text \<open>\<open>statement()\<close>: the prepared statement, which is prepared now if there is none.\<close>

definition prepared :: "driver_env \<Rightarrow> statement_impl \<Rightarrow> statement \<times> statement_impl" where
  "prepared env s =
     (case si_prepared s of Some st \<Rightarrow> (st, s)
      | None \<Rightarrow> let st = Prepare (dr_unicode env) (rewriteQmark (si_sql s)) in (st, s\<lparr>si_prepared := Some st\<rparr>))"

text \<open>The Go string of a list of runes.\<close>

definition go_string :: "rune list \<Rightarrow> bytes" where
  "go_string rs = concat (map (\<lambda>r. EncodeRune (word_of_nat r)) rs)"

definition GetParameterSchema :: "driver_env \<Rightarrow> statement_impl \<Rightarrow> arrow_field list \<times> statement_impl" where
  "GetParameterSchema env s =
     (let (st, s) = prepared env s in
      (map (\<lambda>n. \<lparr>fd_Name = go_string n, fd_Type = NullType, fd_Nullable = True, fd_Metadata = []\<rparr>) (bindNames st), s))"

definition bind_record :: "driver_env \<Rightarrow> 'z dialing_scheme \<Rightarrow> arrow_record \<Rightarrow> adbc_error + bind_column list" where
  "bind_record env s r = bindsFromRecord (dr_bind env) (MaxStringSize (caps s)) (si_supportsBool (sinfo s)) (rec_Columns r)"

text \<open>The next batch of a stream.\<close>

definition stream_Next :: "record_stream \<Rightarrow> arrow_record option \<times> record_stream" where
  "stream_Next r = (case rs_Batches r of [] \<Rightarrow> (None, r) | b # bs \<Rightarrow> (Some b, r\<lparr>rs_Batches := bs\<rparr>))"

definition bound_record :: "statement_impl \<Rightarrow> (adbc_error + arrow_record option) \<times> statement_impl" where
  "bound_record s =
     (case si_bound s of Some r \<Rightarrow> (Inr (Some r), s)
      | None \<Rightarrow> (case si_boundStream s of None \<Rightarrow> (Inr None, s)
        | Some rs \<Rightarrow> (let (b, rs) = stream_Next rs; s = s\<lparr>si_boundStream := Some rs\<rparr> in
            case b of Some r \<Rightarrow> (Inr (Some r), s)
            | None \<Rightarrow> (Inl (if rs_Err rs then errStatus StatusIO ''bound stream'' else invalid ''bound stream produced no batches''), s))))"

definition bindColumns :: "driver_env \<Rightarrow> 'z dialing_scheme \<Rightarrow> statement \<Rightarrow> statement_impl \<Rightarrow>
    (adbc_error + bind_column list \<times> int) \<times> statement_impl" where
  "bindColumns env sess st s0 =
     (case bound_record s0 of (Inl e, s) \<Rightarrow> (Inl e, s)
      | (Inr None, s) \<Rightarrow>
          (if bindNames st \<noteq> [] then (Inl (invalid ''no parameters were bound''), s) else (Inr ([], 1), s))
      | (Inr (Some r), s) \<Rightarrow>
          (if length (rec_Columns r) \<noteq> length (bindNames st) then (Inl (invalid ''wrong number of parameter columns''), s)
           else case bind_record env sess r of Inl e \<Rightarrow> (Inl e, s)
           | Inr bs \<Rightarrow> (Inr (bs, if rec_NumRows r = 0 then 1 else int (rec_NumRows r)), s\<lparr>si_bindSchema := Some (rec_Fields r)\<rparr>)))"

subsection \<open>OUT binds\<close>

definition bindDirInputOutput :: u8 where "bindDirInputOutput = 48"

definition hasOutBinds :: "'a stmt_scheme \<Rightarrow> bool" where
  "hasOutBinds st \<longleftrightarrow> list_ex (\<lambda>d. d \<noteq> bindDirInput) (outDirs st)"

text \<open>A NUMBER takes its shape from the Arrow type the caller bound; precision and scale are kept in eight bits.\<close>

definition shape_number :: "arrow_type \<Rightarrow> column \<Rightarrow> column" where
  "shape_number t c =
     (if t \<in> {Int8Type, Int16Type, Int32Type, Int64Type, Uint8Type, Uint16Type, Uint32Type, Uint64Type, BooleanType} then
        c\<lparr>Precision := 18, Scale := 0\<rparr>
      else case t of
        Decimal128Type p s \<Rightarrow> c\<lparr>Precision := int8_of p, Scale := int8_of s\<rparr>
      | Decimal256Type p s \<Rightarrow> (if p \<le> 38 then c\<lparr>Precision := int8_of p, Scale := int8_of s\<rparr> else c)
      | _ \<Rightarrow> c)"

definition out_column :: "statement \<Rightarrow> bind_column \<Rightarrow> arrow_field list option \<Rightarrow> nat \<Rightarrow> column" where
  "out_column st b bound i =
     (let c = (type_column (BindType b))\<lparr>Name := (if i < length (bindNames st) then go_string (bindNames st ! i) else []),
            CSForm := BindCSForm b, NullsAllowed := True, BufferSize := BindBufferSize b, FetchType := BindType b,
            FetchCSForm := BindCSForm b\<rparr> in
      if BindType b \<in> {TypeTimestamp, TypeTimestampTZ, TypeTimestampLTZ} then c\<lparr>Scale := 9\<rparr>
      else if BindType b = TypeNumber then
        (case bound of Some fs \<Rightarrow> (if i < length fs then shape_number (fd_Type (fs ! i)) c else c) | None \<Rightarrow> c)
      else c)"

definition out_indexes :: "statement \<Rightarrow> bind_column list \<Rightarrow> nat list" where
  "out_indexes st bs = filter (\<lambda>i. outDirs st ! i \<noteq> bindDirInput \<and> i < length bs) [0..<length (outDirs st)]"

definition outBindColumns :: "statement \<Rightarrow> bind_column list \<Rightarrow> arrow_field list option \<Rightarrow> column list" where
  "outBindColumns st bs bound = map (\<lambda>i. out_column st (bs ! i) bound i) (out_indexes st bs)"

fun out_fields :: "statement \<Rightarrow> typeOptions \<Rightarrow> column list \<Rightarrow> nat list \<Rightarrow> adbc_error + arrow_field list" where
  "out_fields st opts (c # cs) (i # is') =
     andThen (arrowTypeFor c opts) (\<lambda>dt.
       let pt = (if outDirs st ! i = bindDirInputOutput then ''IN OUT'' else ''OUT'');
           f = \<lparr>fd_Name = Name c, fd_Type = dt, fd_Nullable = True,
                fd_Metadata = [(asc ''ORACLE:type'', TypeName c), (asc ''ORACLE:parameter_type'', asc pt)]\<rparr>
       in andThen (out_fields st opts cs is') (\<lambda>fs. Inr (f # fs)))"
| "out_fields st opts _ _ = Inr []"

fun out_values :: "conv_env \<Rightarrow> statement \<Rightarrow> column list \<Rightarrow> nat list \<Rightarrow> arrow_field list \<Rightarrow> go_error + arrow_value option list" where
  "out_values env st (c # cs) (i # is') (f # fs) =
     (case OutBindValue i st of
        Inl _ \<Rightarrow> panicked
      | Inr (v, null) \<Rightarrow>
          andThen (if null then Inr None
                   else map_sum id Some (append_value env c (fd_Type f) (case v of None \<Rightarrow> [] | Some b \<Rightarrow> b))) (\<lambda>x.
          andThen (out_values env st cs is' fs) (\<lambda>xs. Inr (x # xs))))"
| "out_values env st _ _ _ = Inr []"

text \<open>The one row of OUT values, with its schema.\<close>

definition recordFromOutBinds :: "conv_env \<Rightarrow> statement \<Rightarrow> bind_column list \<Rightarrow> arrow_field list option \<Rightarrow> typeOptions \<Rightarrow>
    adbc_error + arrow_field list \<times> batch" where
  "recordFromOutBinds env st bs bound opts =
     (let cols = outBindColumns st bs bound; ix = out_indexes st bs in
      andThen (out_fields st opts cols ix) (\<lambda>fs.
      andThen (map_sum go_status id (out_values env st cols ix fs)) (\<lambda>vs. Inr (fs, map (\<lambda>v. [v]) vs))))"

subsection \<open>Ingest\<close>

definition sess_numbers :: "'z dialing_scheme \<Rightarrow> bool \<times> u32" where
  "sess_numbers s = (si_supportsBool (sinfo s), si_serverVersion (sinfo s) ! 0)"

definition vendor_code :: "adbc_error \<Rightarrow> int" where
  "vendor_code e = (case e of AdbcError _ _ n \<Rightarrow> n | AdbcPanic \<Rightarrow> 0)"

text \<open>Running a statement, with its error in hand.\<close>

definition tryW :: "('z, 'a) world_op \<Rightarrow> (adbc_error + 'a \<Rightarrow> ('z, 'b) world_op) \<Rightarrow> ('z, 'b) world_op" where
  "tryW m f w = Option.bind (m w) (\<lambda>(r, w). f r w)"

definition replaced :: "driver_env \<Rightarrow> statement_impl \<Rightarrow> ('z, unit) world_op" where
  "replaced env s =
     (let T = oe_upper (dr_options env) in
      tryW (execNoResult env (asc ''DROP TABLE '' @ qualifiedTarget T (ingest_options.truncate s) @ asc '' PURGE'')) (\<lambda>r.
        case r of Inl e \<Rightarrow> if vendor_code e = 942 then returnW () else failW e | Inr _ \<Rightarrow> returnW ()))"

definition created :: "driver_env \<Rightarrow> bytes \<Rightarrow> statement_impl \<Rightarrow> arrow_field list \<Rightarrow> ('z, unit) world_op" where
  "created env mode s fs w =
     (let T = oe_upper (dr_options env); (supportsBool, version) = sess_numbers (w_session w) in
      case buildCreateTableSQL T (ingest_options.truncate s) supportsBool version fs of
        None \<Rightarrow> failW (invalid ''ingest'') w
      | Some ddl \<Rightarrow> tryW (execNoResult env ddl) (\<lambda>r.
          case r of Inr _ \<Rightarrow> returnW ()
          | Inl e \<Rightarrow>
              if vendor_code e = 955 then
                (if mode = ModeCreateAppend (dr_keys env) then returnW () else failW (AdbcError StatusAlreadyExists ''exists'' (vendor_code e)))
              else failW e) w)"

definition prepareIngestTarget :: "driver_env \<Rightarrow> statement_impl \<Rightarrow> arrow_field list \<Rightarrow> ('z, unit) world_op" where
  "prepareIngestTarget env s fs =
     (let K = dr_keys env; mode = or_else (ingestMode s) (ModeCreate K) in
      if mode = ModeAppend K then returnW ()
      else bindW (if mode = ModeReplace K then replaced env s else returnW ()) (\<lambda>_. created env mode s fs))"

definition slice_record :: "arrow_record \<Rightarrow> nat \<Rightarrow> nat \<Rightarrow> arrow_record" where
  "slice_record r i j = r\<lparr>rec_Columns := map (\<lambda>a. a\<lparr>ar_Values := take (j - i) (drop i (ar_Values a))\<rparr>) (rec_Columns r), rec_NumRows := j - i\<rparr>"

text \<open>One round trip of the insert statement, which is kept whatever happens; the result is the new total.\<close>

type_synonym 'z pump_op = "int \<Rightarrow> statement \<Rightarrow> 'z world \<Rightarrow> ((adbc_error + int) \<times> statement \<times> 'z world) option"

definition thenP :: "'z pump_op \<Rightarrow> 'z pump_op \<Rightarrow> 'z pump_op" where
  "thenP m f n ins w = Option.bind (m n ins w) (\<lambda>(r, ins, w). case r of Inl e \<Rightarrow> Some (Inl e, ins, w) | Inr n \<Rightarrow> f n ins w)"

definition pump_slice :: "driver_env \<Rightarrow> arrow_record \<Rightarrow> 'z pump_op" where
  "pump_slice env r acc ins w =
     (case bind_record env (w_session w) r of Inl e \<Rightarrow> Some (Inl e, ins, w)
      | Inr bs \<Rightarrow>
        map_option (\<lambda>(res, ins, w).
            (map_sum (call_status None) (\<lambda>_. int64_of (acc + int64_of (uint (rowCount ins)))) res, ins, w))
          (execute_on env (conn_options (cn_autoCommit (w_conn w)) bs (int (rec_NumRows r))) ins w))"

function pump_from :: "driver_env \<Rightarrow> nat \<Rightarrow> arrow_record \<Rightarrow> nat \<Rightarrow> 'z pump_op" where
  "pump_from env per r off =
     (if per = 0 \<or> off \<ge> rec_NumRows r then (\<lambda>n ins w. Some (Inr n, ins, w))
      else thenP (pump_slice env (slice_record r off (min (off + per) (rec_NumRows r)))) (pump_from env per r (off + per)))"
  by auto

termination
  by (relation "measure (\<lambda>(env, per, r, off). rec_NumRows r - off)") auto

declare pump_from.simps [simp del]

fun pump_stream :: "driver_env \<Rightarrow> nat \<Rightarrow> arrow_record list \<Rightarrow> 'z pump_op" where
  "pump_stream env per [] = (\<lambda>n ins w. Some (Inr n, ins, w))"
| "pump_stream env per (r # rs) = thenP (pump_from env per r 0) (pump_stream env per rs)"

definition batch_rows_of :: "'a ingest_options_scheme \<Rightarrow> nat" where
  "batch_rows_of s = (if ingestBatchRows s \<le> 0 then 5000 else nat (ingestBatchRows s))"

definition bound_batches :: "statement_impl \<Rightarrow> arrow_record list" where
  "bound_batches s = (case si_bound s of Some r \<Rightarrow> [r] | None \<Rightarrow> (case si_boundStream s of Some rs \<Rightarrow> rs_Batches rs | None \<Rightarrow> []))"

definition bound_schema :: "statement_impl \<Rightarrow> arrow_field list" where
  "bound_schema s = (case si_bound s of Some r \<Rightarrow> rec_Fields r | None \<Rightarrow> (case si_boundStream s of Some rs \<Rightarrow> rs_Fields rs | None \<Rightarrow> []))"

definition stream_failed :: "statement_impl \<Rightarrow> bool" where
  "stream_failed s = (case si_boundStream s of Some rs \<Rightarrow> rs_Err rs | None \<Rightarrow> False)"

text \<open>The insert statement is closed whatever happens.\<close>

definition pump_all :: "driver_env \<Rightarrow> statement_impl \<Rightarrow> ('z, int) world_op" where
  "pump_all env s w =
     map_option (\<lambda>(r, ins, w). (andThen r (\<lambda>n. if stream_failed s then Inl (errStatus StatusIO ''ingest stream'') else Inr n), snd (close_on ins w)))
       (pump_stream env (batch_rows_of s) (bound_batches s) 0
         (Prepare (dr_unicode env) (buildInsertSQL (oe_upper (dr_options env)) (ingest_options.truncate s) (bound_schema s))) w)"

text \<open>What is bound is let go at the end.\<close>

definition executeIngest :: "driver_env \<Rightarrow> ('z, int) stmt_op" where
  "executeIngest env = (\<lambda>(s, w).
     if targetTable s = [] then Some (Inl (errStatus StatusInvalidState ''no target table set''), s, w)
     else if si_bound s = None \<and> si_boundStream s = None then Some (Inl (errStatus StatusInvalidState ''no record bound''), s, w)
     else map_option (\<lambda>(r, w). (r, clearBound s, w))
       (bindW (prepareIngestTarget env s (bound_schema s)) (\<lambda>_. pump_all env s) w))"

subsection \<open>Executing\<close>

text \<open>What \<open>ExecuteQuery\<close> returns: an empty reader, the row of OUT binds, or a reader of the statement.\<close>

datatype query_result = NoColumns | OutRow "arrow_field list" batch | Streaming reader

definition ingesting :: "statement_impl \<Rightarrow> bool" where
  "ingesting s \<longleftrightarrow> targetTable s \<noteq> [] \<and> (si_bound s \<noteq> None \<or> si_boundStream s \<noteq> None)"

definition reader_world :: "(reader \<Rightarrow> 'z dialing_scheme \<Rightarrow> reader \<times> 'z dialing_scheme) \<Rightarrow> reader \<Rightarrow> 'z world \<Rightarrow> reader \<times> 'z world" where
  "reader_world f r w = (let (r, s) = f r (w_session w) in (r, w\<lparr>w_session := s\<rparr>))"

text \<open>A reader that cannot start is abandoned, with its statement.\<close>

definition start_reader :: "reader \<Rightarrow> 'z world \<Rightarrow> (adbc_error + reader) \<times> reader \<times> 'z world" where
  "start_reader r w =
     (case reader_start r of
        (None, r) \<Rightarrow> (Inr r, r, w)
      | (Some e, r) \<Rightarrow> (let (r, w) = reader_world reader_abandon r w in (Inl e, r, w)))"

definition query_call :: "connConfig \<Rightarrow> bool \<Rightarrow> bind_column list \<Rightarrow> int \<Rightarrow> row_sink \<Rightarrow> ExecuteOptions" where
  "query_call c auto bs n sk =
     (conn_options auto bs n)\<lparr>opt_PrefetchRows := cc_prefetchRows c, opt_ArraySize := cc_prefetchRows c, opt_Sink := Some sk\<rparr>"

text \<open>A query: its first rows go to the reader, which then owns the statement.\<close>

definition stream_query :: "driver_env \<Rightarrow> statement \<Rightarrow> bind_column list \<Rightarrow> int \<Rightarrow> ('z, query_result \<times> int) stmt_op" where
  "stream_query env st bs n = (\<lambda>(s, w).
     let c = cn_cfg (w_conn w); ce = dr_conv env; r = newStreamingRecordReader c st in
     map_option (\<lambda>(res, st, w).
         let r = r\<lparr>rd_stmt := st, rd_sink := sink_run ce (columns st) (delivered (dm (w_session w))) (rd_sink r)\<rparr> in
         case res of
           Inl e \<Rightarrow> (let (r', w) = reader_world reader_abandon r w in
             (Inl (call_status (sink_status (rd_sink r)) e), s\<lparr>si_prepared := Some (rd_stmt r')\<rparr>, w))
         | Inr _ \<Rightarrow>
             (case start_reader r w of
                (Inl e, r, w) \<Rightarrow> (Inl e, s\<lparr>si_prepared := Some (rd_stmt r)\<rparr>, w)
              | (Inr r, _, w) \<Rightarrow> (Inr (Streaming r, -1), s\<lparr>si_prepared := None\<rparr>, w)))
       (execute_on env (query_call c (cn_autoCommit (w_conn w)) bs n (arrow_row_sink ce (rd_sink r))) st w))"

text \<open>What a statement that is no query leaves to read.\<close>

definition after_execute :: "driver_env \<Rightarrow> statement \<Rightarrow> bind_column list \<Rightarrow> statement_impl \<times> 'z world \<Rightarrow>
    (adbc_error + query_result \<times> int) \<times> statement_impl \<times> 'z world" where
  "after_execute env st bs = (\<lambda>(s, w).
     let c = cn_cfg (w_conn w); n = int64_of (uint (rowCount st)) in
     case implicit st of
       Some child \<Rightarrow>
         (case start_reader (newStreamingRecordReader c (stmt.extend child (statement.fields None))) w of
            (Inl e, _, w) \<Rightarrow> (Inl e, s, w) | (Inr r, _, w) \<Rightarrow> (Inr (Streaming r, -1), s, w))
     | None \<Rightarrow>
         if hasOutBinds st then
           (map_sum id (\<lambda>(fs, b). (OutRow fs b, n)) (recordFromOutBinds (dr_conv env) st bs (si_bindSchema s) (types c)), s, w)
         else (Inr (NoColumns, n), s, w))"

definition run_statement :: "driver_env \<Rightarrow> ExecuteOptions \<Rightarrow> statement \<Rightarrow> ('z, statement) stmt_op" where
  "run_statement env o' st = (\<lambda>(s, w).
     map_option (\<lambda>(res, st, w). (map_sum (call_status None) (\<lambda>_. st) res, s\<lparr>si_prepared := Some st\<rparr>, w)) (execute_on env o' st w))"

text \<open>Both calls begin alike: \<open>f\<close> runs the prepared statement with its binds, which are let go after it.\<close>

definition with_binds :: "driver_env \<Rightarrow> (statement \<Rightarrow> bind_column list \<Rightarrow> int \<Rightarrow> ('z, 'a) stmt_op) \<Rightarrow> ('z, 'a) stmt_op" where
  "with_binds env f = (\<lambda>(s, w).
     if si_sql s = [] then Some (Inl (errStatus StatusInvalidState ''no SQL set''), s, w)
     else let (st, s) = prepared env s in
       (case bindColumns env (w_session w) st s of
          (Inl e, s) \<Rightarrow> Some (Inl e, s, w)
        | (Inr (bs, n), s) \<Rightarrow> map_option (\<lambda>(r, s, w). (r, clearBound s, w)) (f st bs n (s, w))))"

definition ExecuteQuery :: "driver_env \<Rightarrow> ('z, query_result \<times> int) stmt_op" where
  "ExecuteQuery env = (\<lambda>(s, w).
     if si_closed s then Some (Inl (errStatus StatusInvalidState ''statement is closed''), s, w)
     else if ingesting s then map_option (\<lambda>(r, x). (map_sum id (\<lambda>n. (NoColumns, n)) r, x)) (executeIngest env (s, w))
     else with_binds env (\<lambda>st bs n (s, w).
       if \<not> IsQuery st then
         map_option (\<lambda>(r, s, w). case r of Inl e \<Rightarrow> (Inl e, s, w) | Inr st \<Rightarrow> after_execute env st bs (s, w))
           (run_statement env (conn_options (cn_autoCommit (w_conn w)) bs n) st (s, w))
       else stream_query env st bs n (s, w)) (s, w))"

definition ExecuteUpdate :: "driver_env \<Rightarrow> ('z, int) stmt_op" where
  "ExecuteUpdate env = (\<lambda>(s, w).
     if si_closed s then Some (Inl (errStatus StatusInvalidState ''statement is closed''), s, w)
     else if ingesting s then executeIngest env (s, w)
     else with_binds env (\<lambda>st bs n (s, w).
       let o' = conn_options (cn_autoCommit (w_conn w)) bs n in
       if IsQuery st then
         map_option (\<lambda>(r, s, w). case r of Inl e \<Rightarrow> (Inl e, s, w) | Inr st \<Rightarrow> (Inr (-1), s\<lparr>si_prepared := None\<rparr>, snd (close_on st w)))
           (run_statement env (o'\<lparr>opt_PrefetchRows := 1\<rparr>) st (s, w))
       else map_option (\<lambda>(r, s, w). (map_sum id (\<lambda>st. int64_of (uint (rowCount st))) r, s, w)) (run_statement env o' st (s, w))) (s, w))"

definition ExecuteSchema :: "driver_env \<Rightarrow> ('z, arrow_field list) stmt_op" where
  "ExecuteSchema env = (\<lambda>(s, w).
     if si_sql s = [] then Some (Inl (errStatus StatusInvalidState ''no SQL set''), s, w)
     else let (st, s) = prepared env s in
       map_option (\<lambda>(r, st, w).
           (map_sum (call_status None) (\<lambda>_. schemaFor (columns st) (types (cn_cfg (w_conn w)))) r, s\<lparr>si_prepared := Some st\<rparr>, w))
         (describe_on env st w))"

end
