(* ===== verification/RuneText.thy ===== *)
theory RuneText
  imports GoText
begin

text \<open>
  The runes of a text of any bytes (\<^verbatim>\<open>[]rune(s)\<close>): an ASCII byte is a rune of its own wherever it stands, also after
  an incomplete sequence, and no other sequence of bytes gives an ASCII rune.
\<close>

definition rune_text :: "bytes \<Rightarrow> rune list" where
  "rune_text b = utf8_runes (length b) b"

lemma utf8_runes_enough: "length b \<le> k \<Longrightarrow> utf8_runes k b = rune_text b"
proof -
  have "length b \<le> k \<Longrightarrow> length b \<le> l \<Longrightarrow> utf8_runes k b = utf8_runes l b" for l
  proof (induction k arbitrary: l b)
    case (Suc k)
    show ?case
    proof (cases "b = []")
      case True
      then show ?thesis by (cases l) simp_all
    next
      case False
      then obtain l' where l: "l = Suc l'" using Suc.prems(2) by (cases l) auto
      obtain r n where d: "DecodeRune b = (r, n)" by fastforce
      then have "1 \<le> n" using DecodeRune_size [OF False] by simp
      then have "length (drop n b) \<le> k" "length (drop n b) \<le> l'" using Suc.prems l by simp_all
      from Suc.IH [OF this] show ?thesis using False d l by simp
    qed
  next
    case 0
    then show ?case by (cases l) simp_all
  qed
  from this [of "length b"] show "length b \<le> k \<Longrightarrow> ?thesis" unfolding rune_text_def by blast
qed

lemma rune_text_Nil [simp]: "rune_text [] = []"
  by (simp add: rune_text_def)

lemma rune_text_step: "b \<noteq> [] \<Longrightarrow> rune_text b = unat (fst (DecodeRune b)) # rune_text (drop (snd (DecodeRune b)) b)"
proof -
  assume b: "b \<noteq> []"
  obtain r n where d: "DecodeRune b = (r, n)" by fastforce
  obtain k where k: "length b = Suc k" using b by (cases b) auto
  have "length (drop n b) \<le> k" using DecodeRune_size [OF b] d k by auto
  from utf8_runes_enough [OF this] show ?thesis using b d by (simp add: rune_text_def [of b] k)
qed

lemma rune_text_ascii: "c < RuneSelf \<Longrightarrow> rune_text (c # b) = unat c # rune_text b"
  by (subst rune_text_step) (simp_all add: DecodeRune_def unat_up32)

text \<open>An ASCII byte ends an incomplete sequence as the end of the text does.\<close>

lemma DecodeRune_before_ascii:
  assumes "x \<noteq> []" "c < RuneSelf"
  shows "DecodeRune (x @ c # rest) = DecodeRune x"
proof -
  obtain b0 p where x: "x = b0 # p" using assms(1) by (cases x) auto
  obtain sz lo hi where f: "utf8_first b0 = (sz, lo, hi)" by (cases "utf8_first b0") auto
  show ?thesis
  proof (cases "b0 < RuneSelf \<or> sz = 0")
    case True
    then show ?thesis by (auto simp: x DecodeRune_def f)
  next
    case False
    then have r: "0x80 \<le> lo" "sz = 2 \<or> sz = 3 \<or> sz = 4" "\<not> b0 < RuneSelf" using utf8_first_range [OF f] by auto
    have c: "c < lo" "\<not> cont_byte c" using assms(2) r(1) by (auto simp: RuneSelf_def cont_byte_def)
    show ?thesis
      using r(2,3) c by (cases p; cases "tl p"; cases "tl (tl p)") (auto simp: x DecodeRune_def f Let_def)
  qed
qed

lemma rune_text_split: "c < RuneSelf \<Longrightarrow> rune_text (x @ c # rest) = rune_text x @ unat c # rune_text rest"
proof (induction x rule: length_induct)
  case (1 x)
  show ?case
  proof (cases "x = []")
    case True
    then show ?thesis using 1 by (simp add: rune_text_ascii)
  next
    case False
    let ?n = "snd (DecodeRune x)"
    have n: "1 \<le> ?n" "?n \<le> length x" using DecodeRune_size [OF False] by auto
    then have "rune_text (drop ?n x @ c # rest) = rune_text (drop ?n x) @ unat c # rune_text rest"
      using 1 False by simp
    then show ?thesis
      using n rune_text_step [OF False] rune_text_step [of "x @ c # rest"] DecodeRune_before_ascii [OF False "1.prems"]
      by simp
  qed
qed

text \<open>A rune made of several bytes is no ASCII rune.\<close>

lemma or_above: "unat x \<le> unat (x OR y)" for x y :: u32
proof -
  have "x \<le> x OR y" by (simp add: word_le_def unsigned_or_eq or_greater_eq)
  then show ?thesis by (simp only: word_le_nat_alt)
qed

lemma above3: "unat x \<le> unat (x OR y OR z)" "unat x \<le> unat (y OR x OR z)" for x y z :: u32
  using or_above [of x "y OR z"] or_above [of x "y OR z"] by (simp_all only: or.left_commute)

lemma unat_shift: "n \<le> 18 \<Longrightarrow> unat (push_bit n (ucast (b :: u8)) :: u32) = unat b * 2 ^ n"
proof -
  assume n: "n \<le> 18"
  have "(2 :: nat) ^ n \<le> 2 ^ 18" using n by (rule power_increasing) simp
  moreover have "unat b < 2 ^ LENGTH(8)" by (rule unsigned_less)
  ultimately have "unat b * 2 ^ n < 256 * 2 ^ 18" by (intro mult_less_le_imp_less) simp_all
  then have "take_bit 32 (push_bit n (unat b)) = unat b * 2 ^ n" by (simp add: push_bit_eq_mult take_bit_nat_eq_self)
  then show ?thesis by (simp add: unsigned_push_bit_eq unat_up32)
qed

lemma unat_low_bits: "unat (b AND 0x1F) = unat b mod 32" "unat (b AND 0x3F) = unat b mod 64" "unat (b AND 0x0F) = unat b mod 16"
    "unat (b AND 0x07) = unat b mod 8" for b :: u8
proof -
  have "unat (b AND mask k) = unat b mod 2 ^ k" for k
    unfolding take_bit_eq_mask [symmetric] by (simp add: unsigned_take_bit_eq) (simp add: take_bit_eq_mod)
  from this [of 5] this [of 6] this [of 4] this [of 3]
  show "unat (b AND 0x1F) = unat b mod 32" "unat (b AND 0x3F) = unat b mod 64" "unat (b AND 0x0F) = unat b mod 16"
    "unat (b AND 0x07) = unat b mod 8" by (simp_all add: mask_eq_exp_minus_1)
qed

lemma DecodeRune_high:
  assumes "\<not> b0 < RuneSelf"
  shows "128 \<le> unat (fst (DecodeRune (b0 # p)))"
proof -
  let ?r = "fst (DecodeRune (b0 # p))"
  have e: "unat RuneError = 65533" by (simp add: RuneError_def)
  have b0: "128 \<le> unat b0" "unat b0 < 256" using assms unsigned_less [of b0] by (simp_all add: RuneSelf_def word_less_nat_alt)
  obtain sz lo hi where f: "utf8_first b0 = (sz, lo, hi)" by (cases "utf8_first b0") auto
  define v where "v = unat b0 mod 32"
  show ?thesis
  proof (cases "?r = RuneError")
    case False
    then have sz: "sz = 2 \<or> sz = 3 \<or> sz = 4" "length (b0 # p) \<ge> sz" "lo \<le> p ! 0" "p ! 0 \<le> hi"
      using assms utf8_first_range [OF f] by (auto simp: DecodeRune_def f Let_def split: if_splits)
    have u: "u < c \<longleftrightarrow> unat u < unat c" "u \<le> c \<longleftrightarrow> unat u \<le> unat c" "u = c \<longleftrightarrow> unat u = unat c" for u c :: u8
      by (simp_all add: word_less_nat_alt word_le_nat_alt word_unat_eq_iff)
    consider "sz = 2" "unat b0 \<ge> 194" "unat b0 < 224"
      | "sz = 3" "unat b0 = 224" "unat lo = 160" "unat hi = 191" | "sz = 3" "unat b0 > 224" "unat b0 < 240"
      | "sz = 4" "unat b0 = 240" "unat lo = 144" "unat hi = 191" | "sz = 4" "unat b0 > 240" "unat b0 \<le> 244"
      using sz(1) f b0 by (auto simp: utf8_first_def u split: if_splits)
    then show ?thesis
    proof cases
      case 1
      then have "unat b0 mod 32 = unat b0 - 192" by (simp add: mod_if)
      moreover have "?r = push_bit 6 (ucast (b0 AND 0x1F)) OR ucast (p ! 0 AND 0x3F)"
        using assms 1 False by (auto simp: DecodeRune_def f Let_def split: if_splits)
      ultimately show ?thesis
        using 1 or_above [of "push_bit 6 (ucast (b0 AND 0x1F))" "ucast (p ! 0 AND 0x3F)"] by (simp add: unat_shift unat_low_bits)
    next
      case 2
      then have "160 \<le> unat (p ! 0)" "unat (p ! 0) \<le> 191" using sz(3,4) by (simp_all add: u)
      then have "unat (p ! 0) mod 64 = unat (p ! 0) - 128" "32 \<le> unat (p ! 0) - 128" by (simp_all add: mod_if)
      moreover have "?r = push_bit 12 (ucast (b0 AND 0x0F)) OR push_bit 6 (ucast (p ! 0 AND 0x3F)) OR ucast (p ! 1 AND 0x3F)"
        using assms 2(1) False by (auto simp: DecodeRune_def f Let_def split: if_splits)
      ultimately show ?thesis
        using above3(2) [of "push_bit 6 (ucast (p ! 0 AND 0x3F))" "push_bit 12 (ucast (b0 AND 0x0F))" "ucast (p ! 1 AND 0x3F)"]
        by (simp add: unat_shift unat_low_bits)
    next
      case 3
      then have "unat b0 mod 16 = unat b0 - 224" by (simp add: mod_if)
      moreover have "?r = push_bit 12 (ucast (b0 AND 0x0F)) OR push_bit 6 (ucast (p ! 0 AND 0x3F)) OR ucast (p ! 1 AND 0x3F)"
        using assms 3(1) False by (auto simp: DecodeRune_def f Let_def split: if_splits)
      ultimately show ?thesis
        using 3 above3 [of "push_bit 12 (ucast (b0 AND 0x0F))" "push_bit 6 (ucast (p ! 0 AND 0x3F))" "ucast (p ! 1 AND 0x3F)"]
        by (simp add: unat_shift unat_low_bits)
    next
      case 4
      then have "144 \<le> unat (p ! 0)" "unat (p ! 0) \<le> 191" using sz(3,4) by (simp_all add: u)
      then have "unat (p ! 0) mod 64 = unat (p ! 0) - 128" "16 \<le> unat (p ! 0) - 128" by (simp_all add: mod_if)
      moreover have "?r = push_bit 18 (ucast (b0 AND 0x07)) OR push_bit 12 (ucast (p ! 0 AND 0x3F)) OR
          (push_bit 6 (ucast (p ! 1 AND 0x3F)) OR ucast (p ! 2 AND 0x3F))"
        using assms 4(1) False by (auto simp: DecodeRune_def f Let_def or.assoc split: if_splits)
      ultimately show ?thesis
        using above3(2) [of "push_bit 12 (ucast (p ! 0 AND 0x3F))" "push_bit 18 (ucast (b0 AND 0x07))"
           "push_bit 6 (ucast (p ! 1 AND 0x3F)) OR ucast (p ! 2 AND 0x3F)"]
        by (simp add: unat_shift unat_low_bits)
    next
      case 5
      then have "unat b0 mod 8 = unat b0 - 240" by (simp add: mod_if)
      moreover have "?r = push_bit 18 (ucast (b0 AND 0x07)) OR push_bit 12 (ucast (p ! 0 AND 0x3F)) OR
          (push_bit 6 (ucast (p ! 1 AND 0x3F)) OR ucast (p ! 2 AND 0x3F))"
        using assms 5(1) False by (auto simp: DecodeRune_def f Let_def or.assoc split: if_splits)
      ultimately show ?thesis
        using 5 above3(1) [of "push_bit 18 (ucast (b0 AND 0x07))" "push_bit 12 (ucast (p ! 0 AND 0x3F))"
           "push_bit 6 (ucast (p ! 1 AND 0x3F)) OR ucast (p ! 2 AND 0x3F)"]
        by (simp add: unat_shift unat_low_bits)
    qed
  qed (simp add: e)
qed

lemma rune_text_absent: "c < RuneSelf \<Longrightarrow> c \<notin> set x \<Longrightarrow> unat c \<notin> set (rune_text x)"
proof (induction x rule: length_induct)
  case (1 x)
  show ?case
  proof (cases x)
    case (Cons b0 p)
    let ?n = "snd (DecodeRune x)"
    have n: "1 \<le> ?n" using DecodeRune_size [of x] Cons by auto
    have "c \<notin> set (drop ?n x)" using "1.prems"(2) by (auto dest: in_set_dropD)
    then have r: "unat c \<notin> set (rune_text (drop ?n x))" using 1 n Cons by simp
    have "unat c < 128" using "1.prems"(1) by (simp add: RuneSelf_def word_less_nat_alt)
    moreover have "b0 \<noteq> c" using "1.prems"(2) Cons by auto
    ultimately have "unat (fst (DecodeRune x)) \<noteq> unat c"
      using DecodeRune_high [of b0 p] by (cases "b0 < RuneSelf") (auto simp: Cons DecodeRune_def unat_up32 word_unat_eq_iff)
    then show ?thesis using r rune_text_step [of x] Cons by simp
  qed simp
qed

text \<open>Doubling an ASCII byte in a text doubles its rune.\<close>

lemma rune_text_doubled:
  assumes "c < RuneSelf"
  shows "rune_text (replace_byte c [c, c] x) = concat (map (\<lambda>r. if r = unat c then [unat c, unat c] else [r]) (rune_text x))"
proof (induction x rule: length_induct)
  case (1 x)
  have same: "replace_byte c [c, c] y = y" if "c \<notin> set y" for y
    using that by (induction y) (auto simp: replace_byte_def)
  have keep: "concat (map (\<lambda>r. if r = k then [k, k] else [r]) rs) = rs" if "k \<notin> set rs" for k and rs :: "rune list"
    using that by (induction rs) auto
  show ?case
  proof (cases "c \<in> set x")
    case False
    then show ?thesis using keep [OF rune_text_absent [OF assms False]] by (simp only: same [OF False])
  next
    case True
    then obtain y z where x: "x = y @ c # z" "c \<notin> set y" by (meson split_list_first)
    have "replace_byte c [c, c] x = y @ c # c # replace_byte c [c, c] z"
      using same [OF x(2)] by (simp add: x(1) replace_byte_def)
    then have "rune_text (replace_byte c [c, c] x) = rune_text y @ unat c # unat c # rune_text (replace_byte c [c, c] z)"
      by (simp only: rune_text_split [OF assms] rune_text_ascii [OF assms])
    moreover have "rune_text (replace_byte c [c, c] z) = concat (map (\<lambda>r. if r = unat c then [unat c, unat c] else [r]) (rune_text z))"
      using 1 x(1) by simp
    ultimately show ?thesis using keep [OF rune_text_absent [OF assms x(2)]] by (simp add: x(1) rune_text_split [OF assms])
  qed
qed

subsection \<open>Texts put together\<close>

text \<open>A text whose runes do not depend on what follows it.\<close>

definition runes_of :: "bytes \<Rightarrow> rune list \<Rightarrow> bool" where
  "runes_of b rs \<longleftrightarrow> (\<forall>rest. rune_text (b @ rest) = rs @ rune_text rest)"

lemma runes_of_append: "runes_of a rs \<Longrightarrow> runes_of b qs \<Longrightarrow> runes_of (a @ b) (rs @ qs)"
  by (simp add: runes_of_def)

lemma runes_of_Nil: "runes_of [] []"
  by (simp add: runes_of_def)

lemma runes_of_ascii: "is_ascii b \<Longrightarrow> runes_of b (map unat b)"
  by (induction b) (simp_all add: runes_of_def is_ascii_def rune_text_ascii RuneSelf_def)

lemma runes_of_quoted:
  assumes "c < RuneSelf"
  shows "runes_of ([c] @ replace_byte c [c, c] x @ [c])
    (unat c # concat (map (\<lambda>r. if r = unat c then [unat c, unat c] else [r]) (rune_text x)) @ [unat c])"
  by (simp add: runes_of_def rune_text_ascii [OF assms] rune_text_split [OF assms] rune_text_doubled [OF assms])

lemma runes_of_text: "runes_of b rs \<Longrightarrow> rune_text b = rs"
  unfolding runes_of_def by (metis append.right_neutral rune_text_Nil)

end
