(* ===== verification/AdbcSql.thy ===== *)
theory AdbcSql
  imports AdbcStatement SqlTokens RuneText
begin

text \<open>
  The statements the driver hands to the scanner: those with \<open>?\<close> placeholders, for ASCII texts, and those of an
  ingest, for names of any bytes. They are described by the tokens of \<^verbatim>\<open>SqlTokens\<close>.
\<close>

definition ascii_text :: "rune list \<Rightarrow> bytes" where
  "ascii_text rs = map word_of_nat rs"

definition ascii_runes :: "rune list \<Rightarrow> bool" where
  "ascii_runes rs \<longleftrightarrow> (\<forall>c \<in> set rs. c < 128)"

definition number_runes :: "nat \<Rightarrow> rune list" where
  "number_runes n = runes (dec_nat n)"

lemma ascii_text_simps [simp]:
  "ascii_text [] = []" "ascii_text (c # rs) = word_of_nat c # ascii_text rs" "ascii_text (xs @ ys) = ascii_text xs @ ascii_text ys"
  by (simp_all add: ascii_text_def)

lemma ascii_runes_simps [simp]:
  "ascii_runes []" "ascii_runes (c # rs) \<longleftrightarrow> c < 128 \<and> ascii_runes rs" "ascii_runes (xs @ ys) \<longleftrightarrow> ascii_runes xs \<and> ascii_runes ys"
  by (auto simp: ascii_runes_def)

lemma unat_rune8: "c < 128 \<Longrightarrow> unat (word_of_nat c :: u8) = c"
  by (simp add: unat_of_nat take_bit_nat_eq_self)


lemma unat_ascii_text: "ascii_runes rs \<Longrightarrow> map unat (ascii_text rs) = rs"
  by (induction rs) (simp_all add: unat_rune8)

lemma is_ascii_text: "ascii_runes rs \<Longrightarrow> is_ascii (ascii_text rs)"
proof (induction rs)
  case (Cons c rs)
  then have "(word_of_nat c :: u8) < 128" by (simp add: word_less_nat_alt unat_rune8)
  then show ?case using Cons by (simp add: is_ascii_def)
qed (simp add: is_ascii_def)

lemma length_ascii_text [simp]: "length (ascii_text rs) = length rs"
  by (simp add: ascii_text_def)

lemma Prepare_runes:
  "kind (Prepare u b) = kind (parseSQL u (rune_text b))" "bindNames (Prepare u b) = bindNames (parseSQL u (rune_text b))"
  "sqlBytes (Prepare u b) = b"
  by (simp_all add: Prepare_def rune_text_def new_statement_def parsedSQL.defs stmt.defs statement.defs)


subsection \<open>Numbers as bind names\<close>

lemma asc_ascii_text: "asc s = ascii_text (runes s)"
  by (simp add: asc_def ascii_text_def runes_def)

lemma runes_append [simp]: "runes (a @ b) = runes a @ runes b"
  by (simp add: runes_def)

lemma number_runes_digits: "number_runes n \<noteq> [] \<and> (\<forall>c \<in> set (number_runes n). ascii_digit c)"
proof (induction n rule: dec_nat.induct)
  case (1 n)
  show ?case
  proof (cases "n < 10")
    case True
    then have "number_runes n = [48 + n]" unfolding number_runes_def by (subst dec_nat.simps) (simp add: runes_def)
    then show ?thesis using True by (simp add: ascii_digit_def)
  next
    case False
    then have "number_runes n = number_runes (n div 10) @ [48 + n mod 10]"
      unfolding number_runes_def by (subst dec_nat.simps) (simp add: runes_def)
    moreover have "n mod 10 < 10" by simp
    ultimately show ?thesis using 1 [OF False] by (auto simp: ascii_digit_def)
  qed
qed

lemma number_runes_ascii: "ascii_runes (number_runes n)"
  using number_runes_digits [of n] by (auto simp: ascii_runes_def ascii_digit_def)

lemma number_runes_inj [simp]: "number_runes a = number_runes b \<longleftrightarrow> a = b"
proof
  assume "number_runes a = number_runes b"
  then have "asc (dec_nat a) = asc (dec_nat b)" by (simp add: asc_ascii_text number_runes_def)
  then show "a = b" using dec_nat_digits [of a] dec_nat_digits [of b] by metis
qed simp

lemma number_bind:
  assumes "unicode_laws u"
  shows "bind_name u (number_runes n)" "isDigit u (hd (number_runes n))" "bind_value u (number_runes n) = number_runes n"
proof -
  have d: "isDigit u c" if "c \<in> set (number_runes n)" for c
    using that number_runes_digits [of n] assms by (auto simp: unicode_laws_def unicode_ascii_def ascii_digit_def)
  have h: "hd (number_runes n) \<in> set (number_runes n)" using number_runes_digits [of n] by simp
  show "isDigit u (hd (number_runes n))" by (rule d [OF h])
  then show "bind_name u (number_runes n)" "bind_value u (number_runes n) = number_runes n"
    using d number_runes_digits [of n] by (auto simp: bind_name_def bind_value_def)
qed

lemma collect_distinct: "distinct (acc @ ns) \<Longrightarrow> collect k acc ns = acc @ ns"
  by (induction ns arbitrary: acc) auto


subsection \<open>Placeholders\<close>









text \<open>One token.\<close>

lemma starts_text: "starts ((=) c) (x # xs) \<longleftrightarrow> c = x" "\<not> starts P []"
  by (auto simp: starts_def)






lemma sql_text_Cons: "sql_text (t # ts) = token_text t @ sql_text ts"
  by (simp add: sql_text_def)









subsection \<open>Ingest\<close>

text \<open>Tokens of a statement that is made of words, identifiers and numbered binds, with separators after the last two.\<close>

definition separator :: "rune \<Rightarrow> bool" where
  "separator c \<longleftrightarrow> c \<in> {32, 40, 41, 44, 46}"

definition ordinary :: "rune \<Rightarrow> bool" where
  "ordinary c \<longleftrightarrow> c \<notin> {34, 39, 45, 47, 58}"

fun spaced :: "token list \<Rightarrow> bool" where
  "spaced [] \<longleftrightarrow> True"
| "spaced (TChar c # ts) \<longleftrightarrow> ordinary c \<and> spaced ts"
| "spaced (TIdent s # TChar c # ts) \<longleftrightarrow> separator c \<and> spaced (TChar c # ts)"
| "spaced (TBind n # TChar c # ts) \<longleftrightarrow> (\<exists>i. n = number_runes i) \<and> separator c \<and> spaced (TChar c # ts)"
| "spaced [TIdent s] \<longleftrightarrow> True"
| "spaced [TBind n] \<longleftrightarrow> (\<exists>i. n = number_runes i)"
| "spaced _ \<longleftrightarrow> False"

lemma spaced_tokens_ok:
  assumes "unicode_laws u"
  shows "spaced ts \<Longrightarrow> tokens_ok u False prev ts"
proof (induction ts arbitrary: prev rule: spaced.induct)
  case (4 n c ts)
  then obtain i where i: "n = number_runes i" by auto
  have "\<not> isDigit u c"
    using 4 assms by (auto simp: separator_def unicode_laws_def unicode_ascii_def ascii_digit_def)
  then show ?case using 4 i number_bind [OF assms, of i] by (simp add: sql_text_Cons starts_def)
next
  case (6 n)
  then obtain i where i: "n = number_runes i" by auto
  then show ?case using number_bind [OF assms, of i] by (simp add: sql_text_def starts_def)
qed (auto simp: ordinary_def special_def separator_def sql_text_Cons starts_def sql_text_def)

lemma spaced_append: "spaced xs \<Longrightarrow> separator c \<Longrightarrow> spaced (TChar c # ys) \<Longrightarrow> spaced (xs @ TChar c # ys)"
  by (induction xs rule: spaced.induct) auto

lemma spaced_chars: "list_all ordinary cs \<Longrightarrow> spaced (map TChar cs @ ts) \<longleftrightarrow> spaced ts"
  by (induction cs) auto

text \<open>The tokens of an identifier.\<close>

definition ident_tokens :: "(nat \<Rightarrow> nat) \<Rightarrow> bytes \<Rightarrow> token list" where
  "ident_tokens T name =
     (if simple_ident name \<and> \<not> isReservedWord T name then map TChar (map unat (map_runes T name)) else [TIdent (rune_text name)])"

lemma sql_text_chars [simp]: "sql_text (map TChar cs) = cs"
  by (induction cs) (auto simp: sql_text_def)

lemma sql_text_append [simp]: "sql_text (xs @ ys) = sql_text xs @ sql_text ys"
  by (simp add: sql_text_def)

lemma map_runes_upper:
  assumes "upper_table_ok T" "is_ascii s"
  shows "map_runes T s = map (\<lambda>b. word_of_nat (ascii_upper_table (unat b))) s"
proof -
  have a: "T (unat b) = ascii_upper_table (unat b)" "T (unat b) < 128" if "b \<in> set s" for b
  proof -
    have "unat b < 128" using assms(2) that by (auto simp: is_ascii_def word_less_nat_alt)
    then show "T (unat b) = ascii_upper_table (unat b)" "T (unat b) < 128"
      using assms(1) by (auto simp: upper_table_ok_def ascii_upper_table_def)
  qed
  have "map_runes T s = map (\<lambda>b. word_of_nat (T (unat b))) s" by (rule map_runes_ascii) (use assms(2) a(2) in auto)
  then show ?thesis using a(1) by simp
qed

text \<open>What a simple identifier consists of after the conversion to upper case.\<close>

lemma simple_upper:
  assumes "simple_ident name" "b \<in> set name"
  shows "ordinary (ascii_upper_table (unat b)) \<and> ascii_upper_table (unat b) < 128"
proof -
  have "ident_letter b \<or> ident_other b" using assms by (cases name) (auto simp: simple_ident_def)
  then have "65 \<le> unat b \<and> unat b \<le> 90 \<or> 97 \<le> unat b \<and> unat b \<le> 122 \<or> 48 \<le> unat b \<and> unat b \<le> 57 \<or> unat b \<in> {95, 36, 35}"
    by (auto simp: ident_letter_def ident_other_def is_digit_def word_le_nat_alt word_unat_eq_iff)
  then show ?thesis by (auto simp: ordinary_def ascii_upper_table_def)
qed

lemma ident_cases:
  obtains (simple) "simple_ident name" "ident_tokens T name = map TChar (map unat (map_runes T name))" "identFor T name = map_runes T name"
  | (quoted) "ident_tokens T name = [TIdent (rune_text name)]" "identFor T name = [34] @ replace_byte 34 [34, 34] name @ [34]"
proof (cases "simple_ident name \<and> \<not> isReservedWord T name")
  case True
  then show thesis by (intro simple) (simp_all add: ident_tokens_def identFor_def)
next
  case False
  then show thesis by (intro quoted) (simp_all only: ident_tokens_def identFor_def if_False)
qed

lemma simple_ascii:
  assumes "simple_ident name"
  shows "is_ascii name"
  unfolding is_ascii_def
proof
  fix b assume "b \<in> set name"
  then have "ident_letter b \<or> ident_other b" using assms by (cases name) (auto simp: simple_ident_def)
  then have "unat b < 128" by (auto simp: ident_letter_def ident_other_def is_digit_def word_le_nat_alt word_unat_eq_iff)
  then show "b < 128" by (simp add: word_less_nat_alt)
qed

lemma ident_tokens_text:
  assumes "upper_table_ok T"
  shows "runes_of (identFor T name) (sql_text (ident_tokens T name))"
proof (cases rule: ident_cases [of name T])
  case simple
  have "is_ascii (map_runes T name)"
    using simple_upper [OF simple(1)] by (auto simp: map_runes_upper [OF assms simple_ascii [OF simple(1)]] is_ascii_def word_less_nat_alt unat_rune8)
  from runes_of_ascii [OF this] show ?thesis using simple by (simp del: map_map)
next
  case quoted
  moreover have "unat (34 :: u8) = 34" "(34 :: u8) < RuneSelf" by (simp_all add: RuneSelf_def)
  ultimately show ?thesis using runes_of_quoted [of 34 name] by (simp add: sql_text_def double_quotes_def cong: if_cong)
qed

lemma ident_spaced:
  assumes "upper_table_ok T" "separator c" "spaced (TChar c # ts)"
  shows "spaced (ident_tokens T name @ TChar c # ts)"
proof (cases rule: ident_cases [of name T])
  case simple
  then have "list_all ordinary (map unat (map_runes T name))"
    using simple_upper [OF simple(1)] by (auto simp: map_runes_upper [OF assms(1) simple_ascii] list_all_iff unat_rune8)
  from spaced_chars [OF this] show ?thesis using simple assms(3) by (simp del: map_map)
next
  case quoted
  then show ?thesis using assms(2,3) by simp
qed

text \<open>Token lists that a separator may follow.\<close>

definition open_end :: "token list \<Rightarrow> bool" where
  "open_end xs \<longleftrightarrow> (\<forall>c ys. separator c \<longrightarrow> spaced (TChar c # ys) \<longrightarrow> spaced (xs @ TChar c # ys))"

lemma open_endD: "open_end xs \<Longrightarrow> separator c \<Longrightarrow> spaced (TChar c # ys) \<Longrightarrow> spaced (xs @ TChar c # ys)"
  by (simp add: open_end_def)

lemma open_end_ident: "upper_table_ok T \<Longrightarrow> open_end (ident_tokens T n)"
  by (simp add: open_end_def ident_spaced)

lemma open_end_bind: "open_end [TBind (number_runes i)]"
  by (auto simp: open_end_def)

lemma open_end_join: "open_end xs \<Longrightarrow> open_end ys \<Longrightarrow> separator c \<Longrightarrow> ordinary c \<Longrightarrow> list_all ordinary cs \<Longrightarrow> open_end (xs @ TChar c # map TChar cs @ ys)"
  unfolding open_end_def by (auto simp: spaced_chars)

fun comma_list :: "token list list \<Rightarrow> token list" where
  "comma_list [] = []"
| "comma_list [xs] = xs"
| "comma_list (xs # ys # rest) = xs @ TChar 44 # map TChar [32] @ comma_list (ys # rest)"

lemma open_end_comma: "\<forall>xs \<in> set xss. open_end xs \<Longrightarrow> open_end (comma_list xss)"
  by (induction xss rule: comma_list.induct)
    (auto simp: open_end_def [of "[]"] separator_def ordinary_def intro!: open_end_join [of _ _ 44 "[32]", simplified])

lemma runes_of_asc: "ascii_runes (runes t) \<Longrightarrow> runes_of (asc t) (runes t)"
  using runes_of_ascii [OF is_ascii_text] by (simp only: asc_ascii_text unat_ascii_text)

lemma comma_runes:
  assumes "\<And>x. x \<in> set xs \<Longrightarrow> runes_of (f x) (sql_text (g x))"
  shows "runes_of (separated (asc '', '') (map f xs)) (sql_text (comma_list (map g xs)))"
  using assms
proof (induction xs)
  case (Cons x xs)
  show ?case
  proof (cases xs)
    case (Cons y ys)
    have "runes_of (asc '', '') [44, 32]" using runes_of_ascii [of "[44, 32]"] by (simp add: is_ascii_def)
    moreover have "runes_of (f x) (sql_text (g x))" using Cons.prems by simp
    moreover have "runes_of (separated (asc '', '') (map f xs)) (sql_text (comma_list (map g xs)))"
      using Cons.IH Cons.prems by simp
    ultimately have "runes_of (f x @ asc '', '' @ separated (asc '', '') (map f xs)) (sql_text (g x) @ [44, 32] @ sql_text (comma_list (map g xs)))"
      by (intro runes_of_append)
    then show ?thesis by (simp add: Cons sql_text_Cons)
  qed (use Cons.prems in simp)
qed (simp add: runes_of_Nil sql_text_def)

lemma token_binds_append [simp]: "token_binds u (xs @ ys) = token_binds u xs @ token_binds u ys"
  by (simp add: token_binds_def)

lemma token_binds_chars [simp]: "token_binds u (map TChar cs) = []"
  by (induction cs) (auto simp: token_binds_def)

lemma token_binds_comma: "token_binds u (comma_list xss) = concat (map (token_binds u) xss)"
  by (induction xss rule: comma_list.induct) (simp_all add: token_binds_def)

lemma token_binds_ident: "token_binds u (ident_tokens T n) = []"
  by (cases rule: ident_cases [of n T]) (simp_all add: token_binds_def del: map_map)

definition words :: "string \<Rightarrow> token list" where
  "words t = map TChar (runes t)"

definition target_tokens :: "(nat \<Rightarrow> nat) \<Rightarrow> ingest_options \<Rightarrow> token list" where
  "target_tokens T s =
     (if targetSchema s \<noteq> [] then ident_tokens T (targetSchema s) @ TChar 46 # map TChar [] @ ident_tokens T (targetTable s)
      else ident_tokens T (targetTable s))"

definition insert_tokens :: "(nat \<Rightarrow> nat) \<Rightarrow> ingest_options \<Rightarrow> arrow_field list \<Rightarrow> token list" where
  "insert_tokens T s fs =
     words '' INTO '' @ target_tokens T s @ words '' ('' @ comma_list (map (\<lambda>f. ident_tokens T (fd_Name f)) fs) @
     words '') VALUES ('' @ comma_list (map (\<lambda>i. [TBind (number_runes (i + 1))]) [0..<length fs]) @ words '')''"

lemma words_spaced: "list_all ordinary (runes t) \<Longrightarrow> spaced (words t @ ts) \<longleftrightarrow> spaced ts"
  by (simp add: words_def spaced_chars)

lemma open_end_words:
  assumes "open_end xs" "runes t = c # cs" "separator c" "ordinary c" "list_all ordinary cs" "spaced ts"
  shows "spaced (xs @ words t @ ts)"
  using open_endD [OF assms(1,3), of "map TChar cs @ ts"] assms by (simp add: words_def spaced_chars)

lemma target_tokens_ok:
  assumes "upper_table_ok T"
  shows "open_end (target_tokens T s)" "runes_of (qualifiedTarget T s) (sql_text (target_tokens T s))"
proof -
  note i = ident_tokens_text [OF assms]
  show "open_end (target_tokens T s)"
    unfolding target_tokens_def
    by (auto intro!: open_end_join open_end_ident assms simp: separator_def ordinary_def simp del: list.map append.simps)
  have "runes_of [46] [46]" using runes_of_ascii [of "[46]"] by (simp add: is_ascii_def)
  from runes_of_append [OF i runes_of_append [OF this i]] i
  show "runes_of (qualifiedTarget T s) (sql_text (target_tokens T s))"
    by (simp add: target_tokens_def qualifiedTarget_def sql_text_Cons)
qed

lemma token_binds_target: "token_binds u (target_tokens T s) = []"
proof -
  have "token_binds u (TChar 46 # map TChar [] @ ts) = token_binds u ts" for ts by (simp add: token_binds_def)
  then show ?thesis by (simp add: target_tokens_def token_binds_ident)
qed

lemma insert_spaced:
  assumes "upper_table_ok T"
  shows "spaced (insert_tokens T s fs)"
proof -
  have w: "list_all ordinary (runes '' INTO '')" "list_all ordinary (runes ''('')" "list_all ordinary (runes '' VALUES ('')"
    "runes '' ('' = 32 # runes ''(''" "runes '') VALUES ('' = 41 # runes '' VALUES (''" "runes '')'' = 41 # []"
    "separator 32" "separator 41" "ordinary 32" "ordinary 41" by code_simp+
  have "open_end (comma_list (map (\<lambda>i. [TBind (number_runes (i + 1))]) [0..<length fs]))"
    by (rule open_end_comma) (auto intro: open_end_bind)
  from open_end_words [OF this w(6) w(8,10), of "[]"]
  have b: "spaced (comma_list (map (\<lambda>i. [TBind (number_runes (i + 1))]) [0..<length fs]) @ words '')'')" by simp
  have "open_end (comma_list (map (\<lambda>f. ident_tokens T (fd_Name f)) fs))"
    by (rule open_end_comma) (use assms in \<open>auto intro: open_end_ident\<close>)
  from open_end_words [OF this w(5) w(8,10,3) b]
  show ?thesis
    unfolding insert_tokens_def words_spaced [OF w(1)]
    by (intro open_end_words [OF target_tokens_ok(1) [OF assms] w(4,7,9,2)]) simp
qed

lemma insert_text:
  assumes "upper_table_ok T"
  shows "rune_text (buildInsertSQL T s fs) = runes ''INSERT'' @ sql_text (insert_tokens T s fs)"
proof -
  have w: "ascii_runes (runes ''INSERT INTO '')" "ascii_runes (runes '' ('')" "ascii_runes (runes '') VALUES ('')" "ascii_runes (runes '')'')"
    "runes ''INSERT INTO '' = runes ''INSERT'' @ runes '' INTO ''" by code_simp+
  have "runes_of (asc ('':'' @ dec_nat (i + 1))) (sql_text [TBind (number_runes (i + 1))])" for i
    using runes_of_asc [of "'':'' @ dec_nat (i + 1)"] number_runes_ascii [of "i + 1"] by (simp add: number_runes_def sql_text_def) (simp add: runes_def)
  then have "runes_of (buildInsertSQL T s fs) (runes ''INSERT INTO '' @ sql_text (target_tokens T s) @ runes '' ('' @
      sql_text (comma_list (map (\<lambda>f. ident_tokens T (fd_Name f)) fs)) @ runes '') VALUES ('' @
      sql_text (comma_list (map (\<lambda>i. [TBind (number_runes (i + 1))]) [0..<length fs])) @ runes '')'')"
    unfolding buildInsertSQL_def
    by (intro runes_of_append runes_of_asc w target_tokens_ok(2) assms comma_runes ident_tokens_text)
  then show ?thesis
    by (simp only: runes_of_text w(5) insert_tokens_def words_def sql_text_append sql_text_chars append.assoc)
qed

text \<open>
  Property C10. Whatever the schema, the table and the columns are called, in any bytes, valid UTF-8 or not, quotes and
  bind-like text included, the statement of an ingest is an \<^verbatim>\<open>INSERT\<close> with one bind variable per column of the data,
  in their order: no name closes the identifier it stands in, so that none adds a bind variable or changes the statement.
\<close>

theorem ingest_names_confined:
  fixes s :: ingest_options and fs :: "arrow_field list"
  assumes "unicode_laws u" "upper_table_ok T"
  defines "st \<equiv> Prepare u (buildInsertSQL T s fs)"
  shows "kind st = KindDML \<and> bindNames st = map (\<lambda>i. number_runes (i + 1)) [0..<length fs]"
proof -
  let ?w = "runes ''INSERT''" and ?ts = "insert_tokens T s fs"
  have w: "?w \<noteq> []" "\<forall>c \<in> set ?w. c < 128 \<and> ascii_letter c \<and> ascii_upper c = c" "determineKind ?w = KindDML" by code_simp+
  then have up: "map (toUpper u) ?w = ?w" and lt: "\<forall>c \<in> set ?w. isLetter u c"
    using assms(1) by (auto simp: unicode_laws_def unicode_ascii_def intro: map_idI)
  obtain rest where rest: "sql_text ?ts = 32 # rest" by (simp add: insert_tokens_def words_def sql_text_Cons runes_def)
  then have ns: "\<not> starts (isLetter u) (sql_text ?ts)"
    using assms(1) by (auto simp: starts_def unicode_laws_def unicode_ascii_def ascii_letter_def)
  have ok: "tokens_ok u False (last ?w) ?ts" by (rule spaced_tokens_ok [OF assms(1) insert_spaced [OF assms(2)]])
  note scan = scan_tokens [OF assms(1) w(1) lt ns ok]
  have b: "token_binds u ?ts = map (\<lambda>i. number_runes (i + 1)) [0..<length fs]"
    by (simp add: insert_tokens_def words_def token_binds_comma token_binds_target token_binds_ident token_binds_def [of u "[TBind _]"]
        number_bind(3) [OF assms(1)] comp_def)
  have "distinct (map (\<lambda>i. number_runes (i + 1)) [0..<length fs])" by (simp add: distinct_map inj_on_def)
  then show ?thesis
    unfolding st_def Prepare_runes insert_text [OF assms(2)]
    using scan w(3) collect_distinct [of "[]" "token_binds u ?ts"] by (simp add: up b)
qed

definition hostile_options :: ingest_options where
  "hostile_options = no_ingest\<lparr>targetTable := asc [CHR ''t'', CHR 34, CHR '')'', CHR '':'', CHR ''x'']\<rparr>"

definition hostile_fields :: "arrow_field list" where
  "hostile_fields = [\<lparr>fd_Name = asc '':a'', fd_Type = Int64Type, fd_Nullable = True, fd_Metadata = []\<rparr>,
     \<lparr>fd_Name = [0xE2, 34, 58, 0xFF], fd_Type = Int64Type, fd_Nullable = True, fd_Metadata = []\<rparr>]"

theorem ingest_names_confined_witness:
  "bindNames (Prepare ascii_unicode (buildInsertSQL ascii_upper_table hostile_options hostile_fields)) = [[49], [50]]"
proof -
  have "map (\<lambda>i. number_runes (i + 1)) [0..<length hostile_fields] = [[49], [50]]" by code_simp
  moreover have "upper_table_ok ascii_upper_table" by (simp add: upper_table_ok_def)
  ultimately show ?thesis
    using ingest_names_confined [OF ascii_unicode_ok, where T = ascii_upper_table and s = hostile_options and fs = hostile_fields] by simp
qed

end
