(* ===== verification/AdbcStatementProps.thy ===== *)
theory AdbcStatementProps
  imports AdbcStatement
begin

text \<open>
  What a statement promises: an ingest sends every row once and in order; and what it does not: a query that failed
  leaves its statement closed for good.
\<close>

subsection \<open>Ingest\<close>

text \<open>The reference: round trips one after the other.\<close>

fun run_all :: "'z pump_op list \<Rightarrow> 'z pump_op" where
  "run_all [] = (\<lambda>n ins w. Some (Inr n, ins, w))"
| "run_all (m # ms) = thenP m (run_all ms)"

definition column_values :: "nat \<Rightarrow> arrow_record \<Rightarrow> arrow_value option list" where
  "column_values c r = ar_Values (rec_Columns r ! c)"

text \<open>A record of the Arrow library: \<open>k\<close> arrays of its number of rows.\<close>

definition record_ok :: "nat \<Rightarrow> arrow_record \<Rightarrow> bool" where
  "record_ok k r \<longleftrightarrow> length (rec_Columns r) = k \<and> (\<forall>a \<in> set (rec_Columns r). length (ar_Values a) = rec_NumRows r)"

lemma thenP_return: "thenP m (\<lambda>n ins w. Some (Inr n, ins, w)) = m"
  by (intro ext) (auto simp: thenP_def split: Option.bind_splits sum.splits)

lemma thenP_assoc: "thenP (thenP a b) c = thenP a (thenP b c)"
  by (intro ext) (auto simp: thenP_def split: Option.bind_splits sum.splits)

lemma return_thenP: "thenP (\<lambda>n ins w. Some (Inr n, ins, w)) m = m"
  by (intro ext) (simp add: thenP_def)

lemma run_all_append: "run_all (xs @ ys) = thenP (run_all xs) (run_all ys)"
  by (induction xs) (simp_all add: return_thenP thenP_assoc)

text \<open>The slices the loop cuts.\<close>

function cuts :: "nat \<Rightarrow> nat \<Rightarrow> arrow_record \<Rightarrow> arrow_record list" where
  "cuts per off r =
     (if per = 0 \<or> off \<ge> rec_NumRows r then []
      else slice_record r off (min (off + per) (rec_NumRows r)) # cuts per (off + per) r)"
  by auto

termination
  by (relation "measure (\<lambda>(per, off, r). rec_NumRows r - off)") auto

declare cuts.simps [simp del]

lemma pump_from_cuts: "pump_from env per r off = run_all (map (pump_slice env) (cuts per off r))"
proof (induction per off r rule: cuts.induct)
  case (1 per off r)
  then show ?case by (subst pump_from.simps, subst cuts.simps) simp
qed

lemma pump_stream_cuts: "pump_stream env per rs = run_all (map (pump_slice env) (concat (map (cuts per 0) rs)))"
  by (induction rs) (simp_all add: run_all_append pump_from_cuts)

lemma column_slice:
  "c < length (rec_Columns r) \<Longrightarrow> column_values c (slice_record r i j) = take (j - i) (drop i (column_values c r))"
  by (simp add: column_values_def slice_record_def)

lemma length_column: "record_ok k r \<Longrightarrow> c < k \<Longrightarrow> length (column_values c r) = rec_NumRows r"
  by (auto simp: record_ok_def column_values_def)

lemma slice_ok: "record_ok k r \<Longrightarrow> i \<le> j \<Longrightarrow> j \<le> rec_NumRows r \<Longrightarrow> record_ok k (slice_record r i j)"
  by (auto simp: record_ok_def slice_record_def)

lemma cuts_rows:
  "0 < per \<Longrightarrow> record_ok k r \<Longrightarrow> c < k \<Longrightarrow> concat (map (column_values c) (cuts per off r)) = drop off (column_values c r)"
proof (induction per off r rule: cuts.induct)
  case (1 per off r)
  have c: "c < length (rec_Columns r)" using "1.prems" by (simp add: record_ok_def)
  show ?case
  proof (cases "off \<ge> rec_NumRows r")
    case True
    then show ?thesis using length_column [OF "1.prems"(2,3)] by (subst cuts.simps) simp
  next
    case False
    then have ih: "concat (map (column_values c) (cuts per (off + per) r)) = drop (off + per) (column_values c r)"
      using 1 by simp
    have "take (min (off + per) (rec_NumRows r) - off) (drop off (column_values c r)) = take per (drop off (column_values c r))"
      using length_column [OF "1.prems"(2,3)] by (auto simp: min_def)
    moreover have "take per (drop off (column_values c r)) @ drop (off + per) (column_values c r) = drop off (column_values c r)"
      using append_take_drop_id [of per "drop off (column_values c r)"] by (simp add: add.commute)
    ultimately show ?thesis using False ih "1.prems"(1) column_slice [OF c]
      by (subst cuts.simps) simp
  qed
qed

lemma cuts_sizes:
  "record_ok k r \<Longrightarrow> p \<in> set (cuts per off r) \<Longrightarrow> record_ok k p \<and> 0 < rec_NumRows p \<and> rec_NumRows p \<le> per"
proof (induction per off r rule: cuts.induct)
  case (1 per off r)
  show ?case
  proof (cases "per = 0 \<or> off \<ge> rec_NumRows r")
    case True
    then show ?thesis using "1.prems"(2) by (subst (asm) cuts.simps) simp
  next
    case False
    then consider "p = slice_record r off (min (off + per) (rec_NumRows r))" | "p \<in> set (cuts per (off + per) r)"
      using "1.prems"(2) by (subst (asm) cuts.simps) auto
    then show ?thesis
    proof cases
      case 1
      then show ?thesis using False slice_ok [OF "1.prems"(1), of off "min (off + per) (rec_NumRows r)"]
        by (auto simp: slice_record_def)
    next
      case 2
      then show ?thesis using "1.IH" False "1.prems"(1) by auto
    qed
  qed
qed

lemma all_rows:
  "\<forall>r \<in> set rs. record_ok k r \<Longrightarrow> 0 < per \<Longrightarrow> c < k \<Longrightarrow>
    concat (map (column_values c) (concat (map (cuts per 0) rs))) = concat (map (column_values c) rs)"
  by (induction rs) (auto simp: cuts_rows [where k = k])

lemma batch_rows_pos: "0 < batch_rows_of s"
  by (simp add: batch_rows_of_def)

text \<open>
  Property C9. The round trips of an ingest are inserts of consecutive pieces of the bound batches, each with at
  least one row and at most the batch size: put together the pieces are the rows of the batches, so that every row is
  sent exactly once and in order, and the result is that of executing the pieces one after the other.
\<close>

theorem ingest_sends_every_row_once:
  assumes "\<forall>r \<in> set (bound_batches s). record_ok k r"
  shows "\<exists>ps. pump_stream env (batch_rows_of s) (bound_batches s) = run_all (map (pump_slice env) ps) \<and>
    (\<forall>p \<in> set ps. record_ok k p \<and> 0 < rec_NumRows p \<and> rec_NumRows p \<le> batch_rows_of s) \<and>
    (\<forall>c < k. concat (map (column_values c) ps) = concat (map (column_values c) (bound_batches s)))"
proof (intro exI conjI allI impI ballI)
  let ?ps = "concat (map (cuts (batch_rows_of s) 0) (bound_batches s))"
  show "pump_stream env (batch_rows_of s) (bound_batches s) = run_all (map (pump_slice env) ?ps)"
    by (rule pump_stream_cuts)
  show "record_ok k p" "0 < rec_NumRows p" "rec_NumRows p \<le> batch_rows_of s" if "p \<in> set ?ps" for p
    using that cuts_sizes assms by auto
  show "concat (map (column_values c) ?ps) = concat (map (column_values c) (bound_batches s))" if "c < k" for c
    using assms batch_rows_pos that by (rule all_rows)
qed

text \<open>A column of integers.\<close>

definition ints :: "int list \<Rightarrow> arrow_record" where
  "ints ns = \<lparr>rec_Fields = [\<lparr>fd_Name = asc ''n'', fd_Type = Int64Type, fd_Nullable = True, fd_Metadata = []\<rparr>],
     rec_Columns = [\<lparr>ar_Type = Int64Type, ar_Values = map (Some \<circ> VInt) ns\<rparr>], rec_NumRows = length ns\<rparr>"

definition new_stmt :: statement_impl where
  "new_stmt = ingest_options.extend no_ingest (statement_impl.fields [] False None None None None)"

theorem ingest_sends_every_row_once_witness:
  "\<forall>env. \<exists>ps. (pump_stream env 2 [ints [1, 2, 3]] :: 'z pump_op) = run_all (map (pump_slice env) ps) \<and>
    (\<forall>p \<in> set ps. rec_NumRows p \<in> {1, 2}) \<and>
    concat (map (column_values 0) ps) = [Some (VInt 1), Some (VInt 2), Some (VInt 3)]"
proof
  fix env
  define s where "s = Bind (ints [1, 2, 3]) (new_stmt\<lparr>ingestBatchRows := 2\<rparr>)"
  have s: "bound_batches s = [ints [1, 2, 3]]" "batch_rows_of s = 2"
    by (simp_all add: s_def Bind_def clearBound_def bound_batches_def batch_rows_of_def new_stmt_def no_ingest_def
      ingest_options.extend_def statement_impl.fields_def)
  have k: "\<forall>r \<in> set (bound_batches s). record_ok 1 r" by (simp add: s record_ok_def ints_def)
  from ingest_sends_every_row_once [where ?'a = 'z, OF k, of env] s obtain ps where
    ps: "(pump_stream env 2 [ints [1, 2, 3]] :: 'z pump_op) = run_all (map (pump_slice env) ps)"
      "\<forall>p \<in> set ps. 0 < rec_NumRows p \<and> rec_NumRows p \<le> 2"
      "concat (map (column_values 0) ps) = column_values 0 (ints [1, 2, 3])" by auto
  have "\<forall>p \<in> set ps. rec_NumRows p \<in> {1, 2}"
  proof
    fix p assume "p \<in> set ps"
    then have "0 < rec_NumRows p \<and> rec_NumRows p \<le> 2" using ps(2) by blast
    then show "rec_NumRows p \<in> {1, 2}" by auto
  qed
  then show "\<exists>ps. (pump_stream env 2 [ints [1, 2, 3]] :: 'z pump_op) = run_all (map (pump_slice env) ps) \<and>
    (\<forall>p \<in> set ps. rec_NumRows p \<in> {1, 2}) \<and>
    concat (map (column_values 0) ps) = [Some (VInt 1), Some (VInt 2), Some (VInt 3)]" using ps(1,3) by (intro exI [of _ ps]) (simp add: column_values_def ints_def)
qed

subsection \<open>A query that failed\<close>

text \<open>
  What an application may try afterwards, in any order: binding other parameters, and executing the statement in any of
  its forms. The result tells for each execution whether it failed.
\<close>

datatype attempt = Rebind arrow_record | RebindStream record_stream | TryQuery | TryUpdate | TrySchema























definition executions :: "attempt list \<Rightarrow> nat" where
  "executions as = length (filter (\<lambda>a. a \<in> {TryQuery, TryUpdate, TrySchema}) as)"

lemma executions_simps [simp]:
  "executions [] = 0" "executions (Rebind r # as) = executions as" "executions (RebindStream t # as) = executions as"
  "executions (TryQuery # as) = Suc (executions as)" "executions (TryUpdate # as) = Suc (executions as)"
  "executions (TrySchema # as) = Suc (executions as)"
  by (simp_all add: executions_def)







end
