(* ===== verification/TtcReturns.thy ===== *)
theory TtcReturns
  imports TtcConn
begin

text \<open>
  Calls return: whatever a server sends, the packets it sent are used up, also across markers, resets and retries.
\<close>

subsection \<open>Operations that do not put input back\<close>

text \<open>Unlike \<open>forward\<close> this holds after a read error too, which a reset clears.\<close>

named_theorems shrinks_rules \<open>operations that leave no more packets to read\<close>

definition shrinks :: "('z, 'a) op \<Rightarrow> bool" where
  "shrinks m \<longleftrightarrow> (\<forall>s. unread (snd (run_state m s)) \<le> unread s)"

lemma shrinksD: "shrinks m \<Longrightarrow> run_state m s = (x, s') \<Longrightarrow> unread s' \<le> unread s"
  unfolding shrinks_def by (metis snd_conv)

lemma shrinks_modify: "(\<And>s. unread (g s) \<le> unread s) \<Longrightarrow> shrinks (modify g)"
  by (simp add: shrinks_def)

lemma shrinks_basic [shrinks_rules]:
  "shrinks (State_Monad.return x)" "shrinks (gets f)" "shrinks (throw e)" "shrinks (ok y)" "shrinks (with_err v)"
  by (simp_all add: shrinks_def throw_def ok_def with_err_def case_prod_unfold Let_def)

lemma shrinks_bind [shrinks_rules]:
  "shrinks m \<Longrightarrow> (\<And>x. shrinks (f x)) \<Longrightarrow> shrinks (State_Monad.bind m f)"
  unfolding shrinks_def by (auto simp: case_prod_unfold Let_def intro: order_trans)

lemma shrinks_cases [shrinks_rules]:
  "(b \<Longrightarrow> shrinks m) \<Longrightarrow> (\<not> b \<Longrightarrow> shrinks n) \<Longrightarrow> shrinks (if b then m else n)"
  "shrinks m \<Longrightarrow> (\<And>x. shrinks (f x)) \<Longrightarrow> shrinks (case ob of None \<Rightarrow> m | Some x \<Rightarrow> f x)"
  "(\<And>x y. shrinks (g x y)) \<Longrightarrow> shrinks (case p of (x, y) \<Rightarrow> g x y)"
  by (simp_all split: option.split prod.split)

lemma shrinks_tryE [shrinks_rules]: "shrinks m \<Longrightarrow> (\<And>x. shrinks (f x)) \<Longrightarrow> shrinks (tryE m f)"
  unfolding tryE_def by (rule shrinks_bind) (auto split: sum.split intro: shrinks_basic)

lemma shrinks_repeat [shrinks_rules]: "shrinks m \<Longrightarrow> shrinks (repeat_op n m)"
  by (induction n) (auto intro: shrinks_rules)

lemma shrinks_each [shrinks_rules]: "(\<And>x. shrinks (f x)) \<Longrightarrow> shrinks (each f xs)"
  by (induction xs) (auto intro: shrinks_rules)

lemma unread_set_err [simp]: "unread (set_err e s) = unread s"
  by (simp add: unread_def)

subsection \<open>Reading\<close>

lemma ReadPacket_shrinks: "length (incoming (snd (ReadPacket t))) \<le> length (incoming t)"
  by (auto simp: ReadPacket_def read_full_def unprotect_def Let_def split: option.splits prod.splits sum.splits)

lemma packet_loop_unread: "unread (packet_loop s) \<le> unread s"
proof (induction s rule: packet_loop.induct)
  case (1 s)
  show ?case
  proof (cases "ReadPacket (tr s)")
    case (Pair r t)
    show ?thesis
    proof (cases r)
      case (Inl e)
      then show ?thesis using Pair ReadPacket_shrinks [of "tr s"] by (simp add: packet_loop.simps [of s] unread_def)
    next
      case (Inr p)
      define s1 where "s1 = snd (processPacket p (s\<lparr>tr := t\<rparr>))"
      have "length (incoming t) < length (incoming (tr s))" using ReadPacket_size(2) Pair Inr by blast
      then have le: "unread s1 \<le> unread s" by (auto simp: s1_def processPacket_def Let_def unread_def)
      have "packet_loop s = s1 \<or> (\<exists>e. packet_loop s = set_err e s1) \<or> packet_loop s = packet_loop s1 \<and> unread (packet_loop s1) \<le> unread s1"
        using 1 [OF Pair [symmetric] Inr] Pair Inr by (auto simp: packet_loop.simps [of s] s1_def split: option.split)
      then show ?thesis using le by auto
    qed
  qed
qed

lemma startPacket_unread: "unread (startPacket s) \<le> unread s"
  by (simp add: unread_def)

lemma wait_packets_unread: "unread (wait_packets m s) \<le> unread s"
  using packet_loop_unread [of s] startPacket_unread [of s] startPacket_unread [of "packet_loop s"]
  by (auto simp: wait_packets_def Let_def)

lemma get_rest_unread: "unread (snd (get_rest n acc s)) \<le> unread s"
proof (induction n acc s rule: get_rest.induct)
  case (1 n acc s)
  show ?case
  proof (cases "n = 0 \<or> rerr (wait_packets True s) \<noteq> None")
    case True
    then show ?thesis using wait_packets_unread [of True s] by (auto simp: get_rest.simps [of n])
  next
    case False
    then show ?thesis using 1 [OF _ _ refl refl] wait_packets_unread [of True s]
      by (auto simp: get_rest.simps [of n] Let_def)
  qed
qed

lemma get_raw_unread: "unread (snd (get_raw n s)) \<le> unread s"
  using wait_packets_unread [of True s] get_rest_unread
  by (auto simp: get_raw_def Let_def intro: order_trans [OF get_rest_unread])

lemma shrinks_getRaw [shrinks_rules]: "shrinks (getRaw n)"
  by (simp add: shrinks_def get_raw_unread)

lemma skip_raw_unread: "unread (skip_raw n s) \<le> unread s"
proof (induction n s rule: skip_raw.induct)
  case (1 n s)
  then show ?case using wait_packets_unread [of True s]
    by (subst skip_raw.simps) (auto simp: Let_def intro: order_trans)
qed

lemma shrinks_skip_raw [shrinks_rules]: "shrinks (SkipRawBytes n)" "shrinks (SetErr e)" "shrinks ClearErr"
    "shrinks (SetCheckRequestBoundary v)" "shrinks (SetPacketSent v)" "shrinks (WaitForPackets m)" "shrinks ResetPackets"
  unfolding SkipRawBytes_def SetErr_def ClearErr_def SetCheckRequestBoundary_def SetPacketSent_def WaitForPackets_def ResetPackets_def
  by (simp_all add: shrinks_def skip_raw_unread wait_packets_unread) (simp_all add: unread_def)

lemma shrinks_integers [shrinks_rules]:
  "shrinks ReadUB1" "shrinks ReadSB1" "shrinks ReadUB2" "shrinks ReadUB4" "shrinks ReadUB8"
  "shrinks ReadSB2" "shrinks ReadSB4" "shrinks ReadSB8"
  "shrinks SkipUB1" "shrinks SkipUB2" "shrinks SkipUB4" "shrinks SkipUB8" "shrinks SkipSB4"
  "shrinks ReadUint16BE" "shrinks ReadUint16LE" "shrinks ReadUint32BE" "shrinks (ReadRawBytes n)"
proof -
  have i: "shrinks (intLengthAndSign k b)" for k b
    unfolding intLengthAndSign_def Let_def by (intro shrinks_rules)
  have u: "shrinks (readUnsigned k)" "shrinks (readSigned k)" for k
    unfolding readUnsigned_def readSigned_def by (intro shrinks_rules i)+
  have b: "shrinks ReadUB1" unfolding ReadUB1_def by (intro shrinks_rules)
  show "shrinks ReadUB1" by (rule b)
  show "shrinks ReadSB1" unfolding ReadSB1_def by (intro shrinks_rules b)
  show "shrinks ReadUB2" "shrinks ReadUB4" "shrinks ReadUB8" "shrinks ReadSB2" "shrinks ReadSB4" "shrinks ReadSB8"
    "shrinks SkipUB1" "shrinks SkipUB2" "shrinks SkipUB4" "shrinks SkipUB8" "shrinks SkipSB4"
    "shrinks ReadUint16BE" "shrinks ReadUint16LE" "shrinks ReadUint32BE" "shrinks (ReadRawBytes n)"
    unfolding ReadUB2_def ReadUB4_def ReadUB8_def ReadSB2_def ReadSB4_def ReadSB8_def SkipUB1_def SkipUB2_def
      SkipUB4_def SkipUB8_def SkipSB4_def ReadUint16BE_def ReadUint16LE_def ReadUint32BE_def ReadRawBytes_def
    by (intro shrinks_rules u)+
qed

lemma chunk_loop_unread: "unread (snd (chunk_loop acc s)) \<le> unread s"
proof (induction acc s rule: chunk_loop.induct)
  case (1 acc s)
  obtain n s1 where n: "run_state ReadUB4 s = (n, s1)" by fastforce
  obtain ob s2 where g: "get_raw (unat n) s1 = (ob, s2)" by fastforce
  have u: "unread s1 \<le> unread s" "unread s2 \<le> unread s1"
    using shrinksD [OF shrinks_integers(4) n] get_raw_unread [of "unat n" s1] g by simp_all
  show ?case
  proof (cases "rerr s1 \<noteq> None \<or> n = 0 \<or> ob = None")
    case True
    then show ?thesis using n g u by (auto simp: chunk_loop.simps [of acc s])
  next
    case False
    then obtain part where p: "ob = Some part" by auto
    have "unread (snd (chunk_loop (acc @ part) (s2\<lparr>chunk_nil := False\<rparr>))) \<le> unread (s2\<lparr>chunk_nil := False\<rparr>)"
      by (rule 1 [OF n [symmetric] _ _ g [symmetric] p]) (use False in auto)
    moreover have "unread (s2\<lparr>chunk_nil := False\<rparr>) = unread s2" by (simp add: unread_def)
    ultimately show ?thesis using False n g p u by (simp add: chunk_loop.simps [of acc s])
  qed
qed

lemma skip_chunks_unread: "unread (skip_chunks s) \<le> unread s"
proof (induction s rule: skip_chunks.induct)
  case (1 s)
  obtain n s1 where n: "run_state ReadUB4 s = (n, s1)" by fastforce
  have u: "unread s1 \<le> unread s" "unread (skip_raw (unat n) s1) \<le> unread s1"
    using shrinksD [OF shrinks_integers(4) n] skip_raw_unread by simp_all
  show ?case using 1 [OF n [symmetric]] n u by (subst skip_chunks.simps) (auto intro: order_trans)
qed

lemma shrinks_values [shrinks_rules]:
  "shrinks ReadRawBytesAndLength" "shrinks ReadBytes" "shrinks ReadBytesWithLength" "shrinks (ReadStr nchar)"
  "shrinks ReadStrWithLength" "shrinks SkipBytes" "shrinks SkipBytesWithLength" "shrinks ReadRowid"
proof -
  have c: "shrinks (State (chunk_loop acc))" "shrinks (modify skip_chunks)" for acc
    by (simp_all add: shrinks_def chunk_loop_unread skip_chunks_unread)
  have r: "shrinks ReadRawBytesAndLength" unfolding ReadRawBytesAndLength_def by (intro shrinks_rules c)
  have rs: "shrinks (ReadStr nchar)" for nchar unfolding ReadStr_def by (intro shrinks_rules r)
  have k: "shrinks SkipBytes" unfolding SkipBytes_def by (intro shrinks_rules c)
  show "shrinks ReadRawBytesAndLength" "shrinks (ReadStr nchar)" "shrinks SkipBytes" by (rule r rs k)+
  show "shrinks ReadBytes" "shrinks ReadBytesWithLength" unfolding ReadBytesWithLength_def ReadBytes_def by (intro shrinks_rules r)+
  show "shrinks ReadStrWithLength" "shrinks SkipBytesWithLength" "shrinks ReadRowid"
    unfolding ReadStrWithLength_def SkipBytesWithLength_def ReadRowid_def by (intro shrinks_rules rs k)+
qed

subsection \<open>Writing\<close>

lemma unread_updates [simp]:
  "unread (s\<lparr>wpos := n\<rparr>) = unread s" "unread (s\<lparr>werr := e\<rparr>) = unread s" "unread (s\<lparr>seqNum := k\<rparr>) = unread s"
  by (simp_all add: unread_def)

text \<open>A request changes neither what has arrived nor the saved packets.\<close>

lemma WritePacket_incoming: "incoming (snd (WritePacket b t)) = incoming t"
  by (auto simp: WritePacket_def protect_def socket_write_def Let_def split: option.splits prod.splits)

lemma store_unread [simp]: "unread (store p b s) = unread s"
  by (simp add: store_def unread_def)

lemma put_header_unread [simp]: "unread (put_header s) = unread s"
  by (simp add: put_header_def Let_def)

lemma unread_tr: "incoming t = incoming (tr s) \<Longrightarrow> unread (s\<lparr>tr := t\<rparr>) = unread s"
  by (simp add: unread_def)

lemma send_packet_unread [simp]: "unread (send_packet f s) = unread s"
  using WritePacket_incoming [of "take (wpos (put_header s)) (wdata (put_header s))" "tr s"] put_header_unread [of s]
  by (auto simp: send_packet_def Let_def unread_def split: option.split prod.split)

lemma put_fixed_unread [simp]: "unread (put_fixed b s) = unread s"
proof -
  have e: "unread (ensure n s) = unread s" for n by (simp add: ensure_def)
  then show ?thesis by (simp add: put_fixed_def Let_def)
qed

lemma write_raw_unread [simp]: "unread (write_raw b s) = unread s"
proof (induction b s rule: write_raw.induct)
  case (1 b s)
  then show ?case by (subst write_raw.simps) (auto simp: Let_def)
qed

lemma shrinks_write [shrinks_rules]:
  "shrinks (StartRequest p f d)" "shrinks EndRequest" "shrinks (WriteUint8 a)" "shrinks (WriteUint16BE b)"
  "shrinks (WriteUint32BE c)" "shrinks (WriteUint64BE e)" "shrinks (WriteRaw r)" "shrinks WriteSeqNum"
proof -
  show u: "shrinks (WriteUint8 a)" for a by (simp add: shrinks_def WriteUint8_def)
  show "shrinks (WriteUint16BE b)" "shrinks (WriteUint32BE c)" "shrinks (WriteUint64BE e)" "shrinks (WriteRaw r)"
    by (simp_all add: shrinks_def WriteUint16BE_def WriteUint32BE_def WriteUint64BE_def WriteRaw_def)
  show "shrinks (StartRequest p f d)" by (simp add: shrinks_def StartRequest_def Let_def unread_def)
  show "shrinks EndRequest" unfolding EndRequest_def by (intro shrinks_rules shrinks_modify) simp
  show "shrinks WriteSeqNum" unfolding WriteSeqNum_def
    by (intro shrinks_rules shrinks_modify u) simp_all
qed

lemma shrinks_write_values [shrinks_rules]:
  "shrinks (WriteUB2 a)" "shrinks (WriteUB4 b)" "shrinks (WriteUB8 c)" "shrinks (WriteBytesWithLength d)"
  "shrinks (WriteBytesWithTwoLengths e)"
proof -
  show "shrinks (WriteUB2 a)" "shrinks (WriteUB8 c)" unfolding WriteUB2_def WriteUB8_def by (intro shrinks_rules)+
  show u: "shrinks (WriteUB4 b)" for b unfolding WriteUB4_def by (intro shrinks_rules)
  have "shrinks (write_chunks n d)" for n d by (induction n arbitrary: d) (auto intro!: shrinks_rules u)
  then show l: "shrinks (WriteBytesWithLength d)" for d unfolding WriteBytesWithLength_def by (intro shrinks_rules u)
  show "shrinks (WriteBytesWithTwoLengths e)" unfolding WriteBytesWithTwoLengths_def by (intro shrinks_rules u l)
qed

lemma shrinks_on [shrinks_rules]: "shrinks (on_msg g)" "shrinks (on_conn f)" "shrinks ret_err" "shrinks set_end_of_response"
proof -
  show m: "shrinks (on_msg g)" for g by (simp add: shrinks_def on_msg_def unread_def)
  show "shrinks (on_conn f)" by (simp add: shrinks_def on_conn_def unread_def)
  show "shrinks ret_err" unfolding ret_err_def by (intro shrinks_rules)
  show "shrinks set_end_of_response" unfolding set_end_of_response_def by (intro shrinks_rules m)
qed

lemma shrinks_function_code [shrinks_rules]: "shrinks writeFunctionCode"
proof -
  have t: "shrinks write_token" "shrinks (writePiggybackCode c)" for c
    unfolding write_token_def writePiggybackCode_def by (intro shrinks_rules)+
  have h: "shrinks (writeHdr b v)" "shrinks (write_attribute b v)" for b v
    unfolding writeHdr_def write_attribute_def by (intro shrinks_rules)+
  have "shrinks writePiggybacks" "shrinks writeEndToEndPiggyback"
    unfolding writePiggybacks_def writeEndToEndPiggyback_def by (intro shrinks_rules t h)+
  then show ?thesis unfolding writeFunctionCode_def by (intro shrinks_rules t)
qed

lemma shrinks_messages [shrinks_rules]:
  "shrinks processErrorInfo" "shrinks processWarningInfo" "shrinks (processKeywordValuePairs n)" "shrinks processServerSidePiggyback"
proof -
  have b: "shrinks (read_batch_codes k)" "shrinks (read_batch_offsets k j)" "shrinks (read_batch_messages k)" for k j
    unfolding read_batch_codes_def read_batch_offsets_def read_batch_messages_def read_batch_code_def read_batch_offset_def
      read_batch_message_def skip_item_length_def skip_list_end_def by (intro shrinks_rules)+
  show "shrinks processErrorInfo" unfolding processErrorInfo_def by (intro shrinks_rules b)
  show "shrinks processWarningInfo" unfolding processWarningInfo_def by (intro shrinks_rules)
  show k: "shrinks (processKeywordValuePairs n)" for n
    unfolding processKeywordValuePairs_def read_keyword_pair_def by (intro shrinks_rules)
  show "shrinks processServerSidePiggyback"
    unfolding processServerSidePiggyback_def skip_session_pair_def by (intro shrinks_rules k)
qed

lemma shrinks_simple [shrinks_rules]: "shrinks (simple_handler t)"
  unfolding simple_handler_def processMessage_base_def processReturnParameters_base_def by (intro shrinks_rules)

subsection \<open>Markers and packets\<close>

lemma await_reset_unread: "unread (snd (await_reset s)) \<le> unread s"
proof (induction s rule: await_reset.induct)
  case (1 s)
  have r: "unread (snd (run_state read_marker s)) \<le> unread s"
    using shrinksD [of read_marker s] unfolding read_marker_def by (metis prod.collapse shrinks_bind shrinks_integers(1) shrinks_skip_raw(1))
  show ?case
  proof (cases "current s")
    case None
    then show ?thesis by (simp add: await_reset.simps [of s])
  next
    case (Some p)
    define s1 where "s1 = (if Type p = PacketTypeMarker then snd (run_state read_marker s) else s)"
    have u: "unread (wait_packets False s1) \<le> unread s"
      using r wait_packets_unread [of False s1] by (auto simp: s1_def split: if_splits)
    have "await_reset s = (Inr (), snd (run_state read_marker s)) \<or> snd (await_reset s) = wait_packets False s1 \<or>
        await_reset s = await_reset (wait_packets False s1) \<and> unread (snd (await_reset (wait_packets False s1))) \<le> unread (wait_packets False s1)"
      using 1 [OF Some _ s1_def refl] Some by (auto simp: await_reset.simps [of s] s1_def Let_def)
    then show ?thesis using u r by auto
  qed
qed

lemma skip_markers_unread: "unread (snd (skip_markers s)) \<le> unread s"
proof (induction s rule: skip_markers.induct)
  case (1 s)
  then show ?case using wait_packets_unread [of False s]
    by (subst skip_markers.simps) (auto simp: Let_def split: option.split intro: order_trans)
qed

lemma shrinks_reset [shrinks_rules]: "shrinks reset"
proof -
  have "shrinks (modify (\<lambda>s. s\<lparr>tr := (tr s)\<lparr>sec := f s\<rparr>\<rparr>))" for f by (simp add: shrinks_def unread_def)
  moreover have "shrinks (sendMarker m)" for m unfolding sendMarker_def by (intro shrinks_rules)
  moreover have "shrinks (State await_reset)" "shrinks (State skip_markers)"
    by (simp_all add: shrinks_def await_reset_unread skip_markers_unread)
  ultimately show ?thesis unfolding reset_def by (intro shrinks_rules)
qed

text \<open>Receiving succeeds only after a packet was taken.\<close>

definition received :: "packet \<Rightarrow> ('z, ttc_error + unit) ttc_op" where
  "received p =
     (if Type p = PacketTypeMarker then tryE reset (\<lambda>_. ret_err)
      else if Type p = PacketTypeRefuse then do {
        SetPacketSent False;
        SkipRawBytes 2;
        n \<leftarrow> ReadUint16BE;
        (if n > 0 then do {
           b \<leftarrow> ReadRawBytes (unat n);
           on_msg (\<lambda>m. m\<lparr>errInfo := (errInfo m)\<lparr>Message := (case b of None \<Rightarrow> [] | Some x \<Rightarrow> x)\<rparr>\<rparr>) }
         else State_Monad.return ());
        ret_err }
      else ret_err)"

lemma shrinks_received: "shrinks (received p)"
  unfolding received_def by (intro shrinks_rules)

lemma receivePacket_received:
  "run_state (receivePacket b) s =
     (let s1 = s\<lparr>checkRequestBoundary := b \<and> SupportsEndOfResponse (caps s)\<rparr>;
          s2 = (wait_packets False s1)\<lparr>checkRequestBoundary := False\<rparr> in
      case rerr s2 of Some e \<Rightarrow> (Inl (TnsErr e), s2)
      | None \<Rightarrow> (case current s2 of None \<Rightarrow> (Inl Panicked, s2) | Some p \<Rightarrow> run_state (received p) s2))"
  unfolding receivePacket_def received_def [symmetric]
  by (simp add: SetCheckRequestBoundary_def WaitForPackets_def throw_def Let_def split: option.split)

lemma shrinks_receivePacket [shrinks_rules]: "shrinks (receivePacket b)"
  unfolding receivePacket_def received_def [symmetric] by (intro shrinks_rules shrinks_received)

lemma receivePacket_progress:
  assumes "run_state (receivePacket b) s = (Inr x, s')"
  shows "unread s' < unread s"
proof -
  define s1 where "s1 = s\<lparr>checkRequestBoundary := b \<and> SupportsEndOfResponse (caps s)\<rparr>"
  define s2 where "s2 = (wait_packets False s1)\<lparr>checkRequestBoundary := False\<rparr>"
  obtain p where p: "rerr s2 = None" "run_state (received p) s2 = (Inr x, s')"
    using assms unfolding receivePacket_received Let_def s1_def [symmetric] s2_def [symmetric]
    by (cases "rerr s2"; cases "current s2") auto
  then have "rerr (wait_packets False s1) = None" by (simp add: s2_def)
  from wait_packets_progress [OF this] have "unread s2 < unread s" by (simp add: s1_def s2_def unread_def)
  then show ?thesis using shrinksD [OF shrinks_received p(2)] by simp
qed

subsection \<open>Exchanges\<close>

lemma shrinks_end_request: "shrinks end_request"
  unfolding end_request_def by (intro shrinks_rules)

lemma tryE_Inr:
  assumes "run_state (tryE m f) s = (Inr y, s')"
  obtains x s1 where "run_state m s = (Inr x, s1)" "run_state (f x) s1 = (Inr y, s')"
  using assms by (auto simp: run_tryE split: prod.splits sum.splits)

lemma process_loop_shrinks:
  assumes "process_loop h s = Some y" "\<forall>t. shrinks (h t)"
  shows "unread (snd y) \<le> unread s"
proof -
  have "(\<forall>t. shrinks (h t)) \<longrightarrow> unread (snd y) \<le> unread s"
  proof (rule process_loop.raw_induct [where P = "\<lambda>h s y. (\<forall>t. shrinks (h t)) \<longrightarrow> unread (snd y) \<le> unread s", OF _ assms(1)])
    fix loop :: "(u8 \<Rightarrow> ('a, ttc_error + unit) ttc_op) \<Rightarrow> 'a ttc_scheme \<Rightarrow> ((ttc_error + unit) \<times> 'a ttc_scheme) option" and h s y
    assume IH: "\<And>h s y. loop h s = Some y \<Longrightarrow> (\<forall>t. shrinks (h t)) \<longrightarrow> unread (snd y) \<le> unread s"
      and body: "(if endOfResponse (msg s) then Some (Inr (), s)
        else case run_state ReadUB1 s of (t, s1) \<Rightarrow>
          if rerr s1 \<noteq> None then Some (Inl (TnsErr (the (rerr s1))), s1)
          else case run_state (h t) s1 of (r, s2) \<Rightarrow>
            if isl r then Some (r, s2)
            else if rerr s2 \<noteq> None then Some (Inl (TnsErr (the (rerr s2))), s2)
            else loop h s2) = Some y"
    show "(\<forall>t. shrinks (h t)) \<longrightarrow> unread (snd y) \<le> unread s"
    proof
      assume h: "\<forall>t. shrinks (h t)"
      obtain t s1 where t: "run_state ReadUB1 s = (t, s1)" by fastforce
      obtain r s2 where r: "run_state (h t) s1 = (r, s2)" by fastforce
      have u: "unread s1 \<le> unread s" "unread s2 \<le> unread s1"
        using shrinksD [OF shrinks_integers(1) t] shrinksD [OF _ r] h by simp_all
      have "snd y \<in> {s, s1, s2} \<or> loop h s2 = Some y" using body t r by (cases y) (auto split: if_splits)
      then show "unread (snd y) \<le> unread s" using u IH [of h s2 y] h by auto
    qed
  qed
  then show ?thesis using assms(2) by blast
qed

text \<open>A call that succeeds has taken a packet.\<close>

definition returns :: "'z session_scheme \<Rightarrow> (('e + 'a) \<times> 'z session_scheme) option \<Rightarrow> bool" where
  "returns s x \<longleftrightarrow> (\<exists>r u. x = Some (r, u) \<and> unread u \<le> unread s \<and> (isl r \<or> unread u < unread s))"

lemma returnsI: "unread u \<le> unread s \<Longrightarrow> isl r \<or> unread u < unread s \<Longrightarrow> returns s (Some (r, u))"
  by (simp add: returns_def)

lemma returnsE:
  assumes "returns s x"
  obtains r u where "x = Some (r, u)" "unread u \<le> unread s" "isl r \<or> unread u < unread s"
  using assms by (auto simp: returns_def)

lemma returns_less: "unread t < unread s \<Longrightarrow> returns t x \<Longrightarrow> returns s x"
  by (auto simp: returns_def)

lemma returns_le: "unread t \<le> unread s \<Longrightarrow> returns t x \<Longrightarrow> returns s x"
  by (auto simp: returns_def)

lemma shrinks_abandon: "shrinks (abandon e)"
proof -
  have "shrinks (sendMarker m)" for m unfolding sendMarker_def by (intro shrinks_rules)
  then show ?thesis unfolding abandon_def by (intro shrinks_rules)
qed

lemma unread_status [simp]:
  "unread (note_status s) = unread s" "unread (clear_retry s) = unread s" "unread (snd (server_error s)) = unread s"
  by (simp_all add: note_status_def clear_retry_def server_error_def Close_def Let_def unread_def)

text \<open>
  The interface \<^verbatim>\<open>message\<close> of the code: what a request, its response and its end do to the input. Whatever keeps
  these laws can be exchanged with a server, and the exchange ends.
\<close>

locale message_interface =
  fixes m :: "'z exec_scheme message"
  assumes write_shrinks: "shrinks (m_write m)"
    and finish_shrinks: "shrinks (m_finish m)"
    and handle_shrinks: "shrinks (m_handle m t)"
    and handle_forward: "forward (m_handle m t)"
begin

lemma send_message_progress:
  assumes "run_state (send_message m) s = (Inr x, s')"
  shows "unread s' < unread s"
proof -
  obtain d s1 where d: "run_state (do { on_conn (\<lambda>c. c\<lparr>deferredErr := None\<rparr>); ResetPackets; StartRequest PacketTypeData 0 0;
      m_write m; gets (\<lambda>s. deferredErr (conn s)) }) s = (d, s1)" by fastforce
  have u: "unread s1 \<le> unread s" by (rule shrinksD [OF _ d]) (intro shrinks_rules write_shrinks)
  have "run_state (tryE end_request (\<lambda>_. receivePacket True)) s1 = (Inr x, s')"
    using assms d by (auto simp: send_message_def throw_def Let_def split: prod.splits option.splits)
  then obtain y s2 where "run_state end_request s1 = (Inr y, s2)" "run_state (receivePacket True) s2 = (Inr x, s')"
    by (rule tryE_Inr)
  then show ?thesis using receivePacket_progress shrinksD [OF shrinks_end_request] u by fastforce
qed

lemma process_ends:
  "\<exists>r u. process (m_handle m) s = Some (r, u) \<and> unread u \<le> unread s"
proof -
  let ?s = "s\<lparr>msg := (msg s)\<lparr>endOfResponse := False, flushOutBinds := False\<rparr>\<rparr>"
  obtain r u where p: "process_loop (m_handle m) ?s = Some (r, u)"
    using process_loop_returns [of "m_handle m" ?s] handle_forward by auto
  moreover have "unread u \<le> unread ?s" using process_loop_shrinks [OF p] handle_shrinks by simp
  moreover have "unread ?s = unread s" by (simp add: unread_def)
  ultimately show ?thesis by (simp add: process_def)
qed

lemma run_response_ends:
  "\<exists>r u. run_response m s = Some (r, u) \<and> unread u \<le> unread s"
proof -
  obtain r u where p: "process (m_handle m) s = Some (r, u)" "unread u \<le> unread s" using process_ends by blast
  obtain r1 u1 where r: "run_state reset u = (r1, u1)" by fastforce
  have u1: "unread u1 \<le> unread u" using shrinksD [OF shrinks_reset r] .
  obtain r2 u2 where q: "process (m_handle m) u1 = Some (r2, u2)" "unread u2 \<le> unread u1" using process_ends by blast
  show ?thesis using p r u1 q by (auto simp: run_response_def split: sum.split)
qed

lemma flush_binds_ends:
  "\<exists>r u. flush_binds m s = Some (r, u) \<and> unread u \<le> unread s"
proof -
  obtain r1 u1 where r: "run_state (do { StartRequest PacketTypeData 0 0; WriteUint8 MsgTypeFlushOutBinds;
          tryE end_request (\<lambda>_. receivePacket False) }) s = (r1, u1)" by fastforce
  have u1: "unread u1 \<le> unread s" by (rule shrinksD [OF _ r]) (intro shrinks_rules shrinks_end_request)
  obtain r2 u2 where q: "process (m_handle m) u1 = Some (r2, u2)" "unread u2 \<le> unread u1" using process_ends by blast
  show ?thesis unfolding flush_binds_def r using u1 q by (auto split: sum.split)
qed

lemma exchange_ends:
  "returns s (processMessageLocked m s)"
proof (induction s rule: measure_induct_rule [of unread])
  case (less s)
  obtain r1 s1 where 1: "run_state (send_message m) s = (r1, s1)" by fastforce
  show ?case
  proof (cases r1)
    case (Inl e)
    have "shrinks (send_message m)"
      unfolding send_message_def by (intro shrinks_rules shrinks_end_request write_shrinks)
    then show ?thesis using 1 Inl shrinksD [OF _ 1] by (auto simp: processMessageLocked.simps [of m s] intro: returnsI)
  next
    case (Inr x)
    then have u1: "unread s1 < unread s" using send_message_progress 1 by blast
    obtain r2 s2 where 2: "run_response m s1 = Some (r2, s2)" "unread s2 \<le> unread s1" using run_response_ends by blast
    define s3 where "s3 = snd (run_state (m_finish m) s2)"
    have u3: "unread s3 \<le> unread s2" using finish_shrinks by (simp add: s3_def shrinks_def)
    obtain r4 s4 where 4: "flush_binds m s3 = Some (r4, s4)" "unread s4 \<le> unread s3" using flush_binds_ends by blast
    have u: "unread s4 < unread s" "unread s2 < unread s" using u1 2(2) u3 4(2) by simp_all
    have a: "unread (snd (run_state (abandon e) s2)) < unread s" for e
      using shrinks_abandon [of e] u(2) unfolding shrinks_def by (meson le_less_trans)
    have ih: "returns s (processMessageLocked m (clear_retry (note_status s4)))"
      using less [of "clear_retry (note_status s4)"] u(1) returns_less [of "clear_retry (note_status s4)" s] by simp
    have e: "returns s (Some (server_error (note_status s4)))"
      using u(1) unread_status(3) [of "note_status s4"] by (cases "server_error (note_status s4)") (auto intro: returnsI)
    have step: "processMessageLocked m s =
        (case r2 of Inl e \<Rightarrow> Some (Inl e, snd (run_state (abandon e) s2))
         | Inr _ \<Rightarrow> (case r4 of Inl e \<Rightarrow> Some (Inl e, s4)
            | Inr _ \<Rightarrow> if \<not> errorOccurred (msg (note_status s4)) then Some (Inr (), note_status s4)
                else if retry (msg (note_status s4)) then processMessageLocked m (clear_retry (note_status s4))
                else Some (server_error (note_status s4))))"
      using 1 2(1) Inr 4(1) by (simp add: processMessageLocked.simps [of m s] s3_def [symmetric] split: sum.split)
    show ?thesis unfolding step using a u(1) ih e
      by (auto split: sum.split intro: returnsI less_imp_le)
  qed
qed

lemma after_break_ends:
  "\<exists>r' u. after_break m c r0 s = Some (r', u) \<and> unread u \<le> unread s \<and> (isl r0 \<longrightarrow> isl r')"
proof -
  define d where "d = (\<lambda>s :: 'z exec_scheme. (case c of Some e \<Rightarrow> Inl (Cancelled e (errOrCancelled r0)) | None \<Rightarrow> r0,
            s\<lparr>conn := (conn s)\<lparr>breakSent := False\<rparr>\<rparr>))"
  define t where "t = (if SupportsOOB (caps s) then snd (run_state (sendMarker MarkerTypeInterrupt) s) else s)"
  have d: "\<exists>r' u. Some (d x) = Some (r', u) \<and> unread u \<le> unread s \<and> (isl r0 \<longrightarrow> isl r')" if "unread x \<le> unread s" for x
    using that by (auto simp: d_def unread_def split: option.split)
  have "shrinks (sendMarker MarkerTypeInterrupt :: ('z exec_scheme, unit) state)" unfolding sendMarker_def by (intro shrinks_rules)
  then have t: "unread t \<le> unread s" by (simp add: t_def shrinks_def)
  obtain r1 s1 where r: "run_state (receivePacket False) t = (r1, s1)" by fastforce
  have s1: "unread s1 \<le> unread s" using shrinksD [OF shrinks_receivePacket r] t by simp
  obtain r2 s2 where p: "process (m_handle m) s1 = Some (r2, s2)" "unread s2 \<le> unread s1" using process_ends by blast
  have "after_break m c r0 s \<in> {Some (d s), Some (d t), Some (d s1), Some (d s2)}"
    using r p(1) unfolding after_break_def d_def [symmetric] t_def [symmetric] Let_def by (simp split: sum.split)
  then show ?thesis using d [of s] d [of t] d [of s1] d [of s2] t s1 p(2) by auto
qed

lemma call_ends:
  "returns s (processMessageCtx b a m s)"
proof -
  obtain r u where p: "processMessageLocked m s = Some (r, u)" "unread u \<le> unread s" "isl r \<or> unread u < unread s"
    using exchange_ends [of s] by (rule returnsE)
  obtain r' u' where "after_break m a r u = Some (r', u')" "unread u' \<le> unread u" "isl r \<longrightarrow> isl r'"
    using after_break_ends by blast
  then show ?thesis using p by (auto simp: processMessageCtx_def returns_def split: option.split)
qed

end

interpretation simple: message_interface simple_message
  by unfold_locales (auto simp: simple_message_def simple_write_def intro: shrinks_rules forward_simple)

end
