(* ===== verification/TtcExecReturns.thy ===== *)
theory TtcExecReturns
  imports TtcReturns TtcDescribe
begin

text \<open>
  Executing and fetching return: every message of the response to an execute uses up input, and a statement is sent
  again at most once by the protocol and at most as often as the server answers.
\<close>

named_theorems consuming_rules \<open>operations that use input up, also after an error\<close>

definition consuming :: "('z, 'a) op \<Rightarrow> bool" where
  "consuming m \<longleftrightarrow> forward m \<and> shrinks m"

lemma consumingI: "forward m \<Longrightarrow> shrinks m \<Longrightarrow> consuming m"
  by (simp add: consuming_def)

lemma consuming_combinators [consuming_rules]:
  "consuming (State_Monad.return x)" "consuming (gets f)" "consuming (throw e)" "consuming (ok y)"
  "consuming (on_msg g)" "consuming (on_conn k)" "consuming ret_err"
  "consuming m \<Longrightarrow> (\<And>x. consuming (h x)) \<Longrightarrow> consuming (State_Monad.bind m h)"
  "(b \<Longrightarrow> consuming m1) \<Longrightarrow> (\<not> b \<Longrightarrow> consuming m2) \<Longrightarrow> consuming (if b then m1 else m2)"
  "consuming m3 \<Longrightarrow> (\<And>x. consuming (f1 x)) \<Longrightarrow> consuming (case ob of None \<Rightarrow> m3 | Some x \<Rightarrow> f1 x)"
  "(\<And>x y. consuming (g2 x y)) \<Longrightarrow> consuming (case p of (x, y) \<Rightarrow> g2 x y)"
  "consuming m4 \<Longrightarrow> (\<And>x. consuming (f3 x)) \<Longrightarrow> consuming (tryE m4 f3)"
  "consuming m5 \<Longrightarrow> consuming (repeat_op n m5)"
  by (auto simp: consuming_def intro: forward_rules shrinks_rules split: option.split prod.split)

lemma consuming_sum [consuming_rules]:
  "(\<And>x. consuming (f x)) \<Longrightarrow> (\<And>x. consuming (g x)) \<Longrightarrow> consuming (case r of Inl x \<Rightarrow> f x | Inr x \<Rightarrow> g x)"
  "consuming m \<Longrightarrow> (\<And>x xs'. consuming (h x xs')) \<Longrightarrow> consuming (case xs of [] \<Rightarrow> m | x # xs' \<Rightarrow> h x xs')"
  by (simp_all split: sum.split list.split)

lemma consuming_reads [consuming_rules]:
  "consuming ReadUB1" "consuming ReadSB1" "consuming ReadUB2" "consuming ReadUB4" "consuming ReadSB4"
  "consuming SkipUB1" "consuming SkipUB2" "consuming SkipUB4" "consuming SkipUB8" "consuming SkipSB4"
  "consuming (ReadRawBytes n)" "consuming (SkipRawBytes n)"
  "consuming ReadRawBytesAndLength" "consuming ReadBytes" "consuming ReadBytesWithLength" "consuming (ReadStr nchar)"
  "consuming ReadStrWithLength" "consuming SkipBytes" "consuming SkipBytesWithLength" "consuming ReadRowid"
  "consuming processErrorInfo" "consuming (processKeywordValuePairs k)"
  by (intro consumingI forward_rules shrinks_rules)+

lemma consuming_update: "(\<And>s. rerr (g s) = rerr s \<and> unread (g s) = unread s \<and> BytesLeft (g s) = BytesLeft s) \<Longrightarrow> consuming (modify g)"
  by (intro consumingI forward_update shrinks_modify) simp_all

lemma consuming_statement [consuming_rules]: "consuming (on_stm f)" "consuming (on_dm g)"
  unfolding on_stm_def on_dm_def by (rule consuming_update, simp add: unread_def BytesLeft_def)+

subsection \<open>Describe information\<close>

lemma consuming_metadata [consuming_rules]: "consuming processMetadata"
  unfolding processMetadata_def skip_annotations_def skip_annotation_def read_domain_def read_vector_info_def
  by (intro consuming_rules)

lemma consuming_columns [consuming_rules]: "consuming (read_columns n st)"
  by (induction n arbitrary: st) (auto intro!: consuming_rules)

lemma consuming_describe [consuming_rules]: "consuming (describeInto st)" "consuming processDescribeInfo"
  unfolding processDescribeInfo_def describeInto_def by (intro consuming_rules)+

subsection \<open>Rows and results\<close>

lemma consuming_error [consuming_rules]: "consuming processErrorInfo_data"
  unfolding processErrorInfo_data_def apply_error_def clearCursor_def Let_def by (intro consuming_rules)

lemma consuming_headers [consuming_rules]: "consuming processRowHeader" "consuming processBitVector"
  unfolding processRowHeader_def processBitVector_def getBitVector_def by (intro consuming_rules)+

lemma consuming_directions: "consuming (read_directions n i dirs outs)"
  by (induction n arbitrary: i dirs outs) (auto intro!: consuming_rules)

lemma consuming_io_vector [consuming_rules]: "consuming processIOVector"
  unfolding processIOVector_def by (intro consuming_rules consuming_directions)

lemma consuming_implicit [consuming_rules]: "consuming processImplicitResult"
proof -
  have c: "consuming (Close_stmt st)" for st :: stmt
    unfolding Close_stmt_def by (intro consuming_rules)
  have "consuming (read_implicit n)" for n by (induction n) (auto intro!: consuming_rules c)
  then show ?thesis unfolding processImplicitResult_def by (intro consuming_rules)
qed

lemma consuming_out_binds [consuming_rules]: "consuming processOutBinds"
proof -
  have v: "consuming (read_out_value i b)" for i b unfolding read_out_value_def by (intro consuming_rules)
  have "consuming (read_out_binds l)" for l by (induction l) (auto simp: Let_def intro!: consuming_rules v)
  then show ?thesis unfolding processOutBinds_def by (intro consuming_rules)
qed

lemma consuming_column_value: "consuming (read_column_value c)"
  unfolding read_column_value_def Let_def read_lob_locator_def read_prefetched_lob_def read_object_image_def
  by (intro consuming_rules)

lemma consuming_sink: "consuming (sink_call ev)"
  unfolding sink_call_def by (intro consuming_rules)

lemma consuming_column_data: "consuming (processColumnData i c d)"
  unfolding processColumnData_def Let_def by (intro consuming_rules consuming_sink consuming_column_value)

lemma consuming_row: "consuming (read_row d i cs)"
  by (induction cs arbitrary: i) (auto intro!: consuming_rules consuming_sink consuming_column_data)

lemma consuming_row_data [consuming_rules]: "consuming processRowData"
  unfolding processRowData_def Let_def by (intro consuming_rules consuming_row consuming_sink)

lemma consuming_data_handler: "consuming (data_handler t)"
proof -
  have p: "consuming processReturnParameters_data" unfolding processReturnParameters_data_def by (intro consuming_rules)
  have "shrinks (processMessage_base processReturnParameters_data t)"
    using p unfolding processMessage_base_def consuming_def by (intro shrinks_rules) auto
  moreover have "forward (processMessage_base processReturnParameters_data t)"
    using p forward_base unfolding consuming_def by blast
  ultimately show ?thesis unfolding data_handler_def by (intro consuming_rules consumingI)
qed

subsection \<open>Requests\<close>

lemma shrinks_column_metadata: "shrinks (writeColumnMetadata a b c)"
  unfolding writeColumnMetadata_def Let_def by (intro shrinks_rules)

lemma shrinks_state [shrinks_rules]: "shrinks (on_stm f)" "shrinks (on_dm g)"
  using consuming_statement by (auto simp: consuming_def)

lemma shrinks_bind_values: "shrinks (write_bind_values bs row)"
proof -
  have v: "shrinks (writeBindValue b row)" for b
    unfolding writeBindValue_def by (auto split: sum.split option.split intro!: shrinks_rules)
  show ?thesis by (induction bs) (auto intro!: shrinks_rules v)
qed

lemma shrinks_bind_rows: "shrinks (write_bind_rows l bs row n)"
  by (induction n arbitrary: row) (auto intro!: shrinks_rules shrinks_bind_values)

lemma shrinks_execute_write: "shrinks execute_write"
proof -
  have h: "shrinks (execute_header st m)" "shrinks (execute_array st m)" for st :: statement and m
    unfolding execute_header_def execute_array_def write_presence_def by (intro shrinks_rules)+
  have b: "shrinks writeBindParams"
    unfolding writeBindParams_def by (intro shrinks_rules shrinks_column_metadata shrinks_bind_rows)
  have s: "shrinks execute_start" unfolding execute_start_def by (intro shrinks_rules)
  show ?thesis unfolding execute_write_def by (intro shrinks_rules h b s shrinks_column_metadata)
qed

lemma data_handler_parts: "shrinks (data_handler t)" "forward (data_handler t)"
  using consuming_data_handler by (auto simp: consuming_def)

lemma shrinks_execute_finish: "shrinks execute_finish"
  unfolding execute_finish_def by (intro shrinks_rules)

lemma shrinks_fetch_write: "shrinks fetch_write"
  unfolding fetch_write_def by (intro shrinks_rules)

interpretation execute: message_interface execute_message
  by unfold_locales (simp_all add: execute_message_def shrinks_execute_write shrinks_execute_finish data_handler_parts)

interpretation fetch: message_interface fetch_message
  by unfold_locales (simp_all add: fetch_message_def shrinks_fetch_write shrinks_basic data_handler_parts)

subsection \<open>Calls\<close>

lemma unread_exec [simp]:
  "unread (s\<lparr>msg := m\<rparr>) = unread s" "unread (t\<lparr>dm := d\<rparr>) = unread t" "unread (t\<lparr>stm := st\<rparr>) = unread t"
  "unread (t\<lparr>locked := l\<rparr>) = unread t" "unread (start_message fn s) = unread s"
  by (simp_all add: unread_def start_message_def)

lemma with_resend_ends: "returns s (with_resend b1 b2 b3 s)"
proof -
  obtain r u where 1: "processMessageCtx b1 b2 execute_message s = Some (r, u)" "unread u \<le> unread s" "isl r \<or> unread u < unread s"
    using execute.call_ends by (rule returnsE)
  let ?u = "u\<lparr>msg := (msg u)\<lparr>resend := False\<rparr>, dm := (dm u)\<lparr>rowIndex := 0\<rparr>\<rparr>"
  have "returns s (processMessageCtx b2 b3 execute_message ?u)"
    by (rule returns_le [OF _ execute.call_ends]) (use 1(2) in simp)
  then show ?thesis using 1 by (auto simp: with_resend_def intro: returnsI)
qed

lemma with_mutex_ends:
  assumes "returns (s\<lparr>locked := True\<rparr>) (f (s\<lparr>locked := True\<rparr>))"
  shows "returns s (with_mutex f s)"
  using assms by (auto simp: with_mutex_def returns_def)

lemma shrinks_execute_reset: "shrinks execute_reset"
proof -
  have c: "shrinks (Close_stmt st)" for st :: stmt
    unfolding Close_stmt_def by (intro shrinks_rules)
  show ?thesis unfolding execute_reset_def by (intro shrinks_rules c)
qed

lemma Execute_ends: "returns s (Execute b1 b2 b3 o' s)"
proof (cases "stmt_closed (stm s)")
  case False
  let ?s = "s\<lparr>locked := True\<rparr>"
  obtain r t where e: "run_state execute_reset ?s = (r, t)" by fastforce
  have t: "unread t \<le> unread ?s" using shrinksD [OF shrinks_execute_reset e] .
  obtain r2 u where w: "with_resend b1 b2 b3 (start_message funcExecute (t\<lparr>dm := execute_data o'\<rparr>)) = Some (r2, u)"
      "unread u \<le> unread t" "isl r2 \<or> unread u < unread t"
    using with_resend_ends [of "start_message funcExecute (t\<lparr>dm := execute_data o'\<rparr>)"]
    by (rule returnsE) (use that in simp)
  have "returns s (with_mutex (\<lambda>s.
        if Closed s then Some (Inl (TnsErr ErrConnectionClosed), s)
        else case execute_checks o' (stm s) of Some e \<Rightarrow> Some (Inl e, s)
        | None \<Rightarrow>
          (case run_state execute_reset s of (Inl e, s) \<Rightarrow> Some (Inl e, s)
           | (Inr _, s) \<Rightarrow>
             Option.bind (with_resend b1 b2 b3 (start_message funcExecute (s\<lparr>dm := execute_data o'\<rparr>))) (\<lambda>(r, s).
               if isl r then Some (r, s)
               else Some (Inr (), s\<lparr>stm := (stm s)\<lparr>stmt_warning := warning (msg s)\<rparr>\<rparr>)))) s)"
    by (rule with_mutex_ends) (use e t w in \<open>auto simp: returns_def split: option.split sum.split\<close>)
  then show ?thesis using False by (simp add: Execute_def)
qed (simp add: Execute_def returnsI)

text \<open>A fetch that succeeds has received a packet, unless there was nothing to fetch.\<close>

lemma Fetch_ends: "moreRows (stm s) \<Longrightarrow> returns s (Fetch b1 b2 b3 sk n s)"
  unfolding Fetch_def Let_def
  by (auto intro!: returnsI with_mutex_ends)
    (rule returns_le [OF _ with_resend_ends] returns_le [OF _ fetch.call_ends]; simp)+

lemma Fetch_nothing: "\<not> moreRows (stm s) \<Longrightarrow> \<exists>r. Fetch b1 b2 b3 sk n s = Some (r, s)"
  by (simp add: Fetch_def)

lemma Fetch_returns: "\<exists>r s'. Fetch b1 b2 b3 sk n s = Some (r, s')"
  using Fetch_ends [of s b1 b2 b3 sk n] by (cases "moreRows (stm s)") (auto simp: returns_def Fetch_def)

lemma simple_call_returns: "returns s (simple_call fn before after s)"
  unfolding simple_call_def
  by (rule with_mutex_ends) (rule returns_le [OF _ simple.call_ends], simp)

text \<open>
  Property C12. On any finite sequence of bytes from the server, however it mixes rows, descriptions, errors, markers
  and resets, no loop or retry of a ping, a commit, a rollback, an execution or a fetch goes on for ever: the call
  returns, with no more input left than before, and where it succeeds with less (\<open>returns\<close>), so that the calls that
  succeed are at most as many as there are bytes; a fetch with no rows left returns at once. The bytes being finite
  matters: a server that answers every execution with ORA-01007 or ORA-00932 is sent the query again with every
  answer, as the finding on \<^verbatim>\<open>conn.go:815\<close> says. What can still stop a call are errors of the model: a mutex its own
  goroutine holds (\<open>Deadlock\<close>), and an SDU too small for a byte of payload (\<open>write_panic\<close>).
\<close>

theorem calls_return:
  "returns s (Ping before after s) \<and> returns s (Commit before after s) \<and> returns s (Rollback before after s) \<and>
   returns s (Execute before between after o' s) \<and>
   (if moreRows (stm s) then returns s (Fetch before between after sk n s) else \<exists>r. Fetch before between after sk n s = Some (r, s))"
  using Execute_ends [of s before between after o'] Fetch_ends [of s before between after sk n] Fetch_nothing [of s before between after sk n]
  by (simp add: Ping_def Commit_def Rollback_def simple_call_returns)

end
