(* ===== verification/AdbcReturns.thy ===== *)
theory AdbcReturns
  imports AdbcStatement TtcExecReturns
begin

text \<open>
  The calls of an application return: executing a statement, reading batches, committing, and the queries the driver
  makes itself.
\<close>

definition returns_on :: "'z world \<Rightarrow> ((ttc_error + unit) \<times> statement \<times> 'z world) option \<Rightarrow> bool" where
  "returns_on w x \<longleftrightarrow> (\<exists>r st w'. x = Some (r, st, w') \<and> (isl r \<or> unread (w_session w') < unread (w_session w)))"

lemma execute_on_returns: "returns_on w (execute_on env o' st w)"
proof -
  obtain b1 b2 b3 where c: "dr_ctx env (w_calls w) = (b1, b2, b3)" using prod_cases3 by blast
  obtain r s where "Execute b1 b2 b3 o' ((w_session w)\<lparr>stm := st, dm := new_data\<rparr>) = Some (r, s)"
      "isl r \<or> unread s < unread ((w_session w)\<lparr>stm := st, dm := new_data\<rparr>)"
    using Execute_ends by (blast elim: returnsE)
  then show ?thesis by (simp add: returns_on_def execute_on_def c)
qed

lemma describe_on_returns: "returns_on w (describe_on env st w)"
proof -
  have "describe_on env st w = execute_on env describe_options st w"
    by (simp add: describe_on_def execute_on_def Describe_def)
  then show ?thesis using execute_on_returns by metis
qed

lemma fetch_on_returns:
  assumes "moreRows st"
  shows "returns_on w (fetch_on env sk n st w)"
proof -
  obtain b1 b2 b3 where c: "dr_ctx env (w_calls w) = (b1, b2, b3)" using prod_cases3 by blast
  have "moreRows (stm ((w_session w)\<lparr>stm := st, dm := new_data\<rparr>))" using assms by simp
  from Fetch_ends [OF this] obtain r s where "Fetch b1 b2 b3 sk n ((w_session w)\<lparr>stm := st, dm := new_data\<rparr>) = Some (r, s)"
      "isl r \<or> unread s < unread ((w_session w)\<lparr>stm := st, dm := new_data\<rparr>)"
    by (blast elim: returnsE)
  then show ?thesis by (simp add: returns_on_def fetch_on_def c)
qed

lemma execute_on_total: "execute_on env o' st w \<noteq> None"
  using execute_on_returns [of w env o' st] by (auto simp: returns_on_def)

lemma describe_on_total: "describe_on env st w \<noteq> None"
  using describe_on_returns [of w env st] by (auto simp: returns_on_def)

subsection \<open>Loops over fetches\<close>

lemma query_rows_total: "query_rows env sk st w \<noteq> None"
proof (induction "unread (w_session w)" arbitrary: sk st w rule: less_induct)
  case less
  show ?case
  proof (cases "moreRows st")
    case True
    obtain r st1 w1 where f: "fetch_on env (Some (string_row_sink sk)) 1000 st w = Some (r, st1, w1)"
        "isl r \<or> unread (w_session w1) < unread (w_session w)"
      using fetch_on_returns [OF True] unfolding returns_on_def by blast
    show ?thesis
    proof (cases "fst (after_strings sk (r, st1, w1))")
      case (Inl e)
      then show ?thesis using True f(1) by (simp add: query_rows.simps [of env sk st w] after_strings_def)
    next
      case (Inr sk')
      then have "\<not> isl r" by (auto simp: after_strings_def isl_def split: sum.splits)
      then have "unread (w_session w1) < unread (w_session w)" using f(2) by blast
      from less [OF this, of sk' st1] show ?thesis
        using Inr True f(1) by (simp add: query_rows.simps [of env sk st w] after_strings_def)
    qed
  qed (simp add: query_rows.simps [of env sk st w])
qed

lemma queryAll_total: "queryAll env sql w \<noteq> None"
proof -
  obtain r st1 w1 where e: "execute_on env (query_options []) (Prepare (dr_unicode env) sql) w = Some (r, st1, w1)"
    using execute_on_total [of env "query_options []"] by fastforce
  show ?thesis
    using query_rows_total [of env _ st1 w1]
    by (auto simp: queryAll_def e after_strings_def split: sum.split)
qed

lemma fetch_rows_total: "fetch_rows env r s \<noteq> None"
proof (induction "unread s" arbitrary: r s rule: less_induct)
  case less
  show ?case
  proof (cases "wants_more r")
    case True
    obtain b1 b2 b3 where c: "re_ctx env (rd_calls r) = (b1, b2, b3)" using prod_cases3 by blast
    let ?n = "min (rd_batchSize r - sk_rows (rd_sink r)) (rd_prefetchRows r)"
    let ?s = "s\<lparr>stm := rd_stmt r, dm := new_data\<rparr>"
    have "moreRows (stm ?s)" using True by (simp add: wants_more_def)
    from Fetch_ends [OF this] obtain x s1 where
      f: "Fetch b1 b2 b3 (Some (arrow_row_sink (reader_conv env) (rd_sink r))) ?n ?s = Some (x, s1)" "isl x \<or> unread s1 < unread ?s"
      by (blast elim: returnsE)
    define r1 where "r1 = r\<lparr>rd_stmt := stm s1, rd_calls := rd_calls r + 1,
          rd_sink := sink_run (reader_conv env) (columns (stm s1)) (delivered (dm s1)) (rd_sink r)\<rparr>"
    have rf: "reader_fetch env ?n r s = Some (x, r1, s1)" using f(1) c by (simp add: reader_fetch_def r1_def)
    show ?thesis
    proof (cases x)
      case (Inl e)
      then show ?thesis using True rf by (simp add: fetch_rows.simps [of env r s])
    next
      case (Inr y)
      then have "unread s1 < unread s" using f(2) by simp
      from less [OF this, of r1] show ?thesis
        using True rf Inr by (simp add: fetch_rows.simps [of env r s] split: option.split)
    qed
  qed (simp add: fetch_rows.simps [of env r s])
qed

subsection \<open>Statements\<close>

lemma total_result: "x \<noteq> None \<Longrightarrow> \<exists>y. x = Some y"
  by simp

declare not_None_eq [simp del]

lemma bind_total: "x \<noteq> None \<Longrightarrow> (\<And>y. f y \<noteq> None) \<Longrightarrow> Option.bind x f \<noteq> None"
  by (cases x) simp_all

lemma bindW_total: "m w \<noteq> None \<Longrightarrow> (\<And>x w. f x w \<noteq> None) \<Longrightarrow> bindW m f w \<noteq> None"
  unfolding bindW_def by (rule bind_total) (simp_all split: prod.split sum.split)

lemma tryW_total: "m w \<noteq> None \<Longrightarrow> (\<And>x w. f x w \<noteq> None) \<Longrightarrow> tryW m f w \<noteq> None"
  unfolding tryW_def by (rule bind_total) (simp_all split: prod.split sum.split)

lemma thenP_total: "m n ins w \<noteq> None \<Longrightarrow> (\<And>n ins w. f n ins w \<noteq> None) \<Longrightarrow> thenP m f n ins w \<noteq> None"
  unfolding thenP_def by (rule bind_total) (simp_all split: prod.split sum.split)

lemma simple_total [simp]: "returnW x w \<noteq> None" "failW e w \<noteq> None"
  by (simp_all add: returnW_def failW_def)

lemma execNoResult_total: "execNoResult env sql w \<noteq> None"
  by (simp add: execNoResult_def execute_on_total)

lemma pump_slice_total: "pump_slice env r n ins w \<noteq> None"
  by (auto simp: pump_slice_def execute_on_total split: sum.split)

lemma pump_from_total: "pump_from env per r off n ins w \<noteq> None"
proof (induction env per r off arbitrary: n ins w rule: pump_from.induct)
  case (1 env per r off)
  show ?case
  proof (cases "per = 0 \<or> off \<ge> rec_NumRows r")
    case False
    then have e: "pump_from env per r off = thenP (pump_slice env (slice_record r off (min (off + per) (rec_NumRows r))))
        (pump_from env per r (off + per))" by (simp add: pump_from.simps [of env per r off])
    show ?thesis unfolding e by (rule thenP_total [OF pump_slice_total]) (use 1 False in blast)
  qed (simp add: pump_from.simps)
qed

lemma pump_stream_total: "pump_stream env per rs n ins w \<noteq> None"
proof (induction rs arbitrary: n ins w)
  case (Cons r rs)
  show ?case unfolding pump_stream.simps by (rule thenP_total [OF pump_from_total Cons.IH])
qed simp

lemma executeIngest_total: "executeIngest env (s, w) \<noteq> None"
proof -
  have r: "replaced env s w \<noteq> None" for w
    unfolding replaced_def Let_def by (rule tryW_total [OF execNoResult_total]) (simp split: sum.split)
  have c: "created env m s fs w \<noteq> None" for m fs w
    unfolding created_def Let_def
    by (simp split: prod.split option.split) (intro allI impI tryW_total execNoResult_total, simp split: sum.split)
  have "prepareIngestTarget env s fs w \<noteq> None" for fs w
    unfolding prepareIngestTarget_def Let_def by (simp add: bindW_total r c)
  then show ?thesis
    by (simp add: executeIngest_def, intro impI bindW_total) (simp_all add: pump_all_def pump_stream_total)
qed

lemma run_statement_total: "run_statement env o' st (s, w) \<noteq> None"
  by (simp add: run_statement_def execute_on_total)

lemma stream_query_total: "stream_query env st bs n (s, w) \<noteq> None"
  by (simp add: stream_query_def Let_def execute_on_total)

lemma with_binds_total:
  assumes "\<And>st bs n s w. f st bs n (s, w) \<noteq> None"
  shows "with_binds env f (s, w) \<noteq> None"
  using assms by (simp add: with_binds_def Let_def split: prod.split sum.split)

lemma ExecuteQuery_total: "ExecuteQuery env (s, w) \<noteq> None"
  by (simp add: ExecuteQuery_def executeIngest_total run_statement_total stream_query_total with_binds_total)

lemma ExecuteUpdate_total: "ExecuteUpdate env (s, w) \<noteq> None"
  by (simp add: ExecuteUpdate_def Let_def executeIngest_total run_statement_total with_binds_total)

lemma ExecuteSchema_total: "ExecuteSchema env (s, w) \<noteq> None"
  by (simp add: ExecuteSchema_def describe_on_total Let_def split: prod.split)

text \<open>
  Property C11. No loop keeps an application waiting for ever: executing a statement in each of its forms, an ingest of any
  size, the fetches of a batch and the queries behind the metadata calls come to an end on whatever finite sequence of
  bytes the server sends, but for the errors of the model \<open>Deadlock\<close> and \<open>write_panic\<close>.
\<close>

theorem statement_calls_return:
  "(\<exists>x. ExecuteQuery env (s, w) = Some x) \<and> (\<exists>x. ExecuteUpdate env (s, w) = Some x) \<and>
   (\<exists>x. ExecuteSchema env (s, w) = Some x) \<and> (\<exists>x. executeIngest env (s, w) = Some x) \<and>
   (\<exists>x. queryAll env sql w = Some x) \<and> (\<exists>x. fetch_rows re r z = Some x)"
  by (intro conjI total_result ExecuteQuery_total ExecuteUpdate_total ExecuteSchema_total executeIngest_total queryAll_total fetch_rows_total)

end
