(* ===== verification/AdbcMeta.thy ===== *)
theory AdbcMeta
  imports AdbcConnection
begin

text \<open>
  \<^verbatim>\<open>driver/oracle/metadata.go\<close>, \<^verbatim>\<open>metadata_objects.go\<close> and the structs of \<^verbatim>\<open>get_objects_types.go\<close>: what the driver says
  of the catalog, from queries on the data dictionary. A nil pointer is \<open>None\<close>; the readers the Arrow library makes of
  the structs are left to it, and \<open>dr_refs\<close> is the order in which a Go map yields the foreign keys.
\<close>

subsection \<open>Text of the queries\<close>

definition sqlString :: "bytes \<Rightarrow> bytes" where
  "sqlString s = [39] @ replace_byte 39 [39, 39] s @ [39]"

definition appendLikeQual :: "string \<Rightarrow> bytes option \<Rightarrow> bytes" where
  "appendLikeQual col pattern =
     (case pattern of None \<Rightarrow> []
      | Some p \<Rightarrow> asc '' AND '' @ asc col @
          (if p = [] then asc '' IS NULL''
           else if 37 \<in> set p \<or> 95 \<in> set p then asc '' LIKE '' @ sqlString p @ asc ('' ESCAPE '' @ quoted [CHR 0x5C])
           else asc '' = '' @ sqlString p))"

definition table_type_key :: "(nat \<Rightarrow> nat) \<Rightarrow> bytes \<Rightarrow> bytes" where
  "table_type_key T t = map_runes T (trim_space t)"

definition temporary_words :: "string list" where
  "temporary_words = [''GLOBAL TEMPORARY'', ''LOCAL TEMPORARY'', ''TEMPORARY'']"

definition type_code :: "bytes \<Rightarrow> string option" where
  "type_code u =
     (if one_of u [''TABLE'', ''BASE TABLE''] then Some ''TABLE''
      else if u = asc ''VIEW'' then Some ''VIEW''
      else if u = asc ''MATERIALIZED VIEW'' then Some ''MATERIALIZED VIEW''
      else if one_of u [''SYNONYM'', ''ALIAS''] then Some ''SYNONYM''
      else if one_of u temporary_words then Some ''TABLE'' else None)"

definition object_types :: "string list \<Rightarrow> bytes" where
  "object_types codes = asc '' AND O.OBJECT_TYPE IN ('' @ separated (asc '', '') (map (\<lambda>c. asc (quoted c)) codes) @ asc '')''"

definition tableTypeFilter :: "(nat \<Rightarrow> nat) \<Rightarrow> bytes list \<Rightarrow> bytes" where
  "tableTypeFilter T ts =
     (if ts = [] then object_types [''TABLE'', ''VIEW'', ''MATERIALIZED VIEW'', ''SYNONYM'']
      else let codes = List.map_filter (\<lambda>t. type_code (table_type_key T t)) ts in
        if codes = [] then asc '' AND 1 = 0'' else object_types codes)"

definition schemas_query :: "bytes option \<Rightarrow> bytes" where
  "schemas_query flt = asc ''SELECT USERNAME FROM ALL_USERS WHERE 1 = 1'' @ appendLikeQual ''USERNAME'' flt @ asc '' ORDER BY USERNAME''"

definition tables_query :: "(nat \<Rightarrow> nat) \<Rightarrow> bytes \<Rightarrow> bytes option \<Rightarrow> bytes list \<Rightarrow> bytes" where
  "tables_query T schema flt ts =
     asc (''SELECT O.OBJECT_NAME, O.OBJECT_TYPE, T.TEMPORARY FROM ALL_OBJECTS O LEFT JOIN ALL_TABLES T ON T.OWNER = O.OWNER AND '' @
       ''T.TABLE_NAME = O.OBJECT_NAME WHERE O.OWNER = '') @ sqlString schema @
     asc ('' AND O.OBJECT_NAME NOT LIKE '' @ quoted ''BIN$%'') @ appendLikeQual ''O.OBJECT_NAME'' flt @ tableTypeFilter T ts @
     asc '' ORDER BY O.OBJECT_NAME''"

definition columns_query :: "bytes \<Rightarrow> bytes option \<Rightarrow> bytes option \<Rightarrow> bytes" where
  "columns_query schema tables cols =
     asc (''SELECT C.TABLE_NAME, C.COLUMN_NAME, C.COLUMN_ID, C.DATA_TYPE, C.DATA_LENGTH, C.DATA_PRECISION, C.DATA_SCALE, '' @
       ''C.NULLABLE, C.DATA_DEFAULT, C.CHAR_LENGTH, C.IDENTITY_COLUMN, C.VIRTUAL_COLUMN, M.COMMENTS'' @ [CHR 0x0A] @
       ''FROM ALL_TAB_COLS C LEFT JOIN ALL_COL_COMMENTS M ON M.OWNER = C.OWNER AND M.TABLE_NAME = C.TABLE_NAME AND '' @
       ''M.COLUMN_NAME = C.COLUMN_NAME'' @ [CHR 0x0A] @ ''WHERE C.OWNER = '') @ sqlString schema @
     asc ('' AND C.HIDDEN_COLUMN = '' @ quoted ''NO'') @ appendLikeQual ''C.TABLE_NAME'' tables @ appendLikeQual ''C.COLUMN_NAME'' cols @
     asc '' ORDER BY C.TABLE_NAME, C.COLUMN_ID''"

definition constraints_query :: "bytes \<Rightarrow> bytes option \<Rightarrow> bytes" where
  "constraints_query schema tables =
     asc (''SELECT K.TABLE_NAME, K.CONSTRAINT_NAME, T.CONSTRAINT_TYPE, K.COLUMN_NAME, K.POSITION, T.R_OWNER, T.R_CONSTRAINT_NAME'' @
       [CHR 0x0A] @ ''FROM ALL_CONS_COLUMNS K JOIN ALL_CONSTRAINTS T ON T.OWNER = K.OWNER AND '' @
       ''T.CONSTRAINT_NAME = K.CONSTRAINT_NAME AND T.TABLE_NAME = K.TABLE_NAME'' @ [CHR 0x0A] @ ''WHERE K.OWNER = '') @ sqlString schema @
     asc ('' AND T.CONSTRAINT_TYPE IN ('' @ quoted ''P'' @ '', '' @ quoted ''U'' @ '', '' @ quoted ''R'' @ '')'') @
     appendLikeQual ''K.TABLE_NAME'' tables @ asc '' ORDER BY K.TABLE_NAME, K.CONSTRAINT_NAME, K.POSITION''"

definition parents_query :: "(bytes \<times> bytes) list \<Rightarrow> bytes" where
  "parents_query refs =
     asc (''SELECT K.OWNER, K.CONSTRAINT_NAME, K.TABLE_NAME, K.COLUMN_NAME, K.POSITION'' @ [CHR 0x0A] @
       ''FROM ALL_CONS_COLUMNS K WHERE (K.OWNER, K.CONSTRAINT_NAME) IN ('') @
     separated (asc '', '') (map (\<lambda>(owner, n). asc ''('' @ sqlString owner @ asc '', '' @ sqlString n @ asc '')'') refs) @
     asc '') ORDER BY K.OWNER, K.CONSTRAINT_NAME, K.POSITION''"

subsection \<open>Types\<close>

definition starts_with :: "string \<Rightarrow> bytes \<Rightarrow> bool" where
  "starts_with p b \<longleftrightarrow> HasPrefix b (asc p)"

definition renderTypeName :: "bytes \<Rightarrow> int \<Rightarrow> int \<Rightarrow> int \<Rightarrow> bool \<Rightarrow> int \<Rightarrow> bool \<Rightarrow> bytes" where
  "renderTypeName typeName len charLen precision hasPrec sc hasScale =
     (if typeName = asc ''NUMBER'' then
        (if hasPrec \<and> hasScale then asc (''NUMBER('' @ dec_int precision @ '','' @ dec_int sc @ '')'')
         else if hasPrec then sized (asc ''NUMBER'') precision else asc ''NUMBER'')
      else if typeName = asc ''FLOAT'' then (if hasPrec then sized (asc ''FLOAT'') precision else asc ''FLOAT'')
      else if one_of typeName [''VARCHAR2'', ''NVARCHAR2'', ''CHAR'', ''NCHAR''] then sized typeName (if charLen > 0 then charLen else len)
      else if typeName = asc ''RAW'' then sized (asc ''RAW'') len
      else typeName)"

definition xdbc_codes :: "(string list \<times> int) list" where
  "xdbc_codes = [([''FLOAT''], 6), ([''BINARY_FLOAT''], 100), ([''BINARY_DOUBLE''], 101), ([''CHAR''], 1), ([''NCHAR''], -15),
     ([''VARCHAR2'', ''VARCHAR''], 12), ([''NVARCHAR2''], -9), ([''LONG''], -1), ([''CLOB''], 2005), ([''NCLOB''], 2011),
     ([''BLOB''], 2004), ([''RAW''], -3), ([''LONG RAW''], -4), ([''DATE''], 93)]"

definition xdbc_late_codes :: "(string list \<times> int) list" where
  "xdbc_late_codes = [([''BOOLEAN''], 16), ([''ROWID'', ''UROWID''], -8), ([''JSON''], 2016), ([''XMLTYPE''], 2009)]"

definition xdbcDataType :: "bytes \<Rightarrow> bool \<Rightarrow> int" where
  "xdbcDataType typeName integral =
     (if typeName = asc ''NUMBER'' then (if integral then -5 else 2)
      else case lookup_word typeName xdbc_codes of Some n \<Rightarrow> n
      | None \<Rightarrow>
        if starts_with ''TIMESTAMP'' typeName \<and> Contains typeName (asc ''TIME ZONE'') then 2014
        else if starts_with ''TIMESTAMP'' typeName then 93
        else case lookup_word typeName xdbc_late_codes of Some n \<Rightarrow> n | None \<Rightarrow> 1111)"

subsection \<open>Results\<close>

record columnInfo =
  ColumnName :: bytes
  OrdinalPosition :: "int option"
  Remarks :: "bytes option"
  XdbcDataType :: "int option"
  XdbcTypeName :: "bytes option"
  XdbcColumnSize :: "int option"
  XdbcDecimalDigits :: "int option"
  XdbcNumPrecRadix :: "int option"
  XdbcNullable :: "int option"
  XdbcColumnDef :: "bytes option"
  XdbcSqlDataType :: "int option"
  XdbcDatetimeSub :: "int option"
  XdbcCharOctetLength :: "int option"
  XdbcIsNullable :: "bytes option"
  XdbcScopeCatalog :: "bytes option"
  XdbcScopeSchema :: "bytes option"
  XdbcScopeTable :: "bytes option"
  XdbcIsAutoincrement :: "bool option"
  XdbcIsGeneratedcolumn :: "bool option"

record constraintColumnUsage =
  FkCatalog :: "bytes option"
  FkDbSchema :: "bytes option"
  FkTable :: bytes
  FkColumnName :: bytes

record constraintInfo =
  ConstraintName :: "bytes option"
  ConstraintType :: bytes
  ConstraintColumnNames :: "bytes list"
  ConstraintColumnUsage :: "constraintColumnUsage list"

record tableInfo =
  TableName :: bytes
  TableType :: bytes
  TableColumns :: "columnInfo list"
  TableConstraints :: "constraintInfo list"

record dbSchemaInfo =
  DbSchemaName :: "bytes option"
  DbSchemaTables :: "tableInfo list"

record getObjectsInfo =
  CatalogName :: "bytes option"
  CatalogDbSchemas :: "dbSchemaInfo list"

text \<open>Rows in order, the first that panics ends the call.\<close>

fun each_row :: "(stringRow \<Rightarrow> 'a option) \<Rightarrow> stringRow list \<Rightarrow> 'a list option" where
  "each_row f [] = Some []"
| "each_row f (r # rs) = Option.bind (f r) (\<lambda>x. map_option ((#) x) (each_row f rs))"

text \<open>The entries of a key, in order.\<close>

definition grouped :: "('k \<times> 'a) list \<Rightarrow> 'k \<Rightarrow> 'a list" where
  "grouped kvs k = map snd (filter (\<lambda>(k', _). k' = k) kvs)"

subsection \<open>Columns\<close>

definition int16_of :: "int \<Rightarrow> int" where
  "int16_of = wrap_signed 16"

definition row_int :: "stringRow \<Rightarrow> nat \<Rightarrow> int option" where
  "row_int r i = map_option (\<lambda>b. fst (Atoi b)) (row_get r i)"

text \<open>A number that may be null: its value, and whether it is there.\<close>

definition row_number :: "stringRow \<Rightarrow> nat \<Rightarrow> (int \<times> bool) option" where
  "row_number r i = Option.bind (row_isNull r i) (\<lambda>null. if null then Some (0, False) else map_option (\<lambda>n. (n, True)) (row_int r i))"

definition ordinal :: "bytes \<Rightarrow> int option" where
  "ordinal b = (case Atoi b of (n, err) \<Rightarrow> if err then None else Some (int32_of n))"

definition row_text :: "stringRow \<Rightarrow> nat \<Rightarrow> bytes option option" where
  "row_text r i = Option.bind (row_isNull r i) (\<lambda>null. if null then Some None else map_option Some (row_get r i))"

definition size_of :: "int \<Rightarrow> int \<Rightarrow> int \<times> bool \<Rightarrow> int" where
  "size_of len charLen prec = int32_of (if snd prec then fst prec else if charLen > 0 then charLen else len)"

definition column_row :: "stringRow \<Rightarrow> (bytes \<times> columnInfo) option" where
  "column_row r = do {
     tab \<leftarrow> row_get r 0;
     nm \<leftarrow> row_get r 1;
     pos \<leftarrow> row_get r 2;
     typeName \<leftarrow> row_get r 3;
     len \<leftarrow> row_int r 4;
     prec \<leftarrow> row_number r 5;
     sc \<leftarrow> row_number r 6;
     charLen \<leftarrow> row_int r 9;
     nullable \<leftarrow> row_get r 7;
     def \<leftarrow> row_text r 8;
     comment \<leftarrow> row_text r 12;
     auto \<leftarrow> row_get r 10;
     gen \<leftarrow> row_get r 11;
     let dt = xdbcDataType typeName (snd sc \<and> fst sc = 0 \<and> snd prec);
     Some (tab, \<lparr>ColumnName = nm, OrdinalPosition = ordinal pos,
       Remarks = (if comment = Some [] then None else comment),
       XdbcDataType = Some dt,
       XdbcTypeName = Some (renderTypeName typeName len charLen (fst prec) (snd prec) (fst sc) (snd sc)),
       XdbcColumnSize = Some (size_of len charLen prec),
       XdbcDecimalDigits = (if snd sc then Some (int16_of (fst sc)) else None),
       XdbcNumPrecRadix = Some 10,
       XdbcNullable = Some (if nullable = asc ''Y'' then 1 else 0),
       XdbcColumnDef = map_option trim_space def,
       XdbcSqlDataType = Some dt, XdbcDatetimeSub = None,
       XdbcCharOctetLength = Some (int32_of len),
       XdbcIsNullable = Some (if nullable = asc ''Y'' then asc ''YES'' else asc ''NO''),
       XdbcScopeCatalog = None, XdbcScopeSchema = None, XdbcScopeTable = None,
       XdbcIsAutoincrement = Some (auto = asc ''YES''), XdbcIsGeneratedcolumn = Some (gen = asc ''YES'')\<rparr>) }"

definition listColumns :: "driver_env \<Rightarrow> bytes \<Rightarrow> bytes option \<Rightarrow> bytes option \<Rightarrow> ('z, (bytes \<times> columnInfo) list) world_op" where
  "listColumns env schema tables cols =
     bindW (queryAll env (columns_query schema tables cols)) (\<lambda>rows. liftW (from_row (each_row column_row rows)))"

subsection \<open>Constraints\<close>

type_synonym constraint_key = "bytes \<times> bytes"

record constraint_state =
  by_key :: "(constraint_key \<times> constraintInfo) list"
  key_refs :: "(constraint_key \<times> bytes \<times> bytes) list"

definition constraint_type :: "bytes \<Rightarrow> bytes" where
  "constraint_type t = asc (if t = asc ''P'' then ''PRIMARY KEY'' else if t = asc ''R'' then ''FOREIGN KEY''
     else if t = asc ''C'' then ''CHECK'' else ''UNIQUE'')"

definition add_column :: "constraint_key \<Rightarrow> bytes \<Rightarrow> constraint_state \<Rightarrow> constraint_state" where
  "add_column k col s =
     s\<lparr>by_key := map (\<lambda>(k', ci). (k', if k' = k then ci\<lparr>ConstraintColumnNames := ConstraintColumnNames ci @ [col]\<rparr> else ci)) (by_key s)\<rparr>"

definition constraint_row :: "stringRow \<Rightarrow> constraint_state \<Rightarrow> constraint_state option" where
  "constraint_row r s = do {
     tab \<leftarrow> row_get r 0;
     nm \<leftarrow> row_get r 1;
     col \<leftarrow> row_get r 3;
     (if (tab, nm) \<in> fst ` set (by_key s) then Some (add_column (tab, nm) col s)
      else do {
        t \<leftarrow> row_get r 2;
        refs \<leftarrow> (if t = asc ''R'' then do { owner \<leftarrow> row_get r 5; n \<leftarrow> row_get r 6; Some [((tab, nm), owner, n)] } else Some []);
        let ci = \<lparr>ConstraintName = Some nm, ConstraintType = constraint_type t, ConstraintColumnNames = [], ConstraintColumnUsage = []\<rparr>;
        Some (add_column (tab, nm) col
          (s\<lparr>by_key := by_key s @ [((tab, nm), ci)],
             key_refs := key_refs s @ refs\<rparr>)) }) }"

fun constraint_rows :: "stringRow list \<Rightarrow> constraint_state \<Rightarrow> constraint_state option" where
  "constraint_rows [] s = Some s"
| "constraint_rows (r # rs) s = Option.bind (constraint_row r s) (constraint_rows rs)"

text \<open>The referenced columns, by owner and name of the parent key.\<close>

definition parent_row :: "stringRow \<Rightarrow> ((bytes \<times> bytes) \<times> bytes \<times> bytes) option" where
  "parent_row r = do {
     owner \<leftarrow> row_get r 0; n \<leftarrow> row_get r 1; tab \<leftarrow> row_get r 2; col \<leftarrow> row_get r 3;
     Some ((owner, n), tab, col) }"

definition usage :: "bytes \<Rightarrow> ((bytes \<times> bytes) \<times> bytes \<times> bytes) list \<Rightarrow> bytes \<times> bytes \<Rightarrow> constraintColumnUsage list" where
  "usage dbName parents rf = map (\<lambda>(tab, col). \<lparr>FkCatalog = Some dbName, FkDbSchema = Some (fst rf), FkTable = tab, FkColumnName = col\<rparr>)
     (grouped parents rf)"

definition with_usage :: "bytes \<Rightarrow> ((bytes \<times> bytes) \<times> bytes \<times> bytes) list \<Rightarrow> constraint_state \<Rightarrow> (constraint_key \<times> constraintInfo) list" where
  "with_usage dbName parents s =
     map (\<lambda>(k, ci). (k, case map_of (key_refs s) k of None \<Rightarrow> ci
        | Some rf \<Rightarrow> ci\<lparr>ConstraintColumnUsage := usage dbName parents rf\<rparr>)) (by_key s)"

definition by_table :: "(constraint_key \<times> constraintInfo) list \<Rightarrow> (bytes \<times> constraintInfo) list" where
  "by_table kcs = map (\<lambda>((tab, _), ci). (tab, ci)) kcs"

definition listConstraints :: "driver_env \<Rightarrow> bytes \<Rightarrow> bytes option \<Rightarrow> ('z, (bytes \<times> constraintInfo) list) world_op" where
  "listConstraints env schema tables =
     bindW (queryAll env (constraints_query schema tables)) (\<lambda>rows.
     bindW (liftW (from_row (constraint_rows rows \<lparr>by_key = [], key_refs = []\<rparr>))) (\<lambda>s.
       if key_refs s = [] then returnW (by_table (by_key s))
       else bindW (queryAll env (parents_query (map snd (dr_refs env (key_refs s))))) (\<lambda>rows.
         bindW (liftW (from_row (each_row parent_row rows))) (\<lambda>parents w.
           returnW (by_table (with_usage (si_dbName (sinfo (w_session w))) parents s)) w))))"

subsection \<open>Tables\<close>

text \<open>Only temporary tables are wanted when a temporary type is asked for and no plain one.\<close>

definition only_temporary :: "(nat \<Rightarrow> nat) \<Rightarrow> bytes list \<Rightarrow> bool" where
  "only_temporary T ts \<longleftrightarrow>
     list_ex (\<lambda>t. one_of (table_type_key T t) temporary_words) ts \<and> \<not> list_ex (\<lambda>t. one_of (table_type_key T t) [''TABLE'', ''BASE TABLE'']) ts"

text \<open>A row of the query: \<open>Some None\<close> for a table that is passed over.\<close>

definition table_row :: "bool \<Rightarrow> (bytes \<Rightarrow> columnInfo list) \<Rightarrow> (bytes \<Rightarrow> constraintInfo list) \<Rightarrow> stringRow \<Rightarrow> tableInfo option option" where
  "table_row onlyTemp cols cons r = do {
     nm \<leftarrow> row_get r 0;
     typ \<leftarrow> row_get r 1;
     temp \<leftarrow> (if typ = asc ''TABLE'' then map_option (\<lambda>t. t = asc ''Y'') (row_get r 2) else Some False);
     Some (if typ = asc ''TABLE'' \<and> \<not> temp \<and> onlyTemp then None
       else Some \<lparr>TableName = nm, TableType = (if temp then asc ''GLOBAL TEMPORARY'' else typ),
         TableColumns = cols nm, TableConstraints = cons nm\<rparr>) }"

definition listTables :: "driver_env \<Rightarrow> bytes \<Rightarrow> bytes option \<Rightarrow> bytes option \<Rightarrow> bytes list \<Rightarrow> bool \<Rightarrow> ('z, tableInfo list) world_op" where
  "listTables env schema tables cols ts includeColumns =
     (let T = oe_upper (dr_options env) in
      bindW (queryAll env (tables_query T schema tables ts)) (\<lambda>rows.
      let wanted = includeColumns \<and> rows \<noteq> [] in
      bindW (if wanted then listColumns env schema tables cols else returnW []) (\<lambda>cs.
      bindW (if wanted then listConstraints env schema tables else returnW []) (\<lambda>ks.
      liftW (from_row (map_option (List.map_filter id)
        (each_row (table_row (only_temporary T ts) (grouped cs) (grouped ks)) rows)))))))"

definition listSchemas :: "driver_env \<Rightarrow> bytes option \<Rightarrow> ('z, bytes list) world_op" where
  "listSchemas env flt = bindW (queryAll env (schemas_query flt)) (\<lambda>rows. liftW (from_row (each_row (\<lambda>r. row_get r 0) rows)))"

datatype object_depth = DepthAll | DepthCatalogs | DepthDBSchemas | DepthTables | DepthColumns

fun schema_entries :: "(bytes \<Rightarrow> ('z, tableInfo list) world_op) \<Rightarrow> bytes list \<Rightarrow> ('z, dbSchemaInfo list) world_op" where
  "schema_entries f [] = returnW []"
| "schema_entries f (sch # ss) = bindW (f sch) (\<lambda>ts. bindW (schema_entries f ss) (\<lambda>es.
     returnW (\<lparr>DbSchemaName = Some sch, DbSchemaTables = ts\<rparr> # es)))"

text \<open>\<open>strings.EqualFold\<close> on texts.\<close>

definition equal_fold :: "(nat \<Rightarrow> nat) \<Rightarrow> bytes \<Rightarrow> bytes \<Rightarrow> bool" where
  "equal_fold T a b \<longleftrightarrow> map T (utf8_runes (length a) a) = map T (utf8_runes (length b) b)"

definition getObjects :: "driver_env \<Rightarrow> object_depth \<Rightarrow> bytes option \<Rightarrow> bytes option \<Rightarrow> bytes option \<Rightarrow> bytes option \<Rightarrow> bytes list \<Rightarrow>
    ('z, getObjectsInfo list) world_op" where
  "getObjects env depth catalog dbSchema tableName columnName ts w =
     (let inf = sinfo (w_session w); dbName = or_else (si_dbName inf) (si_serviceName inf);
          entry = (\<lambda>es. [\<lparr>CatalogName = Some dbName, CatalogDbSchemas = es\<rparr>]);
          cols = (depth = DepthAll \<or> depth = DepthColumns) in
      if (case catalog of None \<Rightarrow> False | Some c \<Rightarrow> c \<noteq> [] \<and> \<not> equal_fold (dr_fold env) c dbName) then returnW [] w
      else if depth = DepthCatalogs then returnW (entry []) w
      else bindW (listSchemas env dbSchema) (\<lambda>ss.
        bindW (schema_entries (\<lambda>sch. if depth = DepthDBSchemas then returnW [] else listTables env sch tableName columnName ts cols) ss)
          (\<lambda>es. returnW (entry es))) w)"

subsection \<open>The other calls\<close>

definition oracleTableTypes :: "string list" where
  "oracleTableTypes = [''TABLE'', ''VIEW'', ''MATERIALIZED VIEW'', ''SYNONYM'', ''GLOBAL TEMPORARY'']"

datatype info_code = InfoVendorName | InfoVendorVersion | InfoVendorSql | InfoVendorSubstrait | InfoDriverName
  | InfoDriverVersion | InfoDriverArrowVersion | InfoDriverADBCVersion | OtherInfo nat

datatype info_value = InfoText "bytes option" | InfoInt int | InfoBool bool

definition supportedInfoCodes :: "info_code list" where
  "supportedInfoCodes = [InfoVendorName, InfoVendorVersion, InfoVendorSql, InfoVendorSubstrait, InfoDriverName, InfoDriverVersion,
     InfoDriverArrowVersion, InfoDriverADBCVersion]"

definition driverVersion :: "driver_env \<Rightarrow> bytes" where
  "driverVersion env = (case dr_build env of None \<Rightarrow> Version (dr_options env)
     | Some v \<Rightarrow> if v \<noteq> [] \<and> v \<noteq> asc ''(devel)'' then v else Version (dr_options env))"

definition ServerVersionString :: "session_info \<Rightarrow> bytes" where
  "ServerVersionString i = separated [46] (map (\<lambda>v. asc (dec_nat (unat v))) (si_serverVersion i))"

definition info_for :: "driver_env \<Rightarrow> session_info \<Rightarrow> info_code \<Rightarrow> info_value" where
  "info_for env i code =
     (case code of
        InfoVendorName \<Rightarrow> InfoText (Some (asc ''Oracle Database''))
      | InfoVendorVersion \<Rightarrow> InfoText (Some (ServerVersionString i))
      | InfoVendorSql \<Rightarrow> InfoBool True
      | InfoVendorSubstrait \<Rightarrow> InfoBool False
      | InfoDriverName \<Rightarrow> InfoText (Some (asc ''ADBC Oracle Driver - Go''))
      | InfoDriverVersion \<Rightarrow> InfoText (Some (driverVersion env))
      | InfoDriverArrowVersion \<Rightarrow> InfoText (Some (asc ''arrow-go/v18''))
      | InfoDriverADBCVersion \<Rightarrow> InfoInt (AdbcVersion1_1_0 (dr_keys env))
      | OtherInfo _ \<Rightarrow> InfoText None)"

definition getInfo :: "driver_env \<Rightarrow> info_code list \<Rightarrow> session_info \<Rightarrow> (info_code \<times> info_value) list" where
  "getInfo env codes i = map (\<lambda>c. (c, info_for env i c)) (if codes = [] then supportedInfoCodes else codes)"

definition getTableSchema :: "driver_env \<Rightarrow> bytes option \<Rightarrow> bytes \<Rightarrow> ('z, arrow_field list) world_op" where
  "getTableSchema env dbSchema tableName w =
     (let T = oe_upper (dr_options env);
          qualified = (case dbSchema of Some d \<Rightarrow> if d \<noteq> [] then identFor T d @ [46] @ identFor T tableName else identFor T tableName
            | None \<Rightarrow> identFor T tableName) in
      map_option (\<lambda>(r, st, w). (map_sum (call_status None) (\<lambda>_. schemaFor (columns st) (types (cn_cfg (w_conn w)))) r, snd (close_on st w)))
        (describe_on env (Prepare (dr_unicode env) (asc ''SELECT * FROM '' @ qualified)) w))"

end
